(* ===== verification/Mw_Prelude.thy ===== *)
theory Mw_Prelude
  imports Main "HOL-Library.Word" "HOL-Library.Char_ord" "HOL-Library.List_Lexorder"
begin

text \<open>
  Shared vocabulary of the development: the byte strings the middleware moves around, the ways a
  C++ call can fail, the rendering of numbers into text, and the generic list and word lemmas the
  component theories rely on.  Collections: \<open>mw_split\<close> holds the case-split rules of the result
  types, \<open>mw_eval\<close> the equations that witnesses evaluate with.
\<close>

named_theorems mw_split \<open>split rules of the model's result types\<close>
named_theorems mw_eval \<open>equations used to evaluate concrete configurations\<close>

section \<open>Types\<close>

type_synonym byte = "8 word"
type_synonym bytes = "byte list"
type_synonym u16 = "16 word"
type_synonym u32 = "32 word"
type_synonym u64 = "64 word"

text \<open>
  What can end a C++ call other than a return: a failed \<open>assert\<close>, a thrown exception, a standard
  library precondition, or the dereference of an empty smart pointer.
\<close>

datatype cpp_error =
    AssertFailed
  | RuntimeError string
  | InvalidArgument string
  | OutOfRange string
  | PromiseAlreadySatisfied
  | FutureAlreadyRetrieved
  | NullDereference

type_synonym 'a cpp = "cpp_error + 'a"

text \<open>
  \<open>e.what()\<close> for the errors that are \<open>std::exception\<close> objects and can be caught; a failed
  assertion and a null dereference end the process and cannot.
\<close>

fun exception_what :: "cpp_error \<Rightarrow> string option" where
  "exception_what AssertFailed = None"
| "exception_what NullDereference = None"
| "exception_what (RuntimeError w) = Some w"
| "exception_what (InvalidArgument w) = Some w"
| "exception_what (OutOfRange w) = Some w"
| "exception_what PromiseAlreadySatisfied = Some ''std::future_error: Promise already satisfied''"
| "exception_what FutureAlreadyRetrieved = Some ''std::future_error: Future already retrieved''"

section \<open>Rendering numbers\<close>

text \<open>\<open>std::to_string\<close> and \<open>operator<<\<close> on an unsigned integer: decimal digits, no padding.\<close>

definition digit_char :: "nat \<Rightarrow> char" where
  "digit_char d = char_of (48 + d)"

fun show_nat :: "nat \<Rightarrow> string" where
  "show_nat n = (if n < 10 then [digit_char n] else show_nat (n div 10) @ [digit_char (n mod 10)])"

declare show_nat.simps [simp del]

text \<open>\<open>std::to_string\<close> on a signed integer.\<close>

definition show_int :: "int \<Rightarrow> string" where
  "show_int i = (if i < 0 then CHR ''-'' # show_nat (nat (- i)) else show_nat (nat i))"

text \<open>The value a decimal numeral denotes; the inverse of \<open>show_nat\<close>.\<close>

definition digit_val :: "char \<Rightarrow> nat" where
  "digit_val c = of_char c - 48"

definition read_nat :: "string \<Rightarrow> nat" where
  "read_nat s = foldl (\<lambda>acc c. 10 * acc + digit_val c) 0 s"

section \<open>Characters\<close>

text \<open>\<open>std::isspace\<close> in the C locale.\<close>

definition isspace :: "char \<Rightarrow> bool" where
  "isspace c \<longleftrightarrow> (let n = (of_char c :: nat) in n = 32 \<or> (9 \<le> n \<and> n \<le> 13))"

section \<open>Generic lemmas\<close>

lemmas [mw_split] = sum.splits option.splits if_splits

lemma digit_val_digit_char [simp]: "d < 10 \<Longrightarrow> digit_val (digit_char d) = d"
  by (simp add: digit_val_def digit_char_def)

lemma read_nat_append_digit:
  "read_nat (s @ [c]) = 10 * read_nat s + digit_val c"
  by (simp add: read_nat_def)

lemma read_show_nat [simp]: "read_nat (show_nat n) = n"
proof (induction n rule: show_nat.induct)
  case (1 n)
  show ?case
  proof (cases "n < 10")
    case True
    then show ?thesis by (simp add: show_nat.simps [of n] read_nat_def)
  next
    case False
    then have "read_nat (show_nat n) = 10 * (n div 10) + n mod 10"
      using 1 by (simp add: show_nat.simps [of n] read_nat_append_digit)
    then show ?thesis by simp
  qed
qed

lemma show_nat_inject [simp]: "show_nat m = show_nat n \<longleftrightarrow> m = n"
  by (metis read_show_nat)

lemma show_nat_nonempty [simp]: "show_nat n \<noteq> []"
  by (subst show_nat.simps) simp

text \<open>
  \<open>std::find_if\<close> as the model uses it: the first element with the property, and membership of the
  predicate in the list.
\<close>

lemma find_Some_iff_ex: "(\<exists>y. List.find P xs = Some y) \<longleftrightarrow> (\<exists>x \<in> set xs. P x)"
  by (induction xs) auto

lemma find_not_None [simp]: "List.find P xs \<noteq> None \<longleftrightarrow> (\<exists>x \<in> set xs. P x)"
  using find_Some_iff_ex [of P xs] by auto

lemma map_of_rev_snoc [simp]:
  "map_of (rev (kvs @ [(k, v)])) x = (if x = k then Some v else map_of (rev kvs) x)"
  by simp

text \<open>A counter of width 16 returns to its value after exactly 65536 increments.\<close>

lemma word16_add_of_nat_eq_iff:
  "(k :: u16) + of_nat n = k \<longleftrightarrow> 65536 dvd n"
proof -
  have "k + of_nat n = k \<longleftrightarrow> (of_nat n :: u16) = 0" by simp
  also have "\<dots> \<longleftrightarrow> 2 ^ LENGTH(16) dvd n"
    by (rule word_of_nat_eq_0_iff)
  finally show ?thesis by simp
qed

end
