(* ===== verification/Mw_Defines.thy ===== *)
theory Mw_Defines
  imports Mw_Prelude
begin

text \<open>
  The common definitions of the framework (\<open>lib/framework/common/MiddlewareDefines.h\<close>): status codes,
  requests, replies and the payload limit every transport path checks.
\<close>

datatype StatusCode =
    STATUS_CODE_UNSPECIFIED
  | STATUS_CODE_SUCCESS
  | STATUS_CODE_SERVER_NOT_AVAILABLE
  | STATUS_CODE_CLIENT_TIMEOUT_ERROR
  | STATUS_CODE_SERVER_TIMEOUT_ERROR
  | STATUS_CODE_REQUESTED_NOT_FOUND_FAILURE
  | STATUS_CODE_REQUEST_FORMAT_ERROR
  | STATUS_CODE_REPLY_FORMAT_ERROR
  | STATUS_CODE_CLIENT_REQUEST_SIZE_ERROR
  | STATUS_CODE_SERVER_NO_REPLY_ERROR
  | STATUS_CODE_SERVER_INTERNAL_ERROR
  | STATUS_CODE_CLIENT_INIT_ERROR
  | STATUS_CODE_SERVER_REQUEST_SIZE_ERROR

text \<open>\<open>static_cast<uint32_t>\<close> of the scoped enumeration.\<close>

fun StatusCode_to_u32 :: "StatusCode \<Rightarrow> u32" where
  "StatusCode_to_u32 STATUS_CODE_UNSPECIFIED = 0"
| "StatusCode_to_u32 STATUS_CODE_SUCCESS = 1"
| "StatusCode_to_u32 STATUS_CODE_SERVER_NOT_AVAILABLE = 2"
| "StatusCode_to_u32 STATUS_CODE_CLIENT_TIMEOUT_ERROR = 3"
| "StatusCode_to_u32 STATUS_CODE_SERVER_TIMEOUT_ERROR = 4"
| "StatusCode_to_u32 STATUS_CODE_REQUESTED_NOT_FOUND_FAILURE = 5"
| "StatusCode_to_u32 STATUS_CODE_REQUEST_FORMAT_ERROR = 6"
| "StatusCode_to_u32 STATUS_CODE_REPLY_FORMAT_ERROR = 7"
| "StatusCode_to_u32 STATUS_CODE_CLIENT_REQUEST_SIZE_ERROR = 8"
| "StatusCode_to_u32 STATUS_CODE_SERVER_NO_REPLY_ERROR = 9"
| "StatusCode_to_u32 STATUS_CODE_SERVER_INTERNAL_ERROR = 10"
| "StatusCode_to_u32 STATUS_CODE_CLIENT_INIT_ERROR = 11"
| "StatusCode_to_u32 STATUS_CODE_SERVER_REQUEST_SIZE_ERROR = 12"

record Request =
  rq_serialized_protobuf :: bytes

record Status =
  status_code :: StatusCode
  status_message :: string

record Reply =
  rp_status :: Status
  rp_serialized_protobuf :: bytes

definition n_MaxPayloadByteCount :: nat where
  "n_MaxPayloadByteCount = 4000000"

text \<open>\<open>Status{}\<close> and \<open>Reply{}\<close>: value initialisation with the members' default initialisers.\<close>

definition Status_default :: Status where
  "Status_default = \<lparr>status_code = STATUS_CODE_UNSPECIFIED, status_message = []\<rparr>"

definition Reply_default :: Reply where
  "Reply_default = \<lparr>rp_status = Status_default, rp_serialized_protobuf = []\<rparr>"

text \<open>\<open>reply.status.status_code = c\<close> and \<open>reply.status.status_message = m\<close>.\<close>

definition set_status_code :: "StatusCode \<Rightarrow> Reply \<Rightarrow> Reply" where
  "set_status_code c r = r\<lparr>rp_status := (rp_status r)\<lparr>status_code := c\<rparr>\<rparr>"

definition set_status_message :: "string \<Rightarrow> Reply \<Rightarrow> Reply" where
  "set_status_message m r = r\<lparr>rp_status := (rp_status r)\<lparr>status_message := m\<rparr>\<rparr>"

lemmas reply_defs = Reply_default_def Status_default_def set_status_code_def set_status_message_def

lemma set_status_simps [simp]:
  "status_code (rp_status (set_status_code c r)) = c"
  "status_message (rp_status (set_status_code c r)) = status_message (rp_status r)"
  "status_code (rp_status (set_status_message m r)) = status_code (rp_status r)"
  "status_message (rp_status (set_status_message m r)) = m"
  "rp_serialized_protobuf (set_status_code c r) = rp_serialized_protobuf r"
  "rp_serialized_protobuf (set_status_message m r) = rp_serialized_protobuf r"
  by (simp_all add: set_status_code_def set_status_message_def)

lemma Reply_default_simps [simp]:
  "rp_status Reply_default = Status_default"
  "rp_serialized_protobuf Reply_default = []"
  "status_code Status_default = STATUS_CODE_UNSPECIFIED"
  "status_message Status_default = []"
  by (simp_all add: Reply_default_def Status_default_def)

text \<open>The numeric code carried by an exception identifies the status it was made from.\<close>

lemma StatusCode_to_u32_inject [simp]:
  "StatusCode_to_u32 a = StatusCode_to_u32 b \<longleftrightarrow> a = b"
  by (cases a; cases b) simp_all

end
