(* ===== verification/Logger.thy ===== *)
theory Logger
  imports Mw_Defines
begin

text \<open>
  The logger (\<open>lib/framework/common/SystemUtilities.cpp\<close>, class \<open>log\<close>) and the two entry points that
  set it up (\<open>ParameterServiceFactory.cpp\<close>, \<open>Factory::SetLogLevel\<close>).  The state is the file's two
  static variables together with the sinks registered in the Boost.Log core; the records handed to
  \<open>BOOST_LOG_TRIVIAL\<close> are kept in the order they were emitted.  Printf-style arguments are modelled
  after formatting: the operations take the formatted text.
\<close>

section \<open>State and operations\<close>

datatype LogLevel = LEVEL_ONE | LEVEL_TWO | LEVEL_THREE | LEVEL_FOUR

fun LogLevel_ord :: "LogLevel \<Rightarrow> nat" where
  "LogLevel_ord LEVEL_ONE = 0"
| "LogLevel_ord LEVEL_TWO = 1"
| "LogLevel_ord LEVEL_THREE = 2"
| "LogLevel_ord LEVEL_FOUR = 3"

instantiation LogLevel :: linorder
begin

definition less_eq_LogLevel :: "LogLevel \<Rightarrow> LogLevel \<Rightarrow> bool" where
  "less_eq_LogLevel a b \<longleftrightarrow> LogLevel_ord a \<le> LogLevel_ord b"

definition less_LogLevel :: "LogLevel \<Rightarrow> LogLevel \<Rightarrow> bool" where
  "less_LogLevel a b \<longleftrightarrow> LogLevel_ord a < LogLevel_ord b"

instance
proof
  fix a b :: LogLevel
  show "a \<le> b \<Longrightarrow> b \<le> a \<Longrightarrow> a = b"
    by (cases a; cases b) (simp_all add: less_eq_LogLevel_def)
qed (auto simp: less_eq_LogLevel_def less_LogLevel_def)

end

datatype severity = sev_error | sev_warning | sev_info | sev_debug

record log_state =
  n_LogSettings :: bool                        \<comment> \<open>the core pointer is set\<close>
  n_activeLevel :: LogLevel
  log_sinks :: "severity list"                 \<comment> \<open>filters of the registered sinks\<close>
  log_emitted :: "(severity \<times> string) list"    \<comment> \<open>records handed to Boost.Log\<close>
  log_raw :: "string list"                     \<comment> \<open>text written to the stream directly\<close>

definition log_initial :: log_state where
  "log_initial = \<lparr>n_LogSettings = False, n_activeLevel = LEVEL_TWO, log_sinks = [],
     log_emitted = [], log_raw = []\<rparr>"

definition log_emit :: "severity \<Rightarrow> string \<Rightarrow> log_state \<Rightarrow> log_state" where
  "log_emit sev msg s = s\<lparr>log_emitted := log_emitted s @ [(sev, msg)]\<rparr>"

definition add_sink :: "severity \<Rightarrow> log_state \<Rightarrow> log_state" where
  "add_sink sev s = s\<lparr>log_sinks := log_sinks s @ [sev]\<rparr>"

text \<open>\<open>buffer.data()\<close> is read as a C string: it ends at the first NUL.\<close>

definition c_str :: "string \<Rightarrow> string" where
  "c_str s = takeWhile (\<lambda>c. of_char c \<noteq> (0::nat)) s"

definition log_Debug :: "string \<Rightarrow> log_state \<Rightarrow> log_state" where
  "log_Debug text s =
     (if n_LogSettings s \<and> n_activeLevel s = LEVEL_FOUR then log_emit sev_debug (c_str text) s else s)"

definition log_Info :: "string \<Rightarrow> log_state \<Rightarrow> log_state" where
  "log_Info text s =
     (if n_LogSettings s \<and> n_activeLevel s \<ge> LEVEL_THREE then log_emit sev_info (c_str text) s else s)"

definition log_Warning :: "string \<Rightarrow> log_state \<Rightarrow> log_state" where
  "log_Warning text s =
     (if n_LogSettings s \<and> n_activeLevel s \<ge> LEVEL_TWO then log_emit sev_warning (c_str text) s else s)"

text \<open>\<open>log::Error\<close> never returns: it throws the formatted text.\<close>

definition log_Error :: "string \<Rightarrow> log_state \<Rightarrow> log_state \<times> 'a cpp" where
  "log_Error text s =
     ((if n_LogSettings s \<and> n_activeLevel s \<ge> LEVEL_ONE then log_emit sev_error (c_str text) s else s),
      Inl (RuntimeError (c_str text)))"

definition log_Initialize :: "LogLevel \<Rightarrow> log_state \<Rightarrow> log_state" where
  "log_Initialize lvl s =
     (if n_LogSettings s then log_Warning ''Middleware Logger already initialized!'' s
      else
        (let s = s\<lparr>n_LogSettings := True\<rparr>;
             s = (if lvl \<ge> LEVEL_ONE then add_sink sev_error s else s);
             s = (if lvl \<ge> LEVEL_TWO then add_sink sev_warning s else s);
             s = (if lvl \<ge> LEVEL_THREE then add_sink sev_info s else s);
             s = (if lvl \<ge> LEVEL_FOUR then add_sink sev_debug s else s)
         in s\<lparr>n_activeLevel := lvl\<rparr>))"

definition log_Reset :: "log_state \<Rightarrow> log_state" where
  "log_Reset s =
     (let s = (if n_LogSettings s then s\<lparr>log_sinks := [], n_LogSettings := False\<rparr> else s)
      in s\<lparr>n_activeLevel := LEVEL_TWO\<rparr>)"

text \<open>
  \<open>Factory::SetLogLevel\<close>.  In the default branch the level is streamed as a \<open>uint8_t\<close>, that is as one
  character.
\<close>

definition SetLogLevel :: "byte \<Rightarrow> log_state \<Rightarrow> log_state" where
  "SetLogLevel level s =
     (let s = log_Reset s in
      if level = 1 then
        log_Info ''[MiddlewareLogger] LEVEL_ONE{ERROR}. Errors throw exceptions.''
          (log_Initialize LEVEL_ONE s)
      else if level = 2 then
        log_Info ''[MiddlewareLogger] LEVEL_TWO{ERROR|WARNINGS}. Errors throw exceptions.''
          (log_Initialize LEVEL_TWO s)
      else if level = 3 then
        log_Info ''[MiddlewareLogger] LEVEL_THREE{ERROR|WARNINGS|INFO}. Errors throw exceptions.''
          (log_Initialize LEVEL_THREE s)
      else if level = 4 then
        log_Info ''[MiddlewareLogger] LEVEL_FOUR{ERROR|WARNINGS|INFO|DEBUG}. Errors throw exceptions.''
          (log_Initialize LEVEL_FOUR s)
      else
        s\<lparr>log_raw := log_raw s @
            [''Log level ['' @ [char_of (unat level)] @ ''] is not supported. Choices: [1,2,3,4]\<newline>'']\<rparr>)"

text \<open>\<open>common::TimeNowAsMs\<close> from the clock's nanoseconds since the epoch.\<close>

definition TimeNowAsMs :: "int \<Rightarrow> u64" where
  "TimeNowAsMs now_ns = word_of_int (sgn now_ns * (\<bar>now_ns\<bar> div 1000000))"

text \<open>
  \<open>common::TimeNowAsFormat\<close>: \<open>put_time\<close> with the library's local-time formatting, then a colon and
  the milliseconds padded to three digits.
\<close>

definition setw3 :: "string \<Rightarrow> string" where
  "setw3 s = replicate (3 - length s) (CHR ''0'') @ s"

definition TimeNowAsFormat :: "(int \<Rightarrow> string) \<Rightarrow> int \<Rightarrow> string" where
  "TimeNowAsFormat put_time now_ns =
     (let milliseconds = (sgn now_ns * (\<bar>now_ns\<bar> div 1000000)) in
      put_time now_ns @ '':'' @ setw3 (show_int (sgn milliseconds * (\<bar>milliseconds\<bar> mod 1000))))"

section \<open>The sinks always agree with the active level\<close>

definition sinks_of_level :: "LogLevel \<Rightarrow> severity list" where
  "sinks_of_level lvl =
     take (Suc (LogLevel_ord lvl)) [sev_error, sev_warning, sev_info, sev_debug]"

definition log_inv :: "log_state \<Rightarrow> bool" where
  "log_inv s \<longleftrightarrow> log_sinks s = (if n_LogSettings s then sinks_of_level (n_activeLevel s) else [])"

datatype log_call =
    Call_Debug string | Call_Info string | Call_Warning string | Call_Error string
  | Call_Initialize LogLevel | Call_Reset | Call_SetLogLevel byte

fun log_step :: "log_state \<Rightarrow> log_call \<Rightarrow> log_state" where
  "log_step s (Call_Debug t) = log_Debug t s"
| "log_step s (Call_Info t) = log_Info t s"
| "log_step s (Call_Warning t) = log_Warning t s"
| "log_step s (Call_Error t) = fst (log_Error t s :: log_state \<times> unit cpp)"
| "log_step s (Call_Initialize l) = log_Initialize l s"
| "log_step s Call_Reset = log_Reset s"
| "log_step s (Call_SetLogLevel b) = SetLogLevel b s"

lemmas LogLevel_order_defs = less_eq_LogLevel_def less_LogLevel_def
lemmas log_op_defs = log_Debug_def log_Info_def log_Warning_def log_Error_def log_emit_def

lemma log_ops_frame [simp]:
  "n_LogSettings (log_Debug t s) = n_LogSettings s"
  "n_LogSettings (log_Info t s) = n_LogSettings s"
  "n_LogSettings (log_Warning t s) = n_LogSettings s"
  "n_activeLevel (log_Debug t s) = n_activeLevel s"
  "n_activeLevel (log_Info t s) = n_activeLevel s"
  "n_activeLevel (log_Warning t s) = n_activeLevel s"
  "log_sinks (log_Debug t s) = log_sinks s"
  "log_sinks (log_Info t s) = log_sinks s"
  "log_sinks (log_Warning t s) = log_sinks s"
  by (simp_all add: log_op_defs)

lemma log_inv_ops [simp]:
  "log_inv (log_Debug t s) = log_inv s"
  "log_inv (log_Info t s) = log_inv s"
  "log_inv (log_Warning t s) = log_inv s"
  by (simp_all add: log_inv_def)

lemma log_inv_Error: "log_inv (fst (log_Error t s)) = log_inv s"
  by (simp add: log_inv_def log_op_defs)

lemma log_inv_initial: "log_inv log_initial"
  by (simp add: log_inv_def log_initial_def)

lemma log_inv_Initialize: "log_inv s \<Longrightarrow> log_inv (log_Initialize lvl s)"
  by (cases lvl)
     (auto simp: log_Initialize_def log_inv_def add_sink_def Let_def LogLevel_order_defs
        sinks_of_level_def)

lemma log_inv_Reset: "log_inv s \<Longrightarrow> log_inv (log_Reset s)"
  by (simp add: log_Reset_def log_inv_def)

lemma log_inv_SetLogLevel: "log_inv s \<Longrightarrow> log_inv (SetLogLevel b s)"
  by (simp add: SetLogLevel_def Let_def log_inv_Initialize log_inv_Reset)
     (simp add: log_inv_def log_Reset_def)

lemma log_inv_step: "log_inv s \<Longrightarrow> log_inv (log_step s c)"
  by (cases c) (simp_all add: log_inv_Initialize log_inv_Reset log_inv_SetLogLevel log_inv_Error)

lemma log_inv_run: "log_inv s \<Longrightarrow> log_inv (foldl log_step s cs)"
  by (induction cs arbitrary: s) (simp_all add: log_inv_step)

text \<open>
  What \<open>Error\<close>, \<open>Warning\<close>, \<open>Info\<close> and \<open>Debug\<close> test is exactly whether a sink for that severity is
  registered.
\<close>

lemma log_gate_is_sink:
  assumes "log_inv s"
  shows "sev_error \<in> set (log_sinks s) \<longleftrightarrow> n_LogSettings s \<and> n_activeLevel s \<ge> LEVEL_ONE"
    and "sev_warning \<in> set (log_sinks s) \<longleftrightarrow> n_LogSettings s \<and> n_activeLevel s \<ge> LEVEL_TWO"
    and "sev_info \<in> set (log_sinks s) \<longleftrightarrow> n_LogSettings s \<and> n_activeLevel s \<ge> LEVEL_THREE"
    and "sev_debug \<in> set (log_sinks s) \<longleftrightarrow> n_LogSettings s \<and> n_activeLevel s = LEVEL_FOUR"
  using assms
  by (cases "n_activeLevel s"; simp add: log_inv_def sinks_of_level_def LogLevel_order_defs)+

lemma SetLogLevel_supported:
  assumes "1 \<le> unat level" and "unat level \<le> 4"
  shows "n_LogSettings (SetLogLevel level s)"
    and "LogLevel_ord (n_activeLevel (SetLogLevel level s)) + 1 = unat level"
proof -
  have "level = 1 \<or> level = 2 \<or> level = 3 \<or> level = 4"
    using assms by unat_arith
  then show "n_LogSettings (SetLogLevel level s)"
    and "LogLevel_ord (n_activeLevel (SetLogLevel level s)) + 1 = unat level"
    by (auto simp: SetLogLevel_def log_Initialize_def log_Reset_def add_sink_def Let_def
        LogLevel_order_defs)
qed

end
