(* ===== verification/Std_Map.thy ===== *)
theory Std_Map
  imports Mw_Prelude
begin

text \<open>
  \<open>std::map\<close> as the middleware uses it.  The containers are ordered by key and the code iterates
  over them, so a map is an association list with strictly increasing keys; \<open>operator[]\<close>
  assignment, \<open>emplace\<close>, \<open>find\<close> and \<open>erase\<close> keep that order.  The locale \<open>keyed_store\<close> is the
  interface the components rely on; what they need of a sequence of assignments is proved in it
  once and reaches the model through the interpretation \<open>sm\<close>.
\<close>

section \<open>Operations\<close>

type_synonym ('k, 'v) smap = "('k \<times> 'v) list"

definition smap_find :: "('k, 'v) smap \<Rightarrow> 'k \<Rightarrow> 'v option" where
  "smap_find m k = map_of m k"

text \<open>\<open>m[k] = v\<close>\<close>

fun smap_assign :: "'k::linorder \<Rightarrow> 'v \<Rightarrow> ('k, 'v) smap \<Rightarrow> ('k, 'v) smap" where
  "smap_assign k v [] = [(k, v)]"
| "smap_assign k v ((k', v') # m) =
     (if k < k' then (k, v) # (k', v') # m
      else if k = k' then (k, v) # m
      else (k', v') # smap_assign k v m)"

text \<open>\<open>m.emplace(k, v)\<close>: an entry that is already there is left alone.\<close>

definition smap_emplace :: "'k::linorder \<Rightarrow> 'v \<Rightarrow> ('k, 'v) smap \<Rightarrow> ('k, 'v) smap \<times> bool" where
  "smap_emplace k v m =
     (case smap_find m k of None \<Rightarrow> (smap_assign k v m, True) | Some _ \<Rightarrow> (m, False))"

definition smap_erase :: "'k \<Rightarrow> ('k, 'v) smap \<Rightarrow> ('k, 'v) smap" where
  "smap_erase k m = filter (\<lambda>e. fst e \<noteq> k) m"

text \<open>\<open>m[k]\<close> read as an lvalue: a missing key is first given the default value.\<close>

definition smap_touch :: "'v \<Rightarrow> 'k::linorder \<Rightarrow> ('k, 'v) smap \<Rightarrow> ('k, 'v) smap" where
  "smap_touch d k m = (case smap_find m k of None \<Rightarrow> smap_assign k d m | Some _ \<Rightarrow> m)"

text \<open>\<open>m[k].emplace_back(x)\<close> on a map of vectors.\<close>

definition smap_push :: "'k::linorder \<Rightarrow> 'a \<Rightarrow> ('k, 'a list) smap \<Rightarrow> ('k, 'a list) smap" where
  "smap_push k x m =
     smap_assign k ((case smap_find m k of None \<Rightarrow> [] | Some xs \<Rightarrow> xs) @ [x]) m"

text \<open>Strictly increasing keys.\<close>

definition smap_inv :: "('k::linorder, 'v) smap \<Rightarrow> bool" where
  "smap_inv m \<longleftrightarrow> sorted_wrt (<) (map fst m)"

text \<open>A loop of assignments, last one wins.\<close>

definition smap_assign_all :: "('k::linorder \<times> 'v) list \<Rightarrow> ('k, 'v) smap \<Rightarrow> ('k, 'v) smap" where
  "smap_assign_all kvs m = foldl (\<lambda>m (k, v). smap_assign k v m) m kvs"

section \<open>The interface\<close>

locale keyed_store =
  fixes empty :: 'm
    and lookup :: "'m \<Rightarrow> 'k \<Rightarrow> 'v option"
    and assign :: "'k \<Rightarrow> 'v \<Rightarrow> 'm \<Rightarrow> 'm"
    and erase :: "'k \<Rightarrow> 'm \<Rightarrow> 'm"
    and inv :: "'m \<Rightarrow> bool"
  assumes lookup_empty: "lookup empty k = None"
    and lookup_assign: "inv m \<Longrightarrow> lookup (assign k v m) k' = (if k' = k then Some v else lookup m k')"
    and lookup_erase: "inv m \<Longrightarrow> lookup (erase k m) k' = (if k' = k then None else lookup m k')"
    and inv_empty: "inv empty"
    and inv_assign: "inv m \<Longrightarrow> inv (assign k v m)"
    and inv_erase: "inv m \<Longrightarrow> inv (erase k m)"
begin

lemma inv_assign_fold: "inv m \<Longrightarrow> inv (foldl (\<lambda>m (k, v). assign k v m) m kvs)"
  by (induction kvs arbitrary: m) (auto simp: inv_assign)

lemma lookup_assign_fold:
  "inv m \<Longrightarrow> lookup (foldl (\<lambda>m (k, v). assign k v m) m kvs) x =
     (case map_of (rev kvs) x of None \<Rightarrow> lookup m x | Some v \<Rightarrow> Some v)"
proof (induction kvs rule: rev_induct)
  case Nil
  then show ?case by simp
next
  case (snoc kv kvs)
  obtain k v where kv: "kv = (k, v)" by (cases kv)
  have "inv (foldl (\<lambda>m (k, v). assign k v m) m kvs)"
    using snoc.prems by (rule inv_assign_fold)
  then show ?case using snoc kv by (simp add: lookup_assign)
qed

lemma erase_assign_fresh:
  "inv m \<Longrightarrow> lookup m k = None \<Longrightarrow> lookup (erase k (assign k v m)) x = lookup m x"
  by (simp add: lookup_erase lookup_assign inv_assign)

end

section \<open>Its implementation\<close>

lemma smap_inv_Nil [simp]: "smap_inv []"
  by (simp add: smap_inv_def)

lemma smap_find_Nil [simp]: "smap_find [] k = None"
  by (simp add: smap_find_def)

lemma set_smap_assign:
  "smap_inv m \<Longrightarrow> set (smap_assign k v m) = insert (k, v) {e \<in> set m. fst e \<noteq> k}"
  by (induction k v m rule: smap_assign.induct) (auto simp: smap_inv_def)

lemma fst_set_smap_assign: "set (map fst (smap_assign k v m)) = insert k (fst ` set m)"
  by (induction k v m rule: smap_assign.induct) auto

lemma smap_inv_assign [simp]: "smap_inv m \<Longrightarrow> smap_inv (smap_assign k v m)"
  unfolding smap_inv_def
proof (induction k v m rule: smap_assign.induct)
  case (2 k v k' v' m)
  then show ?case
    using fst_set_smap_assign [of k v m] by (auto simp: not_less_iff_gr_or_eq)
qed simp

lemma smap_find_assign [simp]:
  "smap_find (smap_assign k v m) x = (if x = k then Some v else smap_find m x)"
  unfolding smap_find_def by (induction k v m rule: smap_assign.induct) auto

lemma smap_inv_erase [simp]: "smap_inv m \<Longrightarrow> smap_inv (smap_erase k m)"
  unfolding smap_inv_def smap_erase_def by (induction m) auto

lemma smap_find_erase [simp]:
  "smap_find (smap_erase k m) x = (if x = k then None else smap_find m x)"
  unfolding smap_find_def smap_erase_def by (induction m) auto

lemma smap_inv_distinct: "smap_inv m \<Longrightarrow> distinct (map fst m)"
  by (simp add: smap_inv_def strict_sorted_iff)

lemma smap_find_in_set: "smap_inv m \<Longrightarrow> smap_find m k = Some v \<longleftrightarrow> (k, v) \<in> set m"
  by (simp add: smap_find_def smap_inv_distinct)

lemma smap_find_None_iff: "smap_find m k = None \<longleftrightarrow> k \<notin> fst ` set m"
  by (simp add: smap_find_def map_of_eq_None_iff)

interpretation sm: keyed_store "[]" smap_find smap_assign smap_erase smap_inv
  by unfold_locales auto

lemmas smap_fold_facts = sm.inv_assign_fold sm.lookup_assign_fold

lemma smap_inv_assign_all [simp]: "smap_inv m \<Longrightarrow> smap_inv (smap_assign_all kvs m)"
  unfolding smap_assign_all_def by (rule sm.inv_assign_fold)

lemma smap_find_assign_all:
  "smap_inv m \<Longrightarrow> smap_find (smap_assign_all kvs m) x =
     (case map_of (rev kvs) x of None \<Rightarrow> smap_find m x | Some v \<Rightarrow> Some v)"
  unfolding smap_assign_all_def by (rule sm.lookup_assign_fold)

lemma smap_inv_touch [simp]: "smap_inv m \<Longrightarrow> smap_inv (smap_touch d k m)"
  by (auto simp: smap_touch_def split: option.splits)

lemma smap_find_touch:
  "smap_find (smap_touch d k m) x =
     (if x = k \<and> smap_find m k = None then Some d else smap_find m x)"
  by (auto simp: smap_touch_def split: option.splits)

lemma smap_inv_push [simp]: "smap_inv m \<Longrightarrow> smap_inv (smap_push k x m)"
  by (simp add: smap_push_def)

lemma smap_find_push:
  "smap_find (smap_push k x m) y =
     (if y = k then Some ((case smap_find m k of None \<Rightarrow> [] | Some xs \<Rightarrow> xs) @ [x])
      else smap_find m y)"
  by (simp add: smap_push_def)

end
