(* ===== verification/Request_Handler.thy ===== *)
theory Request_Handler
  imports Mw_Defines Std_Map "HOL-Library.Multiset"
begin

text \<open>
  The server side of a transaction (\<open>lib/framework/dds/server/ServerRequestHandler.cpp\<close>).  Every
  incoming request is given a fresh 16-bit key; the user's callback either replies at once or
  returns \<open>nullopt\<close>, in which case a promise is registered under the key and the thread waits up to
  ten seconds for \<open>Reply(key, reply)\<close>.

  The body of \<open>ProcessRequest\<close> is split at its lock boundaries into the phases \<open>process_begin\<close>,
  \<open>process_callback\<close>, \<open>process_register\<close>, \<open>process_wait\<close> and \<open>process_erase\<close>; \<open>ProcessRequest\<close>
  composes them for one thread, and the relation \<open>hstep\<close> interleaves them over any number of
  threads and concurrent calls of \<open>Reply\<close>.
\<close>

section \<open>Data\<close>

text \<open>\<open>cat::middleware::dds::TransferData\<close> and \<open>RequestException\<close> of the request interface.\<close>

record TransferData =
  protobuf :: bytes

record RequestException =
  ex_what :: string
  ex_status_code :: u32
  ex_request :: TransferData

text \<open>
  How a call of the handler ends other than by returning a response: with the exception of the
  interface, or with any other C++ error.
\<close>

datatype rpc_exn =
    Raised RequestException
  | Unhandled cpp_error

text \<open>
  \<open>std::promise<Reply>\<close>: the shared state holds a value once \<open>set_value\<close> has run, and remembers
  whether its future was handed out.
\<close>

record promise =
  pr_value :: "Reply option"
  pr_retrieved :: bool

definition promise_new :: promise where
  "promise_new = \<lparr>pr_value = None, pr_retrieved = False\<rparr>"

definition promise_set_value :: "Reply \<Rightarrow> promise \<Rightarrow> promise cpp" where
  "promise_set_value r p =
     (case pr_value p of None \<Rightarrow> Inr (p\<lparr>pr_value := Some r\<rparr>) | Some _ \<Rightarrow> Inl PromiseAlreadySatisfied)"

definition promise_get_future :: "promise \<Rightarrow> promise cpp" where
  "promise_get_future p =
     (if pr_retrieved p then Inl FutureAlreadyRetrieved else Inr (p\<lparr>pr_retrieved := True\<rparr>))"

text \<open>The members of the handler that change: \<open>m_requestKeyCounter\<close> and \<open>m_replies\<close>.\<close>

record ServerRequestHandler =
  m_requestKeyCounter :: u16
  m_replies :: "(u16, promise) smap"

definition handler_initial :: ServerRequestHandler where
  "handler_initial = \<lparr>m_requestKeyCounter = 0, m_replies = []\<rparr>"

text \<open>
  The constructor keeps two callbacks and asserts that both are callable; an empty
  \<open>std::function\<close> is \<open>None\<close>.
\<close>

definition ServerRequestHandler_ctor ::
  "'cb option \<Rightarrow> 'cb option \<Rightarrow> ('cb \<times> 'cb \<times> ServerRequestHandler) cpp" where
  "ServerRequestHandler_ctor on_reads on_writes =
     (case (on_reads, on_writes) of
        (Some r, Some w) \<Rightarrow> Inr (r, w, handler_initial)
      | _ \<Rightarrow> Inl AssertFailed)"

section \<open>The exceptions\<close>

text \<open>\<open>operator<<\<close> on a \<open>GUID_t\<close> is code of Fast DDS; it is the parameter \<open>show_guid\<close>.\<close>

definition make_exception :: "string \<Rightarrow> StatusCode \<Rightarrow> TransferData \<Rightarrow> rpc_exn" where
  "make_exception msg code req =
     Raised \<lparr>ex_what = msg, ex_status_code = StatusCode_to_u32 code, ex_request = req\<rparr>"

definition ThrowOnNoResponse :: "('g \<Rightarrow> string) \<Rightarrow> 'g \<Rightarrow> TransferData \<Rightarrow> rpc_exn" where
  "ThrowOnNoResponse show_guid clientId req =
     make_exception (''No response was generated for request from ['' @ show_guid clientId @ ''].'')
       STATUS_CODE_SERVER_NO_REPLY_ERROR req"

definition ThrowOnEmptyRequest :: "('g \<Rightarrow> string) \<Rightarrow> 'g \<Rightarrow> TransferData \<Rightarrow> rpc_exn option" where
  "ThrowOnEmptyRequest show_guid clientId req =
     (if protobuf req = [] then
        Some (make_exception (''Empty request was received from ['' @ show_guid clientId @ ''].'')
          STATUS_CODE_CLIENT_REQUEST_SIZE_ERROR req)
      else None)"

definition ThrowOnCallbackException ::
  "('g \<Rightarrow> string) \<Rightarrow> 'g \<Rightarrow> string \<Rightarrow> TransferData \<Rightarrow> rpc_exn" where
  "ThrowOnCallbackException show_guid clientId what req =
     make_exception (''Client ['' @ show_guid clientId @ ''] on callback exception: '' @ what)
       STATUS_CODE_SERVER_INTERNAL_ERROR req"

definition ThrowOnResponseTooLarge ::
  "('g \<Rightarrow> string) \<Rightarrow> 'g \<Rightarrow> TransferData \<Rightarrow> nat \<Rightarrow> rpc_exn" where
  "ThrowOnResponseTooLarge show_guid clientId req responseSize =
     make_exception
       (''Response size ['' @ show_nat responseSize @ ''] exceeded max payload [''
        @ show_nat n_MaxPayloadByteCount @ ''] for request from ['' @ show_guid clientId @ ''].'')
       STATUS_CODE_SERVER_REQUEST_SIZE_ERROR req"

section \<open>The operations\<close>

text \<open>
  \<open>Reply\<close>: a reply to an unknown key is dropped with a warning; \<open>set_value\<close> on a promise that
  already has a value throws \<open>std::future_error\<close> to the caller.
\<close>

definition handler_Reply ::
  "u16 \<Rightarrow> Reply \<Rightarrow> ServerRequestHandler \<Rightarrow> ServerRequestHandler cpp" where
  "handler_Reply requestKey reply h =
     (case smap_find (m_replies h) requestKey of
        Some p \<Rightarrow>
          (case promise_set_value reply p of
             Inl e \<Rightarrow> Inl e
           | Inr p' \<Rightarrow> Inr (h\<lparr>m_replies := smap_assign requestKey p' (m_replies h)\<rparr>))
      | None \<Rightarrow> Inr h)"

text \<open>The phases of \<open>ProcessRequest\<close>.  First the emptiness check and the atomic increment.\<close>

definition process_begin ::
  "('g \<Rightarrow> string) \<Rightarrow> 'g \<Rightarrow> TransferData \<Rightarrow> ServerRequestHandler
     \<Rightarrow> (rpc_exn + u16) \<times> ServerRequestHandler" where
  "process_begin show_guid clientId req h =
     (case ThrowOnEmptyRequest show_guid clientId req of
        Some e \<Rightarrow> (Inl e, h)
      | None \<Rightarrow> let currentKey = m_requestKeyCounter h + 1
                in (Inr currentKey, h\<lparr>m_requestKeyCounter := currentKey\<rparr>))"

text \<open>
  What the callback's result leads to: an exception, an immediate response, or (\<open>None\<close>) a
  deferred one.
\<close>

definition check_size ::
  "('g \<Rightarrow> string) \<Rightarrow> 'g \<Rightarrow> TransferData \<Rightarrow> Reply \<Rightarrow> rpc_exn + TransferData" where
  "check_size show_guid clientId req reply =
     (if n_MaxPayloadByteCount < length (rp_serialized_protobuf reply)
      then Inl (ThrowOnResponseTooLarge show_guid clientId req (length (rp_serialized_protobuf reply)))
      else Inr \<lparr>protobuf = rp_serialized_protobuf reply\<rparr>)"

definition process_callback ::
  "('g \<Rightarrow> string) \<Rightarrow> 'g \<Rightarrow> TransferData \<Rightarrow> Reply option cpp \<Rightarrow> (rpc_exn + TransferData) option" where
  "process_callback show_guid clientId req result =
     (case result of
        Inl e \<Rightarrow>
          (case exception_what e of
             Some what \<Rightarrow> Some (Inl (ThrowOnCallbackException show_guid clientId what req))
           | None \<Rightarrow> Some (Inl (Unhandled e)))
      | Inr (Some callbackReply) \<Rightarrow> Some (check_size show_guid clientId req callbackReply)
      | Inr None \<Rightarrow> None)"

text \<open>
  Registration under \<open>m_replyMutex\<close>: \<open>emplace\<close> keeps an entry that is already there, and
  \<open>get_future\<close> throws when that entry's future was handed out before.
\<close>

definition process_register ::
  "u16 \<Rightarrow> ServerRequestHandler \<Rightarrow> (rpc_exn + unit) \<times> ServerRequestHandler" where
  "process_register currentKey h =
     (let m = fst (smap_emplace currentKey promise_new (m_replies h))
      in case smap_find m currentKey of
           None \<Rightarrow> (Inl (Unhandled NullDereference), h\<lparr>m_replies := m\<rparr>)
         | Some p \<Rightarrow>
             (case promise_get_future p of
                Inl e \<Rightarrow> (Inl (Unhandled e), h\<lparr>m_replies := m\<rparr>)
              | Inr p' \<Rightarrow> (Inr (), h\<lparr>m_replies := smap_assign currentKey p' m\<rparr>)))"

text \<open>
  The end of \<open>wait_for\<close>: \<open>ready\<close> when the promise has a value, \<open>timeout\<close> otherwise (\<open>Inr None\<close>).
  An oversized deferred reply throws here, before the entry is erased.
\<close>

definition future_value :: "u16 \<Rightarrow> ServerRequestHandler \<Rightarrow> Reply option" where
  "future_value currentKey h =
     (case smap_find (m_replies h) currentKey of None \<Rightarrow> None | Some p \<Rightarrow> pr_value p)"

definition process_wait ::
  "('g \<Rightarrow> string) \<Rightarrow> 'g \<Rightarrow> TransferData \<Rightarrow> u16 \<Rightarrow> ServerRequestHandler
     \<Rightarrow> rpc_exn + TransferData option" where
  "process_wait show_guid clientId req currentKey h =
     (case future_value currentKey h of
        Some deferredReply \<Rightarrow>
          (case check_size show_guid clientId req deferredReply of
             Inl e \<Rightarrow> Inl e
           | Inr data \<Rightarrow> Inr (Some data))
      | None \<Rightarrow> Inr None)"

definition process_erase ::
  "('g \<Rightarrow> string) \<Rightarrow> 'g \<Rightarrow> TransferData \<Rightarrow> u16 \<Rightarrow> TransferData option \<Rightarrow> ServerRequestHandler
     \<Rightarrow> (rpc_exn + TransferData) \<times> ServerRequestHandler" where
  "process_erase show_guid clientId req currentKey response h =
     (let h' = h\<lparr>m_replies := smap_erase currentKey (m_replies h)\<rparr>
      in case response of
           None \<Rightarrow> (Inl (ThrowOnNoResponse show_guid clientId req), h')
         | Some data \<Rightarrow> (Inr data, h'))"

text \<open>
  \<open>ProcessRequest\<close> on one thread.  The callback runs on the user's state \<open>'s\<close>; \<open>arrivals\<close> are
  the calls of \<open>Reply\<close> other threads complete while this one waits (a call that throws, throws to
  its caller and leaves the handler as it was).
\<close>

type_synonym 's OnRequestCallback = "u16 \<Rightarrow> Request \<Rightarrow> 's \<Rightarrow> Reply option cpp \<times> 's"

definition Reply_or_throw :: "u16 \<times> Reply \<Rightarrow> ServerRequestHandler \<Rightarrow> ServerRequestHandler" where
  "Reply_or_throw kr h =
     (case handler_Reply (fst kr) (snd kr) h of Inl _ \<Rightarrow> h | Inr h' \<Rightarrow> h')"

definition ProcessRequest ::
  "('g \<Rightarrow> string) \<Rightarrow> 'g \<Rightarrow> TransferData \<Rightarrow> 's OnRequestCallback \<Rightarrow> (u16 \<times> Reply) list
     \<Rightarrow> ServerRequestHandler \<times> 's \<Rightarrow> (rpc_exn + TransferData) \<times> ServerRequestHandler \<times> 's" where
  "ProcessRequest show_guid clientId req callback arrivals hs =
     (case process_begin show_guid clientId req (fst hs) of
        (Inl e, h) \<Rightarrow> (Inl e, h, snd hs)
      | (Inr currentKey, h) \<Rightarrow>
          (case callback currentKey \<lparr>rq_serialized_protobuf = protobuf req\<rparr> (snd hs) of
             (result, s) \<Rightarrow>
               (case process_callback show_guid clientId req result of
                  Some outcome \<Rightarrow> (outcome, h, s)
                | None \<Rightarrow>
                    (case process_register currentKey h of
                       (Inl e, h1) \<Rightarrow> (Inl e, h1, s)
                     | (Inr _, h1) \<Rightarrow>
                         (let h2 = fold Reply_or_throw arrivals h1
                          in case process_wait show_guid clientId req currentKey h2 of
                               Inl e \<Rightarrow> (Inl e, h2, s)
                             | Inr response \<Rightarrow>
                                 (case process_erase show_guid clientId req currentKey response h2 of
                                    (outcome, h3) \<Rightarrow> (outcome, h3, s)))))))"

record 's callbacks =
  m_readCallback :: "'s OnRequestCallback"
  m_writeCallback :: "'s OnRequestCallback"

definition handler_Read where
  "handler_Read show_guid cbs clientId req =
     ProcessRequest show_guid clientId req (\<lambda>key request. m_readCallback cbs key request)"

definition handler_Write where
  "handler_Write show_guid cbs clientId req =
     ProcessRequest show_guid clientId req (\<lambda>key request. m_writeCallback cbs key request)"

section \<open>Interleavings\<close>

text \<open>
  Where a call of \<open>ProcessRequest\<close> stands.  \<open>c_held\<close> is a history variable: the call has put an
  entry into \<open>m_replies\<close> that it has not erased.
\<close>

datatype call_pc =
    Called
  | Deferring
  | Waiting
  | Closing "TransferData option"
  | Done "rpc_exn + TransferData"

record 'g call =
  c_client :: 'g
  c_req :: TransferData
  c_key :: u16
  c_pc :: call_pc
  c_held :: bool

record 'g hsys =
  hs_handler :: ServerRequestHandler
  hs_calls :: "'g call list"
  hs_sent :: "(u16 \<times> Reply) list"

definition hsys_initial :: "'g hsys" where
  "hsys_initial = \<lparr>hs_handler = handler_initial, hs_calls = [], hs_sent = []\<rparr>"

definition new_call :: "'g \<Rightarrow> TransferData \<Rightarrow> rpc_exn + u16 \<Rightarrow> 'g call" where
  "new_call c req r =
     (case r of
        Inl e \<Rightarrow> \<lparr>c_client = c, c_req = req, c_key = 0, c_pc = Done (Inl e), c_held = False\<rparr>
      | Inr k \<Rightarrow> \<lparr>c_client = c, c_req = req, c_key = k, c_pc = Called, c_held = False\<rparr>)"

definition after_callback :: "(rpc_exn + TransferData) option \<Rightarrow> 'g call \<Rightarrow> 'g call" where
  "after_callback r t = t\<lparr>c_pc := (case r of Some out \<Rightarrow> Done out | None \<Rightarrow> Deferring)\<rparr>"

definition after_register :: "rpc_exn + unit \<Rightarrow> 'g call \<Rightarrow> 'g call" where
  "after_register r t =
     (case r of Inl e \<Rightarrow> t\<lparr>c_pc := Done (Inl e)\<rparr> | Inr _ \<Rightarrow> t\<lparr>c_pc := Waiting, c_held := True\<rparr>)"

definition after_wait :: "rpc_exn + TransferData option \<Rightarrow> 'g call \<Rightarrow> 'g call" where
  "after_wait r t = t\<lparr>c_pc := (case r of Inl e \<Rightarrow> Done (Inl e) | Inr d \<Rightarrow> Closing d)\<rparr>"

text \<open>
  One step of the system: a request arrives, a callback returns, a deferred call registers its
  promise, some thread calls \<open>Reply\<close>, a wait ends, a waiter removes its entry.  The result of the
  callback is arbitrary, so that the relation covers every user of the handler.
\<close>

inductive hstep :: "('g \<Rightarrow> string) \<Rightarrow> 'g hsys \<Rightarrow> 'g hsys \<Rightarrow> bool" for show_guid where
  arrive: "process_begin show_guid c req (hs_handler s) = (r, h) \<Longrightarrow>
     hstep show_guid s (s\<lparr>hs_handler := h, hs_calls := hs_calls s @ [new_call c req r]\<rparr>)"
| callback: "i < length (hs_calls s) \<Longrightarrow> hs_calls s ! i = t \<Longrightarrow> c_pc t = Called \<Longrightarrow>
     process_callback show_guid (c_client t) (c_req t) result = r \<Longrightarrow>
     hstep show_guid s (s\<lparr>hs_calls := (hs_calls s)[i := after_callback r t]\<rparr>)"
| register: "i < length (hs_calls s) \<Longrightarrow> hs_calls s ! i = t \<Longrightarrow> c_pc t = Deferring \<Longrightarrow>
     process_register (c_key t) (hs_handler s) = (r, h) \<Longrightarrow>
     hstep show_guid s (s\<lparr>hs_handler := h, hs_calls := (hs_calls s)[i := after_register r t]\<rparr>)"
| reply: "handler_Reply k rep (hs_handler s) = Inr h \<Longrightarrow>
     hstep show_guid s (s\<lparr>hs_handler := h, hs_sent := hs_sent s @ [(k, rep)]\<rparr>)"
| wait: "i < length (hs_calls s) \<Longrightarrow> hs_calls s ! i = t \<Longrightarrow> c_pc t = Waiting \<Longrightarrow>
     process_wait show_guid (c_client t) (c_req t) (c_key t) (hs_handler s) = r \<Longrightarrow>
     hstep show_guid s (s\<lparr>hs_calls := (hs_calls s)[i := after_wait r t]\<rparr>)"
| erase: "i < length (hs_calls s) \<Longrightarrow> hs_calls s ! i = t \<Longrightarrow> c_pc t = Closing d \<Longrightarrow>
     process_erase show_guid (c_client t) (c_req t) (c_key t) d (hs_handler s) = (out, h) \<Longrightarrow>
     hstep show_guid s
       (s\<lparr>hs_handler := h, hs_calls := (hs_calls s)[i := t\<lparr>c_pc := Done out, c_held := False\<rparr>]\<rparr>)"

inductive hreach :: "('g \<Rightarrow> string) \<Rightarrow> 'g hsys \<Rightarrow> bool" for show_guid where
  start: "hreach show_guid hsys_initial"
| step: "hreach show_guid s \<Longrightarrow> hstep show_guid s s' \<Longrightarrow> hreach show_guid s'"

inductive_cases hstep_cases [elim]: "hstep show_guid s s'"

section \<open>Invariant of the interleavings\<close>

definition held_keys :: "'g call list \<Rightarrow> u16 multiset" where
  "held_keys ts = image_mset c_key (filter_mset c_held (mset ts))"

definition key_mset :: "('k, 'v) smap \<Rightarrow> 'k multiset" where
  "key_mset m = mset (map fst m)"

definition held1 :: "'g call \<Rightarrow> u16 multiset" where
  "held1 t = (if c_held t then {#c_key t#} else {#})"

text \<open>
  A call is consistent with what was sent: a call that holds an entry is waiting, closing, or ended
  with the size exception; a response carries the payload of a reply sent under its key.
\<close>

definition oversized :: "Reply \<Rightarrow> bool" where
  "oversized r \<longleftrightarrow> n_MaxPayloadByteCount < length (rp_serialized_protobuf r)"

fun call_ok :: "('g \<Rightarrow> string) \<Rightarrow> (u16 \<times> Reply) list \<Rightarrow> 'g call \<Rightarrow> bool" where
  "call_ok show_guid sent t =
     (case c_pc t of
        Called \<Rightarrow> \<not> c_held t
      | Deferring \<Rightarrow> \<not> c_held t
      | Waiting \<Rightarrow> c_held t
      | Closing None \<Rightarrow> c_held t
      | Closing (Some d) \<Rightarrow> c_held t \<and>
          (\<exists>r. (c_key t, r) \<in> set sent \<and> \<not> oversized r \<and> d = \<lparr>protobuf = rp_serialized_protobuf r\<rparr>)
      | Done out \<Rightarrow> c_held t \<longrightarrow>
          (\<exists>r. (c_key t, r) \<in> set sent \<and> oversized r \<and>
             out = Inl (ThrowOnResponseTooLarge show_guid (c_client t) (c_req t)
                          (length (rp_serialized_protobuf r)))))"

declare call_ok.simps [simp del]

definition hinv :: "('g \<Rightarrow> string) \<Rightarrow> 'g hsys \<Rightarrow> bool" where
  "hinv show_guid s \<longleftrightarrow>
     smap_inv (m_replies (hs_handler s)) \<and>
     (\<forall>k p. smap_find (m_replies (hs_handler s)) k = Some p \<longrightarrow>
        pr_retrieved p \<and> (\<forall>r. pr_value p = Some r \<longrightarrow> (k, r) \<in> set (hs_sent s))) \<and>
     held_keys (hs_calls s) = key_mset (m_replies (hs_handler s)) \<and>
     (\<forall>t \<in> set (hs_calls s). call_ok show_guid (hs_sent s) t)"

lemma hinv_initial: "hinv show_guid hsys_initial"
  by (simp add: hinv_def hsys_initial_def handler_initial_def held_keys_def key_mset_def)

lemma held_keys_snoc: "held_keys (ts @ [t]) = held_keys ts + held1 t"
  by (simp add: held_keys_def held1_def)

lemma held_keys_update:
  assumes "i < length ts"
  shows "held_keys (ts[i := t']) + held1 (ts ! i) = held_keys ts + held1 t'"
proof -
  obtain M where M: "mset ts = add_mset (ts ! i) M"
    using assms by (meson nth_mem_mset mset_add)
  then have "mset (ts[i := t']) = add_mset t' M"
    using assms by (simp add: mset_update)
  with M show ?thesis by (simp add: held_keys_def held1_def)
qed

lemma held_keys_update_same:
  assumes "i < length ts" "held1 t' = held1 (ts ! i)"
  shows "held_keys (ts[i := t']) = held_keys ts"
  using held_keys_update [OF assms(1), of t'] assms(2) by simp

lemma two_elements_submset:
  "i < length xs \<Longrightarrow> j < length xs \<Longrightarrow> i \<noteq> j \<Longrightarrow> {#xs ! i, xs ! j#} \<subseteq># mset xs"
proof (induction xs arbitrary: i j)
  case (Cons x xs)
  show ?case
  proof (cases "i = 0 \<or> j = 0")
    case True
    then show ?thesis using Cons.prems by (auto simp: nth_Cons' add_mset_commute [of x])
  next
    case False
    then have "{#xs ! (i - 1), xs ! (j - 1)#} \<subseteq># mset xs"
      using Cons.prems by (intro Cons.IH) auto
    then have "{#xs ! (i - 1), xs ! (j - 1)#} \<subseteq># add_mset x (mset xs)"
      by (rule subset_mset.order_trans) simp
    then show ?thesis using False by (simp add: nth_Cons')
  qed
qed simp

lemma key_mset_assign:
  "smap_inv m \<Longrightarrow> key_mset (smap_assign k v m) =
     (if smap_find m k = None then add_mset k (key_mset m) else key_mset m)"
proof (induction k v m rule: smap_assign.induct)
  case (2 k v k' v' m)
  then show ?case
    by (auto simp: key_mset_def smap_find_def smap_inv_def dest!: map_of_SomeD)
qed (simp add: key_mset_def)

lemma key_mset_count:
  assumes "smap_inv m"
  shows "count (key_mset m) k \<le> 1"
  using smap_inv_distinct [OF assms] by (simp only: key_mset_def distinct_count_atmost_1) simp

lemma key_mset_erase:
  assumes "smap_inv m"
  shows "key_mset (smap_erase k m) = key_mset m - {#k#}"
proof -
  have "key_mset (smap_erase k m) = filter_mset (\<lambda>x. x \<noteq> k) (key_mset m)"
    by (induction m) (auto simp: smap_erase_def key_mset_def)
  moreover have "count (key_mset m) k \<le> 1"
    using assms by (rule key_mset_count)
  ultimately show ?thesis by (auto intro: multiset_eqI)
qed

lemma call_ok_mono:
  "call_ok sg sent t \<Longrightarrow> set sent \<subseteq> set sent' \<Longrightarrow> call_ok sg sent' t"
  by (auto simp: call_ok.simps split: call_pc.splits option.splits)

lemma call_ok_update:
  assumes "\<forall>t \<in> set ts. call_ok sg sent t" "call_ok sg sent t'"
  shows "\<forall>t \<in> set (ts[i := t']). call_ok sg sent t"
  using assms set_update_subset_insert [of ts i t'] by blast

lemma hinv_callI:
  assumes "hinv sg s" "i < length (hs_calls s)" "held1 t' = held1 (hs_calls s ! i)"
    "call_ok sg (hs_sent s) t'"
  shows "hinv sg (s\<lparr>hs_calls := (hs_calls s)[i := t']\<rparr>)"
  using assms call_ok_update [of "hs_calls s" sg "hs_sent s" t' i]
  by (simp add: hinv_def held_keys_update_same)

lemma hinv_call_ok:
  "hinv sg s \<Longrightarrow> i < length (hs_calls s) \<Longrightarrow> call_ok sg (hs_sent s) (hs_calls s ! i)"
  by (simp add: hinv_def)

lemma process_begin_replies:
  "process_begin sg c req h = (r, h') \<Longrightarrow> m_replies h' = m_replies h"
  by (auto simp: process_begin_def Let_def split: option.splits)

lemma hinv_arrive:
  assumes "hinv sg s" "process_begin sg c req (hs_handler s) = (r, h)"
  shows "hinv sg (s\<lparr>hs_handler := h, hs_calls := hs_calls s @ [new_call c req r]\<rparr>)"
  using assms process_begin_replies [OF assms(2)]
  by (auto simp: hinv_def held_keys_snoc held1_def new_call_def call_ok.simps split: sum.splits)

lemma hinv_callback:
  assumes "hinv sg s" "i < length (hs_calls s)" "hs_calls s ! i = t" "c_pc t = Called"
  shows "hinv sg (s\<lparr>hs_calls := (hs_calls s)[i := after_callback r t]\<rparr>)"
  using assms hinv_call_ok [OF assms(1,2)]
  by (intro hinv_callI)
    (auto simp: after_callback_def held1_def call_ok.simps split: option.splits)

text \<open>Under the invariant, registration succeeds exactly when the key is free.\<close>

lemma process_register_free:
  "smap_find (m_replies h) k = None \<Longrightarrow>
   process_register k h =
     (Inr (), h\<lparr>m_replies := smap_assign k \<lparr>pr_value = None, pr_retrieved = True\<rparr>
                  (smap_assign k promise_new (m_replies h))\<rparr>)"
  by (simp add: process_register_def smap_emplace_def promise_get_future_def promise_new_def)

lemma process_register_taken:
  "smap_find (m_replies h) k = Some p \<Longrightarrow> pr_retrieved p \<Longrightarrow>
   process_register k h = (Inl (Unhandled FutureAlreadyRetrieved), h)"
  by (simp add: process_register_def smap_emplace_def promise_get_future_def)

lemma process_register_Inl:
  "process_register k h = (Inl e, h') \<Longrightarrow> \<exists>x. e = Unhandled x"
  by (auto simp: process_register_def Let_def split: option.splits sum.splits)

lemma hinv_register:
  assumes inv: "hinv sg s" and i: "i < length (hs_calls s)" "hs_calls s ! i = t"
    and pc: "c_pc t = Deferring" and reg: "process_register (c_key t) (hs_handler s) = (r, h)"
  shows "hinv sg (s\<lparr>hs_handler := h, hs_calls := (hs_calls s)[i := after_register r t]\<rparr>)"
proof (cases "smap_find (m_replies (hs_handler s)) (c_key t)")
  case None
  have ok: "\<not> c_held t" using hinv_call_ok [OF inv i(1)] i(2) pc by (simp add: call_ok.simps)
  let ?t = "t\<lparr>c_pc := Waiting, c_held := True\<rparr>"
  have "held_keys ((hs_calls s)[i := ?t]) = add_mset (c_key t) (held_keys (hs_calls s))"
    using held_keys_update [OF i(1), of ?t] i(2) ok by (simp add: held1_def)
  moreover have "\<forall>t \<in> set ((hs_calls s)[i := ?t]). call_ok sg (hs_sent s) t"
    using inv by (intro call_ok_update) (simp_all add: hinv_def call_ok.simps)
  ultimately show ?thesis
    using inv reg None
    by (auto simp: hinv_def process_register_free after_register_def key_mset_assign
        split: if_splits)
next
  case (Some p)
  then have "r = Inl (Unhandled FutureAlreadyRetrieved)" "h = hs_handler s"
    using inv reg process_register_taken [of "hs_handler s" "c_key t" p] by (auto simp: hinv_def)
  moreover have "call_ok sg (hs_sent s) (t\<lparr>c_pc := Done x\<rparr>)" for x
    using hinv_call_ok [OF inv i(1)] i(2) pc by (simp add: call_ok.simps)
  ultimately show ?thesis
    using hinv_callI [OF inv i(1), of "after_register r t"] i(2)
    by (simp add: after_register_def held1_def)
qed

lemma handler_Reply_Inr:
  "handler_Reply k rep h = Inr h' \<Longrightarrow>
     (smap_find (m_replies h) k = None \<and> h' = h) \<or>
     (\<exists>p. smap_find (m_replies h) k = Some p \<and> pr_value p = None \<and>
        h' = h\<lparr>m_replies := smap_assign k (p\<lparr>pr_value := Some rep\<rparr>) (m_replies h)\<rparr>)"
  by (auto simp: handler_Reply_def promise_set_value_def split: option.splits)

lemma hinv_reply:
  assumes inv: "hinv sg s" and rep: "handler_Reply k rep (hs_handler s) = Inr h"
  shows "hinv sg (s\<lparr>hs_handler := h, hs_sent := hs_sent s @ [(k, rep)]\<rparr>)"
proof -
  have ok: "\<forall>t \<in> set (hs_calls s). call_ok sg (hs_sent s @ [(k, rep)]) t"
    using inv by (auto simp: hinv_def intro: call_ok_mono)
  from handler_Reply_Inr [OF rep] show ?thesis
  proof (elim disjE exE conjE)
    assume "h = hs_handler s"
    then show ?thesis using inv ok by (auto simp: hinv_def)
  next
    fix p
    assume "smap_find (m_replies (hs_handler s)) k = Some p"
      "h = hs_handler s\<lparr>m_replies := smap_assign k (p\<lparr>pr_value := Some rep\<rparr>) (m_replies (hs_handler s))\<rparr>"
    then show ?thesis using inv ok by (auto simp: hinv_def key_mset_assign)
  qed
qed

lemma future_value_sent:
  "hinv sg s \<Longrightarrow> future_value k (hs_handler s) = Some r \<Longrightarrow> (k, r) \<in> set (hs_sent s)"
  by (auto simp: hinv_def future_value_def split: option.splits)

lemma hinv_wait:
  assumes inv: "hinv sg s" and i: "i < length (hs_calls s)" "hs_calls s ! i = t"
    and pc: "c_pc t = Waiting"
    and w: "process_wait sg (c_client t) (c_req t) (c_key t) (hs_handler s) = r"
  shows "hinv sg (s\<lparr>hs_calls := (hs_calls s)[i := after_wait r t]\<rparr>)"
proof -
  have held: "c_held t" using hinv_call_ok [OF inv i(1)] i(2) pc by (simp add: call_ok.simps)
  have "call_ok sg (hs_sent s) (after_wait r t)"
  proof (cases "future_value (c_key t) (hs_handler s)")
    case None
    then show ?thesis using w held by (auto simp: process_wait_def after_wait_def call_ok.simps)
  next
    case (Some rep)
    then show ?thesis
      using w held future_value_sent [OF inv Some]
      by (auto simp: process_wait_def after_wait_def call_ok.simps check_size_def oversized_def)
  qed
  then show ?thesis
    using hinv_callI [OF inv i(1), of "after_wait r t"] i(2)
    by (simp add: after_wait_def held1_def)
qed

lemma hinv_erase:
  assumes inv: "hinv sg s" and i: "i < length (hs_calls s)" "hs_calls s ! i = t"
    and pc: "c_pc t = Closing d"
    and e: "process_erase sg (c_client t) (c_req t) (c_key t) d (hs_handler s) = (out, h)"
  shows "hinv sg (s\<lparr>hs_handler := h, hs_calls := (hs_calls s)[i := t\<lparr>c_pc := Done out, c_held := False\<rparr>]\<rparr>)"
proof -
  let ?t = "t\<lparr>c_pc := Done out, c_held := False\<rparr>" and ?m = "m_replies (hs_handler s)"
  have "c_held t"
    using hinv_call_ok [OF inv i(1)] i(2) pc by (auto simp: call_ok.simps split: option.splits)
  then have "held_keys (hs_calls s) = add_mset (c_key t) (held_keys ((hs_calls s)[i := ?t]))"
    using held_keys_update [OF i(1), of ?t] i(2) by (simp add: held1_def)
  then have "held_keys ((hs_calls s)[i := ?t]) = key_mset ?m - {#c_key t#}"
    using inv by (metis add_mset_remove_trivial hinv_def)
  moreover have "m_replies h = smap_erase (c_key t) ?m"
    using e by (auto simp: process_erase_def Let_def split: option.splits)
  moreover have "\<forall>t \<in> set ((hs_calls s)[i := ?t]). call_ok sg (hs_sent s) t"
    using inv by (intro call_ok_update) (simp_all add: hinv_def call_ok.simps)
  ultimately show ?thesis
    using inv by (auto simp: hinv_def key_mset_erase split: if_splits)
qed

theorem hreach_hinv: "hreach sg s \<Longrightarrow> hinv sg s"
proof (induction rule: hreach.induct)
  case start
  show ?case by (rule hinv_initial)
next
  case (step s s')
  from step.hyps(2) step.IH show ?case
    by cases (simp_all add: hinv_arrive hinv_callback hinv_register hinv_reply hinv_wait hinv_erase)
qed

section \<open>One call, every branch\<close>

lemma process_begin_nonempty:
  "protobuf req \<noteq> [] \<Longrightarrow>
   process_begin sg c req h =
     (Inr (m_requestKeyCounter h + 1), h\<lparr>m_requestKeyCounter := m_requestKeyCounter h + 1\<rparr>)"
  by (simp add: process_begin_def ThrowOnEmptyRequest_def Let_def)

lemma Reply_or_throw_counter [simp]:
  "m_requestKeyCounter (Reply_or_throw kr h) = m_requestKeyCounter h"
  by (auto simp: Reply_or_throw_def handler_Reply_def promise_set_value_def split: mw_split)

lemma Reply_or_throw_find:
  "smap_find (m_replies (Reply_or_throw kr h)) k =
     (case smap_find (m_replies h) k of
        None \<Rightarrow> None
      | Some p \<Rightarrow> Some (if fst kr = k \<and> pr_value p = None then p\<lparr>pr_value := Some (snd kr)\<rparr> else p))"
  by (auto simp: Reply_or_throw_def handler_Reply_def promise_set_value_def split: mw_split)

text \<open>While a call waits, the first reply sent under its key is the one it gets.\<close>

lemma arrivals_find:
  "smap_find (m_replies (fold Reply_or_throw arrivals h)) k =
     (case smap_find (m_replies h) k of
        None \<Rightarrow> None
      | Some p \<Rightarrow> Some (if pr_value p = None then p\<lparr>pr_value := map_of arrivals k\<rparr> else p))"
proof (induction arrivals arbitrary: h)
  case Nil
  show ?case by (auto split: option.splits)
next
  case (Cons kr arrivals)
  show ?case
    by (cases kr) (auto simp: Cons.IH Reply_or_throw_find split: option.splits)
qed

lemma Reply_or_throw_inv:
  "smap_inv (m_replies h) \<Longrightarrow> smap_inv (m_replies (Reply_or_throw kr h))"
  by (auto simp: Reply_or_throw_def handler_Reply_def promise_set_value_def split: mw_split)

lemma arrivals_inv:
  "smap_inv (m_replies h) \<Longrightarrow> smap_inv (m_replies (fold Reply_or_throw arrivals h))"
  by (induction arrivals arbitrary: h) (simp_all add: Reply_or_throw_inv)

lemma arrivals_counter [simp]:
  "m_requestKeyCounter (fold Reply_or_throw arrivals h) = m_requestKeyCounter h"
  by (induction arrivals arbitrary: h) simp_all

text \<open>The handler as a deferred call finds it when its wait ends.\<close>

definition waited :: "(u16 \<times> Reply) list \<Rightarrow> ServerRequestHandler \<Rightarrow> ServerRequestHandler" where
  "waited arrivals h =
     fold Reply_or_throw arrivals
       (snd (process_register (m_requestKeyCounter h + 1)
               (h\<lparr>m_requestKeyCounter := m_requestKeyCounter h + 1\<rparr>)))"

lemma waited_find:
  assumes "smap_find (m_replies h) (m_requestKeyCounter h + 1) = None"
  shows "smap_find (m_replies (waited arrivals h)) (m_requestKeyCounter h + 1) =
           Some \<lparr>pr_value = map_of arrivals (m_requestKeyCounter h + 1), pr_retrieved = True\<rparr>"
  using assms by (simp add: waited_def process_register_free arrivals_find)

lemma waited_counter:
  assumes "smap_find (m_replies h) (m_requestKeyCounter h + 1) = None"
  shows "m_requestKeyCounter (waited arrivals h) = m_requestKeyCounter h + 1"
  using assms by (simp add: waited_def process_register_free)

definition close_call :: "ServerRequestHandler \<Rightarrow> ServerRequestHandler" where
  "close_call h = h\<lparr>m_replies := smap_erase (m_requestKeyCounter h) (m_replies h)\<rparr>"

lemma ProcessRequest_deferred_eq:
  assumes "protobuf req \<noteq> []"
    and "smap_find (m_replies h) (m_requestKeyCounter h + 1) = None"
    and "callback (m_requestKeyCounter h + 1) \<lparr>rq_serialized_protobuf = protobuf req\<rparr> s = (Inr None, s')"
  shows "ProcessRequest sg c req callback arrivals (h, s) =
    (case map_of arrivals (m_requestKeyCounter h + 1) of
       None \<Rightarrow> (Inl (ThrowOnNoResponse sg c req), close_call (waited arrivals h), s')
     | Some r \<Rightarrow>
         if oversized r
         then (Inl (ThrowOnResponseTooLarge sg c req (length (rp_serialized_protobuf r))),
               waited arrivals h, s')
         else (Inr \<lparr>protobuf = rp_serialized_protobuf r\<rparr>, close_call (waited arrivals h), s'))"
proof -
  let ?k = "m_requestKeyCounter h + 1" and ?h1 = "h\<lparr>m_requestKeyCounter := m_requestKeyCounter h + 1\<rparr>"
  obtain h2 where reg: "process_register ?k ?h1 = (Inr (), h2)"
    using assms(2) by (simp add: process_register_free)
  have w: "waited arrivals h = fold Reply_or_throw arrivals h2"
    by (simp add: waited_def reg)
  have fv: "future_value ?k (waited arrivals h) = map_of arrivals ?k"
    using waited_find [OF assms(2), of arrivals] by (simp add: future_value_def)
  show ?thesis
    using assms(1,3) reg fv w waited_counter [OF assms(2), of arrivals]
    by (auto simp: ProcessRequest_def process_begin_nonempty process_callback_def process_wait_def
        process_erase_def check_size_def oversized_def close_call_def Let_def split: option.splits)
qed

lemma ProcessRequest_immediate_eq:
  assumes "protobuf req \<noteq> []"
    and "callback (m_requestKeyCounter h + 1) \<lparr>rq_serialized_protobuf = protobuf req\<rparr> s = (Inr (Some r), s')"
  shows "ProcessRequest sg c req callback arrivals (h, s) =
    (check_size sg c req r, h\<lparr>m_requestKeyCounter := m_requestKeyCounter h + 1\<rparr>, s')"
  using assms by (simp add: ProcessRequest_def process_begin_nonempty process_callback_def)

lemma ProcessRequest_taken_eq:
  assumes "protobuf req \<noteq> []"
    and "smap_find (m_replies h) (m_requestKeyCounter h + 1) = Some p" "pr_retrieved p"
    and "callback (m_requestKeyCounter h + 1) \<lparr>rq_serialized_protobuf = protobuf req\<rparr> s = (Inr None, s')"
  shows "ProcessRequest sg c req callback arrivals (h, s) =
    (Inl (Unhandled FutureAlreadyRetrieved), h\<lparr>m_requestKeyCounter := m_requestKeyCounter h + 1\<rparr>, s')"
  using assms
  by (simp add: ProcessRequest_def process_begin_nonempty process_callback_def process_register_taken)

lemmas ProcessRequest_eqs =
  ProcessRequest_deferred_eq ProcessRequest_immediate_eq ProcessRequest_taken_eq

definition size_ok :: "rpc_exn + TransferData \<Rightarrow> TransferData \<Rightarrow> bool" where
  "size_ok out req \<longleftrightarrow>
     (case out of
        Inr data \<Rightarrow> length (protobuf data) \<le> n_MaxPayloadByteCount
      | Inl (Raised e) \<Rightarrow> ex_request e = req \<and>
          ex_status_code e \<in> StatusCode_to_u32 `
            {STATUS_CODE_CLIENT_REQUEST_SIZE_ERROR, STATUS_CODE_SERVER_INTERNAL_ERROR,
             STATUS_CODE_SERVER_REQUEST_SIZE_ERROR, STATUS_CODE_SERVER_NO_REPLY_ERROR}
      | Inl (Unhandled _) \<Rightarrow> True)"

lemmas throw_defs = ThrowOnNoResponse_def ThrowOnEmptyRequest_def ThrowOnCallbackException_def
  ThrowOnResponseTooLarge_def make_exception_def

lemma ProcessRequest_size_ok: "size_ok (fst (ProcessRequest sg c req callback arrivals hs)) req"
  unfolding ProcessRequest_def process_begin_def process_callback_def process_wait_def
    process_erase_def check_size_def Let_def
  by (auto simp: size_ok_def throw_defs dest: process_register_Inl
      split: sum.splits option.splits prod.splits if_splits)

text \<open>A sequence of requests that are all answered by their callback moves only the counter.\<close>

definition serve_all ::
  "('g \<Rightarrow> string) \<Rightarrow> ('g \<times> TransferData) list \<Rightarrow> 's OnRequestCallback
     \<Rightarrow> ServerRequestHandler \<times> 's \<Rightarrow> ServerRequestHandler \<times> 's" where
  "serve_all sg reqs callback hs = fold (\<lambda>(c, req) hs. snd (ProcessRequest sg c req callback [] hs)) reqs hs"

lemma serve_all_immediate:
  assumes "\<And>c req. (c, req) \<in> set reqs \<Longrightarrow> protobuf req \<noteq> []"
    and "\<And>k q s. \<exists>r s'. callback k q s = (Inr (Some r), s')"
  shows "\<exists>s'. serve_all sg reqs callback (h, s) =
           (h\<lparr>m_requestKeyCounter := m_requestKeyCounter h + of_nat (length reqs)\<rparr>, s')"
  using assms(1)
proof (induction reqs arbitrary: h s)
  case Nil
  then show ?case by (simp add: serve_all_def)
next
  case (Cons cr reqs)
  obtain c req where cr: "cr = (c, req)" by (cases cr)
  obtain r s1 where cb:
    "callback (m_requestKeyCounter h + 1) \<lparr>rq_serialized_protobuf = protobuf req\<rparr> s = (Inr (Some r), s1)"
    using assms(2) by blast
  have "protobuf req \<noteq> []" using Cons.prems [of c req] cr by simp
  with cb have "serve_all sg (cr # reqs) callback (h, s) =
      serve_all sg reqs callback (h\<lparr>m_requestKeyCounter := m_requestKeyCounter h + 1\<rparr>, s1)"
    by (simp add: serve_all_def cr ProcessRequest_immediate_eq)
  moreover have "(c, req) \<in> set reqs \<Longrightarrow> protobuf req \<noteq> []" for c req
    using Cons.prems by (meson list.set_intros(2))
  ultimately show ?case
    using Cons.IH [of "h\<lparr>m_requestKeyCounter := m_requestKeyCounter h + 1\<rparr>" s1]
    by (simp add: algebra_simps)
qed

section \<open>A concrete run\<close>

text \<open>
  Two clients whose requests are both deferred, one of them answered: used to instantiate the
  properties of reachable states.
\<close>

definition ex_call :: "u16 \<Rightarrow> call_pc \<Rightarrow> bool \<Rightarrow> unit call" where
  "ex_call k pc held = \<lparr>c_client = (), c_req = \<lparr>protobuf = [1]\<rparr>, c_key = k, c_pc = pc, c_held = held\<rparr>"

definition ex_sys :: "u16 \<Rightarrow> (u16 \<times> promise) list \<Rightarrow> unit call list \<Rightarrow> (u16 \<times> Reply) list \<Rightarrow> unit hsys" where
  "ex_sys n ps ts sent =
     \<lparr>hs_handler = \<lparr>m_requestKeyCounter = n, m_replies = ps\<rparr>, hs_calls = ts, hs_sent = sent\<rparr>"

definition ex_promise :: "Reply option \<Rightarrow> promise" where
  "ex_promise v = \<lparr>pr_value = v, pr_retrieved = True\<rparr>"

lemmas ex_defs = ex_call_def ex_sys_def ex_promise_def

lemma ex_arrive:
  assumes "hreach sg (ex_sys n ps ts sent)"
  shows "hreach sg (ex_sys (n + 1) ps (ts @ [ex_call (n + 1) Called False]) sent)"
proof -
  have "process_begin sg () \<lparr>protobuf = [1]\<rparr> (hs_handler (ex_sys n ps ts sent)) =
      (Inr (n + 1), \<lparr>m_requestKeyCounter = n + 1, m_replies = ps\<rparr>)"
    by (simp add: process_begin_nonempty ex_defs)
  from hreach.step [OF assms hstep.arrive [OF this]] show ?thesis
    by (simp add: new_call_def ex_defs)
qed

lemma ex_two_arrived: "hreach sg (ex_sys 2 [] [ex_call 1 Called False, ex_call 2 Called False] [])"
proof -
  have "hreach sg (ex_sys 0 [] [] [])"
    using hreach.start [of sg] by (simp add: hsys_initial_def handler_initial_def ex_defs)
  from ex_arrive [OF ex_arrive [OF this]] show ?thesis by simp
qed

lemma ex_defer:
  assumes "hreach sg (ex_sys n ps ts sent)" "i < length ts" "ts ! i = ex_call k Called False"
  shows "hreach sg (ex_sys n ps (ts[i := ex_call k Deferring False]) sent)"
proof -
  have "process_callback sg (c_client (ts ! i)) (c_req (ts ! i)) (Inr None) = None"
    by (simp add: process_callback_def)
  from hreach.step [OF assms(1) hstep.callback [OF _ _ _ this, of i]] assms(2,3)
  show ?thesis by (simp add: after_callback_def ex_defs)
qed

lemma ex_register:
  assumes "hreach sg (ex_sys n ps ts sent)" "i < length ts" "ts ! i = ex_call k Deferring False"
    and "smap_find ps k = None"
  shows "hreach sg (ex_sys n (smap_assign k (ex_promise None) (smap_assign k promise_new ps))
           (ts[i := ex_call k Waiting True]) sent)"
proof -
  let ?s = "ex_sys n ps ts sent"
  have "process_register (c_key (ts ! i)) (hs_handler ?s) =
      (Inr (), \<lparr>m_requestKeyCounter = n,
                m_replies = smap_assign k (ex_promise None) (smap_assign k promise_new ps)\<rparr>)"
    using assms(3,4) by (simp add: process_register_free ex_defs)
  from hreach.step [OF assms(1) hstep.register [OF _ _ _ this, of i]] assms(2,3)
  show ?thesis by (simp add: after_register_def ex_defs)
qed

lemma ex_two_waiting:
  "hreach sg (ex_sys 2 [(1, ex_promise None), (2, ex_promise None)]
     [ex_call 1 Waiting True, ex_call 2 Waiting True] [])"
proof -
  have "hreach sg (ex_sys 2 [] [ex_call 1 Deferring False, ex_call 2 Deferring False] [])"
    using ex_defer [OF ex_defer [OF ex_two_arrived, of 0 1], of 1 2] by simp
  from ex_register [OF ex_register [OF this, of 0 1], of 1 2] show ?thesis
    by (simp add: smap_find_def)
qed

section \<open>Properties\<close>

text \<open>
C3: A request whose callback defers is answered by the first reply sent under its key while it
waits: the response is that reply's payload, or the size exception when the payload exceeds the
limit; with no such reply the call ends in the no-reply exception.  Except after an oversized
reply, the entry is gone from the table of promises.
\<close>

theorem ProcessRequest_deferred:
  assumes "protobuf req \<noteq> []"
    and "smap_find (m_replies h) (m_requestKeyCounter h + 1) = None"
    and "callback (m_requestKeyCounter h + 1) \<lparr>rq_serialized_protobuf = protobuf req\<rparr> s = (Inr None, s')"
    and "ProcessRequest show_guid c req callback arrivals (h, s) = (outcome, h', t)"
  shows "t = s' \<and> m_requestKeyCounter h' = m_requestKeyCounter h + 1 \<and>
    (case map_of arrivals (m_requestKeyCounter h + 1) of
       None \<Rightarrow> outcome = Inl (ThrowOnNoResponse show_guid c req) \<and>
               smap_find (m_replies h') (m_requestKeyCounter h') = None
     | Some r \<Rightarrow>
         if length (rp_serialized_protobuf r) \<le> n_MaxPayloadByteCount
         then outcome = Inr \<lparr>protobuf = rp_serialized_protobuf r\<rparr> \<and>
              smap_find (m_replies h') (m_requestKeyCounter h') = None
         else outcome = Inl (ThrowOnResponseTooLarge show_guid c req (length (rp_serialized_protobuf r))) \<and>
              smap_find (m_replies h') (m_requestKeyCounter h')
                = Some \<lparr>pr_value = Some r, pr_retrieved = True\<rparr>)"
  using assms(4) ProcessRequest_deferred_eq [of req h callback s s' show_guid c arrivals] assms(1-3)
    waited_find [OF assms(2), of arrivals] waited_counter [OF assms(2), of arrivals]
  by (auto simp: close_call_def oversized_def split: option.splits if_splits)

theorem ProcessRequest_deferred_witness:
  "fst (ProcessRequest (\<lambda>g::unit. ''g'') () \<lparr>protobuf = [1]\<rparr> (\<lambda>k q s::nat. (Inr None, s + 1))
     [(5, Reply_default), (1, Reply_default\<lparr>rp_serialized_protobuf := [7]\<rparr>)] (handler_initial, 0))
   = Inr \<lparr>protobuf = [7]\<rparr>"
proof -
  let ?run = "ProcessRequest (\<lambda>g::unit. ''g'') () \<lparr>protobuf = [1]\<rparr> (\<lambda>k q s::nat. (Inr None, s + 1))
     [(5, Reply_default), (1, Reply_default\<lparr>rp_serialized_protobuf := [7]\<rparr>)] (handler_initial, 0)"
  obtain out h t where run: "?run = (out, h, t)" by (cases ?run)
  show ?thesis
    unfolding run using ProcessRequest_deferred [OF _ _ _ run]
    by (simp add: handler_initial_def n_MaxPayloadByteCount_def)
qed

text \<open>
C4: In every state the interleavings of calls and replies can reach, two different calls that are
between registration and removal have different keys, so that no reply reaches two callers.
\<close>

theorem waiting_keys_distinct:
  assumes "hreach show_guid s"
    and "i < length (hs_calls s)" "j < length (hs_calls s)" "i \<noteq> j"
    and "c_pc (hs_calls s ! i) = Waiting \<or> (\<exists>d. c_pc (hs_calls s ! i) = Closing d)"
    and "c_pc (hs_calls s ! j) = Waiting \<or> (\<exists>d. c_pc (hs_calls s ! j) = Closing d)"
  shows "c_key (hs_calls s ! i) \<noteq> c_key (hs_calls s ! j)"
proof
  assume same: "c_key (hs_calls s ! i) = c_key (hs_calls s ! j)"
  let ?k = "c_key (hs_calls s ! i)" and ?keys = "key_mset (m_replies (hs_handler s))"
  have inv: "hinv show_guid s" using assms(1) by (rule hreach_hinv)
  have held: "c_held (hs_calls s ! i)" "c_held (hs_calls s ! j)"
    using hinv_call_ok [OF inv assms(2)] hinv_call_ok [OF inv assms(3)] assms(5,6)
    by (auto simp: call_ok.simps split: option.splits)
  have "{#hs_calls s ! i, hs_calls s ! j#} \<subseteq># mset (hs_calls s)"
    using assms(2-4) by (rule two_elements_submset)
  then have "image_mset c_key (filter_mset c_held {#hs_calls s ! i, hs_calls s ! j#})
      \<subseteq># held_keys (hs_calls s)"
    unfolding held_keys_def by (intro image_mset_subseteq_mono multiset_filter_mono)
  then have "image_mset c_key (filter_mset c_held {#hs_calls s ! i, hs_calls s ! j#}) \<subseteq># ?keys"
    using inv by (simp only: hinv_def)
  then have "count ?keys ?k \<ge> 2"
    using held same by (auto dest: mset_subset_eq_count [where a = ?k])
  moreover have "count ?keys ?k \<le> 1"
    using inv by (intro key_mset_count) (simp add: hinv_def)
  ultimately show False by simp
qed

theorem waiting_keys_distinct_witness:
  "c_key ([ex_call 1 Waiting True, ex_call 2 Waiting True] ! 0)
     \<noteq> c_key ([ex_call 1 Waiting True, ex_call 2 Waiting True] ! 1)"
  using waiting_keys_distinct [OF ex_two_waiting [of "\<lambda>_. []"], of 0 1] by (simp add: ex_defs)

text \<open>
C5: In every reachable state, an entry of the table of promises belongs to a call that is waiting
for it or about to remove it, or to a call that has ended with the size exception because the
deferred reply sent under that key exceeded the payload limit.  Only such replies leave entries
behind.
\<close>

theorem m_replies_accounted:
  assumes "hreach show_guid s" "smap_find (m_replies (hs_handler s)) k = Some p"
  shows "\<exists>t \<in> set (hs_calls s). c_key t = k \<and>
    (c_pc t = Waiting \<or> (\<exists>d. c_pc t = Closing d) \<or>
     (\<exists>r. (k, r) \<in> set (hs_sent s) \<and> n_MaxPayloadByteCount < length (rp_serialized_protobuf r) \<and>
        c_pc t = Done (Inl (ThrowOnResponseTooLarge show_guid (c_client t) (c_req t)
                              (length (rp_serialized_protobuf r))))))"
proof -
  have inv: "hinv show_guid s" using assms(1) by (rule hreach_hinv)
  have "k \<in># key_mset (m_replies (hs_handler s))"
    using assms(2) by (metis key_mset_def option.distinct(1) set_map set_mset_mset smap_find_None_iff)
  then have "k \<in># held_keys (hs_calls s)" using inv by (simp add: hinv_def)
  then obtain t where t: "t \<in> set (hs_calls s)" "c_held t" "c_key t = k"
    by (auto simp: held_keys_def)
  then have "call_ok show_guid (hs_sent s) t" using inv by (simp add: hinv_def)
  with t show ?thesis
    by (intro bexI [of _ t]) (auto simp: call_ok.simps oversized_def split: call_pc.splits)
qed

theorem m_replies_accounted_witness:
  "\<exists>t \<in> set [ex_call 1 Waiting True, ex_call 2 Waiting True]. c_key t = 2 \<and> c_pc t = Waiting"
  using m_replies_accounted [OF ex_two_waiting [of "\<lambda>_. []"], of 2 "ex_promise None"]
  by (auto simp: ex_defs smap_find_def)

text \<open>
  After a deferred reply that exceeds the payload limit, the entry of its key is never removed,
and the 16-bit counter brings the key back after 65536 requests: a request that then defers ends
with the uncaught \<open>std::future_error\<close> of a future retrieved twice, whatever is replied to it.
\<close>

theorem leaked_key_collides:
  fixes s0 :: 's and rest :: "('g \<times> TransferData) list"
  assumes "protobuf req \<noteq> []" "protobuf req2 \<noteq> []"
    and "smap_find (m_replies h) (m_requestKeyCounter h + 1) = None"
    and "\<And>k q s. defers k q s = (Inr None, s)"
    and "map_of arrivals (m_requestKeyCounter h + 1) = Some big"
    and "n_MaxPayloadByteCount < length (rp_serialized_protobuf big)"
    and "snd (ProcessRequest show_guid c req defers arrivals (h, s0)) = (h1, s1)"
    and "\<And>k q s. \<exists>r s'. answer k q s = (Inr (Some r), s')"
    and "\<And>c' req'. (c', req') \<in> set rest \<Longrightarrow> protobuf req' \<noteq> []"
    and "length rest = 65535"
  shows "fst (ProcessRequest show_guid c2 req2 defers arrivals2 (serve_all show_guid rest answer (h1, s1)))
           = Inl (Unhandled FutureAlreadyRetrieved)"
proof -
  let ?k = "m_requestKeyCounter h + 1"
  obtain p where h1: "smap_find (m_replies h1) ?k = Some p" "pr_retrieved p" "m_requestKeyCounter h1 = ?k"
    using assms(1,3-7) waited_find [OF assms(3), of arrivals] waited_counter [OF assms(3), of arrivals]
      ProcessRequest_deferred_eq [of req h defers s0 s0 show_guid c arrivals]
    by (auto simp: oversized_def)
  have "\<exists>s2. serve_all show_guid rest answer (h1, s1) =
      (h1\<lparr>m_requestKeyCounter := m_requestKeyCounter h1 + of_nat (length rest)\<rparr>, s2)"
    by (rule serve_all_immediate) (use assms(8,9) in auto)
  then obtain n s2 where s2: "serve_all show_guid rest answer (h1, s1) = (h1\<lparr>m_requestKeyCounter := n\<rparr>, s2)"
      and n: "n = m_requestKeyCounter h1 + of_nat 65535"
    using assms(10) by auto
  have "n + 1 = ?k"
    using n h1(3) word16_add_of_nat_eq_iff [of ?k 65536] by (simp add: algebra_simps)
  then have "smap_find (m_replies (h1\<lparr>m_requestKeyCounter := n\<rparr>))
      (m_requestKeyCounter (h1\<lparr>m_requestKeyCounter := n\<rparr>) + 1) = Some p"
    using h1(1) by simp
  from ProcessRequest_taken_eq [OF assms(2) this h1(2), of defers s2 s2 show_guid c2 arrivals2] assms(4) s2 show ?thesis
    by simp
qed

theorem leaked_key_collides_witness:
  "fst (ProcessRequest (\<lambda>_::unit. []) () \<lparr>protobuf = [2]\<rparr> (\<lambda>k q s. (Inr None, s)) []
      (serve_all (\<lambda>_. []) (replicate 65535 ((), \<lparr>protobuf = [3]\<rparr>)) (\<lambda>k q s. (Inr (Some Reply_default), s))
        (snd (ProcessRequest (\<lambda>_::unit. []) () \<lparr>protobuf = [1]\<rparr> (\<lambda>k q s. (Inr None, s))
           [(1, Reply_default\<lparr>rp_serialized_protobuf := replicate 4000001 0\<rparr>)] (handler_initial, 0 :: nat)))))
     = Inl (Unhandled FutureAlreadyRetrieved)"
proof -
  let ?big = "Reply_default\<lparr>rp_serialized_protobuf := replicate 4000001 0\<rparr>"
  let ?first = "snd (ProcessRequest (\<lambda>_::unit. []) () \<lparr>protobuf = [1]\<rparr> (\<lambda>k q s. (Inr None, s))
           [(1, ?big)] (handler_initial, 0 :: nat))"
  obtain h1 s1 where run: "?first = (h1, s1)" by (cases ?first)
  show ?thesis
    unfolding run
    by (rule leaked_key_collides [OF _ _ _ _ _ _ run, where big = ?big])
      (simp_all add: handler_initial_def n_MaxPayloadByteCount_def)
qed

text \<open>
  A key is answered at most once while it is registered: the first reply is stored, a second one
throws \<open>std::future_error\<close> into the caller of \<open>Reply\<close> and changes nothing; a reply under a key that
is not registered (too early or too late) is dropped without an error.
\<close>

theorem handler_Reply_once:
  "(case smap_find (m_replies h) k of
      None \<Rightarrow> handler_Reply k r h = Inr h
    | Some p \<Rightarrow>
        (case pr_value p of
           Some _ \<Rightarrow> handler_Reply k r h = Inl PromiseAlreadySatisfied
         | None \<Rightarrow> (\<exists>h'. handler_Reply k r h = Inr h' \<and> future_value k h' = Some r \<and>
                    handler_Reply k r' h' = Inl PromiseAlreadySatisfied)))"
  by (auto simp: handler_Reply_def promise_set_value_def future_value_def split: option.splits)

text \<open>
C22: Every response that \<open>ProcessRequest\<close> returns respects the payload limit, and whatever the
callback, the replies and the handler's state were, an exception of the interface carries the
request it answers and one of the four documented status codes.
\<close>

theorem ProcessRequest_bounded:
  "case fst (ProcessRequest show_guid c req callback arrivals hs) of
     Inr data \<Rightarrow> length (protobuf data) \<le> n_MaxPayloadByteCount
   | Inl (Raised e) \<Rightarrow> ex_request e = req \<and>
       ex_status_code e \<in> StatusCode_to_u32 `
         {STATUS_CODE_CLIENT_REQUEST_SIZE_ERROR, STATUS_CODE_SERVER_INTERNAL_ERROR,
          STATUS_CODE_SERVER_REQUEST_SIZE_ERROR, STATUS_CODE_SERVER_NO_REPLY_ERROR}
   | Inl (Unhandled _) \<Rightarrow> True"
proof -
  have "size_ok (fst (ProcessRequest show_guid c req callback arrivals hs)) req"
    by (rule ProcessRequest_size_ok)
  then show ?thesis by (simp add: size_ok_def split: sum.splits rpc_exn.splits)
qed

end
