(* ===== verification/Rpc_Bindings.thy ===== *)
theory Rpc_Bindings
  imports Request_Handler
begin

text \<open>
  The request/reply bindings of the interface \<open>Requests\<close> (\<open>idl/topics/requests/requestsServer.cxx\<close>
  and \<open>requestsClient.cxx\<close>): how the server takes requests, runs the handler on a worker thread and
  turns its outcome into one reply message, and how the client keeps its pending requests and turns
  a reply message into the value or the exception of a future.

  Of Fast DDS the bindings use the identity of a sample (the ordered type \<open>'i\<close>), the delivery of
  messages (the list \<open>sv_sent\<close> of replies handed to \<open>send_reply\<close>) and its remote exception codes.
\<close>

section \<open>Messages\<close>

datatype RemoteExceptionCode_t =
    REMOTE_EX_OK
  | REMOTE_EX_UNSUPPORTED
  | REMOTE_EX_INVALID_ARGUMENT
  | REMOTE_EX_OUT_OF_RESOURCES
  | REMOTE_EX_UNKNOWN_OPERATION
  | REMOTE_EX_UNKNOWN_EXCEPTION

record Requests_Request =
  rq_Read :: "TransferData option"
  rq_Write :: "TransferData option"

record Requests_Result =
  res_result :: "TransferData option"
  res_exception :: "RequestException option"

record Requests_Reply =
  rr_Read :: "Requests_Result option"
  rr_Write :: "Requests_Result option"
  rr_remoteEx :: "RemoteExceptionCode_t option"

definition Result_default :: Requests_Result where
  "Result_default = \<lparr>res_result = None, res_exception = None\<rparr>"

definition RpcReply_default :: Requests_Reply where
  "RpcReply_default = \<lparr>rr_Read = None, rr_Write = None, rr_remoteEx = None\<rparr>"

section \<open>Server\<close>

record ('i, 'g) RequestContext =
  cx_request :: Requests_Request
  cx_id :: 'i
  cx_client_id :: 'g

record ('i, 'g) RequestsServerLogic =
  sv_processing_requests :: "('i, ('i, 'g) RequestContext) smap"
  sv_requests :: "('i, 'g) RequestContext list"
  sv_finished :: bool
  sv_finish_condition :: bool
  sv_sent :: "('i \<times> Requests_Reply) list"

definition server_initial :: "('i, 'g) RequestsServerLogic" where
  "server_initial = \<lparr>sv_processing_requests = [], sv_requests = [], sv_finished = False,
     sv_finish_condition = False, sv_sent = []\<rparr>"

definition validate_request :: "('i, 'g) RequestContext \<Rightarrow> bool" where
  "validate_request ctx =
     ((if rq_Read (cx_request ctx) \<noteq> None then 1 else 0)
      + (if rq_Write (cx_request ctx) \<noteq> None then 1 else (0::nat)) = 1)"

definition send_reply ::
  "('i, 'g) RequestContext \<Rightarrow> Requests_Reply \<Rightarrow> ('i, 'g) RequestsServerLogic
     \<Rightarrow> ('i, 'g) RequestsServerLogic" where
  "send_reply ctx reply sv = sv\<lparr>sv_sent := sv_sent sv @ [(cx_id ctx, reply)]\<rparr>"

definition send_exception ::
  "('i, 'g) RequestContext \<Rightarrow> RemoteExceptionCode_t \<Rightarrow> ('i, 'g) RequestsServerLogic
     \<Rightarrow> ('i, 'g) RequestsServerLogic" where
  "send_exception ctx ex sv = send_reply ctx (RpcReply_default\<lparr>rr_remoteEx := Some ex\<rparr>) sv"

text \<open>
  A second request with the identity of one in progress.  The interface has no input feeds, so no
  feed takes it: the sender gets an exception and the context in progress is to be erased.
\<close>

definition process_additional_request ::
  "('i, 'g) RequestContext \<Rightarrow> ('i, 'g) RequestContext \<Rightarrow> ('i, 'g) RequestsServerLogic
     \<Rightarrow> bool \<times> ('i, 'g) RequestsServerLogic" where
  "process_additional_request self ctx sv =
     (if cx_id ctx = cx_id self
      then (True, send_exception self REMOTE_EX_INVALID_ARGUMENT sv)
      else (True, sv))"

definition prepare_context ::
  "('i, 'g) RequestContext \<Rightarrow> ('i, 'g) RequestsServerLogic \<Rightarrow> bool \<times> ('i, 'g) RequestsServerLogic" where
  "prepare_context ctx sv =
     (if rq_Read (cx_request ctx) \<noteq> None then (True, sv)
      else if rq_Write (cx_request ctx) \<noteq> None then (True, sv)
      else (False, send_exception ctx REMOTE_EX_UNKNOWN_OPERATION sv))"

definition schedule_request ::
  "('i, 'g) RequestContext \<Rightarrow> ('i, 'g) RequestsServerLogic \<Rightarrow> ('i, 'g) RequestsServerLogic" where
  "schedule_request req sv =
     (if \<not> sv_finished sv then sv\<lparr>sv_requests := sv_requests sv @ [req]\<rparr> else sv)"

text \<open>
  \<open>process_request\<close>: its block under the mutex, whose first result is whether it goes on to schedule the
  request, and the whole.
\<close>

definition admit_request ::
  "('i::linorder, 'g) RequestContext \<Rightarrow> ('i, 'g) RequestsServerLogic \<Rightarrow> bool \<times> ('i, 'g) RequestsServerLogic" where
  "admit_request ctx sv =
     (case smap_find (sv_processing_requests sv) (cx_id ctx) of
        Some running \<Rightarrow>
          (case process_additional_request running ctx sv of
             (should_erase, sv') \<Rightarrow>
               (False,
                if should_erase
                then sv'\<lparr>sv_processing_requests := smap_erase (cx_id ctx) (sv_processing_requests sv')\<rparr>
                else sv'))
      | None \<Rightarrow>
          (case prepare_context ctx sv of
             (False, sv') \<Rightarrow> (False, sv')
           | (True, sv') \<Rightarrow>
               (True, sv'\<lparr>sv_processing_requests := smap_assign (cx_id ctx) ctx (sv_processing_requests sv')\<rparr>)))"

definition process_request ::
  "('i::linorder, 'g) RequestContext \<Rightarrow> ('i, 'g) RequestsServerLogic \<Rightarrow> ('i, 'g) RequestsServerLogic" where
  "process_request ctx sv =
     (case admit_request ctx sv of (True, sv') \<Rightarrow> schedule_request ctx sv' | (False, sv') \<Rightarrow> sv')"

text \<open>
  One pass of the loop of \<open>run\<close> over the requests that \<open>take_from\<close> yields; the finish condition is
  looked at once per wake-up, before the first of them is taken.
\<close>

definition take_one ::
  "('i::linorder, 'g) RequestContext \<Rightarrow> ('i, 'g) RequestsServerLogic \<Rightarrow> ('i, 'g) RequestsServerLogic" where
  "take_one ctx sv =
     (if validate_request ctx then process_request ctx sv
      else send_exception ctx REMOTE_EX_INVALID_ARGUMENT sv)"

definition run_wakeup ::
  "('i::linorder, 'g) RequestContext list \<Rightarrow> ('i, 'g) RequestsServerLogic
     \<Rightarrow> bool \<times> ('i, 'g) RequestsServerLogic" where
  "run_wakeup taken sv = (if sv_finish_condition sv then (True, sv) else (False, fold take_one taken sv))"

definition server_stop :: "('i, 'g) RequestsServerLogic \<Rightarrow> ('i, 'g) RequestsServerLogic" where
  "server_stop sv =
     sv\<lparr>sv_finish_condition := True, sv_processing_requests := [], sv_finished := True\<rparr>"

text \<open>The outcome of the handler as a reply: a result, the declared exception, or a remote one.\<close>

definition set_result :: "rpc_exn + TransferData \<Rightarrow> Requests_Result cpp" where
  "set_result out =
     (case out of
        Inr data \<Rightarrow> Inr (Result_default\<lparr>res_result := Some data\<rparr>)
      | Inl (Raised ex) \<Rightarrow> Inr (Result_default\<lparr>res_exception := Some ex\<rparr>)
      | Inl (Unhandled e) \<Rightarrow> Inl e)"

definition reply_of :: "(Requests_Result \<Rightarrow> Requests_Reply) \<Rightarrow> rpc_exn + TransferData \<Rightarrow> Requests_Reply cpp" where
  "reply_of wrap out =
     (case set_result out of
        Inr res \<Rightarrow> Inr (wrap res)
      | Inl e \<Rightarrow>
          (case exception_what e of
             Some _ \<Rightarrow> Inr (RpcReply_default\<lparr>rr_remoteEx := Some REMOTE_EX_UNKNOWN_EXCEPTION\<rparr>)
           | None \<Rightarrow> Inl e))"

definition wrap_Read :: "Requests_Result \<Rightarrow> Requests_Reply" where
  "wrap_Read res = RpcReply_default\<lparr>rr_Read := Some res\<rparr>"

definition wrap_Write :: "Requests_Result \<Rightarrow> Requests_Reply" where
  "wrap_Write res = RpcReply_default\<lparr>rr_Write := Some res\<rparr>"

text \<open>
  \<open>execute_request\<close> on a worker thread.  The implementation runs on its own state \<open>'h\<close>; an error
  that no handler can catch ends the process.
\<close>

type_synonym ('g, 'h) implementation = "'g \<Rightarrow> TransferData \<Rightarrow> 'h \<Rightarrow> (rpc_exn + TransferData) \<times> 'h"

definition finish_request ::
  "('i, 'g) RequestContext \<Rightarrow> Requests_Reply cpp \<Rightarrow> ('i, 'g) RequestsServerLogic
     \<Rightarrow> ('i, 'g) RequestsServerLogic cpp" where
  "finish_request ctx reply sv =
     (case reply of
        Inl e \<Rightarrow> Inl e
      | Inr r \<Rightarrow>
          (let sv' = send_reply ctx r sv
           in Inr (sv'\<lparr>sv_processing_requests := smap_erase (cx_id ctx) (sv_processing_requests sv')\<rparr>)))"

definition execute_request ::
  "('g, 'h) implementation \<Rightarrow> ('g, 'h) implementation \<Rightarrow> ('i, 'g) RequestContext
     \<Rightarrow> ('i, 'g) RequestsServerLogic \<times> 'h \<Rightarrow> ('i, 'g) RequestsServerLogic cpp \<times> 'h" where
  "execute_request impl_Read impl_Write ctx svh =
     (case rq_Read (cx_request ctx) of
        Some req \<Rightarrow>
          (case impl_Read (cx_client_id ctx) req (snd svh) of
             (out, h) \<Rightarrow> (finish_request ctx (reply_of wrap_Read out) (fst svh), h))
      | None \<Rightarrow>
          (case rq_Write (cx_request ctx) of
             Some req \<Rightarrow>
               (case impl_Write (cx_client_id ctx) req (snd svh) of
                  (out, h) \<Rightarrow> (finish_request ctx (reply_of wrap_Write out) (fst svh), h))
           | None \<Rightarrow>
               (finish_request ctx
                  (Inr (RpcReply_default\<lparr>rr_remoteEx := Some REMOTE_EX_UNSUPPORTED\<rparr>)) (fst svh), snd svh)))"

text \<open>A worker takes the oldest queued request, unless the pool is finished or idle.\<close>

definition worker_take ::
  "('i, 'g) RequestsServerLogic \<Rightarrow> ('i, 'g) RequestContext option \<times> ('i, 'g) RequestsServerLogic" where
  "worker_take sv =
     (if sv_finished sv then (None, sv)
      else case sv_requests sv of
             [] \<Rightarrow> (None, sv)
           | req # rest \<Rightarrow> (Some req, sv\<lparr>sv_requests := rest\<rparr>))"

section \<open>Client\<close>

text \<open>What a future of the client can throw.\<close>

datatype client_exn =
    ClientRaised RequestException
  | RpcRemote RemoteExceptionCode_t
  | RpcInvalidReply
  | RpcBrokenPipe

datatype operation = OpRead | OpWrite

text \<open>
  \<open>pending_results_\<close> and, as a history, the promises that were fulfilled, oldest first.
\<close>

record 'i RequestsClient =
  cl_pending :: "('i, operation) smap"
  cl_resolved :: "('i \<times> (client_exn + TransferData)) list"

definition client_initial :: "'i RequestsClient" where
  "client_initial = \<lparr>cl_pending = [], cl_resolved = []\<rparr>"

definition resolve :: "'i \<Rightarrow> client_exn + TransferData \<Rightarrow> 'i RequestsClient \<Rightarrow> 'i RequestsClient" where
  "resolve i v cl = cl\<lparr>cl_resolved := cl_resolved cl @ [(i, v)]\<rparr>"

text \<open>
  \<open>send_request_with_promise\<close>: \<open>sent\<close> is whether Fast DDS accepted the sample and \<open>i\<close> the identity
  it gave it.
\<close>

definition send_request_with_promise ::
  "bool \<Rightarrow> 'i::linorder \<Rightarrow> operation \<Rightarrow> 'i RequestsClient \<Rightarrow> 'i RequestsClient" where
  "send_request_with_promise sent i op cl =
     (if sent then cl\<lparr>cl_pending := smap_assign i op (cl_pending cl)\<rparr>
      else resolve i (Inl RpcBrokenPipe) cl)"

definition make_request :: "operation \<Rightarrow> TransferData \<Rightarrow> Requests_Request" where
  "make_request op req =
     (case op of OpRead \<Rightarrow> \<lparr>rq_Read = Some req, rq_Write = None\<rparr>
               | OpWrite \<Rightarrow> \<lparr>rq_Read = None, rq_Write = Some req\<rparr>)"

definition count_reply_fields :: "Requests_Reply \<Rightarrow> nat" where
  "count_reply_fields reply =
     (if rr_Read reply \<noteq> None then 1 else 0) + (if rr_Write reply \<noteq> None then 1 else 0)
     + (if rr_remoteEx reply \<noteq> None then 1 else 0)"

fun set_remote_exception :: "RemoteExceptionCode_t \<Rightarrow> client_exn" where
  "set_remote_exception REMOTE_EX_OK = RpcInvalidReply"
| "set_remote_exception REMOTE_EX_UNSUPPORTED = RpcRemote REMOTE_EX_UNSUPPORTED"
| "set_remote_exception REMOTE_EX_INVALID_ARGUMENT = RpcRemote REMOTE_EX_INVALID_ARGUMENT"
| "set_remote_exception REMOTE_EX_OUT_OF_RESOURCES = RpcRemote REMOTE_EX_OUT_OF_RESOURCES"
| "set_remote_exception REMOTE_EX_UNKNOWN_OPERATION = RpcRemote REMOTE_EX_UNKNOWN_OPERATION"
| "set_remote_exception REMOTE_EX_UNKNOWN_EXCEPTION = RpcRemote REMOTE_EX_UNKNOWN_EXCEPTION"

text \<open>The value a reply gives the promise of a pending \<open>Read\<close> or \<open>Write\<close>.\<close>

definition result_value :: "Requests_Result option \<Rightarrow> client_exn + TransferData" where
  "result_value field =
     (case field of
        None \<Rightarrow> Inl RpcInvalidReply
      | Some res \<Rightarrow>
          (case res_result res of
             Some data \<Rightarrow> Inr data
           | None \<Rightarrow> (case res_exception res of Some ex \<Rightarrow> Inl (ClientRaised ex) | None \<Rightarrow> Inl RpcInvalidReply)))"

definition promise_process_reply :: "operation \<Rightarrow> Requests_Reply \<Rightarrow> client_exn + TransferData" where
  "promise_process_reply op reply =
     (if count_reply_fields reply \<noteq> 1 then Inl RpcInvalidReply
      else case rr_remoteEx reply of
             Some code \<Rightarrow> Inl (set_remote_exception code)
           | None \<Rightarrow> result_value (case op of OpRead \<Rightarrow> rr_Read reply | OpWrite \<Rightarrow> rr_Write reply))"

text \<open>
  \<open>process_reply\<close> looks the promise up by the identity of the reply, which is therefore the one the
  promise was sent under.
\<close>

definition client_process_reply :: "'i::linorder \<Rightarrow> Requests_Reply \<Rightarrow> 'i RequestsClient \<Rightarrow> 'i RequestsClient" where
  "client_process_reply i reply cl =
     (case smap_find (cl_pending cl) i of
        None \<Rightarrow> cl
      | Some op \<Rightarrow>
          resolve i (promise_process_reply op reply) (cl\<lparr>cl_pending := smap_erase i (cl_pending cl)\<rparr>))"

section \<open>Exchanges\<close>

text \<open>What a caller is to see of the outcome of the handler.\<close>

fun client_view :: "rpc_exn + TransferData \<Rightarrow> client_exn + TransferData" where
  "client_view (Inr data) = Inr data"
| "client_view (Inl (Raised ex)) = Inl (ClientRaised ex)"
| "client_view (Inl (Unhandled _)) = Inl (RpcRemote REMOTE_EX_UNKNOWN_EXCEPTION)"

lemmas reply_build_defs = reply_of_def set_result_def wrap_Read_def wrap_Write_def
  RpcReply_default_def Result_default_def

lemma promise_gets_outcome:
  "reply_of wrap_Read out = Inr r \<Longrightarrow> promise_process_reply OpRead r = client_view out"
  "reply_of wrap_Write out = Inr r \<Longrightarrow> promise_process_reply OpWrite r = client_view out"
  by (auto simp: reply_build_defs promise_process_reply_def count_reply_fields_def result_value_def
      split: sum.splits rpc_exn.splits option.splits)

text \<open>The implementation of an operation, and the context a client's request becomes.\<close>

definition impl_of :: "operation \<Rightarrow> 'a \<Rightarrow> 'a \<Rightarrow> 'a" where
  "impl_of op impl_Read impl_Write = (case op of OpRead \<Rightarrow> impl_Read | OpWrite \<Rightarrow> impl_Write)"

definition context_of :: "operation \<Rightarrow> TransferData \<Rightarrow> 'i \<Rightarrow> 'g \<Rightarrow> ('i, 'g) RequestContext" where
  "context_of op req i c = \<lparr>cx_request = make_request op req, cx_id = i, cx_client_id = c\<rparr>"

lemma execute_request_client:
  assumes "impl_of op impl_Read impl_Write c req h = (out, h')"
    and "execute_request impl_Read impl_Write (context_of op req i c) (sv, h) = (Inr sv', h1)"
  shows "h1 = h' \<and> (\<exists>r. sv_sent sv' = sv_sent sv @ [(i, r)] \<and> promise_process_reply op r = client_view out)
    \<and> smap_find (sv_processing_requests sv') i = None"
  using assms
  by (cases op)
    (auto simp: impl_of_def context_of_def make_request_def execute_request_def finish_request_def
      send_reply_def promise_gets_outcome Let_def split: sum.splits prod.splits)

section \<open>The client's table\<close>

text \<open>
  Events of a client: a request goes out under an identity Fast DDS has never used before, or some
  reply comes in, addressed to this client or not.
\<close>

inductive client_run :: "'i::linorder RequestsClient \<Rightarrow> bool" where
  start: "client_run client_initial"
| send: "client_run cl \<Longrightarrow> i \<notin> fst ` set (cl_pending cl) \<Longrightarrow> i \<notin> fst ` set (cl_resolved cl) \<Longrightarrow>
     client_run (send_request_with_promise ok i op cl)"
| receive: "client_run cl \<Longrightarrow> client_run (client_process_reply i reply cl)"

lemma client_run_inv:
  "client_run cl \<Longrightarrow> smap_inv (cl_pending cl) \<and> distinct (map fst (cl_resolved cl)) \<and>
     fst ` set (cl_pending cl) \<inter> fst ` set (cl_resolved cl) = {}"
proof (induction rule: client_run.induct)
  case start
  show ?case by (simp add: client_initial_def)
next
  case (send cl i ok op)
  then show ?case
    using fst_set_smap_assign [of i op "cl_pending cl"]
    by (auto simp: send_request_with_promise_def resolve_def)
next
  case (receive cl i reply)
  show ?case
  proof (cases "smap_find (cl_pending cl) i")
    case None
    then show ?thesis using receive by (simp add: client_process_reply_def)
  next
    case (Some op)
    then have "i \<in> fst ` set (cl_pending cl)"
      by (metis option.distinct(1) smap_find_None_iff)
    moreover have "fst ` set (smap_erase i (cl_pending cl)) = fst ` set (cl_pending cl) - {i}"
      by (auto simp: smap_erase_def)
    ultimately show ?thesis
      using receive Some by (auto simp: client_process_reply_def resolve_def)
  qed
qed

section \<open>Properties\<close>

text \<open>
C7: A client's pending request is resolved by the server's reply with exactly what the handler did:
the returned data, the declared exception with its message and code, or, for any other exception,
the remote \<open>unknown exception\<close> error; afterwards neither side keeps the request.
\<close>

theorem rpc_exchange:
  assumes "impl_of op impl_Read impl_Write c req h = (out, h')"
    and "smap_find (cl_pending cl) i = Some op"
    and "execute_request impl_Read impl_Write (context_of op req i c) (sv, h) = (Inr sv', h1)"
    and "client_process_reply i (snd (last (sv_sent sv'))) cl = cl'"
  shows "h1 = h' \<and> cl_resolved cl' = cl_resolved cl @ [(i, client_view out)] \<and>
    smap_find (cl_pending cl') i = None \<and> smap_find (sv_processing_requests sv') i = None"
  using execute_request_client [OF assms(1,3)] assms(2,4)
  by (auto simp: client_process_reply_def resolve_def)

theorem rpc_exchange_witness:
  "cl_resolved (client_process_reply 3
     (RpcReply_default\<lparr>rr_remoteEx := Some REMOTE_EX_UNKNOWN_EXCEPTION\<rparr>)
     \<lparr>cl_pending = [(3::nat, OpWrite)], cl_resolved = []\<rparr>) = [(3, client_view (Inl (Unhandled FutureAlreadyRetrieved)))]"
proof -
  let ?w = "\<lambda>(c::unit) (req::TransferData) (h::nat). (Inl (Unhandled FutureAlreadyRetrieved) :: rpc_exn + TransferData, h + 1)"
  have ex: "execute_request ?w ?w (context_of OpWrite \<lparr>protobuf = [1]\<rparr> (3::nat) ()) (server_initial, 0)
      = (Inr (server_initial\<lparr>sv_sent := [(3, RpcReply_default\<lparr>rr_remoteEx := Some REMOTE_EX_UNKNOWN_EXCEPTION\<rparr>)]\<rparr>), 1)"
    by (simp add: execute_request_def context_of_def make_request_def finish_request_def reply_of_def
        set_result_def send_reply_def server_initial_def smap_erase_def Let_def)
  show ?thesis
    using rpc_exchange [OF _ _ ex refl, of "Inl (Unhandled FutureAlreadyRetrieved)" 1 "\<lparr>cl_pending = [(3::nat, OpWrite)], cl_resolved = []\<rparr>"]
    by (simp add: impl_of_def smap_find_def)
qed

text \<open>
C9: A promise of the client is fulfilled at most once, whatever replies arrive, duplicates and
strangers included, as long as Fast DDS gives every sample a fresh identity.
\<close>

theorem client_resolves_once:
  assumes "client_run cl"
  shows "distinct (map fst (cl_resolved cl)) \<and>
    fst ` set (cl_pending cl) \<inter> fst ` set (cl_resolved cl) = {}"
  using client_run_inv [OF assms] by simp

theorem client_resolves_once_witness:
  "distinct (map fst (cl_resolved (client_process_reply (1::nat) RpcReply_default
     (client_process_reply 1 RpcReply_default (send_request_with_promise True 1 OpRead client_initial)))))"
proof -
  have "client_run (send_request_with_promise True (1::nat) OpRead client_initial)"
    by (intro client_run.send client_run.start) (simp_all add: client_initial_def)
  then have "client_run (client_process_reply 1 RpcReply_default
     (client_process_reply 1 RpcReply_default (send_request_with_promise True (1::nat) OpRead client_initial)))"
    by (intro client_run.receive)
  from client_resolves_once [OF this] show ?thesis by simp
qed

end
