(* ===== verification/Rpc_Client.thy ===== *)
theory Rpc_Client
  imports Rpc_Bindings
begin

text \<open>
  The transactional client and server objects over the bindings: \<open>dds::Client\<close>
  (\<open>lib/framework/dds/client/MiddlewareClient.cpp\<close>), the thread pool its requests run on
  (\<open>common/ThreadPool.cpp\<close>), \<open>dds::Server\<close> (\<open>server/MiddlewareServer.cpp\<close>), the two RPC stubs
  (\<open>eprosima/ClientRpcStub.cpp\<close>, \<open>eprosima/ServerRpcStub.cpp\<close>) and the factory functions that build
  them (\<open>MiddlewareFrameworkFactory.cpp\<close>).

  A completion callback is a value of type \<open>'cb\<close>; calling it appends it, with its reply, to
  \<open>c_completed\<close>.  The locale \<open>completing_client\<close> is what the parameter and diagnostic classes rely on:
  no callback is lost, none is called twice.
\<close>

section \<open>Thread pool\<close>

text \<open>
  \<open>boost::asio::thread_pool\<close>: posted tasks wait in a queue and any of the threads may run any of
  them; after \<open>stop\<close> no further task is run.
\<close>

record 'task ThreadPool =
  tp_queue :: "'task list"
  tp_stopped :: bool

definition ThreadPool_new :: "'task ThreadPool" where
  "ThreadPool_new = \<lparr>tp_queue = [], tp_stopped = False\<rparr>"

definition ThreadPool_Add :: "'task \<Rightarrow> 'task ThreadPool \<Rightarrow> 'task ThreadPool" where
  "ThreadPool_Add task tp = tp\<lparr>tp_queue := tp_queue tp @ [task]\<rparr>"

definition ThreadPool_Stop :: "'task ThreadPool \<Rightarrow> 'task ThreadPool" where
  "ThreadPool_Stop tp = tp\<lparr>tp_stopped := True\<rparr>"

definition ThreadPool_pick :: "nat \<Rightarrow> 'task ThreadPool \<Rightarrow> 'task option \<times> 'task ThreadPool" where
  "ThreadPool_pick i tp =
     (if tp_stopped tp \<or> length (tp_queue tp) \<le> i then (None, tp)
      else (Some (tp_queue tp ! i), tp\<lparr>tp_queue := take i (tp_queue tp) @ drop (Suc i) (tp_queue tp)\<rparr>))"

section \<open>Client\<close>

record 'cb client_task =
  tk_op :: operation
  tk_serialized :: bytes
  tk_callback :: 'cb

record 'cb Client =
  c_name :: string
  c_pool :: "'cb client_task ThreadPool"
  c_completed :: "('cb \<times> Reply) list"

definition Client_ctor :: "string \<Rightarrow> bool \<Rightarrow> bool \<Rightarrow> 'cb Client cpp" where
  "Client_ctor name has_stub has_pool =
     (if \<not> has_stub then Inl AssertFailed
      else if \<not> has_pool then Inl AssertFailed
      else Inr \<lparr>c_name = name, c_pool = ThreadPool_new, c_completed = []\<rparr>)"

definition Client_dtor :: "'cb Client \<Rightarrow> 'cb Client" where
  "Client_dtor c = c\<lparr>c_pool := ThreadPool_Stop (c_pool c)\<rparr>"

definition on_complete :: "'cb \<Rightarrow> Reply \<Rightarrow> 'cb Client \<Rightarrow> 'cb Client" where
  "on_complete cb reply c = c\<lparr>c_completed := c_completed c @ [(cb, reply)]\<rparr>"

definition oversize_message :: string where
  "oversize_message = ''[Client] Content exceeded '' @ show_nat n_MaxPayloadByteCount @ '' bytes.''"

definition RejectIfOversized :: "bytes \<Rightarrow> 'cb \<Rightarrow> 'cb Client \<Rightarrow> bool \<times> 'cb Client" where
  "RejectIfOversized serialized cb c =
     (if length serialized \<le> n_MaxPayloadByteCount then (False, c)
      else
        (let reply = set_status_code STATUS_CODE_CLIENT_REQUEST_SIZE_ERROR Reply_default;
             reply = set_status_message oversize_message reply;
             reply = reply\<lparr>rp_serialized_protobuf := serialized\<rparr>
         in (True, on_complete cb reply c)))"

definition Client_Read :: "bytes \<Rightarrow> 'cb \<Rightarrow> 'cb Client \<Rightarrow> 'cb Client" where
  "Client_Read serialized cb c =
     (case RejectIfOversized serialized cb c of
        (True, c') \<Rightarrow> c'
      | (False, c') \<Rightarrow>
          c'\<lparr>c_pool := ThreadPool_Add
               \<lparr>tk_op = OpRead, tk_serialized = serialized, tk_callback = cb\<rparr> (c_pool c')\<rparr>)"

definition Client_Write :: "bytes \<Rightarrow> 'cb \<Rightarrow> 'cb Client \<Rightarrow> 'cb Client" where
  "Client_Write serialized cb c =
     (case RejectIfOversized serialized cb c of
        (True, c') \<Rightarrow> c'
      | (False, c') \<Rightarrow>
          c'\<lparr>c_pool := ThreadPool_Add
               \<lparr>tk_op = OpWrite, tk_serialized = serialized, tk_callback = cb\<rparr> (c_pool c')\<rparr>)"

text \<open>
  The posted task.  \<open>alive\<close> says whether \<open>wpClient.lock()\<close> yields the stub's client; \<open>future\<close> is the
  state of the future when \<open>wait_for\<close> returns, \<open>None\<close> for not ready.  The texts of the Fast DDS
  exceptions are the parameter \<open>rpc_what\<close>.
\<close>

definition exn_what :: "(client_exn \<Rightarrow> string) \<Rightarrow> client_exn \<Rightarrow> string" where
  "exn_what rpc_what e = (case e of ClientRaised ex \<Rightarrow> ex_what ex | _ \<Rightarrow> rpc_what e)"

definition task_reply ::
  "(client_exn \<Rightarrow> string) \<Rightarrow> bool \<Rightarrow> (client_exn + TransferData) option \<Rightarrow> bytes \<Rightarrow> Reply" where
  "task_reply rpc_what alive future serialized =
     (let reply = Reply_default\<lparr>rp_serialized_protobuf := serialized\<rparr>
      in if alive then
           (case future of
              None \<Rightarrow> set_status_code STATUS_CODE_CLIENT_TIMEOUT_ERROR reply
            | Some (Inr data) \<Rightarrow>
                (set_status_code STATUS_CODE_SUCCESS reply)\<lparr>rp_serialized_protobuf := protobuf data\<rparr>
            | Some (Inl e) \<Rightarrow>
                set_status_message (exn_what rpc_what e)
                  (set_status_code STATUS_CODE_SERVER_INTERNAL_ERROR
                     (set_status_code STATUS_CODE_SUCCESS reply)))
         else set_status_code STATUS_CODE_CLIENT_INIT_ERROR reply)"

text \<open>What the network does to one request: whether the stub is alive, and the future's state.\<close>

type_synonym net_result = "bool \<times> (client_exn + TransferData) option"

definition Client_run_task ::
  "(client_exn \<Rightarrow> string) \<Rightarrow> nat \<times> net_result \<Rightarrow> 'cb Client \<Rightarrow> 'cb Client" where
  "Client_run_task rpc_what pick c =
     (case ThreadPool_pick (fst pick) (c_pool c) of
        (None, _) \<Rightarrow> c
      | (Some task, tp) \<Rightarrow>
          on_complete (tk_callback task)
            (task_reply rpc_what (fst (snd pick)) (snd (snd pick)) (tk_serialized task))
            (c\<lparr>c_pool := tp\<rparr>))"

section \<open>Server\<close>

text \<open>
  \<open>dds::Server\<close> starts a thread that enters the stub's \<open>run\<close>, which first clears the finish
  condition, and \<open>Stop\<close> sets it.  The thread may be scheduled any time after \<open>Run\<close>.
\<close>

datatype server_thread = NotStarted | Spawned | InLoop | Exited

record ('i, 'g) Server =
  s_name :: string
  s_logic :: "('i, 'g) RequestsServerLogic"
  s_thread :: server_thread

definition Server_ctor :: "string \<Rightarrow> ('i, 'g) RequestsServerLogic option \<Rightarrow> ('i, 'g) Server cpp" where
  "Server_ctor name stub =
     (case stub of None \<Rightarrow> Inl AssertFailed
      | Some logic \<Rightarrow> Inr \<lparr>s_name = name, s_logic = logic, s_thread = NotStarted\<rparr>)"

definition Server_Run :: "('i, 'g) Server \<Rightarrow> ('i, 'g) Server" where
  "Server_Run s = s\<lparr>s_thread := Spawned\<rparr>"

definition Server_Stop :: "('i, 'g) Server \<Rightarrow> ('i, 'g) Server" where
  "Server_Stop s = s\<lparr>s_logic := server_stop (s_logic s)\<rparr>"

definition thread_enter :: "('i, 'g) Server \<Rightarrow> ('i, 'g) Server" where
  "thread_enter s =
     (if s_thread s = Spawned
      then s\<lparr>s_logic := (s_logic s)\<lparr>sv_finish_condition := False\<rparr>, s_thread := InLoop\<rparr> else s)"

definition thread_wakeup ::
  "('i::linorder, 'g) RequestContext list \<Rightarrow> ('i, 'g) Server \<Rightarrow> ('i, 'g) Server" where
  "thread_wakeup taken s =
     (if s_thread s = InLoop then
        (case run_wakeup taken (s_logic s) of
           (True, logic) \<Rightarrow> s\<lparr>s_logic := logic, s_thread := Exited\<rparr>
         | (False, logic) \<Rightarrow> s\<lparr>s_logic := logic\<rparr>)
      else s)"

definition Server_Reply ::
  "u16 \<Rightarrow> Reply \<Rightarrow> ServerRequestHandler \<Rightarrow> ServerRequestHandler cpp" where
  "Server_Reply key reply h = handler_Reply key reply h"

section \<open>Stubs and factory\<close>

text \<open>
  What Fast DDS answers to the creation calls of a client or a server: each flag is whether the call
  returned something other than a null pointer or an error code.
\<close>

record fastdds_env =
  fd_participant :: bool
  fd_register_type :: bool
  fd_service :: bool
  fd_endpoint :: bool

definition RequestsClient_ctor :: "fastdds_env \<Rightarrow> nat RequestsClient cpp" where
  "RequestsClient_ctor env =
     (if \<not> fd_register_type env then Inl (RuntimeError ''Error registering service type'')
      else if \<not> fd_service env then Inl (RuntimeError ''Error creating service'')
      else if \<not> fd_endpoint env then Inl (RuntimeError ''Error creating requester'')
      else Inr client_initial)"

definition RequestsServerLogic_ctor :: "fastdds_env \<Rightarrow> ('i, 'g) RequestsServerLogic cpp" where
  "RequestsServerLogic_ctor env =
     (if \<not> fd_register_type env then Inl (RuntimeError ''Error registering service type'')
      else if \<not> fd_service env then Inl (RuntimeError ''Error creating service'')
      else if \<not> fd_endpoint env then Inl (RuntimeError ''Error creating requester'')
      else Inr server_initial)"

definition ClientRpcStub_ctor :: "fastdds_env \<Rightarrow> nat RequestsClient cpp" where
  "ClientRpcStub_ctor env =
     (if \<not> fd_participant env then Inl AssertFailed else RequestsClient_ctor env)"

definition ServerRpcStub_ctor :: "fastdds_env \<Rightarrow> ('i, 'g) RequestsServerLogic cpp" where
  "ServerRpcStub_ctor env =
     (if \<not> fd_participant env then Inl AssertFailed else RequestsServerLogic_ctor env)"

text \<open>
  \<open>catch(std::exception const& e)\<close> followed by \<open>log::Error\<close>, which throws in turn; the \<open>return
  nullptr\<close> after the handler is \<open>Inr None\<close>.
\<close>

definition factory_catch :: "'a cpp \<Rightarrow> 'a option cpp" where
  "factory_catch r =
     (case r of
        Inr x \<Rightarrow> Inr (Some x)
      | Inl e \<Rightarrow>
          (case exception_what e of
             Some what \<Rightarrow> Inl (RuntimeError (''[MiddlewareFrameworkFactory] [Exception] '' @ what))
           | None \<Rightarrow> Inl e))"

definition CreateClientParticipant :: "fastdds_env \<Rightarrow> string \<Rightarrow> 'cb Client option cpp" where
  "CreateClientParticipant env name =
     factory_catch
       (case ClientRpcStub_ctor env of
          Inl e \<Rightarrow> Inl e
        | Inr _ \<Rightarrow> Client_ctor name True True)"

definition CreateServerParticipant ::
  "fastdds_env \<Rightarrow> string \<Rightarrow> 'u OnRequestCallback option \<Rightarrow> 'u OnRequestCallback option
     \<Rightarrow> (('i, 'g) Server \<times> 'u callbacks \<times> ServerRequestHandler) option cpp" where
  "CreateServerParticipant env name on_reads on_writes =
     factory_catch
       (case ServerRequestHandler_ctor on_reads on_writes of
          Inl e \<Rightarrow> Inl e
        | Inr (r, w, h) \<Rightarrow>
            (case ServerRpcStub_ctor env of
               Inl e \<Rightarrow> Inl e
             | Inr logic \<Rightarrow>
                 (case Server_ctor name (Some logic) of
                    Inl e \<Rightarrow> Inl e
                  | Inr s \<Rightarrow> Inr (s, \<lparr>m_readCallback = r, m_writeCallback = w\<rparr>, h))))"

section \<open>The interface the parameter classes rely on\<close>

locale completing_client =
  fixes submit :: "bytes \<Rightarrow> 'cb \<Rightarrow> 'c \<Rightarrow> 'c"
    and work :: "'w \<Rightarrow> 'c \<Rightarrow> 'c"
    and waiting :: "'c \<Rightarrow> 'cb list"
    and called :: "'c \<Rightarrow> ('cb \<times> Reply) list"
    and live :: "'c \<Rightarrow> bool"
    and front :: "'w \<Rightarrow> bool"
  assumes submit_conserves:
      "image_mset fst (mset (called (submit b cb c))) + mset (waiting (submit b cb c)) =
         add_mset cb (image_mset fst (mset (called c)) + mset (waiting c))"
    and work_conserves:
      "image_mset fst (mset (called (work w c))) + mset (waiting (work w c)) =
         image_mset fst (mset (called c)) + mset (waiting c)"
    and work_front:
      "live c \<Longrightarrow> waiting c \<noteq> [] \<Longrightarrow> front w \<Longrightarrow> length (waiting (work w c)) < length (waiting c)"
    and work_shrinks: "length (waiting (work w c)) \<le> length (waiting c)"
    and submit_grows: "length (waiting (submit b cb c)) \<le> Suc (length (waiting c))"
    and live_submit: "live (submit b cb c) = live c"
    and live_work: "live (work w c) = live c"
begin

lemma submit_all_conserves:
  "image_mset fst (mset (called (fold (\<lambda>(b, cb). submit b cb) qs c))) + mset (waiting (fold (\<lambda>(b, cb). submit b cb) qs c))
     = image_mset snd (mset qs) + (image_mset fst (mset (called c)) + mset (waiting c))"
  by (induction qs arbitrary: c) (simp_all add: submit_conserves case_prod_beta)

lemma work_all_conserves:
  "image_mset fst (mset (called (fold work ws c))) + mset (waiting (fold work ws c)) =
     image_mset fst (mset (called c)) + mset (waiting c)"
  by (induction ws arbitrary: c) (simp_all add: work_conserves)

lemma live_submit_all: "live (fold (\<lambda>(b, cb). submit b cb) qs c) = live c"
  by (induction qs arbitrary: c) (simp_all add: live_submit case_prod_beta)

lemma work_drains:
  "live c \<Longrightarrow> list_all front ws \<Longrightarrow> length (waiting c) \<le> length ws \<Longrightarrow> waiting (fold work ws c) = []"
proof (induction ws arbitrary: c)
  case (Cons w ws)
  have "length (waiting (work w c)) \<le> length ws"
    using Cons.prems work_front [of c w] work_shrinks [of w c] by (cases "waiting c = []") auto
  then show ?case using Cons by (simp add: live_work)
qed simp

lemma submit_all_grows:
  "length (waiting (fold (\<lambda>(b, cb). submit b cb) qs c)) \<le> length qs + length (waiting c)"
proof (induction qs arbitrary: c)
  case (Cons q qs)
  show ?case
    using Cons.IH [of "submit (fst q) (snd q) c"] submit_grows [of "fst q" "snd q" c]
    by (simp add: case_prod_beta)
qed simp

text \<open>From a fresh live client every submitted callback is eventually called, exactly once.\<close>

lemma all_called_once:
  assumes "live c" "waiting c = []" "called c = []" "list_all front ws" "length qs \<le> length ws"
  shows "image_mset fst (mset (called (fold work ws (fold (\<lambda>(b, cb). submit b cb) qs c)))) =
           image_mset snd (mset qs)"
proof -
  let ?c = "fold (\<lambda>(b, cb). submit b cb) qs c"
  have "length (waiting ?c) \<le> length ws" "live ?c"
    using submit_all_grows [of qs c] assms by (simp_all add: live_submit_all)
  then have "waiting (fold work ws ?c) = []" using assms(4) by (intro work_drains)
  then show ?thesis
    using work_all_conserves [of ws ?c] submit_all_conserves [of qs c] assms(2,3) by simp
qed

end

definition client_waiting :: "'cb Client \<Rightarrow> 'cb list" where
  "client_waiting c = map tk_callback (tp_queue (c_pool c))"

definition client_live :: "'cb Client \<Rightarrow> bool" where
  "client_live c \<longleftrightarrow> \<not> tp_stopped (c_pool c)"

definition Client_submit :: "operation \<Rightarrow> bytes \<Rightarrow> 'cb \<Rightarrow> 'cb Client \<Rightarrow> 'cb Client" where
  "Client_submit op = (case op of OpRead \<Rightarrow> Client_Read | OpWrite \<Rightarrow> Client_Write)"

lemmas client_defs = Client_Read_def Client_Write_def RejectIfOversized_def on_complete_def
  ThreadPool_Add_def client_waiting_def client_live_def Client_submit_def

lemma pick_mset:
  "i < length xs \<Longrightarrow> add_mset (xs ! i) (mset (take i xs) + mset (drop (Suc i) xs)) = mset xs"
  by (metis append_take_drop_id Cons_nth_drop_Suc mset.simps(2) mset_append union_mset_add_mset_right)

lemma run_task_conserves:
  "image_mset fst (mset (c_completed (Client_run_task rw w c))) + mset (client_waiting (Client_run_task rw w c)) =
     image_mset fst (mset (c_completed c)) + mset (client_waiting c)"
proof -
  have "add_mset (f (xs ! i)) (image_mset f (mset (take i xs) + mset (drop (Suc i) xs))) = image_mset f (mset xs)"
    if "i < length xs" for f :: "'a client_task \<Rightarrow> 'a" and xs i
    using pick_mset [OF that] by (metis image_mset_add_mset)
  then show ?thesis
    by (auto simp: Client_run_task_def ThreadPool_pick_def on_complete_def client_waiting_def)
qed

interpretation rd: completing_client "Client_submit op" "Client_run_task rw" client_waiting c_completed
  client_live "\<lambda>w. fst w = 0" for op rw
proof unfold_locales
  fix b and cb :: 'a and c :: "'a Client"
  show "image_mset fst (mset (c_completed (Client_submit op b cb c))) + mset (client_waiting (Client_submit op b cb c)) =
      add_mset cb (image_mset fst (mset (c_completed c)) + mset (client_waiting c))"
    by (cases op) (auto simp: client_defs Let_def)
  show "client_live (Client_submit op b cb c) = client_live c"
    by (cases op) (auto simp: client_defs Let_def)
  show "length (client_waiting (Client_submit op b cb c)) \<le> Suc (length (client_waiting c))"
    by (cases op) (auto simp: client_defs Let_def)
next
  fix w and c :: "'a Client"
  show "client_live (Client_run_task rw w c) = client_live c"
    by (auto simp: Client_run_task_def ThreadPool_pick_def on_complete_def client_live_def)
  show "length (client_waiting (Client_run_task rw w c)) \<le> length (client_waiting c)"
    by (auto simp: Client_run_task_def ThreadPool_pick_def on_complete_def client_waiting_def)
next
  fix c :: "'a Client" and w :: "nat \<times> net_result"
  assume "client_live c" "client_waiting c \<noteq> []" "fst w = 0"
  then show "length (client_waiting (Client_run_task rw w c)) < length (client_waiting c)"
    by (auto simp: Client_run_task_def ThreadPool_pick_def on_complete_def client_live_def client_waiting_def)
qed (rule run_task_conserves)

lemma take_one_keeps_finish [simp]: "sv_finish_condition (take_one ctx sv) = sv_finish_condition sv"
  by (auto simp: take_one_def process_request_def admit_request_def process_additional_request_def prepare_context_def
      schedule_request_def send_exception_def send_reply_def split: option.splits if_splits prod.splits)

lemma take_all_keeps_finish [simp]: "sv_finish_condition (fold take_one w sv) = sv_finish_condition sv"
  by (induction w arbitrary: sv) simp_all

lemma wakeups_stay_in_loop:
  "s_thread t = InLoop \<Longrightarrow> \<not> sv_finish_condition (s_logic t) \<Longrightarrow>
     s_thread (fold thread_wakeup wakeups t) = InLoop"
  by (induction wakeups arbitrary: t) (auto simp: thread_wakeup_def run_wakeup_def)

section \<open>Properties\<close>



text \<open>
  The reply a completion callback sees: a success carries the server's bytes; a timeout, a dead
stub and an exception carry the request's own bytes and a failure code, the exception also its
message.  The status code the server had put into the exception is never passed on.
\<close>

theorem task_reply_cases:
  "task_reply rpc_what alive future serialized =
     (if \<not> alive then
        \<lparr>rp_status = \<lparr>status_code = STATUS_CODE_CLIENT_INIT_ERROR, status_message = []\<rparr>,
         rp_serialized_protobuf = serialized\<rparr>
      else case future of
        None \<Rightarrow> \<lparr>rp_status = \<lparr>status_code = STATUS_CODE_CLIENT_TIMEOUT_ERROR, status_message = []\<rparr>,
                 rp_serialized_protobuf = serialized\<rparr>
      | Some (Inr data) \<Rightarrow>
          \<lparr>rp_status = \<lparr>status_code = STATUS_CODE_SUCCESS, status_message = []\<rparr>,
           rp_serialized_protobuf = protobuf data\<rparr>
      | Some (Inl e) \<Rightarrow>
          \<lparr>rp_status = \<lparr>status_code = STATUS_CODE_SERVER_INTERNAL_ERROR, status_message = exn_what rpc_what e\<rparr>,
           rp_serialized_protobuf = serialized\<rparr>)"
  by (auto simp: task_reply_def reply_defs Let_def split: option.splits sum.splits)

text \<open>
  The factory functions never return a null pointer: they return the object, throw, or end the
process; the only process-ending cases are a null domain participant and an empty callback.
\<close>

theorem factory_never_null:
  "CreateClientParticipant env name \<noteq> Inr None \<and>
   CreateServerParticipant env name on_reads on_writes \<noteq> Inr None \<and>
   (CreateClientParticipant env name = Inl AssertFailed \<longleftrightarrow> \<not> fd_participant env) \<and>
   (CreateServerParticipant env name on_reads on_writes = Inl AssertFailed \<longleftrightarrow>
      \<not> fd_participant env \<or> on_reads = None \<or> on_writes = None)"
  by (cases on_reads; cases on_writes)
    (auto simp: factory_catch_def CreateClientParticipant_def CreateServerParticipant_def
      ClientRpcStub_ctor_def ServerRpcStub_ctor_def RequestsClient_ctor_def RequestsServerLogic_ctor_def
      Client_ctor_def Server_ctor_def ServerRequestHandler_ctor_def split: mw_split)

text \<open>
  A stop that reaches the server before its thread has entered the loop is lost: the thread
clears the finish condition on entry and then keeps serving through any number of wake-ups, so the
join in the destructor does not return.  A stop after the thread has entered ends it at the next
wake-up.
\<close>

theorem stop_before_run_is_lost:
  "s_thread (fold thread_wakeup wakeups (thread_enter (Server_Stop (Server_Run s)))) = InLoop \<and>
   s_thread (thread_wakeup w (Server_Stop (thread_enter (Server_Run s)))) = Exited"
  using wakeups_stay_in_loop [of "thread_enter (Server_Stop (Server_Run s))" wakeups]
  by (simp add: thread_wakeup_def run_wakeup_def Server_Stop_def Server_Run_def thread_enter_def server_stop_def)

end
