(* ===== verification/Message_Pubsub.thy ===== *)
theory Message_Pubsub
  imports Mw_Defines
begin

text \<open>
  Publish/subscribe over Fast DDS: \<open>MessageWriter\<close>, \<open>MessageReader\<close> and \<open>MessageParticipant\<close>
  (\<open>lib/framework/dds/message/\<close>), the stubs that own the DDS entities, the listeners that forward
  Fast DDS events, and the participant stub that creates them (\<open>lib/framework/dds/eprosima/\<close>).

  Fast DDS itself is an environment: the results of the samples it yields to \<open>take_next_sample\<close>, of
  \<open>write\<close> and of the creation calls are arguments.  The locale \<open>two_state_flag\<close> is the contract of the
  connection flag that reader and writer share, \<open>bounded_writer\<close> the contract that publishers rely on.
\<close>

section \<open>Return codes and samples\<close>

datatype retcode = RETCODE_OK | RETCODE_NO_DATA | RETCODE_ERROR | RETCODE_OTHER int

text \<open>What one call of \<open>take_next_sample\<close> yields.\<close>

datatype take_result =
    Sample bool bytes
  | TakeFails retcode

section \<open>Ownership of DDS entities\<close>

text \<open>
  The effects of tearing a stub down, in order: the destructor's body detaches the listener, then
  the members are destroyed in reverse order of declaration (reader or writer, listener, topic);
  each deleter asserts that Fast DDS returned \<open>RETCODE_OK\<close>.
\<close>

datatype teardown_event = SetListenerNull | DeleteEndpoint | FreeListener | DeleteTopic

definition EndpointDeleter :: "retcode \<Rightarrow> teardown_event list cpp" where
  "EndpointDeleter ret = (if ret = RETCODE_OK then Inr [DeleteEndpoint] else Inl AssertFailed)"

definition TopicDeleter :: "retcode \<Rightarrow> teardown_event list cpp" where
  "TopicDeleter ret = (if ret = RETCODE_OK then Inr [DeleteTopic] else Inl AssertFailed)"

definition stub_dtor :: "bool \<Rightarrow> retcode \<Rightarrow> retcode \<Rightarrow> teardown_event list cpp" where
  "stub_dtor has_endpoint ret_endpoint ret_topic =
     (let detach = (if has_endpoint then [SetListenerNull] else [])
      in case (if has_endpoint then EndpointDeleter ret_endpoint else Inr []) of
           Inl e \<Rightarrow> Inl e
         | Inr deleted \<Rightarrow>
             (case TopicDeleter ret_topic of
                Inl e \<Rightarrow> Inl e
              | Inr topic \<Rightarrow> Inr (detach @ deleted @ [FreeListener] @ topic)))"

definition DataReaderStub_dtor :: "bool \<Rightarrow> retcode \<Rightarrow> retcode \<Rightarrow> teardown_event list cpp" where
  "DataReaderStub_dtor = stub_dtor"

definition DataWriterStub_dtor :: "bool \<Rightarrow> retcode \<Rightarrow> retcode \<Rightarrow> teardown_event list cpp" where
  "DataWriterStub_dtor = stub_dtor"

section \<open>Writer\<close>

text \<open>
  The stub's data writer, if it is still there, with the samples it has accepted; the stub itself is
  handed to the writer by \<open>SetDependency\<close>.
\<close>

record DataWriterStub =
  dw_writer :: "bytes list option"

record MessageWriter =
  mw_topicName :: string
  mw_stub :: "DataWriterStub option"
  mw_matched :: bool

definition DataWriterStub_Write :: "retcode \<Rightarrow> bytes \<Rightarrow> DataWriterStub \<Rightarrow> retcode \<times> DataWriterStub" where
  "DataWriterStub_Write ret msg st =
     (case dw_writer st of
        Some written \<Rightarrow>
          (ret, if ret = RETCODE_OK then st\<lparr>dw_writer := Some (written @ [msg])\<rparr> else st)
      | None \<Rightarrow> (RETCODE_ERROR, st))"

definition MessageWriter_ctor :: "string \<Rightarrow> MessageWriter" where
  "MessageWriter_ctor topicName = \<lparr>mw_topicName = topicName, mw_stub = None, mw_matched = False\<rparr>"

definition MessageWriter_SetDependency :: "DataWriterStub option \<Rightarrow> MessageWriter \<Rightarrow> MessageWriter cpp" where
  "MessageWriter_SetDependency stub w =
     (if stub = None then Inl AssertFailed
      else if mw_stub w \<noteq> None then Inl AssertFailed
      else Inr (w\<lparr>mw_stub := stub\<rparr>))"

definition ConnectedToSubscriber :: "MessageWriter \<Rightarrow> bool" where
  "ConnectedToSubscriber w = mw_matched w"

definition MessageWriter_Publish :: "retcode \<Rightarrow> bytes \<Rightarrow> MessageWriter \<Rightarrow> bool \<times> MessageWriter" where
  "MessageWriter_Publish ret message w =
     (if length message \<le> n_MaxPayloadByteCount then
        (case mw_stub w of
           Some st \<Rightarrow>
             (case DataWriterStub_Write ret message st of
                (return_code, st') \<Rightarrow> (return_code = RETCODE_OK, w\<lparr>mw_stub := Some st'\<rparr>))
         | None \<Rightarrow> (RETCODE_ERROR = RETCODE_OK, w))
      else (False, w))"

definition OnPublicationMatched :: "bool \<Rightarrow> MessageWriter \<Rightarrow> MessageWriter" where
  "OnPublicationMatched matched w =
     (if \<not> mw_matched w \<and> matched then w\<lparr>mw_matched := True\<rparr>
      else if mw_matched w \<and> \<not> matched then w\<lparr>mw_matched := False\<rparr>
      else w)"

text \<open>The listener passes on the sign of \<open>current_count_change\<close>.\<close>

definition on_publication_matched :: "int \<Rightarrow> MessageWriter \<Rightarrow> MessageWriter" where
  "on_publication_matched current_count_change w = OnPublicationMatched (current_count_change > 0) w"

section \<open>Reader\<close>

text \<open>
  The stub's data reader, if it is still there, with the results its next calls of
  \<open>take_next_sample\<close> have; after them it returns \<open>RETCODE_NO_DATA\<close>.
\<close>

record DataReaderStub =
  dr_reader :: "take_result list option"

record 'u MessageReader =
  mr_topicName :: string
  mr_onSubscription :: "bytes \<Rightarrow> 'u \<Rightarrow> 'u cpp"
  mr_onDisconnect :: "('u \<Rightarrow> 'u cpp) option"
  mr_stub :: "DataReaderStub option"
  mr_matched :: bool

definition TakeNextSample :: "DataReaderStub \<Rightarrow> take_result \<times> DataReaderStub" where
  "TakeNextSample st =
     (case dr_reader st of
        None \<Rightarrow> (TakeFails RETCODE_ERROR, st)
      | Some [] \<Rightarrow> (TakeFails RETCODE_NO_DATA, st)
      | Some (r # rest) \<Rightarrow> (r, st\<lparr>dr_reader := Some rest\<rparr>))"

definition MessageReader_ctor ::
  "string \<Rightarrow> (bytes \<Rightarrow> 'u \<Rightarrow> 'u cpp) option \<Rightarrow> ('u \<Rightarrow> 'u cpp) option \<Rightarrow> 'u MessageReader cpp" where
  "MessageReader_ctor topicName on_subscription on_disconnect =
     (case on_subscription of
        None \<Rightarrow> Inl AssertFailed
      | Some f \<Rightarrow> Inr \<lparr>mr_topicName = topicName, mr_onSubscription = f, mr_onDisconnect = on_disconnect,
                     mr_stub = None, mr_matched = False\<rparr>)"

definition MessageReader_SetDependency ::
  "DataReaderStub option \<Rightarrow> 'u MessageReader \<Rightarrow> 'u MessageReader cpp" where
  "MessageReader_SetDependency stub r =
     (if stub = None then Inl AssertFailed
      else if mr_stub r \<noteq> None then Inl AssertFailed
      else Inr (r\<lparr>mr_stub := stub\<rparr>))"

definition ConnectedToPublisher :: "'u MessageReader \<Rightarrow> bool" where
  "ConnectedToPublisher r = mr_matched r"

text \<open>An exception of the disconnect callback leaves before the flag is cleared.\<close>

definition OnSubscriptionMatched :: "bool \<Rightarrow> 'u MessageReader \<times> 'u \<Rightarrow> ('u MessageReader \<times> 'u) cpp" where
  "OnSubscriptionMatched matched ru =
     (case ru of (r, u) \<Rightarrow>
        if \<not> mr_matched r \<and> matched then Inr (r\<lparr>mr_matched := True\<rparr>, u)
        else if mr_matched r \<and> \<not> matched then
          (case mr_onDisconnect r of
             None \<Rightarrow> Inr (r\<lparr>mr_matched := False\<rparr>, u)
           | Some f \<Rightarrow> (case f u of Inl e \<Rightarrow> Inl e | Inr u' \<Rightarrow> Inr (r\<lparr>mr_matched := False\<rparr>, u')))
        else Inr (r, u))"

definition on_subscription_matched :: "int \<Rightarrow> 'u MessageReader \<times> 'u \<Rightarrow> ('u MessageReader \<times> 'u) cpp" where
  "on_subscription_matched current_count_change ru =
     OnSubscriptionMatched (current_count_change > 0) ru"

text \<open>What the data reader has still to yield.\<close>

definition pending_count :: "DataReaderStub option \<Rightarrow> nat" where
  "pending_count stub =
     (case stub of None \<Rightarrow> 0 | Some st \<Rightarrow> (case dr_reader st of None \<Rightarrow> 0 | Some rs \<Rightarrow> length rs))"

lemma TakeNextSample_decreases:
  "TakeNextSample st = (Sample v m, st') \<Longrightarrow> pending_count (Some st') < pending_count (Some st)"
  by (auto simp: TakeNextSample_def pending_count_def split: option.splits list.splits)

text \<open>
  The loop of \<open>OnDataAvailable\<close>.  It goes on as long as \<open>take_next_sample\<close> succeeds, so each round
  consumes a result; invalid samples are skipped.
\<close>

function OnDataAvailable_loop ::
  "(bytes \<Rightarrow> 'u \<Rightarrow> 'u cpp) \<Rightarrow> DataReaderStub option \<Rightarrow> 'u \<Rightarrow> DataReaderStub option \<times> 'u cpp" where
  "OnDataAvailable_loop f stub u =
     (case stub of
        None \<Rightarrow> (stub, Inr u)
      | Some st \<Rightarrow>
          (case TakeNextSample st of
             (Sample valid msg, st') \<Rightarrow>
               if valid then
                 (case f msg u of
                    Inl e \<Rightarrow> (Some st', Inl e)
                  | Inr u' \<Rightarrow> OnDataAvailable_loop f (Some st') u')
               else OnDataAvailable_loop f (Some st') u
           | (TakeFails _, st') \<Rightarrow> (Some st', Inr u)))"
  by pat_completeness auto

termination
  by (relation "measure (\<lambda>(f, stub, u). pending_count stub)") (auto dest: TakeNextSample_decreases [OF sym])

declare OnDataAvailable_loop.simps [simp del]

definition OnDataAvailable :: "'u MessageReader \<Rightarrow> 'u \<Rightarrow> 'u MessageReader \<times> 'u cpp" where
  "OnDataAvailable r u =
     (case OnDataAvailable_loop (mr_onSubscription r) (mr_stub r) u of
        (stub, res) \<Rightarrow> (r\<lparr>mr_stub := stub\<rparr>, res))"

section \<open>Creation\<close>

text \<open>The answers of Fast DDS to the creation calls, and whether \<open>find_topic\<close> knows the topic.\<close>

record creation_env =
  ce_participant :: bool
  ce_entity :: bool
  ce_topic_found :: bool
  ce_topic_created :: bool
  ce_endpoint :: bool

definition topic_available :: "creation_env \<Rightarrow> bool" where
  "topic_available env = (if ce_topic_found env then True else ce_topic_created env)"

text \<open>
  \<open>MessageWriter::Create\<close>.  The listener is attached while the data writer is created, so matches
  may be reported (\<open>early\<close>) before the writer has its stub.
\<close>

definition MessageWriter_Create :: "creation_env \<Rightarrow> string \<Rightarrow> int list \<Rightarrow> MessageWriter cpp" where
  "MessageWriter_Create env topicName early =
     (if \<not> topic_available env then Inl AssertFailed
      else if \<not> ce_endpoint env then Inl AssertFailed
      else MessageWriter_SetDependency (Some \<lparr>dw_writer = Some []\<rparr>)
             (fold on_publication_matched early (MessageWriter_ctor topicName)))"

text \<open>Events that the reader's listener forwards.\<close>

datatype reader_evt = SubscriptionMatched int | DataAvailable

fun reader_event :: "reader_evt \<Rightarrow> 'u MessageReader \<times> 'u \<Rightarrow> ('u MessageReader \<times> 'u) cpp" where
  "reader_event (SubscriptionMatched change) ru = on_subscription_matched change ru"
| "reader_event DataAvailable (r, u) =
     (case OnDataAvailable r u of (r', Inl e) \<Rightarrow> Inl e | (r', Inr u') \<Rightarrow> Inr (r', u'))"

fun reader_events :: "reader_evt list \<Rightarrow> 'u MessageReader \<times> 'u \<Rightarrow> ('u MessageReader \<times> 'u) cpp" where
  "reader_events [] ru = Inr ru"
| "reader_events (ev # evs) ru =
     (case reader_event ev ru of Inl e \<Rightarrow> Inl e | Inr ru' \<Rightarrow> reader_events evs ru')"

definition MessageReader_Create ::
  "creation_env \<Rightarrow> string \<Rightarrow> (bytes \<Rightarrow> 'u \<Rightarrow> 'u cpp) option \<Rightarrow> ('u \<Rightarrow> 'u cpp) option
     \<Rightarrow> reader_evt list \<Rightarrow> take_result list \<Rightarrow> 'u \<Rightarrow> ('u MessageReader \<times> 'u) cpp" where
  "MessageReader_Create env topicName on_subscription on_disconnect early samples u =
     (if \<not> topic_available env then Inl AssertFailed
      else case MessageReader_ctor topicName on_subscription on_disconnect of
             Inl e \<Rightarrow> Inl e
           | Inr r \<Rightarrow>
               (if \<not> ce_endpoint env then Inl AssertFailed
                else case reader_events early (r, u) of
                       Inl e \<Rightarrow> Inl e
                     | Inr (r', u') \<Rightarrow>
                         (case MessageReader_SetDependency (Some \<lparr>dr_reader = Some samples\<rparr>) r' of
                            Inl e \<Rightarrow> Inl e
                          | Inr r'' \<Rightarrow> Inr (r'', u'))))"

text \<open>The participant stub creates its publisher and its subscriber on first use.\<close>

record DomainParticipantMessageStub =
  dp_name :: string
  dp_domain_id :: u32
  dp_pPublisher :: bool
  dp_pSubscriber :: bool

definition DomainParticipantMessageStub_ctor ::
  "creation_env \<Rightarrow> u32 \<Rightarrow> string \<Rightarrow> DomainParticipantMessageStub cpp" where
  "DomainParticipantMessageStub_ctor env domain_id name =
     (if \<not> ce_participant env then Inl AssertFailed
      else Inr \<lparr>dp_name = name, dp_domain_id = domain_id, dp_pPublisher = False, dp_pSubscriber = False\<rparr>)"

datatype participant_event = DeletePublisher | DeleteSubscriber | DeleteParticipant

definition DomainParticipantMessageStub_dtor :: "DomainParticipantMessageStub \<Rightarrow> participant_event list" where
  "DomainParticipantMessageStub_dtor dp =
     (if dp_pPublisher dp then [DeletePublisher] else []) @
     (if dp_pSubscriber dp then [DeleteSubscriber] else []) @ [DeleteParticipant]"

text \<open>
  The port arithmetic is done in \<open>uint32_t\<close>; the three port parameters are 16-bit members of the
  participant's quality of service.
\<close>

record port_parameters =
  portBase :: u16
  domainIDGain :: u16
  offsetd2 :: u16

definition MulticastListeningLocatorPort :: "port_parameters \<Rightarrow> DomainParticipantMessageStub \<Rightarrow> u32" where
  "MulticastListeningLocatorPort pp dp =
     ucast (portBase pp) + ucast (domainIDGain pp) * dp_domain_id dp + ucast (offsetd2 pp)"

definition stub_CreateWriter ::
  "creation_env \<Rightarrow> string \<Rightarrow> int list \<Rightarrow> DomainParticipantMessageStub
     \<Rightarrow> (MessageWriter \<times> DomainParticipantMessageStub) cpp" where
  "stub_CreateWriter env topic_name early dp =
     (if \<not> dp_pPublisher dp \<and> \<not> ce_entity env then Inl AssertFailed
      else case MessageWriter_Create env topic_name early of
             Inl e \<Rightarrow> Inl e
           | Inr w \<Rightarrow> Inr (w, dp\<lparr>dp_pPublisher := True\<rparr>))"

definition stub_CreateReader ::
  "creation_env \<Rightarrow> string \<Rightarrow> (bytes \<Rightarrow> 'u \<Rightarrow> 'u cpp) option \<Rightarrow> ('u \<Rightarrow> 'u cpp) option
     \<Rightarrow> reader_evt list \<Rightarrow> take_result list \<Rightarrow> DomainParticipantMessageStub \<Rightarrow> 'u
     \<Rightarrow> ('u MessageReader \<times> DomainParticipantMessageStub \<times> 'u) cpp" where
  "stub_CreateReader env topic_name on_subscription on_disconnect early samples dp u =
     (if \<not> dp_pSubscriber dp \<and> \<not> ce_entity env then Inl AssertFailed
      else case MessageReader_Create env topic_name on_subscription on_disconnect early samples u of
             Inl e \<Rightarrow> Inl e
           | Inr (r, u') \<Rightarrow> Inr (r, dp\<lparr>dp_pSubscriber := True\<rparr>, u'))"

section \<open>Quality of service\<close>

datatype history_kind = KEEP_LAST_HISTORY_QOS | KEEP_ALL_HISTORY_QOS
datatype durability_kind = VOLATILE_DURABILITY_QOS | TRANSIENT_LOCAL_DURABILITY_QOS
datatype reliability_kind = BEST_EFFORT_RELIABILITY_QOS | RELIABLE_RELIABILITY_QOS

text \<open>The members that \<open>MessageParticipant\<close> sets on a writer or a reader.\<close>

record endpoint_qos =
  q_history_kind :: history_kind
  q_history_depth :: int
  q_durability :: durability_kind
  q_reliability :: reliability_kind
  q_max_blocking_ns :: nat
  q_max_samples :: int
  q_max_instances :: int
  q_max_samples_per_instance :: int
  q_disable_positive_acks :: bool
  q_data_sharing :: bool

definition message_qos :: endpoint_qos where
  "message_qos = \<lparr>q_history_kind = KEEP_LAST_HISTORY_QOS, q_history_depth = 1,
     q_durability = TRANSIENT_LOCAL_DURABILITY_QOS, q_reliability = RELIABLE_RELIABILITY_QOS,
     q_max_blocking_ns = 100000000, q_max_samples = 1, q_max_instances = 1,
     q_max_samples_per_instance = 1, q_disable_positive_acks = True, q_data_sharing = False\<rparr>"

definition MessageParticipant_ctor ::
  "DomainParticipantMessageStub option \<Rightarrow> DomainParticipantMessageStub cpp" where
  "MessageParticipant_ctor stub = (case stub of None \<Rightarrow> Inl AssertFailed | Some dp \<Rightarrow> Inr dp)"

definition MessageParticipant_CreateWriter ::
  "creation_env \<Rightarrow> string \<Rightarrow> int list \<Rightarrow> DomainParticipantMessageStub
     \<Rightarrow> ((MessageWriter \<times> endpoint_qos) \<times> DomainParticipantMessageStub) cpp" where
  "MessageParticipant_CreateWriter env topicName early dp =
     (case stub_CreateWriter env topicName early dp of
        Inl e \<Rightarrow> Inl e
      | Inr (w, dp') \<Rightarrow> Inr ((w, message_qos), dp'))"

text \<open>A reader also listens on the multicast address 239.'B'.'O'.'G'.\<close>

definition multicast_address :: "byte list" where
  "multicast_address = [239, of_nat (of_char CHR ''B''), of_nat (of_char CHR ''O''), of_nat (of_char CHR ''G'')]"

definition MessageParticipant_CreateReader ::
  "creation_env \<Rightarrow> port_parameters \<Rightarrow> string \<Rightarrow> (bytes \<Rightarrow> 'u \<Rightarrow> 'u cpp) option \<Rightarrow> ('u \<Rightarrow> 'u cpp) option
     \<Rightarrow> reader_evt list \<Rightarrow> take_result list \<Rightarrow> DomainParticipantMessageStub \<Rightarrow> 'u
     \<Rightarrow> (('u MessageReader \<times> endpoint_qos \<times> byte list \<times> u32) \<times> DomainParticipantMessageStub \<times> 'u) cpp" where
  "MessageParticipant_CreateReader env pp topicName on_subscription on_disconnect early samples dp u =
     (case stub_CreateReader env topicName on_subscription on_disconnect early samples dp u of
        Inl e \<Rightarrow> Inl e
      | Inr (r, dp', u') \<Rightarrow>
          Inr ((r, message_qos, multicast_address, MulticastListeningLocatorPort pp dp), dp', u'))"

section \<open>The connection flag\<close>

text \<open>
  The contract of the flag: after a report it has the reported value.  Over a sequence of listener
  events that makes it the sign of the last count change.
\<close>

locale two_state_flag =
  fixes flag :: "'s \<Rightarrow> bool"
    and report :: "bool \<Rightarrow> 's \<Rightarrow> 's"
  assumes flag_report: "flag (report m s) = m"
begin

lemma flag_reports:
  "flag (fold (\<lambda>change. report (change > 0)) changes s) =
     (if changes = [] then flag s else last changes > (0 :: int))"
  by (induction changes arbitrary: s) (simp_all add: flag_report)

text \<open>With a single peer, whose changes alternate, the flag is whether the peer is there.\<close>

lemma flag_single_peer:
  assumes "\<And>n. n \<le> length changes \<Longrightarrow> sum_list (take n changes) \<in> {0, 1 :: int}"
    and "\<forall>c \<in> set changes. c \<noteq> 0" "\<not> flag s"
  shows "flag (fold (\<lambda>change. report (change > 0)) changes s) \<longleftrightarrow> sum_list changes > 0"
proof (cases changes rule: rev_cases)
  case Nil
  then show ?thesis using assms(3) by simp
next
  case (snoc cs c)
  then have "sum_list cs \<in> {0, 1}" "sum_list cs + c \<in> {0, 1}" "c \<noteq> 0"
    using assms(1) [of "length cs"] assms(1) [of "length changes"] assms(2) by auto
  then show ?thesis using snoc flag_reports [of changes s] by auto
qed

end

interpretation wf: two_state_flag mw_matched OnPublicationMatched
  by unfold_locales (auto simp: OnPublicationMatched_def)

text \<open>A reader whose disconnect callback \<open>g\<close> cannot throw, as the one of \<open>SubscribeParameter\<close>.\<close>

definition reader_report :: "('u \<Rightarrow> 'u) \<Rightarrow> bool \<Rightarrow> 'u MessageReader \<times> 'u \<Rightarrow> 'u MessageReader \<times> 'u" where
  "reader_report g m ru =
     (case OnSubscriptionMatched m ((fst ru)\<lparr>mr_onDisconnect := Some (\<lambda>u. Inr (g u))\<rparr>, snd ru) of
        Inl _ \<Rightarrow> ru | Inr ru' \<Rightarrow> ru')"

interpretation rf: two_state_flag "\<lambda>ru. mr_matched (fst ru)" "reader_report g" for g
  by unfold_locales (auto simp: reader_report_def OnSubscriptionMatched_def)

section \<open>What publishers rely on\<close>

text \<open>
  A writer accepts a message or reports failure; what it has accepted is within the limit and in
  the order of the calls.
\<close>

locale bounded_writer =
  fixes publish :: "'r \<Rightarrow> bytes \<Rightarrow> 'w \<Rightarrow> bool \<times> 'w"
    and sent :: "'w \<Rightarrow> bytes list"
    and limit :: nat
  assumes publish_sent: "sent (snd (publish r m w)) = sent w @ (if fst (publish r m w) then [m] else [])"
    and publish_bounded: "fst (publish r m w) \<Longrightarrow> length m \<le> limit"
begin

fun publish_all :: "('r \<times> bytes) list \<Rightarrow> 'w \<Rightarrow> bool list \<times> 'w" where
  "publish_all [] w = ([], w)"
| "publish_all ((r, m) # qs) w =
     (case publish r m w of (ok, w') \<Rightarrow> (case publish_all qs w' of (oks, w'') \<Rightarrow> (ok # oks, w'')))"

lemma publish_all_sent:
  "sent (snd (publish_all qs w)) = sent w @ map (snd \<circ> snd) (filter fst (zip (fst (publish_all qs w)) qs))"
proof (induction qs w rule: publish_all.induct)
  case (2 r m qs w)
  then show ?case
    using publish_sent [of r m w] by (auto split: prod.splits)
qed simp

lemma publish_all_bounded:
  "(\<forall>m \<in> set (sent w). length m \<le> limit) \<Longrightarrow> (\<forall>m \<in> set (sent (snd (publish_all qs w))). length m \<le> limit)"
proof (induction qs w rule: publish_all.induct)
  case (2 r m qs w)
  have "\<forall>x \<in> set (sent (snd (publish r m w))). length x \<le> limit"
    using "2.prems" publish_sent [of r m w] publish_bounded [of r m w] by auto
  then show ?case using "2.IH" by (auto split: prod.splits)
qed simp

end

definition writer_sent :: "MessageWriter \<Rightarrow> bytes list" where
  "writer_sent w =
     (case mw_stub w of None \<Rightarrow> [] | Some st \<Rightarrow> (case dw_writer st of None \<Rightarrow> [] | Some ms \<Rightarrow> ms))"

lemma MessageWriter_Publish_cases:
  "MessageWriter_Publish ret m w =
     (if length m \<le> n_MaxPayloadByteCount \<and> ret = RETCODE_OK \<and> (\<exists>st ms. mw_stub w = Some st \<and> dw_writer st = Some ms)
      then (True, w\<lparr>mw_stub := Some \<lparr>dw_writer = Some (writer_sent w @ [m])\<rparr>\<rparr>)
      else (False, w))"
  by (auto simp: MessageWriter_Publish_def DataWriterStub_Write_def writer_sent_def split: option.splits)

interpretation mw: bounded_writer MessageWriter_Publish writer_sent n_MaxPayloadByteCount
  by unfold_locales (auto simp: MessageWriter_Publish_cases writer_sent_def split: if_splits)

section \<open>The receive loop\<close>

text \<open>The valid payloads before the first failure, and what is left after it.\<close>

fun deliverable :: "take_result list \<Rightarrow> bytes list" where
  "deliverable [] = []"
| "deliverable (Sample valid m # rs) = (if valid then m # deliverable rs else deliverable rs)"
| "deliverable (TakeFails _ # rs) = []"

fun left_over :: "take_result list \<Rightarrow> take_result list" where
  "left_over [] = []"
| "left_over (Sample valid m # rs) = left_over rs"
| "left_over (TakeFails _ # rs) = rs"

lemma OnDataAvailable_loop_total:
  "OnDataAvailable_loop (\<lambda>m u. Inr (g m u)) (Some \<lparr>dr_reader = Some rs\<rparr>) u =
           (Some \<lparr>dr_reader = Some (left_over rs)\<rparr>, Inr (fold g (deliverable rs) u))"
proof (induction rs arbitrary: u rule: deliverable.induct)
  case 1
  show ?case by (subst OnDataAvailable_loop.simps) (simp add: TakeNextSample_def)
next
  case (2 valid m rs)
  then show ?case by (subst OnDataAvailable_loop.simps) (simp add: TakeNextSample_def)
next
  case (3 x rs)
  show ?case by (subst OnDataAvailable_loop.simps) (simp add: TakeNextSample_def)
qed

section \<open>Properties\<close>

text \<open>
C21: A data-available event ends, and hands the subscription callback exactly the payloads of the
valid samples in the order Fast DDS yields them, up to the first failing take; nothing is taken
twice and nothing before the failure is left behind.
\<close>

theorem OnDataAvailable_delivers:
  assumes "mr_onSubscription r = (\<lambda>m u. Inr (g m u))" "mr_stub r = Some \<lparr>dr_reader = Some rs\<rparr>"
  shows "OnDataAvailable r u =
    (r\<lparr>mr_stub := Some \<lparr>dr_reader = Some (left_over rs)\<rparr>\<rparr>, Inr (fold g (deliverable rs) u))"
  using assms OnDataAvailable_loop_total [of g rs u] by (simp add: OnDataAvailable_def)

theorem OnDataAvailable_delivers_witness:
  "snd (OnDataAvailable \<lparr>mr_topicName = ''t'', mr_onSubscription = (\<lambda>m u. Inr (u @ [m])), mr_onDisconnect = None,
      mr_stub = Some \<lparr>dr_reader = Some [Sample True [1], Sample False [2], Sample True [3], TakeFails RETCODE_ERROR]\<rparr>,
      mr_matched = True\<rparr> []) = Inr [[1], [3]]"
  by (subst OnDataAvailable_delivers [where g = "\<lambda>m u. u @ [m]"
        and rs = "[Sample True [1], Sample False [2], Sample True [3], TakeFails RETCODE_ERROR]"]) simp_all

text \<open>
  The connection flags of writers and readers report the last change of the match count, and
with a single peer that is whether the peer is there.
\<close>

theorem flag_tracks_single_peer:
  assumes "\<And>n. n \<le> length changes \<Longrightarrow> sum_list (take n changes) \<in> {0, 1 :: int}"
    and "\<forall>c \<in> set changes. c \<noteq> 0" "\<not> ConnectedToSubscriber w" "\<not> ConnectedToPublisher r"
  shows "(ConnectedToSubscriber (fold on_publication_matched changes w) \<longleftrightarrow> sum_list changes > 0) \<and>
    (ConnectedToPublisher (fst (fold (\<lambda>c. reader_report g (c > 0)) changes (r, u))) \<longleftrightarrow> sum_list changes > 0)"
  using wf.flag_single_peer [OF assms(1,2), of w] rf.flag_single_peer [OF assms(1,2), of "(r, u)" g] assms(3,4)
  by (simp_all add: ConnectedToSubscriber_def ConnectedToPublisher_def on_publication_matched_def [abs_def])

theorem flag_tracks_single_peer_witness:
  "\<not> ConnectedToSubscriber (fold on_publication_matched [1, -1] (MessageWriter_ctor ''t''))"
proof -
  have "sum_list (take n [1, -1]) \<in> {0, 1 :: int}" if "n \<le> length [1, -1 :: int]" for n
    using that by (cases n; cases "n - 1") (auto simp: take_Cons')
  from flag_tracks_single_peer [OF this, of "MessageWriter_ctor ''t''"
      "\<lparr>mr_topicName = [], mr_onSubscription = (\<lambda>m u. Inr u), mr_onDisconnect = None, mr_stub = None, mr_matched = False\<rparr>" id "()"]
  show ?thesis
    by (simp add: ConnectedToSubscriber_def ConnectedToPublisher_def MessageWriter_ctor_def)
qed

text \<open>
  With two publishers on a topic, the departure of one is reported as the loss of the
connection: the reader is marked unconnected and its disconnect callback runs, although one
publisher is still matched.
\<close>

theorem one_of_two_publishers_leaves:
  "sum_list [1, 1, -1 :: int] = 1 \<and>
   reader_events (map SubscriptionMatched [1, 1, -1])
     (\<lparr>mr_topicName = t, mr_onSubscription = f, mr_onDisconnect = Some (\<lambda>n. Inr (n + 1)), mr_stub = st,
       mr_matched = False\<rparr>, 0 :: nat) =
   Inr (\<lparr>mr_topicName = t, mr_onSubscription = f, mr_onDisconnect = Some (\<lambda>n. Inr (n + 1)), mr_stub = st,
         mr_matched = False\<rparr>, 1)"
  by (simp add: on_subscription_matched_def OnSubscriptionMatched_def)

text \<open>
  \<open>Publish\<close> succeeds exactly when the message is within the payload limit, the data writer
exists and Fast DDS accepts the sample; the sample is then the last one written, and otherwise
nothing changes.
\<close>

theorem MessageWriter_Publish_spec:
  "fst (MessageWriter_Publish ret m w) =
     (length m \<le> n_MaxPayloadByteCount \<and> ret = RETCODE_OK \<and>
      (\<exists>st ms. mw_stub w = Some st \<and> dw_writer st = Some ms)) \<and>
   writer_sent (snd (MessageWriter_Publish ret m w)) =
     writer_sent w @ (if fst (MessageWriter_Publish ret m w) then [m] else []) \<and>
   (fst (MessageWriter_Publish ret m w) \<or> snd (MessageWriter_Publish ret m w) = w) \<and>
   mw_matched (snd (MessageWriter_Publish ret m w)) = mw_matched w"
  by (auto simp: MessageWriter_Publish_cases writer_sent_def)

text \<open>
  With the default port parameters of Fast DDS the multicast ports of the domains up to 230 are
distinct and are valid ports, so readers of different domains do not share a port.
\<close>

theorem multicast_ports_distinct:
  assumes "pp = \<lparr>portBase = 7400, domainIDGain = 250, offsetd2 = 1\<rparr>"
    and "unat (dp_domain_id a) \<le> 230" "unat (dp_domain_id b) \<le> 230"
  shows "unat (MulticastListeningLocatorPort pp a) = 7401 + 250 * unat (dp_domain_id a) \<and>
    MulticastListeningLocatorPort pp a \<le> 65535 \<and>
    (MulticastListeningLocatorPort pp a = MulticastListeningLocatorPort pp b \<longleftrightarrow> dp_domain_id a = dp_domain_id b)"
proof -
  have port: "unat (MulticastListeningLocatorPort pp d) = 7401 + 250 * unat (dp_domain_id d)"
    if "unat (dp_domain_id d) \<le> 230" for d
    using that by (simp add: MulticastListeningLocatorPort_def assms(1) unat_word_ariths)
  then show ?thesis
    using assms(2,3) port [of a] port [of b]
    by (auto simp: word_le_nat_alt word_unat_eq_iff)
qed

theorem multicast_ports_distinct_witness:
  "MulticastListeningLocatorPort \<lparr>portBase = 7400, domainIDGain = 250, offsetd2 = 1\<rparr>
     \<lparr>dp_name = [], dp_domain_id = 0, dp_pPublisher = False, dp_pSubscriber = False\<rparr> \<noteq>
   MulticastListeningLocatorPort \<lparr>portBase = 7400, domainIDGain = 250, offsetd2 = 1\<rparr>
     \<lparr>dp_name = [], dp_domain_id = 1, dp_pPublisher = False, dp_pSubscriber = False\<rparr>"
  using multicast_ports_distinct
    [of "\<lparr>portBase = 7400, domainIDGain = 250, offsetd2 = 1\<rparr>"
      "\<lparr>dp_name = [], dp_domain_id = 0, dp_pPublisher = False, dp_pSubscriber = False\<rparr>"
      "\<lparr>dp_name = [], dp_domain_id = 1, dp_pPublisher = False, dp_pSubscriber = False\<rparr>"] by simp

text \<open>
  Tearing a reader or writer stub down never leaves Fast DDS with a dangling listener: when the
destructor completes, the listener is detached and the endpoint deleted before the listener is
freed, the topic is deleted last, and the deleters' assertions fail exactly when Fast DDS refuses.
\<close>

theorem stub_teardown_order:
  "DataReaderStub_dtor True ret_endpoint ret_topic =
     (if ret_endpoint = RETCODE_OK \<and> ret_topic = RETCODE_OK
      then Inr [SetListenerNull, DeleteEndpoint, FreeListener, DeleteTopic] else Inl AssertFailed) \<and>
   DataWriterStub_dtor has_endpoint ret_endpoint ret_topic =
     DataReaderStub_dtor has_endpoint ret_endpoint ret_topic"
  by (simp add: DataReaderStub_dtor_def DataWriterStub_dtor_def stub_dtor_def EndpointDeleter_def TopicDeleter_def Let_def)

end
