(* ===== verification/Parameter_Config.thy ===== *)
theory Parameter_Config
  imports Mw_Defines
begin

text \<open>
  The configuration of a parameter service: units (\<open>ParameterServiceUnits.h\<close>), the structures a user
  fills in (\<open>ParameterServiceStructures.h\<close>) and the builder that collects them
  (\<open>types/ConfigBuilder.cpp\<close>).

  The protobuf message \<open>Data\<close> is the type \<open>'d\<close>, the state the user's callbacks work on the type \<open>'u\<close>; a
  callback returns its result or the exception it throws, with the new state.
\<close>

section \<open>Units\<close>

text \<open>
  A scoped enumeration over \<open>uint32_t\<close>: any 32-bit value may be cast to it, the enumerators are the
  values 0, 1, 2, \<dots> in the order of the list.
\<close>

type_synonym Unit = u32

definition Unit_enumerators :: "string list" where
  "Unit_enumerators = [
    ''none'', ''A'', ''A_p_s'', ''ac'', ''Arms'', ''bar'', ''binary'', ''boolean'', ''cm'',
    ''cm3'', ''cm3_p_rev'', ''cm3_p_s'', ''count'', ''count_p_hr'', ''cycle'', ''day'', ''dB'',
    ''degree'', ''degreeC'', ''degreeF'', ''degree_p_s'', ''differential_degreeC'',
    ''differential_degreeF'', ''ft'', ''ft_p_min'', ''ft_p_s'', ''ft_p_s2'', ''gal'',
    ''gal_p_h'', ''gal_p_min'', ''gal_p_s'', ''gal_p_yd2'', ''GB'', ''gear'', ''ha'',
    ''hphr_p_g'', ''h'', ''Hz'', ''impact_p_ft'', ''impact_p_m'', ''in'', ''in_p_s'', ''in3'',
    ''in3_p_rev'', ''in3_p_s'', ''inH2O'', ''kg'', ''kg_p_h'', ''kg_p_min'', ''kg_p_m3'',
    ''kg_p_L'', ''kHz'', ''klb'', ''klb_p_gal'', ''klb_p_h'', ''km'', ''km_p_h'', ''knot'',
    ''kOhm'', ''kPa'', ''kV'', ''kVA'', ''kW'', ''kWh'', ''kWh_p_L'', ''L'', ''L_p_h'',
    ''L_p_m2'', ''L_p_min'', ''L_p_s'', ''lb'', ''lb_p_ft3'', ''lb_p_h'', ''lb_p_min'',
    ''lb_p_yd3'', ''lb_p_gal'', ''lbft'', ''lbx1000'', ''m'', ''m_p_min'', ''m_p_s'', ''m_p_s2'',
    ''m2'', ''m3'', ''mA'', ''MB'', ''mi'', ''mi_p_h'', ''microAmp'', ''min'', ''mm'',
    ''mm_p_s'', ''mm3'', ''mpa'', ''ms'', ''Nm'', ''ohm'', ''p_p_gal'', ''p_p_r'', ''Pa'',
    ''percent'', ''percent_p_min'', ''percent_p_s'', ''pos'', ''ppm'', ''psi'', ''rev'',
    ''rev_p_km'', ''rev_p_mi'', ''rpm'', ''rpm_p_s'', ''s'', ''SCFM'', ''T'', ''T_p_gal'',
    ''T_p_h'', ''Tmph'', ''t'', ''t_p_h'', ''t_p_L'', ''tamp_p_ft'', ''tamp_p_m'', ''TB'',
    ''tkph'', ''V'', ''VA'', ''var'', ''vib_p_min'', ''Vrms'', ''W'', ''yd2'', ''yd3'',
    ''Count'']"

definition Unit_none :: Unit where
  "Unit_none = 0"

definition Unit_of_name :: "string \<Rightarrow> Unit option" where
  "Unit_of_name n =
     (case List.find (\<lambda>i. Unit_enumerators ! i = n) [0..<length Unit_enumerators] of
        None \<Rightarrow> None | Some i \<Rightarrow> Some (of_nat i))"

section \<open>Structures\<close>

type_synonym Identity = string
type_synonym ('d, 'u) OnWriteAction = "u16 \<Rightarrow> Identity \<Rightarrow> 'd \<Rightarrow> 'u \<Rightarrow> 'd option cpp \<times> 'u"
type_synonym ('d, 'u) OnReadAction = "u16 \<Rightarrow> Identity \<Rightarrow> 'u \<Rightarrow> 'd option cpp \<times> 'u"
type_synonym ('d, 'u) OnSubscription = "Identity \<Rightarrow> 'd \<Rightarrow> 'u \<Rightarrow> unit cpp \<times> 'u"
type_synonym ('d, 'u) OnSubscriptionWithMetadata = "Identity \<Rightarrow> 'd \<Rightarrow> Unit \<Rightarrow> 'u \<Rightarrow> unit cpp \<times> 'u"
type_synonym 'u OnDisconnect = "'u \<Rightarrow> unit cpp \<times> 'u"

text \<open>An empty \<open>std::function\<close> is \<open>None\<close>.\<close>

record ('d, 'u) SubscribedParameter =
  sub_parameter_id :: Identity
  sub_unit :: Unit
  sub_callback :: "('d, 'u) OnSubscription option"
  sub_callbackWithMetadata :: "('d, 'u) OnSubscriptionWithMetadata option"
  sub_disconnect :: "'u OnDisconnect option"

record ClientParameter =
  cp_parameter_id :: Identity
  cp_unit :: Unit

record 'd PublishedParameter =
  pub_parameter_id :: Identity
  pub_unit :: Unit
  pub_initial_value :: 'd

record ('d, 'u) ServerWriteParameter =
  sw_parameter_id :: Identity
  sw_callback :: "('d, 'u) OnWriteAction option"

record ('d, 'u) ServerReadParameter =
  sr_parameter_id :: Identity
  sr_callback :: "('d, 'u) OnReadAction option"

record ('d, 'u) ParameterService =
  server_identity :: Identity
  published_parameters :: "'d PublishedParameter list"
  server_write_parameters :: "('d, 'u) ServerWriteParameter list"
  server_read_parameters :: "('d, 'u) ServerReadParameter list"
  subscribed_parameters :: "('d, 'u) SubscribedParameter list"
  client_write_parameters :: "ClientParameter list"
  client_read_parameters :: "ClientParameter list"

definition ParameterService_of :: "Identity \<Rightarrow> ('d, 'u) ParameterService" where
  "ParameterService_of identity =
     \<lparr>server_identity = identity, published_parameters = [], server_write_parameters = [],
      server_read_parameters = [], subscribed_parameters = [], client_write_parameters = [],
      client_read_parameters = []\<rparr>"

section \<open>Builder\<close>

record ('d, 'u) ConfigBuilder =
  m_config :: "('d, 'u) ParameterService"
  m_hasBeenTaken :: bool

definition ConfigBuilder_ctor :: "Identity \<Rightarrow> ('d, 'u) ConfigBuilder cpp" where
  "ConfigBuilder_ctor identity =
     (let b = \<lparr>m_config = ParameterService_of identity, m_hasBeenTaken = False\<rparr>
      in if server_identity (m_config b) = [] then Inl AssertFailed else Inr b)"

definition unless_taken ::
  "(('d, 'u) ParameterService \<Rightarrow> ('d, 'u) ParameterService) \<Rightarrow> ('d, 'u) ConfigBuilder \<Rightarrow> ('d, 'u) ConfigBuilder cpp" where
  "unless_taken f b = (if m_hasBeenTaken b then Inl AssertFailed else Inr (b\<lparr>m_config := f (m_config b)\<rparr>))"

definition AddPublish :: "Identity \<Rightarrow> Unit \<Rightarrow> 'd \<Rightarrow> ('d, 'u) ConfigBuilder \<Rightarrow> ('d, 'u) ConfigBuilder cpp" where
  "AddPublish parameter_id unit initial_value =
     unless_taken (\<lambda>c. c\<lparr>published_parameters := published_parameters c @
       [\<lparr>pub_parameter_id = parameter_id, pub_unit = unit, pub_initial_value = initial_value\<rparr>]\<rparr>)"

definition AddSubscribe_deprecated ::
  "Identity \<Rightarrow> Unit \<Rightarrow> ('d, 'u) OnSubscription option \<Rightarrow> 'u OnDisconnect option
     \<Rightarrow> ('d, 'u) ConfigBuilder \<Rightarrow> ('d, 'u) ConfigBuilder cpp" where
  "AddSubscribe_deprecated parameter_id unit callback disconnect =
     unless_taken (\<lambda>c. c\<lparr>subscribed_parameters := subscribed_parameters c @
       [\<lparr>sub_parameter_id = parameter_id, sub_unit = unit, sub_callback = callback,
         sub_callbackWithMetadata = None, sub_disconnect = disconnect\<rparr>]\<rparr>)"

definition AddSubscribe ::
  "Identity \<Rightarrow> ('d, 'u) OnSubscriptionWithMetadata option \<Rightarrow> 'u OnDisconnect option
     \<Rightarrow> ('d, 'u) ConfigBuilder \<Rightarrow> ('d, 'u) ConfigBuilder cpp" where
  "AddSubscribe parameter_id callback disconnect =
     unless_taken (\<lambda>c. c\<lparr>subscribed_parameters := subscribed_parameters c @
       [\<lparr>sub_parameter_id = parameter_id, sub_unit = Unit_none, sub_callback = None,
         sub_callbackWithMetadata = callback, sub_disconnect = disconnect\<rparr>]\<rparr>)"

definition AddClientRead :: "Identity \<Rightarrow> Unit \<Rightarrow> ('d, 'u) ConfigBuilder \<Rightarrow> ('d, 'u) ConfigBuilder cpp" where
  "AddClientRead parameter_id unit =
     unless_taken (\<lambda>c. c\<lparr>client_read_parameters := client_read_parameters c @
       [\<lparr>cp_parameter_id = parameter_id, cp_unit = unit\<rparr>]\<rparr>)"

definition AddClientWrite :: "Identity \<Rightarrow> Unit \<Rightarrow> ('d, 'u) ConfigBuilder \<Rightarrow> ('d, 'u) ConfigBuilder cpp" where
  "AddClientWrite parameter_id unit =
     unless_taken (\<lambda>c. c\<lparr>client_write_parameters := client_write_parameters c @
       [\<lparr>cp_parameter_id = parameter_id, cp_unit = unit\<rparr>]\<rparr>)"

definition AddServerWrite ::
  "Identity \<Rightarrow> ('d, 'u) OnWriteAction option \<Rightarrow> ('d, 'u) ConfigBuilder \<Rightarrow> ('d, 'u) ConfigBuilder cpp" where
  "AddServerWrite parameter_id callback =
     unless_taken (\<lambda>c. c\<lparr>server_write_parameters := server_write_parameters c @
       [\<lparr>sw_parameter_id = parameter_id, sw_callback = callback\<rparr>]\<rparr>)"

definition AddServerRead ::
  "Identity \<Rightarrow> ('d, 'u) OnReadAction option \<Rightarrow> ('d, 'u) ConfigBuilder \<Rightarrow> ('d, 'u) ConfigBuilder cpp" where
  "AddServerRead parameter_id callback =
     unless_taken (\<lambda>c. c\<lparr>server_read_parameters := server_read_parameters c @
       [\<lparr>sr_parameter_id = parameter_id, sr_callback = callback\<rparr>]\<rparr>)"

text \<open>\<open>Take\<close> moves the configuration out: the members that are left are the moved-from ones.\<close>

definition Take :: "('d, 'u) ConfigBuilder \<Rightarrow> (('d, 'u) ParameterService \<times> ('d, 'u) ConfigBuilder) cpp" where
  "Take b =
     (if m_hasBeenTaken b then Inl AssertFailed
      else Inr (m_config b, b\<lparr>m_hasBeenTaken := True, m_config := ParameterService_of []\<rparr>))"

section \<open>Sequences of calls\<close>

text \<open>A call on the builder; a subscription is either of the two overloads.\<close>

datatype ('d, 'u) builder_call =
    Publish Identity Unit 'd
  | SubscribeOld Identity Unit "('d, 'u) OnSubscription option" "'u OnDisconnect option"
  | Subscribe Identity "('d, 'u) OnSubscriptionWithMetadata option" "'u OnDisconnect option"
  | ClientRead Identity Unit
  | ClientWrite Identity Unit
  | ServerWrite Identity "('d, 'u) OnWriteAction option"
  | ServerRead Identity "('d, 'u) OnReadAction option"

fun run_call :: "('d, 'u) builder_call \<Rightarrow> ('d, 'u) ConfigBuilder \<Rightarrow> ('d, 'u) ConfigBuilder cpp" where
  "run_call (Publish i n v) b = AddPublish i n v b"
| "run_call (SubscribeOld i n c d) b = AddSubscribe_deprecated i n c d b"
| "run_call (Subscribe i c d) b = AddSubscribe i c d b"
| "run_call (ClientRead i n) b = AddClientRead i n b"
| "run_call (ClientWrite i n) b = AddClientWrite i n b"
| "run_call (ServerWrite i c) b = AddServerWrite i c b"
| "run_call (ServerRead i c) b = AddServerRead i c b"

fun run_calls :: "('d, 'u) builder_call list \<Rightarrow> ('d, 'u) ConfigBuilder \<Rightarrow> ('d, 'u) ConfigBuilder cpp" where
  "run_calls [] b = Inr b"
| "run_calls (c # cs) b = (case run_call c b of Inl e \<Rightarrow> Inl e | Inr b' \<Rightarrow> run_calls cs b')"

text \<open>The identities a sequence of calls names, by the list they go to.\<close>

fun published_ids :: "('d, 'u) builder_call list \<Rightarrow> Identity list" where
  "published_ids [] = []"
| "published_ids (Publish i _ _ # cs) = i # published_ids cs"
| "published_ids (_ # cs) = published_ids cs"

fun read_ids :: "('d, 'u) builder_call list \<Rightarrow> Identity list" where
  "read_ids [] = []"
| "read_ids (ClientRead i _ # cs) = i # read_ids cs"
| "read_ids (_ # cs) = read_ids cs"

fun write_ids :: "('d, 'u) builder_call list \<Rightarrow> Identity list" where
  "write_ids [] = []"
| "write_ids (ClientWrite i _ # cs) = i # write_ids cs"
| "write_ids (_ # cs) = write_ids cs"

lemmas builder_defs = AddPublish_def AddSubscribe_deprecated_def AddSubscribe_def AddClientRead_def
  AddClientWrite_def AddServerWrite_def AddServerRead_def unless_taken_def

lemma run_call_cases:
  "run_call c b = (if m_hasBeenTaken b then Inl AssertFailed else Inr (projr (run_call c b)))"
  by (cases c) (simp_all add: builder_defs)

lemma run_call_taken [simp]:
  "\<not> m_hasBeenTaken b \<Longrightarrow> \<not> m_hasBeenTaken (projr (run_call c b))"
  by (cases c) (simp_all add: builder_defs)

lemma run_calls_ids:
  "\<not> m_hasBeenTaken b \<Longrightarrow> \<exists>b'. run_calls cs b = Inr b' \<and> \<not> m_hasBeenTaken b' \<and>
     server_identity (m_config b') = server_identity (m_config b) \<and>
     map pub_parameter_id (published_parameters (m_config b')) =
       map pub_parameter_id (published_parameters (m_config b)) @ published_ids cs \<and>
     map cp_parameter_id (client_read_parameters (m_config b')) =
       map cp_parameter_id (client_read_parameters (m_config b)) @ read_ids cs \<and>
     map cp_parameter_id (client_write_parameters (m_config b')) =
       map cp_parameter_id (client_write_parameters (m_config b)) @ write_ids cs"
proof (induction cs arbitrary: b)
  case (Cons c cs)
  obtain b1 where b1: "run_call c b = Inr b1" "\<not> m_hasBeenTaken b1"
    using Cons.prems run_call_cases [of c b] run_call_taken [of b c] by auto
  from Cons.IH [OF b1(2)] b1(1) show ?case
    by (cases c) (use Cons.prems in \<open>auto simp: builder_defs\<close>)
qed simp

section \<open>Properties\<close>

text \<open>
  The builder collects what it is given: after any sequence of \<open>Add\<close> calls on a builder with a
non-empty identity, \<open>Take\<close> yields a configuration with that identity and the parameters in the
order of the calls, and every later call on the builder fails its assertion.
\<close>

theorem builder_collects:
  assumes "identity \<noteq> []"
  shows "\<exists>b b' b'' config. ConfigBuilder_ctor identity = Inr b \<and> run_calls cs b = Inr b' \<and>
    Take b' = Inr (config, b'') \<and> server_identity config = identity \<and>
    map pub_parameter_id (published_parameters config) = published_ids cs \<and>
    map cp_parameter_id (client_read_parameters config) = read_ids cs \<and>
    map cp_parameter_id (client_write_parameters config) = write_ids cs \<and>
    (\<forall>c. run_call c b'' = Inl AssertFailed) \<and> Take b'' = Inl AssertFailed"
proof -
  let ?b = "\<lparr>m_config = ParameterService_of identity, m_hasBeenTaken = False\<rparr>"
  obtain b' where b': "run_calls cs ?b = Inr b'" "\<not> m_hasBeenTaken b'"
    "server_identity (m_config b') = identity"
    "map pub_parameter_id (published_parameters (m_config b')) = published_ids cs"
    "map cp_parameter_id (client_read_parameters (m_config b')) = read_ids cs"
    "map cp_parameter_id (client_write_parameters (m_config b')) = write_ids cs"
    using run_calls_ids [of ?b cs] by (auto simp: ParameterService_of_def)
  moreover have "ConfigBuilder_ctor identity = Inr ?b"
    using assms by (simp add: ConfigBuilder_ctor_def ParameterService_of_def)
  moreover have "\<forall>c. run_call c (b'\<lparr>m_hasBeenTaken := True, m_config := ParameterService_of []\<rparr>) = Inl AssertFailed"
    using run_call_cases by (metis ConfigBuilder.select_convs(2) ConfigBuilder.surjective
        ConfigBuilder.update_convs(1,2))
  ultimately show ?thesis by (auto simp: Take_def)
qed

theorem builder_collects_witness:
  "\<exists>b b' b'' config. ConfigBuilder_ctor ''Display'' = Inr b \<and>
     run_calls [ClientRead ''EngineSpeed'' 0 :: (nat, nat) builder_call] b = Inr b' \<and>
     Take b' = Inr (config, b'') \<and> map cp_parameter_id (client_read_parameters config) = [''EngineSpeed'']"
  using builder_collects [of "''Display''" "[ClientRead ''EngineSpeed'' 0 :: (nat, nat) builder_call]"]
  by auto

end
