(* ===== verification/Endpoint_Config.thy ===== *)
theory Endpoint_Config
  imports Parameter_Config Std_Map
begin

text \<open>
  The directory of parameter sources
  (\<open>lib/parameters/ParameterEndpointConfigurationUtilities.cpp\<close>): which server owns which parameter,
  how a configuration is validated against it, and which server each client parameter is sent to.

  pugixml is vendored third-party code: the document it parses is an argument, \<open>None\<close> when the file
  does not load, \<open>Some None\<close> when it has no \<open>domains\<close> node, and otherwise the domains with their name
  and their parameters' name and type attributes.
\<close>

section \<open>Data\<close>

datatype DataType =
    DATA_TYPE_UNSPECIFIED
  | DATA_TYPE_DOUBLE
  | DATA_TYPE_STRING
  | DATA_TYPE_BINARY
  | DATA_TYPE_BOOL
  | DATA_TYPE_UINT64
  | DATA_TYPE_MAX

record Information =
  parameter_name :: string
  source_name :: string
  value_type :: DataType

type_synonym SourceTableConnections = "(string, Information list) smap"

definition info :: "string \<Rightarrow> string \<Rightarrow> DataType \<Rightarrow> Information" where
  "info p s t = \<lparr>parameter_name = p, source_name = s, value_type = t\<rparr>"

definition n_DefaultServerSourceName :: string where
  "n_DefaultServerSourceName = ''DataLinkEngine''"

definition n_DefaultDataEngineSource :: "Information list" where
  "n_DefaultDataEngineSource =
    [info ''EngineSpeed'' ''DataLinkEngine'' DATA_TYPE_DOUBLE,
     info ''BucketHeight'' ''DataLinkEngine'' DATA_TYPE_DOUBLE,
     info ''SpeedLimit'' ''DataLinkEngine'' DATA_TYPE_DOUBLE,
     info ''AirFilter1Restriction'' ''DataLinkEngine'' DATA_TYPE_DOUBLE,
     info ''AirFilter2Restriction'' ''DataLinkEngine'' DATA_TYPE_DOUBLE,
     info ''BoostPressureGauge'' ''DataLinkEngine'' DATA_TYPE_DOUBLE,
     info ''ServiceMeterHours'' ''DataLinkEngine'' DATA_TYPE_DOUBLE,
     info ''ServiceBrakePedalPositionStatus'' ''DataLinkEngine'' DATA_TYPE_UINT64,
     info ''DelayedEngineShutdownStatus'' ''DataLinkEngine'' DATA_TYPE_UINT64,
     info ''EngineIdleShutdownInstallationStatus'' ''DataLinkEngine'' DATA_TYPE_BOOL,
     info ''MachineSerialNumber'' ''DataLinkEngine'' DATA_TYPE_STRING,
     info ''SoftwarePartNumber'' ''DataLinkEngine'' DATA_TYPE_STRING,
     info ''ProductID'' ''DataLinkEngine'' DATA_TYPE_STRING]"

definition n_DefaultCoreTelematicsSource :: "Information list" where
  "n_DefaultCoreTelematicsSource =
    [info ''GPSData'' ''CoreTelematics'' DATA_TYPE_BINARY,
     info ''RadioStatus'' ''CoreTelematics'' DATA_TYPE_BINARY,
     info ''ECMSerialNumber'' ''CoreTelematics'' DATA_TYPE_STRING,
     info ''HardwarePartNumber'' ''CoreTelematics'' DATA_TYPE_STRING]"

definition n_DefaultDisplaySource :: "Information list" where
  "n_DefaultDisplaySource =
    [info ''Brightness'' ''Display'' DATA_TYPE_UINT64,
     info ''BatteryLevel'' ''Display'' DATA_TYPE_DOUBLE,
     info ''Language'' ''Display'' DATA_TYPE_UINT64]"

definition n_DefaultTMSASource :: "Information list" where
  "n_DefaultTMSASource =
    [info ''EquipmentOperatingStatus'' ''TMSA'' DATA_TYPE_BOOL,
     info ''LifetimeOperatingHours'' ''TMSA'' DATA_TYPE_DOUBLE,
     info ''ActiveConfigurationPackages'' ''TMSA'' DATA_TYPE_BINARY]"

definition n_DefaultBlueKeySource :: "Information list" where
  "n_DefaultBlueKeySource =
    [info ''UserProfileName'' ''SomeBlueKey'' DATA_TYPE_STRING,
     info ''ProfileReadyStatus'' ''SomeBlueKey'' DATA_TYPE_BINARY,
     info ''ActiveProfileCount'' ''SomeBlueKey'' DATA_TYPE_UINT64]"

text \<open>The map is initialised from a list of pairs; \<open>std::map\<close> keeps it ordered by key.\<close>

definition n_DefaultParameterSourceInformationDirectory :: SourceTableConnections where
  "n_DefaultParameterSourceInformationDirectory = smap_assign_all
    [(''DataLinkEngine'', n_DefaultDataEngineSource),
     (''CoreTelematics'', n_DefaultCoreTelematicsSource),
     (''Display'', n_DefaultDisplaySource),
     (''TMSA'', n_DefaultTMSASource),
     (''SomeBlueKey'', n_DefaultBlueKeySource)] []"

definition n_ParameterDataTypeAsString :: "(DataType \<times> string) list" where
  "n_ParameterDataTypeAsString =
    [(DATA_TYPE_UNSPECIFIED, ''unspecified''), (DATA_TYPE_DOUBLE, ''double''),
     (DATA_TYPE_STRING, ''string''), (DATA_TYPE_BINARY, ''binary''), (DATA_TYPE_BOOL, ''bool''),
     (DATA_TYPE_UINT64, ''unsigned''), (DATA_TYPE_MAX, ''max'')]"

definition n_ParameterDataTypeAsEnum :: "(string \<times> DataType) list" where
  "n_ParameterDataTypeAsEnum =
    [(''unspecified'', DATA_TYPE_UNSPECIFIED), (''double'', DATA_TYPE_DOUBLE),
     (''string'', DATA_TYPE_STRING), (''binary'', DATA_TYPE_BINARY), (''bool'', DATA_TYPE_BOOL),
     (''unsigned'', DATA_TYPE_UINT64), (''max'', DATA_TYPE_MAX)]"

section \<open>Names\<close>

definition FormatName :: "string \<Rightarrow> string" where
  "FormatName name = filter (\<lambda>x. \<not> isspace x) name"

definition GetSubscriptionByParameterName :: "string \<Rightarrow> string" where
  "GetSubscriptionByParameterName name = ''ParameterService::'' @ FormatName name"

text \<open>
  The function template \<open>GetAllParameterIds\<close>, instantiated by the member that holds the identity;
  it appends to the vector it is given.
\<close>

definition GetAllParameterIds :: "('a \<Rightarrow> Identity) \<Rightarrow> 'a list \<Rightarrow> string list \<Rightarrow> string list" where
  "GetAllParameterIds parameter_id parameters gathered =
     gathered @ map (\<lambda>entry. FormatName (parameter_id entry)) parameters"

section \<open>Loading\<close>

type_synonym xml_domains = "(string \<times> (string \<times> string) list) list option option"

definition load_parameter :: "string \<Rightarrow> string \<times> string \<Rightarrow> SourceTableConnections \<Rightarrow> SourceTableConnections" where
  "load_parameter owner_name p dir =
     (let value_enum = (case map_of n_ParameterDataTypeAsEnum (snd p) of
                          None \<Rightarrow> DATA_TYPE_UNSPECIFIED | Some t \<Rightarrow> t)
      in smap_push owner_name (info (fst p) owner_name value_enum) dir)"

definition load_domain :: "string \<times> (string \<times> string) list \<Rightarrow> SourceTableConnections \<Rightarrow> SourceTableConnections" where
  "load_domain domain dir =
     fold (load_parameter (fst domain)) (snd domain) (smap_assign (fst domain) [] dir)"

definition LoadConnections :: "xml_domains \<Rightarrow> SourceTableConnections \<Rightarrow> SourceTableConnections" where
  "LoadConnections document dir =
     (let dir = (if dir = [] then
                   (case document of
                      None \<Rightarrow> dir
                    | Some None \<Rightarrow> dir
                    | Some (Some domains) \<Rightarrow> fold load_domain domains dir)
                 else dir)
      in if dir = [] then n_DefaultParameterSourceInformationDirectory else dir)"

section \<open>Validation\<close>

text \<open>\<open>std::sort\<close>, \<open>std::unique\<close> and \<open>erase\<close>.\<close>

definition sort_unique :: "string list \<Rightarrow> string list" where
  "sort_unique xs = remdups_adj (sort xs)"

definition has_parameter :: "Information list \<Rightarrow> string \<Rightarrow> bool" where
  "has_parameter infos name = (List.find (\<lambda>param. parameter_name param = name) infos \<noteq> None)"

definition other_ids :: "('d, 'u) ParameterService \<Rightarrow> string list" where
  "other_ids configuration =
     GetAllParameterIds cp_parameter_id (client_read_parameters configuration)
       (GetAllParameterIds cp_parameter_id (client_write_parameters configuration)
         (GetAllParameterIds sub_parameter_id (subscribed_parameters configuration) []))"

definition owned_ids :: "('d, 'u) ParameterService \<Rightarrow> string list" where
  "owned_ids configuration =
     GetAllParameterIds sr_parameter_id (server_read_parameters configuration)
       (GetAllParameterIds sw_parameter_id (server_write_parameters configuration)
         (GetAllParameterIds pub_parameter_id (published_parameters configuration) []))"

definition ValidateConnections :: "SourceTableConnections \<Rightarrow> ('d, 'u) ParameterService \<Rightarrow> bool" where
  "ValidateConnections dir configuration =
     (let result = True;
          other_connections = sort_unique (other_ids configuration);
          result =
            (case smap_find dir (server_identity configuration) of
               None \<Rightarrow> False
             | Some own \<Rightarrow>
                 foldl (\<lambda>result connection. if has_parameter own connection then result else False)
                   result (sort_unique (owned_ids configuration)))
      in foldl (\<lambda>result connection.
                  if List.find (\<lambda>entry. has_parameter (snd entry) connection) dir \<noteq> None
                  then result else False)
           result other_connections)"

definition Load :: "xml_domains \<Rightarrow> ('d, 'u) ParameterService \<Rightarrow> SourceTableConnections \<Rightarrow> bool \<times> SourceTableConnections" where
  "Load document configuration dir =
     (let dir' = LoadConnections document dir in (ValidateConnections dir' configuration, dir'))"

text \<open>\<open>LogLoadedConnections\<close>: the text it logs, or the exception of \<open>at\<close>.\<close>

definition log_parameter :: "Information \<Rightarrow> string cpp" where
  "log_parameter p =
     (case map_of n_ParameterDataTypeAsString (value_type p) of
        None \<Rightarrow> Inl (OutOfRange ''map::at'')
      | Some t \<Rightarrow> Inr ([CHR 0x09] @ ''[Parameter] name='' @ [CHR 0x22] @ parameter_name p @ [CHR 0x22]
                        @ '' type='' @ [CHR 0x22] @ t @ [CHR 0x22, CHR 0x0A]))"

fun log_parameters :: "Information list \<Rightarrow> string cpp" where
  "log_parameters [] = Inr []"
| "log_parameters (p # ps) =
     (case log_parameter p of
        Inl e \<Rightarrow> Inl e
      | Inr s \<Rightarrow> (case log_parameters ps of Inl e \<Rightarrow> Inl e | Inr ss \<Rightarrow> Inr (s @ ss)))"

fun LogLoadedConnections :: "SourceTableConnections \<Rightarrow> string cpp" where
  "LogLoadedConnections [] = Inr []"
| "LogLoadedConnections ((owner, ps) # dir) =
     (case log_parameters ps of
        Inl e \<Rightarrow> Inl e
      | Inr s \<Rightarrow>
          (case LogLoadedConnections dir of
             Inl e \<Rightarrow> Inl e
           | Inr ss \<Rightarrow> Inr (''[Owner] name='' @ [CHR 0x22] @ owner @ [CHR 0x22, CHR 0x0A] @ s @ ss)))"

section \<open>Client connections\<close>

definition configured_ids :: "('d, 'u) ParameterService \<Rightarrow> string list" where
  "configured_ids configuration =
     GetAllParameterIds cp_parameter_id (client_read_parameters configuration)
       (GetAllParameterIds cp_parameter_id (client_write_parameters configuration) [])"

definition collect_source ::
  "('d, 'u) ParameterService \<Rightarrow> string \<times> Information list \<Rightarrow> SourceTableConnections \<Rightarrow> SourceTableConnections" where
  "collect_source configuration source cc =
     (if fst source \<noteq> server_identity configuration then
        fold (\<lambda>i cc. if List.find (\<lambda>c. c = parameter_name i) (configured_ids configuration) \<noteq> None
                     then smap_push (fst source) i cc else cc)
          (snd source) cc
      else cc)"

definition found_in_source :: "string \<Rightarrow> SourceTableConnections \<Rightarrow> bool" where
  "found_in_source connection cc =
     list_ex (\<lambda>entry. list_ex (\<lambda>i. parameter_name i = connection) (snd entry)) cc"

definition default_source :: "string \<Rightarrow> SourceTableConnections \<Rightarrow> SourceTableConnections" where
  "default_source connection cc =
     (if \<not> found_in_source connection cc
      then smap_push n_DefaultServerSourceName
             (info connection n_DefaultServerSourceName DATA_TYPE_UNSPECIFIED) cc
      else cc)"

definition GetClientConnections ::
  "SourceTableConnections \<Rightarrow> ('d, 'u) ParameterService \<Rightarrow> SourceTableConnections" where
  "GetClientConnections dir configuration =
     (let configuredConnections = configured_ids configuration
      in if configuredConnections = [] then smap_touch [] n_DefaultServerSourceName []
         else fold default_source configuredConnections (fold (collect_source configuration) dir []))"

section \<open>Lemmas\<close>

lemma sort_unique_set [simp]: "set (sort_unique xs) = set xs"
  by (simp add: sort_unique_def)

lemma foldl_all: "foldl (\<lambda>r x. if P x then r else False) b xs \<longleftrightarrow> b \<and> (\<forall>x \<in> set xs. P x)"
  by (induction xs arbitrary: b) auto

lemma has_parameter_iff: "has_parameter infos name \<longleftrightarrow> name \<in> parameter_name ` set infos"
  by (auto simp: has_parameter_def find_Some_iff_ex)

lemma set_GetAllParameterIds [simp]:
  "set (GetAllParameterIds f ps acc) = set acc \<union> (FormatName \<circ> f) ` set ps"
  by (auto simp: GetAllParameterIds_def)

lemma FormatName_idem [simp]: "FormatName (FormatName n) = FormatName n"
  by (simp add: FormatName_def)

text \<open>An entry of a source table.\<close>

definition entry_in :: "string \<Rightarrow> Information \<Rightarrow> SourceTableConnections \<Rightarrow> bool" where
  "entry_in s i cc \<longleftrightarrow> (\<exists>is. smap_find cc s = Some is \<and> i \<in> set is)"

lemma entry_in_Nil [simp]: "\<not> entry_in s i []"
  by (simp add: entry_in_def)

lemma entry_in_push [simp]: "entry_in s i (smap_push s' i' cc) \<longleftrightarrow> entry_in s i cc \<or> (s = s' \<and> i = i')"
  by (cases "smap_find cc s'") (auto simp: entry_in_def smap_find_push)

lemma ex_entry:
  "(\<exists>infos i. smap_find m s = Some infos \<and> i \<in> set infos \<and> parameter_name i = d) \<longleftrightarrow>
     (\<exists>i. entry_in s i m \<and> parameter_name i = d)"
  by (auto simp: entry_in_def)

lemma all_entry:
  "(\<forall>infos. smap_find m s = Some infos \<longrightarrow> d \<notin> parameter_name ` set infos) \<longleftrightarrow>
     (\<forall>i. entry_in s i m \<longrightarrow> parameter_name i \<noteq> d)"
  by (auto simp: entry_in_def)

lemma found_in_source_iff:
  "smap_inv cc \<Longrightarrow> found_in_source c cc \<longleftrightarrow> (\<exists>s i. entry_in s i cc \<and> parameter_name i = c)"
  unfolding found_in_source_def entry_in_def list_ex_iff
  by (simp add: smap_find_in_set Bex_def split_paired_Ex) blast

lemma collect_source_inv: "smap_inv cc \<Longrightarrow> smap_inv (collect_source c src cc)"
proof -
  have "smap_inv cc \<Longrightarrow> smap_inv (fold (\<lambda>i cc. if P i then smap_push k i cc else cc) is cc)"
    for P k "is" and cc :: SourceTableConnections
    by (induction "is" arbitrary: cc) auto
  then show "smap_inv cc \<Longrightarrow> smap_inv (collect_source c src cc)" by (simp add: collect_source_def)
qed

lemma collect_all_inv: "smap_inv cc \<Longrightarrow> smap_inv (fold (collect_source c) dir cc)"
  by (induction dir arbitrary: cc) (simp_all add: collect_source_inv)

lemma default_all_inv: "smap_inv cc \<Longrightarrow> smap_inv (fold default_source cs cc)"
  by (induction cs arbitrary: cc) (simp_all add: default_source_def)

lemma entry_in_collect:
  "entry_in s i (collect_source c src cc) \<longleftrightarrow> entry_in s i cc \<or>
     (s = fst src \<and> s \<noteq> server_identity c \<and> i \<in> set (snd src) \<and> parameter_name i \<in> set (configured_ids c))"
proof -
  have "entry_in s i (fold (\<lambda>i cc. if P i then smap_push k i cc else cc) is cc) \<longleftrightarrow>
      entry_in s i cc \<or> (s = k \<and> i \<in> set is \<and> P i)" for P k "is" and cc :: SourceTableConnections
    by (induction "is" arbitrary: cc) auto
  then show ?thesis by (auto simp: collect_source_def find_Some_iff_ex)
qed

lemma entry_in_collect_all:
  "entry_in s i (fold (collect_source c) dir cc) \<longleftrightarrow> entry_in s i cc \<or>
     (\<exists>is. (s, is) \<in> set dir \<and> s \<noteq> server_identity c \<and> i \<in> set is \<and> parameter_name i \<in> set (configured_ids c))"
  by (induction dir arbitrary: cc) (auto simp: entry_in_collect)

lemma found_after_default:
  "smap_inv cc \<Longrightarrow> found_in_source d (default_source c cc) \<longleftrightarrow> found_in_source d cc \<or> d = c"
proof -
  assume inv: "smap_inv cc"
  have "parameter_name (info c n_DefaultServerSourceName DATA_TYPE_UNSPECIFIED) = c" by (simp add: info_def)
  with inv show ?thesis
    by (auto simp: default_source_def found_in_source_iff)
qed

lemma entry_in_default_all:
  "smap_inv cc \<Longrightarrow> entry_in s i (fold default_source cs cc) \<longleftrightarrow> entry_in s i cc \<or>
     (s = n_DefaultServerSourceName \<and>
      (\<exists>c \<in> set cs. \<not> found_in_source c cc \<and> i = info c n_DefaultServerSourceName DATA_TYPE_UNSPECIFIED))"
proof (induction cs arbitrary: cc)
  case (Cons c cs)
  have "smap_inv (default_source c cc)" using Cons.prems by (simp add: default_source_def)
  moreover have "entry_in s i (default_source c cc) \<longleftrightarrow> entry_in s i cc \<or>
      (s = n_DefaultServerSourceName \<and> \<not> found_in_source c cc \<and>
       i = info c n_DefaultServerSourceName DATA_TYPE_UNSPECIFIED)"
    by (simp add: default_source_def)
  ultimately show ?case
    using Cons.IH [of "default_source c cc"] Cons.prems by (auto simp: found_after_default)
qed simp

lemma GetClientConnections_inv: "smap_inv (GetClientConnections dir c)"
  by (simp add: GetClientConnections_def Let_def collect_all_inv default_all_inv)

lemma entry_in_GetClientConnections:
  assumes "smap_inv dir"
  shows "entry_in s i (GetClientConnections dir c) \<longleftrightarrow>
    (s \<noteq> server_identity c \<and> entry_in s i dir \<and> parameter_name i \<in> set (configured_ids c)) \<or>
    (s = n_DefaultServerSourceName \<and>
     (\<exists>d \<in> set (configured_ids c). i = info d n_DefaultServerSourceName DATA_TYPE_UNSPECIFIED \<and>
        (\<forall>s' i'. s' \<noteq> server_identity c \<and> entry_in s' i' dir \<longrightarrow> parameter_name i' \<noteq> d)))"
proof (cases "configured_ids c = []")
  case True
  then show ?thesis by (auto simp: GetClientConnections_def entry_in_def smap_touch_def smap_find_def split: if_splits)
next
  case False
  let ?cc = "fold (collect_source c) dir []"
  have inv: "smap_inv ?cc" by (simp add: collect_all_inv)
  have e: "entry_in s i ?cc \<longleftrightarrow> s \<noteq> server_identity c \<and> entry_in s i dir \<and> parameter_name i \<in> set (configured_ids c)"
    for s i
    using assms by (auto simp: entry_in_collect_all) (auto simp: entry_in_def smap_find_in_set)
  have nf: "\<not> found_in_source d ?cc \<longleftrightarrow> (\<forall>s' i'. s' \<noteq> server_identity c \<and> entry_in s' i' dir \<longrightarrow> parameter_name i' \<noteq> d)"
    if "d \<in> set (configured_ids c)" for d
    using that by (auto simp: found_in_source_iff [OF inv] e)
  have "entry_in s i (GetClientConnections dir c) \<longleftrightarrow> entry_in s i ?cc \<or>
     (s = n_DefaultServerSourceName \<and>
      (\<exists>d \<in> set (configured_ids c). \<not> found_in_source d ?cc \<and> i = info d n_DefaultServerSourceName DATA_TYPE_UNSPECIFIED))"
    using False by (simp add: GetClientConnections_def Let_def entry_in_default_all [OF inv])
  also have "(\<exists>d \<in> set (configured_ids c). \<not> found_in_source d ?cc \<and> i = info d n_DefaultServerSourceName DATA_TYPE_UNSPECIFIED)
     \<longleftrightarrow> (\<exists>d \<in> set (configured_ids c). i = info d n_DefaultServerSourceName DATA_TYPE_UNSPECIFIED \<and>
        (\<forall>s' i'. s' \<noteq> server_identity c \<and> entry_in s' i' dir \<longrightarrow> parameter_name i' \<noteq> d))"
    using nf by blast
  finally show ?thesis by (simp only: e)
qed

lemma GetClientConnections_covers:
  assumes "smap_inv dir" "d \<in> set (configured_ids c)"
  shows "\<exists>s i. entry_in s i (GetClientConnections dir c) \<and> parameter_name i = d"
proof (cases "\<exists>s i. s \<noteq> server_identity c \<and> entry_in s i dir \<and> parameter_name i = d")
  case True
  then show ?thesis using assms by (auto simp: entry_in_GetClientConnections)
next
  case False
  then have "entry_in n_DefaultServerSourceName (info d n_DefaultServerSourceName DATA_TYPE_UNSPECIFIED)
      (GetClientConnections dir c)"
    unfolding entry_in_GetClientConnections [OF assms(1)] using assms(2) by blast
  then show ?thesis by (intro exI conjI) (auto simp: info_def)
qed

lemma default_directory_inv: "smap_inv n_DefaultParameterSourceInformationDirectory"
  by (simp add: n_DefaultParameterSourceInformationDirectory_def)

lemma load_domain_inv: "smap_inv dir \<Longrightarrow> smap_inv (load_domain d dir)"
proof -
  have "smap_inv dir \<Longrightarrow> smap_inv (fold (load_parameter k) ps dir)" for k ps dir
    by (induction ps arbitrary: dir) (simp_all add: load_parameter_def Let_def)
  then show "smap_inv dir \<Longrightarrow> smap_inv (load_domain d dir)" by (simp add: load_domain_def)
qed

lemma LoadConnections_inv: "smap_inv dir \<Longrightarrow> smap_inv (LoadConnections doc dir)"
proof -
  have "smap_inv dir \<Longrightarrow> smap_inv (fold load_domain ds dir)" for ds dir
    by (induction ds arbitrary: dir) (simp_all add: load_domain_inv)
  then show "smap_inv dir \<Longrightarrow> smap_inv (LoadConnections doc dir)"
    by (auto simp: LoadConnections_def Let_def default_directory_inv split: option.splits)
qed

lemma default_directory_find:
  "smap_find n_DefaultParameterSourceInformationDirectory ''TMSA'' = Some n_DefaultTMSASource"
  by (simp add: n_DefaultParameterSourceInformationDirectory_def smap_find_assign_all)

lemma data_type_names: "\<exists>n. map_of n_ParameterDataTypeAsString t = Some n \<and> map_of n_ParameterDataTypeAsEnum n = Some t"
  by (cases t) (simp_all add: n_ParameterDataTypeAsString_def n_ParameterDataTypeAsEnum_def)

lemma log_parameters_total: "\<exists>text. log_parameters ps = Inr text"
proof (induction ps)
  case (Cons p ps)
  then show ?case using data_type_names [of "value_type p"] by (auto simp: log_parameter_def)
qed simp

lemma LogLoadedConnections_total: "\<exists>text. LogLoadedConnections dir = Inr text"
proof (induction dir)
  case (Cons e dir)
  then show ?case using log_parameters_total [of "snd e"] by (cases e) auto
qed simp

section \<open>Properties\<close>

text \<open>
C16: Validation accepts a configuration exactly when its identity is a source of the directory, that
source lists every parameter the configuration publishes or serves, and some source lists every
parameter it subscribes to, reads or writes, names being compared without white space.
\<close>

theorem ValidateConnections_spec:
  "ValidateConnections dir c \<longleftrightarrow>
     (\<exists>own. smap_find dir (server_identity c) = Some own \<and>
        FormatName ` (pub_parameter_id ` set (published_parameters c) \<union>
           sw_parameter_id ` set (server_write_parameters c) \<union> sr_parameter_id ` set (server_read_parameters c))
        \<subseteq> parameter_name ` set own) \<and>
     FormatName ` (sub_parameter_id ` set (subscribed_parameters c) \<union>
         cp_parameter_id ` set (client_write_parameters c) \<union> cp_parameter_id ` set (client_read_parameters c))
       \<subseteq> (\<Union>e \<in> set dir. parameter_name ` set (snd e))"
proof -
  have o: "set (owned_ids c) = FormatName ` (pub_parameter_id ` set (published_parameters c) \<union>
      sw_parameter_id ` set (server_write_parameters c) \<union> sr_parameter_id ` set (server_read_parameters c))"
    by (auto simp: owned_ids_def)
  have t: "set (other_ids c) = FormatName ` (sub_parameter_id ` set (subscribed_parameters c) \<union>
      cp_parameter_id ` set (client_write_parameters c) \<union> cp_parameter_id ` set (client_read_parameters c))"
    by (auto simp: other_ids_def)
  have f: "(List.find (\<lambda>entry. has_parameter (snd entry) x) dir \<noteq> None) \<longleftrightarrow>
      x \<in> (\<Union>e \<in> set dir. parameter_name ` set (snd e))" for x
    by (simp only: find_not_None has_parameter_iff) auto
  show ?thesis
    unfolding o [symmetric] t [symmetric] ValidateConnections_def Let_def f foldl_all sort_unique_set
    by (cases "smap_find dir (server_identity c)") (auto simp: foldl_all has_parameter_iff subset_iff)
qed

text \<open>
C17: A client parameter is sent to a source if and only if the directory lists it there and the
source is not the client itself, or no other source lists it and the source is the default one.
\<close>

theorem GetClientConnections_routes:
  assumes "smap_inv dir"
  shows "(\<exists>infos i. smap_find (GetClientConnections dir c) s = Some infos \<and> i \<in> set infos \<and> parameter_name i = d) \<longleftrightarrow>
    d \<in> set (configured_ids c) \<and>
    ((s \<noteq> server_identity c \<and> (\<exists>infos i. smap_find dir s = Some infos \<and> i \<in> set infos \<and> parameter_name i = d)) \<or>
     (s = n_DefaultServerSourceName \<and>
      (\<forall>s'. s' \<noteq> server_identity c \<longrightarrow>
         (\<forall>infos. smap_find dir s' = Some infos \<longrightarrow> d \<notin> parameter_name ` set infos))))"
proof -
  have [simp]: "parameter_name (info d n_DefaultServerSourceName DATA_TYPE_UNSPECIFIED) = d" for d
    by (simp add: info_def)
  have "(\<exists>i. entry_in s i (GetClientConnections dir c) \<and> parameter_name i = d) \<longleftrightarrow>
    d \<in> set (configured_ids c) \<and>
    ((s \<noteq> server_identity c \<and> (\<exists>i. entry_in s i dir \<and> parameter_name i = d)) \<or>
     (s = n_DefaultServerSourceName \<and>
      (\<forall>s' i. s' \<noteq> server_identity c \<and> entry_in s' i dir \<longrightarrow> parameter_name i \<noteq> d)))"
    unfolding entry_in_GetClientConnections [OF assms]
    by (auto intro: exI [of _ "info d n_DefaultServerSourceName DATA_TYPE_UNSPECIFIED"])
  then show ?thesis unfolding ex_entry all_entry by blast
qed

theorem GetClientConnections_routes_witness:
  "\<exists>infos i. smap_find (GetClientConnections [(''A'', [info ''P'' ''A'' DATA_TYPE_BOOL])]
       ((ParameterService_of ''B'' :: (nat, nat) ParameterService)
         \<lparr>client_read_parameters := [\<lparr>cp_parameter_id = ''P'', cp_unit = 0\<rparr>]\<rparr>)) ''A'' = Some infos \<and>
     i \<in> set infos \<and> parameter_name i = ''P''"
  by (subst GetClientConnections_routes)
    (auto simp: smap_inv_def smap_find_def info_def configured_ids_def GetAllParameterIds_def
      ParameterService_of_def FormatName_def isspace_def)

text \<open>
  A client that reads a parameter which only its own server provides is sent to the default
source instead of to itself.
\<close>

theorem own_parameter_goes_to_default:
  "GetClientConnections [(''Display'', [info ''Brightness'' ''Display'' DATA_TYPE_UINT64])]
     ((ParameterService_of ''Display'' :: ('d, 'u) ParameterService)
       \<lparr>client_read_parameters := [\<lparr>cp_parameter_id = ''Brightness'', cp_unit = u\<rparr>]\<rparr>) =
   [(''DataLinkEngine'', [info ''Brightness'' ''DataLinkEngine'' DATA_TYPE_UNSPECIFIED])]"
  by (simp add: GetClientConnections_def configured_ids_def GetAllParameterIds_def ParameterService_of_def
      FormatName_def isspace_def collect_source_def default_source_def found_in_source_def
      smap_push_def n_DefaultServerSourceName_def Let_def)

text \<open>
C28: Loading leaves a directory that is ordered and never empty, loading again changes nothing, and
its log text exists for every directory, since every value type has a name from which it is read
back.
\<close>

theorem LoadConnections_stable:
  assumes "smap_inv dir"
  shows "smap_inv (LoadConnections doc dir) \<and> LoadConnections doc dir \<noteq> [] \<and>
    LoadConnections doc' (LoadConnections doc dir) = LoadConnections doc dir \<and>
    (\<exists>text. LogLoadedConnections (LoadConnections doc dir) = Inr text)"
proof -
  have ne: "LoadConnections doc dir \<noteq> []" for doc dir
    using default_directory_find by (auto simp: LoadConnections_def Let_def)
  then have "LoadConnections doc' (LoadConnections doc dir) = LoadConnections doc dir"
    by (simp add: LoadConnections_def [of doc'] Let_def)
  then show ?thesis using LoadConnections_inv [OF assms] ne LogLoadedConnections_total by blast
qed

theorem LoadConnections_stable_witness:
  "LoadConnections None (LoadConnections (Some (Some [(''A'', [(''P'', ''bool'')])])) []) =
     LoadConnections (Some (Some [(''A'', [(''P'', ''bool'')])])) []"
  using LoadConnections_stable [OF smap_inv_Nil, of "Some (Some [(''A'', [(''P'', ''bool'')])])" None] by simp

end
