(* ===== verification/Protobuf_Api.thy ===== *)
theory Protobuf_Api
  imports Parameter_Config
begin

text \<open>
  The protobuf classes \<open>Data\<close> and \<open>Parameter\<close> are generated from files that are not part of the
  repository.  What the code uses of them is the record \<open>protobuf_api\<close>, an argument of the
  operations; \<open>protobuf_laws\<close> states the documented behaviour of protobuf that the properties need,
  and \<open>concrete_api\<close> is an instance of it.
\<close>

section \<open>Protobuf\<close>

datatype quality = QUALITY_GOOD | QUALITY_BAD | QUALITY_NOT_RECEIVED | QUALITY_OTHER int

text \<open>A \<open>Parameter\<close> message: the two fields of \<open>info\<close>, and \<open>data\<close> if it is present.\<close>

record 'd Parameter =
  pm_identity :: Identity
  pm_unit :: u32
  pm_data :: "'d option"

record 'd protobuf_api =
  pb_default :: 'd
  pb_quality :: "'d \<Rightarrow> quality"
  pb_set_quality :: "quality \<Rightarrow> 'd \<Rightarrow> 'd"
  pb_ser_Data :: "'d \<Rightarrow> bytes"
  pb_parse_Data :: "bytes \<Rightarrow> bool \<times> 'd"
  pb_ser_Parameter :: "'d Parameter \<Rightarrow> bytes"
  pb_parse_Parameter :: "bytes \<Rightarrow> bool \<times> 'd Parameter"

definition protobuf_laws :: "'d protobuf_api \<Rightarrow> bool" where
  "protobuf_laws api \<longleftrightarrow>
     (\<forall>d. pb_parse_Data api (pb_ser_Data api d) = (True, d)) \<and>
     (\<forall>p. pb_parse_Parameter api (pb_ser_Parameter api p) = (True, p)) \<and>
     (\<forall>q d. pb_quality api (pb_set_quality api q d) = q)"

definition Parameter_default :: "'d Parameter" where
  "Parameter_default = \<lparr>pm_identity = [], pm_unit = 0, pm_data = None\<rparr>"

text \<open>\<open>parameter.data()\<close>: the default message when the field is not set.\<close>

definition pm_data_of :: "'d protobuf_api \<Rightarrow> 'd Parameter \<Rightarrow> 'd" where
  "pm_data_of api p = (case pm_data p of None \<Rightarrow> pb_default api | Some d \<Rightarrow> d)"

definition with_info :: "Identity \<Rightarrow> Unit \<Rightarrow> 'd Parameter \<Rightarrow> 'd Parameter" where
  "with_info identity unit p = p\<lparr>pm_identity := identity, pm_unit := unit\<rparr>"

definition set_data_quality :: "'d protobuf_api \<Rightarrow> quality \<Rightarrow> 'd Parameter \<Rightarrow> 'd Parameter" where
  "set_data_quality api q p = p\<lparr>pm_data := Some (pb_set_quality api q (pm_data_of api p))\<rparr>"

section \<open>An instance\<close>

text \<open>
  A codec that satisfies the laws: \<open>Data\<close> is a quality with a payload, numbers are written in unary
  with a terminating zero, strings and payloads are preceded by their length.
\<close>

definition enc_nat :: "nat \<Rightarrow> bytes" where
  "enc_nat n = replicate n 1 @ [0]"

definition dec_nat :: "bytes \<Rightarrow> nat \<times> bytes" where
  "dec_nat bs = (let n = length (takeWhile (\<lambda>b. b = 1) bs) in (n, drop (Suc n) bs))"

definition enc_bytes :: "bytes \<Rightarrow> bytes" where
  "enc_bytes bs = enc_nat (length bs) @ bs"

definition dec_bytes :: "bytes \<Rightarrow> bytes \<times> bytes" where
  "dec_bytes bs = (case dec_nat bs of (n, rest) \<Rightarrow> (take n rest, drop n rest))"

fun enc_quality :: "quality \<Rightarrow> bytes" where
  "enc_quality QUALITY_GOOD = [0]"
| "enc_quality QUALITY_BAD = [1]"
| "enc_quality QUALITY_NOT_RECEIVED = [2]"
| "enc_quality (QUALITY_OTHER i) = (if i < 0 then 3 # enc_nat (nat (- i)) else 4 # enc_nat (nat i))"

fun dec_quality :: "bytes \<Rightarrow> quality \<times> bytes" where
  "dec_quality [] = (QUALITY_GOOD, [])"
| "dec_quality (b # bs) =
     (if b = 0 then (QUALITY_GOOD, bs) else if b = 1 then (QUALITY_BAD, bs)
      else if b = 2 then (QUALITY_NOT_RECEIVED, bs)
      else if b = 3 then (case dec_nat bs of (n, rest) \<Rightarrow> (QUALITY_OTHER (- int n), rest))
      else (case dec_nat bs of (n, rest) \<Rightarrow> (QUALITY_OTHER (int n), rest)))"

type_synonym cdata = "quality \<times> bytes"

definition enc_Data :: "cdata \<Rightarrow> bytes" where
  "enc_Data d = enc_quality (fst d) @ enc_bytes (snd d)"

definition dec_Data :: "bytes \<Rightarrow> cdata" where
  "dec_Data bs = (case dec_quality bs of (q, rest) \<Rightarrow> (q, fst (dec_bytes rest)))"

definition string_bytes :: "string \<Rightarrow> bytes" where
  "string_bytes s = map (\<lambda>c. of_nat (of_char c)) s"

definition bytes_string :: "bytes \<Rightarrow> string" where
  "bytes_string bs = map (\<lambda>b. char_of (unat b)) bs"

definition enc_Parameter :: "cdata Parameter \<Rightarrow> bytes" where
  "enc_Parameter p =
     enc_bytes (string_bytes (pm_identity p)) @ enc_nat (unat (pm_unit p)) @
     (case pm_data p of None \<Rightarrow> [0] | Some d \<Rightarrow> 1 # enc_Data d)"

definition dec_Parameter :: "bytes \<Rightarrow> cdata Parameter" where
  "dec_Parameter bs =
     (case dec_bytes bs of (name, r1) \<Rightarrow>
        (case dec_nat r1 of (n, r2) \<Rightarrow>
           \<lparr>pm_identity = bytes_string name, pm_unit = of_nat n,
            pm_data = (case r2 of b # r3 \<Rightarrow> if b = 1 then Some (dec_Data r3) else None | [] \<Rightarrow> None)\<rparr>))"

definition concrete_api :: "cdata protobuf_api" where
  "concrete_api = \<lparr>pb_default = (QUALITY_OTHER 0, []), pb_quality = fst,
     pb_set_quality = (\<lambda>q d. (q, snd d)), pb_ser_Data = enc_Data, pb_parse_Data = (\<lambda>bs. (True, dec_Data bs)),
     pb_ser_Parameter = enc_Parameter, pb_parse_Parameter = (\<lambda>bs. (True, dec_Parameter bs))\<rparr>"

lemma dec_enc_nat [simp]: "dec_nat (enc_nat n @ rest) = (n, rest)"
proof -
  have "takeWhile (\<lambda>b. b = 1) (replicate n (1::byte) @ 0 # rest) = replicate n 1"
    by (induction n) auto
  then show ?thesis by (simp add: dec_nat_def enc_nat_def Let_def)
qed

lemma dec_enc_nat_Nil [simp]: "dec_nat (enc_nat n) = (n, [])"
  using dec_enc_nat [of n "[]"] by simp

lemma dec_enc_bytes [simp]: "dec_bytes (enc_bytes bs @ rest) = (bs, rest)"
  by (simp add: dec_bytes_def enc_bytes_def)

lemma dec_enc_quality [simp]: "dec_quality (enc_quality q @ rest) = (q, rest)"
  by (cases q) auto

lemma dec_enc_Data [simp]: "dec_Data (enc_Data d) = d"
  using dec_enc_bytes [of "snd d" "[]"] by (cases d) (simp add: dec_Data_def enc_Data_def)

lemma bytes_string_bytes [simp]: "bytes_string (string_bytes s) = s"
proof -
  have "char_of (unat (of_nat (of_char c) :: byte)) = c" for c
    by (simp add: unat_of_nat)
  then show ?thesis by (simp add: bytes_string_def string_bytes_def comp_def)
qed

lemma dec_enc_Parameter [simp]: "dec_Parameter (enc_Parameter p) = p"
  by (cases p) (auto simp: dec_Parameter_def enc_Parameter_def split: option.splits)

lemma concrete_api_laws: "protobuf_laws concrete_api"
  by (simp add: protobuf_laws_def concrete_api_def)

end
