(* ===== verification/Parameter_Types.thy ===== *)
theory Parameter_Types
  imports Protobuf_Api Endpoint_Config Message_Pubsub Rpc_Client
begin

text \<open>
  The four handles a user of a parameter service works with (\<open>lib/parameters/types/\<close>): \<open>ReadParameter\<close>,
  \<open>WriteParameter\<close>, \<open>PublishParameter\<close> and \<open>SubscribeParameter\<close>, over the client of \<open>Rpc_Client\<close> and the
  readers and writers of \<open>Message_Pubsub\<close>.
\<close>

section \<open>Read and write\<close>

datatype Param_Status = UNSPECIFIED | SUCCESS | FAILURE

record ReadParameter =
  rd_identity :: Identity
  rd_unit :: Unit

record WriteParameter =
  wr_identity :: Identity
  wr_unit :: Unit

definition ReadParameter_ctor :: "ClientParameter \<Rightarrow> bool \<Rightarrow> ReadParameter cpp" where
  "ReadParameter_ctor config has_client =
     (if \<not> has_client then Inl AssertFailed
      else Inr \<lparr>rd_identity = cp_parameter_id config, rd_unit = cp_unit config\<rparr>)"

definition WriteParameter_ctor :: "ClientParameter \<Rightarrow> bool \<Rightarrow> WriteParameter cpp" where
  "WriteParameter_ctor config has_client =
     (if \<not> has_client then Inl AssertFailed
      else Inr \<lparr>wr_identity = cp_parameter_id config, wr_unit = cp_unit config\<rparr>)"

text \<open>
  The body of the completion handler, up to the call of the user's callback with the status and the
  parameter it returns.  A message that does not parse leaves what was parsed in the parameter.
\<close>

definition complete_reply :: "'d protobuf_api \<Rightarrow> Identity \<Rightarrow> Unit \<Rightarrow> Reply \<Rightarrow> Param_Status \<times> 'd Parameter" where
  "complete_reply api identity unit reply =
     (let parameter = with_info identity unit Parameter_default;
          parameter = set_data_quality api QUALITY_NOT_RECEIVED parameter
      in if status_code (rp_status reply) = STATUS_CODE_SUCCESS then
           (case pb_parse_Data api (rp_serialized_protobuf reply) of
              (parsed, d) \<Rightarrow>
                (if parsed \<and> pb_quality api d = QUALITY_GOOD then SUCCESS else FAILURE,
                 parameter\<lparr>pm_data := Some d\<rparr>))
         else (FAILURE, parameter))"

definition Read_handler :: "'d protobuf_api \<Rightarrow> ReadParameter \<Rightarrow> Reply \<Rightarrow> Param_Status \<times> 'd Parameter" where
  "Read_handler api r reply = complete_reply api (rd_identity r) (rd_unit r) reply"

definition Write_handler :: "'d protobuf_api \<Rightarrow> WriteParameter \<Rightarrow> Reply \<Rightarrow> Param_Status \<times> 'd Parameter" where
  "Write_handler api w reply = complete_reply api (wr_identity w) (wr_unit w) reply"

definition Read_request :: "ReadParameter \<Rightarrow> 'd Parameter" where
  "Read_request r = with_info (rd_identity r) (rd_unit r) Parameter_default"

definition Write_request :: "WriteParameter \<Rightarrow> 'd \<Rightarrow> 'd Parameter" where
  "Write_request w d = (with_info (wr_identity w) (wr_unit w) Parameter_default)\<lparr>pm_data := Some d\<rparr>"

text \<open>The handler that is passed on is the handle with the user's callback.\<close>

definition ReadParameter_Read ::
  "'d protobuf_api \<Rightarrow> ReadParameter \<Rightarrow> 'f option \<Rightarrow> (ReadParameter \<times> 'f) Client
     \<Rightarrow> (ReadParameter \<times> 'f) Client cpp" where
  "ReadParameter_Read api r callback c =
     (case callback of
        None \<Rightarrow> Inl AssertFailed
      | Some f \<Rightarrow> Inr (Client_Read (pb_ser_Parameter api (Read_request r)) (r, f) c))"

definition WriteParameter_Write ::
  "'d protobuf_api \<Rightarrow> WriteParameter \<Rightarrow> 'd \<Rightarrow> 'f option \<Rightarrow> (WriteParameter \<times> 'f) Client
     \<Rightarrow> (WriteParameter \<times> 'f) Client cpp" where
  "WriteParameter_Write api w d callback c =
     (case callback of
        None \<Rightarrow> Inl AssertFailed
      | Some f \<Rightarrow> Inr (Client_Write (pb_ser_Parameter api (Write_request w d)) (w, f) c))"

section \<open>Publish\<close>

record 'd PublishParameter =
  pp_lastPublished :: "'d Parameter"
  pp_writer :: MessageWriter

definition PublishParameter_Publish ::
  "'d protobuf_api \<Rightarrow> retcode \<Rightarrow> 'd \<Rightarrow> 'd PublishParameter \<Rightarrow> 'd PublishParameter" where
  "PublishParameter_Publish api ret d pp =
     (let last = (pp_lastPublished pp)\<lparr>pm_data := Some d\<rparr>
      in \<lparr>pp_lastPublished = last,
          pp_writer = snd (MessageWriter_Publish ret (pb_ser_Parameter api last) (pp_writer pp))\<rparr>)"

definition PublishParameter_ctor ::
  "'d protobuf_api \<Rightarrow> creation_env \<Rightarrow> int list \<Rightarrow> retcode \<Rightarrow> 'd PublishedParameter
     \<Rightarrow> DomainParticipantMessageStub option \<Rightarrow> ('d PublishParameter \<times> DomainParticipantMessageStub) cpp" where
  "PublishParameter_ctor api env early ret config participant =
     (case participant of
        None \<Rightarrow> Inl AssertFailed
      | Some dp \<Rightarrow>
          (let last = with_info (pub_parameter_id config) (pub_unit config) Parameter_default
           in case MessageParticipant_CreateWriter env (GetSubscriptionByParameterName (pm_identity last)) early dp of
                Inl e \<Rightarrow> Inl e
              | Inr ((w, _), dp') \<Rightarrow>
                  Inr (PublishParameter_Publish api ret (pub_initial_value config)
                         \<lparr>pp_lastPublished = last, pp_writer = w\<rparr>, dp')))"

definition PublishParameter_Identity :: "'d PublishParameter \<Rightarrow> Identity" where
  "PublishParameter_Identity pp = pm_identity (pp_lastPublished pp)"

definition PublishParameter_Unit :: "'d PublishParameter \<Rightarrow> Unit" where
  "PublishParameter_Unit pp = pm_unit (pp_lastPublished pp)"

section \<open>Subscribe\<close>

record ('d, 'u) SubscribeParameter =
  sb_lastReceived :: "'d Parameter"
  sb_callback :: "('d, 'u) OnSubscription option"
  sb_callbackWithMetadata :: "('d, 'u) OnSubscriptionWithMetadata option"
  sb_disconnect :: "'u OnDisconnect option"

text \<open>\<open>catch(std::exception const&)\<close> around a call: only what is not an exception escapes.\<close>

definition catch_std :: "unit cpp \<times> 'u \<Rightarrow> unit cpp \<times> 'u" where
  "catch_std r =
     (case r of
        (Inl e, u) \<Rightarrow> (case exception_what e of Some _ \<Rightarrow> (Inr (), u) | None \<Rightarrow> (Inl e, u))
      | (Inr _, u) \<Rightarrow> (Inr (), u))"

definition ProtectedUserSubscriptionCall ::
  "'d protobuf_api \<Rightarrow> ('d, 'u) SubscribeParameter \<Rightarrow> 'u \<Rightarrow> unit cpp \<times> 'u" where
  "ProtectedUserSubscriptionCall api sp u =
     catch_std
       (case (case sb_callback sp of
                None \<Rightarrow> (Inr (), u)
              | Some f \<Rightarrow> f (pm_identity (sb_lastReceived sp)) (pm_data_of api (sb_lastReceived sp)) u) of
          (Inl e, u1) \<Rightarrow> (Inl e, u1)
        | (Inr _, u1) \<Rightarrow>
            (case sb_callbackWithMetadata sp of
               None \<Rightarrow> (Inr (), u1)
             | Some f \<Rightarrow> f (pm_identity (sb_lastReceived sp)) (pm_data_of api (sb_lastReceived sp))
                            (pm_unit (sb_lastReceived sp)) u1))"

text \<open>Calling an empty \<open>std::function\<close> throws \<open>std::bad_function_call\<close>, which is caught too.\<close>

definition ProtectedUserDisconnectCall :: "('d, 'u) SubscribeParameter \<Rightarrow> 'u \<Rightarrow> unit cpp \<times> 'u" where
  "ProtectedUserDisconnectCall sp u =
     catch_std (case sb_disconnect sp of
                  None \<Rightarrow> (Inl (RuntimeError ''bad_function_call''), u)
                | Some f \<Rightarrow> f u)"

definition subscribe_handler ::
  "'d protobuf_api \<Rightarrow> bytes \<Rightarrow> ('d, 'u) SubscribeParameter \<times> 'u \<Rightarrow> (('d, 'u) SubscribeParameter \<times> 'u) cpp" where
  "subscribe_handler api serialized spu =
     (let sp = (fst spu)\<lparr>sb_lastReceived := snd (pb_parse_Parameter api serialized)\<rparr>
      in case ProtectedUserSubscriptionCall api sp (snd spu) of
           (Inl e, _) \<Rightarrow> Inl e
         | (Inr _, u) \<Rightarrow> Inr (sp, u))"

definition subscribe_onDisconnect ::
  "'d protobuf_api \<Rightarrow> ('d, 'u) SubscribeParameter \<times> 'u \<Rightarrow> (('d, 'u) SubscribeParameter \<times> 'u) cpp" where
  "subscribe_onDisconnect api spu =
     (let sp = (fst spu)\<lparr>sb_lastReceived := set_data_quality api QUALITY_BAD (sb_lastReceived (fst spu))\<rparr>
      in case ProtectedUserSubscriptionCall api sp (snd spu) of
           (Inl e, _) \<Rightarrow> Inl e
         | (Inr _, u) \<Rightarrow>
             (case ProtectedUserDisconnectCall sp u of
                (Inl e, _) \<Rightarrow> Inl e
              | (Inr _, u') \<Rightarrow> Inr (sp, u')))"

definition SubscribeParameter_ctor ::
  "'d protobuf_api \<Rightarrow> creation_env \<Rightarrow> port_parameters \<Rightarrow> reader_evt list \<Rightarrow> take_result list
     \<Rightarrow> ('d, 'u) SubscribedParameter \<Rightarrow> DomainParticipantMessageStub option \<Rightarrow> 'u
     \<Rightarrow> ((('d, 'u) SubscribeParameter \<times> 'u) MessageReader \<times> DomainParticipantMessageStub \<times>
         ('d, 'u) SubscribeParameter \<times> 'u) cpp" where
  "SubscribeParameter_ctor api env pp early samples config participant u =
     (case participant of
        None \<Rightarrow> Inl AssertFailed
      | Some dp \<Rightarrow>
          (let sp = \<lparr>sb_lastReceived = Parameter_default\<lparr>pm_identity := sub_parameter_id config\<rparr>,
                     sb_callback = sub_callback config,
                     sb_callbackWithMetadata = sub_callbackWithMetadata config,
                     sb_disconnect = sub_disconnect config\<rparr>
           in case MessageParticipant_CreateReader env pp
                     (GetSubscriptionByParameterName (pm_identity (sb_lastReceived sp)))
                     (Some (subscribe_handler api)) (Some (subscribe_onDisconnect api)) early samples dp (sp, u) of
                Inl e \<Rightarrow> Inl e
              | Inr ((r, _), dp', spu) \<Rightarrow> Inr (r, dp', spu)))"

section \<open>Lemmas\<close>

lemmas parameter_defs = with_info_def set_data_quality_def Parameter_default_def pm_data_of_def

lemma complete_reply_info [simp]:
  "pm_identity (snd (complete_reply api i n r)) = i" "pm_unit (snd (complete_reply api i n r)) = n"
  by (simp_all add: complete_reply_def parameter_defs Let_def split: prod.splits)

lemma PublishParameter_Publish_last:
  "pp_lastPublished (PublishParameter_Publish api ret d pp) = (pp_lastPublished pp)\<lparr>pm_data := Some d\<rparr>"
  by (simp add: PublishParameter_Publish_def Let_def)

lemma PublishParameter_Publish_sent:
  "writer_sent (pp_writer (PublishParameter_Publish api ret d pp)) = writer_sent (pp_writer pp) @
     (if fst (MessageWriter_Publish ret (pb_ser_Parameter api ((pp_lastPublished pp)\<lparr>pm_data := Some d\<rparr>)) (pp_writer pp))
      then [pb_ser_Parameter api ((pp_lastPublished pp)\<lparr>pm_data := Some d\<rparr>)] else [])"
  by (simp add: PublishParameter_Publish_def Let_def mw.publish_sent)

text \<open>A user whose callbacks throw nothing but standard exceptions.\<close>

definition std_only :: "unit cpp \<times> 'u \<Rightarrow> bool" where
  "std_only r \<longleftrightarrow> (case fst r of Inl e \<Rightarrow> exception_what e \<noteq> None | Inr _ \<Rightarrow> True)"

lemma catch_std_total: "std_only r \<Longrightarrow> catch_std r = (Inr (), snd r)"
  by (auto simp: catch_std_def std_only_def split: sum.splits prod.splits option.splits)

definition well_behaved :: "('d, 'u) SubscribeParameter \<Rightarrow> bool" where
  "well_behaved sp \<longleftrightarrow>
     (\<forall>f. sb_callback sp = Some f \<longrightarrow> (\<forall>i d u. std_only (f i d u))) \<and>
     (\<forall>f. sb_callbackWithMetadata sp = Some f \<longrightarrow> (\<forall>i d n u. std_only (f i d n u))) \<and>
     (\<forall>f. sb_disconnect sp = Some f \<longrightarrow> (\<forall>u. std_only (f u)))"

lemma std_only_seq:
  "std_only r \<Longrightarrow> (\<And>u. std_only (g u)) \<Longrightarrow>
   std_only (case r of (Inl e, u1) \<Rightarrow> (Inl e, u1) | (Inr _, u1) \<Rightarrow> g u1)"
  by (cases r; cases "fst r") (auto simp: std_only_def)

lemma std_only_Inr [simp]: "std_only (Inr (), u)"
  by (simp add: std_only_def)

lemma subscription_call_total:
  assumes "well_behaved sp"
  shows "fst (ProtectedUserSubscriptionCall api sp u) = Inr ()"
proof -
  have "std_only (case sb_callback sp of
      None \<Rightarrow> (Inr (), u)
    | Some f \<Rightarrow> f (pm_identity (sb_lastReceived sp)) (pm_data_of api (sb_lastReceived sp)) u)"
    using assms by (auto simp: well_behaved_def split: option.splits)
  moreover have "std_only (case sb_callbackWithMetadata sp of
      None \<Rightarrow> (Inr (), u1)
    | Some f \<Rightarrow> f (pm_identity (sb_lastReceived sp)) (pm_data_of api (sb_lastReceived sp))
                   (pm_unit (sb_lastReceived sp)) u1)" for u1
    using assms by (auto simp: well_behaved_def split: option.splits)
  ultimately have "std_only (case (case sb_callback sp of
                None \<Rightarrow> (Inr (), u)
              | Some f \<Rightarrow> f (pm_identity (sb_lastReceived sp)) (pm_data_of api (sb_lastReceived sp)) u) of
          (Inl e, u1) \<Rightarrow> (Inl e, u1)
        | (Inr _, u1) \<Rightarrow>
            (case sb_callbackWithMetadata sp of
               None \<Rightarrow> (Inr (), u1)
             | Some f \<Rightarrow> f (pm_identity (sb_lastReceived sp)) (pm_data_of api (sb_lastReceived sp))
                            (pm_unit (sb_lastReceived sp)) u1))"
    by (rule std_only_seq)
  then show ?thesis by (simp add: ProtectedUserSubscriptionCall_def catch_std_total)
qed

lemma subscription_call_eq:
  "well_behaved sp \<Longrightarrow> ProtectedUserSubscriptionCall api sp u = (Inr (), snd (ProtectedUserSubscriptionCall api sp u))"
  using subscription_call_total [of sp api u] by (metis prod.collapse)

lemma disconnect_call_total:
  "well_behaved sp \<Longrightarrow> fst (ProtectedUserDisconnectCall sp u) = Inr ()"
  by (cases "sb_disconnect sp")
    (auto simp: ProtectedUserDisconnectCall_def well_behaved_def catch_std_total std_only_def)

lemma disconnect_call_eq:
  "well_behaved sp \<Longrightarrow> ProtectedUserDisconnectCall sp u = (Inr (), snd (ProtectedUserDisconnectCall sp u))"
  using disconnect_call_total [of sp u] by (metis prod.collapse)

lemma well_behaved_update [simp]:
  "well_behaved (sp\<lparr>sb_lastReceived := p\<rparr>) = well_behaved sp"
  by (simp add: well_behaved_def)

section \<open>Properties\<close>

text \<open>
  A read or write completes with success exactly when the transport succeeded, the reply parses
as \<open>Data\<close> and its quality is good; on every outcome the parameter handed to the user carries the
configured identity and unit, and without a transport success its quality is not-received.
\<close>

theorem completion_status:
  "(fst (complete_reply api identity unit reply) = SUCCESS \<longleftrightarrow>
      status_code (rp_status reply) = STATUS_CODE_SUCCESS \<and>
      (\<exists>d. pb_parse_Data api (rp_serialized_protobuf reply) = (True, d) \<and> pb_quality api d = QUALITY_GOOD)) \<and>
   fst (complete_reply api identity unit reply) \<noteq> UNSPECIFIED \<and>
   pm_identity (snd (complete_reply api identity unit reply)) = identity \<and>
   pm_unit (snd (complete_reply api identity unit reply)) = unit \<and>
   pm_data (snd (complete_reply api identity unit reply)) =
     (if status_code (rp_status reply) = STATUS_CODE_SUCCESS
      then Some (snd (pb_parse_Data api (rp_serialized_protobuf reply)))
      else Some (pb_set_quality api QUALITY_NOT_RECEIVED (pb_default api)))"
  by (auto simp: complete_reply_def parameter_defs Let_def split: prod.splits)

text \<open>
C20: A value that a publisher has published reaches a subscriber's callback unchanged: when Fast
DDS hands the last accepted sample to the subscriber, its callback is called once with the
publisher's identity, the published data and the publisher's unit, whatever it had received before.
\<close>

theorem published_value_is_received:
  assumes "protobuf_laws api"
    and "fst (MessageWriter_Publish ret (pb_ser_Parameter api ((pp_lastPublished pp)\<lparr>pm_data := Some d\<rparr>)) (pp_writer pp))"
    and "pp' = PublishParameter_Publish api ret d pp"
    and "sb_callback sp = None" "sb_callbackWithMetadata sp = Some f"
    and "f (PublishParameter_Identity pp) d (PublishParameter_Unit pp) u = (Inr (), u')"
  shows "subscribe_handler api (last (writer_sent (pp_writer pp'))) (sp, u) =
    Inr (sp\<lparr>sb_lastReceived := pp_lastPublished pp'\<rparr>, u')"
  using assms
  by (simp add: subscribe_handler_def PublishParameter_Publish_sent PublishParameter_Publish_last
      protobuf_laws_def ProtectedUserSubscriptionCall_def pm_data_of_def PublishParameter_Identity_def
      PublishParameter_Unit_def catch_std_def Let_def)

theorem published_value_is_received_witness:
  "\<exists>pp' :: cdata PublishParameter. \<exists>sp'. subscribe_handler concrete_api (last (writer_sent (pp_writer pp')))
     (\<lparr>sb_lastReceived = Parameter_default, sb_callback = None,
       sb_callbackWithMetadata = Some (\<lambda>i d n u. (Inr (), u @ [(i, d, n)])), sb_disconnect = None\<rparr>, []) =
   Inr (sp', [(''GPSData'', (QUALITY_GOOD, [9]), 5)])"
proof -
  let ?pp = "\<lparr>pp_lastPublished = \<lparr>pm_identity = ''GPSData'', pm_unit = 5, pm_data = None\<rparr>,
      pp_writer = \<lparr>mw_topicName = ''t'', mw_stub = Some \<lparr>dw_writer = Some []\<rparr>, mw_matched = False\<rparr>\<rparr> :: cdata PublishParameter"
  let ?sp = "\<lparr>sb_lastReceived = Parameter_default, sb_callback = None,
      sb_callbackWithMetadata = Some (\<lambda>i d n u. (Inr (), u @ [(i, d, n)])), sb_disconnect = None\<rparr>
      :: (cdata, (string \<times> cdata \<times> u32) list) SubscribeParameter"
  let ?d = "(QUALITY_GOOD, [9]) :: cdata"
  have "subscribe_handler concrete_api (last (writer_sent (pp_writer (PublishParameter_Publish concrete_api RETCODE_OK ?d ?pp)))) (?sp, [])
    = Inr (?sp\<lparr>sb_lastReceived := pp_lastPublished (PublishParameter_Publish concrete_api RETCODE_OK ?d ?pp)\<rparr>, [(''GPSData'', ?d, 5)])"
    by (rule published_value_is_received [OF concrete_api_laws _ refl, where f = "\<lambda>i d n u. (Inr (), u @ [(i, d, n)])"])
      (simp_all add: MessageWriter_Publish_cases concrete_api_def enc_Parameter_def enc_Data_def enc_bytes_def enc_nat_def
        string_bytes_def n_MaxPayloadByteCount_def PublishParameter_Identity_def PublishParameter_Unit_def)
  then show ?thesis by blast
qed

text \<open>
  When the publisher is lost, the subscription callback is called with the last data marked bad
and then the disconnect callback runs, and no standard exception of the user's callbacks escapes
to Fast DDS from either event.
\<close>

theorem disconnect_marks_bad:
  assumes "protobuf_laws api" "well_behaved sp"
  shows "(\<exists>sp' u'. subscribe_onDisconnect api (sp, u) = Inr (sp', u') \<and>
      pb_quality api (pm_data_of api (sb_lastReceived sp')) = QUALITY_BAD \<and>
      u' = snd (ProtectedUserDisconnectCall sp' (snd (ProtectedUserSubscriptionCall api sp' u)))) \<and>
    (\<exists>sp' u'. subscribe_handler api bytes (sp, u) = Inr (sp', u') \<and>
      u' = snd (ProtectedUserSubscriptionCall api sp' u))"
proof -
  let ?sp = "sp\<lparr>sb_lastReceived := set_data_quality api QUALITY_BAD (sb_lastReceived sp)\<rparr>"
  have "subscribe_onDisconnect api (sp, u) =
      Inr (?sp, snd (ProtectedUserDisconnectCall ?sp (snd (ProtectedUserSubscriptionCall api ?sp u))))"
  proof -
    obtain u1 where c1: "ProtectedUserSubscriptionCall api ?sp u = (Inr (), u1)"
      using subscription_call_eq [of ?sp api u] assms(2) by (metis well_behaved_update)
    obtain u2 where c2: "ProtectedUserDisconnectCall ?sp u1 = (Inr (), u2)"
      using disconnect_call_eq [of ?sp u1] assms(2) by (metis well_behaved_update)
    show ?thesis by (simp add: subscribe_onDisconnect_def Let_def c1 c2)
  qed
  moreover have "pb_quality api (pm_data_of api (sb_lastReceived ?sp)) = QUALITY_BAD"
    using assms(1) by (simp add: protobuf_laws_def set_data_quality_def pm_data_of_def [of api "_\<lparr>pm_data := _\<rparr>"])
  moreover
  let ?sq = "sp\<lparr>sb_lastReceived := snd (pb_parse_Parameter api bytes)\<rparr>"
  have "subscribe_handler api bytes (sp, u) = Inr (?sq, snd (ProtectedUserSubscriptionCall api ?sq u))"
  proof -
    obtain u1 where c1: "ProtectedUserSubscriptionCall api ?sq u = (Inr (), u1)"
      using subscription_call_eq [of ?sq api u] assms(2) by (metis well_behaved_update)
    show ?thesis by (simp add: subscribe_handler_def Let_def c1)
  qed
  ultimately show ?thesis by blast
qed

theorem disconnect_marks_bad_witness:
  "\<exists>sp' u'. subscribe_onDisconnect concrete_api
      (\<lparr>sb_lastReceived = Parameter_default, sb_callback = Some (\<lambda>i d u. (Inl (RuntimeError ''failure''), u @ [fst d])),
        sb_callbackWithMetadata = None, sb_disconnect = None\<rparr>, []) = Inr (sp', u') \<and>
     pb_quality concrete_api (pm_data_of concrete_api (sb_lastReceived sp')) = QUALITY_BAD"
  using disconnect_marks_bad [OF concrete_api_laws, of
      "\<lparr>sb_lastReceived = Parameter_default, sb_callback = Some (\<lambda>i d u. (Inl (RuntimeError ''failure''), u @ [fst d])),
        sb_callbackWithMetadata = None, sb_disconnect = None\<rparr>" "[]" "[]"]
  by (auto simp: well_behaved_def std_only_def)

end
