(* ===== verification/Parameter_Service.thy ===== *)
theory Parameter_Service
  imports Parameter_Types Logger
begin

text \<open>
  The parameter service (\<open>lib/parameters/ParameterService.cpp\<close>): construction from a configuration,
  the handles it hands out, and the server side of reads and writes, which runs as the callbacks of
  the request handler.

  A client participant is shared by the handles of its source; \<open>m_spReadClients\<close> and
  \<open>m_spWriteClients\<close> hold the handle with the source whose participant it uses.
\<close>

section \<open>State\<close>

record client_participant =
  cl_name :: string
  cl_service :: string

record ('d, 'u) Service =
  m_connectionsLoaded :: bool
  m_spBroadcastParticipant :: DomainParticipantMessageStub
  m_spServerParticipant :: "((nat, nat) Server \<times> ServerRequestHandler) option"
  m_spClientParticipants :: "(string, client_participant) smap"
  m_spPublishers :: "(string, 'd PublishParameter) smap"
  m_spReadClients :: "(string, ReadParameter \<times> string) smap"
  m_spWriteClients :: "(string, WriteParameter \<times> string) smap"
  m_spSubscribers :: "((('d, 'u) SubscribeParameter \<times> 'u) MessageReader \<times> ('d, 'u) SubscribeParameter) list"
  m_onWriteActions :: "(Identity, ('d, 'u) OnWriteAction option) smap"
  m_onReadActions :: "(Identity, ('d, 'u) OnReadAction option) smap"

text \<open>What Fast DDS answers while the service is built.\<close>

record service_env =
  se_message :: creation_env
  se_rpc :: fastdds_env
  se_ports :: port_parameters
  se_publish :: retcode

section \<open>Replies\<close>

definition ReplyBadFormat :: "Request \<Rightarrow> Reply" where
  "ReplyBadFormat request =
     (set_status_message ''Request could not be parsed.''
        (set_status_code STATUS_CODE_REQUEST_FORMAT_ERROR Reply_default))
     \<lparr>rp_serialized_protobuf := rq_serialized_protobuf request\<rparr>"

definition ReplyNotFound :: "'d protobuf_api \<Rightarrow> 'd Parameter \<Rightarrow> string \<Rightarrow> Reply" where
  "ReplyNotFound api request message =
     (let replyProtobuf = set_data_quality api QUALITY_NOT_RECEIVED
                            (with_info (pm_identity request) (pm_unit request) Parameter_default)
      in (set_status_message message (set_status_code STATUS_CODE_REQUESTED_NOT_FOUND_FAILURE Reply_default))
         \<lparr>rp_serialized_protobuf := pb_ser_Data api (pm_data_of api replyProtobuf)\<rparr>)"

definition ReplySuccess :: "'d protobuf_api \<Rightarrow> 'd Parameter \<Rightarrow> Reply" where
  "ReplySuccess api parameter =
     (set_status_code STATUS_CODE_SUCCESS Reply_default)
     \<lparr>rp_serialized_protobuf := pb_ser_Data api (pm_data_of api parameter)\<rparr>"

section \<open>Requests\<close>

text \<open>Calling an action that is an empty \<open>std::function\<close> throws \<open>std::bad_function_call\<close>.\<close>

definition bad_function_call :: cpp_error where
  "bad_function_call = RuntimeError ''bad_function_call''"

definition respond ::
  "'d protobuf_api \<Rightarrow> 'd Parameter \<Rightarrow> 'd option cpp \<times> 'u \<Rightarrow> Reply option cpp \<times> 'u" where
  "respond api request_protobuf result =
     (case result of
        (Inl e, u) \<Rightarrow> (Inl e, u)
      | (Inr (Some response_data), u) \<Rightarrow>
          (let reply_protobuf = (with_info (pm_identity request_protobuf) (pm_unit request_protobuf) Parameter_default)
                                  \<lparr>pm_data := Some response_data\<rparr>
           in (Inr (Some (ReplySuccess api reply_protobuf)), u))
      | (Inr None, u) \<Rightarrow> (Inr None, u))"

definition ProcessReadRequest ::
  "'d protobuf_api \<Rightarrow> ('d, 'u) Service \<Rightarrow> u16 \<Rightarrow> Request \<Rightarrow> 'u \<Rightarrow> Reply option cpp \<times> 'u" where
  "ProcessReadRequest api s key request u =
     (case pb_parse_Parameter api (rq_serialized_protobuf request) of
        (True, request_protobuf) \<Rightarrow>
          (case smap_find (m_onReadActions s) (pm_identity request_protobuf) of
             Some entry \<Rightarrow>
               respond api request_protobuf
                 (case entry of
                    None \<Rightarrow> (Inl bad_function_call, u)
                  | Some action \<Rightarrow> action key (pm_identity request_protobuf) u)
           | None \<Rightarrow>
               (Inr (Some (ReplyNotFound api request_protobuf
                  ('' READ action not found for ['' @ pm_identity request_protobuf @ '']''))), u))
      | (False, _) \<Rightarrow> (Inr (Some (ReplyBadFormat request)), u))"

definition ProcessWriteRequest ::
  "'d protobuf_api \<Rightarrow> ('d, 'u) Service \<Rightarrow> u16 \<Rightarrow> Request \<Rightarrow> 'u \<Rightarrow> Reply option cpp \<times> 'u" where
  "ProcessWriteRequest api s key request u =
     (case pb_parse_Parameter api (rq_serialized_protobuf request) of
        (True, request_protobuf) \<Rightarrow>
          (case smap_find (m_onWriteActions s) (pm_identity request_protobuf) of
             Some entry \<Rightarrow>
               respond api request_protobuf
                 (case entry of
                    None \<Rightarrow> (Inl bad_function_call, u)
                  | Some action \<Rightarrow> action key (pm_identity request_protobuf) (pm_data_of api request_protobuf) u)
           | None \<Rightarrow>
               (Inr (Some (ReplyNotFound api request_protobuf
                  ('' WRITE action not found for ['' @ pm_identity request_protobuf @ '']''))), u))
      | (False, _) \<Rightarrow> (Inr (Some (ReplyBadFormat request)), u))"

text \<open>The callbacks the server is created with.\<close>

definition service_callbacks :: "'d protobuf_api \<Rightarrow> ('d, 'u) Service \<Rightarrow> 'u callbacks" where
  "service_callbacks api s =
     \<lparr>m_readCallback = ProcessReadRequest api s, m_writeCallback = ProcessWriteRequest api s\<rparr>"

definition deferred_reply :: "'d protobuf_api \<Rightarrow> 'd \<Rightarrow> Reply" where
  "deferred_reply api d =
     (set_status_code STATUS_CODE_SUCCESS Reply_default)\<lparr>rp_serialized_protobuf := pb_ser_Data api d\<rparr>"

definition Service_Reply ::
  "'d protobuf_api \<Rightarrow> u16 \<Rightarrow> 'd \<Rightarrow> ('d, 'u) Service \<Rightarrow> ('d, 'u) Service cpp" where
  "Service_Reply api key d s =
     (case m_spServerParticipant s of
        None \<Rightarrow> Inl NullDereference
      | Some (server, h) \<Rightarrow>
          (case Server_Reply key (deferred_reply api d) h of
             Inl e \<Rightarrow> Inl e
           | Inr h' \<Rightarrow> Inr (s\<lparr>m_spServerParticipant := Some (server, h')\<rparr>)))"

section \<open>Handles\<close>

definition retrieve :: "string \<Rightarrow> (string, 'h) smap \<Rightarrow> Identity \<Rightarrow> 'h cpp" where
  "retrieve kind m identity =
     (case smap_find m identity of
        None \<Rightarrow> Inl (RuntimeError (''[ParameterService] '' @ kind @ '' ['' @ c_str identity @ ''] was not found.''))
      | Some h \<Rightarrow> Inr h)"

definition RetrievePublisherInstance :: "Identity \<Rightarrow> ('d, 'u) Service \<Rightarrow> 'd PublishParameter cpp" where
  "RetrievePublisherInstance identity s = retrieve ''Publisher'' (m_spPublishers s) identity"

definition RetrieveReadInstance :: "Identity \<Rightarrow> ('d, 'u) Service \<Rightarrow> (ReadParameter \<times> string) cpp" where
  "RetrieveReadInstance identity s = retrieve ''Read Client'' (m_spReadClients s) identity"

definition RetrieveWriteInstance :: "Identity \<Rightarrow> ('d, 'u) Service \<Rightarrow> (WriteParameter \<times> string) cpp" where
  "RetrieveWriteInstance identity s = retrieve ''Write Client'' (m_spWriteClients s) identity"

section \<open>Construction\<close>

definition CreateServer ::
  "'d protobuf_api \<Rightarrow> service_env \<Rightarrow> ('d, 'u) ParameterService \<Rightarrow> ('d, 'u) Service \<Rightarrow> ('d, 'u) Service cpp" where
  "CreateServer api env c s =
     (if server_write_parameters c = [] \<and> server_read_parameters c = [] then Inr s
      else
        (let s = s\<lparr>m_onWriteActions := smap_assign_all
                     (map (\<lambda>e. (sw_parameter_id e, sw_callback e)) (server_write_parameters c)) (m_onWriteActions s),
                   m_onReadActions := smap_assign_all
                     (map (\<lambda>e. (sr_parameter_id e, sr_callback e)) (server_read_parameters c)) (m_onReadActions s)\<rparr>
         in case CreateServerParticipant (se_rpc env) (FormatName (server_identity c))
                   (Some (m_readCallback (service_callbacks api s)))
                   (Some (m_writeCallback (service_callbacks api s)))
                   :: ((nat, nat) Server \<times> 'u callbacks \<times> ServerRequestHandler) option cpp of
              Inl e \<Rightarrow> Inl e
            | Inr None \<Rightarrow> Inl NullDereference
            | Inr (Some (server, cbs, h)) \<Rightarrow>
                Inr (s\<lparr>m_spServerParticipant := Some (Server_Run server, h)\<rparr>)))"

definition is_named :: "Identity \<Rightarrow> Information list \<Rightarrow> bool" where
  "is_named parameter_id infos = (List.find (\<lambda>i. parameter_name i = FormatName parameter_id) infos \<noteq> None)"

text \<open>
  One source of \<open>CreateClients\<close>: its participant, then the read and the write handles of the
  configured parameters it provides.  The participant exists by then, so the handles' assertions
  hold.
\<close>

definition add_read :: "string \<times> Information list \<Rightarrow> ClientParameter \<Rightarrow> ('d, 'u) Service \<Rightarrow> ('d, 'u) Service" where
  "add_read source p s =
     (if is_named (cp_parameter_id p) (snd source)
      then s\<lparr>m_spReadClients := smap_assign (cp_parameter_id p)
               (\<lparr>rd_identity = cp_parameter_id p, rd_unit = cp_unit p\<rparr>, fst source) (m_spReadClients s)\<rparr>
      else s)"

definition add_write :: "string \<times> Information list \<Rightarrow> ClientParameter \<Rightarrow> ('d, 'u) Service \<Rightarrow> ('d, 'u) Service" where
  "add_write source p s =
     (if is_named (cp_parameter_id p) (snd source)
      then s\<lparr>m_spWriteClients := smap_assign (cp_parameter_id p)
               (\<lparr>wr_identity = cp_parameter_id p, wr_unit = cp_unit p\<rparr>, fst source) (m_spWriteClients s)\<rparr>
      else s)"

definition create_source ::
  "service_env \<Rightarrow> ('d, 'u) ParameterService \<Rightarrow> string \<times> Information list \<Rightarrow> ('d, 'u) Service \<Rightarrow> ('d, 'u) Service cpp" where
  "create_source env c source s =
     (case CreateClientParticipant (se_rpc env) (server_identity c) :: unit Client option cpp of
        Inl e \<Rightarrow> Inl e
      | Inr None \<Rightarrow> Inl AssertFailed
      | Inr (Some client) \<Rightarrow>
          (let s = s\<lparr>m_spClientParticipants := smap_assign (fst source)
                       \<lparr>cl_name = server_identity c, cl_service = fst source\<rparr> (m_spClientParticipants s)\<rparr>;
               s = fold (add_read source) (client_read_parameters c) s
           in Inr (fold (add_write source) (client_write_parameters c) s)))"

fun create_sources ::
  "service_env \<Rightarrow> ('d, 'u) ParameterService \<Rightarrow> SourceTableConnections \<Rightarrow> ('d, 'u) Service \<Rightarrow> ('d, 'u) Service cpp" where
  "create_sources env c [] s = Inr s"
| "create_sources env c (source # rest) s =
     (case create_source env c source s of Inl e \<Rightarrow> Inl e | Inr s' \<Rightarrow> create_sources env c rest s')"

definition CreateClients ::
  "service_env \<Rightarrow> SourceTableConnections \<Rightarrow> ('d, 'u) ParameterService \<Rightarrow> ('d, 'u) Service \<Rightarrow> ('d, 'u) Service cpp" where
  "CreateClients env dir c s = create_sources env c (GetClientConnections dir c) s"

text \<open>No Fast DDS event is reported before the constructor returns; later events are those of the reader.\<close>

fun CreateSubscriptions ::
  "'d protobuf_api \<Rightarrow> service_env \<Rightarrow> ('d, 'u) SubscribedParameter list \<Rightarrow> ('d, 'u) Service \<times> 'u
     \<Rightarrow> (('d, 'u) Service \<times> 'u) cpp" where
  "CreateSubscriptions api env [] su = Inr su"
| "CreateSubscriptions api env (entry # rest) su =
     (case SubscribeParameter_ctor api (se_message env) (se_ports env) [] [] entry
             (Some (m_spBroadcastParticipant (fst su))) (snd su) of
        Inl e \<Rightarrow> Inl e
      | Inr (reader, dp, sp, u) \<Rightarrow>
          CreateSubscriptions api env rest
            ((fst su)\<lparr>m_spBroadcastParticipant := dp, m_spSubscribers := m_spSubscribers (fst su) @ [(reader, sp)]\<rparr>, u))"

fun CreatePublishers ::
  "'d protobuf_api \<Rightarrow> service_env \<Rightarrow> 'd PublishedParameter list \<Rightarrow> ('d, 'u) Service \<Rightarrow> ('d, 'u) Service cpp" where
  "CreatePublishers api env [] s = Inr s"
| "CreatePublishers api env (entry # rest) s =
     (case PublishParameter_ctor api (se_message env) [] (se_publish env) entry (Some (m_spBroadcastParticipant s)) of
        Inl e \<Rightarrow> Inl e
      | Inr (pp, dp) \<Rightarrow>
          CreatePublishers api env rest
            (s\<lparr>m_spBroadcastParticipant := dp,
               m_spPublishers := smap_assign (pub_parameter_id entry) pp (m_spPublishers s)\<rparr>))"

definition CreateMessageParticipant :: "creation_env \<Rightarrow> u32 \<Rightarrow> string \<Rightarrow> DomainParticipantMessageStub option cpp" where
  "CreateMessageParticipant env domain_id name =
     factory_catch
       (case DomainParticipantMessageStub_ctor env domain_id name of
          Inl e \<Rightarrow> Inl e
        | Inr stub \<Rightarrow> MessageParticipant_ctor (Some stub))"

definition service_members :: "bool \<Rightarrow> DomainParticipantMessageStub \<Rightarrow> ('d, 'u) Service" where
  "service_members loaded dp =
     \<lparr>m_connectionsLoaded = loaded, m_spBroadcastParticipant = dp, m_spServerParticipant = None,
      m_spClientParticipants = [], m_spPublishers = [], m_spReadClients = [], m_spWriteClients = [],
      m_spSubscribers = [], m_onWriteActions = [], m_onReadActions = []\<rparr>"

definition Service_ctor ::
  "'d protobuf_api \<Rightarrow> service_env \<Rightarrow> xml_domains \<Rightarrow> ('d, 'u) ParameterService \<Rightarrow> SourceTableConnections \<Rightarrow> 'u
     \<Rightarrow> (('d, 'u) Service \<times> 'u) cpp \<times> SourceTableConnections" where
  "Service_ctor api env doc c dir u =
     (case Load doc c dir of (loaded, dir') \<Rightarrow>
        (case CreateMessageParticipant (se_message env) 0 (server_identity c) of
           Inl e \<Rightarrow> Inl e
         | Inr None \<Rightarrow> Inl AssertFailed
         | Inr (Some dp) \<Rightarrow>
             (case CreateServer api env c (service_members loaded dp) of
                Inl e \<Rightarrow> Inl e
              | Inr s1 \<Rightarrow>
                  (case CreateClients env dir' c s1 of
                     Inl e \<Rightarrow> Inl e
                   | Inr s2 \<Rightarrow>
                       (case CreateSubscriptions api env (subscribed_parameters c) (s2, u) of
                          Inl e \<Rightarrow> Inl e
                        | Inr (s3, u') \<Rightarrow>
                            (case CreatePublishers api env (published_parameters c) s3 of
                               Inl e \<Rightarrow> Inl e
                             | Inr s4 \<Rightarrow> Inr (s4, u'))))), dir'))"

text \<open>The destructor releases the shared pointers in this order.\<close>

datatype released = RServer | RPublisher string | RReadClient string | RWriteClient string | RClientParticipant string

definition Service_dtor :: "('d, 'u) Service \<Rightarrow> released list" where
  "Service_dtor s =
     RServer # map (RPublisher \<circ> fst) (m_spPublishers s) @ map (RReadClient \<circ> fst) (m_spReadClients s) @
     map (RWriteClient \<circ> fst) (m_spWriteClients s) @ map (RClientParticipant \<circ> fst) (m_spClientParticipants s)"

section \<open>Lemmas on construction\<close>

lemma is_named_iff: "is_named i infos \<longleftrightarrow> FormatName i \<in> parameter_name ` set infos"
  by (force simp: is_named_def find_Some_iff_ex)

text \<open>Every handle bears the identity it is filed under and uses a participant that exists.\<close>

definition handles_ok :: "('d, 'u) Service \<Rightarrow> bool" where
  "handles_ok s \<longleftrightarrow>
     (\<forall>i h src. smap_find (m_spReadClients s) i = Some (h, src) \<longrightarrow>
        rd_identity h = i \<and> smap_find (m_spClientParticipants s) src \<noteq> None) \<and>
     (\<forall>i h src. smap_find (m_spWriteClients s) i = Some (h, src) \<longrightarrow>
        wr_identity h = i \<and> smap_find (m_spClientParticipants s) src \<noteq> None)"

lemma add_reads_frame:
  "m_spClientParticipants (fold (add_read src) ps s) = m_spClientParticipants s"
  "m_spWriteClients (fold (add_read src) ps s) = m_spWriteClients s"
  "m_spServerParticipant (fold (add_read src) ps s) = m_spServerParticipant s"
  by (induction ps arbitrary: s) (simp_all add: add_read_def)

lemma add_writes_frame:
  "m_spClientParticipants (fold (add_write src) ps s) = m_spClientParticipants s"
  "m_spReadClients (fold (add_write src) ps s) = m_spReadClients s"
  "m_spServerParticipant (fold (add_write src) ps s) = m_spServerParticipant s"
  by (induction ps arbitrary: s) (simp_all add: add_write_def)

lemma add_reads_find:
  "smap_find (m_spReadClients (fold (add_read src) ps s)) i =
     (if is_named i (snd src) then
        (case List.find (\<lambda>p. cp_parameter_id p = i) (rev ps) of
           None \<Rightarrow> smap_find (m_spReadClients s) i
         | Some p \<Rightarrow> Some (\<lparr>rd_identity = i, rd_unit = cp_unit p\<rparr>, fst src))
      else smap_find (m_spReadClients s) i)"
proof (induction ps rule: rev_induct)
  case (snoc p ps)
  then show ?case by (cases "cp_parameter_id p = i") (simp_all add: add_read_def)
qed simp

lemma add_writes_find:
  "smap_find (m_spWriteClients (fold (add_write src) ps s)) i =
     (if is_named i (snd src) then
        (case List.find (\<lambda>p. cp_parameter_id p = i) (rev ps) of
           None \<Rightarrow> smap_find (m_spWriteClients s) i
         | Some p \<Rightarrow> Some (\<lparr>wr_identity = i, wr_unit = cp_unit p\<rparr>, fst src))
      else smap_find (m_spWriteClients s) i)"
proof (induction ps rule: rev_induct)
  case (snoc p ps)
  then show ?case by (cases "cp_parameter_id p = i") (simp_all add: add_write_def)
qed simp

lemma create_source_Inr:
  assumes "create_source env c src s = Inr s'"
  shows "s' = fold (add_write src) (client_write_parameters c) (fold (add_read src) (client_read_parameters c)
    (s\<lparr>m_spClientParticipants := smap_assign (fst src)
         \<lparr>cl_name = server_identity c, cl_service = fst src\<rparr> (m_spClientParticipants s)\<rparr>))"
  using assms by (auto simp: create_source_def Let_def split: sum.splits option.splits)

lemma create_source_reads:
  assumes "create_source env c src s = Inr s'"
  shows "smap_find (m_spReadClients s') i =
     (if is_named i (snd src) then
        (case List.find (\<lambda>p. cp_parameter_id p = i) (rev (client_read_parameters c)) of
           None \<Rightarrow> smap_find (m_spReadClients s) i
         | Some p \<Rightarrow> Some (\<lparr>rd_identity = i, rd_unit = cp_unit p\<rparr>, fst src))
      else smap_find (m_spReadClients s) i)"
  unfolding create_source_Inr [OF assms] add_writes_frame add_reads_find by (simp split: option.split)

lemma create_source_writes:
  assumes "create_source env c src s = Inr s'"
  shows "smap_find (m_spWriteClients s') i =
     (if is_named i (snd src) then
        (case List.find (\<lambda>p. cp_parameter_id p = i) (rev (client_write_parameters c)) of
           None \<Rightarrow> smap_find (m_spWriteClients s) i
         | Some p \<Rightarrow> Some (\<lparr>wr_identity = i, wr_unit = cp_unit p\<rparr>, fst src))
      else smap_find (m_spWriteClients s) i)"
  unfolding create_source_Inr [OF assms] add_writes_find add_reads_frame by (simp split: option.split)

lemma create_source_participants:
  assumes "create_source env c src s = Inr s'"
  shows "m_spClientParticipants s' = smap_assign (fst src)
         \<lparr>cl_name = server_identity c, cl_service = fst src\<rparr> (m_spClientParticipants s)"
  unfolding create_source_Inr [OF assms] add_writes_frame add_reads_frame by simp

lemma create_source_ok:
  assumes "create_source env c src s = Inr s'" "handles_ok s"
  shows "handles_ok s'"
  unfolding handles_ok_def create_source_reads [OF assms(1)] create_source_writes [OF assms(1)]
    create_source_participants [OF assms(1)]
  using assms(2) by (auto simp: handles_ok_def split: if_splits option.splits)

lemma create_sources_ok:
  "create_sources env c srcs s = Inr s' \<Longrightarrow> handles_ok s \<Longrightarrow> handles_ok s'"
  by (induction srcs arbitrary: s) (auto simp: create_source_ok split: sum.splits)

lemma find_rev_ex: "i \<in> f ` set ps \<Longrightarrow> \<exists>p. List.find (\<lambda>p. f p = i) (rev ps) = Some p"
  by (auto simp: find_Some_iff_ex)

text \<open>Handles, once there, stay; and a source that names a configured parameter provides its handle.\<close>

lemma create_sources_reads:
  assumes "create_sources env c srcs s = Inr s'" "i \<in> cp_parameter_id ` set (client_read_parameters c)"
    and "smap_find (m_spReadClients s) i \<noteq> None \<or> (\<exists>src \<in> set srcs. is_named i (snd src))"
  shows "smap_find (m_spReadClients s') i \<noteq> None"
  using assms
proof (induction srcs arbitrary: s)
  case (Cons src srcs)
  then obtain s1 where s1: "create_source env c src s = Inr s1" "create_sources env c srcs s1 = Inr s'"
    by (auto split: sum.splits)
  have "smap_find (m_spReadClients s1) i \<noteq> None \<or> (\<exists>src \<in> set srcs. is_named i (snd src))"
    using Cons.prems(3) find_rev_ex [OF Cons.prems(2)]
    unfolding create_source_reads [OF s1(1)] by (auto split: option.splits)
  then show ?case using Cons.IH [OF s1(2) Cons.prems(2)] by simp
qed simp

lemma create_sources_writes:
  assumes "create_sources env c srcs s = Inr s'" "i \<in> cp_parameter_id ` set (client_write_parameters c)"
    and "smap_find (m_spWriteClients s) i \<noteq> None \<or> (\<exists>src \<in> set srcs. is_named i (snd src))"
  shows "smap_find (m_spWriteClients s') i \<noteq> None"
  using assms
proof (induction srcs arbitrary: s)
  case (Cons src srcs)
  then obtain s1 where s1: "create_source env c src s = Inr s1" "create_sources env c srcs s1 = Inr s'"
    by (auto split: sum.splits)
  have "smap_find (m_spWriteClients s1) i \<noteq> None \<or> (\<exists>src \<in> set srcs. is_named i (snd src))"
    using Cons.prems(3) find_rev_ex [OF Cons.prems(2)]
    unfolding create_source_writes [OF s1(1)] by (auto split: option.splits)
  then show ?case using Cons.IH [OF s1(2) Cons.prems(2)] by simp
qed simp

lemma GetClientConnections_names:
  assumes "smap_inv dir" "FormatName i \<in> set (configured_ids c)"
  shows "\<exists>src \<in> set (GetClientConnections dir c). is_named i (snd src)"
proof -
  obtain s j where "entry_in s j (GetClientConnections dir c)" "parameter_name j = FormatName i"
    using GetClientConnections_covers [OF assms] by blast
  then obtain infos where "(s, infos) \<in> set (GetClientConnections dir c)" "j \<in> set infos"
    using smap_find_in_set [OF GetClientConnections_inv [of dir c]] by (auto simp: entry_in_def)
  then show ?thesis
    using \<open>parameter_name j = FormatName i\<close> by (metis imageI is_named_iff snd_conv)
qed

text \<open>The later phases leave the client handles alone.\<close>

lemma CreateSubscriptions_frame:
  "CreateSubscriptions api env ps su = Inr su' \<Longrightarrow>
     m_spReadClients (fst su') = m_spReadClients (fst su) \<and> m_spWriteClients (fst su') = m_spWriteClients (fst su) \<and>
     m_spClientParticipants (fst su') = m_spClientParticipants (fst su) \<and>
     m_spServerParticipant (fst su') = m_spServerParticipant (fst su)"
  by (induction ps arbitrary: su) (auto split: sum.splits)

lemma CreatePublishers_frame:
  "CreatePublishers api env ps s = Inr s' \<Longrightarrow>
     m_spReadClients s' = m_spReadClients s \<and> m_spWriteClients s' = m_spWriteClients s \<and>
     m_spClientParticipants s' = m_spClientParticipants s \<and> m_spServerParticipant s' = m_spServerParticipant s"
  by (induction ps arbitrary: s) (auto split: sum.splits)

lemma create_sources_frame:
  "create_sources env c srcs s = Inr s' \<Longrightarrow> m_spServerParticipant s' = m_spServerParticipant s"
proof (induction srcs arbitrary: s)
  case (Cons src srcs)
  have "create_source env c src s = Inr s1 \<Longrightarrow> m_spServerParticipant s1 = m_spServerParticipant s" for s1
    using create_source_Inr [of env c src s s1] by (simp add: add_reads_frame add_writes_frame)
  then show ?case using Cons by (fastforce split: sum.splits)
qed simp

text \<open>The phases of a constructor that returned.\<close>

lemma Service_ctor_phases:
  assumes "Service_ctor api env doc c dir u = (Inr (s, u'), dir')"
  shows "\<exists>loaded dp s1 s2 s3. dir' = LoadConnections doc dir \<and>
    CreateServer api env c (service_members loaded dp) = Inr s1 \<and> CreateClients env dir' c s1 = Inr s2 \<and>
    CreateSubscriptions api env (subscribed_parameters c) (s2, u) = Inr (s3, u') \<and>
    CreatePublishers api env (published_parameters c) s3 = Inr s"
  using assms unfolding Service_ctor_def Load_def Let_def
  by (auto split: sum.splits option.splits prod.splits) blast

lemma service_members_simps [simp]:
  "m_spReadClients (service_members l dp) = []" "m_spWriteClients (service_members l dp) = []"
  "m_spServerParticipant (service_members l dp) = None" "m_spPublishers (service_members l dp) = []"
  by (simp_all add: service_members_def)

lemma CreateServer_frame:
  "CreateServer api env c s = Inr s' \<Longrightarrow>
     m_spReadClients s' = m_spReadClients s \<and> m_spWriteClients s' = m_spWriteClients s \<and>
     m_spPublishers s' = m_spPublishers s \<and>
     (m_spServerParticipant s' = None \<longleftrightarrow>
        m_spServerParticipant s = None \<and> server_write_parameters c = [] \<and> server_read_parameters c = [])"
  by (auto simp: CreateServer_def Let_def split: sum.splits option.splits if_splits)

text \<open>Construction when every creation call of Fast DDS succeeds.\<close>

lemma respond_map:
  "respond api p r = map_prod (map_sum id (map_option (\<lambda>d. deferred_reply api d))) id r"
  by (cases r; cases "fst r")
    (auto simp: respond_def ReplySuccess_def deferred_reply_def with_info_def pm_data_of_def Let_def split: option.splits)

lemma respond_error: "map_prod (map_sum id f) id (Inl e, u) = (Inl e, u)"
  by simp

definition env_ok :: "service_env \<Rightarrow> bool" where
  "env_ok env \<longleftrightarrow>
     ce_participant (se_message env) \<and> ce_entity (se_message env) \<and> ce_topic_created (se_message env) \<and>
     ce_endpoint (se_message env) \<and> fd_participant (se_rpc env) \<and> fd_register_type (se_rpc env) \<and>
     fd_service (se_rpc env) \<and> fd_endpoint (se_rpc env)"

lemma CreateServer_succeeds: "env_ok env \<Longrightarrow> \<exists>s'. CreateServer api env c s = Inr s'"
  by (auto simp: CreateServer_def CreateServerParticipant_def ServerRequestHandler_ctor_def ServerRpcStub_ctor_def
      RequestsServerLogic_ctor_def Server_ctor_def factory_catch_def env_ok_def Let_def)

lemma create_sources_succeeds: "env_ok env \<Longrightarrow> \<exists>s'. create_sources env c srcs s = Inr s'"
proof (induction srcs arbitrary: s)
  case (Cons src srcs)
  have "\<exists>s1. create_source env c src s = Inr s1"
    using Cons.prems by (simp add: create_source_def CreateClientParticipant_def ClientRpcStub_ctor_def
        RequestsClient_ctor_def Client_ctor_def factory_catch_def env_ok_def Let_def)
  then show ?case using Cons by auto
qed simp

lemma CreateSubscriptions_succeeds: "env_ok env \<Longrightarrow> \<exists>su'. CreateSubscriptions api env ps su = Inr su'"
proof (induction ps arbitrary: su)
  case (Cons p ps)
  have "\<exists>reader dp sp u. SubscribeParameter_ctor api (se_message env) (se_ports env) [] [] p
      (Some (m_spBroadcastParticipant (fst su))) (snd su) = Inr (reader, dp, sp, u)"
    using Cons.prems by (simp add: SubscribeParameter_ctor_def MessageParticipant_CreateReader_def stub_CreateReader_def
        MessageReader_Create_def MessageReader_ctor_def MessageReader_SetDependency_def topic_available_def env_ok_def Let_def)
  then show ?case using Cons by auto
qed simp

lemma CreatePublishers_succeeds: "env_ok env \<Longrightarrow> \<exists>s'. CreatePublishers api env ps s = Inr s'"
proof (induction ps arbitrary: s)
  case (Cons p ps)
  have "\<exists>pp dp. PublishParameter_ctor api (se_message env) [] (se_publish env) p (Some (m_spBroadcastParticipant s)) = Inr (pp, dp)"
    using Cons.prems by (simp add: PublishParameter_ctor_def MessageParticipant_CreateWriter_def stub_CreateWriter_def
        MessageWriter_Create_def MessageWriter_ctor_def MessageWriter_SetDependency_def topic_available_def env_ok_def Let_def)
  then show ?case using Cons by auto
qed simp

lemma Service_ctor_success:
  assumes "env_ok env"
  shows "\<exists>s u'. Service_ctor api env doc c dir u = (Inr (s, u'), LoadConnections doc dir)"
proof -
  have "CreateMessageParticipant (se_message env) 0 (server_identity c) =
      Inr (Some \<lparr>dp_name = server_identity c, dp_domain_id = 0, dp_pPublisher = False, dp_pSubscriber = False\<rparr>)"
    using assms by (simp add: CreateMessageParticipant_def DomainParticipantMessageStub_ctor_def
        MessageParticipant_ctor_def factory_catch_def env_ok_def)
  moreover obtain s1 where "CreateServer api env c (service_members (ValidateConnections (LoadConnections doc dir) c)
      \<lparr>dp_name = server_identity c, dp_domain_id = 0, dp_pPublisher = False, dp_pSubscriber = False\<rparr>) = Inr s1"
    using CreateServer_succeeds [OF assms] by blast
  moreover obtain s2 where "CreateClients env (LoadConnections doc dir) c s1 = Inr s2"
    using create_sources_succeeds [OF assms, of c "GetClientConnections (LoadConnections doc dir) c" s1]
    by (auto simp: CreateClients_def)
  moreover obtain s3 u' where "CreateSubscriptions api env (subscribed_parameters c) (s2, u) = Inr (s3, u')"
    using CreateSubscriptions_succeeds [OF assms] by (metis surj_pair)
  moreover obtain s4 where "CreatePublishers api env (published_parameters c) s3 = Inr s4"
    using CreatePublishers_succeeds [OF assms] by blast
  ultimately show ?thesis by (simp add: Service_ctor_def Load_def Let_def)
qed

definition ex_env :: service_env where
  "ex_env = \<lparr>se_message = \<lparr>ce_participant = True, ce_entity = True, ce_topic_found = False, ce_topic_created = True,
       ce_endpoint = True\<rparr>,
     se_rpc = \<lparr>fd_participant = True, fd_register_type = True, fd_service = True, fd_endpoint = True\<rparr>,
     se_ports = \<lparr>portBase = 7400, domainIDGain = 250, offsetd2 = 1\<rparr>, se_publish = RETCODE_OK\<rparr>"

lemma ex_env_ok: "env_ok ex_env"
  by (simp add: env_ok_def ex_env_def)

lemma configured_handles:
  assumes "Service_ctor api env doc c dir u = (Inr (s, u'), dir')" "smap_inv dir"
  shows "(\<forall>p \<in> set (client_read_parameters c). \<exists>h src. RetrieveReadInstance (cp_parameter_id p) s = Inr (h, src) \<and>
      rd_identity h = cp_parameter_id p \<and> smap_find (m_spClientParticipants s) src \<noteq> None) \<and>
    (\<forall>p \<in> set (client_write_parameters c). \<exists>h src. RetrieveWriteInstance (cp_parameter_id p) s = Inr (h, src) \<and>
      wr_identity h = cp_parameter_id p \<and> smap_find (m_spClientParticipants s) src \<noteq> None)"
proof -
  from Service_ctor_phases [OF assms(1)] obtain l dp s1 s2 s3 where
    d: "dir' = LoadConnections doc dir"
    and ph: "CreateServer api env c (service_members l dp) = Inr s1" "CreateClients env dir' c s1 = Inr s2"
      "CreateSubscriptions api env (subscribed_parameters c) (s2, u) = Inr (s3, u')"
      "CreatePublishers api env (published_parameters c) s3 = Inr s" by metis
  have same: "m_spReadClients s = m_spReadClients s2" "m_spWriteClients s = m_spWriteClients s2"
    "m_spClientParticipants s = m_spClientParticipants s2"
    using CreateSubscriptions_frame [OF ph(3)] CreatePublishers_frame [OF ph(4)] by simp_all
  have srcs: "create_sources env c (GetClientConnections dir' c) s1 = Inr s2"
    using ph(2) by (simp add: CreateClients_def)
  have "handles_ok s1" using CreateServer_frame [OF ph(1)] by (simp add: handles_ok_def)
  then have ok: "handles_ok s2" using create_sources_ok [OF srcs] by simp
  have inv: "smap_inv dir'" using d assms(2) by (simp add: LoadConnections_inv)
  have "smap_find (m_spReadClients s2) i \<noteq> None" if "i \<in> cp_parameter_id ` set (client_read_parameters c)" for i
    using create_sources_reads [OF srcs that] GetClientConnections_names [OF inv, of i c] that
    by (auto simp: configured_ids_def)
  moreover have "smap_find (m_spWriteClients s2) i \<noteq> None" if "i \<in> cp_parameter_id ` set (client_write_parameters c)" for i
    using create_sources_writes [OF srcs that] GetClientConnections_names [OF inv, of i c] that
    by (auto simp: configured_ids_def)
  ultimately show ?thesis
    using ok unfolding handles_ok_def same RetrieveReadInstance_def RetrieveWriteInstance_def retrieve_def
    by (fastforce simp: image_iff)
qed

section \<open>Properties\<close>

text \<open>
C18: A service that has been constructed hands out a handle for every parameter its configuration
reads or writes: retrieval succeeds, the handle bears the identity asked for, and the client
participant of its source exists.
\<close>

theorem configured_handles_exist:
  assumes "Service_ctor api env doc c dir u = (Inr (s, u'), dir')" "smap_inv dir"
  shows "(\<forall>p \<in> set (client_read_parameters c). \<exists>h src. RetrieveReadInstance (cp_parameter_id p) s = Inr (h, src) \<and>
      rd_identity h = cp_parameter_id p \<and> smap_find (m_spClientParticipants s) src \<noteq> None) \<and>
    (\<forall>p \<in> set (client_write_parameters c). \<exists>h src. RetrieveWriteInstance (cp_parameter_id p) s = Inr (h, src) \<and>
      wr_identity h = cp_parameter_id p \<and> smap_find (m_spClientParticipants s) src \<noteq> None)"
  using assms by (rule configured_handles)

theorem configured_handles_exist_witness:
  "\<exists>s h src. RetrieveReadInstance ''Engine Speed'' (s :: (cdata, unit) Service) = Inr (h, src) \<and> rd_identity h = ''Engine Speed''"
proof -
  let ?c = "(ParameterService_of ''Display'' :: (cdata, unit) ParameterService)
    \<lparr>client_read_parameters := [\<lparr>cp_parameter_id = ''Engine Speed'', cp_unit = 3\<rparr>]\<rparr>"
  obtain s u' where "Service_ctor concrete_api ex_env None ?c [] () = (Inr (s, u'), LoadConnections None [])"
    using Service_ctor_success [OF ex_env_ok, of concrete_api None ?c "[]" "()"] by blast
  from configured_handles_exist [OF this smap_inv_Nil] show ?thesis by auto
qed

text \<open>
  \<open>Reply\<close> on a service without server actions dereferences the null server participant, since
the constructor creates no server for it.
\<close>

theorem Reply_without_server:
  assumes "Service_ctor api env doc c dir u = (Inr (s, u'), dir')"
  shows "Service_Reply api key d s = Inl NullDereference \<longleftrightarrow>
    server_write_parameters c = [] \<and> server_read_parameters c = []"
proof -
  from Service_ctor_phases [OF assms] obtain l dp s1 s2 s3 where
    ph: "CreateServer api env c (service_members l dp) = Inr s1" "CreateClients env dir' c s1 = Inr s2"
      "CreateSubscriptions api env (subscribed_parameters c) (s2, u) = Inr (s3, u')"
      "CreatePublishers api env (published_parameters c) s3 = Inr s" by metis
  have "m_spServerParticipant s = m_spServerParticipant s1"
    using CreateSubscriptions_frame [OF ph(3)] CreatePublishers_frame [OF ph(4)]
      create_sources_frame [of env c "GetClientConnections dir' c" s1 s2] ph(2) by (simp add: CreateClients_def)
  then have "m_spServerParticipant s = None \<longleftrightarrow> server_write_parameters c = [] \<and> server_read_parameters c = []"
    using CreateServer_frame [OF ph(1)] by simp
  moreover have "Service_Reply api key d s = Inl NullDereference \<longleftrightarrow> m_spServerParticipant s = None"
    by (auto simp: Service_Reply_def Server_Reply_def handler_Reply_def promise_set_value_def split: mw_split)
  ultimately show ?thesis by simp
qed

theorem Reply_without_server_witness:
  "\<exists>s. Service_Reply concrete_api 1 (QUALITY_GOOD, []) (s :: (cdata, unit) Service) = Inl NullDereference"
proof -
  obtain s u' where "Service_ctor concrete_api ex_env None (ParameterService_of ''Display'' :: (cdata, unit) ParameterService) [] ()
      = (Inr (s, u'), LoadConnections None [])"
    using Service_ctor_success [OF ex_env_ok, of concrete_api None
        "ParameterService_of ''Display'' :: (cdata, unit) ParameterService" "[]" "()"] by blast
  from Reply_without_server [OF this, of 1 "(QUALITY_GOOD, [])"] show ?thesis
    by (auto simp: ParameterService_of_def)
qed

text \<open>
C19: When the creation calls of Fast DDS succeed, the constructor returns a service for every
configuration, whatever the outcome of the validation.
\<close>

theorem Service_ctor_returns:
  assumes "env_ok env"
  shows "\<exists>s u'. Service_ctor api env doc c dir u = (Inr (s, u'), LoadConnections doc dir)"
  using assms by (rule Service_ctor_success)

theorem Service_ctor_returns_witness:
  "\<exists>s u' dir. Service_ctor concrete_api ex_env None (ParameterService_of ''X'' :: (cdata, unit) ParameterService) [] () =
     (Inr (s, u'), dir)"
  using Service_ctor_returns [OF ex_env_ok, of concrete_api None
      "ParameterService_of ''X'' :: (cdata, unit) ParameterService" "[]" "()"] by blast

text \<open>
  How a read or write request is answered: with the action's data, not yet when the action has
none, with not-found and quality not-received when no action is registered for the identity, with
a format error that echoes the request when it does not parse; an exception of the action is passed
on to the handler.
\<close>

theorem request_answers:
  "ProcessReadRequest api s key q u =
     (if \<not> fst (pb_parse_Parameter api (rq_serialized_protobuf q)) then (Inr (Some (ReplyBadFormat q)), u)
      else let p = snd (pb_parse_Parameter api (rq_serialized_protobuf q)) in
        case smap_find (m_onReadActions s) (pm_identity p) of
          None \<Rightarrow> (Inr (Some (ReplyNotFound api p ('' READ action not found for ['' @ pm_identity p @ '']''))), u)
        | Some None \<Rightarrow> (Inl bad_function_call, u)
        | Some (Some action) \<Rightarrow>
            map_prod (map_sum id (map_option (\<lambda>d. deferred_reply api d))) id (action key (pm_identity p) u)) \<and>
   ProcessWriteRequest api s key q u =
     (if \<not> fst (pb_parse_Parameter api (rq_serialized_protobuf q)) then (Inr (Some (ReplyBadFormat q)), u)
      else let p = snd (pb_parse_Parameter api (rq_serialized_protobuf q)) in
        case smap_find (m_onWriteActions s) (pm_identity p) of
          None \<Rightarrow> (Inr (Some (ReplyNotFound api p ('' WRITE action not found for ['' @ pm_identity p @ '']''))), u)
        | Some None \<Rightarrow> (Inl bad_function_call, u)
        | Some (Some action) \<Rightarrow>
            map_prod (map_sum id (map_option (\<lambda>d. deferred_reply api d))) id
              (action key (pm_identity p) (pm_data_of api p) u))"
  unfolding ProcessReadRequest_def ProcessWriteRequest_def Let_def respond_map
  by (auto simp: respond_map respond_error split: prod.splits option.splits)

end
