(* ===== verification/Diagnostics.thy ===== *)
theory Diagnostics
  imports Rpc_Client Message_Pubsub
begin

text \<open>
  The diagnostics service (\<open>lib/diagnostics/\<close>): a server publishes its active codes and answers
  requests for additional information, clients subscribe and ask.  The generated messages \<open>Codes\<close> and
  \<open>AdditionalInformation\<close> are not part of the repository: \<open>'c\<close> and \<open>'a\<close> are their types, and the record
  \<open>diag_api\<close> holds what the code uses of them.
\<close>

section \<open>Messages and constants\<close>

record ('c, 'a) diag_api =
  dg_ser_Codes :: "'c \<Rightarrow> bytes"
  dg_parse_Codes :: "bytes \<Rightarrow> bool \<times> 'c"
  dg_ser_Info :: "'a \<Rightarrow> bytes"
  dg_parse_Info :: "bytes \<Rightarrow> bool \<times> 'a"
  dg_Info_default :: 'a
  dg_set_code_key :: "u64 \<Rightarrow> 'a \<Rightarrow> 'a"

definition diag_laws :: "('c, 'a) diag_api \<Rightarrow> bool" where
  "diag_laws api \<longleftrightarrow>
     (\<forall>c. dg_parse_Codes api (dg_ser_Codes api c) = (True, c)) \<and>
     (\<forall>a. dg_parse_Info api (dg_ser_Info api a) = (True, a))"

definition connection_name :: string where
  "connection_name = ''Diagnostics''"

definition additionalinformation_connection_name :: string where
  "additionalinformation_connection_name = ''Diagnostics AdditionalInformation''"

datatype AdditionalInformationGroup = Group2

section \<open>Server\<close>

record 'w CodeServer =
  cs_writer :: MessageWriter
  cs_server :: 'w
  cs_running :: bool

definition CodeServer_Publish ::
  "('c, 'a) diag_api \<Rightarrow> retcode \<Rightarrow> 'c \<Rightarrow> 'w CodeServer \<Rightarrow> 'w CodeServer" where
  "CodeServer_Publish api ret codes cs =
     cs\<lparr>cs_writer := snd (MessageWriter_Publish ret (dg_ser_Codes api codes) (cs_writer cs))\<rparr>"

definition CodeServer_ctor ::
  "('c, 'a) diag_api \<Rightarrow> retcode \<Rightarrow> 'c \<Rightarrow> MessageWriter option \<Rightarrow> 'w option \<Rightarrow> 'w CodeServer cpp" where
  "CodeServer_ctor api ret current writer server =
     (case writer of
        None \<Rightarrow> Inl AssertFailed
      | Some w \<Rightarrow>
          (case server of
             None \<Rightarrow> Inl AssertFailed
           | Some sv \<Rightarrow>
               Inr (CodeServer_Publish api ret current \<lparr>cs_writer = w, cs_server = sv, cs_running = True\<rparr>)))"

definition CodeServer_dtor :: "'w CodeServer \<Rightarrow> 'w CodeServer" where
  "CodeServer_dtor cs = cs\<lparr>cs_running := False\<rparr>"

definition CodeServer_reply :: "('c, 'a) diag_api \<Rightarrow> 'a \<Rightarrow> Reply" where
  "CodeServer_reply api data =
     (set_status_code STATUS_CODE_SUCCESS Reply_default)\<lparr>rp_serialized_protobuf := dg_ser_Info api data\<rparr>"

definition CodeServer_Reply ::
  "('c, 'a) diag_api \<Rightarrow> u16 \<Rightarrow> 'a \<Rightarrow> ServerRequestHandler \<Rightarrow> ServerRequestHandler cpp" where
  "CodeServer_Reply api key data h = Server_Reply key (CodeServer_reply api data) h"

text \<open>
  \<open>Service::RequestHandler\<close> with the request action of the user; the key is passed on as 64 bits.
\<close>

type_synonym ('a, 'u) OnInfoRequest = "u64 \<Rightarrow> 'a \<Rightarrow> 'u \<Rightarrow> 'a option cpp \<times> 'u"

definition RequestHandler ::
  "('c, 'a) diag_api \<Rightarrow> ('a, 'u) OnInfoRequest \<Rightarrow> u64 \<Rightarrow> Request \<Rightarrow> 'u \<Rightarrow> Reply option cpp \<times> 'u" where
  "RequestHandler api m_onRequest key request u =
     (case dg_parse_Info api (rq_serialized_protobuf request) of
        (True, requestProtobuf) \<Rightarrow>
          (case m_onRequest key requestProtobuf u of
             (Inl e, u') \<Rightarrow> (Inl e, u')
           | (Inr (Some responseProtobuf), u') \<Rightarrow>
               (Inr (Some ((set_status_code STATUS_CODE_SUCCESS Reply_default)
                  \<lparr>rp_serialized_protobuf := dg_ser_Info api responseProtobuf\<rparr>)), u')
           | (Inr None, u') \<Rightarrow> (Inr None, u'))
      | (False, _) \<Rightarrow>
          (Inr (Some ((set_status_message ''Request could not be parsed.''
              (set_status_code STATUS_CODE_REQUEST_FORMAT_ERROR Reply_default))
              \<lparr>rp_serialized_protobuf := rq_serialized_protobuf request\<rparr>)), u))"

text \<open>The service keeps one request action, which the callbacks of every server it made refer to.\<close>

record ('a, 'u) DiagService =
  ds_participant :: DomainParticipantMessageStub
  ds_onRequest :: "('a, 'u) OnInfoRequest option"

definition DiagService_ctor :: "DomainParticipantMessageStub option \<Rightarrow> ('a, 'u) DiagService cpp" where
  "DiagService_ctor participant =
     (case participant of None \<Rightarrow> Inl AssertFailed
      | Some dp \<Rightarrow> Inr \<lparr>ds_participant = dp, ds_onRequest = None\<rparr>)"

definition diag_callbacks :: "('c, 'a) diag_api \<Rightarrow> ('a, 'u) DiagService \<Rightarrow> 'u callbacks" where
  "diag_callbacks api ds =
     \<lparr>m_readCallback = (\<lambda>key request u.
        case ds_onRequest ds of
          None \<Rightarrow> (Inl (RuntimeError ''bad_function_call''), u)
        | Some f \<Rightarrow> RequestHandler api f (ucast key) request u),
      m_writeCallback = (\<lambda>key request u. (Inr (Some Reply_default), u))\<rparr>"

definition CreateCodeServer ::
  "('c, 'a) diag_api \<Rightarrow> creation_env \<Rightarrow> fastdds_env \<Rightarrow> retcode \<Rightarrow> 'c \<Rightarrow> ('a, 'u) OnInfoRequest option
     \<Rightarrow> ('a, 'u) DiagService \<Rightarrow> ((nat, nat) Server CodeServer \<times> ServerRequestHandler \<times> ('a, 'u) DiagService) cpp" where
  "CreateCodeServer api cenv fenv ret current action ds =
     (case action of
        None \<Rightarrow> Inl AssertFailed
      | Some f \<Rightarrow>
          (let ds = ds\<lparr>ds_onRequest := Some f\<rparr>
           in case CreateServerParticipant fenv additionalinformation_connection_name
                     (Some (m_readCallback (diag_callbacks api ds))) (Some (m_writeCallback (diag_callbacks api ds)))
                     :: ((nat, nat) Server \<times> 'u callbacks \<times> ServerRequestHandler) option cpp of
                Inl e \<Rightarrow> Inl e
              | Inr None \<Rightarrow> Inl AssertFailed
              | Inr (Some (sv, cbs, h)) \<Rightarrow>
                  (case MessageParticipant_CreateWriter cenv connection_name [] (ds_participant ds) of
                     Inl e \<Rightarrow> Inl e
                   | Inr ((w, _), dp) \<Rightarrow>
                       (case CodeServer_ctor api ret current (Some w) (Some (Server_Run sv)) of
                          Inl e \<Rightarrow> Inl e
                        | Inr cs \<Rightarrow> Inr (cs, h, ds\<lparr>ds_participant := dp\<rparr>)))))"

section \<open>Client\<close>

text \<open>
  \<open>onSubscription\<close> and \<open>onDisconnect\<close> of \<open>CreateCodeClient\<close>: the user's callbacks are not protected,
  and a message that does not parse is passed on as far as it was parsed.
\<close>

definition code_onSubscription ::
  "('c, 'a) diag_api \<Rightarrow> ('c \<Rightarrow> 'u \<Rightarrow> 'u cpp) \<Rightarrow> bytes \<Rightarrow> 'u \<Rightarrow> 'u cpp" where
  "code_onSubscription api callback serialized u = callback (snd (dg_parse_Codes api serialized)) u"

record ('a, 'f, 'u) CodeClient =
  cc_reader :: "'u MessageReader"
  cc_client :: "'f Client"

definition CreateCodeClient ::
  "('c, 'a) diag_api \<Rightarrow> creation_env \<Rightarrow> fastdds_env \<Rightarrow> port_parameters
     \<Rightarrow> ('c \<Rightarrow> 'u \<Rightarrow> 'u cpp) option \<Rightarrow> ('u \<Rightarrow> 'u cpp) option \<Rightarrow> ('a, 'u) DiagService \<Rightarrow> 'u
     \<Rightarrow> (('a, 'f, 'u) CodeClient \<times> ('a, 'u) DiagService \<times> 'u) cpp" where
  "CreateCodeClient api cenv fenv pp callback disconnect ds u =
     (case (callback, disconnect) of
        (Some f, Some g) \<Rightarrow>
          (case CreateClientParticipant fenv connection_name :: 'f Client option cpp of
             Inl e \<Rightarrow> Inl e
           | Inr None \<Rightarrow> Inl AssertFailed
           | Inr (Some client) \<Rightarrow>
               (case MessageParticipant_CreateReader cenv pp connection_name
                       (Some (code_onSubscription api f)) (Some g) [] [] (ds_participant ds) u of
                  Inl e \<Rightarrow> Inl e
                | Inr ((r, _), dp, u') \<Rightarrow>
                    Inr (\<lparr>cc_reader = r, cc_client = client\<rparr>, ds\<lparr>ds_participant := dp\<rparr>, u')))
      | _ \<Rightarrow> Inl AssertFailed)"

text \<open>
  The request for one group.  \<open>request.group_2()\<close> is the reading accessor of the field: it selects
  nothing in the request.
\<close>

definition info_request :: "('c, 'a) diag_api \<Rightarrow> u64 \<Rightarrow> AdditionalInformationGroup \<Rightarrow> 'a" where
  "info_request api codeKey grp =
     (let request = dg_set_code_key api codeKey (dg_Info_default api)
      in case grp of Group2 \<Rightarrow> request)"

definition info_complete :: "('c, 'a) diag_api \<Rightarrow> Reply \<Rightarrow> 'a" where
  "info_complete api reply =
     (if status_code (rp_status reply) = STATUS_CODE_SUCCESS then
        (case dg_parse_Info api (rp_serialized_protobuf reply) of
           (parsed, data) \<Rightarrow> if parsed then data else dg_Info_default api)
      else dg_Info_default api)"

text \<open>The callbacks called at once, and the client with the requests it was given.\<close>

definition RequestAdditionalInformation ::
  "('c, 'a) diag_api \<Rightarrow> u64 \<Rightarrow> AdditionalInformationGroup list \<Rightarrow> 'f option \<Rightarrow> 'f Client
     \<Rightarrow> (('f \<times> 'a) list \<times> 'f Client) cpp" where
  "RequestAdditionalInformation api codeKey groups callback c =
     (case callback of
        None \<Rightarrow> Inl AssertFailed
      | Some f \<Rightarrow>
          Inr (if groups = [] then [(f, dg_Info_default api)] else [],
               fold (\<lambda>grp. Client_Read (dg_ser_Info api (info_request api codeKey grp)) f) groups c))"

section \<open>Properties\<close>

lemma fold_submits:
  "fold (\<lambda>grp. Client_Read (b grp) f) groups c = fold (\<lambda>(b, cb). Client_submit OpRead b cb) (map (\<lambda>g. (b g, f)) groups) c"
  by (induction groups arbitrary: c) (simp_all add: Client_submit_def)

text \<open>
  A request for additional information calls the user back exactly once per group, or once in
all when no group is given, provided the client's pool runs; the groups themselves make no
difference to what is requested, since every request carries only the code key.
\<close>

theorem additional_information_callbacks:
  fixes f :: 'f
  assumes "RequestAdditionalInformation api codeKey groups (Some f)
      \<lparr>c_name = name, c_pool = ThreadPool_new, c_completed = []\<rparr> = Inr (now, c)"
    and "length groups \<le> length results"
  shows "length now + length (c_completed (fold (Client_run_task rpc_what) (map (Pair 0) results) c)) =
      (if groups = [] then 1 else length groups) \<and>
    (\<forall>grp. info_request api codeKey grp = dg_set_code_key api codeKey (dg_Info_default api))"
proof -
  let ?c0 = "\<lparr>c_name = name, c_pool = ThreadPool_new, c_completed = []\<rparr> :: 'f Client"
  let ?qs = "map (\<lambda>g. (dg_ser_Info api (info_request api codeKey g), f)) groups"
  have c: "c = fold (\<lambda>(b, cb). Client_submit OpRead b cb) ?qs ?c0"
    and now: "length now = (if groups = [] then 1 else 0)"
    using assms(1) by (auto simp: RequestAdditionalInformation_def fold_submits)
  have "image_mset fst (mset (c_completed (fold (Client_run_task rpc_what) (map (Pair 0) results) c)))
      = image_mset snd (mset ?qs)"
    unfolding c using assms(2)
    by (intro rd.all_called_once)
      (simp_all add: client_live_def client_waiting_def ThreadPool_new_def list_all_iff)
  then have "size (mset (c_completed (fold (Client_run_task rpc_what) (map (Pair 0) results) c))) = size (mset ?qs)"
    by (metis size_image_mset)
  then show ?thesis using now by (auto simp: info_request_def Let_def split: AdditionalInformationGroup.split)
qed

theorem additional_information_callbacks_witness:
  "\<exists>now c. RequestAdditionalInformation
      \<lparr>dg_ser_Codes = (\<lambda>c::unit. []), dg_parse_Codes = (\<lambda>b. (True, ())), dg_ser_Info = (\<lambda>a::u64. [ucast a]),
       dg_parse_Info = (\<lambda>b. (True, 0)), dg_Info_default = 0, dg_set_code_key = (\<lambda>k a. k)\<rparr> 7 [Group2] (Some ''f'')
      \<lparr>c_name = [], c_pool = ThreadPool_new, c_completed = []\<rparr> = Inr (now, c) \<and>
    length now + length (c_completed (fold (Client_run_task (\<lambda>_. [])) (map (Pair 0) [(True, None)]) c)) = 1"
proof -
  let ?api = "\<lparr>dg_ser_Codes = (\<lambda>c::unit. []), dg_parse_Codes = (\<lambda>b. (True, ())), dg_ser_Info = (\<lambda>a::u64. [ucast a]),
       dg_parse_Info = (\<lambda>b. (True, 0)), dg_Info_default = 0, dg_set_code_key = (\<lambda>k a. k)\<rparr>"
  obtain now c where "RequestAdditionalInformation ?api 7 [Group2] (Some ''f'')
      \<lparr>c_name = [], c_pool = ThreadPool_new, c_completed = []\<rparr> = Inr (now, c)"
    by (simp add: RequestAdditionalInformation_def)
  from this additional_information_callbacks [OF this, of "[(True, None)]" "\<lambda>_. []"] show ?thesis by auto
qed

text \<open>
C29: What the diagnostics server answers reaches the client: for a request the action answers at
once, the client's callback gets exactly the action's message, and any failure on the way gives the
empty message.
\<close>

theorem additional_information_exchange:
  assumes "diag_laws api" "ds_onRequest ds = Some f"
    and "f (ucast (m_requestKeyCounter h + 1)) (info_request api codeKey grp) u = (Inr (Some info), u')"
    and "dg_ser_Info api (info_request api codeKey grp) \<noteq> []"
    and "length (dg_ser_Info api info) \<le> n_MaxPayloadByteCount"
    and "handler_Read show_guid (diag_callbacks api ds) client
        \<lparr>protobuf = dg_ser_Info api (info_request api codeKey grp)\<rparr> arrivals (h, u) = (out, h', v)"
  shows "info_complete api (task_reply rpc_what True (Some (client_view out)) sent) = info \<and> v = u' \<and>
    info_complete api (task_reply rpc_what True None sent) = dg_Info_default api \<and>
    info_complete api (task_reply rpc_what True (Some (Inl e)) sent) = dg_Info_default api \<and>
    info_complete api (task_reply rpc_what False x sent) = dg_Info_default api"
proof -
  let ?r = "(set_status_code STATUS_CODE_SUCCESS Reply_default)\<lparr>rp_serialized_protobuf := dg_ser_Info api info\<rparr>"
  let ?q = "dg_ser_Info api (info_request api codeKey grp)"
  have cb: "m_readCallback (diag_callbacks api ds) (m_requestKeyCounter h + 1) \<lparr>rq_serialized_protobuf = ?q\<rparr> u
      = (Inr (Some ?r), u')"
    using assms(1-3) by (simp add: diag_callbacks_def RequestHandler_def diag_laws_def)
  have "out = check_size show_guid client \<lparr>protobuf = ?q\<rparr> ?r" "v = u'"
    using ProcessRequest_immediate_eq [of "\<lparr>protobuf = ?q\<rparr>" "\<lambda>k r. m_readCallback (diag_callbacks api ds) k r" h u ?r u'
        show_guid client arrivals] assms(4,6) cb by (simp_all add: handler_Read_def)
  then have "out = Inr \<lparr>protobuf = dg_ser_Info api info\<rparr>" "v = u'"
    using assms(5) by (simp_all add: check_size_def)
  then show ?thesis
    using assms(1) by (auto simp: info_complete_def task_reply_def diag_laws_def Let_def split: option.splits sum.splits)
qed

definition ex_diag_api :: "(bytes, bytes) diag_api" where
  "ex_diag_api = \<lparr>dg_ser_Codes = id, dg_parse_Codes = Pair True, dg_ser_Info = id, dg_parse_Info = Pair True,
     dg_Info_default = [0], dg_set_code_key = (\<lambda>k a. [ucast k])\<rparr>"

theorem additional_information_exchange_witness:
  "info_complete ex_diag_api (task_reply (\<lambda>_. []) True (Some (client_view (fst (handler_Read (\<lambda>_::unit. [])
      (diag_callbacks ex_diag_api \<lparr>ds_participant = \<lparr>dp_name = [], dp_domain_id = 0, dp_pPublisher = False, dp_pSubscriber = False\<rparr>, ds_onRequest = Some (\<lambda>k a u. (Inr (Some (a @ [9])), u + 1))\<rparr>) ()
      \<lparr>protobuf = [7]\<rparr> [] (handler_initial, 0 :: nat))))) []) = [7, 9]"
proof -
  let ?ds = "\<lparr>ds_participant = \<lparr>dp_name = [], dp_domain_id = 0, dp_pPublisher = False, dp_pSubscriber = False\<rparr>, ds_onRequest = Some (\<lambda>k a u. (Inr (Some (a @ [9])), u + 1))\<rparr> :: (bytes, nat) DiagService"
  let ?run = "handler_Read (\<lambda>_::unit. []) (diag_callbacks ex_diag_api ?ds) ()
      \<lparr>protobuf = dg_ser_Info ex_diag_api (info_request ex_diag_api 7 Group2)\<rparr> [] (handler_initial, 0)"
  obtain out h v where run: "?run = (out, h, v)" by (cases ?run)
  have req: "dg_ser_Info ex_diag_api (info_request ex_diag_api 7 Group2) = [7]"
    by (simp add: ex_diag_api_def info_request_def Let_def)
  have "info_complete ex_diag_api (task_reply (\<lambda>_. []) True (Some (client_view out)) []) = [7, 9]"
    by (rule additional_information_exchange [where f = "\<lambda>k a u. (Inr (Some (a @ [9])), u + 1)",
        OF _ _ _ _ _ run, THEN conjunct1])
      (simp_all add: ex_diag_api_def diag_laws_def info_request_def n_MaxPayloadByteCount_def Let_def)
  then show ?thesis using run unfolding req by simp
qed

end
