(* ===== verification/Obfuscated_Key.thy ===== *)
theory Obfuscated_Key
  imports Mw_Prelude
begin

text \<open>
  Compile-time key obfuscation (\<open>lib/framework/common/ObfuscatedKey.h\<close>): a shuffle of the indices
  0 to L - 1 driven by the digits of the compilation time, and the keys whose bytes or bits are
  permuted by it.  An array access out of range, which a constant expression does not allow, is
  \<open>None\<close>.
\<close>

unbundle bit_operations_syntax

section \<open>The shuffle\<close>

text \<open>\<open>for(j = 0; skipped < random; j++) if(!used[j]) skipped++;\<close>\<close>

function skip_loop :: "bool list \<Rightarrow> nat \<Rightarrow> nat \<Rightarrow> nat \<Rightarrow> nat option" where
  "skip_loop used random skipped j =
     (if skipped < random then
        (if j < length used
         then skip_loop used random (if \<not> used ! j then skipped + 1 else skipped) (j + 1)
         else None)
      else Some j)"
  by pat_completeness auto

termination
  by (relation "measure (\<lambda>(used, random, skipped, j). length used - j)") auto

text \<open>\<open>while(used[j]) j++;\<close>\<close>

function free_loop :: "bool list \<Rightarrow> nat \<Rightarrow> nat option" where
  "free_loop used j =
     (if j < length used then (if used ! j then free_loop used (j + 1) else Some j) else None)"
  by pat_completeness auto

termination
  by (relation "measure (\<lambda>(used, j). length used - j)") auto

declare skip_loop.simps [simp del] free_loop.simps [simp del]

text \<open>
  The outer loop.  \<open>seeds\<close> are the four characters of \<open>__TIME__\<close>; \<open>random\<close> is reduced modulo the
  number of indices that are still free.
\<close>

function lut_loop :: "nat list \<Rightarrow> nat \<Rightarrow> nat \<Rightarrow> nat \<Rightarrow> bool list \<Rightarrow> nat list \<Rightarrow> nat list option" where
  "lut_loop seeds L i seed used indices =
     (if i < L then
        (let random = (seeds ! seed) mod (L - i);
             seed' = (seed + 1) mod length seeds
         in case skip_loop used random 0 0 of
              None \<Rightarrow> None
            | Some j0 \<Rightarrow>
                (case free_loop used j0 of
                   None \<Rightarrow> None
                 | Some j \<Rightarrow> lut_loop seeds L (i + 1) seed' (used[j := True]) (indices @ [j])))
      else Some indices)"
  by pat_completeness auto

termination
  by (relation "measure (\<lambda>(seeds, L, i, seed, used, indices). L - i)") auto

declare lut_loop.simps [simp del]

definition indexShuffleLUT :: "nat list \<Rightarrow> nat \<Rightarrow> nat list option" where
  "indexShuffleLUT seeds L = lut_loop seeds L 0 0 (replicate L False) []"

section \<open>The keys\<close>

definition bytesObfuscatedKey :: "nat list \<Rightarrow> 'a::len word \<Rightarrow> 'a word" where
  "bytesObfuscatedKey lut uniqueSeed =
     foldl (\<lambda>ret i. ret OR push_bit (8 * i) (drop_bit (8 * lut ! i) uniqueSeed AND 0xFF)) 0 [0..<length lut]"

definition bitsObfuscatedKey :: "nat list \<Rightarrow> 'a::len word \<Rightarrow> 'a word" where
  "bitsObfuscatedKey lut uniqueSeed =
     foldl (\<lambda>ret i. ret OR push_bit i (drop_bit (lut ! i) uniqueSeed AND 1)) 0 [0..<length lut]"

section \<open>The shuffle is a permutation\<close>

text \<open>The number of free indices from \<open>j\<close> on.\<close>

definition free_from :: "bool list \<Rightarrow> nat \<Rightarrow> nat" where
  "free_from used j = length (filter Not (drop j used))"

lemma free_from_step:
  "j < length used \<Longrightarrow> free_from used j = (if used ! j then 0 else 1) + free_from used (Suc j)"
  by (simp add: free_from_def flip: Cons_nth_drop_Suc)

lemma free_from_end: "length used \<le> j \<Longrightarrow> free_from used j = 0"
  by (simp add: free_from_def)

lemma skip_loop_finds:
  "random - skipped < free_from used j \<Longrightarrow>
     \<exists>j'. skip_loop used random skipped j = Some j' \<and> 0 < free_from used j'"
proof (induction used random skipped j rule: skip_loop.induct)
  case (1 used random skipped j)
  show ?case
  proof (cases "skipped < random")
    case True
    have j: "j < length used" using 1(2) by (metis free_from_end not_less not_less_zero)
    have "random - (if \<not> used ! j then skipped + 1 else skipped) < free_from used (j + 1)"
      using 1(2) True free_from_step [OF j] by auto
    from 1(1) [OF True j this] show ?thesis
      using True j by (simp add: skip_loop.simps [of used random skipped j])
  next
    case False
    then show ?thesis using 1(2) by (simp add: skip_loop.simps [of used random skipped j])
  qed
qed

lemma free_loop_finds:
  "0 < free_from used j \<Longrightarrow> \<exists>j'. free_loop used j = Some j' \<and> j' < length used \<and> \<not> used ! j'"
proof (induction used j rule: free_loop.induct)
  case (1 used j)
  have j: "j < length used" using 1(2) by (metis free_from_end not_less less_irrefl)
  show ?case
  proof (cases "used ! j")
    case True
    then have "0 < free_from used (j + 1)" using 1(2) free_from_step [OF j] by simp
    from 1(1) [OF j True this] show ?thesis using j True by (simp add: free_loop.simps [of used j])
  next
    case False
    then show ?thesis using j by (simp add: free_loop.simps [of used j])
  qed
qed

lemma free_count:
  assumes "length used = L" "{j. j < L \<and> used ! j} = set indices" "distinct indices"
  shows "free_from used 0 = L - length indices"
proof -
  have "free_from used 0 = card {j. j < L \<and> \<not> used ! j}"
    using assms(1) by (simp add: free_from_def length_filter_conv_card)
  also have "{j. j < L \<and> \<not> used ! j} = {..<L} - set indices"
    using assms(2) by auto
  also have "card \<dots> = L - card (set indices)"
    using assms(2) by (subst card_Diff_subset) auto
  finally show ?thesis using assms(3) by (simp add: distinct_card)
qed

lemma lut_loop_permutes:
  assumes "length used = L" "{j. j < L \<and> used ! j} = set indices" "distinct indices"
    and "length indices = i" "i \<le> L"
  shows "\<exists>lut. lut_loop seeds L i seed used indices = Some lut \<and> distinct lut \<and> set lut = {..<L}"
  using assms
proof (induction seeds L i seed used indices rule: lut_loop.induct)
  case (1 seeds L i seed used indices)
  show ?case
  proof (cases "i < L")
    case True
    let ?random = "(seeds ! seed) mod (L - i)"
    have "?random - 0 < free_from used 0"
      using free_count [OF 1(2-4)] 1(5) True by simp
    then obtain j0 where j0: "skip_loop used ?random 0 0 = Some j0" "0 < free_from used j0"
      using skip_loop_finds by blast
    then obtain j where j: "free_loop used j0 = Some j" "j < length used" "\<not> used ! j"
      using free_loop_finds by blast
    have new: "{k. k < L \<and> used[j := True] ! k} = set (indices @ [j])"
      using 1(2,3) j(2) by (auto simp: nth_list_update)
    moreover have "j \<notin> set indices" using 1(3) j(3) by auto
    ultimately have "\<exists>lut. lut_loop seeds L (i + 1) ((seed + 1) mod length seeds) (used[j := True]) (indices @ [j])
        = Some lut \<and> distinct lut \<and> set lut = {..<L}"
      using 1(2,4,5) True by (intro 1(1) [OF True refl refl j0(1) j(1)]) simp_all
    then show ?thesis
      using True j0(1) j(1) by (simp add: lut_loop.simps [of seeds L i seed used indices] Let_def)
  next
    case False
    have "set indices = {..<L}"
    proof (rule card_subset_eq)
      show "set indices \<subseteq> {..<L}" using 1(3) by auto
      show "card (set indices) = card {..<L}" using 1(4,5,6) False by (simp add: distinct_card)
    qed simp
    then show ?thesis using False 1(4) by (simp add: lut_loop.simps [of seeds L i seed used indices])
  qed
qed

section \<open>The keys permute the bits\<close>

lemma bit_foldl_OR:
  "bit (foldl (\<lambda>ret i. ret OR f i) a is :: 'a::len word) k \<longleftrightarrow> bit a k \<or> (\<exists>i \<in> set is. bit (f i) k)"
  by (induction "is" arbitrary: a) (auto simp: bit_or_iff)

lemma bit_bytesObfuscatedKey:
  fixes x :: "'a::len word"
  assumes "LENGTH('a) = 8 * length lut" "k < LENGTH('a)"
  shows "bit (bytesObfuscatedKey lut x) k \<longleftrightarrow> bit x (8 * lut ! (k div 8) + k mod 8)"
proof -
  have m: "(0xFF :: 'a word) = mask 8" by (simp add: mask_eq_exp_minus_1)
  have "bit (push_bit (8 * i) (drop_bit (8 * lut ! i) x AND mask 8)) k \<longleftrightarrow>
      i = k div 8 \<and> bit x (8 * lut ! (k div 8) + k mod 8)" if "i < length lut" for i
  proof (cases "i = k div 8")
    case True
    have "8 * i \<le> k" "k - 8 * i = k mod 8" "k mod 8 < 8" using True by (simp_all add: modulo_nat_def mult.commute)
    moreover have "k mod 8 < LENGTH('a)" using assms(2) by (meson le_less_trans mod_less_eq_dividend)
    ultimately show ?thesis
      using True assms(2) by (simp add: bit_push_bit_iff bit_and_iff bit_mask_iff bit_drop_bit_eq)
  next
    case False
    have "\<not> (8 * i \<le> k \<and> k - 8 * i < 8)" using False by auto
    then show ?thesis
      using False by (auto simp: bit_push_bit_iff bit_and_iff bit_mask_iff)
  qed
  moreover have "k div 8 < length lut" using assms by auto
  ultimately show ?thesis
    by (auto simp: bytesObfuscatedKey_def bit_foldl_OR m)
qed

lemma bit_bitsObfuscatedKey:
  fixes x :: "'a::len word"
  assumes "LENGTH('a) = length lut" "k < LENGTH('a)"
  shows "bit (bitsObfuscatedKey lut x) k \<longleftrightarrow> bit x (lut ! k)"
proof -
  have "bit (push_bit i (drop_bit (lut ! i) x AND 1)) k \<longleftrightarrow> i = k \<and> bit x (lut ! k)" if "i < length lut" for i
  proof -
    have "bit (push_bit i (drop_bit (lut ! i) x AND 1)) k \<longleftrightarrow>
        i \<le> k \<and> bit (drop_bit (lut ! i) x) (k - i) \<and> k - i = 0"
      unfolding bit_push_bit_iff bit_and_iff bit_1_iff using assms(2) by auto
    then show ?thesis by (auto simp: bit_drop_bit_eq)
  qed
  then show ?thesis
    using assms unfolding bitsObfuscatedKey_def bit_foldl_OR by auto
qed

text \<open>Every bit of the key is read exactly once, so that different seeds give different keys.\<close>

lemma bytesObfuscatedKey_inj:
  assumes "LENGTH('a) = 8 * length lut" "set lut = {..<length lut}"
  shows "inj (bytesObfuscatedKey lut :: 'a::len word \<Rightarrow> 'a word)"
proof (rule injI)
  fix x y :: "'a word"
  assume eq: "bytesObfuscatedKey lut x = bytesObfuscatedKey lut y"
  show "x = y"
  proof (rule bit_word_eqI)
    fix n assume n: "n < LENGTH('a)"
    then have "n div 8 \<in> set lut" using assms by auto
    then obtain i where i: "i < length lut" "lut ! i = n div 8" by (metis in_set_conv_nth)
    let ?k = "8 * i + n mod 8"
    have "?k < LENGTH('a)" "?k div 8 = i" "?k mod 8 = n mod 8" using i(1) assms(1) by auto
    then have "bit x n \<longleftrightarrow> bit (bytesObfuscatedKey lut x) ?k" "bit y n \<longleftrightarrow> bit (bytesObfuscatedKey lut y) ?k"
      using bit_bytesObfuscatedKey [OF assms(1)] i(2) by (simp_all add: mult.commute)
    with eq show "bit x n = bit y n" by simp
  qed
qed

lemma bitsObfuscatedKey_inj:
  assumes "LENGTH('a) = length lut" "set lut = {..<length lut}"
  shows "inj (bitsObfuscatedKey lut :: 'a::len word \<Rightarrow> 'a word)"
proof (rule injI)
  fix x y :: "'a word"
  assume eq: "bitsObfuscatedKey lut x = bitsObfuscatedKey lut y"
  show "x = y"
  proof (rule bit_word_eqI)
    fix n assume "n < LENGTH('a)"
    then have "n \<in> set lut" using assms by auto
    then obtain i where "i < length lut" "lut ! i = n" by (metis in_set_conv_nth)
    then show "bit x n = bit y n"
      using bit_bitsObfuscatedKey [OF assms(1), of i] assms(1) eq by metis
  qed
qed

section \<open>Properties\<close>

text \<open>
C26: For every length and every compilation time the shuffle terminates within its array and is a
permutation of the indices; the keys built from it are therefore distinct for distinct seeds, on
bytes and on bits, for 64-bit keys.
\<close>

theorem obfuscation_injective:
  "\<exists>lut lutb. indexShuffleLUT seeds L = Some lut \<and> distinct lut \<and> set lut = {..<L} \<and>
     indexShuffleLUT seeds 8 = Some lutb \<and> inj (bytesObfuscatedKey lutb :: u64 \<Rightarrow> u64) \<and>
     (\<exists>lut64. indexShuffleLUT seeds 64 = Some lut64 \<and> inj (bitsObfuscatedKey lut64 :: u64 \<Rightarrow> u64))"
proof -
  have p: "\<exists>lut. indexShuffleLUT seeds L = Some lut \<and> distinct lut \<and> set lut = {..<L}" for L
    unfolding indexShuffleLUT_def by (rule lut_loop_permutes) auto
  obtain lut where lut: "indexShuffleLUT seeds L = Some lut" "distinct lut" "set lut = {..<L}"
    using p by blast
  obtain lutb where b: "indexShuffleLUT seeds 8 = Some lutb" "distinct lutb" "set lutb = {..<8}"
    using p by blast
  obtain lut64 where t: "indexShuffleLUT seeds 64 = Some lut64" "distinct lut64" "set lut64 = {..<64}"
    using p by blast
  have "length lutb = 8" "length lut64 = 64"
    using b t distinct_card [of lutb] distinct_card [of lut64] by simp_all
  then have "inj (bytesObfuscatedKey lutb :: u64 \<Rightarrow> u64)" "inj (bitsObfuscatedKey lut64 :: u64 \<Rightarrow> u64)"
    using b(3) t(3) by (auto intro: bytesObfuscatedKey_inj bitsObfuscatedKey_inj)
  then show ?thesis using lut b(1) t(1) by blast
qed

end
