(* ===== verification/Shm_Cleanup.thy ===== *)
theory Shm_Cleanup
  imports Std_Map "HOL-Library.Multiset" "HOL-Library.Sublist"
begin

text \<open>
  Removal of stale Fast DDS files from shared memory (\<open>lib/framework/common/ShmCleanup.cpp\<close>).  A file
  is removed only after its lock files could be locked and a write lease could be taken on it, that
  is, when no other process uses it.

  The directory is a map from names to the state the kernel keeps of a file: whether it can be
  opened, whether another process holds a lock on it, and whether another process has it open.  The
  descriptors this process has open are counted in \<open>sh_open\<close>, so that a leak is visible.
\<close>

section \<open>State\<close>

record shm_file =
  f_openable :: bool
  f_flocked :: bool
  f_other_open :: bool

record shm_state =
  sh_files :: "(string, shm_file) smap"
  sh_open :: "string multiset"

definition exists_file :: "string \<Rightarrow> shm_state \<Rightarrow> bool" where
  "exists_file path st \<longleftrightarrow> smap_find (sh_files st) path \<noteq> None"

definition sys_open :: "string \<Rightarrow> shm_state \<Rightarrow> string option \<times> shm_state" where
  "sys_open path st =
     (case smap_find (sh_files st) path of
        Some f \<Rightarrow> if f_openable f then (Some path, st\<lparr>sh_open := add_mset path (sh_open st)\<rparr>) else (None, st)
      | None \<Rightarrow> (None, st))"

definition sys_close :: "string \<Rightarrow> shm_state \<Rightarrow> shm_state" where
  "sys_close fd st = st\<lparr>sh_open := sh_open st - {#fd#}\<rparr>"

definition sys_flock :: "string \<Rightarrow> shm_state \<Rightarrow> bool" where
  "sys_flock fd st = (case smap_find (sh_files st) fd of Some f \<Rightarrow> \<not> f_flocked f | None \<Rightarrow> True)"

text \<open>A write lease is granted only when the file has no other open descriptor.\<close>

definition sys_lease :: "string \<Rightarrow> shm_state \<Rightarrow> bool" where
  "sys_lease fd st =
     (case smap_find (sh_files st) fd of
        Some f \<Rightarrow> \<not> f_other_open f \<and> count (sh_open st) fd = 1 | None \<Rightarrow> True)"

definition sys_remove :: "string \<Rightarrow> shm_state \<Rightarrow> shm_state" where
  "sys_remove path st = st\<lparr>sh_files := smap_erase path (sh_files st)\<rparr>"

section \<open>Locks\<close>

definition CheckLockLockfile :: "string \<Rightarrow> shm_state \<Rightarrow> bool \<times> string option \<times> shm_state" where
  "CheckLockLockfile path st =
     (case sys_open path st of
        (None, st) \<Rightarrow> (False, None, st)
      | (Some fd, st) \<Rightarrow>
          if \<not> sys_flock fd st then (False, None, sys_close fd st)
          else (True, Some fd, st))"

definition CleanUpLockfile :: "string option \<Rightarrow> shm_state \<Rightarrow> shm_state" where
  "CleanUpLockfile fd st = (case fd of None \<Rightarrow> st | Some p \<Rightarrow> sys_close p st)"

text \<open>The result with the three descriptors \<open>fd\<close>, \<open>el\<close> and \<open>sl\<close>, \<open>None\<close> for -1.\<close>

definition lock_if_present :: "string \<Rightarrow> shm_state \<Rightarrow> bool \<times> string option \<times> shm_state" where
  "lock_if_present path st = (if exists_file path st then CheckLockLockfile path st else (True, None, st))"

definition CheckLockAll ::
  "string \<Rightarrow> shm_state \<Rightarrow> bool \<times> (string option \<times> string option \<times> string option) \<times> shm_state" where
  "CheckLockAll baseFile st =
     (case lock_if_present (baseFile @ ''_el'') st of
        (False, el, st) \<Rightarrow> (False, (None, el, None), st)
      | (True, el, st) \<Rightarrow>
          (case lock_if_present (baseFile @ ''_sl'') st of
             (False, sl, st) \<Rightarrow> (False, (None, None, sl), CleanUpLockfile el st)
           | (True, sl, st) \<Rightarrow>
               (case sys_open baseFile st of
                  (None, st) \<Rightarrow> (False, (None, None, None), CleanUpLockfile sl (CleanUpLockfile el st))
                | (Some fd, st) \<Rightarrow>
                    if \<not> sys_lease fd st
                    then (False, (Some fd, None, None), sys_close fd (CleanUpLockfile sl (CleanUpLockfile el st)))
                    else (True, (Some fd, el, sl), st))))"

section \<open>Cleaning\<close>

definition starts_with :: "string \<Rightarrow> string \<Rightarrow> bool" where
  "starts_with p name = prefix p name"

text \<open>\<open>rfind('_')\<close> and \<open>find('_')\<close>.\<close>

definition last_underscore :: "string \<Rightarrow> nat option" where
  "last_underscore name =
     (if CHR ''_'' \<in> set name then Some (length name - 1 - length (takeWhile (\<lambda>c. c \<noteq> CHR ''_'') (rev name))) else None)"

definition first_underscore :: "string \<Rightarrow> nat option" where
  "first_underscore name =
     (if CHR ''_'' \<in> set name then Some (length (takeWhile (\<lambda>c. c \<noteq> CHR ''_'') name)) else None)"

text \<open>
  \<open>npos\<close> is never equal to \<open>name.size() - 3\<close> and \<open>name.size() - npos\<close> is \<open>name.size() + 1\<close>; both
  cannot occur once the prefix has been found.
\<close>

definition filterPortFiles :: "string \<Rightarrow> bool" where
  "filterPortFiles name =
     (if \<not> starts_with ''fastdds_port'' name \<and> \<not> starts_with ''fastrtps_port'' name then False
      else if (case last_underscore name of None \<Rightarrow> False | Some i \<Rightarrow> i + 3 = length name) then False
      else True)"

definition filterSegments :: "string \<Rightarrow> bool" where
  "filterSegments name =
     (if \<not> starts_with ''fastdds_'' name \<and> \<not> starts_with ''fastrtps_'' name then False
      else if (case first_underscore name of None \<Rightarrow> length name + 1 | Some i \<Rightarrow> length name - i) \<noteq> 16 then False
      else True)"

definition filterSemaphores :: "string \<Rightarrow> bool" where
  "filterSemaphores name = (starts_with ''sem.fastdds_'' name \<or> starts_with ''sem.fastrtps_'' name)"

definition clean_one :: "string \<Rightarrow> shm_state \<Rightarrow> shm_state" where
  "clean_one baseFile st =
     (case CheckLockAll baseFile st of
        (False, _, st) \<Rightarrow> st
      | (True, (fd, el, sl), st) \<Rightarrow>
          (let st = sys_remove baseFile st;
               st = sys_remove (baseFile @ ''_el'') st;
               st = sys_remove (baseFile @ ''_sl'') st;
               st = CleanUpLockfile el st;
               st = CleanUpLockfile sl st
           in CleanUpLockfile fd st))"

text \<open>
  The entries are those the recursive iterator yields; only their file name is used, so each is
  looked up in the directory itself.
\<close>

definition TransformBaseFile :: "string list \<Rightarrow> string" where
  "TransformBaseFile path = last path"

definition CleanPorts :: "string list list \<Rightarrow> shm_state \<Rightarrow> shm_state" where
  "CleanPorts entries st = fold clean_one (map TransformBaseFile (filter (\<lambda>e. filterPortFiles (last e)) entries)) st"

definition CleanSegments :: "string list list \<Rightarrow> shm_state \<Rightarrow> shm_state" where
  "CleanSegments entries st = fold clean_one (map TransformBaseFile (filter (\<lambda>e. filterSegments (last e)) entries)) st"

text \<open>Semaphores: the names whose \<open>sem_open\<close> succeeds are unlinked.\<close>

definition CleanSemaphores :: "(string \<Rightarrow> bool) \<Rightarrow> string list \<Rightarrow> string list" where
  "CleanSemaphores sem_opens names =
     filter sem_opens (map (\<lambda>n. drop (length ''sem.'') n) (filter filterSemaphores names))"

datatype sigio = SIG_DFL | SIG_IGN | SIG_HANDLER nat

record cleanup_state =
  cu_done :: bool
  cu_sigio :: sigio
  cu_shm :: shm_state
  cu_unlinked :: "string list"

definition ShmCleanup ::
  "string list list \<Rightarrow> string list list \<Rightarrow> (string \<Rightarrow> bool) \<Rightarrow> string list \<Rightarrow> cleanup_state \<Rightarrow> cleanup_state" where
  "ShmCleanup ports segments sem_opens sems cu =
     (if cu_done cu then cu
      else
        (let old = cu_sigio cu;
             cu = cu\<lparr>cu_done := True\<rparr>;
             cu = (if old = SIG_DFL then cu\<lparr>cu_sigio := SIG_IGN\<rparr> else cu);
             cu = cu\<lparr>cu_shm := CleanSegments segments (CleanPorts ports (cu_shm cu))\<rparr>;
             cu = (if old = SIG_DFL then
                     (let seen = cu_sigio cu
                      in if seen \<noteq> SIG_IGN then cu\<lparr>cu_sigio := seen\<rparr> else cu\<lparr>cu_sigio := SIG_DFL\<rparr>)
                   else cu)
         in cu\<lparr>cu_unlinked := cu_unlinked cu @ CleanSemaphores sem_opens sems\<rparr>))"

section \<open>No descriptor is left open\<close>

lemma sys_open_cases:
  "sys_open path st = (None, st) \<or> sys_open path st = (Some path, st\<lparr>sh_open := add_mset path (sh_open st)\<rparr>)"
  by (auto simp: sys_open_def split: option.splits)

lemma CheckLockLockfile_cases:
  "CheckLockLockfile path st = (False, None, st) \<or>
   CheckLockLockfile path st = (True, Some path, st\<lparr>sh_open := add_mset path (sh_open st)\<rparr>)"
  using sys_open_cases [of path st] by (auto simp: CheckLockLockfile_def sys_close_def)

lemma lock_if_present_cases:
  "lock_if_present path st = (False, None, st) \<or> lock_if_present path st = (True, None, st) \<or>
   lock_if_present path st = (True, Some path, st\<lparr>sh_open := add_mset path (sh_open st)\<rparr>)"
  using CheckLockLockfile_cases [of path st] by (auto simp: lock_if_present_def)

definition held_of :: "string option \<Rightarrow> string multiset" where
  "held_of fd = (case fd of None \<Rightarrow> {#} | Some p \<Rightarrow> {#p#})"

lemma CleanUpLockfile_eq: "CleanUpLockfile fd st = st\<lparr>sh_open := sh_open st - held_of fd\<rparr>"
  by (cases fd) (simp_all add: CleanUpLockfile_def sys_close_def held_of_def)

lemma lock_if_present_held:
  "lock_if_present path st = (b, fd, st') \<Longrightarrow> st' = st\<lparr>sh_open := sh_open st + held_of fd\<rparr> \<and> (\<not> b \<longrightarrow> fd = None)"
  using lock_if_present_cases [of path st] by (auto simp: held_of_def)

lemma CheckLockAll_False:
  assumes "CheckLockAll base st = (False, fds, st')"
  shows "st' = st"
proof -
  obtain b1 el st1 where l1: "lock_if_present (base @ ''_el'') st = (b1, el, st1)" by (metis prod_cases3)
  obtain b2 sl st2 where l2: "lock_if_present (base @ ''_sl'') st1 = (b2, sl, st2)" by (metis prod_cases3)
  show ?thesis
    using assms l1 l2 lock_if_present_held [OF l1] lock_if_present_held [OF l2] sys_open_cases [of base st2]
    by (auto simp: CheckLockAll_def CleanUpLockfile_eq sys_close_def held_of_def split: bool.splits if_splits option.splits)
qed

lemma CheckLockAll_True:
  assumes "CheckLockAll base st = (True, (fd, el, sl), st')"
  shows "fd = Some base \<and> st' = st\<lparr>sh_open := sh_open st + held_of el + held_of sl + held_of fd\<rparr>"
proof -
  obtain b1 el' st1 where l1: "lock_if_present (base @ ''_el'') st = (b1, el', st1)" by (metis prod_cases3)
  obtain b2 sl' st2 where l2: "lock_if_present (base @ ''_sl'') st1 = (b2, sl', st2)" by (metis prod_cases3)
  show ?thesis
    using assms l1 l2 lock_if_present_held [OF l1] lock_if_present_held [OF l2] sys_open_cases [of base st2]
    by (auto simp: CheckLockAll_def held_of_def split: bool.splits if_splits)
qed

lemma clean_one_open [simp]: "sh_open (clean_one base st) = sh_open st"
proof -
  obtain b fd el sl st' where c: "CheckLockAll base st = (b, (fd, el, sl), st')" by (metis prod_cases3)
  show ?thesis
  proof (cases b)
    case True
    then show ?thesis
      using CheckLockAll_True [of base st fd el sl st'] c
      by (simp add: clean_one_def CleanUpLockfile_eq sys_remove_def Let_def diff_union_swap2 add.commute add.left_commute)
  next
    case False
    then show ?thesis using CheckLockAll_False [of base st] c by (simp add: clean_one_def)
  qed
qed

section \<open>Nothing in use is removed\<close>

text \<open>A process that holds a lock on a file has it open.\<close>

definition files_ok :: "shm_state \<Rightarrow> bool" where
  "files_ok st \<longleftrightarrow> (\<forall>p f. smap_find (sh_files st) p = Some f \<longrightarrow> f_flocked f \<longrightarrow> f_other_open f)"

lemma lock_if_present_free:
  "lock_if_present path st = (True, fd, st') \<Longrightarrow> smap_find (sh_files st) path = Some f \<Longrightarrow> \<not> f_flocked f"
  by (auto simp: lock_if_present_def CheckLockLockfile_def exists_file_def sys_open_def sys_flock_def
      split: option.splits if_splits)

lemma CheckLockAll_True_free:
  assumes "CheckLockAll base st = (True, fds, st')"
  shows "(\<forall>f. smap_find (sh_files st) base = Some f \<longrightarrow> \<not> f_other_open f) \<and>
    (\<forall>f. smap_find (sh_files st) (base @ ''_el'') = Some f \<longrightarrow> \<not> f_flocked f) \<and>
    (\<forall>f. smap_find (sh_files st) (base @ ''_sl'') = Some f \<longrightarrow> \<not> f_flocked f)"
proof -
  obtain b1 el st1 where l1: "lock_if_present (base @ ''_el'') st = (b1, el, st1)" by (metis prod_cases3)
  obtain b2 sl st2 where l2: "lock_if_present (base @ ''_sl'') st1 = (b2, sl, st2)" by (metis prod_cases3)
  have b: "b1" "b2" using assms l1 l2 by (auto simp: CheckLockAll_def split: bool.splits)
  have fs: "sh_files st1 = sh_files st" "sh_files st2 = sh_files st"
    using lock_if_present_held [OF l1] lock_if_present_held [OF l2] by simp_all
  obtain o3 st3 where o3: "sys_open base st2 = (o3, st3)" by (cases "sys_open base st2")
  then have "o3 = Some base" "sys_lease base st3" "sh_files st3 = sh_files st"
    using assms l1 l2 b sys_open_cases [of base st2] fs
    by (auto simp: CheckLockAll_def split: option.splits if_splits)
  then show ?thesis
    using l1 l2 b fs lock_if_present_free [of "base @ ''_el''" st el st1] lock_if_present_free [of "base @ ''_sl''" st1 sl st2]
    by (auto simp: sys_lease_def split: option.splits)
qed

lemma clean_one_files:
  "smap_find (sh_files (clean_one base st)) p =
     (if fst (CheckLockAll base st) \<and> p \<in> {base, base @ ''_el'', base @ ''_sl''} then None
      else smap_find (sh_files st) p)"
proof -
  obtain b fd el sl st' where c: "CheckLockAll base st = (b, (fd, el, sl), st')" by (metis prod_cases3)
  show ?thesis
    using CheckLockAll_True [of base st fd el sl st'] CheckLockAll_False [of base st] c
    by (cases b) (auto simp: clean_one_def CleanUpLockfile_eq sys_remove_def Let_def)
qed

lemma clean_one_keeps_locked:
  assumes "files_ok st" "smap_find (sh_files st) p = Some f" "f_flocked f"
  shows "smap_find (sh_files (clean_one base st)) p = Some f"
proof (cases "fst (CheckLockAll base st)")
  case True
  then have "CheckLockAll base st = (True, snd (CheckLockAll base st))" by (metis prod.collapse)
  then have "p \<notin> {base, base @ ''_el'', base @ ''_sl''}"
    using CheckLockAll_True_free [of base st "fst (snd (CheckLockAll base st))" "snd (snd (CheckLockAll base st))"] assms
    by (auto simp: files_ok_def)
  then show ?thesis using assms(2) by (simp add: clean_one_files)
next
  case False
  then show ?thesis using assms(2) by (simp add: clean_one_files)
qed

lemma files_ok_clean_one: "files_ok st \<Longrightarrow> files_ok (clean_one base st)"
  by (auto simp: files_ok_def clean_one_files split: if_splits)

lemma clean_all_keeps_locked:
  "files_ok st \<Longrightarrow> smap_find (sh_files st) p = Some f \<Longrightarrow> f_flocked f \<Longrightarrow>
     smap_find (sh_files (fold clean_one bases st)) p = Some f \<and> files_ok (fold clean_one bases st)"
  by (induction bases arbitrary: st) (simp_all add: clean_one_keeps_locked files_ok_clean_one)

lemma clean_all_open: "sh_open (fold clean_one bases st) = sh_open st"
  by (induction bases arbitrary: st) simp_all

section \<open>Properties\<close>

text \<open>Only files of the entries that pass the filters can disappear, and no file is changed or created.\<close>

definition cleaned_bases :: "string list list \<Rightarrow> string list list \<Rightarrow> string list" where
  "cleaned_bases ports segments =
     map TransformBaseFile (filter (\<lambda>e. filterPortFiles (last e)) ports) @
     map TransformBaseFile (filter (\<lambda>e. filterSegments (last e)) segments)"

lemma clean_both: "CleanSegments segments (CleanPorts ports st) = fold clean_one (cleaned_bases ports segments) st"
  by (simp add: CleanSegments_def CleanPorts_def cleaned_bases_def)

lemma clean_all_files:
  "smap_find (sh_files (fold clean_one bases st)) p = smap_find (sh_files st) p \<or>
     (smap_find (sh_files (fold clean_one bases st)) p = None \<and>
      (\<exists>base \<in> set bases. p \<in> {base, base @ ''_el'', base @ ''_sl''}))"
proof (induction bases arbitrary: st)
  case (Cons base bases)
  show ?case using Cons.IH [of "clean_one base st"] by (auto simp: clean_one_files split: if_splits)
qed simp

lemma ShmCleanup_shm:
  "cu_shm (ShmCleanup ports segments sem_opens sems cu) =
     (if cu_done cu then cu_shm cu else fold clean_one (cleaned_bases ports segments) (cu_shm cu))"
  by (simp add: ShmCleanup_def clean_both Let_def)



text \<open>
  The segment filter counts the underscore among the sixteen characters it looks for: no file
that Fast DDS names with its prefix and a UUID of sixteen characters passes it, so stale segments
are never removed.
\<close>

theorem segments_never_match:
  assumes "length uuid = 16"
  shows "\<not> filterSegments (''fastdds_'' @ uuid) \<and> \<not> filterSegments (''fastrtps_'' @ uuid)"
proof -
  have "first_underscore (''fastdds_'' @ uuid) = Some 7" "first_underscore (''fastrtps_'' @ uuid) = Some 8"
    by (simp_all add: first_underscore_def)
  then show ?thesis using assms by (simp add: filterSegments_def)
qed

theorem segments_never_match_witness:
  "\<not> filterSegments ''fastdds_026b18adb7506bb8''"
  using segments_never_match [of "''026b18adb7506bb8''"] by simp

end
