(* ===== verification/Middleware_Spy.thy ===== *)
theory Middleware_Spy
  imports Message_Pubsub Std_Map "HOL-Library.Multiset"
begin

text \<open>
  \<open>MiddlewareSpy\<close> (\<open>lib/framework/dds/spy\<close>): a discovery listener that records the participants,
  readers and writers of other processes and subscribes to the topics it is told to tap.  The
  virtual functions a subclass overrides are the fields of \<open>spy_user\<close> and act on the user's state;
  \<open>is_on_same_process_as\<close> of Fast DDS is the parameter \<open>same_process\<close>.  The three tables that
  are hashed and compared by the GUID prefix are maps keyed by the prefix.  Shown: the topic tables
  are exactly the discovered endpoints that have not been removed, every tapped topic has a reader,
  and which events throw.  Log output is left out.
\<close>

section \<open>Data\<close>

record GUID_t =
  guidPrefix :: "96 word"
  entityId :: u32

record ParticipantBuiltinTopicData =
  pi_guid :: GUID_t
  pi_participant_name :: string

text \<open>The members of the builtin topic data of readers and of writers that the spy reads.\<close>

record EndpointBuiltinTopicData =
  ei_guid :: GUID_t
  ei_topic_name :: string

datatype ParticipantDiscoveryStatus =
  DISCOVERED_PARTICIPANT | CHANGED_QOS_PARTICIPANT | REMOVED_PARTICIPANT | DROPPED_PARTICIPANT | IGNORED_PARTICIPANT

datatype ReaderDiscoveryStatus = DISCOVERED_READER | CHANGED_QOS_READER | REMOVED_READER | IGNORED_READER

datatype WriterDiscoveryStatus = DISCOVERED_WRITER | CHANGED_QOS_WRITER | REMOVED_WRITER | IGNORED_WRITER

record 'u spy_user =
  tapTopic :: "string \<Rightarrow> bool"
  subscriberDiscovered :: "GUID_t \<Rightarrow> string \<Rightarrow> 'u \<Rightarrow> 'u"
  publisherDiscovered :: "GUID_t \<Rightarrow> string \<Rightarrow> 'u \<Rightarrow> 'u"
  subscriberRemoved :: "GUID_t \<Rightarrow> string \<Rightarrow> 'u \<Rightarrow> 'u"
  publisherRemoved :: "GUID_t \<Rightarrow> string \<Rightarrow> 'u \<Rightarrow> 'u"
  topicSubscriberData :: "string \<Rightarrow> bytes \<Rightarrow> 'u \<Rightarrow> 'u"

record 'u MiddlewareSpy =
  m_discovery_guid :: GUID_t
  m_spMiddlewareParticipant :: DomainParticipantMessageStub
  m_middlewareSubscribers :: "(string, 'u MessageReader) smap"
  m_participantData :: "(96 word, ParticipantBuiltinTopicData) smap"
  m_subscriberData :: "(96 word, EndpointBuiltinTopicData) smap"
  m_publisherData :: "(96 word, EndpointBuiltinTopicData) smap"
  m_topicSubscribers :: "(string \<times> GUID_t) list"
  m_topicPublishers :: "(string \<times> GUID_t) list"
  m_tappedTopics :: "string multiset"

text \<open>What Fast DDS does while a reader is created: its answers, events and stored samples.\<close>

record tap_env =
  te_env :: creation_env
  te_ports :: port_parameters
  te_early :: "reader_evt list"
  te_samples :: "take_result list"

section \<open>Operations\<close>

text \<open>
  \<open>std::multimap\<close>: an insertion goes behind the entries with the same key, and the removal loop
  erases the first entry of the key's range whose value is the GUID.
\<close>

definition multimap_insert :: "'k::linorder \<Rightarrow> 'v \<Rightarrow> ('k \<times> 'v) list \<Rightarrow> ('k \<times> 'v) list" where
  "multimap_insert k v m = takeWhile (\<lambda>e. fst e \<le> k) m @ (k, v) # dropWhile (\<lambda>e. fst e \<le> k) m"

definition multimap_erase_value :: "'k \<Rightarrow> 'v \<Rightarrow> ('k \<times> 'v) list \<Rightarrow> ('k \<times> 'v) list" where
  "multimap_erase_value k v m = remove1 (k, v) m"

text \<open>
  The constructor: the middleware participant, then the discovery participant, whose GUID is
  \<open>discovery\<close> when Fast DDS creates it; a failure there is dereferenced at once.
\<close>

definition MiddlewareSpy_ctor :: "creation_env \<Rightarrow> GUID_t option \<Rightarrow> 'u MiddlewareSpy cpp" where
  "MiddlewareSpy_ctor env discovery =
     (case DomainParticipantMessageStub_ctor env 0 ''MiddlewareSpy'' of
        Inl e \<Rightarrow> Inl e
      | Inr stub \<Rightarrow>
          (case MessageParticipant_ctor (Some stub) of
             Inl e \<Rightarrow> Inl e
           | Inr dp \<Rightarrow>
               (case discovery of
                  None \<Rightarrow> Inl NullDereference
                | Some guid \<Rightarrow> Inr \<lparr>m_discovery_guid = guid, m_spMiddlewareParticipant = dp,
                       m_middlewareSubscribers = [], m_participantData = [], m_subscriberData = [],
                       m_publisherData = [], m_topicSubscribers = [], m_topicPublishers = [],
                       m_tappedTopics = {#}\<rparr>)))"

text \<open>
  The arguments of \<open>emplace\<close> are evaluated first: a reader is created even when the table already
  has one for the topic, and is then dropped.
\<close>

definition AddWiretap ::
  "'u spy_user \<Rightarrow> tap_env \<Rightarrow> string \<Rightarrow> 'u MiddlewareSpy \<times> 'u \<Rightarrow> ('u MiddlewareSpy \<times> 'u) cpp" where
  "AddWiretap user te topic = (\<lambda>(s, u).
     if topic \<in># m_tappedTopics s
     then Inr (s\<lparr>m_tappedTopics := add_mset topic (m_tappedTopics s)\<rparr>, u)
     else case MessageParticipant_CreateReader (te_env te) (te_ports te) topic
                 (Some (\<lambda>data v. Inr (topicSubscriberData user topic data v))) (Some Inr)
                 (te_early te) (te_samples te) (m_spMiddlewareParticipant s) u of
            Inl e \<Rightarrow> Inl e
          | Inr ((r, _), dp, u') \<Rightarrow>
              Inr (s\<lparr>m_tappedTopics := add_mset topic (m_tappedTopics s), m_spMiddlewareParticipant := dp,
                     m_middlewareSubscribers := fst (smap_emplace topic r (m_middlewareSubscribers s))\<rparr>, u'))"

text \<open>\<open>erase\<close> by key removes every copy of the topic from the multiset; the reader is kept.\<close>

definition RemoveWiretap :: "string \<Rightarrow> 'u MiddlewareSpy \<Rightarrow> 'u MiddlewareSpy" where
  "RemoveWiretap topic s = s\<lparr>m_tappedTopics := filter_mset (\<lambda>t. t \<noteq> topic) (m_tappedTopics s)\<rparr>"

definition on_participant_discovery ::
  "(GUID_t \<Rightarrow> GUID_t \<Rightarrow> bool) \<Rightarrow> ParticipantDiscoveryStatus \<Rightarrow> ParticipantBuiltinTopicData
     \<Rightarrow> 'u MiddlewareSpy \<Rightarrow> 'u MiddlewareSpy" where
  "on_participant_discovery same_process status pinfo s =
     (if \<not> same_process (pi_guid pinfo) (m_discovery_guid s) then
        (case status of
           DISCOVERED_PARTICIPANT \<Rightarrow>
             s\<lparr>m_participantData := fst (smap_emplace (guidPrefix (pi_guid pinfo)) pinfo
                 (smap_erase (guidPrefix (pi_guid pinfo)) (m_participantData s)))\<rparr>
         | _ \<Rightarrow> s)
      else s)"

definition participant_at :: "GUID_t \<Rightarrow> 'u MiddlewareSpy \<Rightarrow> ParticipantBuiltinTopicData cpp" where
  "participant_at guid s =
     (case smap_find (m_participantData s) (guidPrefix guid) of
        None \<Rightarrow> Inl (OutOfRange ''_Map_base::at'') | Some p \<Rightarrow> Inr p)"

definition on_data_reader_discovery ::
  "(GUID_t \<Rightarrow> GUID_t \<Rightarrow> bool) \<Rightarrow> 'u spy_user \<Rightarrow> ReaderDiscoveryStatus \<Rightarrow> EndpointBuiltinTopicData
     \<Rightarrow> 'u MiddlewareSpy \<times> 'u \<Rightarrow> ('u MiddlewareSpy \<times> 'u) cpp" where
  "on_data_reader_discovery same_process user status einfo = (\<lambda>(s, u).
     if \<not> same_process (ei_guid einfo) (m_discovery_guid s) then
       (case participant_at (ei_guid einfo) s of
          Inl e \<Rightarrow> Inl e
        | Inr _ \<Rightarrow>
            (case status of
               DISCOVERED_READER \<Rightarrow>
                 Inr (s\<lparr>m_subscriberData := fst (smap_emplace (guidPrefix (ei_guid einfo)) einfo (m_subscriberData s)),
                        m_topicSubscribers := multimap_insert (ei_topic_name einfo) (ei_guid einfo) (m_topicSubscribers s)\<rparr>,
                      subscriberDiscovered user (ei_guid einfo) (ei_topic_name einfo) u)
             | REMOVED_READER \<Rightarrow>
                 Inr (s\<lparr>m_subscriberData := smap_erase (guidPrefix (ei_guid einfo)) (m_subscriberData s),
                        m_topicSubscribers := multimap_erase_value (ei_topic_name einfo) (ei_guid einfo) (m_topicSubscribers s)\<rparr>,
                      subscriberRemoved user (ei_guid einfo) (ei_topic_name einfo) u)
             | _ \<Rightarrow> Inr (s, u)))
     else Inr (s, u))"

definition on_data_writer_discovery ::
  "(GUID_t \<Rightarrow> GUID_t \<Rightarrow> bool) \<Rightarrow> 'u spy_user \<Rightarrow> tap_env \<Rightarrow> WriterDiscoveryStatus \<Rightarrow> EndpointBuiltinTopicData
     \<Rightarrow> 'u MiddlewareSpy \<times> 'u \<Rightarrow> ('u MiddlewareSpy \<times> 'u) cpp" where
  "on_data_writer_discovery same_process user te status einfo = (\<lambda>(s, u).
     if \<not> same_process (ei_guid einfo) (m_discovery_guid s) then
       (case participant_at (ei_guid einfo) s of
          Inl e \<Rightarrow> Inl e
        | Inr _ \<Rightarrow>
            (case status of
               DISCOVERED_WRITER \<Rightarrow>
                 (let u1 = publisherDiscovered user (ei_guid einfo) (ei_topic_name einfo) u in
                  case (if tapTopic user (ei_topic_name einfo)
                        then AddWiretap user te (ei_topic_name einfo) (s, u1) else Inr (s, u1)) of
                    Inl e \<Rightarrow> Inl e
                  | Inr (s1, u2) \<Rightarrow>
                      Inr (s1\<lparr>m_publisherData := fst (smap_emplace (guidPrefix (ei_guid einfo)) einfo (m_publisherData s1)),
                             m_topicPublishers := multimap_insert (ei_topic_name einfo) (ei_guid einfo) (m_topicPublishers s1)\<rparr>, u2))
             | REMOVED_WRITER \<Rightarrow>
                 (let u1 = publisherRemoved user (ei_guid einfo) (ei_topic_name einfo) u;
                      s1 = (if tapTopic user (ei_topic_name einfo) then RemoveWiretap (ei_topic_name einfo) s else s) in
                  Inr (s1\<lparr>m_publisherData := smap_erase (guidPrefix (ei_guid einfo)) (m_publisherData s1),
                         m_topicPublishers := multimap_erase_value (ei_topic_name einfo) (ei_guid einfo) (m_topicPublishers s1)\<rparr>, u1))
             | _ \<Rightarrow> Inr (s, u)))
     else Inr (s, u))"

section \<open>Sequences of discovery events\<close>

datatype discovery_event =
    ParticipantEvent ParticipantDiscoveryStatus ParticipantBuiltinTopicData
  | ReaderEvent ReaderDiscoveryStatus EndpointBuiltinTopicData
  | WriterEvent tap_env WriterDiscoveryStatus EndpointBuiltinTopicData

fun spy_event ::
  "(GUID_t \<Rightarrow> GUID_t \<Rightarrow> bool) \<Rightarrow> 'u spy_user \<Rightarrow> discovery_event \<Rightarrow> 'u MiddlewareSpy \<times> 'u \<Rightarrow> ('u MiddlewareSpy \<times> 'u) cpp" where
  "spy_event sp user (ParticipantEvent st i) (s, u) = Inr (on_participant_discovery sp st i s, u)"
| "spy_event sp user (ReaderEvent st i) su = on_data_reader_discovery sp user st i su"
| "spy_event sp user (WriterEvent te st i) su = on_data_writer_discovery sp user te st i su"

fun spy_events ::
  "(GUID_t \<Rightarrow> GUID_t \<Rightarrow> bool) \<Rightarrow> 'u spy_user \<Rightarrow> discovery_event list \<Rightarrow> 'u MiddlewareSpy \<times> 'u \<Rightarrow> ('u MiddlewareSpy \<times> 'u) cpp" where
  "spy_events sp user [] su = Inr su"
| "spy_events sp user (ev # evs) su =
     (case spy_event sp user ev su of Inl e \<Rightarrow> Inl e | Inr su' \<Rightarrow> spy_events sp user evs su')"

text \<open>
  The specification: the endpoints of other processes as a multiset of topics and GUIDs, to which
  a discovery adds one and from which a removal takes one.
\<close>

definition track :: "bool \<Rightarrow> bool \<Rightarrow> EndpointBuiltinTopicData \<Rightarrow> (string \<times> GUID_t) multiset \<Rightarrow> (string \<times> GUID_t) multiset" where
  "track added removed i live =
     (if added then add_mset (ei_topic_name i, ei_guid i) live
      else if removed then live - {#(ei_topic_name i, ei_guid i)#} else live)"

fun live_writers :: "(GUID_t \<Rightarrow> bool) \<Rightarrow> discovery_event \<Rightarrow> (string \<times> GUID_t) multiset \<Rightarrow> (string \<times> GUID_t) multiset" where
  "live_writers own (WriterEvent te st i) live =
     (if own (ei_guid i) then live else track (st = DISCOVERED_WRITER) (st = REMOVED_WRITER) i live)"
| "live_writers own _ live = live"

fun live_readers :: "(GUID_t \<Rightarrow> bool) \<Rightarrow> discovery_event \<Rightarrow> (string \<times> GUID_t) multiset \<Rightarrow> (string \<times> GUID_t) multiset" where
  "live_readers own (ReaderEvent st i) live =
     (if own (ei_guid i) then live else track (st = DISCOVERED_READER) (st = REMOVED_READER) i live)"
| "live_readers own _ live = live"

section \<open>Invariant\<close>

text \<open>Every tapped topic, and every topic with a known writer that is to be tapped, has a reader.\<close>

definition tapped_names :: "'u MiddlewareSpy \<Rightarrow> string set" where
  "tapped_names s = fst ` set (m_middlewareSubscribers s)"

definition spy_inv :: "'u spy_user \<Rightarrow> 'u MiddlewareSpy \<Rightarrow> bool" where
  "spy_inv user s \<longleftrightarrow>
     set_mset (m_tappedTopics s) \<subseteq> tapped_names s \<and>
     {t \<in> fst ` set (m_topicPublishers s). tapTopic user t} \<subseteq> tapped_names s"

lemma mset_multimap_insert [simp]: "mset (multimap_insert k v m) = add_mset (k, v) (mset m)"
  by (simp add: multimap_insert_def)
    (metis mset_append takeWhile_dropWhile_id)

lemma mset_multimap_erase_value [simp]: "mset (multimap_erase_value k v m) = mset m - {#(k, v)#}"
  by (simp add: multimap_erase_value_def)

lemma set_multimap_insert [simp]: "set (multimap_insert k v m) = insert (k, v) (set m)"
  by (metis mset_multimap_insert set_mset_add_mset_insert set_mset_mset)

lemma set_multimap_erase_value: "set (multimap_erase_value k v m) \<subseteq> set m"
  by (simp add: multimap_erase_value_def set_remove1_subset)

lemma fst_set_smap_emplace [simp]: "fst ` set (fst (smap_emplace k v m)) = insert k (fst ` set m)"
  using fst_set_smap_assign [of k v m]
  by (auto simp: smap_emplace_def smap_find_def split: option.splits) (metis fst_conv image_eqI map_of_SomeD)

lemma AddWiretap_frame:
  assumes "AddWiretap user te topic (s, u) = Inr (s', u')"
  shows "m_topicPublishers s' = m_topicPublishers s" "m_topicSubscribers s' = m_topicSubscribers s"
    "m_discovery_guid s' = m_discovery_guid s" "m_participantData s' = m_participantData s"
    "m_publisherData s' = m_publisherData s"
  using assms by (auto simp: AddWiretap_def split: if_splits sum.splits)

lemma tapped_names_update [simp]:
  "tapped_names (s\<lparr>m_tappedTopics := a, m_spMiddlewareParticipant := b, m_middlewareSubscribers := c\<rparr>) = fst ` set c"
  "tapped_names (s\<lparr>m_tappedTopics := a\<rparr>) = tapped_names s"
  "tapped_names (s\<lparr>m_publisherData := d, m_topicPublishers := e\<rparr>) = tapped_names s"
  by (simp_all add: tapped_names_def)

lemma AddWiretap_names:
  assumes "AddWiretap user te topic (s, u) = Inr (s', u')" "spy_inv user s"
  shows "tapped_names s' = insert topic (tapped_names s)"
    "set_mset (m_tappedTopics s') = insert topic (set_mset (m_tappedTopics s))"
proof (atomize (full), cases "topic \<in># m_tappedTopics s")
  case True
  then have "topic \<in> tapped_names s" using assms(2) by (auto simp: spy_inv_def)
  then show "tapped_names s' = insert topic (tapped_names s) \<and>
      set_mset (m_tappedTopics s') = insert topic (set_mset (m_tappedTopics s))"
    using assms(1) True by (auto simp: AddWiretap_def)
next
  case False
  then obtain r dp where "s' = s\<lparr>m_tappedTopics := add_mset topic (m_tappedTopics s), m_spMiddlewareParticipant := dp,
      m_middlewareSubscribers := fst (smap_emplace topic r (m_middlewareSubscribers s))\<rparr>"
    using assms(1) by (auto simp: AddWiretap_def split: sum.splits)
  then show "tapped_names s' = insert topic (tapped_names s) \<and>
      set_mset (m_tappedTopics s') = insert topic (set_mset (m_tappedTopics s))"
    by (simp add: tapped_names_def [of s])
qed

lemma spy_event_live:
  assumes "spy_event sp user ev (s, u) = Inr (s', u')"
  shows "m_discovery_guid s' = m_discovery_guid s"
    "mset (m_topicPublishers s') = live_writers (\<lambda>g. sp g (m_discovery_guid s)) ev (mset (m_topicPublishers s))"
    "mset (m_topicSubscribers s') = live_readers (\<lambda>g. sp g (m_discovery_guid s)) ev (mset (m_topicSubscribers s))"
  using assms
  by (cases ev; auto simp: on_participant_discovery_def on_data_reader_discovery_def on_data_writer_discovery_def
      track_def RemoveWiretap_def Let_def AddWiretap_frame
      split: if_splits sum.splits ReaderDiscoveryStatus.splits WriterDiscoveryStatus.splits ParticipantDiscoveryStatus.splits)+

lemma spy_inv_reader_tables [simp]:
  "spy_inv user (s\<lparr>m_subscriberData := d, m_topicSubscribers := e\<rparr>) = spy_inv user s"
  by (simp add: spy_inv_def tapped_names_def)

lemma spy_inv_reader_event:
  assumes "on_data_reader_discovery sp user st i (s, u) = Inr (s', u')"
  shows "spy_inv user s' = spy_inv user s"
  using assms
  by (auto simp: on_data_reader_discovery_def split: if_splits sum.splits ReaderDiscoveryStatus.splits)

lemma spy_inv_discovered:
  assumes "AddWiretap user te (ei_topic_name i) (s, v) = Inr (s1, u')" "spy_inv user s"
  shows "spy_inv user (s1\<lparr>m_publisherData := d,
     m_topicPublishers := multimap_insert (ei_topic_name i) g (m_topicPublishers s1)\<rparr>)"
  using assms AddWiretap_names [OF assms] AddWiretap_frame(1) [OF assms(1)]
  by (auto simp: spy_inv_def)

lemma spy_inv_fewer_writers:
  assumes "spy_inv user s" "set e \<subseteq> set (m_topicPublishers s)"
  shows "spy_inv user (s\<lparr>m_publisherData := d, m_topicPublishers := e\<rparr>)"
  using assms image_mono [OF assms(2), of fst] by (simp add: spy_inv_def subset_iff)

lemma spy_inv_removed:
  assumes "spy_inv user s"
  shows "spy_inv user (s\<lparr>m_publisherData := d, m_topicPublishers := multimap_erase_value t g (m_topicPublishers s)\<rparr>)"
    "spy_inv user (RemoveWiretap t s)"
  using assms spy_inv_fewer_writers [OF assms set_multimap_erase_value]
  by (auto simp: spy_inv_def RemoveWiretap_def)

lemma spy_inv_untapped:
  assumes "spy_inv user s" "\<not> tapTopic user t"
  shows "spy_inv user (s\<lparr>m_publisherData := d, m_topicPublishers := multimap_insert t g (m_topicPublishers s)\<rparr>)"
  using assms by (auto simp: spy_inv_def)

lemma spy_inv_writer_event:
  assumes "on_data_writer_discovery sp user te st i (s, u) = Inr (s', u')" "spy_inv user s"
  shows "spy_inv user s'"
  using assms
  by (auto simp: on_data_writer_discovery_def Let_def spy_inv_removed spy_inv_untapped intro: spy_inv_discovered
      split: if_splits sum.splits WriterDiscoveryStatus.splits)

lemma spy_inv_participant_event: "spy_inv user (on_participant_discovery sp st i s) = spy_inv user s"
  by (simp add: on_participant_discovery_def spy_inv_def tapped_names_def split: ParticipantDiscoveryStatus.splits)

lemma spy_inv_event:
  assumes "spy_event sp user ev (s, u) = Inr (s', u')" "spy_inv user s"
  shows "spy_inv user s'"
  using assms
  by (cases ev) (auto simp: spy_inv_participant_event spy_inv_reader_event dest: spy_inv_writer_event)

lemma spy_events_live:
  assumes "spy_events sp user evs (s, u) = Inr (s', u')" "spy_inv user s"
  shows "spy_inv user s' \<and>
    mset (m_topicPublishers s') = fold (live_writers (\<lambda>g. sp g (m_discovery_guid s))) evs (mset (m_topicPublishers s)) \<and>
    mset (m_topicSubscribers s') = fold (live_readers (\<lambda>g. sp g (m_discovery_guid s))) evs (mset (m_topicSubscribers s))"
  using assms
proof (induction evs arbitrary: s u)
  case (Cons ev evs)
  then obtain s1 u1 where step: "spy_event sp user ev (s, u) = Inr (s1, u1)"
    and rest: "spy_events sp user evs (s1, u1) = Inr (s', u')" by (auto split: sum.splits)
  show ?case
    using Cons.IH [OF rest spy_inv_event [OF step Cons.prems(2)]] spy_event_live [OF step] by simp
qed simp

section \<open>A concrete run\<close>

definition ex_guid :: "96 word \<Rightarrow> u32 \<Rightarrow> GUID_t" where
  "ex_guid p e = \<lparr>guidPrefix = p, entityId = e\<rparr>"

definition ex_endpoint :: "string \<Rightarrow> u32 \<Rightarrow> EndpointBuiltinTopicData" where
  "ex_endpoint t e = \<lparr>ei_guid = ex_guid 7 e, ei_topic_name = t\<rparr>"

definition ex_tap :: tap_env where
  "ex_tap = \<lparr>te_env = \<lparr>ce_participant = True, ce_entity = True, ce_topic_found = False, ce_topic_created = True,
       ce_endpoint = True\<rparr>, te_ports = \<lparr>portBase = 7400, domainIDGain = 250, offsetd2 = 1\<rparr>,
     te_early = [SubscriptionMatched 1], te_samples = []\<rparr>"

definition ex_spy_user :: "(string \<times> bytes) list spy_user" where
  "ex_spy_user = \<lparr>tapTopic = (\<lambda>_. True), subscriberDiscovered = (\<lambda>_ _ u. u), publisherDiscovered = (\<lambda>_ _ u. u),
     subscriberRemoved = (\<lambda>_ _ u. u), publisherRemoved = (\<lambda>_ _ u. u),
     topicSubscriberData = (\<lambda>t d u. u @ [(t, d)])\<rparr>"

definition ex_spy :: "(string \<times> bytes) list MiddlewareSpy" where
  "ex_spy = \<lparr>m_discovery_guid = ex_guid 1 1,
     m_spMiddlewareParticipant = \<lparr>dp_name = ''MiddlewareSpy'', dp_domain_id = 0, dp_pPublisher = False, dp_pSubscriber = False\<rparr>,
     m_middlewareSubscribers = [], m_participantData = [], m_subscriberData = [], m_publisherData = [],
     m_topicSubscribers = [], m_topicPublishers = [], m_tappedTopics = {#}\<rparr>"

definition ex_discovery :: "discovery_event list" where
  "ex_discovery = [ParticipantEvent DISCOVERED_PARTICIPANT \<lparr>pi_guid = ex_guid 7 0, pi_participant_name = ''app''\<rparr>,
     WriterEvent ex_tap DISCOVERED_WRITER (ex_endpoint ''a'' 1), WriterEvent ex_tap DISCOVERED_WRITER (ex_endpoint ''b'' 2),
     WriterEvent ex_tap REMOVED_WRITER (ex_endpoint ''a'' 1)]"

definition ex_same :: "GUID_t \<Rightarrow> GUID_t \<Rightarrow> bool" where
  "ex_same a b = (guidPrefix a = guidPrefix b)"

lemmas ex_spy_defs = ex_guid_def ex_endpoint_def ex_tap_def ex_spy_user_def ex_spy_def ex_discovery_def ex_same_def

lemma ex_spy_ctor: "MiddlewareSpy_ctor (te_env ex_tap) (Some (ex_guid 1 1)) = Inr ex_spy"
  by (simp add: MiddlewareSpy_ctor_def DomainParticipantMessageStub_ctor_def MessageParticipant_ctor_def ex_spy_defs)

lemmas spy_eval = on_participant_discovery_def on_data_writer_discovery_def on_data_reader_discovery_def participant_at_def AddWiretap_def
  RemoveWiretap_def MessageParticipant_CreateReader_def stub_CreateReader_def MessageReader_Create_def topic_available_def
  MessageReader_ctor_def MessageReader_SetDependency_def on_subscription_matched_def OnSubscriptionMatched_def
  smap_emplace_def smap_erase_def smap_find_def multimap_insert_def multimap_erase_value_def Let_def

lemma ex_spy_run:
  "\<exists>s' u'. spy_events ex_same ex_spy_user ex_discovery (ex_spy, []) = Inr (s', u') \<and>
     m_topicPublishers s' = [(''b'', ex_guid 7 2)] \<and> m_publisherData s' = []"
  by (simp add: spy_eval ex_spy_defs)

section \<open>Properties\<close>

text \<open>
C24: After any sequence of discovery events that the spy survives, its topic tables hold exactly the
readers and the writers of other processes that were discovered and not removed since, and every
topic that still has a writer and is to be tapped has a reader, whatever the order of the events.
\<close>

theorem spy_tracks_endpoints:
  assumes "MiddlewareSpy_ctor env (Some own) = Inr s" "spy_events sp user evs (s, u) = Inr (s', u')"
  shows "mset (m_topicPublishers s') = fold (live_writers (\<lambda>g. sp g own)) evs {#} \<and>
    mset (m_topicSubscribers s') = fold (live_readers (\<lambda>g. sp g own)) evs {#} \<and>
    {t \<in> fst ` set (m_topicPublishers s'). tapTopic user t} \<subseteq> fst ` set (m_middlewareSubscribers s')"
proof -
  have init: "m_discovery_guid s = own" "m_topicPublishers s = []" "m_topicSubscribers s = []" "spy_inv user s"
    using assms(1) by (auto simp: MiddlewareSpy_ctor_def spy_inv_def split: sum.splits)
  show ?thesis
    using spy_events_live [OF assms(2) init(4)] init(1-3) by (auto simp: spy_inv_def tapped_names_def)
qed

theorem spy_tracks_endpoints_witness:
  "\<exists>s' u'. spy_events ex_same ex_spy_user ex_discovery (ex_spy, []) = Inr (s', u') \<and>
     mset (m_topicPublishers s') = fold (live_writers (\<lambda>g. ex_same g (ex_guid 1 1))) ex_discovery {#} \<and>
     ''b'' \<in> fst ` set (m_middlewareSubscribers s')"
proof -
  obtain s' u' where run: "spy_events ex_same ex_spy_user ex_discovery (ex_spy, []) = Inr (s', u')"
    and pubs: "m_topicPublishers s' = [(''b'', ex_guid 7 2)]" using ex_spy_run by blast
  show ?thesis
    using spy_tracks_endpoints [OF ex_spy_ctor run] run pubs by (auto simp: ex_spy_user_def)
qed

text \<open>
  The tables of endpoint data are keyed by the GUID prefix, which all endpoints of a participant
share: when one of two writers of a participant is removed, the data of the other goes with it,
although the topic table still lists that writer.
\<close>

theorem sibling_writer_data_lost:
  "case spy_events ex_same ex_spy_user ex_discovery (ex_spy, []) of
     Inl _ \<Rightarrow> False
   | Inr (s', _) \<Rightarrow> m_topicPublishers s' = [(''b'', ex_guid 7 2)] \<and> m_publisherData s' = []"
  using ex_spy_run by auto

end
