(* ===== verification/Common_Utilities.thy ===== *)
theory Common_Utilities
  imports Mw_Prelude
begin

text \<open>
  The utilities of \<open>lib/framework/common\<close> that other parts and the unit tests rely on: the exchangeable
  clock with its timed waits, \<open>SimpleTaskSignal\<close>, \<open>TestUniquePtr\<close> and the validators of
  single-threaded use.  Time is in nanoseconds; a wait on the test clock is a sequence of polls, each
  with what the future or semaphore reported and the simulated time at the check that follows.
\<close>

section \<open>The clock\<close>

datatype clock = RealClock | TestClock

record ChronoImpl =
  m_spChronoInstance :: "clock option"
  time_event :: nat

definition Chrono_get :: "ChronoImpl \<Rightarrow> clock \<times> ChronoImpl" where
  "Chrono_get c = (case m_spChronoInstance c of
     None \<Rightarrow> (RealClock, c\<lparr>m_spChronoInstance := Some RealClock\<rparr>) | Some k \<Rightarrow> (k, c))"

definition Chrono_reset :: "ChronoImpl \<Rightarrow> ChronoImpl" where
  "Chrono_reset c = c\<lparr>m_spChronoInstance := Some RealClock\<rparr>"

definition Chrono_set :: "clock \<Rightarrow> ChronoImpl \<Rightarrow> ChronoImpl" where
  "Chrono_set k c = c\<lparr>m_spChronoInstance := Some k\<rparr>"

definition release :: "ChronoImpl \<Rightarrow> ChronoImpl" where
  "release c = c\<lparr>time_event := time_event c + 1\<rparr>"

datatype future_status = fs_ready | fs_timeout | fs_deferred

text \<open>
  The poll loop of \<open>wait_for\<close> on the test clock; \<open>None\<close> while the given polls do not end it.  After
  the loop the deadline is checked once more.
\<close>

fun wait_loop :: "nat \<Rightarrow> (future_status \<times> nat) list \<Rightarrow> ChronoImpl \<Rightarrow> (future_status \<times> ChronoImpl) option" where
  "wait_loop deadline [] c = None"
| "wait_loop deadline ((st, now) # polls) c =
     (if st = fs_timeout
      then if now \<ge> deadline then Some (fs_timeout, release c) else wait_loop deadline polls c
      else if now \<ge> deadline then Some (fs_timeout, release c) else Some (st, c))"

definition wait_for :: "future_status \<Rightarrow> nat \<Rightarrow> nat \<Rightarrow> (future_status \<times> nat) list \<Rightarrow> ChronoImpl \<Rightarrow> (future_status \<times> ChronoImpl) option" where
  "wait_for real_result start time polls c = (case Chrono_get c of
     (RealClock, c') \<Rightarrow> Some (real_result, c')
   | (TestClock, c') \<Rightarrow> wait_loop (start + time) polls (release c'))"

text \<open>\<open>try_acquire_for\<close> checks the deadline only after a failed attempt.\<close>

fun acquire_loop :: "nat \<Rightarrow> (bool \<times> nat) list \<Rightarrow> ChronoImpl \<Rightarrow> (bool \<times> ChronoImpl) option" where
  "acquire_loop deadline [] c = None"
| "acquire_loop deadline ((got, now) # polls) c =
     (if got then Some (True, c)
      else if now \<ge> deadline then Some (False, release c) else acquire_loop deadline polls c)"

definition try_acquire_for :: "bool \<Rightarrow> nat \<Rightarrow> nat \<Rightarrow> (bool \<times> nat) list \<Rightarrow> ChronoImpl \<Rightarrow> (bool \<times> ChronoImpl) option" where
  "try_acquire_for real_result start time polls c = (case Chrono_get c of
     (RealClock, c') \<Rightarrow> Some (real_result, c')
   | (TestClock, c') \<Rightarrow> acquire_loop (start + time) polls (release c'))"

section \<open>SimpleTaskSignal\<close>

text \<open>The task's thread fulfils the promise when the callback has returned.\<close>

record SimpleTaskSignal =
  ts_fulfilled :: bool
  ts_joined :: bool

definition SimpleTaskSignal_ctor :: SimpleTaskSignal where
  "SimpleTaskSignal_ctor = \<lparr>ts_fulfilled = False, ts_joined = False\<rparr>"

definition task_thread :: "SimpleTaskSignal \<Rightarrow> SimpleTaskSignal" where
  "task_thread s = s\<lparr>ts_fulfilled := True\<rparr>"

text \<open>The destructor joins: it returns only when the thread has ended.\<close>

definition SimpleTaskSignal_dtor :: "SimpleTaskSignal \<Rightarrow> SimpleTaskSignal option" where
  "SimpleTaskSignal_dtor s = (if ts_fulfilled s then Some (s\<lparr>ts_joined := True\<rparr>) else None)"

definition SimpleTaskSignal_Wait ::
  "future_status \<Rightarrow> nat \<Rightarrow> nat \<Rightarrow> (future_status \<times> nat) list \<Rightarrow> SimpleTaskSignal \<times> ChronoImpl \<Rightarrow> (bool \<times> SimpleTaskSignal \<times> ChronoImpl) option" where
  "SimpleTaskSignal_Wait real_result start duration polls = (\<lambda>(s, c).
     case wait_for real_result start duration polls c of
       None \<Rightarrow> None
     | Some (status, c') \<Rightarrow> Some (if status = fs_timeout then False else True, s, c'))"

section \<open>TestUniquePtr\<close>

text \<open>Objects are named by their address; the transient owner and the raw pointer.\<close>

record TestUniquePtr =
  m_spTransientT :: "nat option"
  m_pT :: "nat option"

definition TestUniquePtr_default :: TestUniquePtr where
  "TestUniquePtr_default = \<lparr>m_spTransientT = None, m_pT = None\<rparr>"

definition TestUniquePtr_ctor :: "nat option \<Rightarrow> TestUniquePtr cpp" where
  "TestUniquePtr_ctor spT = (if spT = None then Inl AssertFailed else Inr \<lparr>m_spTransientT = spT, m_pT = spT\<rparr>)"

definition TestUniquePtr_assign :: "nat option \<Rightarrow> TestUniquePtr \<Rightarrow> TestUniquePtr cpp" where
  "TestUniquePtr_assign spT p = (if spT = None then Inl AssertFailed else Inr (p\<lparr>m_spTransientT := spT, m_pT := spT\<rparr>))"

definition Taken :: "TestUniquePtr \<Rightarrow> bool" where
  "Taken p \<longleftrightarrow> m_pT p \<noteq> None \<and> m_spTransientT p = None"

definition TakeUniquePtr :: "TestUniquePtr \<Rightarrow> (nat option \<times> TestUniquePtr) cpp" where
  "TakeUniquePtr p = (if Taken p then Inl AssertFailed else Inr (m_spTransientT p, p\<lparr>m_spTransientT := None\<rparr>))"

definition ptr_arrow :: "TestUniquePtr \<Rightarrow> nat cpp" where
  "ptr_arrow p = (case m_pT p of None \<Rightarrow> Inl AssertFailed | Some a \<Rightarrow> Inr a)"

definition ptr_get :: "TestUniquePtr \<Rightarrow> nat option" where
  "ptr_get p = m_pT p"

definition ptr_reset :: "TestUniquePtr \<Rightarrow> TestUniquePtr" where
  "ptr_reset p = p\<lparr>m_spTransientT := None, m_pT := None\<rparr>"

section \<open>Validators of single-threaded use\<close>

definition ValidateCurrentThread :: "nat \<Rightarrow> nat \<Rightarrow> unit cpp" where
  "ValidateCurrentThread m_threadId current = (if m_threadId = current then Inr () else Inl AssertFailed)"

definition Lazy_ValidateCurrentThread :: "nat \<Rightarrow> nat option \<Rightarrow> nat option cpp" where
  "Lazy_ValidateCurrentThread current validator =
     (let v = (case validator of None \<Rightarrow> current | Some t \<Rightarrow> t) in
      case ValidateCurrentThread v current of Inl e \<Rightarrow> Inl e | Inr _ \<Rightarrow> Inr (Some v))"

fun validate_all :: "nat list \<Rightarrow> nat option \<Rightarrow> nat option cpp" where
  "validate_all [] v = Inr v"
| "validate_all (t # ts) v = (case Lazy_ValidateCurrentThread t v of Inl e \<Rightarrow> Inl e | Inr v' \<Rightarrow> validate_all ts v')"

section \<open>Lemmas\<close>

text \<open>The poll that ends a wait: the first one that is not a timeout or is past the deadline.\<close>

definition decisive :: "nat \<Rightarrow> (future_status \<times> nat) list \<Rightarrow> (future_status \<times> nat) option" where
  "decisive deadline polls = List.find (\<lambda>(st, now). st \<noteq> fs_timeout \<or> now \<ge> deadline) polls"

lemma wait_loop_decisive:
  "wait_loop deadline polls c = map_option (\<lambda>(st, now). if now \<ge> deadline then (fs_timeout, release c) else (st, c)) (decisive deadline polls)"
  by (induction deadline polls c rule: wait_loop.induct) (auto simp: decisive_def)

lemma decisive_exists:
  assumes "polls \<noteq> []" "deadline \<le> snd (last polls)"
  shows "\<exists>p. decisive deadline polls = Some p"
proof -
  have "last polls \<in> set polls" using assms(1) by simp
  then show ?thesis unfolding decisive_def find_Some_iff_ex using assms(2) by (auto simp: case_prod_beta)
qed

lemma validate_all_Some: "(\<exists>v. validate_all ts (Some t) = Inr v) \<longleftrightarrow> set ts \<subseteq> {t}"
  by (induction ts) (auto simp: Lazy_ValidateCurrentThread_def ValidateCurrentThread_def)

section \<open>Properties\<close>

text \<open>
  On the test clock a timed wait returns as soon as the simulated time has reached the deadline,
and it reports the future as ready only if it was ready at a poll before the deadline: a result that
comes with the deadline or later counts as a timeout.
\<close>

theorem wait_for_deadline:
  assumes "m_spChronoInstance c = Some TestClock" "polls \<noteq> []" "start + time \<le> snd (last polls)"
  shows "\<exists>st now. decisive (start + time) polls = Some (st, now) \<and>
    map_option fst (wait_for real start time polls c) = Some (if now \<ge> start + time then fs_timeout else st)"
proof -
  obtain st now where "decisive (start + time) polls = Some (st, now)"
    using decisive_exists [OF assms(2,3)] by auto
  then show ?thesis using assms(1) by (simp add: wait_for_def Chrono_get_def wait_loop_decisive)
qed

theorem wait_for_deadline_witness:
  "map_option fst (wait_for fs_ready 5 10 [(fs_timeout, 7), (fs_ready, 15)] \<lparr>m_spChronoInstance = Some TestClock, time_event = 0\<rparr>) =
     Some fs_timeout"
  using wait_for_deadline [of "\<lparr>m_spChronoInstance = Some TestClock, time_event = 0\<rparr>" "[(fs_timeout, 7), (fs_ready, 15)]" 5 10 fs_ready]
  by (simp add: decisive_def)

text \<open>
  The lazy validator binds to the first thread that calls it: a sequence of calls passes its
assertions exactly when all of them come from one thread.
\<close>

theorem lazy_validator_single_thread:
  "(\<exists>v. validate_all ts None = Inr v) = (ts = [] \<or> set ts = {hd ts})"
  by (cases ts) (auto simp: Lazy_ValidateCurrentThread_def ValidateCurrentThread_def validate_all_Some)

end
