(* ===== verification/Std_Stream.thy ===== *)
theory Std_Stream
  imports Mw_Prelude
begin

text \<open>
  Formatted input as the programs use it: \<open>operator>>\<close> of an \<open>std::istringstream\<close> on words and on
  integers, and the loop \<open>while(stream >> token)\<close>.  A stream is the unread text and its fail bit;
  an extraction from a failed stream leaves the variable alone.
\<close>

section \<open>Extraction\<close>

record istream =
  is_text :: string
  is_fail :: bool

definition istringstream :: "string \<Rightarrow> istream" where
  "istringstream text = \<lparr>is_text = text, is_fail = False\<rparr>"

definition nonspace :: "char \<Rightarrow> bool" where
  "nonspace c = (\<not> isspace c)"

text \<open>\<open>ss >> word\<close>: skips white space; at the end of the text the fail bit is set.\<close>

definition get_word :: "istream \<Rightarrow> string option \<times> istream" where
  "get_word s =
     (if is_fail s then (None, s)
      else let r = dropWhile isspace (is_text s) in
        if r = [] then (None, \<lparr>is_text = [], is_fail = True\<rparr>)
        else (Some (takeWhile nonspace r), s\<lparr>is_text := dropWhile nonspace r\<rparr>))"

definition isdigit :: "char \<Rightarrow> bool" where
  "isdigit c \<longleftrightarrow> (let n = (of_char c :: nat) in 48 \<le> n \<and> n \<le> 57)"

text \<open>
  \<open>ss >> n\<close> on a \<open>long\<close>: an optional sign and the digits that follow.  Without digits the value is 0
  and the fail bit is set; at the end of the text nothing is stored (\<open>None\<close>).  A value out of the
  range of \<open>long\<close> is clamped and sets the fail bit.
\<close>

definition LONG_MAX :: int where "LONG_MAX = 2 ^ 63 - 1"
definition LONG_MIN :: int where "LONG_MIN = - (2 ^ 63)"

definition get_long :: "istream \<Rightarrow> int option \<times> istream" where
  "get_long s =
     (if is_fail s then (None, s)
      else let r = dropWhile isspace (is_text s) in
        if r = [] then (None, \<lparr>is_text = [], is_fail = True\<rparr>)
        else let neg = (hd r = CHR ''-''); r' = (if neg \<or> hd r = CHR ''+'' then tl r else r);
                 ds = takeWhile isdigit r'; v = (if neg then - int (read_nat ds) else int (read_nat ds)) in
          if ds = [] then (Some 0, \<lparr>is_text = r', is_fail = True\<rparr>)
          else if v > LONG_MAX then (Some LONG_MAX, \<lparr>is_text = dropWhile isdigit r', is_fail = True\<rparr>)
          else if v < LONG_MIN then (Some LONG_MIN, \<lparr>is_text = dropWhile isdigit r', is_fail = True\<rparr>)
          else (Some v, s\<lparr>is_text := dropWhile isdigit r'\<rparr>))"

text \<open>\<open>while(stream >> token) tokens.push_back(token)\<close>\<close>

lemma get_word_shorter: "get_word s = (Some w, s') \<Longrightarrow> length (is_text s') < length (is_text s)"
proof -
  assume "get_word s = (Some w, s')"
  then have *: "dropWhile isspace (is_text s) \<noteq> []"
    "is_text s' = dropWhile nonspace (dropWhile isspace (is_text s))"
    by (auto simp: get_word_def Let_def split: if_splits)
  have "nonspace (hd (dropWhile isspace (is_text s)))"
    using *(1) hd_dropWhile [of isspace "is_text s"] by (simp add: nonspace_def)
  then have "length (is_text s') < length (dropWhile isspace (is_text s))"
    using * by (cases "dropWhile isspace (is_text s)") (auto simp: le_imp_less_Suc length_dropWhile_le)
  also have "\<dots> \<le> length (is_text s)" by (rule length_dropWhile_le)
  finally show ?thesis .
qed

function all_words :: "istream \<Rightarrow> string list" where
  "all_words s = (case get_word s of (None, _) \<Rightarrow> [] | (Some w, s') \<Rightarrow> w # all_words s')"
  by auto
termination
  by (relation "measure (\<lambda>s. length (is_text s))") (auto intro: get_word_shorter sym)

declare all_words.simps [simp del]

section \<open>Words separated by spaces\<close>

definition is_word :: "string \<Rightarrow> bool" where
  "is_word w \<longleftrightarrow> w \<noteq> [] \<and> list_all nonspace w"

definition spaced :: "string list \<Rightarrow> string" where
  "spaced ws = concat (map (\<lambda>w. CHR '' '' # w) ws)"

lemma spaced_simps [simp]: "spaced [] = []" "spaced (w # ws) = CHR '' '' # w @ spaced ws"
  by (simp_all add: spaced_def)

lemma isspace_blank [simp]: "isspace CHR '' ''" "\<not> nonspace CHR '' ''"
  by (simp_all add: isspace_def nonspace_def)

lemma is_wordD: "is_word w \<Longrightarrow> w \<noteq> [] \<and> \<not> isspace (hd w) \<and> (\<forall>c \<in> set w. nonspace c)"
  by (cases w) (auto simp: is_word_def nonspace_def list_all_iff)

lemma spaced_While [simp]: "takeWhile nonspace (spaced ws) = []" "dropWhile nonspace (spaced ws) = spaced ws"
  by (cases ws; simp)+

lemma takeWhile_word: "is_word w \<Longrightarrow> takeWhile nonspace (w @ spaced ws) = w"
  using is_wordD [of w] by (simp add: takeWhile_append2)

lemma dropWhile_word: "is_word w \<Longrightarrow> dropWhile nonspace (w @ spaced ws) = spaced ws"
  using is_wordD [of w] by (simp add: dropWhile_append2)

lemma skip_word: "is_word w \<Longrightarrow> dropWhile isspace (w @ t) = w @ t"
  using is_wordD [of w] by (cases w) auto

lemma get_word_first:
  "is_word w \<Longrightarrow> get_word \<lparr>is_text = w @ spaced ws, is_fail = False\<rparr> = (Some w, \<lparr>is_text = spaced ws, is_fail = False\<rparr>)"
  using is_wordD [of w] by (simp add: get_word_def Let_def skip_word takeWhile_word dropWhile_word)

lemma get_word_spaced:
  "is_word w \<Longrightarrow> get_word \<lparr>is_text = spaced (w # ws), is_fail = False\<rparr> = (Some w, \<lparr>is_text = spaced ws, is_fail = False\<rparr>)"
  using is_wordD [of w] by (simp add: get_word_def Let_def skip_word takeWhile_word dropWhile_word)

lemma all_words_spaced:
  "list_all is_word ws \<Longrightarrow> all_words \<lparr>is_text = spaced ws, is_fail = False\<rparr> = ws"
proof (induction ws)
  case Nil
  then show ?case by (simp add: all_words.simps get_word_def)
next
  case (Cons w ws)
  then show ?case by (subst all_words.simps) (simp add: get_word_spaced del: spaced_simps)
qed

lemma digit_char_facts:
  assumes "d < 10"
  shows "isdigit (digit_char d)" "nonspace (digit_char d)" "digit_char d \<noteq> CHR ''-''" "digit_char d \<noteq> CHR ''+''"
proof -
  have n: "of_char (digit_char d) = 48 + d" using assms by (simp add: digit_char_def)
  then show "isdigit (digit_char d)" "nonspace (digit_char d)"
    using assms by (simp_all add: isdigit_def nonspace_def isspace_def)
  show "digit_char d \<noteq> CHR ''-''" "digit_char d \<noteq> CHR ''+''" using n by auto
qed

lemma show_nat_digits: "list_all (\<lambda>c. isdigit c \<and> nonspace c \<and> c \<noteq> CHR ''-'' \<and> c \<noteq> CHR ''+'') (show_nat n)"
proof (induction n rule: show_nat.induct)
  case (1 n)
  then show ?case
    by (subst show_nat.simps) (simp add: digit_char_facts)
qed

lemma is_word_show_nat: "is_word (show_nat n)"
  using show_nat_digits [of n] by (auto simp: is_word_def list_all_iff)

lemma blank_no_digit [simp]: "\<not> isdigit CHR '' ''"
  by (simp add: isdigit_def)

lemma get_long_spaced:
  assumes "int n \<le> LONG_MAX"
  shows "get_long \<lparr>is_text = spaced (show_nat n # ws), is_fail = False\<rparr> = (Some (int n), \<lparr>is_text = spaced ws, is_fail = False\<rparr>)"
proof -
  have ds: "\<And>c. c \<in> set (show_nat n) \<Longrightarrow> isdigit c" "hd (show_nat n) \<noteq> CHR ''-''" "hd (show_nat n) \<noteq> CHR ''+''"
    using show_nat_digits [of n] show_nat_nonempty [of n] by (auto simp: list_all_iff)
  have "takeWhile isdigit (spaced ws) = []" "dropWhile isdigit (spaced ws) = spaced ws"
    by (cases ws; simp)+
  then have "takeWhile isdigit (show_nat n @ spaced ws) = show_nat n" "dropWhile isdigit (show_nat n @ spaced ws) = spaced ws"
    using ds(1) by (simp_all add: takeWhile_append2 dropWhile_append2)
  then show ?thesis
    using assms ds(2,3) by (simp add: get_long_def Let_def skip_word [OF is_word_show_nat] LONG_MIN_def)
qed

end
