(* ===== verification/Process_Launcher.thy ===== *)
theory Process_Launcher
  imports Std_Map Std_Stream "HOL-Library.Multiset"
begin

text \<open>
  The process launcher of the ROS 2 workspace (\<open>process_launcher/src/launcher.cpp\<close>): it starts the
  applications of a configuration file, restarts them by policy when they exit, logs their CPU and
  memory use and terminates them on SIGINT.  The operating system is explicit: the results of the
  coming \<open>fork\<close> calls are part of the state, the children \<open>waitpid\<close> reports and the texts under
  \<open>/proc\<close> are arguments.  Times are unbounded integers; the CPU percentage, a \<open>double\<close>, is logged by
  its operands.
\<close>

section \<open>State\<close>

datatype RestartPolicy = ALWAYS | ON_FAILURE | NEVER | OtherPolicy int

definition RestartPolicy_of_int :: "int \<Rightarrow> RestartPolicy" where
  "RestartPolicy_of_int i = (if i = 0 then ALWAYS else if i = 1 then ON_FAILURE else if i = 2 then NEVER else OtherPolicy i)"

record AppConfig =
  executable :: string
  args :: "string list"
  policy :: RestartPolicy

datatype log_entry =
    LogText string
  | LogCpu int int int int

record ProcessManager =
  pidMap :: "(int, AppConfig) smap"
  lastProcTime :: "(int, int) smap"
  lastTotalCPU :: int
  running :: bool
  childDied :: bool
  os_forks :: "int list"
  manager_log :: "log_entry list"

definition ProcessManager_initial :: "int list \<Rightarrow> ProcessManager" where
  "ProcessManager_initial forks = \<lparr>pidMap = [], lastProcTime = [], lastTotalCPU = 0, running = True, childDied = False,
     os_forks = forks, manager_log = []\<rparr>"

definition mgr_log :: "log_entry \<Rightarrow> ProcessManager \<Rightarrow> ProcessManager" where
  "mgr_log e m = m\<lparr>manager_log := manager_log m @ [e]\<rparr>"

text \<open>\<open>AppConfig{}\<close>: what \<open>pidMap[pid]\<close> makes of a pid that is not in the map.\<close>

definition AppConfig_default :: AppConfig where
  "AppConfig_default = \<lparr>executable = [], args = [], policy = RestartPolicy_of_int 0\<rparr>"

section \<open>CPU times\<close>

text \<open>A variable that no extraction has stored into is read as \<open>None\<close>: its value is indeterminate.\<close>

fun read_longs :: "nat \<Rightarrow> istream \<Rightarrow> int option list" where
  "read_longs 0 s = []"
| "read_longs (Suc n) s = (case get_long s of (v, s') \<Rightarrow> v # read_longs n s')"

fun skip_words :: "nat \<Rightarrow> istream \<Rightarrow> istream" where
  "skip_words 0 s = s"
| "skip_words (Suc n) s = skip_words n (snd (get_word s))"

definition sum_longs :: "int option list \<Rightarrow> int option" where
  "sum_longs vs = (if None \<in> set vs then None else Some (sum_list (map the vs)))"

definition getTotalCPUTime :: "string \<Rightarrow> int option" where
  "getTotalCPUTime line = sum_longs (read_longs 8 (skip_words 1 (istringstream line)))"

definition getProcessCPUTime :: "string \<Rightarrow> int option" where
  "getProcessCPUTime line = sum_longs (read_longs 2 (skip_words 10 (skip_words 3 (istringstream line))))"

definition contains :: "string \<Rightarrow> string \<Rightarrow> bool" where
  "contains line w = list_ex (\<lambda>i. take (length w) (drop i line) = w) [0..<Suc (length line)]"

definition readStatus :: "int \<Rightarrow> string list \<Rightarrow> ProcessManager \<Rightarrow> ProcessManager" where
  "readStatus pid lines m =
     foldl (\<lambda>m line. if contains line ''VmRSS'' \<or> contains line ''VmSize''
                     then mgr_log (LogText (''PID '' @ show_int pid @ '' -> '' @ line)) m else m) m lines"

section \<open>Processes\<close>

definition ParseArgs :: "string \<Rightarrow> string list" where
  "ParseArgs args_text = all_words (istringstream args_text)"

definition DescribeApp :: "AppConfig \<Rightarrow> string" where
  "DescribeApp app = foldl (\<lambda>d arg. d @ CHR '' '' # arg) (executable app) (args app)"

definition sys_fork :: "ProcessManager \<Rightarrow> int \<times> ProcessManager" where
  "sys_fork m = (case os_forks m of [] \<Rightarrow> (-1, m) | p # ps \<Rightarrow> (p, m\<lparr>os_forks := ps\<rparr>))"

text \<open>The parent's side of \<open>startProcess\<close>, and the argument vector of the child's \<open>execv\<close>.\<close>

definition child_argv :: "AppConfig \<Rightarrow> string list" where
  "child_argv app = executable app # args app"

definition startProcess :: "AppConfig \<Rightarrow> ProcessManager \<Rightarrow> int \<times> ProcessManager" where
  "startProcess app m = (case sys_fork m of (pid, m1) \<Rightarrow>
     (pid, mgr_log (LogText (''Started '' @ DescribeApp app @ '' PID='' @ show_int pid))
             (m1\<lparr>pidMap := smap_assign pid app (pidMap m1)\<rparr>)))"

text \<open>The configuration document: \<open>None\<close> when it does not load, else the attributes of the children.\<close>

definition launchAllApps :: "(string \<times> string \<times> int) list option \<Rightarrow> ProcessManager \<Rightarrow> ProcessManager" where
  "launchAllApps document m =
     (case document of
        None \<Rightarrow> m
      | Some apps \<Rightarrow> foldl (\<lambda>m (name, args_text, p).
          snd (startProcess \<lparr>executable = name, args = ParseArgs args_text, policy = RestartPolicy_of_int p\<rparr> m)) m apps)"

text \<open>
  A result of \<open>waitpid\<close>, with the signals that arrive while the launcher sleeps after it, and what the kernel shows
  one iteration of the main loop.
\<close>

record child_exit =
  ex_pid :: int
  ex_status :: int
  ex_sigchld :: bool
  ex_sigint :: bool

record tick =
  tk_sigint :: bool
  tk_sigchld :: bool
  tk_exits :: "child_exit list"
  tk_total :: string
  tk_alive :: "int \<Rightarrow> bool"
  tk_stat :: "int \<Rightarrow> string"
  tk_status :: "int \<Rightarrow> string list"
  tk_cores :: int

definition monitor_one :: "tick \<Rightarrow> int \<Rightarrow> int \<Rightarrow> ProcessManager \<Rightarrow> ProcessManager option" where
  "monitor_one t totalCPU pid m =
     (if tk_alive t pid then
        (case getProcessCPUTime (tk_stat t pid) of
           None \<Rightarrow> None
         | Some procTime \<Rightarrow>
             (let m1 = (case smap_find (lastProcTime m) pid of
                          Some prev \<Rightarrow>
                            if lastTotalCPU m \<noteq> 0
                            then mgr_log (LogCpu pid (procTime - prev) (totalCPU - lastTotalCPU m) (tk_cores t)) m else m
                        | None \<Rightarrow> m) in
              Some (readStatus pid (tk_status t pid) (m1\<lparr>lastProcTime := smap_assign pid procTime (lastProcTime m1)\<rparr>))))
      else Some m)"

fun monitor_loop :: "tick \<Rightarrow> int \<Rightarrow> (int \<times> AppConfig) list \<Rightarrow> ProcessManager \<Rightarrow> ProcessManager option" where
  "monitor_loop t totalCPU [] m = Some m"
| "monitor_loop t totalCPU (p # ps) m =
     (case monitor_one t totalCPU (fst p) m of None \<Rightarrow> None | Some m' \<Rightarrow> monitor_loop t totalCPU ps m')"

definition monitorProcesses :: "tick \<Rightarrow> ProcessManager \<Rightarrow> ProcessManager option" where
  "monitorProcesses t m =
     (case getTotalCPUTime (tk_total t) of
        None \<Rightarrow> None
      | Some totalCPU \<Rightarrow>
          (case monitor_loop t totalCPU (pidMap m) m of
             None \<Rightarrow> None
           | Some m' \<Rightarrow> Some (m'\<lparr>lastTotalCPU := totalCPU\<rparr>)))"

definition shouldRestart :: "AppConfig \<Rightarrow> int \<Rightarrow> bool" where
  "shouldRestart app status \<longleftrightarrow>
     (if policy app = ALWAYS then True else if policy app = ON_FAILURE \<and> status \<noteq> 0 then True else False)"

text \<open>One pass of the \<open>waitpid\<close> loop, for a child with the given pid and status.\<close>

definition reap_one :: "int \<Rightarrow> int \<Rightarrow> ProcessManager \<Rightarrow> ProcessManager" where
  "reap_one pid status m =
     (let m1 = mgr_log (LogText (''Process exited PID='' @ show_int pid)) m;
          touched = smap_touch AppConfig_default pid (pidMap m1);
          app = (case smap_find touched pid of Some a \<Rightarrow> a | None \<Rightarrow> AppConfig_default);
          m2 = m1\<lparr>pidMap := smap_erase pid touched\<rparr> in
      if shouldRestart app status \<and> running m2
      then (case startProcess app m2 of (newPid, m3) \<Rightarrow> mgr_log (LogText (''Restarted PID='' @ show_int newPid)) m3)
      else mgr_log (LogText (''Not restarting PID='' @ show_int pid)) m2)"

definition sigintHandler :: "ProcessManager \<Rightarrow> ProcessManager" where
  "sigintHandler m = mgr_log (LogText ''SIGINT received, shutting down'') (m\<lparr>running := False\<rparr>)"

definition sigchldHandler :: "ProcessManager \<Rightarrow> ProcessManager" where
  "sigchldHandler m = m\<lparr>childDied := True\<rparr>"

text \<open>Signals that arrive during a \<open>sleep\<close>.\<close>

definition take_signals :: "bool \<Rightarrow> bool \<Rightarrow> ProcessManager \<Rightarrow> ProcessManager" where
  "take_signals sigchld sigint m =
     (let m1 = (if sigchld then sigchldHandler m else m) in if sigint then sigintHandler m1 else m1)"

text \<open>
  A pass with its \<open>sleep(1)\<close>.  The loop ends at the first result of \<open>waitpid\<close> that is not positive; a child that
  was restarted in an earlier pass may be among the results.
\<close>

definition reap_pass :: "child_exit \<Rightarrow> ProcessManager \<Rightarrow> ProcessManager" where
  "reap_pass e m = take_signals (ex_sigchld e) (ex_sigint e) (reap_one (ex_pid e) (ex_status e) m)"

fun reap_loop :: "child_exit list \<Rightarrow> ProcessManager \<Rightarrow> ProcessManager" where
  "reap_loop [] m = m"
| "reap_loop (e # exits) m = (if ex_pid e > 0 then reap_loop exits (reap_pass e m) else m)"

definition handleChildExit :: "child_exit list \<Rightarrow> ProcessManager \<Rightarrow> ProcessManager" where
  "handleChildExit exits m = (if \<not> childDied m then m else reap_loop exits (m\<lparr>childDied := False\<rparr>))"

datatype sys_call = Kill int string | Waitpid int

definition cleanup :: "ProcessManager \<Rightarrow> sys_call list \<times> ProcessManager" where
  "cleanup m = (map (\<lambda>p. Kill (fst p) ''SIGTERM'') (pidMap m) @ map (\<lambda>p. Waitpid (fst p)) (pidMap m),
     mgr_log (LogText ''All processes terminated. Exiting.'') m)"

text \<open>The signals that arrive during \<open>sleep(2)\<close>, then the body of the loop.\<close>

fun run_loop :: "tick list \<Rightarrow> ProcessManager \<Rightarrow> ProcessManager option" where
  "run_loop [] m = Some m"
| "run_loop (t # ts) m =
     (if running m then
        (case monitorProcesses t (handleChildExit (tk_exits t) (take_signals (tk_sigchld t) (tk_sigint t) m)) of
           None \<Rightarrow> None | Some m' \<Rightarrow> run_loop ts m')
      else Some m)"

text \<open>\<open>run\<close>: \<open>None\<close> for the system calls while the loop has not ended within the given iterations.\<close>

definition run :: "(string \<times> string \<times> int) list option \<Rightarrow> tick list \<Rightarrow> ProcessManager \<Rightarrow> (sys_call list option \<times> ProcessManager) option" where
  "run document ts m =
     (case run_loop ts (launchAllApps document m) of
        None \<Rightarrow> None
      | Some m' \<Rightarrow> Some (if running m' then (None, m') else case cleanup m' of (calls, m'') \<Rightarrow> (Some calls, m'')))"

section \<open>Text\<close>

lemma DescribeApp_spaced: "DescribeApp app = executable app @ spaced (args app)"
proof -
  have "foldl (\<lambda>d arg. d @ CHR '' '' # arg) d as = d @ spaced as" for d as
    by (induction as arbitrary: d) simp_all
  then show ?thesis by (simp add: DescribeApp_def)
qed

lemma skip_words_spaced:
  "list_all is_word ws \<Longrightarrow> skip_words (length ws) \<lparr>is_text = spaced (ws @ rest), is_fail = False\<rparr> =
     \<lparr>is_text = spaced rest, is_fail = False\<rparr>"
  by (induction ws) (simp_all add: get_word_spaced [simplified])

lemma skip_words_add: "skip_words n (skip_words m s) = skip_words (m + n) s"
  by (induction m arbitrary: s) simp_all

text \<open>A line of \<open>/proc/<pid>/stat\<close> from its first thirteen words on.\<close>

lemma getProcessCPUTime_words:
  assumes "list_all is_word (w # ws)" "length ws = 12" "int n1 \<le> LONG_MAX" "int n2 \<le> LONG_MAX"
  shows "getProcessCPUTime (w @ spaced (ws @ show_nat n1 # show_nat n2 # rest)) = Some (int n1 + int n2)"
proof -
  have "skip_words 13 (istringstream (w @ spaced (ws @ show_nat n1 # show_nat n2 # rest))) =
      skip_words 12 \<lparr>is_text = spaced (ws @ show_nat n1 # show_nat n2 # rest), is_fail = False\<rparr>"
    using assms(1) by (simp add: istringstream_def numeral_eq_Suc get_word_first del: spaced_simps)
  also have "\<dots> = \<lparr>is_text = spaced (show_nat n1 # show_nat n2 # rest), is_fail = False\<rparr>"
    using skip_words_spaced [of ws] assms(1,2) by simp
  finally show ?thesis
    using assms(3,4)
    by (simp add: getProcessCPUTime_def skip_words_add sum_longs_def numeral_eq_Suc get_long_spaced del: spaced_simps)
qed

section \<open>The table of processes\<close>

lemma mset_smap_assign_new: "smap_find m k = None \<Longrightarrow> mset (smap_assign k v m) = add_mset (k, v) (mset m)"
  unfolding smap_find_def by (induction k v m rule: smap_assign.induct) (auto split: if_splits)

lemma mset_smap_erase: "smap_inv m \<Longrightarrow> smap_find m k = Some v \<Longrightarrow> add_mset (k, v) (mset (smap_erase k m)) = mset m"
proof (induction m)
  case (Cons e m)
  show ?case
  proof (cases "fst e = k")
    case True
    then have "k \<notin> fst ` set m" using Cons.prems(1) by (auto simp: smap_inv_def)
    then have "smap_erase k m = m" by (auto simp: smap_erase_def filter_id_conv)
    then show ?thesis using Cons.prems(2) True by (cases e) (simp add: smap_erase_def smap_find_def)
  next
    case False
    then show ?thesis
      using Cons by (cases e) (auto simp: smap_erase_def smap_find_def smap_inv_def)
  qed
qed simp

definition managed :: "ProcessManager \<Rightarrow> AppConfig multiset" where
  "managed m = image_mset snd (mset (pidMap m))"

lemma managed_log [simp]: "managed (mgr_log e m) = managed m" "pidMap (mgr_log e m) = pidMap m"
  "running (mgr_log e m) = running m" "os_forks (mgr_log e m) = os_forks m" "childDied (mgr_log e m) = childDied m"
  by (simp_all add: managed_def mgr_log_def)

lemma mset_smap_assign_old:
  "smap_inv m \<Longrightarrow> smap_find m k = Some old \<Longrightarrow> add_mset (k, old) (mset (smap_assign k v m)) = add_mset (k, v) (mset m)"
proof (induction k v m rule: smap_assign.induct)
  case (2 k v k' v' m)
  then have "k < k' \<Longrightarrow> map_of m k = None" by (auto simp: smap_inv_def map_of_eq_None_iff)
  then show ?case using 2 by (auto simp: smap_find_def smap_inv_def)
qed (simp add: smap_find_def)

lemma managed_signals [simp]:
  "managed (take_signals c i m) = managed m" "pidMap (take_signals c i m) = pidMap m"
  "os_forks (take_signals c i m) = os_forks m"
  by (simp_all add: take_signals_def sigchldHandler_def sigintHandler_def Let_def managed_def mgr_log_def)

definition app_of :: "ProcessManager \<Rightarrow> int \<Rightarrow> AppConfig" where
  "app_of m pid = the (smap_find (pidMap m) pid)"

text \<open>
  What the kernel guarantees of a pass: the child that exited is one that the launcher has started, and a \<open>fork\<close>
  that succeeds gives a pid that no other child has.
\<close>

definition fork_result :: "ProcessManager \<Rightarrow> int" where
  "fork_result m = fst (sys_fork m)"

fun kernel_ok :: "child_exit list \<Rightarrow> ProcessManager \<Rightarrow> bool" where
  "kernel_ok [] m = True"
| "kernel_ok (e # exits) m =
     (ex_pid e > 0 \<and> ex_pid e \<in> fst ` set (pidMap m) \<and>
      (fork_result m = -1 \<or> fork_result m > 0 \<and> fork_result m \<notin> fst ` set (smap_erase (ex_pid e) (pidMap m))) \<and>
      kernel_ok exits (reap_pass e m))"

text \<open>
  The applications that the launcher gives up: one that exits and is not restarted, and, when the \<open>fork\<close> for a
  restart fails, the one that an earlier failure has left under the pid -1.
\<close>

definition restarts :: "child_exit \<Rightarrow> ProcessManager \<Rightarrow> bool" where
  "restarts e m \<longleftrightarrow> running m \<and> (policy (app_of m (ex_pid e)) = ALWAYS \<or>
     policy (app_of m (ex_pid e)) = ON_FAILURE \<and> ex_status e \<noteq> 0)"

definition lost :: "child_exit \<Rightarrow> ProcessManager \<Rightarrow> AppConfig multiset" where
  "lost e m =
     (if \<not> restarts e m then {#app_of m (ex_pid e)#}
      else if fork_result m = -1 then (case smap_find (pidMap m) (-1) of Some old \<Rightarrow> {#old#} | None \<Rightarrow> {#})
      else {#})"

fun given_up :: "child_exit list \<Rightarrow> ProcessManager \<Rightarrow> AppConfig multiset" where
  "given_up [] m = {#}"
| "given_up (e # exits) m = lost e m + given_up exits (reap_pass e m)"

text \<open>One exit of a known child.\<close>

lemma reap_pass_table:
  assumes "smap_find (pidMap m) (ex_pid e) = Some app"
  shows "pidMap (reap_pass e m) =
      (if restarts e m then smap_assign (fork_result m) app (smap_erase (ex_pid e) (pidMap m))
       else smap_erase (ex_pid e) (pidMap m))"
    and "os_forks (reap_pass e m) = (if restarts e m then tl (os_forks m) else os_forks m)"
  using assms
  by (auto simp: reap_pass_def reap_one_def restarts_def shouldRestart_def app_of_def Let_def smap_touch_def startProcess_def
      fork_result_def sys_fork_def mgr_log_def split: prod.splits list.splits)

lemma kernel_ok_known: "kernel_ok (e # exits) m \<Longrightarrow> \<exists>app. smap_find (pidMap m) (ex_pid e) = Some app"
  by (cases "smap_find (pidMap m) (ex_pid e)") (simp_all add: smap_find_None_iff)

lemma reap_pass_managed:
  assumes "smap_inv (pidMap m)" "kernel_ok (e # exits) m"
  shows "smap_inv (pidMap (reap_pass e m))" "managed (reap_pass e m) + lost e m = managed m"
proof -
  let ?e = "smap_erase (ex_pid e) (pidMap m)" and ?p = "fork_result m"
  obtain app where app: "smap_find (pidMap m) (ex_pid e) = Some app" using kernel_ok_known [OF assms(2)] by blast
  note table = reap_pass_table(1) [of m e app, OF app]
  show "smap_inv (pidMap (reap_pass e m))" using assms(1) by (simp add: table)
  have inv: "smap_inv ?e" using assms(1) by simp
  have erased: "managed m = add_mset app (image_mset snd (mset ?e))"
    using mset_smap_erase [OF assms(1) app, symmetric] by (simp add: managed_def)
  have minus: "smap_find ?e (-1) = smap_find (pidMap m) (-1)" using assms(2) by auto
  show "managed (reap_pass e m) + lost e m = managed m"
  proof (cases "restarts e m \<and> ?p \<in> fst ` set ?e")
    case True
    then have p: "?p = -1" using assms(2) by auto
    then obtain old where old: "smap_find ?e (-1) = Some old"
      using True smap_find_None_iff [of ?e "-1"] by (metis option.exhaust)
    have "add_mset old (image_mset snd (mset (smap_assign (-1) app ?e))) = add_mset app (image_mset snd (mset ?e))"
      using arg_cong [OF mset_smap_assign_old [OF inv old, of app], of "image_mset snd"] by simp
    moreover have "smap_find (pidMap m) (-1) = Some old" using old minus by metis
    ultimately show ?thesis using True p by (simp add: erased lost_def) (simp add: managed_def table)
  next
    case False
    then have "restarts e m \<Longrightarrow> smap_find ?e ?p = None" using smap_find_None_iff [of ?e ?p] by blast
    then have "managed (reap_pass e m) = image_mset snd (mset ?e) + (if restarts e m then {#app#} else {#})"
      by (simp add: managed_def table mset_smap_assign_new)
    moreover have no_old: "restarts e m \<Longrightarrow> ?p = -1 \<Longrightarrow> smap_find (pidMap m) (-1) = None"
      using \<open>restarts e m \<Longrightarrow> smap_find ?e ?p = None\<close> minus by metis
    moreover have "lost e m = (if restarts e m then {#} else {#app#})"
      using no_old app by (simp add: lost_def app_of_def)
    ultimately show ?thesis by (simp add: erased)
  qed
qed

lemma reap_loop_managed:
  assumes "smap_inv (pidMap m)" "kernel_ok exits m"
  shows "smap_inv (pidMap (reap_loop exits m)) \<and> managed (reap_loop exits m) + given_up exits m = managed m"
  using assms
proof (induction exits arbitrary: m)
  case (Cons e exits)
  note pass = reap_pass_managed [OF Cons.prems]
  have "kernel_ok exits (reap_pass e m)" "ex_pid e > 0" using Cons.prems(2) by simp_all
  then show ?case
    using Cons.IH [OF pass(1)] unfolding pass(2) [symmetric] by (auto simp: ac_simps)
qed simp

text \<open>When no fork fails, every application in the table has a process of its own.\<close>

lemma reap_loop_pids:
  assumes "kernel_ok exits m" "\<forall>p \<in> fst ` set (pidMap m) \<union> set (os_forks m). p > 0" "length exits \<le> length (os_forks m)"
  shows "\<forall>p \<in> fst ` set (pidMap (reap_loop exits m)). p > 0"
  using assms
proof (induction exits arbitrary: m)
  case (Cons e exits)
  obtain app where app: "smap_find (pidMap m) (ex_pid e) = Some app" using kernel_ok_known [OF Cons.prems(1)] by blast
  let ?e = "smap_erase (ex_pid e) (pidMap m)"
  obtain p ps where f: "os_forks m = p # ps" using Cons.prems(3) by (cases "os_forks m") auto
  then have "fork_result m = p" by (simp add: fork_result_def sys_fork_def)
  then have "fst ` set (pidMap (reap_pass e m)) \<subseteq> insert p (fst ` set (pidMap m))"
    using fst_set_smap_assign [of p app ?e] by (auto simp: reap_pass_table(1) [of m e app, OF app] smap_erase_def)
  moreover have "set (os_forks (reap_pass e m)) \<subseteq> set (os_forks m)" "length exits \<le> length (os_forks (reap_pass e m))"
    using Cons.prems(3) by (auto simp: reap_pass_table(2) [of m e app, OF app] f)
  ultimately have "\<forall>p \<in> fst ` set (pidMap (reap_pass e m)) \<union> set (os_forks (reap_pass e m)). p > 0"
    "length exits \<le> length (os_forks (reap_pass e m))"
    using Cons.prems(2) f by auto
  then show ?case using Cons.IH [of "reap_pass e m"] Cons.prems(1) by simp
qed simp

section \<open>Properties\<close>

text \<open>
C23: One call of \<open>handleChildExit\<close>, for any number of children that exit, also one that this very call has
  restarted, with signals arriving between the passes and with each \<open>fork\<close> succeeding or failing.  The
  applications the launcher manages afterwards are those it managed before, except that an application is given up
  exactly when (a) its process exits and the launcher is shutting down or the policy is neither always nor, with a
  non-zero status, on-failure, or (b) it was kept under the pid -1 after a failed \<open>fork\<close> and another restart fails as
  well.  When no \<open>fork\<close> fails, (b) does not occur and every managed application has a process of its own.  The kernel
  is taken to report only children of the launcher and to give a new process a pid that no other child has.
\<close>

theorem handleChildExit_restarts:
  assumes "smap_inv (pidMap m)" "childDied m" "kernel_ok exits (m\<lparr>childDied := False\<rparr>)"
  shows "managed (handleChildExit exits m) = managed m - given_up exits (m\<lparr>childDied := False\<rparr>) \<and>
    given_up exits (m\<lparr>childDied := False\<rparr>) \<subseteq># managed m \<and>
    smap_inv (pidMap (handleChildExit exits m)) \<and>
    ((\<forall>p \<in> fst ` set (pidMap m) \<union> set (os_forks m). p > 0) \<and> length exits \<le> length (os_forks m) \<longrightarrow>
      (\<forall>p \<in> fst ` set (pidMap (handleChildExit exits m)). p > 0))"
proof -
  let ?m = "m\<lparr>childDied := False\<rparr>"
  have upd: "managed ?m = managed m" by (simp add: managed_def)
  have "smap_inv (pidMap (reap_loop exits ?m))" "managed (reap_loop exits ?m) + given_up exits ?m = managed m"
    using reap_loop_managed [of ?m exits] assms(1,3) upd by simp_all
  moreover from this(2) have "managed (reap_loop exits ?m) = managed m - given_up exits ?m" "given_up exits ?m \<subseteq># managed m"
    by (metis add_diff_cancel_right', metis mset_subset_eq_add_right)
  moreover have "handleChildExit exits m = reap_loop exits ?m" using assms(2) by (simp add: handleChildExit_def)
  ultimately show ?thesis using reap_loop_pids [OF assms(3)] by simp
qed

text \<open>
  The witness: the process 11 of \<open>a\<close> fails and is restarted as 13, which fails in turn during the same call; the
  \<open>fork\<close> for it fails too, and \<open>a\<close> is left under the pid -1.  \<open>b\<close> exits for good.
\<close>

theorem handleChildExit_restarts_witness:
  "\<exists>m. managed m = {#\<lparr>executable = ''a'', args = [], policy = ON_FAILURE\<rparr>, \<lparr>executable = ''b'', args = [], policy = NEVER\<rparr>#} \<and>
     managed (handleChildExit [\<lparr>ex_pid = 11, ex_status = 256, ex_sigchld = True, ex_sigint = False\<rparr>,
         \<lparr>ex_pid = 12, ex_status = 0, ex_sigchld = False, ex_sigint = False\<rparr>,
         \<lparr>ex_pid = 13, ex_status = 256, ex_sigchld = False, ex_sigint = True\<rparr>] m) =
       {#\<lparr>executable = ''a'', args = [], policy = ON_FAILURE\<rparr>#}"
proof -
  let ?a = "\<lparr>executable = ''a'', args = [], policy = ON_FAILURE\<rparr>" and ?b = "\<lparr>executable = ''b'', args = [], policy = NEVER\<rparr>"
  let ?m = "(ProcessManager_initial [13, -1])\<lparr>pidMap := [(11, ?a), (12, ?b)], childDied := True\<rparr>"
  let ?es = "[\<lparr>ex_pid = 11, ex_status = 256, ex_sigchld = True, ex_sigint = False\<rparr>,
         \<lparr>ex_pid = 12, ex_status = 0, ex_sigchld = False, ex_sigint = False\<rparr>,
         \<lparr>ex_pid = 13, ex_status = 256, ex_sigchld = False, ex_sigint = True\<rparr>]"
  note defs = ProcessManager_initial_def reap_pass_def reap_one_def take_signals_def sigchldHandler_def sigintHandler_def
    startProcess_def sys_fork_def fork_result_def shouldRestart_def smap_touch_def smap_find_def smap_erase_def mgr_log_def
    Let_def lost_def restarts_def app_of_def
  have "managed (handleChildExit ?es ?m) = managed ?m - given_up ?es (?m\<lparr>childDied := False\<rparr>)"
    by (rule handleChildExit_restarts [THEN conjunct1]) (simp_all add: smap_inv_def defs)
  also have "given_up ?es (?m\<lparr>childDied := False\<rparr>) = {#?b#}" by (simp add: defs)
  also have "managed ?m = {#?a, ?b#}" by (simp add: managed_def)
  finally show ?thesis by (intro exI [of _ ?m]) (simp add: managed_def)
qed

text \<open>
  After a \<open>fork\<close> that fails, the launcher keeps the application under the pid -1, and its cleanup
then sends SIGTERM to -1, that is to every process it may signal, and waits for any child.
\<close>

theorem failed_fork_signals_all:
  "fst (startProcess app (m\<lparr>os_forks := []\<rparr>)) = -1 \<and>
   {Kill (-1) ''SIGTERM'', Waitpid (-1)} \<subseteq> set (fst (cleanup (snd (startProcess app (m\<lparr>os_forks := []\<rparr>)))))"
proof -
  have "smap_find (pidMap (snd (startProcess app (m\<lparr>os_forks := []\<rparr>)))) (-1) = Some app"
    by (simp add: startProcess_def sys_fork_def)
  then have "(-1, app) \<in> set (pidMap (snd (startProcess app (m\<lparr>os_forks := []\<rparr>))))"
    unfolding smap_find_def by (rule map_of_SomeD)
  then show ?thesis by (force simp: cleanup_def startProcess_def sys_fork_def)
qed

text \<open>
  The CPU time of a process is the sum of the two numbers after the first thirteen words of its
stat line, which are its user and system time when the process name is a single word; with a
blank in the name the launcher adds the child page faults to the user time instead.
\<close>

theorem getProcessCPUTime_fields:
  assumes "is_word pid" "is_word name1" "is_word name2" "list_all is_word middle" "length middle = 10"
    and "int cmajflt \<le> LONG_MAX" "int utime \<le> LONG_MAX" "int stime \<le> LONG_MAX"
  shows "getProcessCPUTime (pid @ spaced (name1 # middle @ show_nat cmajflt # show_nat utime # show_nat stime # rest)) =
      Some (int utime + int stime) \<and>
    getProcessCPUTime (pid @ spaced (name1 # name2 # middle @ show_nat cmajflt # show_nat utime # show_nat stime # rest)) =
      Some (int cmajflt + int utime)"
  using assms is_word_show_nat [of cmajflt]
    getProcessCPUTime_words [of pid "name1 # middle @ [show_nat cmajflt]" utime stime rest]
    getProcessCPUTime_words [of pid "name1 # name2 # middle" cmajflt utime "show_nat stime # rest"]
  by simp

theorem getProcessCPUTime_fields_witness:
  "getProcessCPUTime (''7'' @ spaced ([''(app)''] @ replicate 10 ''0'' @ map show_nat [1, 20, 3])) = Some 23"
  using getProcessCPUTime_fields [of "''7''" "''(app)''" "''x''" "replicate 10 ''0''" 1 20 3 "[]"]
  by (simp add: is_word_def nonspace_def isspace_def LONG_MAX_def list_all_iff)

text \<open>
  \<open>ParseArgs\<close> reads back what \<open>DescribeApp\<close> writes: for an executable and arguments without blanks
the description splits into exactly the argument vector the child is executed with.
\<close>

theorem ParseArgs_DescribeApp:
  assumes "list_all is_word (child_argv app)"
  shows "ParseArgs (DescribeApp app) = child_argv app"
proof -
  have "all_words \<lparr>is_text = executable app @ spaced (args app), is_fail = False\<rparr> = executable app # args app"
    using assms by (subst all_words.simps) (simp add: child_argv_def get_word_first all_words_spaced)
  then show ?thesis by (simp add: ParseArgs_def DescribeApp_spaced istringstream_def child_argv_def)
qed

theorem ParseArgs_DescribeApp_witness:
  "ParseArgs (DescribeApp \<lparr>executable = ''/bin/app'', args = [''-v'', ''--x''], policy = NEVER\<rparr>) = [''/bin/app'', ''-v'', ''--x'']"
  using ParseArgs_DescribeApp [of "\<lparr>executable = ''/bin/app'', args = [''-v'', ''--x''], policy = NEVER\<rparr>"]
  by (simp add: child_argv_def is_word_def nonspace_def isspace_def)

end
