(* ===== verification/Cat_Apps.thy ===== *)
theory Cat_Apps
  imports Mw_Prelude
begin

unbundle bit_operations_syntax

text \<open>
  The baseline publisher and subscriber, twice: the programs on Fast DDS (\<open>apps/baseline-publishers\<close>,
  \<open>apps/baseline-subscribers\<close>) and their port to ROS 2 (\<open>porting/cat_apps\<close>).  Both publish a counter
  as four big-endian bytes.  Shown: the byte codec is a bijection, the counter runs through its
  range and wraps at 32 bits, and the port sends and prints what the original does.  The time text of
  \<open>GetSystemTime\<close> is an argument; the loops of \<open>main\<close> that never end are given by what they start.
\<close>

section \<open>The byte codec\<close>

fun to_loop :: "nat \<Rightarrow> u32 \<Rightarrow> bytes" where
  "to_loop bitshift raw = (if bitshift > 0 then ucast (drop_bit bitshift raw) # to_loop (bitshift - 8) raw else [])"

declare to_loop.simps [simp del]

definition Publisher_To :: "u32 \<Rightarrow> bytes" where
  "Publisher_To raw = to_loop ((4 - 1) * 8) raw @ [ucast raw]"

function from_loop :: "nat \<Rightarrow> bytes \<Rightarrow> u32 \<Rightarrow> u32" where
  "from_loop index v acc =
     (if index < min 4 (length v)
      then from_loop (Suc index) v (acc OR push_bit ((4 - 1 - index) * 8) (ucast (v ! index))) else acc)"
  by auto
termination
  by (relation "measure (\<lambda>(index, v, acc). 4 - index)") auto

declare from_loop.simps [simp del]

definition Subscriber_From :: "bytes \<Rightarrow> u32" where
  "Subscriber_From v = from_loop 0 v 0"

text \<open>The port: \<open>message_codec.hpp\<close>.\<close>

definition ToUint32Bytes :: "u32 \<Rightarrow> bytes" where
  "ToUint32Bytes raw = to_loop ((4 - 1) * 8) raw @ [ucast raw]"

definition FromUint32Bytes :: "bytes \<Rightarrow> u32" where
  "FromUint32Bytes v = from_loop 0 v 0"

section \<open>Publishers\<close>

record app_message =
  additional_information :: string
  msg_protobuf :: bytes

record Publisher =
  p_name :: string
  p_minValue :: u32
  p_maxValue :: u32
  p_currentValue :: u32

definition Publisher_ctor :: "string \<Rightarrow> u32 \<Rightarrow> u32 \<Rightarrow> Publisher" where
  "Publisher_ctor name mn mx = \<lparr>p_name = name, p_minValue = mn, p_maxValue = mx, p_currentValue = mn\<rparr>"

definition Publisher_Publish :: "string \<Rightarrow> Publisher \<Rightarrow> app_message \<times> Publisher" where
  "Publisher_Publish now p =
     (\<lparr>additional_information = now, msg_protobuf = Publisher_To (p_currentValue p)\<rparr>,
      if p_currentValue p = p_maxValue p then p\<lparr>p_currentValue := p_minValue p\<rparr>
      else p\<lparr>p_currentValue := p_currentValue p + 1\<rparr>)"

definition bracket :: "string \<Rightarrow> string" where
  "bracket s = ''['' @ s @ '']''"

definition Publisher_on_matched :: "string \<Rightarrow> int \<Rightarrow> string" where
  "Publisher_on_matched name change =
     (if change = 1 then bracket name @ '' Connected to subscriber.''
      else if change = -1 then bracket name @ '' Disconnected from subscriber.''
      else bracket name @ '' Match error.'')"

record PublisherNode =
  m_node_name :: string
  m_topic_name :: string
  m_min_value :: u32
  m_max_value :: u32
  m_current_value :: u32

definition PublisherNode_ctor :: "string \<Rightarrow> string \<Rightarrow> u32 \<Rightarrow> u32 \<Rightarrow> PublisherNode" where
  "PublisherNode_ctor node_name topic_name min_value max_value =
     \<lparr>m_node_name = node_name, m_topic_name = topic_name, m_min_value = min_value, m_max_value = max_value,
      m_current_value = min_value\<rparr>"

definition PublisherNode_Publish :: "string \<Rightarrow> PublisherNode \<Rightarrow> app_message \<times> PublisherNode" where
  "PublisherNode_Publish now p =
     (\<lparr>additional_information = now, msg_protobuf = ToUint32Bytes (m_current_value p)\<rparr>,
      if m_current_value p = m_max_value p then p\<lparr>m_current_value := m_min_value p\<rparr>
      else p\<lparr>m_current_value := m_current_value p + 1\<rparr>)"

definition PublisherNode_matched :: "string \<Rightarrow> int \<Rightarrow> string" where
  "PublisherNode_matched topic change =
     (if change = 1 then bracket topic @ '' Connected to subscriber.''
      else if change = -1 then bracket topic @ '' Disconnected from subscriber.''
      else bracket topic @ '' Match error.'')"

text \<open>One round of \<open>RunNoThreads\<close> and one timer tick of \<open>PublisherCoordinator\<close>: everyone publishes once.\<close>

definition RunNoThreads_round :: "string \<Rightarrow> Publisher list \<Rightarrow> app_message list \<times> Publisher list" where
  "RunNoThreads_round now ps = (map (fst \<circ> Publisher_Publish now) ps, map (snd \<circ> Publisher_Publish now) ps)"

definition PublisherCoordinator_tick :: "string \<Rightarrow> PublisherNode list \<Rightarrow> app_message list \<times> PublisherNode list" where
  "PublisherCoordinator_tick now ps = (map (fst \<circ> PublisherNode_Publish now) ps, map (snd \<circ> PublisherNode_Publish now) ps)"

section \<open>Subscribers\<close>

definition received_text :: "string \<Rightarrow> string \<Rightarrow> u32 \<Rightarrow> string" where
  "received_text time name v = bracket time @ '' received '' @ bracket name @ ''='' @ bracket (show_nat (unat v))"

text \<open>\<open>on_data_available\<close> takes one sample: whether the take succeeded, its validity and the message.\<close>

definition Subscriber_on_data_available :: "string \<Rightarrow> bool \<times> bool \<times> app_message \<Rightarrow> string option" where
  "Subscriber_on_data_available name = (\<lambda>(ok, valid, message).
     if ok then
       (if valid then Some (received_text (additional_information message) name (Subscriber_From (msg_protobuf message)))
        else Some (bracket name @ '' Message data is invalid.''))
     else None)"

definition Subscriber_on_matched :: "string \<Rightarrow> int \<Rightarrow> string" where
  "Subscriber_on_matched name change =
     (if change = 1 then bracket name @ '' Connected to publisher.''
      else if change = -1 then bracket name @ '' Disconnected from publisher.''
      else bracket name @ '' Match error.'')"

definition SubscriberNode_callback :: "string \<Rightarrow> app_message option \<Rightarrow> string" where
  "SubscriberNode_callback topic message =
     (case message of
        None \<Rightarrow> bracket topic @ '' Message data is invalid.''
      | Some m \<Rightarrow> received_text (additional_information m) topic (FromUint32Bytes (msg_protobuf m)))"

definition SubscriberNode_matched :: "string \<Rightarrow> int \<Rightarrow> string" where
  "SubscriberNode_matched topic change =
     (if change = 1 then bracket topic @ '' Connected to publisher.''
      else if change = -1 then bracket topic @ '' Disconnected from publisher.''
      else bracket topic @ '' Match error.'')"

section \<open>The programs\<close>

text \<open>
  What \<open>main\<close> starts: an exit code, or publishers running in one thread or in one thread each.  The
  configuration is the rate and the attributes of the children, \<open>None\<close> when the file does not load.
  The original builds a string from \<open>argv[1]\<close> unchecked; a missing argument is \<open>None\<close>.  Creating a
  ROS node throws when its name is refused (\<open>name_ok\<close>).
\<close>

type_synonym pub_config = "(u32 \<times> (string \<times> u32 \<times> u32) list) option"

datatype 'p started = ExitCode int | SingleThread u32 "'p list" | ThreadEach u32 "'p list"

definition publishers_main :: "string list \<Rightarrow> pub_config \<Rightarrow> Publisher started option" where
  "publishers_main argv document =
     (if length argv < 2 then None
      else Some (case document of
             None \<Rightarrow> ExitCode 0
           | Some (rate, nodes) \<Rightarrow>
               let publishers = map (\<lambda>(name, mn, mx). Publisher_ctor name mn mx) nodes in
               if argv ! 1 = ''1'' then ThreadEach rate publishers else SingleThread rate publishers))"

definition baseline_publisher_main :: "(string \<Rightarrow> bool) \<Rightarrow> string list \<Rightarrow> pub_config \<Rightarrow> PublisherNode started" where
  "baseline_publisher_main name_ok argv document =
     (if length argv \<noteq> 3 then ExitCode (-1)
      else case document of
             None \<Rightarrow> ExitCode 0
           | Some (rate, nodes) \<Rightarrow>
               if list_ex (\<lambda>(name, mn, mx). \<not> name_ok (''pub_'' @ name)) nodes then ExitCode 0
               else let publishers = map (\<lambda>(name, mn, mx). PublisherNode_ctor (''pub_'' @ name) name mn mx) nodes in
               if publishers = [] then ExitCode 0
               else if argv ! 1 = ''1'' then ThreadEach rate publishers else SingleThread rate publishers)"

section \<open>Lemmas\<close>

lemma Publisher_To_bytes:
  "Publisher_To raw = [ucast (drop_bit 24 raw), ucast (drop_bit 16 raw), ucast (drop_bit 8 raw), ucast raw]"
  by (simp add: Publisher_To_def to_loop.simps)

lemma Subscriber_From_bytes:
  "Subscriber_From [a, b, c, d] = push_bit 24 (ucast a) OR push_bit 16 (ucast b) OR push_bit 8 (ucast c) OR ucast d"
  by (simp add: Subscriber_From_def from_loop.simps ac_simps)

lemma port_codec [simp]: "ToUint32Bytes = Publisher_To" "FromUint32Bytes = Subscriber_From"
  by (simp_all add: fun_eq_iff ToUint32Bytes_def Publisher_To_def FromUint32Bytes_def Subscriber_From_def)

lemma From_To [simp]: "Subscriber_From (Publisher_To raw) = raw"
  unfolding Publisher_To_bytes Subscriber_From_bytes
proof (rule bit_word_eqI)
  fix n
  assume "n < LENGTH(32)"
  then consider "n < 8" | "8 \<le> n" "n < 16" | "16 \<le> n" "n < 24" | "24 \<le> n" "n < 32" by fastforce
  then show "bit (push_bit 24 (ucast (ucast (drop_bit 24 raw) :: byte)) OR push_bit 16 (ucast (ucast (drop_bit 16 raw) :: byte)) OR
      push_bit 8 (ucast (ucast (drop_bit 8 raw) :: byte)) OR ucast (ucast raw :: byte) :: u32) n = bit raw n"
    by cases (auto simp: bit_simps)
qed

lemma To_From:
  assumes "length v = 4"
  shows "Publisher_To (Subscriber_From v) = v"
proof -
  obtain a b c d where v: "v = [a, b, c, d]"
    using assms by (auto simp: numeral_eq_Suc length_Suc_conv)
  have high: "\<not> bit x (k + n)" if "8 \<le> k" for x :: byte and n k
    using that bit_imp_le_length [of x "k + n"] by auto
  show ?thesis
    unfolding v Publisher_To_bytes Subscriber_From_bytes
    by (auto intro!: bit_word_eqI simp: bit_simps high)
qed

text \<open>The values a publisher goes through.\<close>

fun publish_nth :: "(nat \<Rightarrow> string) \<Rightarrow> nat \<Rightarrow> Publisher \<Rightarrow> app_message" where
  "publish_nth now 0 p = fst (Publisher_Publish (now 0) p)"
| "publish_nth now (Suc n) p = publish_nth (now \<circ> Suc) n (snd (Publisher_Publish (now 0) p))"

fun node_publish_nth :: "(nat \<Rightarrow> string) \<Rightarrow> nat \<Rightarrow> PublisherNode \<Rightarrow> app_message" where
  "node_publish_nth now 0 p = fst (PublisherNode_Publish (now 0) p)"
| "node_publish_nth now (Suc n) p = node_publish_nth (now \<circ> Suc) n (snd (PublisherNode_Publish (now 0) p))"

definition period :: "u32 \<Rightarrow> u32 \<Rightarrow> nat" where
  "period mn mx = Suc (unat (mx - mn))"

lemma next_offset:
  assumes "k < period mn mx"
  shows "mn + of_nat k = mx \<longleftrightarrow> Suc k = period mn mx"
proof -
  have "unat (mx - mn) < 2 ^ LENGTH(32)" by (rule unsigned_less)
  then have "k < 2 ^ 32" using assms by (simp add: period_def)
  then have "unat (of_nat k :: u32) = k" by (simp add: unat_of_nat)
  moreover have "mn + of_nat k = mx \<longleftrightarrow> of_nat k = mx - mn" by (auto simp: algebra_simps)
  ultimately show ?thesis
    by (auto simp: period_def word_unat_eq_iff)
qed

lemma publish_nth_value:
  assumes "p_currentValue p = p_minValue p + of_nat k" "k < period (p_minValue p) (p_maxValue p)"
  shows "publish_nth now n p = \<lparr>additional_information = now n,
     msg_protobuf = Publisher_To (p_minValue p + of_nat ((k + n) mod period (p_minValue p) (p_maxValue p)))\<rparr>"
  using assms
proof (induction n arbitrary: now p k)
  case 0
  then show ?case by (simp add: Publisher_Publish_def)
next
  case (Suc n)
  let ?p = "snd (Publisher_Publish (now 0) p)" and ?per = "period (p_minValue p) (p_maxValue p)"
  have same: "p_minValue ?p = p_minValue p" "p_maxValue ?p = p_maxValue p" by (simp_all add: Publisher_Publish_def)
  have "p_currentValue ?p = p_minValue p + of_nat (Suc k mod ?per)" "Suc k mod ?per < ?per"
    using next_offset [OF Suc.prems(2)] Suc.prems by (auto simp: Publisher_Publish_def period_def mod_Suc)
  then show ?case
    using Suc.IH [of ?p "Suc k mod ?per" "now \<circ> Suc"] by (simp add: same mod_add_left_eq comp_def)
qed

text \<open>The port's publisher as the original's.\<close>

definition node_view :: "PublisherNode \<Rightarrow> Publisher" where
  "node_view p = \<lparr>p_name = m_topic_name p, p_minValue = m_min_value p, p_maxValue = m_max_value p,
     p_currentValue = m_current_value p\<rparr>"

lemma node_view_Publish:
  "fst (PublisherNode_Publish now p) = fst (Publisher_Publish now (node_view p))"
  "node_view (snd (PublisherNode_Publish now p)) = snd (Publisher_Publish now (node_view p))"
  by (simp_all add: PublisherNode_Publish_def Publisher_Publish_def node_view_def)

lemma node_publish_nth_view: "node_publish_nth now n p = publish_nth now n (node_view p)"
  by (induction n arbitrary: now p) (simp_all add: node_view_Publish)

section \<open>Properties\<close>

text \<open>
  The byte codec of the applications is a bijection between 32-bit values and four bytes, and
the port has the codec of the original.
\<close>

theorem codec_bijective:
  "bij_betw ToUint32Bytes UNIV {v. length v = 4} \<and> FromUint32Bytes (ToUint32Bytes w) = w \<and>
   ToUint32Bytes = Publisher_To \<and> FromUint32Bytes = Subscriber_From"
proof -
  have "bij_betw Publisher_To UNIV {v. length v = 4}"
    by (rule bij_betw_byWitness [where f' = Subscriber_From]) (auto simp: To_From, simp add: Publisher_To_bytes)
  then show ?thesis by simp
qed

text \<open>
C27: The port to ROS 2 behaves as the original: its n-th message is the original's n-th message,
carries the value \<open>min + n mod period\<close> whatever the bounds, wrapping at 32 bits when the minimum
exceeds the maximum, and a subscriber of either program prints the same line for it.
\<close>

theorem port_refines_original:
  "node_publish_nth now n (PublisherNode_ctor node_name name mn mx) = publish_nth now n (Publisher_ctor name mn mx) \<and>
   SubscriberNode_callback topic (Some (publish_nth now n (Publisher_ctor name mn mx))) =
     received_text (now n) topic (mn + of_nat (n mod (unat (mx - mn) + 1))) \<and>
   Subscriber_on_data_available topic (True, True, publish_nth now n (Publisher_ctor name mn mx)) =
     Some (SubscriberNode_callback topic (Some (publish_nth now n (Publisher_ctor name mn mx))))"
proof -
  have "publish_nth now n (Publisher_ctor name mn mx) = \<lparr>additional_information = now n,
      msg_protobuf = Publisher_To (mn + of_nat (n mod (unat (mx - mn) + 1)))\<rparr>"
    using publish_nth_value [of "Publisher_ctor name mn mx" 0 now n] by (simp add: Publisher_ctor_def period_def)
  then show ?thesis
    by (simp add: node_publish_nth_view node_view_def PublisherNode_ctor_def Publisher_ctor_def
        SubscriberNode_callback_def Subscriber_on_data_available_def)
qed

end
