(* ===== verification/Service_Factory.thy ===== *)
theory Service_Factory
  imports Parameter_Service
begin

text \<open>
  \<open>Factory::CreateParameterService\<close> (\<open>lib/parameters/ParameterServiceFactory.cpp\<close>), through which the
  applications obtain a service from a configuration builder, the loops in which they fill the builder
  and publish, and what a constructed service gives them: a handle for every published parameter and
  the registered action for every served one.
\<close>

section \<open>The factory\<close>

definition CreateParameterService ::
  "'d protobuf_api \<Rightarrow> service_env \<Rightarrow> xml_domains \<Rightarrow> ('d, 'u) ConfigBuilder \<Rightarrow> SourceTableConnections \<Rightarrow> 'u
     \<Rightarrow> (('d, 'u) Service \<times> 'u) cpp \<times> SourceTableConnections" where
  "CreateParameterService api env doc spConfig dir u =
     (case Take spConfig of
        Inl e \<Rightarrow> (Inl e, dir)
      | Inr (c, _) \<Rightarrow> Service_ctor api env doc c dir u)"

lemma CreateParameterService_returns:
  assumes "env_ok env" "\<not> m_hasBeenTaken b"
  shows "\<exists>s u'. CreateParameterService api env doc b dir u = (Inr (s, u'), LoadConnections doc dir) \<and>
    Service_ctor api env doc (m_config b) dir u = (Inr (s, u'), LoadConnections doc dir)"
  using Service_ctor_success [OF assms(1), of api doc "m_config b" dir u] assms(2)
  by (auto simp: CreateParameterService_def Take_def)

section \<open>Filling a builder\<close>

text \<open>A loop that adds one entry for every element of a list.\<close>

fun add_all ::
  "('e \<Rightarrow> ('d, 'u) ConfigBuilder \<Rightarrow> ('d, 'u) ConfigBuilder cpp) \<Rightarrow> 'e list \<Rightarrow> ('d, 'u) ConfigBuilder \<Rightarrow> ('d, 'u) ConfigBuilder cpp" where
  "add_all add [] b = Inr b"
| "add_all add (e # es) b = (case add e b of Inl x \<Rightarrow> Inl x | Inr b' \<Rightarrow> add_all add es b')"

text \<open>\<open>IConfigBuilder::Create\<close>, the calls that fill the builder, and the factory.\<close>

definition build_service ::
  "'d protobuf_api \<Rightarrow> service_env \<Rightarrow> xml_domains \<Rightarrow> SourceTableConnections \<Rightarrow> string
     \<Rightarrow> (('d, 'u) ConfigBuilder \<Rightarrow> ('d, 'u) ConfigBuilder cpp) \<Rightarrow> 'u \<Rightarrow> (('d, 'u) Service \<times> 'u) cpp" where
  "build_service api env doc dir identity fill u =
     (case ConfigBuilder_ctor identity of
        Inl e \<Rightarrow> Inl e
      | Inr b \<Rightarrow>
          (case fill b of
             Inl e \<Rightarrow> Inl e
           | Inr b' \<Rightarrow> fst (CreateParameterService api env doc b' dir u)))"

lemma build_service_ok:
  fixes fill :: "('d, 'u) ConfigBuilder \<Rightarrow> ('d, 'u) ConfigBuilder cpp"
  assumes "env_ok env" "identity \<noteq> []" "\<And>b. \<not> m_hasBeenTaken b \<Longrightarrow> \<exists>b'. fill b = Inr b' \<and> \<not> m_hasBeenTaken b'"
  obtains b b' s u' where "\<not> m_hasBeenTaken b" "m_config b = ParameterService_of identity" "fill b = Inr b'"
    "build_service api env doc dir identity fill u = Inr (s, u')"
    "Service_ctor api env doc (m_config b') dir u = (Inr (s, u'), LoadConnections doc dir)"
proof -
  let ?b = "\<lparr>m_config = ParameterService_of identity, m_hasBeenTaken = False\<rparr> :: ('d, 'u) ConfigBuilder"
  obtain b' where b': "fill ?b = Inr b'" "\<not> m_hasBeenTaken b'" using assms(3) [of ?b] by auto
  obtain s u' where s: "CreateParameterService api env doc b' dir u = (Inr (s, u'), LoadConnections doc dir)"
    "Service_ctor api env doc (m_config b') dir u = (Inr (s, u'), LoadConnections doc dir)"
    using CreateParameterService_returns [OF assms(1) b'(2), of api doc dir u] by blast
  have "ConfigBuilder_ctor identity = Inr ?b"
    using assms(2) by (simp add: ConfigBuilder_ctor_def Let_def ParameterService_of_def)
  then have "build_service api env doc dir identity fill u = Inr (s, u')" using b' s by (simp add: build_service_def)
  then show ?thesis using that [of ?b b' s u'] b' s by simp
qed

lemma add_all_unless_taken:
  "\<not> m_hasBeenTaken b \<Longrightarrow> add_all (\<lambda>e. unless_taken (f e)) es b = Inr (b\<lparr>m_config := fold f es (m_config b)\<rparr>)"
  by (induction es arbitrary: b) (simp_all add: unless_taken_def)

text \<open>What the loops of one kind of entry make of the configuration.\<close>

lemma fold_server_read:
  "fold (\<lambda>e c. c\<lparr>server_read_parameters := server_read_parameters c @ [g e]\<rparr>) es c =
     c\<lparr>server_read_parameters := server_read_parameters c @ map g es\<rparr>"
  by (induction es arbitrary: c) simp_all

lemma fold_client_read:
  "fold (\<lambda>e c. c\<lparr>client_read_parameters := client_read_parameters c @ [g e]\<rparr>) es c =
     c\<lparr>client_read_parameters := client_read_parameters c @ map g es\<rparr>"
  by (induction es arbitrary: c) simp_all

lemma fold_publish:
  "fold (\<lambda>e c. c\<lparr>published_parameters := published_parameters c @ [g e]\<rparr>) es c =
     c\<lparr>published_parameters := published_parameters c @ map g es\<rparr>"
  by (induction es arbitrary: c) simp_all

lemma fold_subscribe:
  "fold (\<lambda>e c. c\<lparr>subscribed_parameters := subscribed_parameters c @ [g e]\<rparr>) es c =
     c\<lparr>subscribed_parameters := subscribed_parameters c @ map g es\<rparr>"
  by (induction es arbitrary: c) simp_all

lemmas fold_config = fold_server_read fold_client_read fold_publish fold_subscribe

section \<open>Served parameters of a constructed service\<close>

lemma add_actions:
  "m_onReadActions (fold (add_read src) ps s) = m_onReadActions s"
  "m_onReadActions (fold (add_write src) ps s) = m_onReadActions s"
  by (induction ps arbitrary: s) (simp_all add: add_read_def add_write_def)

lemma create_sources_actions:
  "create_sources env c srcs s = Inr s' \<Longrightarrow> m_onReadActions s' = m_onReadActions s"
proof (induction srcs arbitrary: s)
  case (Cons src srcs)
  have "create_source env c src s = Inr s1 \<Longrightarrow> m_onReadActions s1 = m_onReadActions s" for s1
    using create_source_Inr [of env c src s s1] by (simp add: add_actions)
  then show ?case using Cons by (fastforce split: sum.splits)
qed simp

lemma CreateSubscriptions_actions:
  "CreateSubscriptions api env ps su = Inr su' \<Longrightarrow> m_onReadActions (fst su') = m_onReadActions (fst su)"
  by (induction ps arbitrary: su) (auto split: sum.splits)

lemma CreatePublishers_actions:
  "CreatePublishers api env ps s = Inr s' \<Longrightarrow> m_onReadActions s' = m_onReadActions s"
  by (induction ps arbitrary: s) (auto split: sum.splits)

lemma CreateServer_actions:
  assumes "CreateServer api env c (service_members l dp) = Inr s"
  shows "smap_find (m_onReadActions s) i = map_of (rev (map (\<lambda>e. (sr_parameter_id e, sr_callback e)) (server_read_parameters c))) i"
proof -
  have "m_onReadActions s = smap_assign_all (map (\<lambda>e. (sr_parameter_id e, sr_callback e)) (server_read_parameters c)) []"
    using assms by (auto simp: CreateServer_def service_members_def smap_assign_all_def Let_def split: sum.splits option.splits if_splits)
  then show ?thesis by (simp add: smap_find_assign_all split: option.split)
qed

lemma served_read_action:
  assumes "Service_ctor api env doc c dir u = (Inr (s, u'), dir')"
  shows "smap_find (m_onReadActions s) i = map_of (rev (map (\<lambda>e. (sr_parameter_id e, sr_callback e)) (server_read_parameters c))) i"
proof -
  obtain l dp s1 s2 s3 where ph: "CreateServer api env c (service_members l dp) = Inr s1" "CreateClients env dir' c s1 = Inr s2"
    "CreateSubscriptions api env (subscribed_parameters c) (s2, u) = Inr (s3, u')" "CreatePublishers api env (published_parameters c) s3 = Inr s"
    using Service_ctor_phases [OF assms] by blast
  have "m_onReadActions s = m_onReadActions s1"
    using create_sources_actions CreateSubscriptions_actions [OF ph(3)] CreatePublishers_actions [OF ph(4)] ph(2)
    by (simp add: CreateClients_def)
  then show ?thesis using CreateServer_actions [OF ph(1)] by simp
qed

section \<open>Publishing\<close>

text \<open>\<open>service->RetrievePublisherInstance(id).Publish(data)\<close>, and the loop over the identities of a round.\<close>

definition publish_on :: "'d protobuf_api \<Rightarrow> service_env \<Rightarrow> Identity \<Rightarrow> 'd \<Rightarrow> ('d, 'u) Service \<Rightarrow> ('d, 'u) Service cpp" where
  "publish_on api env i d s =
     (case RetrievePublisherInstance i s of
        Inl e \<Rightarrow> Inl e
      | Inr pp \<Rightarrow>
          Inr (s\<lparr>m_spPublishers := smap_assign i (PublishParameter_Publish api (se_publish env) d pp) (m_spPublishers s)\<rparr>))"

fun publish_each :: "('i \<Rightarrow> 'd \<Rightarrow> 's \<Rightarrow> 's cpp) \<Rightarrow> 'i list \<Rightarrow> 'd \<Rightarrow> 's \<Rightarrow> 's cpp" where
  "publish_each publish [] d s = Inr s"
| "publish_each publish (i # is) d s =
     (case publish i d s of Inl e \<Rightarrow> Inl e | Inr s' \<Rightarrow> publish_each publish is d s')"

text \<open>
  What a program that publishes relies on: publishing under one of the identities succeeds, is what is
  read back for it, and leaves the identities and the other values alone; under any other it fails.
\<close>

locale publishing =
  fixes identities :: "'s \<Rightarrow> 'i set"
    and publish :: "'i \<Rightarrow> 'd \<Rightarrow> 's \<Rightarrow> 's cpp"
    and last_value :: "'s \<Rightarrow> 'i \<Rightarrow> 'd option"
  assumes publish_known: "i \<in> identities s \<Longrightarrow>
      \<exists>s'. publish i d s = Inr s' \<and> last_value s' = (last_value s)(i \<mapsto> d) \<and> identities s' = identities s"
    and publish_unknown: "i \<notin> identities s \<Longrightarrow> \<exists>e. publish i d s = Inl e"
begin

lemma each_known:
  "set is \<subseteq> identities s \<Longrightarrow>
   \<exists>s'. publish_each publish is d s = Inr s' \<and> last_value s' = (\<lambda>i. if i \<in> set is then Some d else last_value s i) \<and>
     identities s' = identities s"
proof (induction "is" arbitrary: s)
  case (Cons i "is")
  obtain s1 where s1: "publish i d s = Inr s1" "last_value s1 = (last_value s)(i \<mapsto> d)" "identities s1 = identities s"
    using publish_known [of i s d] Cons.prems by auto
  obtain s2 where "publish_each publish is d s1 = Inr s2"
    "last_value s2 = (\<lambda>i. if i \<in> set is then Some d else last_value s1 i)" "identities s2 = identities s1"
    using Cons.IH [of s1] Cons.prems s1(3) by auto
  then show ?case using s1 by auto
qed simp

lemma each_succeeds_iff: "(\<exists>s'. publish_each publish is d s = Inr s') \<longleftrightarrow> set is \<subseteq> identities s"
proof (induction "is" arbitrary: s)
  case (Cons i "is")
  show ?case
  proof (cases "i \<in> identities s")
    case True
    then obtain s1 where "publish i d s = Inr s1" "identities s1 = identities s" using publish_known [of i s d] by auto
    then show ?thesis using Cons.IH [of s1] True by simp
  next
    case False
    then obtain e where "publish i d s = Inl e" using publish_unknown by blast
    then show ?thesis using False by simp
  qed
qed simp

end

text \<open>The value a service has published last for an identity, and the identities it has publishers for.\<close>

definition published_value :: "('d, 'u) Service \<Rightarrow> Identity \<Rightarrow> 'd option" where
  "published_value s i = (case smap_find (m_spPublishers s) i of None \<Rightarrow> None | Some pp \<Rightarrow> pm_data (pp_lastPublished pp))"

definition publisher_ids :: "('d, 'u) Service \<Rightarrow> Identity set" where
  "publisher_ids s = {i. smap_find (m_spPublishers s) i \<noteq> None}"

interpretation ps: publishing publisher_ids "publish_on api env" published_value for api env
proof
  fix i d and s :: "('a, 'b) Service"
  show "\<exists>s'. publish_on api env i d s = Inr s' \<and> published_value s' = (published_value s)(i \<mapsto> d) \<and> publisher_ids s' = publisher_ids s"
    if "i \<in> publisher_ids s"
    using that
    by (auto simp: publish_on_def RetrievePublisherInstance_def retrieve_def published_value_def publisher_ids_def fun_eq_iff
        PublishParameter_Publish_last)
  show "\<exists>e. publish_on api env i d s = Inl e" if "i \<notin> publisher_ids s"
    using that by (simp add: publish_on_def RetrievePublisherInstance_def retrieve_def publisher_ids_def)
qed

section \<open>Publishers of a constructed service\<close>

lemma PublishParameter_ctor_value:
  assumes "PublishParameter_ctor api env early ret config dp = Inr (pp, dp')"
  shows "PublishParameter_Identity pp = pub_parameter_id config \<and> PublishParameter_Unit pp = pub_unit config \<and>
    pm_data (pp_lastPublished pp) = Some (pub_initial_value config)"
  using assms
  by (auto simp: PublishParameter_ctor_def PublishParameter_Publish_def PublishParameter_Identity_def PublishParameter_Unit_def
      with_info_def Let_def split: option.splits sum.splits)

definition publishes :: "'d PublishedParameter \<Rightarrow> 'd PublishParameter \<Rightarrow> bool" where
  "publishes p pp \<longleftrightarrow> PublishParameter_Identity pp = pub_parameter_id p \<and> PublishParameter_Unit pp = pub_unit p \<and>
     pm_data (pp_lastPublished pp) = Some (pub_initial_value p)"

lemma find_append: "List.find P (xs @ ys) = (case List.find P xs of None \<Rightarrow> List.find P ys | Some x \<Rightarrow> Some x)"
  by (induction xs) auto

lemma CreatePublishers_find:
  assumes "CreatePublishers api env ps s = Inr s'"
  shows "case List.find (\<lambda>p. pub_parameter_id p = i) (rev ps) of
      None \<Rightarrow> smap_find (m_spPublishers s') i = smap_find (m_spPublishers s) i
    | Some p \<Rightarrow> \<exists>pp. smap_find (m_spPublishers s') i = Some pp \<and> publishes p pp"
  using assms
proof (induction ps arbitrary: s)
  case (Cons p ps)
  obtain pp dp where pp: "PublishParameter_ctor api (se_message env) [] (se_publish env) p
      (Some (m_spBroadcastParticipant s)) = Inr (pp, dp)"
    using Cons.prems by (auto split: sum.splits)
  let ?s = "s\<lparr>m_spBroadcastParticipant := dp, m_spPublishers := smap_assign (pub_parameter_id p) pp (m_spPublishers s)\<rparr>"
  have rest: "CreatePublishers api env ps ?s = Inr s'" using Cons.prems pp by simp
  have "publishes p pp" using PublishParameter_ctor_value [OF pp] by (simp add: publishes_def)
  then show ?case
    using Cons.IH [OF rest] by (auto simp: find_append split: option.splits)
qed simp

lemma configured_publishers:
  assumes "Service_ctor api env doc c dir u = (Inr (s, u'), dir')" "i \<in> pub_parameter_id ` set (published_parameters c)"
  shows "\<exists>p pp. List.find (\<lambda>p. pub_parameter_id p = i) (rev (published_parameters c)) = Some p \<and>
    smap_find (m_spPublishers s) i = Some pp \<and> publishes p pp"
proof -
  obtain s3 where "CreatePublishers api env (published_parameters c) s3 = Inr s"
    using Service_ctor_phases [OF assms(1)] by blast
  moreover obtain p where p: "List.find (\<lambda>p. pub_parameter_id p = i) (rev (published_parameters c)) = Some p"
    using find_rev_ex [OF assms(2)] by blast
  ultimately obtain pp where "smap_find (m_spPublishers s) i = Some pp" "publishes p pp"
    using CreatePublishers_find [of api env "published_parameters c" s3 s i] by auto
  then show ?thesis using p by auto
qed

text \<open>
  A service that has been constructed hands out a publisher for every parameter its configuration
  publishes; the publisher bears the identity asked for and has published the initial value of the last
  entry with that identity.
\<close>

theorem configured_publishers_exist:
  assumes "Service_ctor api env doc c dir u = (Inr (s, u'), dir')" "i \<in> pub_parameter_id ` set (published_parameters c)"
  shows "\<exists>p pp. List.find (\<lambda>p. pub_parameter_id p = i) (rev (published_parameters c)) = Some p \<and>
    RetrievePublisherInstance i s = Inr pp \<and> publishes p pp"
  using configured_publishers [OF assms] by (auto simp: RetrievePublisherInstance_def retrieve_def)

theorem configured_publishers_exist_witness:
  "\<exists>s pp. RetrievePublisherInstance ''B'' (s :: (cdata, unit) Service) = Inr pp \<and> PublishParameter_Identity pp = ''B''"
proof -
  let ?c = "(ParameterService_of ''Mapper'' :: (cdata, unit) ParameterService)
    \<lparr>published_parameters := [\<lparr>pub_parameter_id = ''B'', pub_unit = 0, pub_initial_value = (QUALITY_GOOD, [])\<rparr>]\<rparr>"
  obtain s u' where "Service_ctor concrete_api ex_env None ?c [] () = (Inr (s, u'), LoadConnections None [])"
    using Service_ctor_success [OF ex_env_ok, of concrete_api None ?c "[]" "()"] by blast
  from configured_publishers_exist [OF this, of "''B''"] show ?thesis by (auto simp: publishes_def)
qed

end
