(* ===== verification/Std_Float.thy ===== *)
theory Std_Float
  imports Complex_Main Mw_Prelude
begin

text \<open>
  Values of type \<open>double\<close> as far as the programs compare them.  Arithmetic with its rounding is not
  modelled: where the code computes with doubles the model keeps the operands.
\<close>

section \<open>Doubles\<close>

datatype float64 = NaN | NegInf | PosInf | Fin rat

text \<open>The comparisons \<open>x < c\<close>, \<open>x > c\<close> and \<open>x == c\<close> with a finite constant; all are false on a NaN.\<close>

fun fp_less :: "float64 \<Rightarrow> rat \<Rightarrow> bool" where
  "fp_less NaN c = False"
| "fp_less NegInf c = True"
| "fp_less PosInf c = False"
| "fp_less (Fin x) c = (x < c)"

fun fp_greater :: "float64 \<Rightarrow> rat \<Rightarrow> bool" where
  "fp_greater NaN c = False"
| "fp_greater NegInf c = False"
| "fp_greater PosInf c = True"
| "fp_greater (Fin x) c = (x > c)"

fun fp_eq :: "float64 \<Rightarrow> rat \<Rightarrow> bool" where
  "fp_eq (Fin x) c = (x = c)"
| "fp_eq _ c = False"

end
