(* ===== verification/Value_Api.thy ===== *)
theory Value_Api
  imports Protobuf_Api Std_Float
begin

text \<open>
  The field \<open>value\<close> of a \<open>Data\<close> message, a oneof of five kinds, as the applications read and write it.  The
  message is generated code outside the repository: \<open>value_api\<close> holds its accessors, \<open>value_laws\<close> the
  documented behaviour of a oneof, and \<open>value_pb_api\<close> with \<open>concrete_value_api\<close> is an instance of both
  this interface and \<open>protobuf_api\<close>.
\<close>

section \<open>Interface\<close>

datatype data_value =
    DoubleValue float64
  | StringValue string
  | BinaryValue bytes
  | BooleanValue bool
  | Uinteger64Value u64

record 'd value_api =
  va_set :: "data_value \<Rightarrow> 'd \<Rightarrow> 'd"
  va_selection :: "'d \<Rightarrow> data_value option"

definition value_laws :: "'d protobuf_api \<Rightarrow> 'd value_api \<Rightarrow> bool" where
  "value_laws api va \<longleftrightarrow>
     (\<forall>v d. va_selection va (va_set va v d) = Some v) \<and>
     (\<forall>v d. pb_quality api (va_set va v d) = pb_quality api d) \<and>
     (\<forall>q d. va_selection va (pb_set_quality api q d) = va_selection va d) \<and>
     va_selection va (pb_default api) = None"

text \<open>The accessors return the default of their type when another kind is selected.\<close>

definition uinteger64_value :: "'d value_api \<Rightarrow> 'd \<Rightarrow> u64" where
  "uinteger64_value va d = (case va_selection va d of Some (Uinteger64Value n) \<Rightarrow> n | _ \<Rightarrow> 0)"

definition binary_value :: "'d value_api \<Rightarrow> 'd \<Rightarrow> bytes" where
  "binary_value va d = (case va_selection va d of Some (BinaryValue b) \<Rightarrow> b | _ \<Rightarrow> [])"

lemma value_lawsD:
  assumes "value_laws api va"
  shows "va_selection va (va_set va v d) = Some v" "pb_quality api (va_set va v d) = pb_quality api d"
    "va_selection va (pb_set_quality api q d) = va_selection va d" "va_selection va (pb_default api) = None"
  using assms by (simp_all add: value_laws_def)

section \<open>An instance\<close>

definition enc_int :: "int \<Rightarrow> bytes" where
  "enc_int i = (if i < 0 then 1 # enc_nat (nat (- i)) else 0 # enc_nat (nat i))"

definition dec_int :: "bytes \<Rightarrow> int \<times> bytes" where
  "dec_int bs = (case dec_nat (tl bs) of (n, r) \<Rightarrow> (if hd bs = 1 then - int n else int n, r))"

definition enc_rat :: "rat \<Rightarrow> bytes" where
  "enc_rat q = (case quotient_of q of (a, b) \<Rightarrow> enc_int a @ enc_int b)"

definition dec_rat :: "bytes \<Rightarrow> rat" where
  "dec_rat bs = (case dec_int bs of (a, r) \<Rightarrow> of_int a / of_int (fst (dec_int r)))"

fun enc_value :: "data_value option \<Rightarrow> bytes" where
  "enc_value None = [0]"
| "enc_value (Some (DoubleValue NaN)) = [1]"
| "enc_value (Some (DoubleValue NegInf)) = [2]"
| "enc_value (Some (DoubleValue PosInf)) = [3]"
| "enc_value (Some (DoubleValue (Fin q))) = 4 # enc_rat q"
| "enc_value (Some (StringValue s)) = 5 # string_bytes s"
| "enc_value (Some (BinaryValue b)) = 6 # b"
| "enc_value (Some (BooleanValue b)) = [if b then 7 else 8]"
| "enc_value (Some (Uinteger64Value n)) = 9 # enc_nat (unat n)"

definition dec_value :: "bytes \<Rightarrow> data_value option" where
  "dec_value bs =
     (let r = tl bs; k = hd bs in
        if k = 1 then Some (DoubleValue NaN)
        else if k = 2 then Some (DoubleValue NegInf)
        else if k = 3 then Some (DoubleValue PosInf)
        else if k = 4 then Some (DoubleValue (Fin (dec_rat r)))
        else if k = 5 then Some (StringValue (bytes_string r))
        else if k = 6 then Some (BinaryValue r)
        else if k = 7 then Some (BooleanValue True)
        else if k = 8 then Some (BooleanValue False)
        else if k = 9 then Some (Uinteger64Value (of_nat (fst (dec_nat r))))
        else None)"

type_synonym vdata = "quality \<times> data_value option"

definition enc_vdata :: "vdata \<Rightarrow> bytes" where
  "enc_vdata d = enc_quality (fst d) @ enc_value (snd d)"

definition dec_vdata :: "bytes \<Rightarrow> vdata" where
  "dec_vdata bs = (case dec_quality bs of (q, r) \<Rightarrow> (q, dec_value r))"

definition enc_vparameter :: "vdata Parameter \<Rightarrow> bytes" where
  "enc_vparameter p =
     enc_bytes (string_bytes (pm_identity p)) @ enc_nat (unat (pm_unit p)) @
     (case pm_data p of None \<Rightarrow> [] | Some d \<Rightarrow> enc_vdata d)"

definition dec_vparameter :: "bytes \<Rightarrow> vdata Parameter" where
  "dec_vparameter bs =
     (case dec_bytes bs of (name, r1) \<Rightarrow>
        (case dec_nat r1 of (n, r2) \<Rightarrow>
           \<lparr>pm_identity = bytes_string name, pm_unit = of_nat n,
            pm_data = (if r2 = [] then None else Some (dec_vdata r2))\<rparr>))"

definition value_pb_api :: "vdata protobuf_api" where
  "value_pb_api = \<lparr>pb_default = (QUALITY_OTHER 0, None), pb_quality = fst,
     pb_set_quality = (\<lambda>q d. (q, snd d)), pb_ser_Data = enc_vdata, pb_parse_Data = (\<lambda>bs. (True, dec_vdata bs)),
     pb_ser_Parameter = enc_vparameter, pb_parse_Parameter = (\<lambda>bs. (True, dec_vparameter bs))\<rparr>"

definition concrete_value_api :: "vdata value_api" where
  "concrete_value_api = \<lparr>va_set = (\<lambda>v d. (fst d, Some v)), va_selection = snd\<rparr>"

lemma dec_enc_int [simp]: "dec_int (enc_int i @ r) = (i, r)"
  by (simp add: dec_int_def enc_int_def)

lemma dec_enc_int_Nil [simp]: "dec_int (enc_int i) = (i, [])"
  using dec_enc_int [of i "[]"] by simp

lemma dec_enc_rat [simp]: "dec_rat (enc_rat q) = q"
  using quotient_of_div [of q] by (cases "quotient_of q") (simp add: dec_rat_def enc_rat_def)

lemma dec_enc_value [simp]: "dec_value (enc_value v) = v"
  by (cases v rule: enc_value.cases) (simp_all add: dec_value_def)

lemma dec_enc_vdata [simp]: "dec_vdata (enc_vdata d) = d"
  by (simp add: dec_vdata_def enc_vdata_def)

lemma enc_vdata_nonempty [simp]: "enc_vdata d \<noteq> []"
  by (cases "snd d" rule: enc_value.cases) (simp_all add: enc_vdata_def)

lemma dec_enc_vparameter [simp]: "dec_vparameter (enc_vparameter p) = p"
  by (cases p) (auto simp: dec_vparameter_def enc_vparameter_def split: option.splits)

lemma value_pb_api_laws: "protobuf_laws value_pb_api"
  by (simp add: protobuf_laws_def value_pb_api_def)

lemma concrete_value_laws: "value_laws value_pb_api concrete_value_api"
  by (simp add: value_laws_def value_pb_api_def concrete_value_api_def)

end
