(* ===== verification/Std_Parse.thy ===== *)
theory Std_Parse
  imports Std_Stream
begin

text \<open>
  Numbers in arguments: \<open>std::stoul\<close> and \<open>std::stoull\<close>, \<open>strtol\<close>, \<open>strncmp\<close> against a literal, and the way the
  sample programs copy an argument into a buffer with \<open>strncpy\<close>.  Shown: a rendered number is read back.
\<close>

section \<open>Conversions\<close>

text \<open>White space, an optional sign, the digits and the rest of the text.\<close>

definition number_parts :: "string \<Rightarrow> bool \<times> string \<times> string" where
  "number_parts text =
     (let r = dropWhile isspace text;
          neg = (r \<noteq> [] \<and> hd r = CHR ''-'');
          r' = (if r \<noteq> [] \<and> (hd r = CHR ''-'' \<or> hd r = CHR ''+'') then tl r else r)
      in (neg, takeWhile isdigit r', dropWhile isdigit r'))"

text \<open>
  \<open>std::stoul\<close> and \<open>std::stoull\<close>, both of 64 bits here: the magnitude must fit, and a minus sign negates
  modulo \<open>2 ^ 64\<close>.  The argument \<open>name\<close> is what the exceptions carry.
\<close>

definition sto_unsigned :: "string \<Rightarrow> string \<Rightarrow> u64 cpp" where
  "sto_unsigned name text =
     (case number_parts text of
        (neg, ds, _) \<Rightarrow>
          if ds = [] then Inl (InvalidArgument name)
          else if read_nat ds \<ge> 2 ^ 64 then Inl (OutOfRange name)
          else Inr (if neg then - of_nat (read_nat ds) else of_nat (read_nat ds)))"

definition stoul :: "string \<Rightarrow> u64 cpp" where "stoul = sto_unsigned ''stoul''"
definition stoull :: "string \<Rightarrow> u64 cpp" where "stoull = sto_unsigned ''stoull''"

text \<open>\<open>strtol\<close> with base 10, with the text it did not consume.\<close>

definition strtol :: "string \<Rightarrow> int \<times> string" where
  "strtol text =
     (case number_parts text of
        (neg, ds, rest) \<Rightarrow>
          if ds = [] then (0, text)
          else
            (let v = (if neg then - int (read_nat ds) else int (read_nat ds))
             in (if v > LONG_MAX then LONG_MAX else if v < LONG_MIN then LONG_MIN else v, rest)))"

text \<open>\<open>strncmp(arg, literal, strlen(literal)) == 0\<close>\<close>

definition strncmp_literal :: "string \<Rightarrow> string \<Rightarrow> bool" where
  "strncmp_literal literal arg \<longleftrightarrow> take (length literal) arg = literal"

text \<open>
  \<open>char buffer[n + 1]; strncpy(buffer, text, n);\<close> and then reading the buffer.  A text shorter than \<open>n\<close> is
  terminated.  Otherwise the last element of the buffer is not initialised, and reading as far as
  that is undefined: \<open>None\<close>.
\<close>

definition buffer_string :: "nat \<Rightarrow> string \<Rightarrow> string option" where
  "buffer_string n text = (if length text < n then Some text else None)"

definition buffer_long :: "nat \<Rightarrow> string \<Rightarrow> int option" where
  "buffer_long n text =
     (if length text \<ge> n \<and> snd (snd (number_parts (take n text))) = [] then None
      else Some (fst (strtol (take n text))))"

section \<open>Rendered numbers\<close>

lemma number_parts_show_nat: "number_parts (show_nat n) = (False, show_nat n, [])"
proof -
  have ds: "\<And>c. c \<in> set (show_nat n) \<Longrightarrow> isdigit c" "hd (show_nat n) \<noteq> CHR ''-''" "hd (show_nat n) \<noteq> CHR ''+''"
    using show_nat_digits [of n] show_nat_nonempty [of n] by (auto simp: list_all_iff)
  then have "takeWhile isdigit (show_nat n) = show_nat n" "dropWhile isdigit (show_nat n) = []" by simp_all
  moreover have "dropWhile isspace (show_nat n) = show_nat n"
    using skip_word [OF is_word_show_nat [of n], of "[]"] by simp
  ultimately show ?thesis using ds by (simp add: number_parts_def Let_def)
qed

lemma sto_unsigned_show_nat: "n < 2 ^ 64 \<Longrightarrow> sto_unsigned name (show_nat n) = Inr (of_nat n)"
  by (simp add: sto_unsigned_def number_parts_show_nat)

lemma strtol_show_nat: "int n \<le> LONG_MAX \<Longrightarrow> strtol (show_nat n) = (int n, [])"
  by (simp add: strtol_def number_parts_show_nat LONG_MIN_def Let_def)

lemma length_show_nat: "n < 10 ^ k \<Longrightarrow> 0 < k \<Longrightarrow> length (show_nat n) \<le> k"
proof (induction k arbitrary: n)
  case (Suc k)
  show ?case
  proof (cases "n < 10")
    case True
    then show ?thesis by (subst show_nat.simps) simp
  next
    case False
    then have "0 < k" "n div 10 < 10 ^ k" using Suc.prems by (cases k; simp add: less_mult_imp_div_less mult.commute)+
    then show ?thesis using False Suc.IH [of "n div 10"] by (subst show_nat.simps) simp
  qed
qed simp

lemma buffer_long_show_nat: "n < 10 ^ 9 \<Longrightarrow> buffer_long 10 (show_nat n) = Some (int n)"
  using length_show_nat [of n 9] strtol_show_nat [of n]
  by (simp add: buffer_long_def LONG_MAX_def)

lemma length_show_nat_ge: "10 ^ k \<le> n \<Longrightarrow> k < length (show_nat n)"
proof (induction k arbitrary: n)
  case 0
  then show ?case using show_nat_nonempty [of n] by simp
next
  case (Suc k)
  have "(1 :: nat) \<le> 10 ^ k" by simp
  then have "\<not> n < 10" using Suc.prems unfolding power_Suc by linarith
  moreover have "10 ^ k \<le> n div 10" using Suc.prems by (simp add: less_eq_div_iff_mult_less_eq mult.commute)
  ultimately show ?case using Suc.IH [of "n div 10"] by (subst show_nat.simps) simp
qed

text \<open>The buffer of the sample programs holds nine digits and the end.\<close>

lemma buffer_long_show_nat_eq: "buffer_long 10 (show_nat n) = (if n < 10 ^ 9 then Some (int n) else None)"
proof (cases "n < 10 ^ 9")
  case False
  then have "9 < length (show_nat n)" by (intro length_show_nat_ge) simp
  moreover have "snd (snd (number_parts (take 10 (show_nat n)))) = []"
  proof -
    have ds: "\<And>c. c \<in> set (take 10 (show_nat n)) \<Longrightarrow> isdigit c"
      using show_nat_digits [of n] by (auto simp: list_all_iff dest: in_set_takeD)
    obtain c r where t: "take 10 (show_nat n) = c # r" using show_nat_nonempty [of n] by (cases "show_nat n") auto
    have "isdigit c" using ds t by simp
    then have "\<not> isspace c" "c \<noteq> CHR ''-''" "c \<noteq> CHR ''+''" by (auto simp: isspace_def isdigit_def Let_def)
    then show ?thesis using ds t by (simp add: number_parts_def Let_def)
  qed
  ultimately show ?thesis using False by (simp add: buffer_long_def)
qed (simp add: buffer_long_show_nat)

end
