(* ===== verification/Parameters_Tester.thy ===== *)
theory Parameters_Tester
  imports Service_Factory Value_Api Std_Parse
begin

text \<open>
  The command line tool \<open>middleware-parameters-tester\<close> (\<open>apps/middleware-parameters-tester\<close>): parsing of its
  arguments, construction and printing of values, and its four actions on top of the parameter
  service.  Shown: what the parser accepts and which error it reports otherwise, that a binary value
  is printed in the form it is read in, that the tool writes the value the user gave, and that the
  read action ends once every request has completed.

  \<open>std::stod\<close> and the rendering of a double by \<open>printf\<close> are the arguments \<open>stod\<close> and \<open>show_double\<close>;
  \<open>boost::algorithm::unhex\<close>, a third-party function, is the argument \<open>unhex\<close>.
\<close>

section \<open>Arguments\<close>

record Args =
  arg_action :: string
  names :: "string list"
  delay :: int
  has_double :: bool
  double_val :: float64
  has_string :: bool
  string_val :: string
  has_binary :: bool
  binary_val :: string
  has_boolean :: bool
  boolean_val :: bool
  has_uint64 :: bool
  uint64_val :: u64

definition Args_new :: Args where
  "Args_new =
     \<lparr>arg_action = [], names = [], delay = 5000, has_double = False, double_val = Fin 0, has_string = False, string_val = [],
      has_binary = False, binary_val = [], has_boolean = False, boolean_val = False, has_uint64 = False, uint64_val = 0\<rparr>"

definition k_ServerIdentity :: string where
  "k_ServerIdentity = ''MiddlewareParametersTester''"

text \<open>\<open>std::chrono::milliseconds\<close> takes the unsigned result over into a signed 64-bit count.\<close>

definition ParseDelay :: "string \<Rightarrow> int cpp" where
  "ParseDelay s =
     (let val = (if length s \<ge> 2 \<and> drop (length s - 2) s = ''ms'' then take (length s - 2) s else s)
      in case stoul val of Inl e \<Rightarrow> Inl e | Inr n \<Rightarrow> Inr (sint n))"

fun parse_loop :: "(string \<Rightarrow> float64 cpp) \<Rightarrow> string list \<Rightarrow> Args \<Rightarrow> Args cpp" where
  "parse_loop stod [] args = Inr args"
| "parse_loop stod (arg # argv) args =
     (if arg = ''--name'' \<and> argv \<noteq> [] then
        parse_loop stod (tl argv) (args\<lparr>names := names args @ [hd argv]\<rparr>)
      else if arg = ''--delay'' \<and> argv \<noteq> [] then
        (case ParseDelay (hd argv) of
           Inl e \<Rightarrow> Inl e | Inr d \<Rightarrow> parse_loop stod (tl argv) (args\<lparr>delay := d\<rparr>))
      else if arg = ''--double_value'' \<and> argv \<noteq> [] then
        (case stod (hd argv) of
           Inl e \<Rightarrow> Inl e | Inr d \<Rightarrow> parse_loop stod (tl argv) (args\<lparr>has_double := True, double_val := d\<rparr>))
      else if arg = ''--string_value'' \<and> argv \<noteq> [] then
        parse_loop stod (tl argv) (args\<lparr>has_string := True, string_val := hd argv\<rparr>)
      else if arg = ''--binary_value'' \<and> argv \<noteq> [] then
        parse_loop stod (tl argv) (args\<lparr>has_binary := True, binary_val := hd argv\<rparr>)
      else if arg = ''--boolean_value'' \<and> argv \<noteq> [] then
        parse_loop stod (tl argv) (args\<lparr>has_boolean := True, boolean_val := (hd argv = ''true'' \<or> hd argv = ''1'')\<rparr>)
      else if arg = ''--uinteger64_value'' \<and> argv \<noteq> [] then
        (case stoull (hd argv) of
           Inl e \<Rightarrow> Inl e | Inr n \<Rightarrow> parse_loop stod (tl argv) (args\<lparr>has_uint64 := True, uint64_val := n\<rparr>))
      else parse_loop stod argv args)"

definition has_value :: "Args \<Rightarrow> bool" where
  "has_value args \<longleftrightarrow> has_double args \<or> has_string args \<or> has_binary args \<or> has_boolean args \<or> has_uint64 args"

definition quoted :: "string \<Rightarrow> string" where
  "quoted s = [CHR 0x27] @ s @ [CHR 0x27]"

text \<open>The checks after the loop.\<close>

definition check_args :: "Args \<Rightarrow> Args cpp" where
  "check_args args =
     (if names args = [] \<and> arg_action args \<noteq> ''help'' then Inl (InvalidArgument ''--name argument is required.'')
      else if (arg_action args = ''pub'' \<or> arg_action args = ''write'') \<and> length (names args) > 1 then
        Inl (InvalidArgument (''Only one --name is allowed for the '' @ quoted (arg_action args) @ '' action.''))
      else if (arg_action args = ''pub'' \<or> arg_action args = ''write'') \<and> \<not> has_value args then
        Inl (InvalidArgument (''A value argument is required for '' @ quoted (arg_action args) @
          '': --double_value, --string_value, --binary_value, --boolean_value, or --uinteger64_value.''))
      else Inr args)"

text \<open>The result, and whether the usage text was printed before.\<close>

definition ParseArgs_tester :: "(string \<Rightarrow> float64 cpp) \<Rightarrow> string list \<Rightarrow> Args cpp \<times> bool" where
  "ParseArgs_tester stod argv =
     (if length argv < 2 then (Inl (InvalidArgument ''Missing required action argument.''), True)
      else
        (let a = argv ! 1; a = (if a = ''--help'' \<or> a = ''-h'' then ''help'' else a)
         in case parse_loop stod (drop 2 argv) (Args_new\<lparr>arg_action := a\<rparr>) of
              Inl e \<Rightarrow> (Inl e, False)
            | Inr args \<Rightarrow> (check_args args, False)))"

section \<open>Values\<close>

definition HexToBytes :: "(string \<Rightarrow> bytes cpp) \<Rightarrow> string \<Rightarrow> bytes cpp" where
  "HexToBytes unhex hex =
     (let s = (if length hex \<ge> 2 \<and> (take 2 hex = ''0x'' \<or> take 2 hex = ''0X'') then drop 2 hex else hex)
      in unhex s)"

definition BuildData :: "(string \<Rightarrow> bytes cpp) \<Rightarrow> 'd protobuf_api \<Rightarrow> 'd value_api \<Rightarrow> Args \<Rightarrow> 'd cpp" where
  "BuildData unhex api va args =
     (let data = pb_set_quality api QUALITY_GOOD (pb_default api)
      in if has_double args then Inr (va_set va (DoubleValue (double_val args)) data)
         else if has_string args then Inr (va_set va (StringValue (string_val args)) data)
         else if has_binary args then
           (case HexToBytes unhex (binary_val args) of Inl e \<Rightarrow> Inl e | Inr b \<Rightarrow> Inr (va_set va (BinaryValue b) data))
         else if has_boolean args then Inr (va_set va (BooleanValue (boolean_val args)) data)
         else if has_uint64 args then Inr (va_set va (Uinteger64Value (uint64_val args)) data)
         else Inr data)"

definition hex_digit :: "nat \<Rightarrow> char" where
  "hex_digit n = ''0123456789ABCDEF'' ! n"

text \<open>\<open>printf("%02X", byte)\<close>\<close>

definition show_hex :: "byte \<Rightarrow> string" where
  "show_hex b = [hex_digit (unat b div 16), hex_digit (unat b mod 16)]"

definition line_end :: string where "line_end = '']'' @ [CHR 0x0A]"

definition PrintData :: "(float64 \<Rightarrow> string) \<Rightarrow> 'd value_api \<Rightarrow> string \<Rightarrow> 'd \<Rightarrow> string" where
  "PrintData show_double va ident d =
     ''id: ['' @ c_str ident @ ''] value: ['' @
     (case va_selection va d of
        Some (DoubleValue x) \<Rightarrow> show_double x
      | Some (StringValue s) \<Rightarrow> c_str s
      | Some (BinaryValue b) \<Rightarrow> ''0x'' @ concat (map show_hex b)
      | Some (BooleanValue b) \<Rightarrow> if b then ''true'' else ''false''
      | Some (Uinteger64Value n) \<Rightarrow> show_nat (unat n)
      | None \<Rightarrow> ''unknown type'') @ line_end"

section \<open>Actions\<close>

text \<open>
  The outside world of an action: the conversions, the protobuf interface, Fast DDS, the directory
  file with the directory loaded before, and the completions of requests in the order they arrive.
\<close>

record 'd world =
  w_show :: "float64 \<Rightarrow> string"
  w_unhex :: "string \<Rightarrow> bytes cpp"
  w_api :: "'d protobuf_api"
  w_va :: "'d value_api"
  w_env :: service_env
  w_doc :: xml_domains
  w_dir :: SourceTableConnections

text \<open>What an action comes to: it returns, throws, or waits; and what it has printed.\<close>

datatype outcome = Returns | Throws cpp_error | Waits

text \<open>The text printed so far is the state of the callbacks.\<close>

definition with_service ::
  "'d world \<Rightarrow> (('d, string) ConfigBuilder \<Rightarrow> ('d, string) ConfigBuilder cpp) \<Rightarrow> (('d, string) Service \<times> string) cpp" where
  "with_service w fill = build_service (w_api w) (w_env w) (w_doc w) (w_dir w) k_ServerIdentity fill []"

text \<open>\<open>args.names[0]\<close> of an empty vector is undefined; the parser does not let it happen.\<close>

definition RunPub :: "'d world \<Rightarrow> Args \<Rightarrow> outcome \<times> string" where
  "RunPub w args =
     (case BuildData (w_unhex w) (w_api w) (w_va w) args of
        Inl e \<Rightarrow> (Throws e, [])
      | Inr data \<Rightarrow>
          (case with_service w (AddPublish (hd (names args)) Unit_none data) of
             Inl e \<Rightarrow> (Throws e, [])
           | Inr (_, text) \<Rightarrow>
               (Returns, text @ ''[Publish] '' @ PrintData (w_show w) (w_va w) (hd (names args)) data)))"

definition on_sub :: "'d world \<Rightarrow> Identity \<Rightarrow> 'd \<Rightarrow> Unit \<Rightarrow> string \<Rightarrow> unit cpp \<times> string" where
  "on_sub w ident data metadata text =
     (Inr (), text @ ''[Subscription] '' @ PrintData (w_show w) (w_va w) ident data)"

definition on_disc :: "string \<Rightarrow> string \<Rightarrow> unit cpp \<times> string" where
  "on_disc name text = (Inr (), text @ ''[Subscription] disconnected: '' @ c_str name @ [CHR 0x0A])"

definition RunSub :: "'d world \<Rightarrow> Args \<Rightarrow> outcome \<times> string" where
  "RunSub w args =
     (case with_service w (add_all (\<lambda>name. AddSubscribe name (Some (on_sub w)) (Some (on_disc name))) (names args)) of
        Inl e \<Rightarrow> (Throws e, [])
      | Inr (_, text) \<Rightarrow> (Waits, text))"

text \<open>The text a completed request prints.\<close>

definition completion_line :: "'d world \<Rightarrow> string \<Rightarrow> Param_Status \<times> 'd Parameter \<Rightarrow> string" where
  "completion_line w kind sp =
     ''['' @ kind @ '' Complete] status: ['' @ (if fst sp = SUCCESS then ''SUCCESS'' else ''FAIL'') @ ''] '' @
     PrintData (w_show w) (w_va w) (pm_identity (snd sp)) (pm_data_of (w_api w) (snd sp))"

text \<open>The wait for \<open>pending == 0\<close>: every completion prints its line and counts down.\<close>

fun wait_pending :: "'d world \<Rightarrow> int \<Rightarrow> (Param_Status \<times> 'd Parameter) list \<Rightarrow> string \<Rightarrow> outcome \<times> string" where
  "wait_pending w pending [] text = (if pending = 0 then Returns else Waits, text)"
| "wait_pending w pending (c # cs) text =
     (if pending = 0 then (Returns, text) else wait_pending w (pending - 1) cs (text @ completion_line w ''Read'' c))"

fun retrieve_all :: "('d, 'u) Service \<Rightarrow> string list \<Rightarrow> (ReadParameter \<times> string) list cpp" where
  "retrieve_all s [] = Inr []"
| "retrieve_all s (name # rest) =
     (case RetrieveReadInstance name s of
        Inl e \<Rightarrow> Inl e
      | Inr h \<Rightarrow> (case retrieve_all s rest of Inl e \<Rightarrow> Inl e | Inr hs \<Rightarrow> Inr (h # hs)))"

text \<open>
  \<open>replies\<close> gives the completions for the requests that were sent, as they arrive.
\<close>

definition RunRead ::
  "'d world \<Rightarrow> ((ReadParameter \<times> string) list \<Rightarrow> (Param_Status \<times> 'd Parameter) list) \<Rightarrow> Args \<Rightarrow> outcome \<times> string" where
  "RunRead w replies args =
     (case with_service w (add_all (\<lambda>name. AddClientRead name Unit_none) (names args)) of
        Inl e \<Rightarrow> (Throws e, [])
      | Inr (s, text) \<Rightarrow>
          (case retrieve_all s (names args) of
             Inl e \<Rightarrow> (Throws e, text)
           | Inr hs \<Rightarrow> wait_pending w (int (length (names args))) (replies hs) text))"

definition RunWrite ::
  "'d world \<Rightarrow> (WriteParameter \<times> string \<Rightarrow> 'd \<Rightarrow> (Param_Status \<times> 'd Parameter) option) \<Rightarrow> Args \<Rightarrow> outcome \<times> string" where
  "RunWrite w replies args =
     (case BuildData (w_unhex w) (w_api w) (w_va w) args of
        Inl e \<Rightarrow> (Throws e, [])
      | Inr data \<Rightarrow>
          (case with_service w (AddClientWrite (hd (names args)) Unit_none) of
             Inl e \<Rightarrow> (Throws e, [])
           | Inr (s, text) \<Rightarrow>
               (case RetrieveWriteInstance (hd (names args)) s of
                  Inl e \<Rightarrow> (Throws e, text)
                | Inr h \<Rightarrow>
                    (case replies h data of
                       None \<Rightarrow> (Waits, text)
                     | Some c \<Rightarrow> (Returns, text @ completion_line w ''Write'' c)))))"

section \<open>The program\<close>

datatype exit = Exit int | Blocked | Aborted cpp_error

text \<open>The result, what was written to \<open>stderr\<close> beside the usage text, and whether that was printed.\<close>

definition tester_main ::
  "'d world \<Rightarrow> (string \<Rightarrow> float64 cpp) \<Rightarrow> ((ReadParameter \<times> string) list \<Rightarrow> (Param_Status \<times> 'd Parameter) list)
     \<Rightarrow> (WriteParameter \<times> string \<Rightarrow> 'd \<Rightarrow> (Param_Status \<times> 'd Parameter) option) \<Rightarrow> string list \<Rightarrow> log_state
     \<Rightarrow> exit \<times> string \<times> bool \<times> log_state" where
  "tester_main w stod reads writes argv lg =
     (let lg = SetLogLevel 4 lg in
      case ParseArgs_tester stod argv of
        (r, usage) \<Rightarrow>
          (let (out, usage) =
             (case r of
                Inl e \<Rightarrow> (Throws e, usage)
              | Inr args \<Rightarrow>
                  if arg_action args = ''help'' then (Returns, True)
                  else if arg_action args = ''pub'' then (fst (RunPub w args), usage)
                  else if arg_action args = ''sub'' then (fst (RunSub w args), usage)
                  else if arg_action args = ''read'' then (fst (RunRead w reads args), usage)
                  else if arg_action args = ''write'' then (fst (RunWrite w writes args), usage)
                  else (Throws (InvalidArgument (''Unknown action: '' @ quoted (arg_action args) @
                          ''. Expected: help, pub, sub, read, write.'')), True))
           in case out of
                Returns \<Rightarrow> (Exit 0, [], usage, lg)
              | Waits \<Rightarrow> (Blocked, [], usage, lg)
              | Throws e \<Rightarrow>
                  (case exception_what e of
                     Some what \<Rightarrow> (Exit 1, ''Error: '' @ c_str what @ [CHR 0x0A], usage, lg)
                   | None \<Rightarrow> (Aborted e, [], usage, lg))))"

section \<open>Command lines\<close>

datatype tester_option =
    OName string
  | ODelay nat
  | OString string
  | OBinary string
  | OBoolean bool
  | OUinteger64 u64

fun render_option :: "tester_option \<Rightarrow> string list" where
  "render_option (OName n) = [''--name'', n]"
| "render_option (ODelay n) = [''--delay'', show_nat n @ ''ms'']"
| "render_option (OString v) = [''--string_value'', v]"
| "render_option (OBinary v) = [''--binary_value'', v]"
| "render_option (OBoolean v) = [''--boolean_value'', if v then ''true'' else ''false'']"
| "render_option (OUinteger64 v) = [''--uinteger64_value'', show_nat (unat v)]"

fun apply_option :: "tester_option \<Rightarrow> Args \<Rightarrow> Args" where
  "apply_option (OName n) a = a\<lparr>names := names a @ [n]\<rparr>"
| "apply_option (ODelay n) a = a\<lparr>delay := int n\<rparr>"
| "apply_option (OString v) a = a\<lparr>has_string := True, string_val := v\<rparr>"
| "apply_option (OBinary v) a = a\<lparr>has_binary := True, binary_val := v\<rparr>"
| "apply_option (OBoolean v) a = a\<lparr>has_boolean := True, boolean_val := v\<rparr>"
| "apply_option (OUinteger64 v) a = a\<lparr>has_uint64 := True, uint64_val := v\<rparr>"

fun option_fits :: "tester_option \<Rightarrow> bool" where
  "option_fits (ODelay n) = (n < 2 ^ 63)"
| "option_fits _ = True"

lemma ParseDelay_show: "n < 2 ^ 63 \<Longrightarrow> ParseDelay (show_nat n @ ''ms'') = Inr (int n)"
proof -
  assume n: "n < 2 ^ 63"
  have "sint (of_nat n :: u64) = int n"
    using n signed_take_bit_int_eq_self [of 63 "int n"]
    by (simp add: sint_uint uint_nat unat_of_nat signed_take_bit_take_bit)
  then show ?thesis
    using n by (simp add: ParseDelay_def stoul_def sto_unsigned_show_nat)
qed

lemma stoull_show_unat: "stoull (show_nat (unat v)) = Inr v"
  using sto_unsigned_show_nat [of "unat v"] unsigned_less [of v] by (simp add: stoull_def)

lemma parse_option:
  "option_fits opt \<Longrightarrow> parse_loop stod (render_option opt @ rest) a = parse_loop stod rest (apply_option opt a)"
  by (cases opt) (simp_all add: ParseDelay_show stoull_show_unat)

lemma parse_options:
  "list_all option_fits opts \<Longrightarrow>
   parse_loop stod (concat (map render_option opts)) a = Inr (fold apply_option opts a)"
  by (induction opts arbitrary: a) (simp_all add: parse_option)

lemma arg_action_fold [simp]: "arg_action (fold apply_option opts a) = arg_action a"
proof (induction opts arbitrary: a)
  case (Cons opt opts)
  then show ?case by (cases opt) simp_all
qed simp

text \<open>What the actions rely on in parsed arguments.\<close>

definition args_ok :: "Args \<Rightarrow> bool" where
  "args_ok args \<longleftrightarrow>
     (arg_action args = ''help'' \<or> names args \<noteq> []) \<and>
     (arg_action args = ''pub'' \<or> arg_action args = ''write'' \<longrightarrow> length (names args) = 1 \<and> has_value args)"

lemma check_args_cases:
  "(args_ok args \<longrightarrow> check_args args = Inr args) \<and>
   (\<not> args_ok args \<longrightarrow> (\<exists>what. check_args args = Inl (InvalidArgument what)))"
proof (cases "arg_action args = ''pub'' \<or> arg_action args = ''write''")
  case True
  then have "arg_action args \<noteq> ''help''" by auto
  then show ?thesis using True by (cases "names args") (auto simp: check_args_def args_ok_def)
next
  case False
  then show ?thesis by (auto simp: check_args_def args_ok_def)
qed

lemma ParseArgs_ok:
  assumes "ParseArgs_tester stod argv = (Inr args, usage)"
  shows "args_ok args \<and> \<not> usage"
proof -
  have "\<exists>args'. check_args args' = Inr args" "\<not> usage"
    using assms by (auto simp: ParseArgs_tester_def Let_def split: if_splits sum.splits)
  then show ?thesis using check_args_cases by (metis sum.simps(4) Inr_inject)
qed

text \<open>
  The usage text is printed exactly when there is no action.  Arguments that the parser returns are well-formed, whatever the command line: there is a parameter
  unless help was asked for, and exactly one with a value to publish or write; so \<open>names[0]\<close> exists in
  every action that uses it.
\<close>

theorem parsed_arguments_typed:
  "case ParseArgs_tester stod argv of (Inl e, usage) \<Rightarrow> usage = (length argv < 2) | (Inr args, usage) \<Rightarrow> args_ok args \<and> \<not> usage"
proof (cases "ParseArgs_tester stod argv")
  case (Pair r usage)
  show ?thesis
  proof (cases r)
    case (Inl e)
    then have "usage = (length argv < 2)"
      using Pair by (auto simp: ParseArgs_tester_def Let_def split: if_splits sum.splits)
    then show ?thesis by (simp add: Pair Inl)
  next
    case (Inr args)
    then show ?thesis using ParseArgs_ok [of stod argv args usage] Pair by simp
  qed
qed

text \<open>
  A command line made of an action and any options is parsed to what the options say, values that look
  like options included, and is accepted exactly when the arguments are well-formed.  The action may be
  any text: an unknown one is not rejected here.
\<close>

theorem ParseArgs_command_line:
  assumes "list_all option_fits opts" "a \<noteq> ''--help'' \<and> a \<noteq> ''-h''"
  shows "let args = fold apply_option opts (Args_new\<lparr>arg_action := a\<rparr>) in
    (if args_ok args then ParseArgs_tester stod (prog # a # concat (map render_option opts)) = (Inr args, False)
     else \<exists>what. ParseArgs_tester stod (prog # a # concat (map render_option opts)) = (Inl (InvalidArgument what), False))"
proof -
  have "ParseArgs_tester stod (prog # a # concat (map render_option opts)) =
      (check_args (fold apply_option opts (Args_new\<lparr>arg_action := a\<rparr>)), False)"
    using assms parse_options [OF assms(1), of stod "Args_new\<lparr>arg_action := a\<rparr>"] by (simp add: ParseArgs_tester_def Let_def)
  then show ?thesis using check_args_cases [of "fold apply_option opts (Args_new\<lparr>arg_action := a\<rparr>)"] by (auto simp: Let_def)
qed

theorem ParseArgs_command_line_witness:
  "ParseArgs_tester (\<lambda>_. Inl (InvalidArgument ''stod'')) [''mpt'', ''write'', ''--name'', ''--name'', ''--uinteger64_value'', ''12''] =
     (Inr (Args_new\<lparr>arg_action := ''write'', names := [''--name''], has_uint64 := True, uint64_val := 12\<rparr>), False)"
proof -
  have "show_nat 12 = ''12''" by code_simp
  then show ?thesis
    using ParseArgs_command_line [of "[OName ''--name'', OUinteger64 12]" "''write''" "\<lambda>_. Inl (InvalidArgument ''stod'')" "''mpt''"]
    by (simp add: Let_def args_ok_def has_value_def Args_new_def)
qed

section \<open>Values\<close>

definition unhex_law :: "(string \<Rightarrow> bytes cpp) \<Rightarrow> bool" where
  "unhex_law unhex \<longleftrightarrow> (\<forall>b. unhex (concat (map show_hex b)) = Inr b)"

lemma hex_digit_not_x: "n < 16 \<Longrightarrow> hex_digit n \<noteq> CHR ''x'' \<and> hex_digit n \<noteq> CHR ''X''"
proof -
  assume "n < 16"
  then have "hex_digit n \<in> set ''0123456789ABCDEF''" unfolding hex_digit_def by (intro nth_mem) simp
  then show ?thesis by auto
qed

lemma show_hex_no_prefix: "take 2 (concat (map show_hex b)) \<noteq> ''0x'' \<and> take 2 (concat (map show_hex b)) \<noteq> ''0X''"
proof (cases b)
  case (Cons x xs)
  have "unat x mod 16 < 16" by simp
  then show ?thesis using hex_digit_not_x [of "unat x mod 16"] by (simp add: Cons show_hex_def)
qed simp

fun hex_value :: "char \<Rightarrow> nat" where
  "hex_value c = (if of_char c < (58 :: nat) then of_char c - 48 else of_char c - 55)"

fun example_unhex :: "string \<Rightarrow> bytes cpp" where
  "example_unhex [] = Inr []"
| "example_unhex [c] = Inl (RuntimeError ''not enough input'')"
| "example_unhex (c # d # cs) =
     (case example_unhex cs of Inl e \<Rightarrow> Inl e | Inr b \<Rightarrow> Inr (of_nat (16 * hex_value c + hex_value d) # b))"

lemma hex_value_digit: "n < 16 \<Longrightarrow> hex_value (hex_digit n) = n"
proof -
  assume "n < 16"
  then have "n \<in> set [0..<16]" by simp
  then show ?thesis by (auto simp: upt_rec hex_digit_def)
qed

lemma example_unhex_law: "unhex_law example_unhex"
proof -
  have "example_unhex (concat (map show_hex b)) = Inr b" for b
  proof (induction b)
    case (Cons x b)
    have "unat x < 256" using unsigned_less [of x] by simp
    then have "hex_value (hex_digit (unat x div 16)) = unat x div 16" "hex_value (hex_digit (unat x mod 16)) = unat x mod 16"
      by (simp_all add: hex_value_digit del: hex_value.simps)
    then show ?case
      using Cons by (simp add: show_hex_def del: hex_value.simps of_nat_add of_nat_mult)
  qed simp
  then show ?thesis by (simp add: unhex_law_def)
qed

text \<open>
  A binary value is read in the form in which it is printed, with and without its prefix, given
  that \<open>unhex\<close> inverts the rendering of bytes by two upper-case hexadecimal digits.
\<close>

theorem binary_value_roundtrip:
  assumes "unhex_law unhex" "value_laws api va" "\<not> has_double args" "\<not> has_string args" "has_binary args"
    "binary_val args = concat (map show_hex b) \<or> binary_val args = ''0x'' @ concat (map show_hex b)"
  shows "\<exists>d. BuildData unhex api va args = Inr d \<and> pb_quality api d = pb_quality api (pb_set_quality api QUALITY_GOOD (pb_default api)) \<and>
    PrintData shw va ident d = ''id: ['' @ c_str ident @ ''] value: [0x'' @ concat (map show_hex b) @ line_end"
proof -
  have "HexToBytes unhex (binary_val args) = Inr b"
    using assms(1,6) show_hex_no_prefix [of b] by (auto simp: HexToBytes_def unhex_law_def Let_def)
  then show ?thesis
    using assms(2-5) by (simp add: BuildData_def PrintData_def value_lawsD Let_def)
qed

theorem binary_value_roundtrip_witness:
  "\<exists>d. BuildData example_unhex value_pb_api concrete_value_api (Args_new\<lparr>has_binary := True, binary_val := ''0x1F''\<rparr>) = Inr d \<and>
     PrintData (\<lambda>_. []) concrete_value_api ''P'' d = ''id: [P] value: [0x1F]'' @ [CHR 0x0A]"
proof -
  have hex: "concat (map show_hex [31]) = ''1F''" by (simp add: show_hex_def hex_digit_def)
  have "c_str ''P'' = ''P''" by code_simp
  then show ?thesis
    using binary_value_roundtrip [OF example_unhex_law concrete_value_laws, of "Args_new\<lparr>has_binary := True, binary_val := ''0x1F''\<rparr>"
      "[31]" "\<lambda>_. []" "''P''", unfolded hex] by (auto simp: Args_new_def line_end_def)
qed

section \<open>The read action\<close>

lemma wait_pending_eq:
  "wait_pending w (int n) cs out =
     (if n \<le> length cs then (Returns, out @ concat (map (completion_line w ''Read'') (take n cs)))
      else (Waits, out @ concat (map (completion_line w ''Read'') cs)))"
proof (induction cs arbitrary: n out)
  case (Cons c cs)
  show ?case
  proof (cases n)
    case (Suc m)
    then show ?thesis using Cons.IH [of m] by simp
  qed simp
qed simp

lemma add_reads:
  "\<not> m_hasBeenTaken b \<Longrightarrow> \<exists>b'. add_all (\<lambda>name. AddClientRead name Unit_none) ns b = Inr b' \<and> \<not> m_hasBeenTaken b' \<and>
     client_read_parameters (m_config b') =
       client_read_parameters (m_config b) @ map (\<lambda>n. \<lparr>cp_parameter_id = n, cp_unit = Unit_none\<rparr>) ns \<and>
     subscribed_parameters (m_config b') = subscribed_parameters (m_config b)"
proof (induction ns arbitrary: b)
  case (Cons n ns)
  let ?b = "b\<lparr>m_config := (m_config b)\<lparr>client_read_parameters := client_read_parameters (m_config b) @
    [\<lparr>cp_parameter_id = n, cp_unit = Unit_none\<rparr>]\<rparr>\<rparr>"
  have "AddClientRead n Unit_none b = Inr ?b" "\<not> m_hasBeenTaken ?b"
    using Cons.prems by (simp_all add: AddClientRead_def unless_taken_def)
  then show ?case using Cons.IH [of ?b] by simp
qed simp

lemma k_ServerIdentity_nonempty: "k_ServerIdentity \<noteq> []"
  by (simp add: k_ServerIdentity_def)

lemma with_service_ok:
  fixes w :: "'d world"
  assumes "env_ok (w_env w)" "\<And>b. \<not> m_hasBeenTaken b \<Longrightarrow> \<exists>b'. fill b = Inr b' \<and> \<not> m_hasBeenTaken b'"
  obtains b b' s out where "\<not> m_hasBeenTaken b" "m_config b = ParameterService_of k_ServerIdentity" "fill b = Inr b'"
    "with_service w fill = Inr (s, out)"
    "Service_ctor (w_api w) (w_env w) (w_doc w) (m_config b') (w_dir w) [] = (Inr (s, out), LoadConnections (w_doc w) (w_dir w))"
  unfolding with_service_def using assms(1) k_ServerIdentity_nonempty assms(2) by (rule build_service_ok)

lemma Service_ctor_no_subscriptions:
  assumes "Service_ctor api env doc c dir u = (Inr (s, u'), dir')" "subscribed_parameters c = []"
  shows "u' = u"
  using Service_ctor_phases [OF assms(1)] assms(2) by auto

lemma retrieve_all_ok:
  "(\<forall>n \<in> set ns. \<exists>h src. RetrieveReadInstance n s = Inr (h, src) \<and> rd_identity h = n) \<Longrightarrow>
   \<exists>hs. retrieve_all s ns = Inr hs \<and> map (rd_identity \<circ> fst) hs = ns"
proof (induction ns)
  case (Cons n ns)
  then obtain hs where "retrieve_all s ns = Inr hs" "map (rd_identity \<circ> fst) hs = ns" by auto
  moreover obtain h src where "RetrieveReadInstance n s = Inr (h, src)" "rd_identity h = n" using Cons.prems by auto
  ultimately show ?case by auto
qed simp

text \<open>
  The read action when the creation calls of Fast DDS succeed: it sends one request for every name, in
  order, and ends exactly when as many completions have arrived as there are names, having printed one
  line for each of them; with fewer completions it waits.
\<close>

theorem RunRead_ends:
  assumes "env_ok (w_env w)" "smap_inv (w_dir w)"
  shows "\<exists>hs. map (rd_identity \<circ> fst) hs = names args \<and>
    RunRead w replies args =
      (if length (names args) \<le> length (replies hs)
       then (Returns, concat (map (completion_line w ''Read'') (take (length (names args)) (replies hs))))
       else (Waits, concat (map (completion_line w ''Read'') (replies hs))))"
proof -
  let ?fill = "add_all (\<lambda>name. AddClientRead name Unit_none) (names args)"
  have "\<And>b. \<not> m_hasBeenTaken b \<Longrightarrow> \<exists>b'. ?fill b = Inr b' \<and> \<not> m_hasBeenTaken b'" using add_reads by blast
  then obtain b b' s out where o: "\<not> m_hasBeenTaken b" "m_config b = ParameterService_of k_ServerIdentity" "?fill b = Inr b'"
    "with_service w ?fill = Inr (s, out)"
    "Service_ctor (w_api w) (w_env w) (w_doc w) (m_config b') (w_dir w) [] = (Inr (s, out), LoadConnections (w_doc w) (w_dir w))"
    by (rule with_service_ok [OF assms(1)])
  have cfg: "client_read_parameters (m_config b') = map (\<lambda>n. \<lparr>cp_parameter_id = n, cp_unit = Unit_none\<rparr>) (names args)"
    "subscribed_parameters (m_config b') = []"
    using add_reads [OF o(1), of "names args"] o(2,3) by (auto simp: ParameterService_of_def)
  have "\<forall>n \<in> set (names args). \<exists>h src. RetrieveReadInstance n s = Inr (h, src) \<and> rd_identity h = n"
    using configured_handles [OF o(5) assms(2)] cfg by auto
  then obtain hs where "retrieve_all s (names args) = Inr hs" "map (rd_identity \<circ> fst) hs = names args"
    using retrieve_all_ok by blast
  moreover have "out = []" using Service_ctor_no_subscriptions [OF o(5) cfg(2)] .
  ultimately show ?thesis using o(4) by (auto simp: RunRead_def wait_pending_eq)
qed

definition example_world :: "vdata world" where
  "example_world = \<lparr>w_show = (\<lambda>_. ''?''), w_unhex = example_unhex, w_api = value_pb_api, w_va = concrete_value_api,
     w_env = ex_env, w_doc = None, w_dir = []\<rparr>"

definition example_reply :: "vdata Parameter" where
  "example_reply = \<lparr>pm_identity = ''A'', pm_unit = 0, pm_data = Some (QUALITY_GOOD, Some (BooleanValue True))\<rparr>"

theorem RunRead_ends_witness:
  "RunRead example_world (\<lambda>hs. map (\<lambda>h. (SUCCESS, example_reply)) hs) (Args_new\<lparr>names := [''A'', ''B'']\<rparr>) =
     (Returns, concat (replicate 2 (completion_line example_world ''Read'' (SUCCESS, example_reply))))"
proof -
  have "env_ok (w_env example_world)" "smap_inv (w_dir example_world)"
    by (simp_all add: example_world_def ex_env_ok)
  from RunRead_ends [OF this, of "Args_new\<lparr>names := [''A'', ''B'']\<rparr>" "map (\<lambda>h. (SUCCESS, example_reply))"]
  show ?thesis by (auto simp: numeral_2_eq_2)
qed

section \<open>The program does not abort\<close>

definition std_error :: "'a cpp \<Rightarrow> bool" where
  "std_error r \<longleftrightarrow> (\<forall>e. r = Inl e \<longrightarrow> exception_what e \<noteq> None)"

definition std_outcome :: "outcome \<Rightarrow> bool" where
  "std_outcome out \<longleftrightarrow> (\<forall>e. out = Throws e \<longrightarrow> exception_what e \<noteq> None)"

lemma std_error_simps [simp]: "std_error (Inr x)" "std_error (Inl e) \<longleftrightarrow> exception_what e \<noteq> None"
  "std_outcome Returns" "std_outcome Waits" "std_outcome (Throws e) \<longleftrightarrow> exception_what e \<noteq> None"
  by (simp_all add: std_error_def std_outcome_def)

lemma sto_unsigned_std: "std_error (sto_unsigned name t)"
  by (simp add: sto_unsigned_def split: prod.split)

lemma ParseDelay_std: "std_error (ParseDelay t)"
  using sto_unsigned_std by (auto simp: ParseDelay_def stoul_def Let_def std_error_def split: sum.splits)

lemma std_error_case:
  "std_error r \<Longrightarrow> (\<And>x. r = Inr x \<Longrightarrow> std_error (f x)) \<Longrightarrow> std_error (case r of Inl e \<Rightarrow> Inl e | Inr x \<Rightarrow> f x)"
  by (cases r) simp_all

lemma parse_loop_std:
  assumes "\<And>t. std_error (stod t)"
  shows "std_error (parse_loop stod argv args)"
proof (induction "length argv" arbitrary: argv args rule: less_induct)
  case less
  show ?case
  proof (cases argv)
    case (Cons arg rest)
    have IH: "std_error (parse_loop stod (tl rest) a)" "std_error (parse_loop stod rest a)" for a
      using less Cons by (simp_all add: less_Suc_eq_le)
    show ?thesis
      unfolding Cons parse_loop.simps
      by (simp only: split: if_split)
        (intro conjI impI IH std_error_case ParseDelay_std assms; simp add: stoull_def sto_unsigned_std)
  qed simp
qed

lemma ParseArgs_std:
  assumes "\<And>t. std_error (stod t)"
  shows "std_error (fst (ParseArgs_tester stod argv))"
proof -
  have "std_error (check_args a)" for a by (simp add: check_args_def)
  then show ?thesis
    using parse_loop_std [OF assms] by (auto simp: ParseArgs_tester_def Let_def std_error_def split: sum.splits)
qed

lemma BuildData_std:
  assumes "\<And>t. std_error (unhex t)"
  shows "std_error (BuildData unhex api va args)"
  using assms by (auto simp: BuildData_def HexToBytes_def Let_def std_error_def split: sum.splits)

lemma with_service_returns:
  assumes "env_ok (w_env w)" "\<And>b. \<not> m_hasBeenTaken b \<Longrightarrow> \<exists>b'. fill b = Inr b' \<and> \<not> m_hasBeenTaken b'"
  obtains s out where "with_service w fill = Inr (s, out)"
  using assms by (rule with_service_ok)

lemma add_subscribes:
  "\<not> m_hasBeenTaken b \<Longrightarrow> \<exists>b'. add_all (\<lambda>n. AddSubscribe n (f n) (g n)) ns b = Inr b' \<and> \<not> m_hasBeenTaken b'"
proof (induction ns arbitrary: b)
  case (Cons n ns)
  then obtain b1 where "AddSubscribe n (f n) (g n) b = Inr b1" "\<not> m_hasBeenTaken b1"
    by (simp add: AddSubscribe_def unless_taken_def)
  then show ?case using Cons.IH [of b1] by simp
qed simp

lemma add_publish:
  "\<not> m_hasBeenTaken b \<Longrightarrow> \<exists>b'. AddPublish n u d b = Inr b' \<and> \<not> m_hasBeenTaken b'"
  by (simp add: AddPublish_def unless_taken_def)

lemma add_client_write:
  "\<not> m_hasBeenTaken b \<Longrightarrow> \<exists>b'. AddClientWrite n u b = Inr b' \<and> \<not> m_hasBeenTaken b'"
  by (simp add: AddClientWrite_def unless_taken_def)

lemma RunPub_std:
  assumes "env_ok (w_env w)" "\<And>t. std_error (w_unhex w t)"
  shows "std_outcome (fst (RunPub w args))"
proof (cases "BuildData (w_unhex w) (w_api w) (w_va w) args")
  case (Inl e)
  then show ?thesis using BuildData_std [where unhex = "w_unhex w" and api = "w_api w" and va = "w_va w" and args = args, OF assms(2)] by (simp add: RunPub_def)
next
  case (Inr d)
  obtain s out where "with_service w (AddPublish (hd (names args)) Unit_none d) = Inr (s, out)"
    using assms(1) add_publish by (rule with_service_returns)
  then show ?thesis by (simp add: RunPub_def Inr)
qed

lemma RunSub_std:
  assumes "env_ok (w_env w)"
  shows "fst (RunSub w args) = Waits"
proof -
  obtain s out where "with_service w (add_all (\<lambda>name. AddSubscribe name (Some (on_sub w)) (Some (on_disc name))) (names args)) = Inr (s, out)"
    using assms add_subscribes by (rule with_service_returns)
  then show ?thesis by (simp add: RunSub_def)
qed

lemma retrieve_std: "std_error (RetrieveReadInstance i s)" "std_error (RetrieveWriteInstance i s)"
  by (simp_all add: RetrieveReadInstance_def RetrieveWriteInstance_def retrieve_def split: option.split)

lemma retrieve_all_std: "std_error (retrieve_all s ns)"
  by (induction ns) (auto intro!: std_error_case retrieve_std)

lemma RunRead_std:
  assumes "env_ok (w_env w)"
  shows "std_outcome (fst (RunRead w replies args))"
proof -
  have "\<exists>b'. add_all (\<lambda>name. AddClientRead name Unit_none) (names args) b = Inr b' \<and> \<not> m_hasBeenTaken b'"
    if "\<not> m_hasBeenTaken b" for b :: "('a, string) ConfigBuilder"
    using add_reads [OF that] by blast
  with assms obtain s out where o: "with_service w (add_all (\<lambda>name. AddClientRead name Unit_none) (names args)) = Inr (s, out)"
    by (rule with_service_returns)
  show ?thesis
  proof (cases "retrieve_all s (names args)")
    case (Inl e)
    then show ?thesis using retrieve_all_std [of s "names args"] o by (simp add: RunRead_def)
  qed (simp add: RunRead_def o wait_pending_eq)
qed

lemma RunWrite_std:
  assumes "env_ok (w_env w)" "\<And>t. std_error (w_unhex w t)"
  shows "std_outcome (fst (RunWrite w replies args))"
proof (cases "BuildData (w_unhex w) (w_api w) (w_va w) args")
  case (Inl e)
  then show ?thesis using BuildData_std [where unhex = "w_unhex w" and api = "w_api w" and va = "w_va w" and args = args, OF assms(2)] by (simp add: RunWrite_def)
next
  case d: (Inr d)
  obtain s out where o: "with_service w (AddClientWrite (hd (names args)) Unit_none) = Inr (s, out)"
    using assms(1) add_client_write by (rule with_service_returns)
  show ?thesis
  proof (cases "RetrieveWriteInstance (hd (names args)) s")
    case (Inl e)
    then show ?thesis using retrieve_std(2) [of "hd (names args)" s] o d by (simp add: RunWrite_def)
  qed (simp add: RunWrite_def o d split: option.split)
qed

text \<open>
  Whatever the command line is, the program ends through \<open>main\<close> or waits for signals or replies: every
  exception it can meet is a \<open>std::exception\<close>, which \<open>main\<close> reports before it returns 1.
\<close>

theorem tester_main_never_aborts:
  assumes "env_ok (w_env w)" "\<And>t. std_error (w_unhex w t)" "\<And>t. std_error (stod t)"
  shows "fst (tester_main w stod reads writes argv lg) \<in> {Exit 0, Exit 1, Blocked}"
proof -
  note rs = RunPub_std [OF assms(1,2)] RunSub_std [OF assms(1)] RunRead_std [OF assms(1)] RunWrite_std [OF assms(1,2)]
  have fin: "fst (case out of Returns \<Rightarrow> (Exit 0, [], usage, lg) | Waits \<Rightarrow> (Blocked, [], usage, lg)
      | Throws e \<Rightarrow> (case exception_what e of Some what \<Rightarrow> (Exit 1, ''Error: '' @ c_str what @ [CHR 0x0A], usage, lg)
          | None \<Rightarrow> (Aborted e, [], usage, lg))) \<in> {Exit 0, Exit 1, Blocked}" if "std_outcome out" for out usage and lg :: log_state
    using that by (auto split: outcome.split option.split)
  obtain r usage where p: "ParseArgs_tester stod argv = (r, usage)" by fastforce
  have r: "std_error r" using ParseArgs_std [where stod = stod and argv = argv, OF assms(3)] by (simp add: p)
  show ?thesis
  proof (cases r)
    case (Inl e)
    then show ?thesis using r by (auto simp: tester_main_def p Let_def)
  next
    case (Inr args)
    show ?thesis
      unfolding tester_main_def p Inr Let_def prod.case sum.case
      by (simp only: split: if_split prod.split) (intro conjI impI allI; elim Pair_inject; rule fin; use rs in auto)
  qed
qed

lemma example_unhex_std: "std_error (example_unhex t)"
  by (induction t rule: example_unhex.induct) (auto intro!: std_error_case)

theorem tester_main_never_aborts_witness:
  "fst (tester_main example_world (\<lambda>_. Inl (InvalidArgument ''stod'')) (\<lambda>_. []) (\<lambda>_ _. None) [''mpt''] log_initial) \<in> {Exit 0, Exit 1, Blocked}"
  by (rule tester_main_never_aborts) (simp_all add: example_world_def ex_env_ok example_unhex_std)

text \<open>
  An action that the program does not know is accepted by the parser and rejected in \<open>main\<close>, with the
  usage text and exit status 1, whatever the environment is.
\<close>

theorem unknown_action_usage:
  assumes "a \<notin> set [''--help'', ''-h'', ''help'', ''pub'', ''sub'', ''read'', ''write'']"
  shows "ParseArgs_tester stod [prog, a, ''--name'', n] = (Inr (Args_new\<lparr>arg_action := a, names := [n]\<rparr>), False) \<and>
    tester_main w stod reads writes [prog, a, ''--name'', n] lg =
      (Exit 1, ''Error: '' @ c_str (''Unknown action: '' @ quoted a @ ''. Expected: help, pub, sub, read, write.'') @ [CHR 0x0A],
       True, SetLogLevel 4 lg)"
proof -
  have "ParseArgs_tester stod [prog, a, ''--name'', n] = (Inr (Args_new\<lparr>arg_action := a, names := [n]\<rparr>), False)"
    using assms by (simp add: ParseArgs_tester_def check_args_def Args_new_def Let_def)
  then show ?thesis using assms by (simp add: tester_main_def Let_def)
qed

theorem unknown_action_usage_witness:
  "fst (tester_main example_world (\<lambda>_. Inr NaN) (\<lambda>_. []) (\<lambda>_ _. None) [''mpt'', ''list'', ''--name'', ''A''] log_initial) = Exit 1"
  by (subst unknown_action_usage [THEN conjunct2]) simp_all

end
