(* ===== verification/Latency_Stats.thy ===== *)
theory Latency_Stats
  imports Mw_Prelude "HOL-Library.Signed_Division"
begin

text \<open>
  The latency measurement of the sample programs: the time stamp that \<open>ParameterReadServer\<close> and
  \<open>ParameterPublish\<close> send as bytes, and the sampler that \<open>ParameterReadClient\<close> and \<open>ParameterSubscribe\<close>
  keep in the locals of their callbacks.  Shown: a time stamp is received as it was sent, the sampler
  stays within its array, and it reports the statistics of exactly the last fifty samples, unless a
  sample comes from a clock with another time base.
\<close>

section \<open>Time stamps\<close>

record timespec =
  tv_sec :: int
  tv_nsec :: int

text \<open>The bytes of a 64-bit integer in memory, lowest first.\<close>

fun le_bytes :: "nat \<Rightarrow> nat \<Rightarrow> byte list" where
  "le_bytes 0 n = []"
| "le_bytes (Suc k) n = of_nat (n mod 256) # le_bytes k (n div 256)"

fun le_value :: "byte list \<Rightarrow> nat" where
  "le_value [] = 0"
| "le_value (b # bs) = unat b + 256 * le_value bs"

definition int64_bytes :: "int \<Rightarrow> byte list" where
  "int64_bytes i = le_bytes 8 (unat (of_int i :: u64))"

definition int64_of :: "byte list \<Rightarrow> int" where
  "int64_of bs = sint (of_nat (le_value bs) :: u64)"

text \<open>\<open>assign(reinterpret_cast<char const*>(&monotime), sizeof(monotime))\<close>\<close>

definition timespec_bytes :: "timespec \<Rightarrow> byte list" where
  "timespec_bytes t = int64_bytes (tv_sec t) @ int64_bytes (tv_nsec t)"

text \<open>
  \<open>memcpy(&monotxtime, value.c_str(), sizeof(monotxtime))\<close>: behind the value stands one zero byte;
  copying more than that is undefined.
\<close>

definition memcpy_timespec :: "byte list \<Rightarrow> timespec option" where
  "memcpy_timespec value =
     (let s = value @ [0] in
      if length s < 16 then None
      else Some \<lparr>tv_sec = int64_of (take 8 s), tv_nsec = int64_of (take 8 (drop 8 s))\<rparr>)"

section \<open>The sampler\<close>

definition SAMPLE_AVERAGE :: nat where "SAMPLE_AVERAGE = 50"

text \<open>An element of the array that has not been assigned is \<open>None\<close>.\<close>

record sampler =
  RunningAverage :: "u64 option list"
  WhichSample :: nat
  TossFirstTiming :: bool

definition sampler_initial :: sampler where
  "sampler_initial = \<lparr>RunningAverage = replicate SAMPLE_AVERAGE None, WhichSample = 0, TossFirstTiming = True\<rparr>"

definition other_base :: "timespec \<Rightarrow> timespec \<Rightarrow> bool" where
  "other_base now tx \<longleftrightarrow> tv_sec now \<noteq> tv_sec tx \<and> \<bar>tv_sec now - tv_sec tx\<bar> > 10"

definition nstraveltime :: "timespec \<Rightarrow> timespec \<Rightarrow> int" where
  "nstraveltime now tx =
     (if tv_sec now = tv_sec tx then tv_nsec now - tv_nsec tx
      else if other_base now tx then 0
      else ((tv_sec now - 1) - tv_sec tx) * 1000000000 + tv_nsec now + (1000000000 - tv_nsec tx))"

text \<open>Minimum, maximum and average; \<open>None\<close> when an element without a value is read.\<close>

fun stats_loop :: "u64 option list \<Rightarrow> u64 \<Rightarrow> u64 \<Rightarrow> u64 \<Rightarrow> (u64 \<times> u64 \<times> u64) option" where
  "stats_loop [] sm mx mn = Some (mn, mx, sm div of_nat SAMPLE_AVERAGE)"
| "stats_loop (None # xs) sm mx mn = None"
| "stats_loop (Some x # xs) sm mx mn =
     stats_loop xs (sm + x) (if x > mx then x else mx) (if x < mn then (if x > 0 then x else mn) else mn)"

definition stats :: "u64 option list \<Rightarrow> (u64 \<times> u64 \<times> u64) option" where
  "stats xs = stats_loop xs 0 0 (- 1)"

text \<open>
  One sample on the latency channel: \<open>None\<close> is undefined behaviour, a write behind the array or a
  read of an element without a value; otherwise the report that is printed, if any, and the sampler.
\<close>

definition latency_sample :: "timespec \<Rightarrow> timespec \<Rightarrow> sampler \<Rightarrow> ((u64 \<times> u64 \<times> u64) option \<times> sampler) option" where
  "latency_sample now tx s =
     (let which = (if other_base now tx then (if WhichSample s + 1 = SAMPLE_AVERAGE then 0 else WhichSample s + 1) else WhichSample s);
          written =
            (if \<not> TossFirstTiming s then
               if which < length (RunningAverage s) then
                 Some (s\<lparr>RunningAverage := (RunningAverage s)[which := Some (of_int (nstraveltime now tx sdiv 1000))], WhichSample := which + 1\<rparr>)
               else None
             else Some (s\<lparr>WhichSample := which, TossFirstTiming := False\<rparr>))
      in case written of
           None \<Rightarrow> None
         | Some s' \<Rightarrow>
             if WhichSample s' = SAMPLE_AVERAGE then
               (case stats (RunningAverage s') of None \<Rightarrow> None | Some r \<Rightarrow> Some (Some r, s'\<lparr>WhichSample := 0\<rparr>))
             else Some (None, s'))"

text \<open>The samples that arrive, each with the time of its arrival.\<close>

fun latency_samples :: "(timespec \<times> timespec) list \<Rightarrow> sampler \<Rightarrow> ((u64 \<times> u64 \<times> u64) option list \<times> sampler) option" where
  "latency_samples [] s = Some ([], s)"
| "latency_samples ((now, tx) # es) s =
     (case latency_sample now tx s of
        None \<Rightarrow> None
      | Some (r, s') \<Rightarrow> (case latency_samples es s' of None \<Rightarrow> None | Some (rs, s'') \<Rightarrow> Some (r # rs, s'')))"

section \<open>Lemmas\<close>

lemma length_le_bytes [simp]: "length (le_bytes k n) = k"
  by (induction k arbitrary: n) simp_all

lemma le_value_bytes: "le_value (le_bytes k n) = n mod 256 ^ k"
proof (induction k arbitrary: n)
  case (Suc k)
  have "unat (of_nat (n mod 256) :: byte) = n mod 256" by (simp add: unat_of_nat)
  then show ?case using Suc [of "n div 256"] by (simp add: mod_mult2_eq)
qed simp

lemma int64_roundtrip: "- (2 ^ 63) \<le> i \<Longrightarrow> i < 2 ^ 63 \<Longrightarrow> int64_of (int64_bytes i) = i"
proof -
  assume i: "- (2 ^ 63) \<le> i" "i < 2 ^ 63"
  have "unat (of_int i :: u64) < 256 ^ 8" using unsigned_less [of "of_int i :: u64"] by simp
  then have "int64_of (int64_bytes i) = sint (of_int i :: u64)"
    by (simp add: int64_of_def int64_bytes_def le_value_bytes)
  also have "\<dots> = i" using i by (simp add: signed_of_int signed_take_bit_int_eq_self)
  finally show ?thesis .
qed

lemma length_int64_bytes [simp]: "length (int64_bytes i) = 8"
  by (simp add: int64_bytes_def)

definition timespec_fits :: "timespec \<Rightarrow> bool" where
  "timespec_fits t \<longleftrightarrow> - (2 ^ 63) \<le> tv_sec t \<and> tv_sec t < 2 ^ 63 \<and> - (2 ^ 63) \<le> tv_nsec t \<and> tv_nsec t < 2 ^ 63"

lemma memcpy_timespec_bytes: "timespec_fits t \<Longrightarrow> memcpy_timespec (timespec_bytes t) = Some t"
  by (simp add: memcpy_timespec_def timespec_bytes_def timespec_fits_def int64_roundtrip Let_def)

text \<open>The reference for the statistics, over all values at once.\<close>

definition summary :: "u64 list \<Rightarrow> u64 \<times> u64 \<times> u64" where
  "summary xs = (Min (insert (- 1) {x \<in> set xs. 0 < x}), Max (insert 0 (set xs)), sum_list xs div of_nat SAMPLE_AVERAGE)"

lemma Min_insert_step:
  "finite P \<Longrightarrow> Min (insert (if x < m then x else m) P) = Min (insert m (insert (x :: u64) P))"
  by (cases "P = {}") (auto simp: min_def)

lemma Max_insert_step:
  "finite P \<Longrightarrow> Max (insert (if x > m then x else m) P) = Max (insert m (insert (x :: u64) P))"
  by (cases "P = {}") (auto simp: max_def)

lemma stats_loop_summary:
  "stats_loop (map Some xs) S mx mn =
     Some (Min (insert mn {x \<in> set xs. 0 < x}), Max (insert mx (set xs)), (S + sum_list xs) div of_nat SAMPLE_AVERAGE)"
proof (induction xs arbitrary: S mx mn)
  case (Cons x xs)
  have pos: "{y \<in> set (x # xs). 0 < y} = (if 0 < x then insert x else (\<lambda>P. P)) {y \<in> set xs. 0 < y}" by auto
  have "Min (insert (if x < mn then (if x > 0 then x else mn) else mn) {y \<in> set xs. 0 < y}) =
      Min (insert mn {y \<in> set (x # xs). 0 < y})"
    unfolding pos using Min_insert_step [of "{y \<in> set xs. 0 < y}" x mn] by auto
  then show ?case
    unfolding list.map stats_loop.simps Cons.IH
    by (simp only: Max_insert_step [OF List.finite_set] list.set sum_list.Cons add.assoc)
qed simp

lemma stats_summary: "stats (map Some xs) = Some (summary xs)"
  by (simp add: stats_def summary_def stats_loop_summary)

lemma stats_undefined: "None \<in> set xs \<Longrightarrow> stats xs = None"
proof -
  have "None \<in> set xs \<Longrightarrow> stats_loop xs a b c = None" for a b c
    by (induction xs a b c rule: stats_loop.induct) auto
  then show "None \<in> set xs \<Longrightarrow> stats xs = None" by (simp add: stats_def)
qed

lemma stats_defined: "None \<notin> set xs \<Longrightarrow> stats xs = Some (summary (map the xs))"
proof -
  assume "None \<notin> set xs"
  then have "map Some (map the xs) = xs" by (induction xs) auto
  then show ?thesis using stats_summary [of "map the xs"] by simp
qed

definition micro :: "timespec \<times> timespec \<Rightarrow> u64" where
  "micro e = of_int (nstraveltime (fst e) (snd e) sdiv 1000)"

definition comparable :: "timespec \<times> timespec \<Rightarrow> bool" where
  "comparable e \<longleftrightarrow> \<not> other_base (fst e) (snd e)"

lemma latency_samples_append:
  "latency_samples (es @ fs) s =
     (case latency_samples es s of
        None \<Rightarrow> None
      | Some (rs, s') \<Rightarrow> (case latency_samples fs s' of None \<Rightarrow> None | Some (rs', s'') \<Rightarrow> Some (rs @ rs', s'')))"
  by (induction es s rule: latency_samples.induct) (auto split: option.split)

lemma latency_fill:
  assumes "\<not> TossFirstTiming s" "RunningAverage s = pre @ rest" "length (RunningAverage s) = SAMPLE_AVERAGE"
    "WhichSample s = length pre" "length pre + length es < SAMPLE_AVERAGE" "list_all comparable es"
  shows "latency_samples es s = Some (replicate (length es) None,
    s\<lparr>RunningAverage := pre @ map (Some \<circ> micro) es @ drop (length es) rest, WhichSample := length pre + length es\<rparr>)"
  using assms
proof (induction es arbitrary: s pre rest)
  case (Cons e es)
  obtain r rest' where rest: "rest = r # rest'" using Cons.prems by (cases rest) auto
  let ?pre = "pre @ [Some (micro e)]"
  let ?s = "s\<lparr>RunningAverage := ?pre @ rest', WhichSample := length ?pre\<rparr>"
  have "latency_sample (fst e) (snd e) s = Some (None, ?s)"
    using Cons.prems by (simp add: latency_sample_def comparable_def micro_def list_update_append rest)
  moreover have "latency_samples es ?s = Some (replicate (length es) None,
    ?s\<lparr>RunningAverage := ?pre @ map (Some \<circ> micro) es @ drop (length es) rest', WhichSample := length ?pre + length es\<rparr>)"
    using Cons.prems by (intro Cons.IH) (simp_all add: rest)
  ultimately show ?case by (cases e) (simp add: rest)
qed simp

text \<open>The sample that fills the last element.\<close>

lemma latency_last:
  assumes "\<not> TossFirstTiming s" "RunningAverage s = pre @ rest" "length (RunningAverage s) = SAMPLE_AVERAGE"
    "WhichSample s = length pre" "length pre + length es = SAMPLE_AVERAGE" "list_all comparable es" "es \<noteq> []"
  shows "latency_samples es s =
    (case stats (pre @ map (Some \<circ> micro) es) of
       None \<Rightarrow> None
     | Some r \<Rightarrow> Some (replicate (length es - 1) None @ [Some r],
         s\<lparr>RunningAverage := pre @ map (Some \<circ> micro) es, WhichSample := 0\<rparr>))"
proof -
  obtain fs e where es: "es = fs @ [e]" using assms(7) by (cases es rule: rev_cases) auto
  let ?s = "s\<lparr>RunningAverage := pre @ map (Some \<circ> micro) fs @ drop (length fs) rest, WhichSample := length pre + length fs\<rparr>"
  have fill: "latency_samples fs s = Some (replicate (length fs) None, ?s)"
    using assms(5,6) es by (intro latency_fill assms(1-4)) simp_all
  have "length (drop (length fs) rest) = 1" using assms(2,3,5) es by simp
  then obtain a where "drop (length fs) rest = [a]"
    by (cases "drop (length fs) rest"; cases "tl (drop (length fs) rest)") auto
  then have "(pre @ map (Some \<circ> micro) fs @ drop (length fs) rest)[length pre + length fs := Some (micro e)] =
      pre @ map (Some \<circ> micro) es"
    by (simp add: es list_update_append)
  moreover have "length pre + length fs < length (RunningAverage ?s)" "length pre + length fs + 1 = SAMPLE_AVERAGE"
    using assms(2,3,5) es by auto
  ultimately have "latency_sample (fst e) (snd e) ?s =
      (case stats (pre @ map (Some \<circ> micro) es) of None \<Rightarrow> None
       | Some r \<Rightarrow> Some (Some r, s\<lparr>RunningAverage := pre @ map (Some \<circ> micro) es, WhichSample := 0\<rparr>))"
    using assms(1,6) es by (auto simp: latency_sample_def comparable_def micro_def Let_def split: option.split)
  then show ?thesis
    using fill by (cases e) (auto simp: es latency_samples_append split: option.split)
qed

lemma latency_batch:
  assumes "\<not> TossFirstTiming s" "length (RunningAverage s) = SAMPLE_AVERAGE" "WhichSample s = 0"
    "length es = SAMPLE_AVERAGE" "list_all comparable es"
  shows "latency_samples es s = Some (replicate (SAMPLE_AVERAGE - 1) None @ [Some (summary (map micro es))],
    s\<lparr>RunningAverage := map (Some \<circ> micro) es\<rparr>)"
proof -
  have "es \<noteq> []" using assms(4) by (auto simp: SAMPLE_AVERAGE_def)
  then show ?thesis
    using latency_last [of s "[]" "RunningAverage s" es] assms stats_summary [of "map micro es"] by simp
qed

definition sampler_inv :: "sampler \<Rightarrow> bool" where
  "sampler_inv s \<longleftrightarrow> length (RunningAverage s) = SAMPLE_AVERAGE \<and> WhichSample s < SAMPLE_AVERAGE"

lemma sampler_inv_initial: "sampler_inv sampler_initial"
  by (simp add: sampler_inv_def sampler_initial_def SAMPLE_AVERAGE_def)

lemma latency_sample_inv:
  assumes "sampler_inv s" "latency_sample now tx s = Some (r, s')"
  shows "sampler_inv s'"
  using assms by (auto simp: latency_sample_def sampler_inv_def Let_def SAMPLE_AVERAGE_def split: if_splits option.splits)

lemma latency_samples_inv:
  "latency_samples es s = Some (rs, s') \<Longrightarrow> sampler_inv s \<Longrightarrow> sampler_inv s' \<and> length rs = length es"
proof (induction es s arbitrary: rs s' rule: latency_samples.induct)
  case (2 now tx es s)
  obtain r s1 rs1 where "latency_sample now tx s = Some (r, s1)" "latency_samples es s1 = Some (rs1, s')" "rs = r # rs1"
    using "2.prems"(1) by (auto split: option.splits)
  then show ?case using "2.IH" latency_sample_inv [OF "2.prems"(2)] by auto
qed simp

text \<open>As long as the clocks have one time base the elements before the index have been assigned.\<close>

definition sampler_ready :: "sampler \<Rightarrow> bool" where
  "sampler_ready s \<longleftrightarrow> sampler_inv s \<and> (\<forall>i < WhichSample s. RunningAverage s ! i \<noteq> None)"

lemma sampler_ready_initial: "sampler_ready sampler_initial"
  by (simp add: sampler_ready_def sampler_inv_initial) (simp add: sampler_initial_def)

lemma latency_sample_ready:
  assumes "sampler_ready s" "comparable (now, tx)"
  shows "\<exists>r s'. latency_sample now tx s = Some (r, s') \<and> sampler_ready s'"
proof (cases "TossFirstTiming s")
  case True
  then show ?thesis
    using assms by (auto simp: latency_sample_def comparable_def sampler_ready_def sampler_inv_def Let_def)
next
  case False
  let ?xs = "(RunningAverage s)[WhichSample s := Some (micro (now, tx))]"
  have bounds: "WhichSample s < length (RunningAverage s)" "length (RunningAverage s) = SAMPLE_AVERAGE"
    using assms(1) by (simp_all add: sampler_ready_def sampler_inv_def)
  have set: "?xs ! i \<noteq> None" if "i < Suc (WhichSample s)" for i
    using that assms(1) bounds by (auto simp: sampler_ready_def nth_list_update less_Suc_eq)
  show ?thesis
  proof (cases "Suc (WhichSample s) = SAMPLE_AVERAGE")
    case True
    then have "None \<notin> set ?xs" using set bounds
      by (auto simp: in_set_conv_nth)
    then show ?thesis
      using False True assms(2) bounds
      by (simp add: latency_sample_def comparable_def micro_def stats_defined sampler_ready_def sampler_inv_def Let_def)
  next
    case neq: False
    then show ?thesis
      using False assms(2) bounds set
      by (simp add: latency_sample_def comparable_def micro_def sampler_ready_def sampler_inv_def Let_def)
  qed
qed

section \<open>Properties\<close>

text \<open>
  Whatever samples arrive, the sampler writes only into its array, and after every sample its index is
  again within it.  Once every element has been assigned no later sample is undefined, and none of
  them takes a value away.
\<close>

theorem sampler_in_bounds:
  assumes "latency_samples es sampler_initial = Some (rs, s)"
  shows "sampler_inv s \<and> length rs = length es \<and>
    (None \<notin> set (RunningAverage s) \<longrightarrow>
       (\<exists>r s'. latency_sample now tx s = Some (r, s') \<and> sampler_inv s' \<and> None \<notin> set (RunningAverage s')))"
proof -
  have inv: "sampler_inv s" "length rs = length es" using latency_samples_inv [OF assms sampler_inv_initial] by auto
  have "\<exists>r s'. latency_sample now tx s = Some (r, s') \<and> None \<notin> set (RunningAverage s')" if full: "None \<notin> set (RunningAverage s)"
  proof -
    have upd: "None \<notin> set ((RunningAverage s)[i := Some v])" for i v
      using full set_update_subset_insert [of "RunningAverage s" i "Some v"] by auto
    then show ?thesis
      using inv full by (auto simp: latency_sample_def sampler_inv_def Let_def SAMPLE_AVERAGE_def stats_defined)
  qed
  then show ?thesis using inv latency_sample_inv by blast
qed

theorem sampler_in_bounds_witness:
  "sampler_inv (sampler_initial\<lparr>TossFirstTiming := False\<rparr>)"
proof -
  let ?t = "\<lparr>tv_sec = 1, tv_nsec = 0\<rparr>"
  have "latency_samples [(?t, ?t)] sampler_initial = Some ([None], sampler_initial\<lparr>TossFirstTiming := False\<rparr>)"
    by (simp add: latency_sample_def sampler_initial_def other_base_def SAMPLE_AVERAGE_def)
  from sampler_in_bounds [OF this] show ?thesis by blast
qed

text \<open>
  When all clocks have one time base, the first sample is dropped and every fifty further ones give one
  report, the minimum, maximum and average of exactly these fifty travel times in microseconds; the
  minimum leaves out travel times of less than a microsecond.
\<close>

theorem latency_reports:
  assumes "comparable e" "list_all comparable (concat batches)" "list_all (\<lambda>b. length b = SAMPLE_AVERAGE) batches"
  shows "\<exists>s. latency_samples (e # concat batches) sampler_initial =
    Some (None # concat (map (\<lambda>b. replicate (SAMPLE_AVERAGE - 1) None @ [Some (summary (map micro b))]) batches), s)"
proof -
  have run: "\<exists>s'. latency_samples (concat bs) s =
      Some (concat (map (\<lambda>b. replicate (SAMPLE_AVERAGE - 1) None @ [Some (summary (map micro b))]) bs), s')"
    if "\<not> TossFirstTiming s" "length (RunningAverage s) = SAMPLE_AVERAGE" "WhichSample s = 0"
      "list_all comparable (concat bs)" "list_all (\<lambda>b. length b = SAMPLE_AVERAGE) bs" for bs s
    using that
  proof (induction bs arbitrary: s)
    case (Cons b bs)
    let ?s = "s\<lparr>RunningAverage := map (Some \<circ> micro) b\<rparr>"
    have "latency_samples b s = Some (replicate (SAMPLE_AVERAGE - 1) None @ [Some (summary (map micro b))], ?s)"
      using Cons.prems by (intro latency_batch) simp_all
    then show ?case using Cons.IH [of ?s] Cons.prems by (auto simp: latency_samples_append)
  qed simp
  have "latency_sample (fst e) (snd e) sampler_initial = Some (None, sampler_initial\<lparr>TossFirstTiming := False\<rparr>)"
    using assms(1) by (simp add: latency_sample_def comparable_def sampler_initial_def SAMPLE_AVERAGE_def)
  then show ?thesis
    using run [of "sampler_initial\<lparr>TossFirstTiming := False\<rparr>" batches] assms(2,3)
    by (cases e) (auto simp: sampler_initial_def)
qed

theorem latency_reports_witness:
  "\<exists>s. latency_samples (replicate 51 (\<lparr>tv_sec = 3, tv_nsec = 5000\<rparr>, \<lparr>tv_sec = 2, tv_nsec = 999998000\<rparr>)) sampler_initial =
     Some (replicate 50 None @ [Some (7, 7, 7)], s)"
proof -
  let ?e = "(\<lparr>tv_sec = 3, tv_nsec = 5000\<rparr>, \<lparr>tv_sec = 2, tv_nsec = 999998000\<rparr>)"
  have e: "comparable ?e" "micro ?e = 7" by (simp_all add: comparable_def other_base_def micro_def nstraveltime_def)
  have "summary (replicate 50 7) = (7, 7, 7)"
  proof -
    have set: "{x \<in> set (replicate 50 7). 0 < x} = {7 :: u64}" by auto
    have "sum_list (replicate 50 7) = (350 :: u64)" by (simp add: sum_list_replicate)
    then show ?thesis unfolding summary_def set by (simp add: SAMPLE_AVERAGE_def)
  qed
  moreover have "replicate 51 ?e = ?e # concat [replicate 50 ?e]" by (simp add: numeral_eq_Suc)
  moreover have "list_all comparable (replicate 50 ?e)" using e by (simp add: list_all_iff)
  ultimately show ?thesis
    using latency_reports [of ?e "[replicate 50 ?e]"] e
    by (simp add: SAMPLE_AVERAGE_def map_replicate flip: append_Cons replicate_Suc)
qed

text \<open>
  A first sample from another time base moves the index although it is dropped: element 0 is never
  assigned, and the first report, after the next forty-nine samples, reads it.
\<close>

theorem other_base_reads_unassigned:
  assumes "other_base now tx" "list_all comparable es" "length es = SAMPLE_AVERAGE - 1"
  shows "latency_samples ((now, tx) # es) sampler_initial = None"
proof -
  let ?s = "sampler_initial\<lparr>WhichSample := 1, TossFirstTiming := False\<rparr>"
  have "latency_sample now tx sampler_initial = Some (None, ?s)"
    using assms(1) by (simp add: latency_sample_def sampler_initial_def SAMPLE_AVERAGE_def)
  moreover have "es \<noteq> []" using assms(3) by (auto simp: SAMPLE_AVERAGE_def)
  then have "latency_samples es ?s = None"
    using latency_last [of ?s "[None]" "replicate (SAMPLE_AVERAGE - 1) None" es] assms(2,3)
    by (auto simp: sampler_initial_def SAMPLE_AVERAGE_def stats_undefined simp flip: replicate_Suc)
  ultimately show ?thesis by simp
qed

end
