(* ===== verification/Param_Simulators.thy ===== *)
theory Param_Simulators
  imports Service_Factory Value_Api Std_Parse Latency_Stats
begin

text \<open>
  The sample programs \<open>ParameterReadServer\<close>, \<open>ParameterReadClient\<close>, \<open>ParameterPublish\<close> and
  \<open>ParameterSubscribe\<close> (\<open>apps/\<close>): their command lines, the services they build, the callbacks with the
  locals these share, and the loops that read and publish.  Shown: the client counts exactly the gaps
  in what the server sends, over a service that answers it finds none, and when the counts of the
  subscriber are something else.

  \<open>Quality_Name\<close> is generated code and the argument \<open>qname\<close>.  The monotonic clock is a component of the
  state the callbacks run on.
\<close>

section \<open>Identities\<close>

text \<open>\<open>snprintf(string_id_chars, sizeof(string_id_chars), "%i", i)\<close> with a buffer of eleven characters\<close>

definition string_id :: "nat \<Rightarrow> string" where
  "string_id i = take 10 (show_nat i)"

text \<open>The loops \<open>for(int i = 1; i <= n; i++)\<close> over the identities.\<close>

definition loop_ids :: "int \<Rightarrow> string list" where
  "loop_ids n = map string_id [1..<Suc (nat n)]"

section \<open>Read server\<close>

definition DebugReadLatencyChannel :: string where "DebugReadLatencyChannel = ''Debug.Read.Latency''"

record read_server =
  UniqueIntValue :: u64
  server_clock :: timespec

definition on_read_server :: "'d protobuf_api \<Rightarrow> 'd value_api \<Rightarrow> ('d, read_server) OnReadAction" where
  "on_read_server api va key ident u =
     (let data = pb_set_quality api QUALITY_GOOD (pb_default api) in
      if ident = DebugReadLatencyChannel then
        (Inr (Some (va_set va (BinaryValue (timespec_bytes (server_clock u))) data)), u)
      else
        (let u = (if ident = ''1'' then u\<lparr>UniqueIntValue := UniqueIntValue u + 1\<rparr> else u)
         in (Inr (Some (va_set va (Uinteger64Value (UniqueIntValue u)) data)), u)))"

text \<open>\<open>ParameterReadServerThread\<close> up to its wait for the end of the program.\<close>

definition ParameterReadServerThread ::
  "'d protobuf_api \<Rightarrow> 'd value_api \<Rightarrow> service_env \<Rightarrow> xml_domains \<Rightarrow> SourceTableConnections \<Rightarrow> int \<Rightarrow> timespec
     \<Rightarrow> (('d, read_server) Service \<times> read_server) cpp" where
  "ParameterReadServerThread api va env doc dir ReadParameterCount now =
     build_service api env doc dir ''DataLinkEngine''
       (add_all (\<lambda>ident. AddServerRead ident (Some (on_read_server api va))) (loop_ids ReadParameterCount @ [DebugReadLatencyChannel]))
       \<lparr>UniqueIntValue = 0, server_clock = now\<rparr>"

section \<open>Read client\<close>

record read_client =
  rc_sampler :: sampler
  LastDisplayValue :: u64
  SetSequentialFirstValue :: bool
  SequentialMisses :: u64
  client_clock :: timespec
  client_cout :: "string list"

definition read_client_initial :: "timespec \<Rightarrow> read_client" where
  "read_client_initial now =
     \<lparr>rc_sampler = sampler_initial, LastDisplayValue = 0, SetSequentialFirstValue = True, SequentialMisses = 0,
      client_clock = now, client_cout = []\<rparr>"

definition show_u64 :: "u64 \<Rightarrow> string" where "show_u64 v = show_nat (unat v)"

text \<open>The lines a report prints.\<close>

definition read_report :: "bool \<Rightarrow> u64 \<Rightarrow> (u64 \<times> u64 \<times> u64) option \<Rightarrow> string list" where
  "read_report TestReadSequential misses r =
     (case r of
        None \<Rightarrow> []
      | Some (mn, mx, avg) \<Rightarrow>
          [''Read RX Stats|Min='' @ show_u64 mn @ ''|Max='' @ show_u64 mx @ ''|Avg='' @ show_u64 avg @ '' (micro)''] @
          (if TestReadSequential then [''Read RX Sequential|Mismatch|'' @ show_u64 misses] else []))"

definition time_read :: "'d value_api \<Rightarrow> bool \<Rightarrow> 'd \<Rightarrow> read_client \<Rightarrow> read_client option" where
  "time_read va TestReadSequential data c =
     (case memcpy_timespec (binary_value va data) of
        None \<Rightarrow> None
      | Some monotxtime \<Rightarrow>
          (case latency_sample (client_clock c) monotxtime (rc_sampler c) of
             None \<Rightarrow> None
           | Some (r, s) \<Rightarrow>
               Some (c\<lparr>rc_sampler := s, client_cout := client_cout c @ read_report TestReadSequential (SequentialMisses c) r\<rparr>)))"

definition check_read :: "u64 \<Rightarrow> read_client \<Rightarrow> read_client" where
  "check_read v c =
     (let c = (if SetSequentialFirstValue c then
                 c\<lparr>SetSequentialFirstValue := False, LastDisplayValue := v,
                   client_cout := client_cout c @ [''Read RX Sequential (init)|Misses='' @ show_u64 (SequentialMisses c) @
                     ''|Last='' @ show_u64 v @ ''|Current='' @ show_u64 v]\<rparr>
               else if LastDisplayValue c + 1 \<noteq> v then
                 c\<lparr>SequentialMisses := SequentialMisses c + 1,
                   client_cout := client_cout c @ [''Read RX Sequential|Misses='' @ show_u64 (SequentialMisses c + 1) @
                     ''|Last='' @ show_u64 (LastDisplayValue c) @ ''|Current='' @ show_u64 v]\<rparr>
               else c)
      in c\<lparr>LastDisplayValue := v\<rparr>)"

text \<open>\<open>None\<close> is undefined behaviour.  The status of the read is not looked at.\<close>

definition on_read_client ::
  "(quality \<Rightarrow> string) \<Rightarrow> 'd protobuf_api \<Rightarrow> 'd value_api \<Rightarrow> bool \<Rightarrow> bool \<Rightarrow> Param_Status \<Rightarrow> 'd Parameter \<Rightarrow> read_client \<Rightarrow> read_client option" where
  "on_read_client qname api va TestReadSequential ShowReadValues ReadStatus p c =
     (let data = pm_data_of api p; v = uinteger64_value va data in
      case (if pm_identity p = DebugReadLatencyChannel then time_read va TestReadSequential data c else Some c) of
        None \<Rightarrow> None
      | Some c \<Rightarrow>
          if ShowReadValues \<and> pm_identity p \<noteq> DebugReadLatencyChannel then
            (let c = c\<lparr>client_cout := client_cout c @
               [''Read RX|ID='' @ pm_identity p @ ''|uint64='' @ show_u64 v @ ''|'' @ qname (pb_quality api data)]\<rparr>
             in Some (if TestReadSequential \<and> pm_identity p = ''1'' then check_read v c else c))
          else Some c)"

definition ParameterReadClient_service ::
  "'d protobuf_api \<Rightarrow> service_env \<Rightarrow> xml_domains \<Rightarrow> SourceTableConnections \<Rightarrow> int \<Rightarrow> (('d, unit) Service \<times> unit) cpp" where
  "ParameterReadClient_service api env doc dir ReadParameters =
     build_service api env doc dir ''CoreTelematics''
       (add_all (\<lambda>ident. AddClientRead ident Unit_none) (loop_ids ReadParameters @ [DebugReadLatencyChannel])) ()"

text \<open>The identities that one round of the loop reads.\<close>

definition read_round :: "int \<Rightarrow> string list" where
  "read_round ReadParameters = loop_ids ReadParameters @ [DebugReadLatencyChannel]"

section \<open>Publisher\<close>

definition DebugLatencyChannel :: string where "DebugLatencyChannel = ''Debug.Latency''"

definition ParameterPublish_service ::
  "'d protobuf_api \<Rightarrow> 'd value_api \<Rightarrow> service_env \<Rightarrow> xml_domains \<Rightarrow> SourceTableConnections \<Rightarrow> int \<Rightarrow> timespec
     \<Rightarrow> (('d, unit) Service \<times> unit) cpp" where
  "ParameterPublish_service api va env doc dir publish_parameters now =
     build_service api env doc dir ''DataLinkEngine''
       (\<lambda>b. case add_all (\<lambda>ident. AddPublish ident Unit_none (pb_default api)) (loop_ids publish_parameters) b of
              Inl e \<Rightarrow> Inl e
            | Inr b \<Rightarrow> AddPublish DebugLatencyChannel Unit_none (va_set va (BinaryValue (timespec_bytes now)) (pb_default api)) b) ()"

text \<open>One pass of the loop.\<close>

definition publish_round ::
  "'d protobuf_api \<Rightarrow> 'd value_api \<Rightarrow> service_env \<Rightarrow> int \<Rightarrow> timespec \<Rightarrow> ('d, unit) Service \<times> u64 \<Rightarrow> (('d, unit) Service \<times> u64) cpp" where
  "publish_round api va env publish_parameters now su =
     (let v = snd su + 1;
          data = va_set va (Uinteger64Value v) (pb_set_quality api QUALITY_GOOD (pb_default api))
      in case publish_each (publish_on api env) (loop_ids publish_parameters) data (fst su) of
           Inl e \<Rightarrow> Inl e
         | Inr s \<Rightarrow>
             (case publish_on api env DebugLatencyChannel
                     (va_set va (BinaryValue (timespec_bytes now)) (pb_default api)) s of
                Inl e \<Rightarrow> Inl e
              | Inr s \<Rightarrow> Inr (s, v)))"

fun publish_rounds ::
  "'d protobuf_api \<Rightarrow> 'd value_api \<Rightarrow> service_env \<Rightarrow> int \<Rightarrow> timespec list \<Rightarrow> ('d, unit) Service \<times> u64 \<Rightarrow> (('d, unit) Service \<times> u64) cpp" where
  "publish_rounds api va env n [] su = Inr su"
| "publish_rounds api va env n (now # clocks) su =
     (case publish_round api va env n now su of Inl e \<Rightarrow> Inl e | Inr su' \<Rightarrow> publish_rounds api va env n clocks su')"

text \<open>
  \<open>ParameterPublishDataLoader\<close>, with the times of the passes of the loop; \<open>--publishonce\<close> ends it after the
  first.  Without a rate nothing is published.
\<close>

definition ParameterPublishDataLoader ::
  "'d protobuf_api \<Rightarrow> 'd value_api \<Rightarrow> service_env \<Rightarrow> xml_domains \<Rightarrow> SourceTableConnections \<Rightarrow> int \<Rightarrow> int \<Rightarrow> bool \<Rightarrow> timespec
     \<Rightarrow> timespec list \<Rightarrow> (('d, unit) Service \<times> u64) option cpp" where
  "ParameterPublishDataLoader api va env doc dir publish_frequency publish_parameters publish_once now clocks =
     (if publish_frequency < 1 then Inr None
      else
        (case ParameterPublish_service api va env doc dir publish_parameters now of
           Inl e \<Rightarrow> Inl e
         | Inr (s, _) \<Rightarrow>
             (case publish_rounds api va env publish_parameters (if publish_once then take 1 clocks else clocks) (s, 1) of
                Inl e \<Rightarrow> Inl e
              | Inr su \<Rightarrow> Inr (Some su))))"

section \<open>Subscriber\<close>

record subscriber =
  sb_sampler :: sampler
  sb_LastDisplayValue :: u64
  sb_SequentialMisses :: u64
  sb_clock :: timespec
  sb_cout :: "string list"

definition subscriber_initial :: "timespec \<Rightarrow> subscriber" where
  "subscriber_initial now =
     \<lparr>sb_sampler = sampler_initial, sb_LastDisplayValue = 1, sb_SequentialMisses = 0, sb_clock = now, sb_cout = []\<rparr>"

definition subscription_report :: "string \<Rightarrow> bool \<Rightarrow> u64 \<Rightarrow> (u64 \<times> u64 \<times> u64) option \<Rightarrow> string list" where
  "subscription_report ThreadID TestReadSequential misses r =
     (case r of
        None \<Rightarrow> []
      | Some (mn, mx, avg) \<Rightarrow>
          [''ParameterSubscriberThread ['' @ ThreadID @ ''] Min '' @ show_u64 mn @ ''|Max '' @ show_u64 mx @ ''|Avg '' @
             show_u64 avg @ '' (micro)''] @
          (if TestReadSequential then [''Thread ['' @ ThreadID @ ''] Sequential Mismatch Total Count|'' @ show_u64 misses] else []))"

definition time_subscription :: "'d value_api \<Rightarrow> string \<Rightarrow> bool \<Rightarrow> 'd \<Rightarrow> subscriber \<Rightarrow> subscriber option" where
  "time_subscription va ThreadID TestReadSequential data c =
     (case memcpy_timespec (binary_value va data) of
        None \<Rightarrow> None
      | Some monotxtime \<Rightarrow>
          (case latency_sample (sb_clock c) monotxtime (sb_sampler c) of
             None \<Rightarrow> None
           | Some (r, s) \<Rightarrow>
               Some (c\<lparr>sb_sampler := s, sb_cout := sb_cout c @ subscription_report ThreadID TestReadSequential (sb_SequentialMisses c) r\<rparr>)))"

text \<open>The comparison is between signed conversions, which are equal when the values are.\<close>

definition check_subscription :: "string \<Rightarrow> u64 \<Rightarrow> subscriber \<Rightarrow> subscriber" where
  "check_subscription ThreadID v c =
     (let c = (if sb_LastDisplayValue c = 1 then c\<lparr>sb_LastDisplayValue := v - 1\<rparr>
               else if sint (sb_LastDisplayValue c + 1) \<noteq> sint v then
                 c\<lparr>sb_SequentialMisses := sb_SequentialMisses c + 1,
                   sb_cout := sb_cout c @
                     [''Thread ['' @ ThreadID @ ''] Sequential Mismatch Last|'' @ show_u64 (sb_LastDisplayValue c) @
                        '' Current|'' @ show_u64 v,
                      ''Thread ['' @ ThreadID @ ''] Sequential Mismatch Total Count|'' @ show_u64 (sb_SequentialMisses c + 1)]\<rparr>
               else c)
      in c\<lparr>sb_LastDisplayValue := v\<rparr>)"

definition on_subscription ::
  "(quality \<Rightarrow> string) \<Rightarrow> 'd protobuf_api \<Rightarrow> 'd value_api \<Rightarrow> string \<Rightarrow> bool \<Rightarrow> bool \<Rightarrow> Identity \<Rightarrow> 'd \<Rightarrow> subscriber \<Rightarrow> subscriber option" where
  "on_subscription qname api va ThreadID TestReadSequential ShowReadValues ident data c =
     (let v = uinteger64_value va data in
      case (if ident = DebugLatencyChannel then time_subscription va ThreadID TestReadSequential data c else Some c) of
        None \<Rightarrow> None
      | Some c \<Rightarrow>
          (let c = (if ShowReadValues \<and> ident \<noteq> DebugLatencyChannel then
                      c\<lparr>sb_cout := sb_cout c @ [''Sub RX|ID='' @ ident @ ''|uint64='' @ show_u64 v @ ''|'' @ qname (pb_quality api data)]\<rparr>
                    else c)
           in Some (if TestReadSequential then check_subscription ThreadID v c else c)))"

text \<open>The state of the callbacks is \<open>None\<close> once one of them was undefined.\<close>

definition on_disconnect :: "subscriber option OnDisconnect" where
  "on_disconnect u = (Inr (), map_option (\<lambda>c. c\<lparr>sb_cout := sb_cout c @ [''[Disconnect Called]'']\<rparr>) u)"

definition ParameterSubscriber_service ::
  "(quality \<Rightarrow> string) \<Rightarrow> 'd protobuf_api \<Rightarrow> 'd value_api \<Rightarrow> service_env \<Rightarrow> xml_domains \<Rightarrow> SourceTableConnections \<Rightarrow> string
     \<Rightarrow> bool \<Rightarrow> bool \<Rightarrow> int \<Rightarrow> timespec \<Rightarrow> (('d, subscriber option) Service \<times> subscriber option) cpp" where
  "ParameterSubscriber_service qname api va env doc dir ThreadID TestReadSequential ShowReadValues StreamFilterRange now =
     build_service api env doc dir ''DataLinkEngine''
       (add_all (\<lambda>ident. AddSubscribe_deprecated ident Unit_none
            (Some (\<lambda>ident data u. (Inr (), Option.bind u (on_subscription qname api va ThreadID TestReadSequential ShowReadValues ident data))))
            (Some on_disconnect))
          (DebugLatencyChannel # loop_ids StreamFilterRange))
       (Some (subscriber_initial now))"

section \<open>Command lines\<close>

text \<open>
  The argument loops go over all of \<open>argv\<close>, the program name included.  A loop ends with the settings, with
  the usage text, or in undefined behaviour where a buffer is read that \<open>strncpy\<close> left without end.
\<close>

datatype 'a cmdline = Settings 'a | UsageShown | UndefinedRead

definition MAX_SERVER_ADDRESS :: nat where "MAX_SERVER_ADDRESS = 21"
definition MAX_RATE_CHARS :: nat where "MAX_RATE_CHARS = 10"

definition long_option :: "nat \<Rightarrow> string \<Rightarrow> (int \<Rightarrow> 'a cmdline) \<Rightarrow> 'a cmdline" where
  "long_option n arg k = (case buffer_long MAX_RATE_CHARS (drop n arg) of None \<Rightarrow> UndefinedRead | Some v \<Rightarrow> k v)"

definition address_option :: "string \<Rightarrow> (string \<Rightarrow> 'a cmdline) \<Rightarrow> 'a cmdline" where
  "address_option arg k = (case buffer_string MAX_SERVER_ADDRESS (drop 5 arg) of None \<Rightarrow> UndefinedRead | Some v \<Rightarrow> k v)"

record read_client_settings =
  ca_server_address :: string
  ca_read_parms :: int
  ca_show_read_values :: bool
  ca_test_read_sequential :: bool
  ca_readonce :: bool
  ca_readrate_ms :: int

fun read_client_loop :: "string list \<Rightarrow> read_client_settings \<Rightarrow> read_client_settings cmdline" where
  "read_client_loop [] a = Settings a"
| "read_client_loop (arg # argv) a =
     (if strncmp_literal ''--ip='' arg then address_option arg (\<lambda>v. read_client_loop argv (a\<lparr>ca_server_address := v\<rparr>))
      else if strncmp_literal ''--readonce'' arg then read_client_loop argv (a\<lparr>ca_readonce := True\<rparr>)
      else if strncmp_literal ''--readrate='' arg then long_option 11 arg (\<lambda>v. read_client_loop argv (a\<lparr>ca_readrate_ms := v\<rparr>))
      else if strncmp_literal ''--readparms='' arg then long_option 12 arg (\<lambda>v. read_client_loop argv (a\<lparr>ca_read_parms := v\<rparr>))
      else if strncmp_literal ''--showreadvalues'' arg then read_client_loop argv (a\<lparr>ca_show_read_values := True\<rparr>)
      else if strncmp_literal ''--testreadsequential'' arg then read_client_loop argv (a\<lparr>ca_test_read_sequential := True\<rparr>)
      else if strncmp_literal ''--help'' arg then UsageShown
      else read_client_loop argv a)"

definition read_client_args :: "string list \<Rightarrow> read_client_settings cmdline" where
  "read_client_args argv =
     (let a = \<lparr>ca_server_address = ''127.0.0.1:50075'', ca_read_parms = - 1, ca_show_read_values = False,
               ca_test_read_sequential = False, ca_readonce = False, ca_readrate_ms = 1000\<rparr>
      in if length argv > 1 then read_client_loop argv a else Settings a)"

record read_server_settings =
  ra_server_address :: string
  ra_server_read_parms :: int
  ra_PublishOnce :: bool

fun read_server_loop :: "string list \<Rightarrow> read_server_settings \<Rightarrow> read_server_settings cmdline" where
  "read_server_loop [] a = Settings a"
| "read_server_loop (arg # argv) a =
     (if strncmp_literal ''--ip='' arg then address_option arg (\<lambda>v. read_server_loop argv (a\<lparr>ra_server_address := v\<rparr>))
      else if strncmp_literal ''--serverreadparms='' arg then
        long_option 18 arg (\<lambda>v. read_server_loop argv (a\<lparr>ra_server_read_parms := v\<rparr>))
      else if strncmp_literal ''--publishonce'' arg then read_server_loop argv (a\<lparr>ra_PublishOnce := True\<rparr>)
      else if strncmp_literal ''--help'' arg then UsageShown
      else read_server_loop argv a)"

definition read_server_args :: "string list \<Rightarrow> read_server_settings cmdline" where
  "read_server_args argv =
     (let a = \<lparr>ra_server_address = ''127.0.0.1:50075'', ra_server_read_parms = - 1, ra_PublishOnce = False\<rparr>
      in if length argv > 1 then read_server_loop argv a else Settings a)"

record publish_settings =
  pa_server_address :: string
  pa_publish_rate_ms :: int
  pa_publish_parms :: int
  pa_publish_once :: bool

fun publish_loop :: "string list \<Rightarrow> publish_settings \<Rightarrow> publish_settings cmdline" where
  "publish_loop [] a = Settings a"
| "publish_loop (arg # argv) a =
     (if strncmp_literal ''--ip='' arg then address_option arg (\<lambda>v. publish_loop argv (a\<lparr>pa_server_address := v\<rparr>))
      else if strncmp_literal ''--publishrate='' arg then
        long_option 14 arg (\<lambda>v. publish_loop argv (a\<lparr>pa_publish_rate_ms := v\<rparr>))
      else if strncmp_literal ''--publishparms='' arg then
        long_option 15 arg (\<lambda>v. publish_loop argv (a\<lparr>pa_publish_parms := v\<rparr>))
      else if strncmp_literal ''--publishonce'' arg then publish_loop argv (a\<lparr>pa_publish_once := True\<rparr>)
      else if strncmp_literal ''--help'' arg then UsageShown
      else publish_loop argv a)"

definition publish_args :: "string list \<Rightarrow> publish_settings cmdline" where
  "publish_args argv =
     (let a = \<lparr>pa_server_address = ''127.0.0.1:50075'', pa_publish_rate_ms = - 1, pa_publish_parms = - 1, pa_publish_once = False\<rparr>
      in if length argv > 1 then publish_loop argv a else Settings a)"

record subscribe_settings =
  sa_server_address :: string
  sa_stream_filter_range :: int
  sa_show_read_values :: bool
  sa_test_read_sequential :: bool

fun subscribe_loop :: "string list \<Rightarrow> subscribe_settings \<Rightarrow> subscribe_settings cmdline" where
  "subscribe_loop [] a = Settings a"
| "subscribe_loop (arg # argv) a =
     (if strncmp_literal ''--ip='' arg then address_option arg (\<lambda>v. subscribe_loop argv (a\<lparr>sa_server_address := v\<rparr>))
      else if strncmp_literal ''--streamfilterrange='' arg then
        long_option 20 arg (\<lambda>v. subscribe_loop argv (a\<lparr>sa_stream_filter_range := v\<rparr>))
      else if strncmp_literal ''--showreadvalues'' arg then subscribe_loop argv (a\<lparr>sa_show_read_values := True\<rparr>)
      else if strncmp_literal ''--testreadsequential'' arg then subscribe_loop argv (a\<lparr>sa_test_read_sequential := True\<rparr>)
      else if strncmp_literal ''--help'' arg then UsageShown
      else subscribe_loop argv a)"

definition subscribe_args :: "string list \<Rightarrow> subscribe_settings cmdline" where
  "subscribe_args argv =
     (let a = \<lparr>sa_server_address = ''127.0.0.1:50075'', sa_stream_filter_range = - 1, sa_show_read_values = False,
               sa_test_read_sequential = False\<rparr>
      in if length argv > 1 then subscribe_loop argv a else Settings a)"

section \<open>The sequence check of the client\<close>

text \<open>The number of places where a value is not the successor of the one before.\<close>

fun gaps :: "u64 list \<Rightarrow> nat" where
  "gaps (x # y # r) = (if x + 1 = y then 0 else 1) + gaps (y # r)"
| "gaps _ = 0"

text \<open>A history of completed reads, each with the time at which it completed.\<close>

fun reads_run ::
  "(quality \<Rightarrow> string) \<Rightarrow> 'd protobuf_api \<Rightarrow> 'd value_api \<Rightarrow> bool \<Rightarrow> bool \<Rightarrow> (timespec \<times> Param_Status \<times> 'd Parameter) list
     \<Rightarrow> read_client \<Rightarrow> read_client option" where
  "reads_run qname api va test shw [] c = Some c"
| "reads_run qname api va test shw ((t, status, p) # es) c =
     (case on_read_client qname api va test shw status p (c\<lparr>client_clock := t\<rparr>) of
        None \<Rightarrow> None
      | Some c' \<Rightarrow> reads_run qname api va test shw es c')"

definition values_of :: "'d protobuf_api \<Rightarrow> 'd value_api \<Rightarrow> (timespec \<times> Param_Status \<times> 'd Parameter) list \<Rightarrow> u64 list" where
  "values_of api va es =
     map (\<lambda>(_, _, p). uinteger64_value va (pm_data_of api p)) (filter (\<lambda>(_, _, p). pm_identity p = ''1'') es)"

lemma channel_not_1 [simp]: "DebugReadLatencyChannel \<noteq> ''1''" "''1'' \<noteq> DebugReadLatencyChannel"
  by (simp_all add: DebugReadLatencyChannel_def)

lemma check_read_seq:
  "SetSequentialFirstValue (check_read v c) = False" "LastDisplayValue (check_read v c) = v"
  "SequentialMisses (check_read v c) =
     SequentialMisses c + (if SetSequentialFirstValue c \<or> LastDisplayValue c + 1 = v then 0 else 1)"
  "rc_sampler (check_read v c) = rc_sampler c"
  by (simp_all add: check_read_def Let_def)

lemma time_read_seq:
  "time_read va test d c = Some c' \<Longrightarrow>
     SetSequentialFirstValue c' = SetSequentialFirstValue c \<and> LastDisplayValue c' = LastDisplayValue c \<and>
     SequentialMisses c' = SequentialMisses c"
  by (auto simp: time_read_def split: option.splits)

lemma on_read_client_seq:
  assumes "on_read_client qname api va True True status p c = Some c'"
  shows "if pm_identity p = ''1''
    then SetSequentialFirstValue c' = False \<and> LastDisplayValue c' = uinteger64_value va (pm_data_of api p) \<and>
      SequentialMisses c' = SequentialMisses c +
        (if SetSequentialFirstValue c \<or> LastDisplayValue c + 1 = uinteger64_value va (pm_data_of api p) then 0 else 1)
    else SetSequentialFirstValue c' = SetSequentialFirstValue c \<and> LastDisplayValue c' = LastDisplayValue c \<and>
      SequentialMisses c' = SequentialMisses c"
proof (cases "pm_identity p = DebugReadLatencyChannel")
  case True
  then show ?thesis
    using assms time_read_seq [of va True "pm_data_of api p" c] by (auto simp: on_read_client_def Let_def split: option.splits)
next
  case False
  then show ?thesis using assms by (auto simp: on_read_client_def Let_def check_read_seq)
qed

lemma client_run_misses:
  assumes "reads_run qname api va True True es c = Some c'"
  shows "SequentialMisses c' = SequentialMisses c +
    of_nat (gaps ((if SetSequentialFirstValue c then [] else [LastDisplayValue c]) @ values_of api va es))"
  using assms
proof (induction es arbitrary: c)
  case Nil
  then show ?case by (simp add: values_of_def)
next
  case (Cons e es)
  obtain t status p where e: "e = (t, status, p)" by (cases e)
  obtain c1 where c1: "on_read_client qname api va True True status p (c\<lparr>client_clock := t\<rparr>) = Some c1"
    "reads_run qname api va True True es c1 = Some c'"
    using Cons.prems by (auto simp: e split: option.splits)
  show ?case
    using Cons.IH [OF c1(2)] on_read_client_seq [OF c1(1)]
    by (auto simp: e values_of_def split: if_splits)
qed

text \<open>
  With both flags, the client counts exactly the places at which the value of parameter 1 was not the
  successor of the value before, whatever else it reads in between; the count wraps at \<open>2 ^ 64\<close>, as
  the values do.
\<close>

theorem client_counts_gaps:
  assumes "reads_run qname api va True True es (read_client_initial now) = Some c"
  shows "SequentialMisses c = of_nat (gaps (values_of api va es))"
  using client_run_misses [OF assms] by (simp add: read_client_initial_def)

text \<open>Without \<open>--showreadvalues\<close> nothing is counted, \<open>--testreadsequential\<close> or not.\<close>

theorem client_counts_nothing_unshown:
  assumes "reads_run qname api va test False es (read_client_initial now) = Some c"
  shows "SequentialMisses c = 0"
proof -
  have "reads_run qname api va test False es c0 = Some c \<Longrightarrow> SequentialMisses c = SequentialMisses c0" for c0
  proof (induction es arbitrary: c0)
    case (Cons e es)
    then show ?case
      using time_read_seq by (cases e) (fastforce simp: on_read_client_def Let_def split: option.splits if_splits)
  qed simp
  from this [OF assms] show ?thesis by (simp add: read_client_initial_def)
qed

section \<open>Server and client together\<close>

text \<open>
  The requests of a client, one after the other: each is serialised, answered by the server's
  \<open>ProcessReadRequest\<close> at the first of its times, and completed in the client at the second.
\<close>

fun read_exchange ::
  "'d protobuf_api \<Rightarrow> ('d, read_server) Service \<Rightarrow> (timespec \<times> timespec \<times> Identity) list \<Rightarrow> read_server
     \<Rightarrow> (timespec \<times> Param_Status \<times> 'd Parameter) list option" where
  "read_exchange api s [] u = Some []"
| "read_exchange api s ((ts, tc, i) # es) u =
     (let r = \<lparr>rd_identity = i, rd_unit = Unit_none\<rparr> in
      case ProcessReadRequest api s 0 \<lparr>rq_serialized_protobuf = pb_ser_Parameter api (Read_request r)\<rparr> (u\<lparr>server_clock := ts\<rparr>) of
        (Inr (Some reply), u') \<Rightarrow> map_option (\<lambda>h. (tc, Read_handler api r reply) # h) (read_exchange api s es u')
      | _ \<Rightarrow> None)"

fun count_up :: "u64 \<Rightarrow> nat \<Rightarrow> u64 list" where
  "count_up v 0 = []"
| "count_up v (Suc k) = (v + 1) # count_up (v + 1) k"

lemma gaps_count_up: "gaps (v # count_up v k) = 0" "gaps (count_up v k) = 0"
proof -
  show "gaps (v # count_up v k) = 0" for v by (induction k arbitrary: v) simp_all
  then show "gaps (count_up v k) = 0" by (cases k) simp_all
qed

lemma ParameterReadServerThread_ok:
  assumes "env_ok env"
  obtains s u where "ParameterReadServerThread api va env doc dir n now = Inr (s, u)" "UniqueIntValue u = 0"
    "\<And>i. i \<in> set (read_round n) \<Longrightarrow> smap_find (m_onReadActions s) i = Some (Some (on_read_server api va))"
proof -
  let ?fill = "add_all (\<lambda>ident. AddServerRead ident (Some (on_read_server api va))) (loop_ids n @ [DebugReadLatencyChannel])"
  let ?u = "\<lparr>UniqueIntValue = 0, server_clock = now\<rparr>"
  have fill: "?fill b = Inr (b\<lparr>m_config := (m_config b)\<lparr>server_read_parameters := server_read_parameters (m_config b) @
      map (\<lambda>i. \<lparr>sr_parameter_id = i, sr_callback = Some (on_read_server api va)\<rparr>) (read_round n)\<rparr>\<rparr>)"
    if "\<not> m_hasBeenTaken b" for b
    by (simp only: AddServerRead_def add_all_unless_taken [OF that] fold_config read_round_def)
  have filled: "\<exists>b'. ?fill b = Inr b' \<and> \<not> m_hasBeenTaken b'" if "\<not> m_hasBeenTaken b" for b
    using fill [OF that] that by simp
  have name: "''DataLinkEngine'' \<noteq> []" by simp
  obtain b b' s u' where o: "\<not> m_hasBeenTaken b" "m_config b = ParameterService_of ''DataLinkEngine''" "?fill b = Inr b'"
    "build_service api env doc dir ''DataLinkEngine'' ?fill ?u = Inr (s, u')"
    "Service_ctor api env doc (m_config b') dir ?u = (Inr (s, u'), LoadConnections doc dir)"
    by (rule build_service_ok [OF assms name filled])
  have cfg: "server_read_parameters (m_config b') =
      map (\<lambda>i. \<lparr>sr_parameter_id = i, sr_callback = Some (on_read_server api va)\<rparr>) (read_round n)"
    "subscribed_parameters (m_config b') = []"
    using fill [OF o(1)] o(2,3) by (auto simp: ParameterService_of_def)
  have "u' = ?u" using Service_ctor_phases [OF o(5)] cfg(2) by auto
  moreover have "smap_find (m_onReadActions s) i = Some (Some (on_read_server api va))" if "i \<in> set (read_round n)" for i
  proof -
    have "map_of (map (\<lambda>i. (i, Some (on_read_server api va))) is) i = Some (Some (on_read_server api va))"
      if "i \<in> set is" for "is" using that by (induction "is") auto
    then show ?thesis
      using that served_read_action [OF o(5), of i] by (simp add: cfg rev_map comp_def)
  qed
  ultimately show ?thesis using o(4) by (intro that [of s u']) (simp_all add: ParameterReadServerThread_def)
qed

lemma read_exchange_step:
  assumes "protobuf_laws api" "smap_find (m_onReadActions s) i = Some (Some (on_read_server api va))"
    "on_read_server api va 0 i (u\<lparr>server_clock := ts\<rparr>) = (Inr (Some d), u')" "pb_quality api d = QUALITY_GOOD"
  shows "read_exchange api s ((ts, tc, i) # es) u =
    map_option (\<lambda>h. (tc, SUCCESS, \<lparr>pm_identity = i, pm_unit = Unit_none, pm_data = Some d\<rparr>) # h) (read_exchange api s es u')"
  using assms
  by (simp add: ProcessReadRequest_def respond_map protobuf_laws_def Read_request_def Read_handler_def complete_reply_def
      deferred_reply_def set_data_quality_def with_info_def Parameter_default_def Let_def)

lemma time_read_ready:
  assumes "sampler_ready (rc_sampler c)" "binary_value va d = timespec_bytes ts" "timespec_fits ts" "comparable (client_clock c, ts)"
  shows "\<exists>c'. time_read va test d c = Some c' \<and> sampler_ready (rc_sampler c')"
  using latency_sample_ready [OF assms(1,4)] assms(2,3) by (auto simp: time_read_def memcpy_timespec_bytes)

lemma on_read_client_ready:
  assumes "sampler_ready (rc_sampler c)"
    "pm_identity p = DebugReadLatencyChannel \<Longrightarrow> \<exists>ts. binary_value va (pm_data_of api p) = timespec_bytes ts \<and>
       timespec_fits ts \<and> comparable (client_clock c, ts)"
  shows "\<exists>c'. on_read_client qname api va test shw status p c = Some c' \<and> sampler_ready (rc_sampler c')"
proof (cases "pm_identity p = DebugReadLatencyChannel")
  case True
  then obtain ts where "binary_value va (pm_data_of api p) = timespec_bytes ts" "timespec_fits ts" "comparable (client_clock c, ts)"
    using assms(2) by blast
  from time_read_ready [OF assms(1) this, of test] obtain c' where
    "time_read va test (pm_data_of api p) c = Some c'" "sampler_ready (rc_sampler c')" by blast
  with True show ?thesis by (simp add: on_read_client_def Let_def)
next
  case False
  then show ?thesis using assms(1) by (simp add: on_read_client_def Let_def check_read_seq)
qed

lemma on_read_server_answer:
  assumes "protobuf_laws api" "value_laws api va"
  shows "\<exists>d u'. on_read_server api va key i (u\<lparr>server_clock := ts\<rparr>) = (Inr (Some d), u') \<and> pb_quality api d = QUALITY_GOOD \<and>
    (i = DebugReadLatencyChannel \<longrightarrow> binary_value va d = timespec_bytes ts) \<and>
    (i = ''1'' \<longrightarrow> uinteger64_value va d = UniqueIntValue u + 1) \<and>
    UniqueIntValue u' = (if i = ''1'' then UniqueIntValue u + 1 else UniqueIntValue u)"
  using assms
  by (simp add: on_read_server_def Let_def value_lawsD protobuf_laws_def binary_value_def uinteger64_value_def)

text \<open>An exchange that the server can answer, at times from which it can be timed.\<close>

definition exchange_ok :: "int \<Rightarrow> timespec \<times> timespec \<times> Identity \<Rightarrow> bool" where
  "exchange_ok n e \<longleftrightarrow> (case e of (ts, tc, i) \<Rightarrow> i \<in> set (read_round n) \<and> timespec_fits ts \<and> comparable (tc, ts))"

lemma read_exchange_run:
  assumes laws: "protobuf_laws api" "value_laws api va"
    and actions: "\<And>i. i \<in> set (read_round n) \<Longrightarrow> smap_find (m_onReadActions s) i = Some (Some (on_read_server api va))"
    and ok: "list_all (exchange_ok n) es"
  shows "\<exists>h. read_exchange api s es u = Some h \<and> list_all (\<lambda>(_, status, _). status = SUCCESS) h \<and>
    values_of api va h = count_up (UniqueIntValue u) (length (filter (\<lambda>(_, _, i). i = ''1'') es)) \<and>
    (\<forall>c. sampler_ready (rc_sampler c) \<longrightarrow> (\<exists>c'. reads_run qname api va test shw h c = Some c'))"
  using ok
proof (induction es arbitrary: u)
  case Nil
  then show ?case by (simp add: values_of_def)
next
  case (Cons e es)
  obtain ts tc i where e: "e = (ts, tc, i)" by (cases e)
  have i: "i \<in> set (read_round n)" "timespec_fits ts" "comparable (tc, ts)" using Cons.prems by (simp_all add: e exchange_ok_def)
  obtain d u' where d: "on_read_server api va 0 i (u\<lparr>server_clock := ts\<rparr>) = (Inr (Some d), u')" "pb_quality api d = QUALITY_GOOD"
    "i = DebugReadLatencyChannel \<Longrightarrow> binary_value va d = timespec_bytes ts"
    "i = ''1'' \<Longrightarrow> uinteger64_value va d = UniqueIntValue u + 1"
    "UniqueIntValue u' = (if i = ''1'' then UniqueIntValue u + 1 else UniqueIntValue u)"
    using on_read_server_answer [OF laws, where key = 0 and i = i and u = u and ts = ts] by blast
  let ?p = "\<lparr>pm_identity = i, pm_unit = Unit_none, pm_data = Some d\<rparr>"
  obtain h where h: "read_exchange api s es u' = Some h" "list_all (\<lambda>(_, status, _). status = SUCCESS) h"
    "values_of api va h = count_up (UniqueIntValue u') (length (filter (\<lambda>(_, _, i). i = ''1'') es))"
    "\<And>c. sampler_ready (rc_sampler c) \<Longrightarrow> \<exists>c'. reads_run qname api va test shw h c = Some c'"
    using Cons.IH [of u'] Cons.prems by auto
  have "\<exists>c'. reads_run qname api va test shw ((tc, SUCCESS, ?p) # h) c = Some c'" if "sampler_ready (rc_sampler c)" for c
    using on_read_client_ready [of "c\<lparr>client_clock := tc\<rparr>" ?p va api qname test shw SUCCESS] that i d(3) h(4)
    by (fastforce simp: pm_data_of_def)
  then show ?case
    using read_exchange_step [OF laws(1) actions [OF i(1)] d(1,2), of tc es] h d(4,5)
    by (simp add: e values_of_def pm_data_of_def)
qed

text \<open>
C31: The read server with a client that reads in order: every request succeeds, the client's callback is
  defined on all of them, and the client counts no gap, however often it reads which of the served
  parameters.  The clocks must have one time base.
\<close>

theorem read_exchange_without_gaps:
  assumes "protobuf_laws api" "value_laws api va" "env_ok env" "list_all (exchange_ok n) es"
  shows "\<exists>s u h c. ParameterReadServerThread api va env doc dir n now = Inr (s, u) \<and> read_exchange api s es u = Some h \<and>
    list_all (\<lambda>(_, status, _). status = SUCCESS) h \<and>
    reads_run qname api va True True h (read_client_initial now') = Some c \<and> SequentialMisses c = 0"
proof -
  obtain s u where s: "ParameterReadServerThread api va env doc dir n now = Inr (s, u)" "UniqueIntValue u = 0"
    "\<And>i. i \<in> set (read_round n) \<Longrightarrow> smap_find (m_onReadActions s) i = Some (Some (on_read_server api va))"
    using ParameterReadServerThread_ok [OF assms(3), where api = api and va = va and doc = doc and dir = dir and n = n and now = now]
    by blast
  have "sampler_ready (rc_sampler (read_client_initial now'))" by (simp add: read_client_initial_def sampler_ready_initial)
  then obtain h c where h: "read_exchange api s es u = Some h" "list_all (\<lambda>(_, status, _). status = SUCCESS) h"
    "values_of api va h = count_up 0 (length (filter (\<lambda>(_, _, i). i = ''1'') es))"
    "reads_run qname api va True True h (read_client_initial now') = Some c"
    using read_exchange_run [OF assms(1,2) s(3) assms(4), of u qname True True] s(2) by auto
  have "SequentialMisses c = 0"
    using client_run_misses [OF h(4)] h(3) by (simp add: read_client_initial_def gaps_count_up)
  then show ?thesis using s(1) h by blast
qed

theorem read_exchange_without_gaps_witness:
  "\<exists>s u h c. ParameterReadServerThread value_pb_api concrete_value_api ex_env None [] 1 \<lparr>tv_sec = 5, tv_nsec = 0\<rparr> = Inr (s, u) \<and>
     read_exchange value_pb_api s
       [(\<lparr>tv_sec = 5, tv_nsec = 1\<rparr>, \<lparr>tv_sec = 5, tv_nsec = 9\<rparr>, ''1''),
        (\<lparr>tv_sec = 5, tv_nsec = 1\<rparr>, \<lparr>tv_sec = 5, tv_nsec = 9\<rparr>, ''Debug.Read.Latency'')] u = Some h \<and>
     reads_run (\<lambda>_. ''GOOD'') value_pb_api concrete_value_api True True h (read_client_initial \<lparr>tv_sec = 5, tv_nsec = 0\<rparr>) = Some c \<and>
     SequentialMisses c = 0"
proof -
  have "string_id 1 = ''1''" unfolding string_id_def by code_simp
  then have "set (read_round 1) = {''1'', ''Debug.Read.Latency''}"
    by (simp add: read_round_def loop_ids_def DebugReadLatencyChannel_def upt_rec)
  then have "list_all (exchange_ok 1)
       [(\<lparr>tv_sec = 5, tv_nsec = 1\<rparr>, \<lparr>tv_sec = 5, tv_nsec = 9\<rparr>, ''1''),
        (\<lparr>tv_sec = 5, tv_nsec = 1\<rparr>, \<lparr>tv_sec = 5, tv_nsec = 9\<rparr>, ''Debug.Read.Latency'')]"
    by (simp add: exchange_ok_def timespec_fits_def comparable_def other_base_def)
  from read_exchange_without_gaps [OF value_pb_api_laws concrete_value_laws ex_env_ok this]
  show ?thesis by blast
qed

text \<open>
  A read of the latency channel that fails completes with a parameter without a value.  The client does
  not look at the status and copies sixteen bytes from the empty value, which is undefined.
\<close>

theorem failed_latency_read_undefined:
  assumes "value_laws api va" "status_code (rp_status reply) \<noteq> STATUS_CODE_SUCCESS"
    "Read_handler api \<lparr>rd_identity = DebugReadLatencyChannel, rd_unit = u\<rparr> reply = (status, p)"
  shows "status = FAILURE \<and> on_read_client qname api va test shw status p c = None"
  using assms
  by (auto simp: Read_handler_def complete_reply_def on_read_client_def time_read_def memcpy_timespec_def binary_value_def
      with_info_def set_data_quality_def pm_data_of_def Parameter_default_def value_lawsD Let_def)

section \<open>The sequence check of the subscriber\<close>

fun subscriber_run ::
  "(quality \<Rightarrow> string) \<Rightarrow> 'd protobuf_api \<Rightarrow> 'd value_api \<Rightarrow> string \<Rightarrow> bool \<Rightarrow> (timespec \<times> Identity \<times> 'd) list \<Rightarrow> subscriber \<Rightarrow> subscriber option" where
  "subscriber_run qname api va tid shw [] c = Some c"
| "subscriber_run qname api va tid shw ((t, i, d) # es) c =
     (case on_subscription qname api va tid True shw i d (c\<lparr>sb_clock := t\<rparr>) of
        None \<Rightarrow> None
      | Some c' \<Rightarrow> subscriber_run qname api va tid shw es c')"

text \<open>The gaps that are counted: not those after the value 1, which stands for no value yet.\<close>

fun sentinel_gaps :: "u64 list \<Rightarrow> nat" where
  "sentinel_gaps (x # y # r) = (if x = 1 \<or> x + 1 = y then 0 else 1) + sentinel_gaps (y # r)"
| "sentinel_gaps _ = 0"

lemma on_subscription_seq:
  assumes "on_subscription qname api va tid True shw i d c = Some c'"
  shows "sb_LastDisplayValue c' = uinteger64_value va d \<and>
    sb_SequentialMisses c' = sb_SequentialMisses c + of_nat (sentinel_gaps [sb_LastDisplayValue c, uinteger64_value va d])"
proof -
  have "time_subscription va tid True d c = Some c1 \<Longrightarrow>
      sb_LastDisplayValue c1 = sb_LastDisplayValue c \<and> sb_SequentialMisses c1 = sb_SequentialMisses c" for c1
    by (auto simp: time_subscription_def split: option.splits)
  then show ?thesis
    using assms by (auto simp: on_subscription_def check_subscription_def Let_def signed_word_eqI split: option.splits if_splits)
qed

lemma subscriber_run_misses:
  "subscriber_run qname api va tid shw es c = Some c' \<Longrightarrow>
   sb_SequentialMisses c' = sb_SequentialMisses c +
     of_nat (sentinel_gaps (sb_LastDisplayValue c # map (\<lambda>(_, _, d). uinteger64_value va d) es))"
proof (induction es arbitrary: c)
  case (Cons e es)
  obtain t i d where e: "e = (t, i, d)" by (cases e)
  obtain c1 where c1: "on_subscription qname api va tid True shw i d (c\<lparr>sb_clock := t\<rparr>) = Some c1"
    "subscriber_run qname api va tid shw es c1 = Some c'"
    using Cons.prems by (auto simp: e split: option.splits)
  show ?case using Cons.IH [OF c1(2)] on_subscription_seq [OF c1(1)] by (auto simp: e)
qed simp

text \<open>
  What the subscriber counts: over the values of all identities in the order of their arrival, the
  latency channel with its value 0 included, the places where a value is not the successor of the one
  before, unless that is 1.
\<close>

theorem subscriber_counts:
  assumes "subscriber_run qname api va tid shw es (subscriber_initial now) = Some c"
  shows "sb_SequentialMisses c = of_nat (sentinel_gaps (map (\<lambda>(_, _, d). uinteger64_value va d) es))"
proof -
  have "sentinel_gaps (1 # vs) = sentinel_gaps vs" for vs by (cases vs) simp_all
  then show ?thesis using subscriber_run_misses [OF assms] by (simp add: subscriber_initial_def)
qed

theorem subscriber_counts_witness:
  "\<exists>c. subscriber_run (\<lambda>_. ''GOOD'') value_pb_api concrete_value_api ''t'' True
       [(\<lparr>tv_sec = 1, tv_nsec = 0\<rparr>, ''1'', (QUALITY_GOOD, Some (Uinteger64Value 7))),
        (\<lparr>tv_sec = 2, tv_nsec = 0\<rparr>, ''1'', (QUALITY_GOOD, Some (Uinteger64Value 9)))]
       (subscriber_initial \<lparr>tv_sec = 0, tv_nsec = 0\<rparr>) = Some c \<and> sb_SequentialMisses c = 1"
proof -
  let ?es = "[(\<lparr>tv_sec = 1, tv_nsec = 0\<rparr>, ''1'', (QUALITY_GOOD, Some (Uinteger64Value 7))),
        (\<lparr>tv_sec = 2, tv_nsec = 0\<rparr>, ''1'', (QUALITY_GOOD, Some (Uinteger64Value 9)))]"
  obtain c where c: "subscriber_run (\<lambda>_. ''GOOD'') value_pb_api concrete_value_api ''t'' True ?es
      (subscriber_initial \<lparr>tv_sec = 0, tv_nsec = 0\<rparr>) = Some c"
    by (simp add: on_subscription_def DebugLatencyChannel_def Let_def)
  from subscriber_counts [OF c] show ?thesis using c by (simp add: uinteger64_value_def concrete_value_api_def)
qed

text \<open>
  A run in which nothing is lost: the publisher with one parameter sends its value and the time stamp in
  turn.  The subscriber takes every step for a gap.
\<close>

theorem lossless_run_mismatches:
  assumes "subscriber_run qname api va tid shw es (subscriber_initial now) = Some c"
    "map (\<lambda>(_, _, d). uinteger64_value va d) es = concat (map (\<lambda>v. [v, 0]) vs)" "list_all (\<lambda>v. v \<notin> {0, 1, - 1}) vs"
  shows "sb_SequentialMisses c = of_nat (2 * length vs - 1)"
proof -
  have "vs \<noteq> [] \<Longrightarrow> Suc (sentinel_gaps (concat (map (\<lambda>v. [v, 0]) vs))) = 2 * length vs" using assms(3)
  proof (induction vs)
    case (Cons v vs)
    have "v + 1 \<noteq> 0" using Cons.prems by (simp add: eq_neg_iff_add_eq_0)
    then show ?case using Cons by (cases vs) auto
  qed simp
  then have "sentinel_gaps (concat (map (\<lambda>v. [v, 0]) vs)) = 2 * length vs - 1" by (cases vs) auto
  then show ?thesis using subscriber_run_misses [OF assms(1)] assms(2) by (cases vs) (simp_all add: subscriber_initial_def)
qed

section \<open>The publisher\<close>

lemma string_id_not_channel: "string_id i \<noteq> DebugLatencyChannel"
proof
  assume "string_id i = DebugLatencyChannel"
  then have "CHR ''D'' \<in> set (take 10 (show_nat i))" by (simp add: string_id_def DebugLatencyChannel_def)
  then have "isdigit CHR ''D''" using show_nat_digits [of i] by (auto simp: list_all_iff dest: in_set_takeD)
  then show False by (simp add: isdigit_def)
qed

lemma channel_not_looped: "DebugLatencyChannel \<notin> set (loop_ids n)"
proof
  assume "DebugLatencyChannel \<in> set (loop_ids n)"
  then obtain i where "DebugLatencyChannel = string_id i" by (auto simp: loop_ids_def)
  then show False using string_id_not_channel [of i] by simp
qed

definition round_data :: "'d protobuf_api \<Rightarrow> 'd value_api \<Rightarrow> u64 \<Rightarrow> 'd" where
  "round_data api va v = va_set va (Uinteger64Value v) (pb_set_quality api QUALITY_GOOD (pb_default api))"

definition publishers_known :: "int \<Rightarrow> ('d, 'u) Service \<Rightarrow> bool" where
  "publishers_known n s \<longleftrightarrow> set (loop_ids n @ [DebugLatencyChannel]) \<subseteq> publisher_ids s"

lemma publish_round_ok:
  assumes "publishers_known n s"
  shows "\<exists>s'. publish_round api va env n now (s, v) = Inr (s', v + 1) \<and> publishers_known n s' \<and>
    (\<forall>i \<in> set (loop_ids n). published_value s' i = Some (round_data api va (v + 1))) \<and>
    published_value s' DebugLatencyChannel = Some (va_set va (BinaryValue (timespec_bytes now)) (pb_default api))"
proof -
  let ?latency = "va_set va (BinaryValue (timespec_bytes now)) (pb_default api)"
  obtain s1 where s1: "publish_each (publish_on api env) (loop_ids n) (round_data api va (v + 1)) s = Inr s1"
    "published_value s1 = (\<lambda>i. if i \<in> set (loop_ids n) then Some (round_data api va (v + 1)) else published_value s i)"
    "publisher_ids s1 = publisher_ids s"
    using ps.each_known [of "loop_ids n" s api env "round_data api va (v + 1)"] assms by (auto simp: publishers_known_def)
  obtain s2 where s2: "publish_on api env DebugLatencyChannel ?latency s1 = Inr s2"
    "published_value s2 = (published_value s1)(DebugLatencyChannel \<mapsto> ?latency)" "publisher_ids s2 = publisher_ids s1"
    using ps.publish_known [of DebugLatencyChannel s1 api env ?latency] assms s1(3) by (auto simp: publishers_known_def)
  have "publish_round api va env n now (s, v) = Inr (s2, v + 1)"
    using s1(1) s2(1) by (simp add: publish_round_def round_data_def Let_def)
  moreover have "publishers_known n s2" using assms s1(3) s2(3) by (simp add: publishers_known_def)
  ultimately show ?thesis using s1(2) s2(2) channel_not_looped [of n] by auto
qed

lemma publish_rounds_ok:
  "publishers_known n s \<Longrightarrow>
   \<exists>s'. publish_rounds api va env n clocks (s, v) = Inr (s', v + of_nat (length clocks)) \<and>
     (clocks \<noteq> [] \<longrightarrow>
        (\<forall>i \<in> set (loop_ids n). published_value s' i = Some (round_data api va (v + of_nat (length clocks)))) \<and>
        published_value s' DebugLatencyChannel = Some (va_set va (BinaryValue (timespec_bytes (last clocks))) (pb_default api)))"
proof (induction clocks arbitrary: s v)
  case (Cons now clocks)
  obtain s1 where s1: "publish_round api va env n now (s, v) = Inr (s1, v + 1)" "publishers_known n s1"
    "\<forall>i \<in> set (loop_ids n). published_value s1 i = Some (round_data api va (v + 1))"
    "published_value s1 DebugLatencyChannel = Some (va_set va (BinaryValue (timespec_bytes now)) (pb_default api))"
    using publish_round_ok [OF Cons.prems] by blast
  have eq: "v + of_nat (length (now # clocks)) = (v + 1) + of_nat (length clocks)" by simp
  show ?case
  proof (cases "clocks = []")
    case True
    then show ?thesis using s1 by simp
  next
    case False
    then show ?thesis unfolding eq using Cons.IH [OF s1(2), of "v + 1"] s1(1) by simp
  qed
qed simp

lemma ParameterPublish_service_ok:
  assumes "env_ok env"
  obtains s where "ParameterPublish_service api va env doc dir n now = Inr (s, ())" "publishers_known n s"
proof -
  let ?latency = "va_set va (BinaryValue (timespec_bytes now)) (pb_default api)"
  let ?fill = "\<lambda>b. case add_all (\<lambda>ident. AddPublish ident Unit_none (pb_default api)) (loop_ids n) b of
      Inl e \<Rightarrow> Inl e | Inr b \<Rightarrow> AddPublish DebugLatencyChannel Unit_none ?latency b"
  let ?entries = "map (\<lambda>i. \<lparr>pub_parameter_id = i, pub_unit = Unit_none, pub_initial_value = pb_default api\<rparr>) (loop_ids n) @
      [\<lparr>pub_parameter_id = DebugLatencyChannel, pub_unit = Unit_none, pub_initial_value = ?latency\<rparr>]"
  have fill: "?fill b = Inr (b\<lparr>m_config := (m_config b)\<lparr>published_parameters := published_parameters (m_config b) @ ?entries\<rparr>\<rparr>)"
    if "\<not> m_hasBeenTaken b" for b :: "('a, unit) ConfigBuilder"
  proof -
    have "add_all (\<lambda>ident. AddPublish ident Unit_none (pb_default api)) (loop_ids n) b = Inr (b\<lparr>m_config := (m_config b)
        \<lparr>published_parameters := published_parameters (m_config b) @
          map (\<lambda>i. \<lparr>pub_parameter_id = i, pub_unit = Unit_none, pub_initial_value = pb_default api\<rparr>) (loop_ids n)\<rparr>\<rparr>)"
      by (simp only: AddPublish_def add_all_unless_taken [OF that] fold_config)
    then show ?thesis using that by (simp add: AddPublish_def unless_taken_def)
  qed
  have filled: "\<exists>b'. ?fill b = Inr b' \<and> \<not> m_hasBeenTaken b'" if "\<not> m_hasBeenTaken b" for b :: "('a, unit) ConfigBuilder"
    using fill [OF that] that by simp
  have name: "''DataLinkEngine'' \<noteq> []" by simp
  obtain b b' s u' where o: "\<not> m_hasBeenTaken b" "m_config b = ParameterService_of ''DataLinkEngine''" "?fill b = Inr b'"
    "build_service api env doc dir ''DataLinkEngine'' ?fill () = Inr (s, u')"
    "Service_ctor api env doc (m_config b') dir () = (Inr (s, u'), LoadConnections doc dir)"
    by (rule build_service_ok [OF assms name filled])
  have "published_parameters (m_config b') = ?entries"
    using fill [OF o(1)] o(2,3) by (auto simp: ParameterService_of_def)
  then have "publishers_known n s"
    using configured_publishers [OF o(5)] by (auto simp: publishers_known_def publisher_ids_def image_iff)
  then show ?thesis using o(4) by (intro that [of s]) (simp_all add: ParameterPublish_service_def unit_eq)
qed

text \<open>
  The publisher, when the creation calls of Fast DDS succeed: with a rate it never throws, and after
  \<open>k\<close> passes of its loop every parameter has published the value \<open>k + 1\<close> last, with good quality, and the
  latency channel the time of the last pass.  Without a rate it does nothing.
\<close>

theorem publish_loader_values:
  assumes "env_ok env" "clocks \<noteq> []"
  shows "if rate < 1 then ParameterPublishDataLoader api va env doc dir rate n once now clocks = Inr None
    else \<exists>s. let done = (if once then [hd clocks] else clocks); k = of_nat (length done) + 1 in
      ParameterPublishDataLoader api va env doc dir rate n once now clocks = Inr (Some (s, k)) \<and>
      (\<forall>i \<in> set (loop_ids n). published_value s i = Some (round_data api va k)) \<and>
      published_value s DebugLatencyChannel = Some (va_set va (BinaryValue (timespec_bytes (last done))) (pb_default api))"
proof (cases "rate < 1")
  case True
  then show ?thesis by (simp add: ParameterPublishDataLoader_def)
next
  case False
  obtain s0 where s0: "ParameterPublish_service api va env doc dir n now = Inr (s0, ())" "publishers_known n s0"
    using ParameterPublish_service_ok [OF assms(1), where api = api and va = va and doc = doc and dir = dir and n = n and now = now]
    by blast
  let ?done = "if once then [hd clocks] else clocks"
  have "(if once then take 1 clocks else clocks) = ?done" "?done \<noteq> []" using assms(2) by (cases clocks; simp)+
  then show ?thesis
    using publish_rounds_ok [OF s0(2), of api va env ?done 1] s0(1) False
    by (auto simp: ParameterPublishDataLoader_def Let_def add.commute)
qed

theorem publish_loader_values_witness:
  "\<exists>s. ParameterPublishDataLoader value_pb_api concrete_value_api ex_env None [] 100 2 True \<lparr>tv_sec = 0, tv_nsec = 0\<rparr>
       [\<lparr>tv_sec = 1, tv_nsec = 0\<rparr>] = Inr (Some (s, 2)) \<and>
     (\<forall>i \<in> set (loop_ids 2). published_value s i = Some (round_data value_pb_api concrete_value_api 2))"
  using publish_loader_values [OF ex_env_ok, of "[\<lparr>tv_sec = 1, tv_nsec = 0\<rparr>]" 100 value_pb_api concrete_value_api None "[]" 2 True
    "\<lparr>tv_sec = 0, tv_nsec = 0\<rparr>"]
  by (auto simp: Let_def)

section \<open>Arguments\<close>

lemma starts_with_dashes:
  assumes "\<not> strncmp_literal ''--'' arg"
  shows "\<not> strncmp_literal (CHR ''-'' # CHR ''-'' # x) arg"
proof
  assume "strncmp_literal (CHR ''-'' # CHR ''-'' # x) arg"
  then have "take 2 (take (Suc (Suc (length x))) arg) = ''--''" by (simp add: strncmp_literal_def)
  then show False using assms by (simp add: strncmp_literal_def numeral_2_eq_2 min_def)
qed

lemma program_name_skipped:
  "\<not> strncmp_literal ''--'' prog \<Longrightarrow> read_client_loop (prog # argv) a = read_client_loop argv a"
  by (simp add: starts_with_dashes)

text \<open>
  A number given to the read client is taken over as long as it has at most nine digits; with more the
  program reads behind the end of what it copied.  The same loop stands in the four programs.
\<close>

theorem number_arguments:
  assumes "\<not> strncmp_literal ''--'' prog"
  shows "(if n < 10 ^ 9
     then \<exists>a. read_client_args [prog, ''--testreadsequential'', ''--readparms='' @ show_nat n] = Settings a \<and>
       ca_read_parms a = int n \<and> ca_test_read_sequential a \<and> \<not> ca_show_read_values a \<and> ca_readrate_ms a = 1000
     else read_client_args [prog, ''--testreadsequential'', ''--readparms='' @ show_nat n] = UndefinedRead)"
  unfolding read_client_args_def Let_def program_name_skipped [OF assms]
  by (simp add: strncmp_literal_def long_option_def MAX_RATE_CHARS_def buffer_long_show_nat_eq)

text \<open>The longest address that the programs name does not fit either.\<close>

theorem longest_address_undefined:
  assumes "\<not> strncmp_literal ''--'' prog"
  shows "read_client_args [prog, ''--ip=192.168.100.123:50051''] = UndefinedRead"
  unfolding read_client_args_def Let_def program_name_skipped [OF assms]
  by (simp add: strncmp_literal_def address_option_def buffer_string_def MAX_SERVER_ADDRESS_def)

end
