(* ===== verification/Simulator_Programs.thy ===== *)
theory Simulator_Programs
  imports Param_Simulators Parameters_Tester
begin

text \<open>
  The programs of the parameter simulators as a whole (\<open>apps/ParameterReadClient\<close>, \<open>ParameterReadServer\<close>,
  \<open>ParameterSubscribe\<close> and \<open>ParameterPublish\<close>): \<open>main\<close>, the handler of the termination signals, the flag the
  threads poll, and the threads.  Shown: when the flag falls and how often that is reported, also when handlers
  interrupt each other; the read client asks for all its parameters in each pass until then and for each of
  them once with \<open>--readonce\<close>; a server or subscriber ends exactly when the flag has fallen; a publisher
  ends only with \<open>--publishonce\<close> or without a rate.

  The handler is cut into its test of the flag, its store and its report, and the steps of any number of
  handlers may be interleaved.  What handlers do is given for each test of the flag, as the steps since the
  test before; for the read client, which stores into the flag itself, those before the test and those in the
  pass behind it are given apart.  When the entries are used up the program is still running.  The text of the
  argument loops and of the callbacks is left out here (the callbacks are those of \<open>Param_Simulators\<close>), as are
  the sleeps and what handlers do after the last test.
\<close>

section \<open>The flag and its handler\<close>

text \<open>
  \<open>hd_tested\<close> handlers have found the flag set and not stored yet; \<open>hd_cleared\<close> have stored and not reported yet.
\<close>

record program =
  keepRunning :: bool
  cout :: "string list"
  hd_tested :: nat
  hd_cleared :: nat

definition program_start :: program where
  "program_start = \<lparr>keepRunning = True, cout = [], hd_tested = 0, hd_cleared = 0\<rparr>"

definition say :: "string list \<Rightarrow> program \<Rightarrow> program" where
  "say lines p = p\<lparr>cout := cout p @ lines\<rparr>"

text \<open>The handler, undisturbed and step by step.\<close>

definition ExitProgram :: "program \<Rightarrow> program" where
  "ExitProgram p = (if keepRunning p then say [''Shutdown request''] (p\<lparr>keepRunning := False\<rparr>) else p)"

datatype handler_event = Handler_tests | Handler_clears | Handler_reports

fun ExitProgram_step :: "handler_event \<Rightarrow> program \<Rightarrow> program" where
  "ExitProgram_step Handler_tests p = (if keepRunning p then p\<lparr>hd_tested := Suc (hd_tested p)\<rparr> else p)"
| "ExitProgram_step Handler_clears p =
     (if hd_tested p = 0 then p
      else p\<lparr>keepRunning := False, hd_tested := hd_tested p - 1, hd_cleared := Suc (hd_cleared p)\<rparr>)"
| "ExitProgram_step Handler_reports p =
     (if hd_cleared p = 0 then p else say [''Shutdown request''] (p\<lparr>hd_cleared := hd_cleared p - 1\<rparr>))"

definition deliver :: "handler_event list \<Rightarrow> program \<Rightarrow> program" where
  "deliver events = fold ExitProgram_step events"

text \<open>
  The three calls of \<open>sigaction\<close>, each with the \<open>errno\<close> of its failure.  The result is whether the program goes
  on: a failure for \<open>SIGPIPE\<close> is only reported.
\<close>

definition register_signals :: "int option \<times> int option \<times> int option \<Rightarrow> program \<Rightarrow> bool \<times> program" where
  "register_signals errnos p =
     (case errnos of (sigint, sigterm, sigpipe) \<Rightarrow>
        (case sigint of
           Some errno \<Rightarrow> (False, say [''Error registering for SIGINT action, errno = '' @ show_int errno] p)
         | None \<Rightarrow>
             (case sigterm of
                Some errno \<Rightarrow> (False, say [''Error registering for SIGTERM action, errno = '' @ show_int errno] p)
              | None \<Rightarrow>
                  (True, case sigpipe of
                           Some errno \<Rightarrow> say [''Error registering for SIGPIPE action, errno = '' @ show_int errno] p
                         | None \<Rightarrow> p))))"

text \<open>\<open>while(*keepRunning == 1) usleep(...)\<close>: whether the loop has ended.\<close>

fun wait_for_exit :: "handler_event list list \<Rightarrow> program \<Rightarrow> bool \<times> program" where
  "wait_for_exit [] p = (False, p)"
| "wait_for_exit (before # rest) p =
     (let p = deliver before p in if keepRunning p then wait_for_exit rest p else (True, p))"

section \<open>Threads\<close>

text \<open>
  A thread ends, runs on, or lets an error out: the process is terminated then, and also by what
  \<open>catch(...)\<close> cannot catch.
\<close>

datatype thread_end = Thread_ended | Thread_runs | Terminated cpp_error

definition caught :: "string \<Rightarrow> cpp_error \<Rightarrow> program \<Rightarrow> thread_end \<times> program" where
  "caught thread e p =
     (if exception_what e = None then (Terminated e, p)
      else (Thread_ended, say [''Event Reader Exception Caught Thread ['' @ thread @ ''] ''] p))"

fun issue_reads ::
  "('d, 'u) Service \<Rightarrow> string list \<Rightarrow> (ReadParameter \<times> string) list \<Rightarrow> unit cpp \<times> (ReadParameter \<times> string) list" where
  "issue_reads s [] reads = (Inr (), reads)"
| "issue_reads s (ident # rest) reads =
     (case RetrieveReadInstance ident s of
        Inl e \<Rightarrow> (Inl e, reads)
      | Inr h \<Rightarrow> issue_reads s rest (reads @ [h]))"

text \<open>An entry: what handlers do before the test, and in the pass behind it.\<close>

type_synonym pass_signals = "handler_event list \<times> handler_event list"

fun read_passes ::
  "('d, 'u) Service \<Rightarrow> bool \<Rightarrow> int \<Rightarrow> pass_signals list \<Rightarrow> program \<Rightarrow> (ReadParameter \<times> string) list
     \<Rightarrow> bool cpp \<times> program \<times> (ReadParameter \<times> string) list" where
  "read_passes s ReadOnce ReadParameters [] p reads = (Inr False, p, reads)"
| "read_passes s ReadOnce ReadParameters ((before, during) # rest) p reads =
     (let p = deliver before p in
      if \<not> keepRunning p then (Inr True, p, reads)
      else
        (let p = deliver during p in
         case issue_reads s (read_round ReadParameters) reads of
           (Inl e, reads) \<Rightarrow> (Inl e, p, reads)
         | (Inr _, reads) \<Rightarrow>
             read_passes s ReadOnce ReadParameters rest (if ReadOnce then p\<lparr>keepRunning := False\<rparr> else p) reads))"

definition dashes :: string where
  "dashes = replicate 64 CHR ''-''"

definition ParameterReadClientThread ::
  "'d protobuf_api \<Rightarrow> service_env \<Rightarrow> xml_domains \<Rightarrow> SourceTableConnections \<Rightarrow> string \<Rightarrow> read_client_settings \<Rightarrow> pass_signals list
     \<Rightarrow> program \<Rightarrow> thread_end \<times> program \<times> (ReadParameter \<times> string) list" where
  "ParameterReadClientThread api env doc dir thread a tests p =
     (let n = ca_read_parms a;
          own = ''ParameterReadClientThread ['' @ thread @ '']'';
          p = say ([''Begin ParameterReadClientThread Thread ['' @ thread @ ''] ''] @
                   map (\<lambda>i. own @ '' Creating Read Client Parm '' @ i) (loop_ids n) @
                   [dashes, own @ '' Total Parms '' @ show_int n, dashes, own @ '' Creating Timing Channel '' @ DebugReadLatencyChannel]) p;
          ((result, p), reads) =
            (case ParameterReadClient_service api env doc dir n of
               Inl e \<Rightarrow> (caught thread e p, [])
             | Inr (s, _) \<Rightarrow>
                 (let p = say [''Starting Read for '' @ show_int n @ '' Parms @'' @ show_int (ca_readrate_ms a) @ ''ms''] p in
                  case read_passes s (ca_readonce a) n tests p [] of
                    (Inl e, p, reads) \<Rightarrow> (caught thread e p, reads)
                  | (Inr over, p, reads) \<Rightarrow> ((if over then Thread_ended else Thread_runs, p), reads)))
      in (result, if result = Thread_ended then say [''End ParameterReadClientThread Thread ['' @ thread @ '']''] p else p, reads))"

text \<open>The thread of the read server has no handler: an exception of its set-up ends the process.\<close>

definition read_server_thread ::
  "'d protobuf_api \<Rightarrow> 'd value_api \<Rightarrow> service_env \<Rightarrow> xml_domains \<Rightarrow> SourceTableConnections \<Rightarrow> string \<Rightarrow> timespec \<Rightarrow> int \<Rightarrow> handler_event list list
     \<Rightarrow> program \<Rightarrow> thread_end \<times> program" where
  "read_server_thread api va env doc dir thread now n tests p =
     (let p = say ([''Begin ParameterReadServerImpl ['' @ thread @ '']''] @
                   map (\<lambda>i. ''ParameterReadServerImpl ['' @ thread @ ''] Server Read '' @ i) (loop_ids n)) p in
      case ParameterReadServerThread api va env doc dir n now of
        Inl e \<Rightarrow> (Terminated e, p)
      | Inr _ \<Rightarrow>
          (case wait_for_exit tests (say [''ParameterReadServerImpl Setup for '' @ show_int n @ '' parms''] p) of
             (over, p) \<Rightarrow>
               if over then (Thread_ended, say [''End Parameter Read Server Thread ['' @ thread @ '']''] p) else (Thread_runs, p)))"

definition ParameterSubscriberThread ::
  "(quality \<Rightarrow> string) \<Rightarrow> 'd protobuf_api \<Rightarrow> 'd value_api \<Rightarrow> service_env \<Rightarrow> xml_domains \<Rightarrow> SourceTableConnections \<Rightarrow> string \<Rightarrow> timespec
     \<Rightarrow> subscribe_settings \<Rightarrow> handler_event list list \<Rightarrow> program \<Rightarrow> thread_end \<times> program" where
  "ParameterSubscriberThread qname api va env doc dir thread now a tests p =
     (let n = sa_stream_filter_range a;
          own = ''ParameterSubscriberThread ['' @ thread @ '']'';
          p = say ([''Begin ParameterSubscriberThread Thread ['' @ thread @ ''] ''] @
                   map (\<lambda>i. own @ '' Subscribe to Parm '' @ i) (loop_ids n) @
                   [dashes, own @ '' Total Parms '' @ show_int n, dashes]) p;
          (result, p) =
            (case ParameterSubscriber_service qname api va env doc dir thread (sa_test_read_sequential a) (sa_show_read_values a) n now of
               Inl e \<Rightarrow> caught thread e p
             | Inr _ \<Rightarrow> (case wait_for_exit tests p of (over, p) \<Rightarrow> (if over then Thread_ended else Thread_runs, p)))
      in (result, if result = Thread_ended then say [''End ParameterSubscriberThread Thread ['' @ thread @ '']''] p else p))"

section \<open>Mains\<close>

datatype sim_result = Exit int | Still_running | Aborted cpp_error | Undefined_behaviour

fun joined :: "thread_end \<Rightarrow> sim_result" where
  "joined Thread_ended = Exit 0"
| "joined Thread_runs = Still_running"
| "joined (Terminated e) = Aborted e"

definition banner :: "string \<Rightarrow> string list" where
  "banner server_address = [''IP '' @ server_address, ''Debug Timing TRUE'']"

definition ParameterReadClient_main ::
  "'d protobuf_api \<Rightarrow> service_env \<Rightarrow> xml_domains \<Rightarrow> SourceTableConnections \<Rightarrow> string \<Rightarrow> int option \<times> int option \<times> int option
     \<Rightarrow> string list \<Rightarrow> pass_signals list \<Rightarrow> sim_result \<times> program \<times> (ReadParameter \<times> string) list" where
  "ParameterReadClient_main api env doc dir thread errnos argv tests =
     (case register_signals errnos program_start of
        (False, p) \<Rightarrow> (Exit 1, p, [])
      | (True, p) \<Rightarrow>
          (case read_client_args argv of
             UndefinedRead \<Rightarrow> (Undefined_behaviour, p, [])
           | UsageShown \<Rightarrow> (Exit 0, p, [])
           | Settings a \<Rightarrow>
               (case ParameterReadClientThread api env doc dir thread a tests (say (banner (ca_server_address a)) p) of
                  (r, p, reads) \<Rightarrow> (joined r, p, reads))))"

definition ParameterReadServer_main ::
  "'d protobuf_api \<Rightarrow> 'd value_api \<Rightarrow> service_env \<Rightarrow> xml_domains \<Rightarrow> SourceTableConnections \<Rightarrow> string \<Rightarrow> timespec
     \<Rightarrow> int option \<times> int option \<times> int option \<Rightarrow> string list \<Rightarrow> handler_event list list \<Rightarrow> sim_result \<times> program" where
  "ParameterReadServer_main api va env doc dir thread now errnos argv tests =
     (case register_signals errnos program_start of
        (False, p) \<Rightarrow> (Exit 1, p)
      | (True, p) \<Rightarrow>
          (case read_server_args argv of
             UndefinedRead \<Rightarrow> (Undefined_behaviour, p)
           | UsageShown \<Rightarrow> (Exit 0, p)
           | Settings a \<Rightarrow>
               (let p = say (banner (ra_server_address a)) p in
                if ra_server_read_parms a = 0 then
                  (Exit (- 1), say [''Why don't you just tell me how many parameters you want to see? --serverreadparms''] p)
                else
                  (case read_server_thread api va env doc dir thread now (ra_server_read_parms a) tests p of
                     (r, p) \<Rightarrow> (joined r, p)))))"

definition ParameterSubscribe_main ::
  "(quality \<Rightarrow> string) \<Rightarrow> 'd protobuf_api \<Rightarrow> 'd value_api \<Rightarrow> service_env \<Rightarrow> xml_domains \<Rightarrow> SourceTableConnections \<Rightarrow> string \<Rightarrow> timespec
     \<Rightarrow> int option \<times> int option \<times> int option \<Rightarrow> string list \<Rightarrow> handler_event list list \<Rightarrow> sim_result \<times> program" where
  "ParameterSubscribe_main qname api va env doc dir thread now errnos argv tests =
     (case register_signals errnos program_start of
        (False, p) \<Rightarrow> (Exit 1, p)
      | (True, p) \<Rightarrow>
          (case subscribe_args argv of
             UndefinedRead \<Rightarrow> (Undefined_behaviour, p)
           | UsageShown \<Rightarrow> (Exit 0, p)
           | Settings a \<Rightarrow>
               (let p = say (banner (sa_server_address a) @
                    [if sa_stream_filter_range a > 0 then ''StreamFilterRange 1-'' @ show_int (sa_stream_filter_range a)
                     else ''StreamFilterRange Not Specified'',
                     if sa_show_read_values a then ''ShowReadValues TRUE'' else ''ShowReadValues FALSE'']) p in
                (case ParameterSubscriberThread qname api va env doc dir thread now a tests p of
                   (r, p) \<Rightarrow> (joined r, p)))))"

text \<open>
  The publisher handles no signals.  Its loop runs on unless \<open>--publishonce\<close> was given, so that after any
  number of passes the program is still running.
\<close>

definition ParameterPublish_main ::
  "'d protobuf_api \<Rightarrow> 'd value_api \<Rightarrow> service_env \<Rightarrow> xml_domains \<Rightarrow> SourceTableConnections \<Rightarrow> timespec \<Rightarrow> string list \<Rightarrow> timespec list
     \<Rightarrow> sim_result \<times> (('d, unit) Service \<times> u64) option" where
  "ParameterPublish_main api va env doc dir now argv clocks =
     (case publish_args argv of
        UndefinedRead \<Rightarrow> (Undefined_behaviour, None)
      | UsageShown \<Rightarrow> (Exit 0, None)
      | Settings a \<Rightarrow>
          (case ParameterPublishDataLoader api va env doc dir (pa_publish_rate_ms a) (pa_publish_parms a) (pa_publish_once a) now clocks of
             Inl e \<Rightarrow> (Aborted e, None)
           | Inr None \<Rightarrow> (Exit 0, None)
           | Inr (Some su) \<Rightarrow> (if pa_publish_once a \<and> clocks \<noteq> [] then Exit 0 else Still_running, Some su)))"

section \<open>Signals\<close>

text \<open>A handler that nothing interrupts does its three steps in a row.\<close>

fun undisturbed :: "handler_event list \<Rightarrow> bool" where
  "undisturbed [] = True"
| "undisturbed (Handler_tests # Handler_clears # Handler_reports # events) = undisturbed events"
| "undisturbed _ = False"

definition no_handler :: "program \<Rightarrow> bool" where
  "no_handler p \<longleftrightarrow> hd_tested p = 0 \<and> hd_cleared p = 0"

lemma ExitProgram_keeps [simp]:
  "no_handler (ExitProgram p) = no_handler p" "\<not> keepRunning (ExitProgram p)" "ExitProgram (ExitProgram p) = ExitProgram p"
  by (simp_all add: ExitProgram_def say_def no_handler_def)

lemma ExitProgram_steps:
  "no_handler p \<Longrightarrow> deliver [Handler_tests, Handler_clears, Handler_reports] p = ExitProgram p"
  by (cases p) (simp add: deliver_def ExitProgram_def say_def no_handler_def)

lemma deliver_simps [simp]: "deliver [] p = p" "deliver (e # events) p = deliver events (ExitProgram_step e p)"
  "deliver (xs @ ys) p = deliver ys (deliver xs p)"
  by (simp_all add: deliver_def)

lemma deliver_undisturbed:
  "undisturbed events \<Longrightarrow> no_handler p \<Longrightarrow> deliver events p = (if events = [] then p else ExitProgram p)"
proof (induction events arbitrary: p rule: undisturbed.induct)
  case (2 events)
  have "deliver (Handler_tests # Handler_clears # Handler_reports # events) p = deliver events (ExitProgram p)"
    using ExitProgram_steps [OF 2(3)] by simp
  then show ?case using 2 by simp
qed simp_all

text \<open>The flag has fallen when a handler that found it set has stored into it.\<close>

definition fallen :: "handler_event list \<Rightarrow> bool" where
  "fallen events \<longleftrightarrow> Handler_clears \<in> set (dropWhile ((\<noteq>) Handler_tests) events)"

lemma fallen_snoc: "fallen (events @ [e]) \<longleftrightarrow> fallen events \<or> e = Handler_clears \<and> Handler_tests \<in> set events"
  by (induction events) (auto simp: fallen_def)

definition flag_after :: "handler_event list \<Rightarrow> program \<Rightarrow> bool" where
  "flag_after events p \<longleftrightarrow> (keepRunning p \<longleftrightarrow> \<not> fallen events) \<and>
     (keepRunning p \<longrightarrow> (hd_tested p \<noteq> 0 \<longleftrightarrow> Handler_tests \<in> set events))"

lemma flag_after_step: "flag_after events p \<Longrightarrow> flag_after (events @ [e]) (ExitProgram_step e p)"
  by (cases e) (auto simp: flag_after_def fallen_snoc say_def)

lemma flag_after_deliver: "flag_after seen p \<Longrightarrow> flag_after (seen @ events) (deliver events p)"
proof (induction events arbitrary: seen p)
  case (Cons e events)
  then show ?case using Cons.IH [OF flag_after_step [OF Cons.prems]] by simp
qed simp

lemma deliver_stopped: "\<not> keepRunning p \<Longrightarrow> \<not> keepRunning (deliver events p)"
proof (induction events arbitrary: p)
  case (Cons e events)
  then show ?case by (cases e) (simp_all add: say_def)
qed simp

lemma say_simps [simp]:
  "keepRunning (say ls p) = keepRunning p" "no_handler (say ls p) = no_handler p" "cout (say ls p) = cout p @ ls" "say ks (say ls p) = say (ls @ ks) p"
  "hd_tested (say ls p) = hd_tested p" "hd_cleared (say ls p) = hd_cleared p"
  by (simp_all add: say_def no_handler_def)

lemma register_signals_running: "keepRunning (snd (register_signals errnos program_start))"
  by (auto simp: register_signals_def program_start_def split: option.splits prod.splits)

lemma count_map_neq: "(\<And>x. f x \<noteq> y) \<Longrightarrow> count_list (map f xs) y = 0"
  by (induction xs) auto

text \<open>How often the handlers have reported: at most once for each handler that has found the flag set.\<close>

definition shutdowns :: "program \<Rightarrow> nat" where
  "shutdowns p = count_list (cout p) ''Shutdown request''"

definition reports :: "program \<Rightarrow> nat" where
  "reports p = shutdowns p + hd_tested p + hd_cleared p"

lemma shutdowns_say [simp]: "shutdowns (say ls p) = shutdowns p + count_list ls ''Shutdown request''"
  by (simp add: shutdowns_def)

lemma shutdowns_exit: "shutdowns (ExitProgram p) = shutdowns p + (if keepRunning p then 1 else 0)"
  by (simp add: ExitProgram_def shutdowns_def say_def)

lemma shutdowns_start [simp]: "shutdowns program_start = 0" "keepRunning program_start" "no_handler program_start"
  "reports program_start = 0"
  by (simp_all add: shutdowns_def reports_def program_start_def no_handler_def)

lemma shutdowns_stopped [simp]: "shutdowns (p\<lparr>keepRunning := b\<rparr>) = shutdowns p" "reports (p\<lparr>keepRunning := b\<rparr>) = reports p"
  "no_handler (p\<lparr>keepRunning := b\<rparr>) = no_handler p"
  by (simp_all add: shutdowns_def reports_def no_handler_def)

lemma shutdowns_le: "shutdowns p \<le> reports p"
  by (simp add: reports_def)

lemma reports_say [simp]: "reports (say ls p) = reports p + count_list ls ''Shutdown request''"
  by (simp add: reports_def)

lemma reports_deliver: "reports (deliver events p) \<le> reports p + count_list events Handler_tests"
proof (induction events arbitrary: p)
  case (Cons e events)
  have "reports (ExitProgram_step e p) \<le> reports p + (if e = Handler_tests then 1 else 0)"
    by (cases e) (auto simp: reports_def shutdowns_def say_def)
  then show ?case using Cons.IH [of "ExitProgram_step e p"] by (auto split: if_splits)
qed simp

text \<open>
  Two handlers that interrupt each other both report.
\<close>

theorem nested_handlers_report_twice:
  "shutdowns (deliver [Handler_tests, Handler_tests, Handler_clears, Handler_reports, Handler_clears, Handler_reports]
     program_start) = 2"
  by (simp add: shutdowns_def program_start_def say_def)

section \<open>The read client\<close>

definition readable :: "('d, 'u) Service \<Rightarrow> string list \<Rightarrow> bool" where
  "readable s ids \<longleftrightarrow> (\<forall>i \<in> set ids. \<exists>h src. RetrieveReadInstance i s = Inr (h, src) \<and> rd_identity h = i)"

lemma ParameterReadClient_service_ok:
  assumes "env_ok env" "smap_inv dir"
  obtains s where "ParameterReadClient_service api env doc dir n = Inr (s, ())" "readable s (read_round n)"
proof -
  let ?fill = "add_all (\<lambda>ident. AddClientRead ident Unit_none) (loop_ids n @ [DebugReadLatencyChannel])"
  let ?entries = "map (\<lambda>i. \<lparr>cp_parameter_id = i, cp_unit = Unit_none\<rparr>) (read_round n)"
  have fill: "?fill b = Inr (b\<lparr>m_config := (m_config b)\<lparr>client_read_parameters := client_read_parameters (m_config b) @ ?entries\<rparr>\<rparr>)"
    if "\<not> m_hasBeenTaken b" for b :: "('a, unit) ConfigBuilder"
    by (simp only: AddClientRead_def add_all_unless_taken [OF that] fold_config read_round_def)
  have filled: "\<exists>b'. ?fill b = Inr b' \<and> \<not> m_hasBeenTaken b'" if "\<not> m_hasBeenTaken b" for b :: "('a, unit) ConfigBuilder"
    using fill [OF that] that by simp
  have name: "''CoreTelematics'' \<noteq> []" by simp
  obtain b b' s u' where o: "\<not> m_hasBeenTaken b" "m_config b = ParameterService_of ''CoreTelematics''" "?fill b = Inr b'"
    "build_service api env doc dir ''CoreTelematics'' ?fill () = Inr (s, u')"
    "Service_ctor api env doc (m_config b') dir () = (Inr (s, u'), LoadConnections doc dir)"
    by (rule build_service_ok [OF assms(1) name filled])
  have "client_read_parameters (m_config b') = ?entries"
    using fill [OF o(1)] o(2,3) by (auto simp: ParameterService_of_def)
  then have "readable s (read_round n)"
    using configured_handles [OF o(5) assms(2)] by (fastforce simp: readable_def)
  then show ?thesis using o(4) by (intro that [of s]) (simp_all add: ParameterReadClient_service_def unit_eq)
qed

definition ids_of :: "(ReadParameter \<times> string) list \<Rightarrow> string list" where
  "ids_of reads = map (rd_identity \<circ> fst) reads"

lemma ids_of_simps [simp]: "ids_of [] = []" "ids_of (reads @ [h]) = ids_of reads @ [rd_identity (fst h)]"
  by (simp_all add: ids_of_def)

lemma issue_reads_ok:
  "readable s ids \<Longrightarrow> \<exists>reads'. issue_reads s ids reads = (Inr (), reads') \<and> ids_of reads' = ids_of reads @ ids"
proof (induction ids arbitrary: reads)
  case (Cons i ids)
  obtain h src where h: "RetrieveReadInstance i s = Inr (h, src)" "rd_identity h = i" using Cons.prems by (auto simp: readable_def)
  have "readable s ids" using Cons.prems by (simp add: readable_def)
  then show ?case using Cons.IH [of "reads @ [(h, src)]"] h by simp
qed simp

text \<open>The passes before the flag has fallen; \<open>seen\<close> is what handlers have done so far.\<close>

fun quiet :: "handler_event list \<Rightarrow> pass_signals list \<Rightarrow> nat" where
  "quiet seen [] = 0"
| "quiet seen ((before, during) # rest) =
     (if fallen (seen @ before) then 0 else Suc (quiet (seen @ before @ during) rest))"

definition handled :: "pass_signals list \<Rightarrow> handler_event list" where
  "handled tests = concat (map (\<lambda>(before, during). before @ during) tests)"

definition silent :: "pass_signals list \<Rightarrow> bool" where
  "silent tests = list_all (\<lambda>(before, during). before = [] \<and> during = []) tests"

definition all_undisturbed :: "pass_signals list \<Rightarrow> bool" where
  "all_undisturbed tests = list_all (\<lambda>(before, during). undisturbed before \<and> undisturbed during) tests"

lemma pass_simps [simp]:
  "handled [] = []" "handled ((b, d) # tests) = b @ d @ handled tests"
  "silent [] = True" "silent ((b, d) # tests) \<longleftrightarrow> b = [] \<and> d = [] \<and> silent tests"
  "all_undisturbed [] = True" "all_undisturbed ((b, d) # tests) \<longleftrightarrow> undisturbed b \<and> undisturbed d \<and> all_undisturbed tests"
  by (auto simp: handled_def silent_def all_undisturbed_def)

lemma read_passes_running:
  assumes "readable s (read_round n)" "flag_after seen p"
  shows "\<exists>p' reads'. read_passes s False n tests p reads = (Inr (quiet seen tests < length tests), p', reads') \<and>
    ids_of reads' = ids_of reads @ concat (replicate (quiet seen tests) (read_round n)) \<and>
    reports p' \<le> reports p + count_list (handled tests) Handler_tests \<and>
    (all_undisturbed tests \<and> no_handler p \<longrightarrow> p' = (if silent tests then p else ExitProgram p))"
  using assms(2)
proof (induction tests arbitrary: seen p reads)
  case (Cons test tests)
  obtain b d where test: "test = (b, d)" by (cases test)
  let ?p = "deliver d (deliver b p)"
  have flag: "keepRunning (deliver b p) \<longleftrightarrow> \<not> fallen (seen @ b)" "flag_after (seen @ b @ d) ?p"
    using flag_after_deliver [OF Cons.prems, of b] flag_after_deliver [OF flag_after_deliver [OF Cons.prems, of b], of d]
    by (simp_all add: flag_after_def)
  have count: "reports (deliver b p) \<le> reports p + count_list b Handler_tests"
    "reports ?p \<le> reports p + count_list b Handler_tests + count_list d Handler_tests"
    using reports_deliver [of b p] reports_deliver [of d "deliver b p"] by simp_all
  have calm: "deliver b p = (if b = [] then p else ExitProgram p)" "?p = (if b = [] \<and> d = [] then p else ExitProgram p)" "no_handler ?p"
    if "undisturbed b" "undisturbed d" "no_handler p"
    using that by (simp_all add: deliver_undisturbed)
  show ?case
  proof (cases "fallen (seen @ b)")
    case True
    have "b \<noteq> []" if "keepRunning p" using that True Cons.prems by (auto simp: flag_after_def)
    then have "p = ExitProgram p" if "b = []" using that by (auto simp: ExitProgram_def)
    then show ?thesis using True flag(1) count(1) calm(1) by (auto simp: test)
  next
    case False
    obtain r1 where r1: "issue_reads s (read_round n) reads = (Inr (), r1)" "ids_of r1 = ids_of reads @ read_round n"
      using issue_reads_ok [OF assms(1)] by blast
    from Cons.IH [OF flag(2), of r1] obtain p' reads' where IH:
      "read_passes s False n tests ?p r1 = (Inr (quiet (seen @ b @ d) tests < length tests), p', reads')"
      "ids_of reads' = ids_of r1 @ concat (replicate (quiet (seen @ b @ d) tests) (read_round n))"
      "reports p' \<le> reports ?p + count_list (handled tests) Handler_tests"
      "all_undisturbed tests \<and> no_handler ?p \<longrightarrow> p' = (if silent tests then ?p else ExitProgram ?p)" by blast
    show ?thesis
      using False flag(1) r1 IH count(2) calm by (auto simp: test Let_def)
  qed
qed simp

lemma read_passes_once:
  assumes "readable s (read_round n)" "flag_after [] p"
  shows "\<exists>p' reads'. read_passes s True n tests p reads =
      (Inr (quiet [] tests < length tests \<or> 2 \<le> length tests), p', reads') \<and>
    ids_of reads' = ids_of reads @ concat (replicate (min 1 (quiet [] tests)) (read_round n)) \<and>
    reports p' \<le> reports p + count_list (handled tests) Handler_tests \<and>
    (all_undisturbed tests \<and> no_handler p \<longrightarrow> shutdowns p' = shutdowns (if silent (take 1 tests) then p else ExitProgram p))"
proof (cases tests)
  case (Cons test rest)
  obtain b d where test: "test = (b, d)" by (cases test)
  let ?p = "deliver d (deliver b p)"
  have flag: "keepRunning (deliver b p) \<longleftrightarrow> \<not> fallen b"
    using flag_after_deliver [OF assms(2), of b] by (simp add: flag_after_def)
  have count: "reports (deliver b p) \<le> reports p + count_list b Handler_tests"
    "reports ?p \<le> reports p + count_list b Handler_tests + count_list d Handler_tests"
    using reports_deliver [of b p] reports_deliver [of d "deliver b p"] by simp_all
  have running: "keepRunning p" using assms(2) by (simp add: flag_after_def fallen_def)
  have calm: "deliver b p = (if b = [] then p else ExitProgram p)" "?p = (if b = [] \<and> d = [] then p else ExitProgram p)" "no_handler ?p"
    if "undisturbed b" "undisturbed d" "no_handler p"
    using that by (simp_all add: deliver_undisturbed)
  show ?thesis
  proof (cases "fallen b")
    case True
    then have "b \<noteq> []" by (auto simp: fallen_def)
    then show ?thesis using True flag count(1) calm(1) by (auto simp: Cons test)
  next
    case False
    obtain r1 where r1: "issue_reads s (read_round n) reads = (Inr (), r1)" "ids_of r1 = ids_of reads @ read_round n"
      using issue_reads_ok [OF assms(1)] by blast
    let ?q = "?p\<lparr>keepRunning := False\<rparr>"
    show ?thesis
    proof (cases rest)
      case Nil
      then show ?thesis using False flag r1 count(2) calm by (auto simp: Cons test Let_def)
    next
      case (Cons test' rest')
      obtain b' d' where test': "test' = (b', d')" by (cases test')
      have q: "\<not> keepRunning (deliver b' ?q)" by (rule deliver_stopped) simp
      have "reports (deliver b' ?q) \<le> reports ?p + count_list b' Handler_tests" using reports_deliver [of b' ?q] by simp
      moreover have "shutdowns (deliver b' ?q) = shutdowns ?p" if "undisturbed b'" "no_handler ?p"
        using that by (simp add: deliver_undisturbed shutdowns_exit)
      ultimately show ?thesis
        using False flag r1 count(2) calm q by (auto simp: \<open>tests = test # rest\<close> Cons test test' Let_def)
    qed
  qed
qed simp

lemma register_none: "register_signals (None, None, sigpipe) program_start =
   (True, say (case sigpipe of None \<Rightarrow> [] | Some errno \<Rightarrow> [''Error registering for SIGPIPE action, errno = '' @ show_int errno]) program_start)"
  by (simp add: register_signals_def say_def split: option.splits)

lemma dashes_not [simp]: "dashes \<noteq> ''Shutdown request''" "''Shutdown request'' \<noteq> dashes"
  by (simp_all add: dashes_def numeral_eq_Suc)



section \<open>The other programs\<close>

lemma ParameterSubscriber_service_ok:
  assumes "env_ok env"
  obtains su where "ParameterSubscriber_service qname api va env doc dir thread seq shw n now = Inr su"
proof -
  let ?fill = "add_all (\<lambda>ident. AddSubscribe_deprecated ident Unit_none
            (Some (\<lambda>ident data u. (Inr (), Option.bind u (on_subscription qname api va thread seq shw ident data))))
            (Some on_disconnect)) (DebugLatencyChannel # loop_ids n)"
  have filled: "\<exists>b'. ?fill b = Inr b' \<and> \<not> m_hasBeenTaken b'" if "\<not> m_hasBeenTaken b" for b :: "('a, subscriber option) ConfigBuilder"
    using that by (simp only: AddSubscribe_deprecated_def add_all_unless_taken [OF that]) simp
  have name: "''DataLinkEngine'' \<noteq> []" by simp
  obtain b b' s u' where "build_service api env doc dir ''DataLinkEngine'' ?fill (Some (subscriber_initial now)) = Inr (s, u')"
    by (rule build_service_ok [OF assms name filled])
  then show ?thesis by (intro that) (unfold ParameterSubscriber_service_def, assumption)
qed

lemma wait_for_exit_flag:
  assumes "flag_after seen p" "keepRunning p"
  shows "(fst (wait_for_exit tests p) \<longleftrightarrow> fallen (seen @ concat tests)) \<and>
    reports (snd (wait_for_exit tests p)) \<le> reports p + count_list (concat tests) Handler_tests \<and>
    (list_all undisturbed tests \<and> no_handler p \<longrightarrow>
      shutdowns (snd (wait_for_exit tests p)) = shutdowns p + (if fallen (seen @ concat tests) then 1 else 0))"
  using assms
proof (induction tests arbitrary: seen p)
  case (Cons b tests)
  let ?p = "deliver b p"
  have flag: "flag_after (seen @ b) ?p" using Cons.prems by (simp add: flag_after_deliver)
  have later: "fallen (seen @ b @ rest)" if "fallen (seen @ b)" for rest
    using that by (induction rest rule: rev_induct) (simp_all add: fallen_snoc flip: append_assoc)
  have count: "reports ?p \<le> reports p + count_list b Handler_tests" by (rule reports_deliver)
  have calm: "?p = (if b = [] then p else ExitProgram p)" if "undisturbed b" "no_handler p"
    using that by (simp add: deliver_undisturbed)
  have e: "keepRunning ?p \<longleftrightarrow> \<not> fallen (seen @ b)" using flag by (simp add: flag_after_def)
  show ?case
  proof (cases "keepRunning ?p")
    case True
    have "?p = p" if "undisturbed b" "no_handler p" using calm [OF that] True by (cases "b = []") auto
    then show ?thesis using Cons.IH [OF flag True] True count by (auto simp: Let_def)
  next
    case False
    then have "shutdowns ?p = shutdowns p + 1" if "undisturbed b" "no_handler p"
      using calm [OF that] Cons.prems(2) by (cases "b = []") (simp_all add: shutdowns_exit)
    then show ?thesis using False e later [of "concat tests"] count by (auto simp: Let_def)
  qed
qed (simp_all add: flag_after_def)

lemma register_ok:
  obtains p where "register_signals (None, None, sigpipe) program_start = (True, p)" "flag_after [] p" "keepRunning p"
    "no_handler p" "reports p = 0"
  by (simp add: register_none flag_after_def fallen_def split: option.splits) (simp add: program_start_def)

definition counted :: "handler_event list list \<Rightarrow> program \<Rightarrow> bool" where
  "counted tests p \<longleftrightarrow> shutdowns p \<le> count_list (concat tests) Handler_tests \<and>
     (list_all undisturbed tests \<longrightarrow> shutdowns p = (if fallen (concat tests) then 1 else 0))"

lemma waited:
  assumes "flag_after [] p" "keepRunning p" "no_handler p" "reports p = 0"
  obtains p' where "wait_for_exit tests p = (fallen (concat tests), p')" "counted tests p'"
proof -
  have "shutdowns p = 0" using assms(4) by (simp add: reports_def)
  then show ?thesis
    using wait_for_exit_flag [OF assms(1,2), of tests] assms(3,4) shutdowns_le [of "snd (wait_for_exit tests p)"]
    by (intro that [of "snd (wait_for_exit tests p)"]) (auto simp: counted_def prod_eq_iff)
qed

lemma counted_say [simp]: "count_list ls ''Shutdown request'' = 0 \<Longrightarrow> counted tests (say ls p) = counted tests p"
  by (simp add: counted_def)

lemma flag_after_say [simp]: "flag_after events (say ls p) = flag_after events p"
  by (simp add: flag_after_def)

lemma read_server_thread_run:
  assumes "env_ok env" "flag_after [] p" "keepRunning p" "no_handler p" "reports p = 0"
  shows "\<exists>p'. read_server_thread api va env doc dir thread now n tests p =
      (if fallen (concat tests) then Thread_ended else Thread_runs, p') \<and> counted tests p'"
proof -
  obtain s u where s: "ParameterReadServerThread api va env doc dir n now = Inr (s, u)"
    using ParameterReadServerThread_ok [OF assms(1)] by metis
  let ?p = "say ([''Begin ParameterReadServerImpl ['' @ thread @ '']''] @
                   map (\<lambda>i. ''ParameterReadServerImpl ['' @ thread @ ''] Server Read '' @ i) (loop_ids n)) p"
  obtain p' where "wait_for_exit tests (say [''ParameterReadServerImpl Setup for '' @ show_int n @ '' parms''] ?p) =
      (fallen (concat tests), p')" "counted tests p'"
    by (rule waited [of "say [''ParameterReadServerImpl Setup for '' @ show_int n @ '' parms''] ?p" tests])
      (use assms(2-5) in \<open>simp_all add: count_map_neq\<close>)
  then show ?thesis unfolding read_server_thread_def s Let_def by (cases "fallen (concat tests)") simp_all
qed

lemma subscriber_thread_run:
  assumes "env_ok env" "flag_after [] p" "keepRunning p" "no_handler p" "reports p = 0"
  shows "\<exists>p'. ParameterSubscriberThread qname api va env doc dir thread now a tests p =
      (if fallen (concat tests) then Thread_ended else Thread_runs, p') \<and> counted tests p'"
proof -
  obtain su where s: "ParameterSubscriber_service qname api va env doc dir thread (sa_test_read_sequential a) (sa_show_read_values a)
      (sa_stream_filter_range a) now = Inr su"
    using ParameterSubscriber_service_ok [OF assms(1)] by metis
  let ?n = "sa_stream_filter_range a" and ?own = "''ParameterSubscriberThread ['' @ thread @ '']''"
  let ?p = "say ([''Begin ParameterSubscriberThread Thread ['' @ thread @ ''] ''] @
                   map (\<lambda>i. ?own @ '' Subscribe to Parm '' @ i) (loop_ids ?n) @
                   [dashes, ?own @ '' Total Parms '' @ show_int ?n, dashes]) p"
  obtain p' where "wait_for_exit tests ?p = (fallen (concat tests), p')" "counted tests p'"
    by (rule waited [of ?p tests]) (use assms(2-5) in \<open>simp_all add: count_map_neq\<close>)
  then show ?thesis unfolding ParameterSubscriberThread_def s Let_def by (cases "fallen (concat tests)") simp_all
qed

text \<open>
  The read server and the subscriber, when the creation calls of Fast DDS succeed and their signals are registered: each
  returns 0 exactly when the flag has fallen before one of its tests, and runs on otherwise; a shutdown request is
  reported at most once for each handler that found the flag set, and when handlers run undisturbed exactly once if the
  flag has fallen.  The read server returns -1 at once when it is told to serve no parameters, but not when it is told
  nothing.
\<close>

theorem server_programs_end:
  fixes tests :: "handler_event list list"
  assumes "env_ok env" "read_server_args argv = Settings a" "subscribe_args argv' = Settings a'"
  shows "\<exists>p p'. ParameterReadServer_main api va env doc dir thread now (None, None, sigpipe) argv tests =
      (if ra_server_read_parms a = 0 then Exit (- 1) else if fallen (concat tests) then Exit 0 else Still_running, p) \<and>
    ParameterSubscribe_main qname api va env doc dir thread now (None, None, sigpipe) argv' tests =
      (if fallen (concat tests) then Exit 0 else Still_running, p') \<and>
    (if ra_server_read_parms a = 0 then shutdowns p = 0 else counted tests p) \<and> counted tests p' \<and>
    read_server_args [] = Settings \<lparr>ra_server_address = ''127.0.0.1:50075'', ra_server_read_parms = - 1, ra_PublishOnce = False\<rparr>"
proof -
  obtain start where reg: "register_signals (None, None, sigpipe) program_start = (True, start)"
    and start: "flag_after [] start" "keepRunning start" "no_handler start" "reports start = 0"
    by (rule register_ok)
  then have none: "shutdowns start = 0" by (simp add: reports_def)
  let ?p = "say (banner (ra_server_address a)) start"
  let ?p' = "say (banner (sa_server_address a') @
                    [if sa_stream_filter_range a' > 0 then ''StreamFilterRange 1-'' @ show_int (sa_stream_filter_range a')
                     else ''StreamFilterRange Not Specified'',
                     if sa_show_read_values a' then ''ShowReadValues TRUE'' else ''ShowReadValues FALSE'']) start"
  have p: "flag_after [] ?p" "keepRunning ?p" "no_handler ?p" "reports ?p = 0" "shutdowns ?p = 0"
    "flag_after [] ?p'" "keepRunning ?p'" "no_handler ?p'" "reports ?p' = 0"
    using start none by (simp_all add: banner_def)
  obtain q where q: "read_server_thread api va env doc dir thread now (ra_server_read_parms a) tests ?p =
      (if fallen (concat tests) then Thread_ended else Thread_runs, q)" "counted tests q"
    using read_server_thread_run [OF assms(1) p(1-4)] by blast
  obtain q' where q': "ParameterSubscriberThread qname api va env doc dir thread now a' tests ?p' =
      (if fallen (concat tests) then Thread_ended else Thread_runs, q')" "counted tests q'"
    using subscriber_thread_run [OF assms(1) p(6-9)] by blast
  have subscriber: "\<exists>p. ParameterSubscribe_main qname api va env doc dir thread now (None, None, sigpipe) argv' tests =
      (if fallen (concat tests) then Exit 0 else Still_running, p) \<and> counted tests p"
    unfolding ParameterSubscribe_main_def reg assms(3) Let_def by (simp only: prod.case bool.case cmdline.case q'(1)) (simp add: q'(2))
  have server: "\<exists>p. ParameterReadServer_main api va env doc dir thread now (None, None, sigpipe) argv tests =
      (if ra_server_read_parms a = 0 then Exit (- 1) else if fallen (concat tests) then Exit 0 else Still_running, p) \<and>
    (if ra_server_read_parms a = 0 then shutdowns p = 0 else counted tests p)"
  proof (cases "ra_server_read_parms a = 0")
    case True
    then show ?thesis unfolding ParameterReadServer_main_def reg assms(2) Let_def using p(5) by simp
  next
    case False
    then show ?thesis
      unfolding ParameterReadServer_main_def reg assms(2) Let_def
      by (simp only: prod.case bool.case cmdline.case q(1) if_False) (simp add: q(2))
  qed
  show ?thesis using server subscriber by (auto simp: read_server_args_def)
qed

theorem server_programs_end_witness:
  "\<exists>p p'. ParameterReadServer_main value_pb_api concrete_value_api ex_env None [] ''1'' \<lparr>tv_sec = 0, tv_nsec = 0\<rparr> (None, None, None)
       [''server'', ''--serverreadparms=0''] [[], [Handler_tests, Handler_clears, Handler_reports]] = (Exit (- 1), p) \<and>
     ParameterSubscribe_main (\<lambda>_. []) value_pb_api concrete_value_api ex_env None [] ''1'' \<lparr>tv_sec = 0, tv_nsec = 0\<rparr> (None, None, None)
       [''subscriber''] [[], [Handler_tests, Handler_clears, Handler_reports]] = (Exit 0, p') \<and> shutdowns p' = 1"
proof -
  have a: "read_server_args [''server'', ''--serverreadparms=0''] =
      Settings \<lparr>ra_server_address = ''127.0.0.1:50075'', ra_server_read_parms = 0, ra_PublishOnce = False\<rparr>" by code_simp
  obtain a' where a': "subscribe_args [''subscriber''] = Settings a'" by (simp add: subscribe_args_def)
  show ?thesis
    using server_programs_end [OF ex_env_ok a a', of value_pb_api concrete_value_api None "[]" "''1''" "\<lparr>tv_sec = 0, tv_nsec = 0\<rparr>"
        None "[[], [Handler_tests, Handler_clears, Handler_reports]]" "\<lambda>_. []"]
    by (auto simp: fallen_def counted_def)
qed

text \<open>
  The publisher, when the creation calls of Fast DDS succeed: it returns, with 0, exactly when it was given no rate or told
  to publish once and has done so, and no command line without a rate makes it publish anything.
\<close>

theorem publish_program_ends:
  assumes "env_ok env" "publish_args argv = Settings a"
  shows "fst (ParameterPublish_main api va env doc dir now argv clocks) =
      (if pa_publish_rate_ms a < 1 \<or> pa_publish_once a \<and> clocks \<noteq> [] then Exit 0 else Still_running) \<and>
    (pa_publish_rate_ms a < 1 \<longleftrightarrow> snd (ParameterPublish_main api va env doc dir now argv clocks) = None) \<and>
    publish_args [] = Settings \<lparr>pa_server_address = ''127.0.0.1:50075'', pa_publish_rate_ms = - 1, pa_publish_parms = - 1, pa_publish_once = False\<rparr>"
proof -
  obtain s where s: "ParameterPublish_service api va env doc dir (pa_publish_parms a) now = Inr (s, ())" "publishers_known (pa_publish_parms a) s"
    by (rule ParameterPublish_service_ok [OF assms(1)])
  obtain s' v where "publish_rounds api va env (pa_publish_parms a) (if pa_publish_once a then take 1 clocks else clocks) (s, 1) = Inr (s', v)"
    using publish_rounds_ok [OF s(2)] by blast
  then show ?thesis
    using s(1) assms(2)
    by (cases "pa_publish_rate_ms a < 1") (simp_all add: ParameterPublish_main_def ParameterPublishDataLoader_def publish_args_def)
qed

theorem publish_program_ends_witness:
  "fst (ParameterPublish_main value_pb_api concrete_value_api ex_env None [] \<lparr>tv_sec = 0, tv_nsec = 0\<rparr> [''publisher'', ''--publishonce'']
     [\<lparr>tv_sec = 1, tv_nsec = 0\<rparr>]) = Exit 0"
proof -
  obtain a where "publish_args [''publisher'', ''--publishonce''] = Settings a" "pa_publish_rate_ms a < 1"
    by (simp add: publish_args_def strncmp_literal_def)
  then show ?thesis
    using publish_program_ends [OF ex_env_ok, of "[''publisher'', ''--publishonce'']" a value_pb_api concrete_value_api None "[]"
        "\<lparr>tv_sec = 0, tv_nsec = 0\<rparr>" "[\<lparr>tv_sec = 1, tv_nsec = 0\<rparr>]"]
    by simp
qed

end
