(* ===== verification/Parameter_Apps.thy ===== *)
theory Parameter_Apps
  imports Service_Factory Value_Api Std_Parse Logger
begin

text \<open>
  Two programs over the parameter service: the \<open>Mapper\<close> (\<open>apps/Mapper/ParameterRepublisher.cpp\<close>), which
  publishes again what it receives, and the \<open>stress-tester\<close> (\<open>apps/stress-tester/main.cpp\<close>).  Shown: the
  mapper publishes exactly the data it receives, in order, and the data of a lost publisher with bad
  quality; what an update does before the mapper is ready; the values the stress tester publishes.
\<close>

section \<open>Mapper\<close>

definition n_inputParameters :: "string list" where "n_inputParameters = [''A'', ''machine.fuel_level_1'']"
definition n_outputParameter :: string where "n_outputParameter = ''B''"
definition n_pSubscriberIdentity :: string where "n_pSubscriberIdentity = ''Mapper''"

text \<open>The object the callbacks work on, with the publisher that its pointer \<open>m_pPublish\<close> leads to.\<close>

record 'd ParameterRepublisher =
  m_pPublish :: "'d PublishParameter option"
  rp_cout :: string

definition nl :: string where "nl = [CHR 0x0A]"

definition OnPublisherDisconnected :: "string \<Rightarrow> 'd ParameterRepublisher OnDisconnect" where
  "OnPublisherDisconnected pId r = (Inr (), r\<lparr>rp_cout := rp_cout r @ ''Publisher disconnected for parameter: '' @ pId @ nl\<rparr>)"

definition OnParameterUpdated ::
  "'d protobuf_api \<Rightarrow> service_env \<Rightarrow> ('d, 'd ParameterRepublisher) OnSubscription" where
  "OnParameterUpdated api env ident data r =
     (let r = r\<lparr>rp_cout := rp_cout r @ ''Republishing '' @ ident @ '' as '' @ n_outputParameter @ nl\<rparr> in
      case m_pPublish r of
        None \<Rightarrow> (Inl NullDereference, r)
      | Some pp \<Rightarrow> (Inr (), r\<lparr>m_pPublish := Some (PublishParameter_Publish api (se_publish env) data pp)\<rparr>))"

text \<open>\<open>CreateConfiguration\<close> after \<open>IConfigBuilder::Create\<close>\<close>

definition CreateConfiguration ::
  "'d protobuf_api \<Rightarrow> service_env \<Rightarrow> ('d, 'd ParameterRepublisher) ConfigBuilder \<Rightarrow> ('d, 'd ParameterRepublisher) ConfigBuilder cpp" where
  "CreateConfiguration api env b =
     (case add_all (\<lambda>pId. AddSubscribe_deprecated pId Unit_none (Some (OnParameterUpdated api env)) (Some (OnPublisherDisconnected pId)))
             n_inputParameters b of
        Inl e \<Rightarrow> Inl e
      | Inr b \<Rightarrow> AddPublish n_outputParameter Unit_none (pb_default api) b)"

definition Mapper_Start ::
  "'d protobuf_api \<Rightarrow> service_env \<Rightarrow> xml_domains \<Rightarrow> SourceTableConnections \<Rightarrow> log_state
     \<Rightarrow> (('d, 'd ParameterRepublisher) Service \<times> 'd ParameterRepublisher) cpp \<times> log_state" where
  "Mapper_Start api env doc dir lg =
     (case build_service api env doc dir n_pSubscriberIdentity (CreateConfiguration api env)
             \<lparr>m_pPublish = None, rp_cout = concat (map (\<lambda>pId. ''Subscribing to: '' @ pId @ nl) n_inputParameters)\<rparr> of
        Inl e \<Rightarrow> Inl e
      | Inr (s, r) \<Rightarrow>
          (case RetrievePublisherInstance n_outputParameter s of
             Inl e \<Rightarrow> Inl e
           | Inr pp \<Rightarrow>
               Inr (s, r\<lparr>m_pPublish := Some pp,
                         rp_cout := rp_cout r @ ''Middleware parameter service created successfully'' @ nl\<rparr>)),
      SetLogLevel 4 lg)"

section \<open>Stress tester\<close>

definition OnComplete_text :: "string \<Rightarrow> 'd protobuf_api \<Rightarrow> 'd value_api \<Rightarrow> Param_Status \<Rightarrow> 'd Parameter \<Rightarrow> string" where
  "OnComplete_text now api va status p =
     ''['' @ now @ ''] [ON_COMPLETE] id: ['' @ c_str (pm_identity p) @ ''] status: ['' @
     (if status = SUCCESS then ''SUCCESS'' else ''FAIL'') @ ''] value: ['' @
     show_nat (unat (uinteger64_value va (pm_data_of api p))) @ '']'' @ nl"

definition OnSubscription_text :: "string \<Rightarrow> 'd protobuf_api \<Rightarrow> 'd value_api \<Rightarrow> Identity \<Rightarrow> 'd \<Rightarrow> string" where
  "OnSubscription_text now api va ident d =
     ''['' @ now @ ''] [SUBSCRIPTION] id: ['' @ c_str ident @ ''] quality: ['' @
     (if pb_quality api d = QUALITY_GOOD then ''GOOD'' else ''BAD'') @ ''] value: ['' @
     show_nat (unat (uinteger64_value va d)) @ '']'' @ nl"

definition stress_OnRead :: "string \<Rightarrow> 'd protobuf_api \<Rightarrow> 'd value_api \<Rightarrow> Identity \<Rightarrow> 'd \<times> string" where
  "stress_OnRead now api va ident =
     (let data = pb_set_quality api QUALITY_GOOD (va_set va (Uinteger64Value 0xFFFFFFFF) (pb_default api))
      in (data, ''['' @ now @ ''] [ON_READ] id: ['' @ c_str ident @ ''] value: ['' @
                show_nat (unat (uinteger64_value va data)) @ '']'' @ nl))"

definition stress_OnWrite :: "string \<Rightarrow> 'd value_api \<Rightarrow> Identity \<Rightarrow> 'd \<Rightarrow> string" where
  "stress_OnWrite now va ident d =
     ''['' @ now @ ''] [ON_WRITE] id: ['' @ c_str ident @ ''] value: ['' @ show_nat (unat (uinteger64_value va d)) @ '']'' @ nl"

definition parameter_names :: "string \<Rightarrow> u32 \<Rightarrow> string list" where
  "parameter_names base cnt = map (\<lambda>i. base @ ''::Parameter'' @ show_nat i) [1..<Suc (unat cnt)]"

text \<open>\<open>ss >> count\<close> on a variable of type \<open>uint32_t\<close> that was 0 before.\<close>

definition extract_u32 :: "string \<Rightarrow> u32" where
  "extract_u32 t =
     (case number_parts t of
        (neg, ds, _) \<Rightarrow>
          if ds = [] then 0
          else if read_nat ds \<ge> 2 ^ 32 then - 1
          else if neg then - of_nat (read_nat ds) else of_nat (read_nat ds))"

definition stress_fill ::
  "'d protobuf_api \<Rightarrow> 'd value_api \<Rightarrow> string \<Rightarrow> string \<Rightarrow> u32 \<Rightarrow> string list \<Rightarrow> ('d, string) ConfigBuilder \<Rightarrow> ('d, string) ConfigBuilder cpp" where
  "stress_fill api va now self_name cnt targets b =
     (case add_all (\<lambda>pub_name. AddPublish pub_name Unit_none
               (pb_set_quality api QUALITY_GOOD (va_set va (Uinteger64Value 0) (pb_default api))))
             (parameter_names self_name cnt) b of
        Inl e \<Rightarrow> Inl e
      | Inr b \<Rightarrow>
          add_all (\<lambda>sub_name. AddSubscribe_deprecated sub_name Unit_none
               (Some (\<lambda>ident d u. (Inr (), u @ OnSubscription_text now api va ident d))) (Some (\<lambda>u. (Inr (), u))))
             (concat (map (\<lambda>t. parameter_names t cnt) targets)) b)"

text \<open>One pass of the endless loop, on the service and \<open>current_value\<close>.\<close>

definition stress_round ::
  "'d protobuf_api \<Rightarrow> 'd value_api \<Rightarrow> service_env \<Rightarrow> string list \<Rightarrow> ('d, string) Service \<times> u32 \<Rightarrow> (('d, string) Service \<times> u32) cpp" where
  "stress_round api va env names sv =
     (let next_value = va_set va (Uinteger64Value (ucast (snd sv))) (pb_set_quality api QUALITY_GOOD (pb_default api));
          current_value = snd sv + 1
      in case publish_each (publish_on api env) names next_value (fst sv) of
           Inl e \<Rightarrow> Inl e
         | Inr s \<Rightarrow> Inr (s, if current_value > 255 then 0 else current_value))"

fun stress_rounds ::
  "'d protobuf_api \<Rightarrow> 'd value_api \<Rightarrow> service_env \<Rightarrow> string list \<Rightarrow> nat \<Rightarrow> ('d, string) Service \<times> u32 \<Rightarrow> (('d, string) Service \<times> u32) cpp" where
  "stress_rounds api va env names 0 sv = Inr sv"
| "stress_rounds api va env names (Suc k) sv =
     (case stress_round api va env names sv of Inl e \<Rightarrow> Inl e | Inr sv' \<Rightarrow> stress_rounds api va env names k sv')"

datatype 'a stress_result = Publishing 'a | CountTooLarge | StressError cpp_error

text \<open>
  \<open>main\<close> up to the end of pass \<open>k\<close> of the loop.  With fewer than two arguments a string is made from a null
  pointer, which is undefined.
\<close>

definition stress_main ::
  "'d protobuf_api \<Rightarrow> 'd value_api \<Rightarrow> service_env \<Rightarrow> xml_domains \<Rightarrow> SourceTableConnections \<Rightarrow> string \<Rightarrow> string list \<Rightarrow> nat
     \<Rightarrow> (('d, string) Service \<times> u32) stress_result" where
  "stress_main api va env doc dir now argv k =
     (if length argv < 3 then StressError NullDereference
      else
        (let self_name = argv ! 1; cnt = extract_u32 (argv ! 2) in
         if cnt \<le> 1000 then
           (case build_service api env doc dir self_name (stress_fill api va now self_name cnt (drop 3 argv)) [] of
              Inl e \<Rightarrow> StressError e
            | Inr (s, _) \<Rightarrow>
                (case stress_rounds api va env (parameter_names self_name cnt) k (s, 1) of
                   Inl e \<Rightarrow> StressError e
                 | Inr sv \<Rightarrow> Publishing sv))
         else CountTooLarge))"

section \<open>The mapper\<close>

text \<open>A subscriber as the constructor of the service leaves it.\<close>

definition subscriber_of :: "('d, 'u) SubscribedParameter \<Rightarrow> ('d, 'u) SubscribeParameter" where
  "subscriber_of c = \<lparr>sb_lastReceived = Parameter_default\<lparr>pm_identity := sub_parameter_id c\<rparr>, sb_callback = sub_callback c,
     sb_callbackWithMetadata = sub_callbackWithMetadata c, sb_disconnect = sub_disconnect c\<rparr>"

lemma SubscribeParameter_ctor_value:
  "env_ok env \<Longrightarrow> \<exists>reader dp'. SubscribeParameter_ctor api (se_message env) (se_ports env) [] [] c (Some dp) u =
     Inr (reader, dp', subscriber_of c, u)"
  by (simp add: SubscribeParameter_ctor_def MessageParticipant_CreateReader_def stub_CreateReader_def subscriber_of_def
      MessageReader_Create_def MessageReader_ctor_def MessageReader_SetDependency_def topic_available_def env_ok_def Let_def)

lemma CreateSubscriptions_value:
  "env_ok env \<Longrightarrow> CreateSubscriptions api env ps su = Inr su' \<Longrightarrow>
   map snd (m_spSubscribers (fst su')) = map snd (m_spSubscribers (fst su)) @ map subscriber_of ps \<and> snd su' = snd su"
proof (induction ps arbitrary: su)
  case (Cons p ps)
  obtain reader dp' where "SubscribeParameter_ctor api (se_message env) (se_ports env) [] [] p
      (Some (m_spBroadcastParticipant (fst su))) (snd su) = Inr (reader, dp', subscriber_of p, snd su)"
    using SubscribeParameter_ctor_value [OF Cons.prems(1), of api p "m_spBroadcastParticipant (fst su)" "snd su"] by blast
  then show ?case using Cons by fastforce
qed simp

lemma create_source_subscribers:
  "m_spSubscribers (fold (add_read src) ps s) = m_spSubscribers s" "m_spSubscribers (fold (add_write src) ps s) = m_spSubscribers s"
  by (induction ps arbitrary: s) (simp_all add: add_read_def add_write_def)

lemma create_sources_subscribers:
  "create_sources env c srcs s = Inr s' \<Longrightarrow> m_spSubscribers s' = m_spSubscribers s"
proof (induction srcs arbitrary: s)
  case (Cons src srcs)
  have "create_source env c src s = Inr s1 \<Longrightarrow> m_spSubscribers s1 = m_spSubscribers s" for s1
    using create_source_Inr [of env c src s s1] by (simp add: create_source_subscribers)
  then show ?case using Cons by (fastforce split: sum.splits)
qed simp

lemma CreatePublishers_subscribers:
  "CreatePublishers api env ps s = Inr s' \<Longrightarrow> m_spSubscribers s' = m_spSubscribers s"
  by (induction ps arbitrary: s) (auto split: sum.splits)

lemma service_subscribers:
  assumes "env_ok env" "Service_ctor api env doc c dir u = (Inr (s, u'), dir')"
  shows "map snd (m_spSubscribers s) = map subscriber_of (subscribed_parameters c)"
proof -
  obtain l dp s1 s2 s3 where ph: "CreateServer api env c (service_members l dp) = Inr s1" "CreateClients env dir' c s1 = Inr s2"
    "CreateSubscriptions api env (subscribed_parameters c) (s2, u) = Inr (s3, u')" "CreatePublishers api env (published_parameters c) s3 = Inr s"
    using Service_ctor_phases [OF assms(2)] by blast
  have "m_spSubscribers s1 = []"
    using ph(1) by (auto simp: CreateServer_def service_members_def Let_def split: sum.splits option.splits if_splits)
  moreover have "m_spSubscribers s2 = m_spSubscribers s1" using ph(2) create_sources_subscribers by (simp add: CreateClients_def)
  ultimately show ?thesis
    using CreateSubscriptions_value [OF assms(1) ph(3)] CreatePublishers_subscribers [OF ph(4)] by simp
qed

text \<open>What can happen to one of the subscriptions.\<close>

datatype subscription_evt = Update bytes | Lost

fun subscription_evts ::
  "'d protobuf_api \<Rightarrow> subscription_evt list \<Rightarrow> ('d, 'u) SubscribeParameter \<times> 'u \<Rightarrow> (('d, 'u) SubscribeParameter \<times> 'u) cpp" where
  "subscription_evts api [] spu = Inr spu"
| "subscription_evts api (e # es) spu =
     (case (case e of Update b \<Rightarrow> subscribe_handler api b spu | Lost \<Rightarrow> subscribe_onDisconnect api spu) of
        Inl x \<Rightarrow> Inl x
      | Inr spu' \<Rightarrow> subscription_evts api es spu')"

text \<open>The data to publish: what was received, and on a loss the data received last with bad quality.\<close>

fun republished :: "'d protobuf_api \<Rightarrow> 'd \<Rightarrow> subscription_evt list \<Rightarrow> 'd list" where
  "republished api d [] = []"
| "republished api d (Update b # es) =
     (let d' = pm_data_of api (snd (pb_parse_Parameter api b)) in d' # republished api d' es)"
| "republished api d (Lost # es) = (let d' = pb_set_quality api QUALITY_BAD d in d' # republished api d' es)"

lemma mapper_evts:
  assumes "sb_callback sp = Some (OnParameterUpdated api env)" "sb_callbackWithMetadata sp = None"
    "sb_disconnect sp = Some (OnPublisherDisconnected pId)" "m_pPublish r = Some pp"
  shows "\<exists>sp' r'. subscription_evts api es (sp, r) = Inr (sp', r') \<and>
    m_pPublish r' = Some (fold (PublishParameter_Publish api (se_publish env)) (republished api (pm_data_of api (sb_lastReceived sp)) es) pp)"
  using assms
proof (induction es arbitrary: sp r pp)
  case (Cons e es)
  show ?case
  proof (cases e)
    case (Update b)
    let ?p = "snd (pb_parse_Parameter api b)"
    obtain r' where "subscribe_handler api b (sp, r) = Inr (sp\<lparr>sb_lastReceived := ?p\<rparr>, r')"
      "m_pPublish r' = Some (PublishParameter_Publish api (se_publish env) (pm_data_of api ?p) pp)"
      using Cons.prems
      by (simp add: subscribe_handler_def ProtectedUserSubscriptionCall_def OnParameterUpdated_def catch_std_def Let_def)
    then show ?thesis
      using Cons.IH [of "sp\<lparr>sb_lastReceived := ?p\<rparr>" r'] Cons.prems by (simp add: Update Let_def)
  next
    case Lost
    let ?q = "set_data_quality api QUALITY_BAD (sb_lastReceived sp)"
    obtain r' where "subscribe_onDisconnect api (sp, r) = Inr (sp\<lparr>sb_lastReceived := ?q\<rparr>, r')"
      "m_pPublish r' = Some (PublishParameter_Publish api (se_publish env) (pm_data_of api ?q) pp)"
      using Cons.prems
      by (simp add: subscribe_onDisconnect_def ProtectedUserSubscriptionCall_def ProtectedUserDisconnectCall_def
          OnParameterUpdated_def OnPublisherDisconnected_def catch_std_def Let_def)
    moreover have "pm_data_of api ?q = pb_set_quality api QUALITY_BAD (pm_data_of api (sb_lastReceived sp))"
      by (simp add: set_data_quality_def pm_data_of_def)
    ultimately show ?thesis
      using Cons.IH [of "sp\<lparr>sb_lastReceived := ?q\<rparr>" r'] Cons.prems by (simp add: Lost Let_def)
  qed
qed simp

definition mapper_entries :: "'d protobuf_api \<Rightarrow> service_env \<Rightarrow> ('d, 'd ParameterRepublisher) SubscribedParameter list" where
  "mapper_entries api env = map (\<lambda>pId. \<lparr>sub_parameter_id = pId, sub_unit = Unit_none, sub_callback = Some (OnParameterUpdated api env),
     sub_callbackWithMetadata = None, sub_disconnect = Some (OnPublisherDisconnected pId)\<rparr>) n_inputParameters"

lemma CreateConfiguration_value:
  assumes "\<not> m_hasBeenTaken b"
  shows "CreateConfiguration api env b = Inr (b\<lparr>m_config := (m_config b)
    \<lparr>subscribed_parameters := subscribed_parameters (m_config b) @ mapper_entries api env,
     published_parameters := published_parameters (m_config b) @
       [\<lparr>pub_parameter_id = n_outputParameter, pub_unit = Unit_none, pub_initial_value = pb_default api\<rparr>]\<rparr>\<rparr>)"
proof -
  have "add_all (\<lambda>pId. AddSubscribe_deprecated pId Unit_none (Some (OnParameterUpdated api env)) (Some (OnPublisherDisconnected pId)))
      n_inputParameters b = Inr (b\<lparr>m_config := (m_config b)
        \<lparr>subscribed_parameters := subscribed_parameters (m_config b) @ mapper_entries api env\<rparr>\<rparr>)"
    by (simp only: AddSubscribe_deprecated_def add_all_unless_taken [OF assms] fold_config mapper_entries_def)
  then show ?thesis using assms by (simp add: CreateConfiguration_def AddPublish_def unless_taken_def)
qed

lemma CreateConfiguration_ok: "\<not> m_hasBeenTaken b \<Longrightarrow> \<exists>b'. CreateConfiguration api env b = Inr b' \<and> \<not> m_hasBeenTaken b'"
  by (simp add: CreateConfiguration_value)

text \<open>
C33: The mapper, when the creation calls of Fast DDS succeed: it starts, it subscribes to its inputs in
  order, and whatever happens to a subscription afterwards it publishes as \<open>B\<close> exactly the data it
  received, in order, and on a loss the last data with bad quality.
\<close>

theorem mapper_republishes:
  assumes "env_ok env"
  shows "\<exists>s r pp. Mapper_Start api env doc dir lg = (Inr (s, r), SetLogLevel 4 lg) \<and> m_pPublish r = Some pp \<and>
    PublishParameter_Identity pp = n_outputParameter \<and>
    map (\<lambda>(_, sp). pm_identity (sb_lastReceived sp)) (m_spSubscribers s) = n_inputParameters \<and>
    (\<forall>(_, sp) \<in> set (m_spSubscribers s). \<forall>es. \<exists>sp' r'. subscription_evts api es (sp, r) = Inr (sp', r') \<and>
       m_pPublish r' = Some (fold (PublishParameter_Publish api (se_publish env)) (republished api (pb_default api) es) pp))"
proof -
  let ?r = "\<lparr>m_pPublish = None, rp_cout = concat (map (\<lambda>pId. ''Subscribing to: '' @ pId @ nl) n_inputParameters)\<rparr> :: 'a ParameterRepublisher"
  have name: "n_pSubscriberIdentity \<noteq> []" by (simp add: n_pSubscriberIdentity_def)
  obtain b b' s r where o: "\<not> m_hasBeenTaken b" "m_config b = ParameterService_of n_pSubscriberIdentity"
    "CreateConfiguration api env b = Inr b'" "build_service api env doc dir n_pSubscriberIdentity (CreateConfiguration api env) ?r = Inr (s, r)"
    "Service_ctor api env doc (m_config b') dir ?r = (Inr (s, r), LoadConnections doc dir)"
    by (rule build_service_ok [OF assms name CreateConfiguration_ok])
  have cfg: "subscribed_parameters (m_config b') = mapper_entries api env"
    "published_parameters (m_config b') = [\<lparr>pub_parameter_id = n_outputParameter, pub_unit = Unit_none, pub_initial_value = pb_default api\<rparr>]"
    using CreateConfiguration_value [OF o(1), of api env] o(2,3) by (auto simp: ParameterService_of_def)
  obtain pp where pp: "smap_find (m_spPublishers s) n_outputParameter = Some pp" "PublishParameter_Identity pp = n_outputParameter"
    using configured_publishers [OF o(5), of n_outputParameter] cfg(2) by (auto simp: publishes_def)
  have subs: "map snd (m_spSubscribers s) = map subscriber_of (mapper_entries api env)"
    using service_subscribers [OF assms o(5)] cfg(1) by simp
  let ?r' = "r\<lparr>m_pPublish := Some pp, rp_cout := rp_cout r @ ''Middleware parameter service created successfully'' @ nl\<rparr>"
  have "Mapper_Start api env doc dir lg = (Inr (s, ?r'), SetLogLevel 4 lg)"
    using o(4) pp(1) by (simp add: Mapper_Start_def RetrievePublisherInstance_def retrieve_def)
  moreover have "map (\<lambda>(_, sp). pm_identity (sb_lastReceived sp)) (m_spSubscribers s) = n_inputParameters"
    using arg_cong [OF subs, of "map (pm_identity \<circ> sb_lastReceived)"]
    by (simp add: comp_def case_prod_unfold mapper_entries_def subscriber_of_def)
  moreover have "\<exists>sp' r''. subscription_evts api es (sp, ?r') = Inr (sp', r'') \<and>
      m_pPublish r'' = Some (fold (PublishParameter_Publish api (se_publish env)) (republished api (pb_default api) es) pp)"
    if "(rd, sp) \<in> set (m_spSubscribers s)" for rd sp es
  proof -
    have "sp \<in> set (map subscriber_of (mapper_entries api env))" using that subs by (metis image_eqI list.set_map snd_conv)
    then obtain pId where "sb_callback sp = Some (OnParameterUpdated api env)" "sb_callbackWithMetadata sp = None"
      "sb_disconnect sp = Some (OnPublisherDisconnected pId)" "pm_data_of api (sb_lastReceived sp) = pb_default api"
      by (auto simp: mapper_entries_def subscriber_of_def pm_data_of_def Parameter_default_def)
    then show ?thesis using mapper_evts [of sp api env pId ?r' pp es] by simp
  qed
  ultimately show ?thesis using pp(2) by (intro exI [of _ s] exI [of _ ?r'] exI [of _ pp]) auto
qed

theorem mapper_republishes_witness:
  "\<exists>s r pp. Mapper_Start concrete_api ex_env None [] log_initial = (Inr (s, r), SetLogLevel 4 log_initial) \<and>
     m_pPublish r = Some pp \<and> PublishParameter_Identity pp = ''B''"
  using mapper_republishes [OF ex_env_ok, of concrete_api None "[]" log_initial] by (auto simp: n_outputParameter_def)

text \<open>
  An update that arrives before \<open>Start\<close> has stored the pointer to the publisher dereferences a null pointer;
  the handler that guards the callback against exceptions does not stop that.
\<close>

theorem early_update_dereferences_null:
  assumes "sb_callback sp = Some (OnParameterUpdated api env)" "m_pPublish r = None"
  shows "subscribe_handler api b (sp, r) = Inl NullDereference"
  using assms
  by (simp add: subscribe_handler_def ProtectedUserSubscriptionCall_def OnParameterUpdated_def catch_std_def Let_def)

section \<open>The stress tester\<close>

definition stress_data :: "'d protobuf_api \<Rightarrow> 'd value_api \<Rightarrow> nat \<Rightarrow> 'd" where
  "stress_data api va n = va_set va (Uinteger64Value (of_nat n)) (pb_set_quality api QUALITY_GOOD (pb_default api))"

lemma stress_round_ok:
  fixes s :: "('d, string) Service"
  assumes "set names \<subseteq> publisher_ids s" "n < 256"
  shows "\<exists>s'. stress_round api va env names (s, of_nat n) = Inr (s', of_nat (Suc n mod 256)) \<and>
    (\<forall>i \<in> set names. published_value s' i = Some (stress_data api va n)) \<and>
    publisher_ids s' = publisher_ids s"
proof -
  have word: "ucast (of_nat n :: u32) = (of_nat n :: u64)"
    using assms(2) by (simp add: unsigned_of_nat take_bit_nat_eq_self)
  have "unat (of_nat (Suc n) :: u32) = Suc n" using assms(2) unfolding unat_of_nat by simp
  then have u: "unat (of_nat n + 1 :: u32) = Suc n" by (simp add: add.commute)
  have l: "unat (255 :: u32) = 255" by simp
  have cmp: "of_nat n + 1 > (255 :: u32) \<longleftrightarrow> n = 255"
    unfolding word_less_nat_alt u l using assms(2) by auto
  have cur: "(if of_nat n + 1 > (255 :: u32) then 0 else of_nat n + 1) = (of_nat (Suc n mod 256) :: u32)"
    unfolding cmp using assms(2) by (auto simp: add.commute)
  obtain s' where s': "publish_each (publish_on api env) names (stress_data api va n) s = Inr s'"
    "published_value s' = (\<lambda>i. if i \<in> set names then Some (stress_data api va n) else published_value s i)"
    "publisher_ids s' = publisher_ids s"
    using ps.each_known [OF assms(1), of api env "stress_data api va n"] by blast
  have "stress_round api va env names (s, of_nat n) = Inr (s', of_nat (Suc n mod 256))"
    using s'(1) unfolding stress_round_def Let_def fst_conv snd_conv word cur stress_data_def by simp
  then show ?thesis using s'(2,3) by auto
qed

lemma stress_rounds_ok:
  fixes s :: "('d, string) Service"
  assumes "set names \<subseteq> publisher_ids s"
  shows "\<exists>s'. stress_rounds api va env names k (s, of_nat (n mod 256)) = Inr (s', of_nat ((n + k) mod 256)) \<and>
    (0 < k \<longrightarrow> (\<forall>i \<in> set names. published_value s' i = Some (stress_data api va ((n + k - 1) mod 256))))"
  using assms
proof (induction k arbitrary: s n)
  case (Suc k)
  obtain s1 where s1: "stress_round api va env names (s, of_nat (n mod 256)) = Inr (s1, of_nat (Suc n mod 256))"
    "\<forall>i \<in> set names. published_value s1 i = Some (stress_data api va (n mod 256))"
    "publisher_ids s1 = publisher_ids s"
    using stress_round_ok [OF Suc.prems, of "n mod 256" api va env] by (auto simp: mod_Suc_eq)
  have "set names \<subseteq> publisher_ids s1" using Suc.prems s1(3) by simp
  from Suc.IH [OF this, of "Suc n"] show ?case using s1(1,2) by (cases k) auto
qed simp

lemma stress_fill_value:
  assumes "\<not> m_hasBeenTaken b"
  shows "\<exists>b'. stress_fill api va now self_name cnt targets b = Inr b' \<and> \<not> m_hasBeenTaken b' \<and>
    map pub_parameter_id (published_parameters (m_config b')) =
      map pub_parameter_id (published_parameters (m_config b)) @ parameter_names self_name cnt"
proof -
  let ?v = "pb_set_quality api QUALITY_GOOD (va_set va (Uinteger64Value 0) (pb_default api))"
  let ?b = "b\<lparr>m_config := (m_config b)\<lparr>published_parameters := published_parameters (m_config b) @
    map (\<lambda>i. \<lparr>pub_parameter_id = i, pub_unit = Unit_none, pub_initial_value = ?v\<rparr>) (parameter_names self_name cnt)\<rparr>\<rparr>"
  have pubs: "add_all (\<lambda>pub_name. AddPublish pub_name Unit_none ?v) (parameter_names self_name cnt) b = Inr ?b"
    by (simp only: AddPublish_def add_all_unless_taken [OF assms] fold_config)
  have "\<not> m_hasBeenTaken ?b" using assms by simp
  then show ?thesis
    unfolding stress_fill_def pubs sum.case AddSubscribe_deprecated_def
    by (simp add: add_all_unless_taken fold_config comp_def)
qed

text \<open>
  The stress tester with at most 1000 parameters, when the creation calls of Fast DDS succeed: the loop
  never throws, and pass \<open>k\<close> publishes \<open>k mod 256\<close> for each of its parameters.  With more it stops at once.
\<close>

theorem stress_values:
  assumes "env_ok env" "self_name \<noteq> []" "0 < k"
  shows "if extract_u32 n \<le> 1000
    then \<exists>s. stress_main api va env doc dir now (prog # self_name # n # targets) k = Publishing (s, of_nat ((k + 1) mod 256)) \<and>
      (\<forall>i \<in> set (parameter_names self_name (extract_u32 n)). published_value s i = Some (stress_data api va (k mod 256)))
    else stress_main api va env doc dir now (prog # self_name # n # targets) k = CountTooLarge"
proof (cases "extract_u32 n \<le> 1000")
  case True
  let ?fill = "stress_fill api va now self_name (extract_u32 n) targets"
  have fill: "\<exists>b'. ?fill b = Inr b' \<and> \<not> m_hasBeenTaken b'" if "\<not> m_hasBeenTaken b" for b
    using stress_fill_value [OF that] by blast
  obtain b b' s u where o: "\<not> m_hasBeenTaken b" "m_config b = ParameterService_of self_name" "?fill b = Inr b'"
    "build_service api env doc dir self_name ?fill [] = Inr (s, u)"
    "Service_ctor api env doc (m_config b') dir [] = (Inr (s, u), LoadConnections doc dir)"
    by (rule build_service_ok [OF assms(1,2) fill])
  have "map pub_parameter_id (published_parameters (m_config b')) = parameter_names self_name (extract_u32 n)"
    using stress_fill_value [OF o(1), of api va now self_name "extract_u32 n" targets] o(2,3) by (auto simp: ParameterService_of_def)
  then have "set (parameter_names self_name (extract_u32 n)) = pub_parameter_id ` set (published_parameters (m_config b'))"
    by (metis list.set_map)
  then have "set (parameter_names self_name (extract_u32 n)) \<subseteq> publisher_ids s"
    using configured_publishers [OF o(5)] by (fastforce simp: publisher_ids_def)
  then obtain s' where "stress_rounds api va env (parameter_names self_name (extract_u32 n)) k (s, of_nat (1 mod 256)) =
      Inr (s', of_nat ((1 + k) mod 256))"
    "\<forall>i \<in> set (parameter_names self_name (extract_u32 n)). published_value s' i = Some (stress_data api va ((1 + k - 1) mod 256))"
    using stress_rounds_ok [where n = 1 and k = k and names = "parameter_names self_name (extract_u32 n)" and s = s and
      api = api and va = va and env = env] assms(3) by blast
  then show ?thesis using True o(4) by (simp add: stress_main_def)
qed (simp add: stress_main_def)

lemma extract_u32_show: "n < 2 ^ 32 \<Longrightarrow> extract_u32 (show_nat n) = of_nat n"
  by (simp add: extract_u32_def number_parts_show_nat)

theorem stress_values_witness:
  "\<exists>s. stress_main value_pb_api concrete_value_api ex_env None [] ''12:00:00'' [''stress'', ''Me'', ''2''] 3 = Publishing (s, 4) \<and>
     (\<forall>i \<in> set (parameter_names ''Me'' 2). published_value s i = Some (stress_data value_pb_api concrete_value_api 3))"
proof -
  have "show_nat 2 = ''2''" by code_simp
  then have "extract_u32 ''2'' = 2" using extract_u32_show [of 2] by simp
  then show ?thesis
    using stress_values [OF ex_env_ok, of "''Me''" 3 "''2''" value_pb_api concrete_value_api None "[]" "''12:00:00''" "''stress''" "[]"]
    by simp
qed

end
