(* ===== verification/Demo_Pubsub.thy ===== *)
theory Demo_Pubsub
  imports Std_Float
begin

text \<open>
  The vehicle publishers of the ROS 2 demonstration nodes: \<open>PublisherNode\<close>
  (\<open>demo_to_cat/src/pubsub/publisher.cpp\<close>; \<open>comp_publisher.cpp\<close> is the same code with fixed names), the
  publisher of the combined node (\<open>combined/pub_serviceserver_accli.cpp\<close>) and the thread numbering of
  the dual subscriber (\<open>pubsub/dual_subscriber.cpp\<close>).  Shown: the speed wave of the publisher has a
  period of 63 ticks and its \<open>size_t\<close> counter never wraps; what the parameter callbacks accept, and
  that setting the scale parameter runs into undefined behaviour; a combined publisher whose counter
  is not initialised may wrap around.

  A publisher is the list of what was published.  A speed is kept as the operands of
  \<open>static_cast<float>(count_) * param_speed_scale_ + step\<close>: rounding is not modelled, the comparisons of
  a \<open>double\<close> are.
\<close>

section \<open>The publisher node\<close>

record VehicleIdentifier =
  is_moving :: bool
  speed :: "u64 \<times> float64 \<times> float64"

record PublisherNode_demo =
  pn_count :: u64
  pn_oper :: bool
  pn_speed_scale :: float64
  pn_speed_step :: float64
  published :: "VehicleIdentifier list"

definition PublisherNode_demo_ctor :: PublisherNode_demo where
  "PublisherNode_demo_ctor =
     \<lparr>pn_count = 0, pn_oper = True, pn_speed_scale = Fin (1 / 10), pn_speed_step = Fin 0, published = []\<rparr>"

definition on_timer :: "PublisherNode_demo \<Rightarrow> PublisherNode_demo" where
  "on_timer s =
     (let moving = True;
          step = pn_speed_step s;
          (count, oper, moving) = (if pn_count s \<le> 0 then (0, True, False) else (pn_count s, pn_oper s, moving));
          count = (if oper then count + 10 else count - 5);
          oper = (if count > 200 then False else oper);
          (moving, step) = (if fp_eq (pn_speed_scale s) 0 then (False, Fin 0) else (moving, step))
      in s\<lparr>pn_count := count, pn_oper := oper,
           published := published s @ [\<lparr>is_moving = moving, speed = (count, pn_speed_scale s, step)\<rparr>]\<rparr>)"

section \<open>Parameters\<close>

datatype ParameterValue = PDouble float64 | PNotDouble

type_synonym Parameter_list = "(string \<times> ParameterValue) list"

text \<open>\<open>get_value<double>\<close> throws on a value of another type.\<close>

definition get_double :: "ParameterValue \<Rightarrow> float64 cpp" where
  "get_double v = (case v of PDouble d \<Rightarrow> Inr d | PNotDouble \<Rightarrow> Inl (RuntimeError ''InvalidParameterTypeException''))"

text \<open>
  The first callback appends to the vector it iterates over.  \<open>push_back\<close> invalidates at least the
  end iterator, which the range-based loop compares with next: the behaviour is undefined, \<open>None\<close>.
\<close>

fun modify_upcoming_parameters_callback :: "Parameter_list \<Rightarrow> Parameter_list option" where
  "modify_upcoming_parameters_callback [] = Some []"
| "modify_upcoming_parameters_callback (param # rest) =
     (if fst param = ''param_speed_scale'' then None
      else map_option ((#) param) (modify_upcoming_parameters_callback rest))"

record SetParametersResult =
  successful :: bool
  reason :: string

fun validate_upcoming_parameters_callback :: "Parameter_list \<Rightarrow> SetParametersResult cpp" where
  "validate_upcoming_parameters_callback [] = Inr \<lparr>successful = True, reason = []\<rparr>"
| "validate_upcoming_parameters_callback (param # rest) =
     (if fst param = ''param_speed_scale'' then
        (case get_double (snd param) of
           Inl e \<Rightarrow> Inl e
         | Inr d \<Rightarrow>
             if fp_greater d 1 then Inr \<lparr>successful = False, reason = ''cannot set 'param_speed_scale' > 1.0''\<rparr>
             else if fp_less d 0 then Inr \<lparr>successful = False, reason = ''cannot set 'param_speed_scale' < 0.0''\<rparr>
             else validate_upcoming_parameters_callback rest)
      else if fst param = ''param_speed_step'' then
        (case get_double (snd param) of
           Inl e \<Rightarrow> Inl e
         | Inr d \<Rightarrow>
             if fp_less d 0 then Inr \<lparr>successful = False, reason = ''cannot set 'param_speed_step' < 0.0''\<rparr>
             else if fp_greater d 10 then Inr \<lparr>successful = False, reason = ''cannot set 'param_speed_step' > 10.0''\<rparr>
             else validate_upcoming_parameters_callback rest)
      else validate_upcoming_parameters_callback rest)"

fun react_to_updated_parameters_callback :: "Parameter_list \<Rightarrow> PublisherNode_demo \<Rightarrow> PublisherNode_demo cpp" where
  "react_to_updated_parameters_callback [] s = Inr s"
| "react_to_updated_parameters_callback (param # rest) s =
     (if fst param = ''param_speed_scale'' then
        (case get_double (snd param) of
           Inl e \<Rightarrow> Inl e
         | Inr d \<Rightarrow> react_to_updated_parameters_callback rest (s\<lparr>pn_speed_scale := d\<rparr>))
      else if fst param = ''param_speed_step'' then
        (case get_double (snd param) of
           Inl e \<Rightarrow> Inl e
         | Inr d \<Rightarrow> react_to_updated_parameters_callback rest (s\<lparr>pn_speed_step := d\<rparr>))
      else react_to_updated_parameters_callback rest s)"

section \<open>The publisher of the combined node\<close>

text \<open>The constructor initialises neither \<open>count_\<close> nor \<open>oper_\<close>: they are arguments of the initial state.\<close>

record PsaNode =
  psa_count :: u64
  psa_oper :: bool
  psa_published :: "(bool \<times> u64) list"

definition Psa_on_timer :: "PsaNode \<Rightarrow> PsaNode" where
  "Psa_on_timer s =
     (let moving = True;
          (count, oper, moving) =
            (if psa_count s \<le> 100 then
               (if psa_count s \<le> 0 then (0, True, False) else (psa_count s, psa_oper s, False))
             else (psa_count s, psa_oper s, moving));
          count = (if oper then count + 100 else count - 50);
          oper = (if count > 1000 then False else oper)
      in \<lparr>psa_count = count, psa_oper = oper, psa_published = psa_published s @ [(moving, count)]\<rparr>)"

section \<open>The dual subscriber\<close>

text \<open>The index of the calling thread in the static list of known threads, appended when it is new.\<close>

fun find_index :: "'a \<Rightarrow> 'a list \<Rightarrow> nat" where
  "find_index t [] = 0"
| "find_index t (x # xs) = (if x = t then 0 else Suc (find_index t xs))"

definition StringThreadId :: "'t \<Rightarrow> 't list \<Rightarrow> string \<times> 't list" where
  "StringThreadId this_thread known_thread_ids =
     (let thread_it = find_index this_thread known_thread_ids in
        if thread_it \<noteq> length known_thread_ids then (show_nat thread_it, known_thread_ids)
        else let known = known_thread_ids @ [this_thread] in (show_nat (length known - 1), known))"

definition SubscriberCb :: "string \<Rightarrow> string \<Rightarrow> 't \<Rightarrow> 't list \<Rightarrow> string \<times> 't list" where
  "SubscriberCb message_received_at data this_thread known =
     (case StringThreadId this_thread known of
        (t, known') \<Rightarrow>
          (''THREAD '' @ t @ '' => Heard '' @ [CHR 0x27] @ data @ [CHR 0x27] @ '' at '' @ message_received_at, known'))"

section \<open>The speed wave\<close>

lemma u64_less_iff: "a < 2 ^ 64 \<Longrightarrow> b < 2 ^ 64 \<Longrightarrow> (of_nat a :: u64) < of_nat b \<longleftrightarrow> a < b"
  by (simp add: word_less_nat_alt unat_of_nat take_bit_nat_eq_self)

lemma u64_zero_iff: "a < 2 ^ 64 \<Longrightarrow> (of_nat a :: u64) = 0 \<longleftrightarrow> a = 0"
  by (auto simp: word_of_nat_eq_0_iff dest: dvd_imp_le)

lemma u64_diff: "b \<le> a \<Longrightarrow> (of_nat a :: u64) - of_nat b = of_nat (a - b)"
  by (simp add: of_nat_diff)

text \<open>The counter after \<open>k\<close> calls of \<open>on_timer\<close>: up in steps of ten, down in steps of five.\<close>

definition wave :: "nat \<Rightarrow> nat" where
  "wave k = (let r = k mod 63 in if r = 0 then 0 else if r \<le> 21 then 10 * r else 210 - 5 * (r - 21))"

definition rising :: "nat \<Rightarrow> bool" where
  "rising k \<longleftrightarrow> k = 0 \<or> (0 < k mod 63 \<and> k mod 63 \<le> 20)"

lemma wave_le: "wave k \<le> 210"
  by (simp add: wave_def Let_def)

lemma wave_Suc:
  "wave (Suc k) = (if wave k = 0 then 10 else if rising k then wave k + 10 else wave k - 5)"
  "wave k = 0 \<longleftrightarrow> k mod 63 = 0"
  "rising (Suc k) \<longleftrightarrow> wave (Suc k) \<le> 200 \<and> (wave k = 0 \<or> rising k)"
proof -
  define r where "r = k mod 63"
  have r: "r < 63" by (simp add: r_def)
  have m: "Suc k mod 63 = (if r = 62 then 0 else Suc r)" by (simp add: r_def mod_Suc)
  show z: "wave k = 0 \<longleftrightarrow> k mod 63 = 0"
    using r by (auto simp: wave_def Let_def r_def)
  have k0: "k \<noteq> 0 \<or> r = 0" by (cases k) (simp_all add: r_def)
  show "wave (Suc k) = (if wave k = 0 then 10 else if rising k then wave k + 10 else wave k - 5)"
    unfolding z using r k0 by (auto simp: wave_def rising_def Let_def m r_def [symmetric])
  show "rising (Suc k) \<longleftrightarrow> wave (Suc k) \<le> 200 \<and> (wave k = 0 \<or> rising k)"
    unfolding z using r k0 by (auto simp: wave_def rising_def Let_def m r_def [symmetric])
qed

lemma on_timer_step:
  assumes "pn_count s = of_nat (wave k)" "pn_oper s \<longleftrightarrow> rising k"
  shows "pn_count (on_timer s) = of_nat (wave (Suc k))" "pn_oper (on_timer s) \<longleftrightarrow> rising (Suc k)"
    "pn_speed_scale (on_timer s) = pn_speed_scale s" "pn_speed_step (on_timer s) = pn_speed_step s"
    "published (on_timer s) = published s @
       [\<lparr>is_moving = (k mod 63 \<noteq> 0 \<and> \<not> fp_eq (pn_speed_scale s) 0),
         speed = (of_nat (wave (Suc k)), pn_speed_scale s,
                  if fp_eq (pn_speed_scale s) 0 then Fin 0 else pn_speed_step s)\<rparr>]"
proof -
  let ?w = "of_nat (wave k) :: u64" and ?w' = "of_nat (wave (Suc k)) :: u64"
  have zero: "?w = 0 \<longleftrightarrow> wave k = 0" using wave_le [of k] by (simp add: u64_zero_iff)
  have gt: "200 < ?w' \<longleftrightarrow> 200 < wave (Suc k)"
    using u64_less_iff [of 200 "wave (Suc k)"] wave_le [of "Suc k"] by simp
  have dvd: "wave k \<noteq> 0 \<Longrightarrow> \<not> rising k \<Longrightarrow> 5 \<le> wave k"
    by (auto simp: wave_def rising_def Let_def split: if_splits)
  have sub: "wave k \<noteq> 0 \<Longrightarrow> \<not> rising k \<Longrightarrow> ?w - 5 = of_nat (wave k - 5)"
    using u64_diff [of 5 "wave k"] dvd by simp
  have up: "wave k = 0 \<Longrightarrow> ?w' = 10" "wave k \<noteq> 0 \<Longrightarrow> rising k \<Longrightarrow> ?w + 10 = ?w'"
    "wave k \<noteq> 0 \<Longrightarrow> \<not> rising k \<Longrightarrow> ?w - 5 = ?w'"
    using sub by (simp_all add: wave_Suc(1))
  show "pn_count (on_timer s) = ?w'"
    using assms up zero by (cases "wave k = 0"; cases "rising k") (simp_all add: on_timer_def Let_def)
  show "pn_oper (on_timer s) \<longleftrightarrow> rising (Suc k)"
    using assms up zero gt wave_Suc(3) [of k]
    by (cases "wave k = 0"; cases "rising k") (auto simp: on_timer_def Let_def)
  show "pn_speed_scale (on_timer s) = pn_speed_scale s" "pn_speed_step (on_timer s) = pn_speed_step s"
    by (simp_all add: on_timer_def Let_def split: prod.split)
  show "published (on_timer s) = published s @
       [\<lparr>is_moving = (k mod 63 \<noteq> 0 \<and> \<not> fp_eq (pn_speed_scale s) 0),
         speed = (?w', pn_speed_scale s, if fp_eq (pn_speed_scale s) 0 then Fin 0 else pn_speed_step s)\<rparr>]"
    using assms up zero wave_Suc(2) [of k]
    by (cases "wave k = 0"; cases "rising k") (simp_all add: on_timer_def Let_def)
qed

text \<open>
  The publisher from its construction on: the counter follows the wave and stays below 211, so that
  the \<open>size_t\<close> never wraps, and the \<open>k\<close>-th message carries the next value of the wave.  The message
  that says the vehicle stands is the one after the wave has reached zero and carries the count 10,
  while the message with count zero says that it moves.
\<close>

theorem publisher_wave:
  "pn_count ((on_timer ^^ n) PublisherNode_demo_ctor) = of_nat (wave n) \<and> wave n \<le> 210 \<and> wave (n + 63) = wave n \<and>
   published ((on_timer ^^ n) PublisherNode_demo_ctor) =
     map (\<lambda>k. \<lparr>is_moving = (k mod 63 \<noteq> 0), speed = (of_nat (wave (Suc k)), Fin (1 / 10), Fin 0)\<rparr>) [0..<n] \<and>
   wave (63 * n) = 0 \<and> wave (63 * n + 1) = 10"
proof -
  let ?s = "\<lambda>n. (on_timer ^^ n) PublisherNode_demo_ctor"
  have "pn_count (?s n) = of_nat (wave n) \<and> (pn_oper (?s n) \<longleftrightarrow> rising n) \<and>
      pn_speed_scale (?s n) = Fin (1 / 10) \<and> pn_speed_step (?s n) = Fin 0 \<and>
      published (?s n) =
        map (\<lambda>k. \<lparr>is_moving = (k mod 63 \<noteq> 0), speed = (of_nat (wave (Suc k)), Fin (1 / 10), Fin 0)\<rparr>) [0..<n]"
  proof (induction n)
    case 0
    show ?case by (simp add: PublisherNode_demo_ctor_def wave_def rising_def)
  next
    case (Suc n)
    then show ?case using on_timer_step [of "?s n" n] by simp
  qed
  then show ?thesis using wave_le [of n] by (simp add: wave_def Let_def)
qed

section \<open>The parameter callbacks\<close>

text \<open>What passes both comparisons: a number in the range, or a NaN.\<close>

definition in_range :: "rat \<Rightarrow> rat \<Rightarrow> float64 \<Rightarrow> bool" where
  "in_range lo hi d \<longleftrightarrow> \<not> fp_less d lo \<and> \<not> fp_greater d hi"

lemma in_range_cases: "in_range lo hi d \<longleftrightarrow> d = NaN \<or> (\<exists>x. d = Fin x \<and> lo \<le> x \<and> x \<le> hi)"
  by (cases d) (auto simp: in_range_def)

definition acceptable :: "string \<times> ParameterValue \<Rightarrow> bool" where
  "acceptable p \<longleftrightarrow>
     (fst p = ''param_speed_scale'' \<longrightarrow> (\<exists>d. snd p = PDouble d \<and> in_range 0 1 d)) \<and>
     (fst p = ''param_speed_step'' \<longrightarrow> (\<exists>d. snd p = PDouble d \<and> in_range 0 10 d))"

lemma validate_successful_iff:
  "(\<exists>w. validate_upcoming_parameters_callback ps = Inr \<lparr>successful = True, reason = w\<rparr>) \<longleftrightarrow> list_all acceptable ps"
  by (induction ps rule: validate_upcoming_parameters_callback.induct)
    (auto simp: get_double_def acceptable_def in_range_def split: ParameterValue.split sum.split)

lemma react_acceptable:
  "list_all acceptable ps \<Longrightarrow> in_range 0 1 (pn_speed_scale s) \<Longrightarrow> in_range 0 10 (pn_speed_step s) \<Longrightarrow>
   \<exists>s'. react_to_updated_parameters_callback ps s = Inr s' \<and>
     in_range 0 1 (pn_speed_scale s') \<and> in_range 0 10 (pn_speed_step s') \<and>
     pn_count s' = pn_count s \<and> published s' = published s"
  by (induction ps s rule: react_to_updated_parameters_callback.induct) (auto simp: acceptable_def get_double_def)

lemma modify_defined_iff:
  "modify_upcoming_parameters_callback ps = (if ''param_speed_scale'' \<in> set (map fst ps) then None else Some ps)"
  by (induction ps) auto

text \<open>
  Setting parameters.  The validation succeeds exactly when every value for the scale is in [0, 1]
  and every value for the step in [0, 10], a NaN counting as in range; then the node takes the values
  over without an exception and its own stay in range.  The callback that runs before the
  validation leaves the list alone when it does not name the scale, and is undefined when it does.
\<close>

theorem parameter_callbacks:
  assumes "in_range 0 1 (pn_speed_scale s)" "in_range 0 10 (pn_speed_step s)"
  shows "((\<exists>w. validate_upcoming_parameters_callback ps = Inr \<lparr>successful = True, reason = w\<rparr>) \<longleftrightarrow> list_all acceptable ps) \<and>
    (list_all acceptable ps \<longrightarrow>
      (\<exists>s'. react_to_updated_parameters_callback ps s = Inr s' \<and>
         in_range 0 1 (pn_speed_scale s') \<and> in_range 0 10 (pn_speed_step s'))) \<and>
    modify_upcoming_parameters_callback ps =
      (if ''param_speed_scale'' \<in> set (map fst ps) then None else Some ps)"
  using validate_successful_iff [of ps] react_acceptable [of ps s] assms modify_defined_iff [of ps] by blast

theorem parameter_callbacks_witness:
  "in_range 0 1 (pn_speed_scale PublisherNode_demo_ctor) \<and> in_range 0 10 (pn_speed_step PublisherNode_demo_ctor) \<and>
   (\<exists>w. validate_upcoming_parameters_callback [(''param_speed_step'', PDouble (Fin 3)), (''other'', PNotDouble)] =
      Inr \<lparr>successful = True, reason = w\<rparr>)"
proof -
  have r: "in_range 0 1 (pn_speed_scale PublisherNode_demo_ctor)" "in_range 0 10 (pn_speed_step PublisherNode_demo_ctor)"
    by (simp_all add: in_range_def PublisherNode_demo_ctor_def)
  have "list_all acceptable [(''param_speed_step'', PDouble (Fin 3)), (''other'', PNotDouble)]"
    by (simp add: acceptable_def in_range_def)
  then show ?thesis
    using parameter_callbacks [OF r, of "[(''param_speed_step'', PDouble (Fin 3)), (''other'', PNotDouble)]"] r by blast
qed

section \<open>The combined publisher\<close>

definition psa_wave :: "nat \<Rightarrow> nat" where
  "psa_wave k = (let r = k mod 33 in if r \<le> 11 then 100 * r else 1100 - 50 * (r - 11))"

definition psa_rising :: "nat \<Rightarrow> bool" where
  "psa_rising k \<longleftrightarrow> 0 < k mod 33 \<and> k mod 33 \<le> 10"

lemma psa_wave_le: "psa_wave k \<le> 1100"
  by (simp add: psa_wave_def Let_def)

lemma psa_wave_Suc:
  "psa_wave (Suc k) = (if psa_wave k = 0 then 100 else if psa_rising k then psa_wave k + 100 else psa_wave k - 50)"
  "psa_wave k = 0 \<longleftrightarrow> k mod 33 = 0"
  "psa_rising (Suc k) \<longleftrightarrow> psa_wave (Suc k) \<le> 1000 \<and> (psa_wave k = 0 \<or> psa_rising k)"
proof -
  define r where "r = k mod 33"
  have r: "r < 33" by (simp add: r_def)
  have m: "Suc k mod 33 = (if r = 32 then 0 else Suc r)" by (simp add: r_def mod_Suc)
  show z: "psa_wave k = 0 \<longleftrightarrow> k mod 33 = 0"
    using r by (auto simp: psa_wave_def Let_def r_def)
  show "psa_wave (Suc k) = (if psa_wave k = 0 then 100 else if psa_rising k then psa_wave k + 100 else psa_wave k - 50)"
    unfolding z using r by (auto simp: psa_wave_def psa_rising_def Let_def m r_def [symmetric])
  show "psa_rising (Suc k) \<longleftrightarrow> psa_wave (Suc k) \<le> 1000 \<and> (psa_wave k = 0 \<or> psa_rising k)"
    unfolding z using r by (auto simp: psa_wave_def psa_rising_def Let_def m r_def [symmetric])
qed

lemma Psa_on_timer_step:
  assumes "psa_count s = of_nat (psa_wave k)" "psa_wave k \<noteq> 0 \<longrightarrow> (psa_oper s \<longleftrightarrow> psa_rising k)"
  shows "psa_count (Psa_on_timer s) = of_nat (psa_wave (Suc k))"
    "psa_wave (Suc k) \<noteq> 0 \<longrightarrow> (psa_oper (Psa_on_timer s) \<longleftrightarrow> psa_rising (Suc k))"
    "psa_published (Psa_on_timer s) = psa_published s @ [(psa_wave k > 100, of_nat (psa_wave (Suc k)))]"
proof -
  let ?w = "of_nat (psa_wave k) :: u64" and ?w' = "of_nat (psa_wave (Suc k)) :: u64"
  have zero: "?w = 0 \<longleftrightarrow> psa_wave k = 0" using psa_wave_le [of k] by (simp add: u64_zero_iff)
  have low: "?w \<le> 100 \<longleftrightarrow> psa_wave k \<le> 100"
    using u64_less_iff [of 100 "psa_wave k"] psa_wave_le [of k] by (simp add: not_less [symmetric])
  have gt: "1000 < ?w' \<longleftrightarrow> 1000 < psa_wave (Suc k)"
    using u64_less_iff [of 1000 "psa_wave (Suc k)"] psa_wave_le [of "Suc k"] by simp
  have dvd: "psa_wave k \<noteq> 0 \<Longrightarrow> 50 \<le> psa_wave k"
    by (auto simp: psa_wave_def Let_def split: if_splits)
  have up: "psa_wave k = 0 \<Longrightarrow> ?w' = 100" "psa_wave k \<noteq> 0 \<Longrightarrow> psa_rising k \<Longrightarrow> ?w + 100 = ?w'"
    "psa_wave k \<noteq> 0 \<Longrightarrow> \<not> psa_rising k \<Longrightarrow> ?w - 50 = ?w'"
    using u64_diff [of 50 "psa_wave k"] dvd by (simp_all add: psa_wave_Suc(1))
  show "psa_count (Psa_on_timer s) = ?w'"
    using assms up zero low by (cases "psa_wave k = 0"; cases "psa_rising k") (simp_all add: Psa_on_timer_def Let_def)
  show "psa_wave (Suc k) \<noteq> 0 \<longrightarrow> (psa_oper (Psa_on_timer s) \<longleftrightarrow> psa_rising (Suc k))"
    using assms up zero low gt psa_wave_Suc(3) [of k]
    by (cases "psa_wave k = 0"; cases "psa_rising k") (auto simp: Psa_on_timer_def Let_def)
  show "psa_published (Psa_on_timer s) = psa_published s @ [(psa_wave k > 100, ?w')]"
    using assms up zero low
    by (cases "psa_wave k = 0"; cases "psa_rising k") (simp_all add: Psa_on_timer_def Let_def not_le)
qed

text \<open>
  The combined publisher when the memory of its counter happens to be zero: a wave with a period of
  33 ticks.  With other contents the wave is missed: a count of 25 on the way down wraps to
  \<open>2 ^ 64 - 25\<close>, published as an engine speed.
\<close>

theorem combined_publisher_wave:
  "psa_published ((Psa_on_timer ^^ n) \<lparr>psa_count = 0, psa_oper = oper, psa_published = []\<rparr>) =
     map (\<lambda>k. (psa_wave k > 100, of_nat (psa_wave (Suc k)))) [0..<n] \<and>
   psa_wave (n + 33) = psa_wave n \<and> psa_wave n \<le> 1100 \<and>
   psa_published (Psa_on_timer \<lparr>psa_count = 25, psa_oper = False, psa_published = []\<rparr>) = [(False, - 25)]"
proof -
  let ?s = "\<lambda>n. (Psa_on_timer ^^ n) \<lparr>psa_count = 0, psa_oper = oper, psa_published = []\<rparr>"
  have "psa_count (?s n) = of_nat (psa_wave n) \<and> (psa_wave n \<noteq> 0 \<longrightarrow> (psa_oper (?s n) \<longleftrightarrow> psa_rising n)) \<and>
     psa_published (?s n) = map (\<lambda>k. (psa_wave k > 100, of_nat (psa_wave (Suc k)))) [0..<n]"
  proof (induction n)
    case (Suc n)
    then show ?case using Psa_on_timer_step [of "?s n" n] by simp
  qed (simp add: psa_wave_def)
  then show ?thesis using psa_wave_le [of n] by (simp add: psa_wave_def Psa_on_timer_def Let_def)
qed

section \<open>Thread numbers\<close>

lemma find_index_eq_length: "find_index t xs = length xs \<longleftrightarrow> t \<notin> set xs"
  by (induction xs) auto

lemma find_index_append: "t \<in> set xs \<Longrightarrow> find_index t (xs @ ys) = find_index t xs"
  by (induction xs) auto

lemma find_index_last: "t \<notin> set xs \<Longrightarrow> find_index t (xs @ [t]) = length xs"
  by (induction xs) auto

lemma find_index_inject: "t \<in> set xs \<Longrightarrow> find_index t xs = find_index u xs \<longleftrightarrow> t = u"
  by (induction xs) auto

lemma StringThreadId_spec:
  "StringThreadId t known =
     (show_nat (find_index t (snd (StringThreadId t known))), if t \<in> set known then known else known @ [t])"
  by (auto simp: StringThreadId_def Let_def find_index_eq_length find_index_last)

text \<open>
  The number a thread is printed with is its own: it stays the same whatever threads call later, and
  two threads that have called have different numbers.
\<close>

theorem thread_numbers:
  fixes ts :: "'t list"
  defines "known \<equiv> \<lambda>us. fold (\<lambda>t k. snd (StringThreadId t k)) us []"
  shows "set (known ts) = set ts \<and> distinct (known ts) \<and>
    (\<forall>t \<in> set ts. \<forall>u \<in> set ts. (fst (StringThreadId t (known ts)) = fst (StringThreadId u (known ts))) = (t = u)) \<and>
    (\<forall>t \<in> set ts. fst (StringThreadId t (known (ts @ us))) = fst (StringThreadId t (known ts)))"
proof -
  let ?step = "\<lambda>t k. snd (StringThreadId t k)"
  have step: "?step t k = (if t \<in> set k then k else k @ [t])" for t and k :: "'t list"
    by (subst StringThreadId_spec) simp
  have d: "distinct k \<Longrightarrow> distinct (fold ?step vs k) \<and> set (fold ?step vs k) = set k \<union> set vs \<and>
      (\<exists>e. fold ?step vs k = k @ e)" for vs and k :: "'t list"
  proof (induction vs arbitrary: k)
    case (Cons v vs)
    have "distinct (?step v k)" "set (?step v k) = insert v (set k)" "\<exists>e. ?step v k = k @ e"
      using Cons.prems by (auto simp: step)
    then show ?case using Cons.IH [of "?step v k"] by auto
  qed simp
  have s: "set (known ts) = set ts" "distinct (known ts)" using d [of "[]" ts] by (simp_all add: known_def)
  obtain e where e: "known (ts @ us) = known ts @ e" using d [OF s(2), of us] by (auto simp: known_def)
  have num: "t \<in> set k \<Longrightarrow> fst (StringThreadId t k) = show_nat (find_index t k)" for t and k :: "'t list"
    by (simp add: StringThreadId_def Let_def find_index_eq_length)
  show ?thesis using s by (auto simp: num e find_index_inject find_index_append)
qed

end
