(* ===== verification/Demo_Services.thy ===== *)
theory Demo_Services
  imports Mw_Prelude
begin

text \<open>
  The calibration service of the ROS 2 demonstration nodes: the server and client of
  \<open>demo_to_cat/src/services\<close> and the variants of both in \<open>combined/pub_serviceserver_accli.cpp\<close> and
  \<open>combined/sub_serviceclient.cpp\<close>.  Shown: which sensor a client asks for at which tick of its timer and
  how long it grants, that a client sends exactly one request once the service is there, what the
  server answers, and that the combined server calibrates nothing.

  What \<open>wait_for_service\<close> and \<open>rclcpp::ok\<close> report is a list of polls; with the list used up the client is
  still waiting.  Sleeps and log output are left out, except for the text of a response.
\<close>

section \<open>Messages\<close>

record SensorCalibration_Request =
  sensor_id :: string
  timeout :: u32

record SensorCalibration_Response =
  is_calibrated :: bool
  error_margin :: byte
  response :: string

definition Request_new :: SensorCalibration_Request where
  "Request_new = \<lparr>sensor_id = [], timeout = 0\<rparr>"

definition Response_new :: SensorCalibration_Response where
  "Response_new = \<lparr>is_calibrated = False, error_margin = 0, response = []\<rparr>"

definition SENSOR_STEERING_ANGLE :: string where "SENSOR_STEERING_ANGLE = ''steering_angle''"
definition SENSOR_TEMPERATURE :: string where "SENSOR_TEMPERATURE = ''temperature''"

section \<open>The server\<close>

definition handle_sensor_calibration ::
  "SensorCalibration_Request \<Rightarrow> SensorCalibration_Response \<Rightarrow> SensorCalibration_Response" where
  "handle_sensor_calibration request r =
     (if sensor_id request = SENSOR_STEERING_ANGLE then
        r\<lparr>is_calibrated := True, error_margin := 0, response := SENSOR_STEERING_ANGLE @ '' Successfully Calibrated''\<rparr>
      else if sensor_id request = SENSOR_TEMPERATURE then
        r\<lparr>is_calibrated := True, response := SENSOR_TEMPERATURE @ '' Successfully Calibrated'', error_margin := 0\<rparr>
      else
        r\<lparr>is_calibrated := False, response := ''Unknown Sensor Id to Calibration Failed'', error_margin := 3\<rparr>)"

text \<open>
  The handler of the combined node: the second test is not an \<open>else\<close> of the first, so that its own
  \<open>else\<close> also follows the first branch.
\<close>

definition handle_set_bool ::
  "SensorCalibration_Request \<Rightarrow> SensorCalibration_Response \<Rightarrow> SensorCalibration_Response" where
  "handle_set_bool request r =
     (let r = (if sensor_id request = SENSOR_STEERING_ANGLE then
                 r\<lparr>is_calibrated := True, error_margin := 0, response := ''Successfully Calibrated''\<rparr>
               else r)
      in if sensor_id request = SENSOR_TEMPERATURE then
           r\<lparr>is_calibrated := False, response := ''Calibrated Failed'', error_margin := 2\<rparr>
         else r\<lparr>is_calibrated := False, response := ''Unknown Sensor Id to Calibrate!'', error_margin := 3\<rparr>)"

section \<open>The client\<close>

datatype queued = Sent SensorCalibration_Request | Interrupted | Waiting

text \<open>\<open>while(!client_->wait_for_service(1s)) if(!rclcpp::ok()) return;\<close>\<close>

fun wait_for_service :: "(bool \<times> bool) list \<Rightarrow> bool option" where
  "wait_for_service [] = None"
| "wait_for_service ((available, ok) # polls) =
     (if available then Some True else if \<not> ok then Some False else wait_for_service polls)"

definition queue_request ::
  "(string \<Rightarrow> u32) \<Rightarrow> string \<Rightarrow> (bool \<times> bool) list \<Rightarrow> queued" where
  "queue_request granted sensor polls =
     (case wait_for_service polls of
        None \<Rightarrow> Waiting
      | Some False \<Rightarrow> Interrupted
      | Some True \<Rightarrow> Sent (Request_new\<lparr>sensor_id := sensor, timeout := granted sensor\<rparr>))"

definition QueueAsyncRequest :: "string \<Rightarrow> (bool \<times> bool) list \<Rightarrow> queued" where
  "QueueAsyncRequest =
     queue_request (\<lambda>sensor. if sensor = SENSOR_STEERING_ANGLE then 30
                             else if sensor = SENSOR_TEMPERATURE then 20 else 10)"

definition Combined_QueueAsyncRequest :: "string \<Rightarrow> (bool \<times> bool) list \<Rightarrow> queued" where
  "Combined_QueueAsyncRequest =
     queue_request (\<lambda>sensor. if sensor = SENSOR_STEERING_ANGLE then 500
                             else if sensor = SENSOR_TEMPERATURE then 200 else 10)"

text \<open>
  The callbacks of the timer, with the static counter: the sensor the next request is for.  Both
  take the new counter modulo 3 and modulo 7; they differ in what they ask for otherwise.
\<close>

definition OnTimerAsync_callback :: "int \<Rightarrow> int \<times> string" where
  "OnTimerAsync_callback counter =
     (let counter = counter + 1
      in (counter,
          if counter mod 3 = 0 then SENSOR_STEERING_ANGLE
          else if counter mod 7 = 0 then ''unknown_sensor_id''
          else SENSOR_TEMPERATURE))"

definition Combined_OnTimerAsync_callback :: "int \<Rightarrow> int \<times> string" where
  "Combined_OnTimerAsync_callback counter =
     (let counter = counter + 1
      in (counter,
          if counter mod 3 = 0 then SENSOR_STEERING_ANGLE
          else if counter mod 7 = 0 then SENSOR_TEMPERATURE
          else ''unknown_sensor_id''))"

text \<open>\<open>OnTimerAsync\<close>: a timer that runs is cancelled and its counter reset.\<close>

record ClientNode =
  timer_running :: bool
  timer_counter :: int

definition OnTimerAsync :: "ClientNode \<Rightarrow> ClientNode" where
  "OnTimerAsync c = c\<lparr>timer_counter := (if timer_running c then 0 else timer_counter c), timer_running := True\<rparr>"

text \<open>
  The constructor: the first request is for the temperature, then the timer is started.  It does
  not return while the service is not available.
\<close>

definition ClientNode_ctor :: "(bool \<times> bool) list \<Rightarrow> (queued \<times> ClientNode) option" where
  "ClientNode_ctor polls =
     (case QueueAsyncRequest SENSOR_TEMPERATURE polls of
        Waiting \<Rightarrow> None
      | q \<Rightarrow> Some (q, OnTimerAsync \<lparr>timer_running = False, timer_counter = 0\<rparr>))"

definition client_tick :: "ClientNode \<Rightarrow> (bool \<times> bool) list \<Rightarrow> queued \<times> ClientNode" where
  "client_tick c polls =
     (case OnTimerAsync_callback (timer_counter c) of
        (counter, sensor) \<Rightarrow> (QueueAsyncRequest sensor polls, c\<lparr>timer_counter := counter\<rparr>))"

text \<open>What the client prints of a response.\<close>

definition show_bool :: "bool \<Rightarrow> string" where
  "show_bool b = (if b then ''1'' else ''0'')"

definition response_received_callback :: "SensorCalibration_Response \<Rightarrow> string" where
  "response_received_callback result =
     ''ServiceClient:Is Calibrated = '' @ show_bool (is_calibrated result) @ '', Response = '' @ response result"

section \<open>Lemmas\<close>

lemma wait_for_service_available: "wait_for_service (replicate k (False, True) @ (True, ok) # rest) = Some True"
  by (induction k) simp_all

lemmas calibration_defs = handle_sensor_calibration_def SENSOR_STEERING_ANGLE_def SENSOR_TEMPERATURE_def Response_new_def

section \<open>Properties\<close>

text \<open>
  A tick of the client against the server.  However often the service was not available yet, the \<open>n\<close>-th tick after
  construction sends one request; it is calibrated unless \<open>n\<close> is a multiple of 7 and not of 3, and
  the server's answer names the sensor the request was for.
\<close>

theorem calibration_round:
  assumes "timer_counter c = int n"
  shows "\<exists>req. client_tick c (replicate k (False, True) @ (True, ok) # rest) = (Sent req, c\<lparr>timer_counter := int (Suc n)\<rparr>) \<and>
    is_calibrated (handle_sensor_calibration req Response_new) =
      (Suc n mod 3 = 0 \<or> Suc n mod 7 \<noteq> 0) \<and>
    timeout req \<in> {10, 20, 30} \<and>
    (is_calibrated (handle_sensor_calibration req Response_new) \<longrightarrow>
       response (handle_sensor_calibration req Response_new) = sensor_id req @ '' Successfully Calibrated'' \<and>
       error_margin (handle_sensor_calibration req Response_new) = 0)"
proof -
  have m: "(int n + 1) mod 3 = 0 \<longleftrightarrow> Suc n mod 3 = 0" "(int n + 1) mod 7 = 0 \<longleftrightarrow> Suc n mod 7 = 0" by presburger+
  show ?thesis
    using assms
    by (cases "Suc n mod 3 = 0"; cases "Suc n mod 7 = 0")
      (simp_all add: client_tick_def OnTimerAsync_callback_def QueueAsyncRequest_def queue_request_def Let_def m
        Request_new_def calibration_defs wait_for_service_available add.commute [of 1])
qed

theorem calibration_round_witness:
  "\<exists>req. client_tick \<lparr>timer_running = True, timer_counter = 6\<rparr> [(False, True), (True, True)] =
     (Sent req, \<lparr>timer_running = True, timer_counter = 7\<rparr>) \<and>
   \<not> is_calibrated (handle_sensor_calibration req Response_new)"
  using calibration_round [of "\<lparr>timer_running = True, timer_counter = 6\<rparr>" 6 1 True "[]"] by auto

text \<open>
  The combined server calibrates nothing: the answer is negative for every request, and a request for
  the steering angle, which the first branch accepts, is answered as one for an unknown sensor.
\<close>

theorem combined_server_never_calibrates:
  "\<not> is_calibrated (handle_set_bool request r) \<and>
   handle_set_bool (request\<lparr>sensor_id := SENSOR_STEERING_ANGLE\<rparr>) r =
     handle_set_bool (request\<lparr>sensor_id := ''unknown_sensor_id''\<rparr>) r \<and>
   is_calibrated (handle_sensor_calibration (request\<lparr>sensor_id := SENSOR_STEERING_ANGLE\<rparr>) r)"
  by (simp add: handle_set_bool_def calibration_defs Let_def)

end
