(* ===== verification/Demo_Actions.thy ===== *)
theory Demo_Actions
  imports Mw_Prelude
begin

text \<open>
  The actions of the ROS 2 demonstration nodes: the firmware update (\<open>demo_to_cat/src/actions\<close>) and the
  Fibonacci action of the combined nodes (\<open>combined/sub_acser.cpp\<close>, client in
  \<open>combined/pub_serviceserver_accli.cpp\<close>).  Shown: what an execution publishes and how it ends, that a
  client and a server of the firmware action exchange at most two goals, and for which orders the
  Fibonacci server computes the numbers before its 32-bit addition overflows.

  A goal handle records the feedback published on it and how the goal ended.  The environment of an
  execution is \<open>ok k\<close>, the result of its \<open>k\<close>-th call of \<open>rclcpp::ok\<close>, and \<open>canceling i\<close>, whether a cancel
  request is seen in round \<open>i\<close>.
\<close>

section \<open>The firmware server\<close>

record Firmware_Goal =
  firmware_version :: string
  hardware_module :: string
  reboot :: bool

record Firmware_Result =
  update_successful :: bool
  installed_version :: string
  error_code :: u32

datatype 'r goal_end = Succeeded 'r | Canceled 'r

record ('f, 'r) goal_handle =
  feedbacks :: "'f list"
  ended :: "'r goal_end option"

definition new_handle :: "('f, 'r) goal_handle" where
  "new_handle = \<lparr>feedbacks = [], ended = None\<rparr>"

datatype GoalResponse = REJECT | ACCEPT_AND_EXECUTE

record ActionServer =
  version :: string

definition ActionServer_ctor :: ActionServer where
  "ActionServer_ctor = \<lparr>version = ''10.0.0''\<rparr>"

definition HandleGoal :: "ActionServer \<Rightarrow> Firmware_Goal \<Rightarrow> GoalResponse" where
  "HandleGoal s goal = (if firmware_version goal = version s then REJECT else ACCEPT_AND_EXECUTE)"

definition phase_of :: "int \<Rightarrow> string" where
  "phase_of i =
     (if i < 3 then ''Downloading...''
      else if i = 3 then ''Downloaded''
      else if i \<le> 8 then ''Installing...''
      else if i < 9 then ''Installed''
      else ''Fireware Upgraded.'')"

text \<open>
  The loop from round \<open>i\<close> on.  It ends by cancellation (\<open>None\<close>), or returns the number of calls of
  \<open>rclcpp::ok\<close> made so far: the condition \<open>(i < 11) && rclcpp::ok()\<close> makes no call when \<open>i\<close> is 11.
\<close>

function Execute_loop ::
  "(nat \<Rightarrow> bool) \<Rightarrow> (nat \<Rightarrow> bool) \<Rightarrow> nat \<Rightarrow> (string, Firmware_Result) goal_handle
     \<Rightarrow> nat option \<times> (string, Firmware_Result) goal_handle" where
  "Execute_loop ok canceling i h =
     (if \<not> i < 11 then (Some (i - 1), h)
      else if \<not> ok i then (Some i, h)
      else if canceling i then
        (None, h\<lparr>ended := Some (Canceled \<lparr>update_successful = False, installed_version = [], error_code = 2\<rparr>)\<rparr>)
      else Execute_loop ok canceling (i + 1) (h\<lparr>feedbacks := feedbacks h @ [phase_of (int i)]\<rparr>))"
  by auto
termination
  by (relation "measure (\<lambda>(_, _, i, _). 11 - i)") auto

declare Execute_loop.simps [simp del]

definition Execute ::
  "(nat \<Rightarrow> bool) \<Rightarrow> (nat \<Rightarrow> bool) \<Rightarrow> Firmware_Goal \<Rightarrow> ActionServer \<Rightarrow> ActionServer \<times> (string, Firmware_Result) goal_handle" where
  "Execute ok canceling goal s =
     (case Execute_loop ok canceling 1 new_handle of
        (None, h) \<Rightarrow> (s, h)
      | (Some calls, h) \<Rightarrow>
          if ok (calls + 1) then
            (s\<lparr>version := firmware_version goal\<rparr>,
             h\<lparr>ended := Some (Succeeded \<lparr>update_successful = True, installed_version = [], error_code = 0\<rparr>)\<rparr>)
          else (s, h))"

section \<open>The firmware client\<close>

record ActionClient =
  has_client :: bool
  timer_active :: bool
  goal_done :: bool
  param_version :: string
  sent_goals :: "Firmware_Goal list"

definition ActionClient_ctor :: "string \<Rightarrow> ActionClient" where
  "ActionClient_ctor v =
     \<lparr>has_client = True, timer_active = True, goal_done = False, param_version = v, sent_goals = []\<rparr>"

text \<open>
  \<open>SendGoal\<close>: the missing client is logged and then dereferenced; without a server no goal is sent
  and the timer stays cancelled.
\<close>

definition SendGoal :: "bool \<Rightarrow> ActionClient \<Rightarrow> (Firmware_Goal option \<times> ActionClient) cpp" where
  "SendGoal server_available c =
     (let c = c\<lparr>timer_active := False, goal_done := False\<rparr>
      in if \<not> has_client c then Inl NullDereference
         else if \<not> server_available then Inr (None, c\<lparr>goal_done := True\<rparr>)
         else
           (let goal_msg = \<lparr>firmware_version = param_version c, hardware_module = [], reboot = False\<rparr>
            in Inr (Some goal_msg, c\<lparr>sent_goals := sent_goals c @ [goal_msg]\<rparr>)))"

datatype ResultCode = SUCCEEDED | ABORTED | CANCELED | UNKNOWN

definition ResultCallback :: "ResultCode \<Rightarrow> ActionClient \<Rightarrow> ActionClient" where
  "ResultCallback code c =
     (case code of
        SUCCEEDED \<Rightarrow> c\<lparr>timer_active := True\<rparr>
      | ABORTED \<Rightarrow> c
      | CANCELED \<Rightarrow> c
      | UNKNOWN \<Rightarrow> c)"

text \<open>
  One expiry of the client's timer with a server: a rejected goal is only logged; an accepted one is
  executed, and the end of the execution reaches the result callback.  An execution that leaves its
  goal open sends no result.
\<close>

definition result_of :: "'r goal_end option \<Rightarrow> ResultCode option" where
  "result_of e = (case e of None \<Rightarrow> None | Some (Succeeded _) \<Rightarrow> Some SUCCEEDED | Some (Canceled _) \<Rightarrow> Some CANCELED)"

definition firmware_round ::
  "(nat \<Rightarrow> bool) \<Rightarrow> (nat \<Rightarrow> bool) \<Rightarrow> bool \<Rightarrow> ActionClient \<times> ActionServer \<Rightarrow> (ActionClient \<times> ActionServer) cpp" where
  "firmware_round ok canceling server_available cs =
     (case cs of (c, s) \<Rightarrow>
        if \<not> timer_active c then Inr (c, s)
        else
          (case SendGoal server_available c of
             Inl e \<Rightarrow> Inl e
           | Inr (None, c') \<Rightarrow> Inr (c', s)
           | Inr (Some goal, c') \<Rightarrow>
               (case HandleGoal s goal of
                  REJECT \<Rightarrow> Inr (c', s)
                | ACCEPT_AND_EXECUTE \<Rightarrow>
                    (case Execute ok canceling goal s of
                       (s', h) \<Rightarrow>
                         Inr (case result_of (ended h) of None \<Rightarrow> c' | Some code \<Rightarrow> ResultCallback code c', s')))))"

fun firmware_rounds ::
  "((nat \<Rightarrow> bool) \<times> (nat \<Rightarrow> bool) \<times> bool) list \<Rightarrow> ActionClient \<times> ActionServer \<Rightarrow> (ActionClient \<times> ActionServer) cpp" where
  "firmware_rounds [] cs = Inr cs"
| "firmware_rounds ((ok, canceling, available) # rest) cs =
     (case firmware_round ok canceling available cs of Inl e \<Rightarrow> Inl e | Inr cs' \<Rightarrow> firmware_rounds rest cs')"

section \<open>The Fibonacci server\<close>

definition Fibonacci_HandleGoal :: "int \<Rightarrow> GoalResponse" where
  "Fibonacci_HandleGoal order = (if order > 9000 then REJECT else ACCEPT_AND_EXECUTE)"

definition INT32_MAX :: int where "INT32_MAX = 2 ^ 31 - 1"

text \<open>
  The loop from round \<open>i\<close> on.  A sum beyond the range of \<open>int32_t\<close> is undefined behaviour: \<open>None\<close>.
  Otherwise the result tells whether the goal was cancelled, or how many calls of \<open>rclcpp::ok\<close> were made.
\<close>

function Fibonacci_loop ::
  "(nat \<Rightarrow> bool) \<Rightarrow> (nat \<Rightarrow> bool) \<Rightarrow> int \<Rightarrow> nat \<Rightarrow> int list \<Rightarrow> (int list, int list) goal_handle
     \<Rightarrow> (nat option \<times> int list \<times> (int list, int list) goal_handle) option" where
  "Fibonacci_loop ok canceling order i sequence h =
     (if \<not> int i < order then Some (Some (i - 1), sequence, h)
      else if \<not> ok i then Some (Some i, sequence, h)
      else if canceling i then Some (None, sequence, h\<lparr>ended := Some (Canceled sequence)\<rparr>)
      else
        (let sum = sequence ! i + sequence ! (i - 1)
         in if sum > INT32_MAX then None
            else
              (let sequence = sequence @ [sum]
               in Fibonacci_loop ok canceling order (i + 1) sequence (h\<lparr>feedbacks := feedbacks h @ [sequence]\<rparr>))))"
  by auto
termination
  by (relation "measure (\<lambda>(_, _, order, i, _, _). nat order - i)") auto

declare Fibonacci_loop.simps [simp del]

definition Fibonacci_Execute ::
  "(nat \<Rightarrow> bool) \<Rightarrow> (nat \<Rightarrow> bool) \<Rightarrow> int \<Rightarrow> (int list, int list) goal_handle option" where
  "Fibonacci_Execute ok canceling order =
     (case Fibonacci_loop ok canceling order 1 [0, 1] new_handle of
        None \<Rightarrow> None
      | Some (None, _, h) \<Rightarrow> Some h
      | Some (Some calls, sequence, h) \<Rightarrow>
          Some (if ok (calls + 1) then h\<lparr>ended := Some (Succeeded sequence)\<rparr> else h))"

section \<open>The Fibonacci client\<close>

text \<open>\<open>static_cast<int32_t>(order_)\<close> of the 64-bit parameter.\<close>

definition goal_order :: "int \<Rightarrow> int" where
  "goal_order order = (order + 2 ^ 31) mod 2 ^ 32 - 2 ^ 31"

text \<open>The text of a result, each number followed by a blank.\<close>

definition Fibonacci_ResultCallback :: "int list \<Rightarrow> string" where
  "Fibonacci_ResultCallback sequence = ''Result received: '' @ concat (map (\<lambda>number. show_int number @ '' '') sequence)"

text \<open>\<open>feedback->sequence.back()\<close>: undefined on an empty sequence.\<close>

definition Fibonacci_FeedbackCallback :: "int list \<Rightarrow> string option" where
  "Fibonacci_FeedbackCallback sequence =
     (if sequence = [] then None
      else Some (''[ActionClient]: Next number in sequence received: '' @ show_int (List.last sequence)))"

section \<open>Executions of the firmware action\<close>

definition phases :: "string list" where
  "phases = map (\<lambda>i. phase_of (int i)) [1..<11]"

text \<open>What the loop does from round \<open>i\<close> on, having published the phases before it.\<close>

lemma Execute_loop_outcome:
  assumes "i \<le> 11" "1 \<le> i" "ended h = None" "feedbacks h = take (i - 1) phases"
    "Execute_loop ok canceling i h = (r, h')"
  shows "\<exists>n. feedbacks h' = take n phases \<and>
     (case r of
        None \<Rightarrow> \<exists>res. ended h' = Some (Canceled res) \<and> \<not> update_successful res
      | Some calls \<Rightarrow> ended h' = None \<and> (feedbacks h' = phases \<and> calls = 10 \<or> \<not> ok calls))"
  using assms
proof (induction ok canceling i h rule: Execute_loop.induct)
  case (1 ok canceling i h)
  note prems = "1.prems"
  have len: "length phases = 10" by (simp add: phases_def)
  show ?case
  proof (cases "i < 11 \<and> ok i \<and> \<not> canceling i")
    case True
    let ?h = "h\<lparr>feedbacks := feedbacks h @ [phase_of (int i)]\<rparr>"
    have "take i phases = take (i - 1) phases @ [phases ! (i - 1)]"
    proof -
      have "i - 1 < length phases" "Suc (i - 1) = i" using True prems(2) len by auto
      then show ?thesis using take_Suc_conv_app_nth [of "i - 1" phases] by simp
    qed
    moreover have "phases ! (i - 1) = phase_of (int i)"
      using True prems(2) by (cases i) (auto simp: phases_def)
    ultimately have "feedbacks ?h = take (i + 1 - 1) phases"
      using prems(4) by simp
    moreover have "Execute_loop ok canceling (i + 1) ?h = (r, h')"
      using prems(5) True by (simp add: Execute_loop.simps [of ok canceling i h])
    ultimately show ?thesis using "1.IH" True prems by simp
  next
    case False
    show ?thesis
    proof (cases "i < 11 \<and> ok i")
      case True
      then have "r = None" "feedbacks h' = feedbacks h"
        "ended h' = Some (Canceled \<lparr>update_successful = False, installed_version = [], error_code = 2\<rparr>)"
        using False prems(5) by (auto simp: Execute_loop.simps [of ok canceling i h])
      then show ?thesis using prems(4) by (auto intro!: exI [of _ "i - 1"])
    next
      case stopped: False
      then have "h' = h" "r = Some (if i < 11 then i else 10)"
        using prems(1,5) by (auto simp: Execute_loop.simps [of ok canceling i h] split: if_splits)
      then show ?thesis using stopped prems len by (auto intro!: exI [of _ "i - 1"])
    qed
  qed
qed

text \<open>
  An execution of the firmware action, when \<open>rclcpp::ok\<close> stays false once it is: the feedback is an
  initial part of the ten phases, none of which is \<open>Installed\<close>; the goal succeeds only after all of
  them, and the version of the server changes exactly when it succeeds.
\<close>

theorem Execute_outcome:
  assumes "\<And>k. \<not> ok k \<Longrightarrow> \<not> ok (Suc k)"
  shows "case Execute ok canceling goal s of (s', h) \<Rightarrow>
     (\<exists>n. feedbacks h = take n phases) \<and> ''Installed'' \<notin> set (feedbacks h) \<and>
     (case ended h of
        Some (Succeeded r) \<Rightarrow> feedbacks h = phases \<and> update_successful r \<and> s' = s\<lparr>version := firmware_version goal\<rparr>
      | Some (Canceled r) \<Rightarrow> \<not> update_successful r \<and> s' = s
      | None \<Rightarrow> s' = s)"
proof -
  obtain r h where l: "Execute_loop ok canceling 1 new_handle = (r, h)" by fastforce
  have o: "\<exists>n. feedbacks h = take n phases \<and>
     (case r of
        None \<Rightarrow> \<exists>res. ended h = Some (Canceled res) \<and> \<not> update_successful res
      | Some calls \<Rightarrow> ended h = None \<and> (feedbacks h = phases \<and> calls = 10 \<or> \<not> ok calls))"
    using Execute_loop_outcome [OF _ _ _ _ l] by (simp add: new_handle_def)
  then obtain n where n: "feedbacks h = take n phases" by blast
  have "''Installed'' \<notin> set phases" by (simp add: phases_def phase_of_def upt_rec)
  then have i: "''Installed'' \<notin> set (feedbacks h)" using n set_take_subset [of n phases] by auto
  show ?thesis
  proof (cases r)
    case None
    then show ?thesis using o i n by (auto simp: Execute_def l [simplified])
  next
    case (Some calls)
    then show ?thesis using o i n assms [of calls] by (auto simp: Execute_def l [simplified])
  qed
qed

theorem Execute_outcome_witness:
  "case Execute (\<lambda>_. True) (\<lambda>i. i = 4) \<lparr>firmware_version = ''2'', hardware_module = [], reboot = False\<rparr> ActionServer_ctor of
     (s', h) \<Rightarrow> feedbacks h = [''Downloading...'', ''Downloading...'', ''Downloaded''] \<and> s' = ActionServer_ctor"
  using Execute_outcome [where ok = "\<lambda>_. True" and canceling = "\<lambda>i. i = 4" and s = ActionServer_ctor
      and goal = "\<lparr>firmware_version = ''2'', hardware_module = [], reboot = False\<rparr>"]
  by (simp add: Execute_def Execute_loop.simps new_handle_def phase_of_def)

lemma Execute_uninterrupted:
  assumes "\<And>k. ok k" "\<And>i. \<not> canceling i"
  shows "Execute ok canceling goal s =
    (s\<lparr>version := firmware_version goal\<rparr>,
     \<lparr>feedbacks = phases, ended = Some (Succeeded \<lparr>update_successful = True, installed_version = [], error_code = 0\<rparr>)\<rparr>)"
  using assms by (simp add: Execute_def Execute_loop.simps new_handle_def phases_def upt_rec)

section \<open>Client and server of the firmware action\<close>

lemma Execute_version:
  assumes "Execute ok canceling goal s = (s', h)"
  shows "case ended h of Some (Succeeded _) \<Rightarrow> version s' = firmware_version goal | _ \<Rightarrow> s' = s"
proof -
  obtain r h0 where l: "Execute_loop ok canceling 1 new_handle = (r, h0)" by fastforce
  have "case r of None \<Rightarrow> \<exists>res. ended h0 = Some (Canceled res) | Some _ \<Rightarrow> ended h0 = None"
    using Execute_loop_outcome [OF _ _ _ _ l] by (auto simp: new_handle_def split: option.splits)
  then show ?thesis
    using assms l by (cases r) (auto simp: Execute_def split: if_splits)
qed

definition goal_of :: "string \<Rightarrow> Firmware_Goal" where
  "goal_of v = \<lparr>firmware_version = v, hardware_module = [], reboot = False\<rparr>"

text \<open>While the timer is active the client has sent nothing, or one goal that the server has carried out.\<close>

definition firmware_inv :: "string \<Rightarrow> string \<Rightarrow> ActionClient \<times> ActionServer \<Rightarrow> bool" where
  "firmware_inv v v0 cs \<longleftrightarrow>
     (case cs of (c, s) \<Rightarrow>
        has_client c \<and> param_version c = v \<and> version s \<in> {v0, v} \<and>
        sent_goals c = replicate (length (sent_goals c)) (goal_of v) \<and>
        (if timer_active c then sent_goals c = [] \<or> length (sent_goals c) = 1 \<and> version s = v
         else length (sent_goals c) \<le> 2))"

lemma replicate_snoc: "xs = replicate n y \<Longrightarrow> xs @ [y] = replicate (Suc n) y"
  by (simp add: replicate_append_same)

lemma firmware_round_inv:
  assumes "firmware_inv v v0 cs"
  shows "\<exists>cs'. firmware_round ok canceling available cs = Inr cs' \<and> firmware_inv v v0 cs'"
proof -
  obtain c s where cs: "cs = (c, s)" by fastforce
  show ?thesis
  proof (cases "timer_active c \<and> available")
    case False
    then show ?thesis
      using assms by (cases "timer_active c") (auto simp: cs firmware_inv_def firmware_round_def SendGoal_def)
  next
    case True
    let ?c = "c\<lparr>timer_active := False, goal_done := False, sent_goals := sent_goals c @ [goal_of v]\<rparr>"
    have fields: "firmware_version (goal_of v) = v" by (simp add: goal_of_def)
    have send: "SendGoal True c = Inr (Some (goal_of v), ?c)"
      using assms True by (simp add: cs firmware_inv_def SendGoal_def goal_of_def Let_def)
    have sent: "sent_goals c @ [goal_of v] = replicate (Suc (length (sent_goals c))) (goal_of v)"
      "length (sent_goals c) \<le> 1"
      using assms True by (auto simp: cs firmware_inv_def intro!: replicate_snoc)
    have c: "has_client c" "param_version c = v" "version s \<in> {v0, v}"
      "sent_goals c = [] \<or> length (sent_goals c) = 1 \<and> version s = v"
      using assms True by (simp_all add: cs firmware_inv_def)
    show ?thesis
    proof (cases "version s = v")
      case same: True
      have "firmware_round ok canceling available cs = Inr (?c, s)"
        using True same by (simp add: cs firmware_round_def send HandleGoal_def fields)
      moreover have "firmware_inv v v0 (?c, s)" using c sent by (simp add: firmware_inv_def)
      ultimately show ?thesis by blast
    next
      case new: False
      obtain s' h where e: "Execute ok canceling (goal_of v) s = (s', h)" by fastforce
      let ?c' = "case result_of (ended h) of None \<Rightarrow> ?c | Some code \<Rightarrow> ResultCallback code ?c"
      have "firmware_round ok canceling available cs = Inr (?c', s')"
        using True new by (auto simp: cs firmware_round_def send HandleGoal_def e fields)
      moreover have "firmware_inv v v0 (?c', s')"
        using Execute_version [OF e] c sent new
        by (auto simp: firmware_inv_def result_of_def ResultCallback_def fields split: option.splits goal_end.splits)
      ultimately show ?thesis by blast
    qed
  qed
qed

lemma firmware_rounds_inv:
  "firmware_inv v v0 cs \<Longrightarrow> \<exists>cs'. firmware_rounds envs cs = Inr cs' \<and> firmware_inv v v0 cs'"
proof (induction envs arbitrary: cs)
  case (Cons env envs)
  obtain ok canceling available where env: "env = (ok, canceling, available)" by (cases env)
  obtain cs' where "firmware_round ok canceling available cs = Inr cs'" "firmware_inv v v0 cs'"
    using firmware_round_inv [OF Cons.prems] by blast
  then show ?case using Cons.IH by (simp add: env)
qed simp

lemma firmware_round_idle: "\<not> timer_active c \<Longrightarrow> firmware_round ok canceling available (c, s) = Inr (c, s)"
  by (simp add: firmware_round_def)

lemma firmware_rounds_idle: "\<not> timer_active c \<Longrightarrow> firmware_rounds envs (c, s) = Inr (c, s)"
  by (induction envs) (auto simp: firmware_round_idle)

text \<open>
  A client and a server of the firmware action over any number of expiries of the client's timer,
  whatever happens in between: the client never ends in an exception and sends at most two goals,
  all for its version, and the server's version is its first one or the client's.  With a server
  that is available and executions that run through, exactly two goals are sent: the first is carried
  out, the second rejected, and after it the timer stays cancelled.
\<close>

theorem firmware_exchange:
  "(\<exists>c s'. firmware_rounds envs (ActionClient_ctor v, s) = Inr (c, s') \<and>
      length (sent_goals c) \<le> 2 \<and> set (sent_goals c) \<subseteq> {goal_of v} \<and> version s' \<in> {version s, v}) \<and>
   (v = version s \<or>
    (\<exists>c. firmware_rounds (replicate (n + 2) ((\<lambda>_. True), (\<lambda>_. False), True)) (ActionClient_ctor v, s) =
           Inr (c, s\<lparr>version := v\<rparr>) \<and>
         sent_goals c = [goal_of v, goal_of v] \<and> \<not> timer_active c))"
proof (intro conjI)
  have "firmware_inv v (version s) (ActionClient_ctor v, s)"
    by (simp add: firmware_inv_def ActionClient_ctor_def)
  then obtain cs' where "firmware_rounds envs (ActionClient_ctor v, s) = Inr cs'" "firmware_inv v (version s) cs'"
    using firmware_rounds_inv by blast
  moreover obtain c s' where "cs' = (c, s')" by fastforce
  ultimately have r: "firmware_rounds envs (ActionClient_ctor v, s) = Inr (c, s')" "firmware_inv v (version s) (c, s')"
    by simp_all
  then have "set (sent_goals c) = set (replicate (length (sent_goals c)) (goal_of v))" "length (sent_goals c) \<le> 2"
    "version s' \<in> {version s, v}"
    by (auto simp: firmware_inv_def split: if_splits)
  then show "\<exists>c s'. firmware_rounds envs (ActionClient_ctor v, s) = Inr (c, s') \<and>
      length (sent_goals c) \<le> 2 \<and> set (sent_goals c) \<subseteq> {goal_of v} \<and> version s' \<in> {version s, v}"
    using r(1) by auto
  let ?env = "((\<lambda>_. True), (\<lambda>_. False), True) :: (nat \<Rightarrow> bool) \<times> (nat \<Rightarrow> bool) \<times> bool"
  let ?c1 = "ActionClient_ctor v\<lparr>sent_goals := [goal_of v]\<rparr>"
  let ?c2 = "ActionClient_ctor v\<lparr>timer_active := False, sent_goals := [goal_of v, goal_of v]\<rparr>"
  have "v \<noteq> version s \<Longrightarrow> firmware_round (\<lambda>_. True) (\<lambda>_. False) True (ActionClient_ctor v, s) = Inr (?c1, s\<lparr>version := v\<rparr>)"
    by (simp add: firmware_round_def SendGoal_def ActionClient_ctor_def HandleGoal_def Execute_uninterrupted
        result_of_def ResultCallback_def goal_of_def Let_def)
  moreover have "firmware_round (\<lambda>_. True) (\<lambda>_. False) True (?c1, s\<lparr>version := v\<rparr>) = Inr (?c2, s\<lparr>version := v\<rparr>)"
    by (simp add: firmware_round_def SendGoal_def ActionClient_ctor_def HandleGoal_def goal_of_def Let_def)
  ultimately have "v \<noteq> version s \<Longrightarrow>
      firmware_rounds (replicate (n + 2) ?env) (ActionClient_ctor v, s) = Inr (?c2, s\<lparr>version := v\<rparr>)"
    using firmware_rounds_idle [of ?c2 "replicate n ?env" "s\<lparr>version := v\<rparr>"] by simp
  then show "v = version s \<or>
    (\<exists>c. firmware_rounds (replicate (n + 2) ((\<lambda>_. True), (\<lambda>_. False), True)) (ActionClient_ctor v, s) =
           Inr (c, s\<lparr>version := v\<rparr>) \<and>
         sent_goals c = [goal_of v, goal_of v] \<and> \<not> timer_active c)"
    by auto
qed

section \<open>The Fibonacci numbers\<close>

primrec fib_pair :: "nat \<Rightarrow> int \<times> int" where
  "fib_pair 0 = (0, 1)"
| "fib_pair (Suc n) = (case fib_pair n of (a, b) \<Rightarrow> (b, a + b))"

definition fib :: "nat \<Rightarrow> int" where
  "fib n = fst (fib_pair n)"

lemma fib_simps [simp]: "fib 0 = 0" "fib (Suc 0) = 1" "fib (Suc (Suc n)) = fib (Suc n) + fib n"
  by (simp_all add: fib_def split: prod.split)

lemma fib_nonneg: "0 \<le> fib n \<and> 0 \<le> fib (Suc n)"
  by (induction n) auto

lemma fib_mono: "m \<le> n \<Longrightarrow> 1 \<le> m \<Longrightarrow> fib m \<le> fib n"
proof (induction n rule: dec_induct)
  case (step n)
  then show ?case using fib_nonneg [of "n - 1"] by (cases n) auto
qed simp

lemma fib_bound: "fib 46 \<le> INT32_MAX" "INT32_MAX < fib 47"
  by (simp_all add: fib_def INT32_MAX_def eval_nat_numeral)

lemma fib_fits: "n \<le> 46 \<Longrightarrow> fib n \<le> INT32_MAX"
  using fib_mono [of n 46] fib_bound(1) by (cases n) (auto simp: INT32_MAX_def)

text \<open>The first \<open>m\<close> rounds of a loop that is not interrupted.\<close>

lemma Fibonacci_loop_rounds:
  assumes "\<And>k. ok k" "\<And>i. \<not> canceling i" "int (i + m) \<le> order" "1 \<le> i" "i + m \<le> 46"
  shows "Fibonacci_loop ok canceling order i (map fib [0..<Suc i]) h =
    Fibonacci_loop ok canceling order (i + m) (map fib [0..<Suc (i + m)])
      (h\<lparr>feedbacks := feedbacks h @ map (\<lambda>k. map fib [0..<Suc k]) [Suc i..<Suc (i + m)]\<rparr>)"
  using assms(3-)
proof (induction m arbitrary: i h)
  case (Suc m)
  have nth: "map fib [0..<Suc i] ! i + map fib [0..<Suc i] ! (i - 1) = fib (Suc i)"
    using Suc.prems by (cases i) (auto simp del: upt_Suc simp add: nth_map)
  have "fib (Suc i) \<le> INT32_MAX" using Suc.prems by (intro fib_fits) simp
  then have "Fibonacci_loop ok canceling order i (map fib [0..<Suc i]) h =
      Fibonacci_loop ok canceling order (Suc i) (map fib [0..<Suc (Suc i)])
        (h\<lparr>feedbacks := feedbacks h @ [map fib [0..<Suc (Suc i)]]\<rparr>)"
    using assms(1,2) Suc.prems nth
    by (subst Fibonacci_loop.simps) (simp add: Let_def del: upt_Suc, simp)
  also have "\<dots> = Fibonacci_loop ok canceling order (Suc i + m) (map fib [0..<Suc (Suc i + m)])
      (h\<lparr>feedbacks := (feedbacks h @ [map fib [0..<Suc (Suc i)]]) @ map (\<lambda>k. map fib [0..<Suc k]) [Suc (Suc i)..<Suc (Suc i + m)]\<rparr>)"
    using Suc.IH [of "Suc i"] Suc.prems by simp
  finally show ?case by (simp add: upt_conv_Cons [of "Suc i"] del: upt_Suc)
qed (simp add: assms)

text \<open>
  An execution of the Fibonacci action that is neither cancelled nor shut down.  For an order up to 46
  the goal succeeds with the Fibonacci numbers up to that index, at least the first two, after
  feedback with each longer initial part.  For every greater order the 32-bit addition overflows;
  goals are accepted up to 9000.
\<close>

theorem Fibonacci_result:
  "Fibonacci_Execute (\<lambda>_. True) (\<lambda>_. False) order =
     (if order \<le> 46 then
        Some \<lparr>feedbacks = map (\<lambda>k. map fib [0..<Suc k]) [2..<Suc (nat order)],
              ended = Some (Succeeded (map fib [0..<max 2 (Suc (nat order))]))\<rparr>
      else None) \<and>
   (Fibonacci_HandleGoal order = ACCEPT_AND_EXECUTE) = (order \<le> 9000)"
proof -
  let ?loop = "Fibonacci_loop (\<lambda>_. True) (\<lambda>_. False) order"
  have start: "[0, 1] = map fib [0..<Suc 1]" by simp
  have "Fibonacci_Execute (\<lambda>_. True) (\<lambda>_. False) order =
     (if order \<le> 46 then
        Some \<lparr>feedbacks = map (\<lambda>k. map fib [0..<Suc k]) [2..<Suc (nat order)],
              ended = Some (Succeeded (map fib [0..<max 2 (Suc (nat order))]))\<rparr>
      else None)"
  proof (cases "order \<le> 1")
    case True
    then have "max 2 (Suc (nat order)) = 2" by simp
    then show ?thesis
      using True by (simp add: Fibonacci_Execute_def Fibonacci_loop.simps new_handle_def eval_nat_numeral)
  next
    case gt: False
    define m where "m = (if order \<le> 46 then nat order - 1 else 45)"
    have i: "1 + m = (if order \<le> 46 then nat order else 46)" using gt by (simp add: m_def)
    let ?h = "\<lparr>feedbacks = map (\<lambda>k. map fib [0..<Suc k]) [2..<Suc (1 + m)], ended = None\<rparr>"
    have "?loop 1 (map fib [0..<Suc 1]) new_handle = ?loop (1 + m) (map fib [0..<Suc (1 + m)])
        (new_handle\<lparr>feedbacks := feedbacks (new_handle :: (int list, int list) goal_handle) @ map (\<lambda>k. map fib [0..<Suc k]) [Suc 1..<Suc (1 + m)]\<rparr>)"
    proof (rule Fibonacci_loop_rounds)
      show "int (1 + m) \<le> order" "1 + m \<le> 46" using gt i by (auto split: if_splits)
    qed simp_all
    then have rounds: "?loop 1 [0, 1] new_handle = ?loop (1 + m) (map fib [0..<Suc (1 + m)]) ?h"
      using start by (simp add: new_handle_def numeral_2_eq_2 del: upt_Suc)
    show ?thesis
    proof (cases "order \<le> 46")
      case True
      have n: "max 2 (Suc (nat order)) = Suc (nat order)" using gt by simp
      have "?loop (nat order) sq h = Some (Some (nat order - 1), sq, h)" for sq and h
        by (subst Fibonacci_loop.simps) simp
      then show ?thesis using True rounds i n by (simp add: Fibonacci_Execute_def del: upt_Suc)
    next
      case False
      have "map fib [0..<Suc 46] ! 46 + map fib [0..<Suc 46] ! (46 - 1) = fib 47"
        by (simp add: nth_map fib_def eval_nat_numeral del: upt_Suc)
      then have "?loop 46 (map fib [0..<Suc 46]) h = None" for h
        using False fib_bound(2) by (subst Fibonacci_loop.simps) (simp add: Let_def del: upt_Suc)
      then show ?thesis using False rounds i by (simp add: Fibonacci_Execute_def del: upt_Suc)
    qed
  qed
  then show ?thesis by (simp add: Fibonacci_HandleGoal_def)
qed

end
