(* ===== verification/Demo_Combined.thy ===== *)
theory Demo_Combined
  imports Demo_Pubsub Demo_Services Demo_Actions
begin

text \<open>
  The combined nodes of the ROS 2 demonstration as a whole: publisher, calibration server and action client
  in one node (\<open>demo_to_cat/src/combined/pub_serviceserver_accli.cpp\<close>) with the Fibonacci server of
  \<open>combined/sub_acser.cpp\<close> and the calibration client of \<open>combined/sub_serviceclient.cpp\<close> as its partners.
  Shown: with a server that carries out its goals the node sends a goal at every expiry of its timer and
  prints the Fibonacci numbers, whatever is published and however the order is set in between; a server that
  is missing, a goal that is rejected and a goal that is cancelled each stop it for good; and no calibration
  that the combined client asks the combined server for succeeds.

  The functions of the single parts are those of the theories imported.  A node keeps the state of its
  publisher, whether its two timers run and what the action client has printed.
\<close>

section \<open>The node\<close>

record CombinedNode =
  cn_publisher :: PsaNode
  cn_pub_timer :: bool
  cn_action_timer :: bool
  cn_has_client :: bool
  cn_goal_done :: bool
  cn_order_parameter :: int
  cn_order :: int
  cn_goals :: "int list"
  cn_log :: "string list"

text \<open>
  The constructor initialises none of \<open>count_\<close>, \<open>oper_\<close>, \<open>goal_done_\<close> and \<open>order_\<close>: they are arguments.
  \<open>override\<close> is the value that the options of the node give for the parameter.
\<close>

definition CombinedNode_ctor :: "u64 \<Rightarrow> bool \<Rightarrow> bool \<Rightarrow> int \<Rightarrow> int option \<Rightarrow> CombinedNode" where
  "CombinedNode_ctor count oper goal_done0 order0 override =
     \<lparr>cn_publisher = \<lparr>psa_count = count, psa_oper = oper, psa_published = []\<rparr>, cn_pub_timer = True,
      cn_action_timer = True, cn_has_client = True, cn_goal_done = goal_done0,
      cn_order_parameter = (case override of None \<Rightarrow> 10 | Some v \<Rightarrow> v), cn_order = order0, cn_goals = [], cn_log = []\<rparr>"

definition CombinedNode_dtor :: "CombinedNode \<Rightarrow> CombinedNode" where
  "CombinedNode_dtor n = n\<lparr>cn_pub_timer := False, cn_action_timer := False\<rparr>"

definition cn_print :: "string \<Rightarrow> CombinedNode \<Rightarrow> CombinedNode" where
  "cn_print line n = n\<lparr>cn_log := cn_log n @ [line]\<rparr>"

definition Combined_SendGoal :: "bool \<Rightarrow> CombinedNode \<Rightarrow> (int option \<times> CombinedNode) cpp" where
  "Combined_SendGoal server_available n =
     (let n = n\<lparr>cn_action_timer := False, cn_goal_done := False\<rparr>
      in if \<not> cn_has_client n then Inl NullDereference
         else if \<not> server_available then
           Inr (None, cn_print ''Action server not available after waiting'' n\<lparr>cn_goal_done := True\<rparr>)
         else
           (let n = n\<lparr>cn_order := cn_order_parameter n\<rparr>;
                goal = goal_order (cn_order n);
                n = cn_print ''Sending goal'' n
            in Inr (Some goal, n\<lparr>cn_goals := cn_goals n @ [goal]\<rparr>)))"

definition Combined_GoalResponseCallback :: "bool \<Rightarrow> CombinedNode \<Rightarrow> CombinedNode" where
  "Combined_GoalResponseCallback goal_handle =
     (if \<not> goal_handle then cn_print ''[ActionClient]: Goal was rejected by server''
      else cn_print ''[ActionClient]: Goal accepted by server, waiting for result'')"

definition Combined_ResultCallback :: "ResultCode \<Rightarrow> int list \<Rightarrow> CombinedNode \<Rightarrow> CombinedNode" where
  "Combined_ResultCallback code sequence n =
     (case code of
        SUCCEEDED \<Rightarrow> cn_print (Fibonacci_ResultCallback sequence) (n\<lparr>cn_action_timer := True\<rparr>)
      | ABORTED \<Rightarrow> cn_print ''Goal was aborted'' n
      | CANCELED \<Rightarrow> cn_print ''Goal was canceled'' n
      | UNKNOWN \<Rightarrow> cn_print ''Unknown result code'' n)"

section \<open>A goal\<close>

datatype CancelResponse = CANCEL_REJECT | CANCEL_ACCEPT

definition Fibonacci_HandleCancel :: CancelResponse where
  "Fibonacci_HandleCancel = CANCEL_ACCEPT"

text \<open>A cancel request that arrives before round \<open>k\<close> is seen from there on when it is accepted.\<close>

definition canceling_from :: "nat option \<Rightarrow> nat \<Rightarrow> bool" where
  "canceling_from request i =
     (case request of None \<Rightarrow> False | Some k \<Rightarrow> Fibonacci_HandleCancel = CANCEL_ACCEPT \<and> k \<le> i)"

text \<open>
  One expiry of the action timer.  \<open>HandleAccepted\<close> runs the execution in a thread of its own; its feedback
  and its end reach the callbacks of the client in order.  \<open>None\<close> is undefined behaviour: the overflow of the
  server, or feedback without a number.
\<close>

definition goal_ended :: "(int list, int list) goal_handle \<Rightarrow> CombinedNode \<Rightarrow> CombinedNode" where
  "goal_ended h n =
     (case ended h of
        None \<Rightarrow> n
      | Some (Succeeded sequence) \<Rightarrow> Combined_ResultCallback SUCCEEDED sequence n
      | Some (Canceled sequence) \<Rightarrow> Combined_ResultCallback CANCELED sequence n)"

definition goal_accepted :: "(nat \<Rightarrow> bool) \<Rightarrow> nat option \<Rightarrow> int \<Rightarrow> CombinedNode \<Rightarrow> CombinedNode option" where
  "goal_accepted ok request goal n =
     (case Fibonacci_Execute ok (canceling_from request) goal of
        None \<Rightarrow> None
      | Some h \<Rightarrow> map_option (\<lambda>lines. goal_ended h (fold cn_print lines n))
                    (those (map Fibonacci_FeedbackCallback (feedbacks h))))"

definition fibonacci_round ::
  "(nat \<Rightarrow> bool) \<Rightarrow> nat option \<Rightarrow> bool \<Rightarrow> CombinedNode \<Rightarrow> CombinedNode cpp option" where
  "fibonacci_round ok request server_available n =
     (if \<not> cn_action_timer n then Some (Inr n)
      else
        (case Combined_SendGoal server_available n of
           Inl e \<Rightarrow> Some (Inl e)
         | Inr (None, n') \<Rightarrow> Some (Inr n')
         | Inr (Some goal, n') \<Rightarrow>
             (case Fibonacci_HandleGoal goal of
                REJECT \<Rightarrow> Some (Inr (Combined_GoalResponseCallback False n'))
              | ACCEPT_AND_EXECUTE \<Rightarrow>
                  map_option Inr (goal_accepted ok request goal (Combined_GoalResponseCallback True n')))))"

section \<open>Runs of the node\<close>

datatype node_event = Publish_expiry | Action_expiry "nat \<Rightarrow> bool" "nat option" bool | Set_order int

fun node_step :: "node_event \<Rightarrow> CombinedNode \<Rightarrow> CombinedNode cpp option" where
  "node_step Publish_expiry n =
     Some (Inr (if cn_pub_timer n then n\<lparr>cn_publisher := Psa_on_timer (cn_publisher n)\<rparr> else n))"
| "node_step (Action_expiry ok request available) n = fibonacci_round ok request available n"
| "node_step (Set_order v) n = Some (Inr (n\<lparr>cn_order_parameter := v\<rparr>))"

fun node_run :: "node_event list \<Rightarrow> CombinedNode \<Rightarrow> CombinedNode cpp option" where
  "node_run [] n = Some (Inr n)"
| "node_run (e # es) n =
     (case node_step e n of
        None \<Rightarrow> None
      | Some (Inl err) \<Rightarrow> Some (Inl err)
      | Some (Inr n') \<Rightarrow> node_run es n')"

text \<open>The goals that the expiries of the action timer ask for, when the order is \<open>v\<close> at the beginning.\<close>

fun goals_asked :: "int \<Rightarrow> node_event list \<Rightarrow> int list" where
  "goals_asked v [] = []"
| "goals_asked v (Publish_expiry # es) = goals_asked v es"
| "goals_asked v (Action_expiry _ _ _ # es) = goal_order v # goals_asked v es"
| "goals_asked v (Set_order w # es) = goals_asked w es"

fun uninterrupted :: "node_event \<Rightarrow> bool" where
  "uninterrupted (Action_expiry ok request available) \<longleftrightarrow> ok = (\<lambda>_. True) \<and> request = None \<and> available"
| "uninterrupted _ \<longleftrightarrow> True"

definition expiries :: "node_event list \<Rightarrow> nat" where
  "expiries es = length (filter (\<lambda>e. e = Publish_expiry) es)"

text \<open>What a goal that is carried out prints.\<close>

definition exchange_log :: "int \<Rightarrow> string list" where
  "exchange_log goal =
     [''Sending goal'', ''[ActionClient]: Goal accepted by server, waiting for result''] @
     map (\<lambda>k. ''[ActionClient]: Next number in sequence received: '' @ show_int (fib k)) [2..<Suc (nat goal)] @
     [''Result received: '' @ concat (map (\<lambda>k. show_int (fib k) @ '' '') [0..<max 2 (Suc (nat goal))])]"

section \<open>Goals that are carried out\<close>

lemma those_map_Some: "those (map (\<lambda>x. Some (f x)) xs) = Some (map f xs)"
  by (induction xs) auto

lemma fold_cn_print: "fold cn_print lines n = n\<lparr>cn_log := cn_log n @ lines\<rparr>"
  by (induction lines arbitrary: n) (simp_all add: cn_print_def)

lemma feedback_lines:
  "those (map Fibonacci_FeedbackCallback (map (\<lambda>k. map fib [0..<Suc k]) ks)) =
     Some (map (\<lambda>k. ''[ActionClient]: Next number in sequence received: '' @ show_int (fib k)) ks)"
  by (induction ks) (simp_all add: Fibonacci_FeedbackCallback_def)

lemma canceling_from_None: "canceling_from None = (\<lambda>_. False)"
  by (simp add: canceling_from_def fun_eq_iff)

lemma goal_carried_out:
  assumes "goal \<le> 46"
  shows "goal_accepted (\<lambda>_. True) None goal n = Some (n\<lparr>cn_action_timer := True, cn_log := cn_log n @ drop 2 (exchange_log goal)\<rparr>)"
proof -
  let ?h = "\<lparr>feedbacks = map (\<lambda>k. map fib [0..<Suc k]) [2..<Suc (nat goal)],
             ended = Some (Succeeded (map fib [0..<max 2 (Suc (nat goal))]))\<rparr>"
  have h: "Fibonacci_Execute (\<lambda>_. True) (canceling_from None) goal = Some ?h"
    using Fibonacci_result [of goal] assms by (simp add: canceling_from_None del: upt_Suc)
  have l: "those (map Fibonacci_FeedbackCallback (feedbacks ?h)) = Some (map (\<lambda>k. ''[ActionClient]: Next number in sequence received: '' @ show_int (fib k)) [2..<Suc (nat goal)])"
    by (simp only: goal_handle.simps feedback_lines)
  show ?thesis
    unfolding goal_accepted_def h option.case l
    by (simp add: goal_ended_def fold_cn_print Combined_ResultCallback_def cn_print_def
        exchange_log_def Fibonacci_ResultCallback_def comp_def del: upt_Suc)
qed

lemma round_carried_out:
  assumes "cn_action_timer n" "cn_has_client n" "goal_order (cn_order_parameter n) \<le> 46"
  defines "goal \<equiv> goal_order (cn_order_parameter n)"
  shows "fibonacci_round (\<lambda>_. True) None True n =
    Some (Inr (n\<lparr>cn_goal_done := False, cn_order := cn_order_parameter n, cn_goals := cn_goals n @ [goal],
                 cn_log := cn_log n @ exchange_log goal\<rparr>))"
proof -
  have "Fibonacci_HandleGoal goal = ACCEPT_AND_EXECUTE" using assms by (simp add: Fibonacci_HandleGoal_def)
  moreover have "take 2 (exchange_log goal) = [''Sending goal'', ''[ActionClient]: Goal accepted by server, waiting for result'']"
    by (simp add: exchange_log_def)
  then have "exchange_log goal = ''Sending goal'' # ''[ActionClient]: Goal accepted by server, waiting for result'' # drop 2 (exchange_log goal)"
    by (metis append_Cons append_Nil append_take_drop_id)
  ultimately show ?thesis
    using assms goal_carried_out [of goal]
    by (simp add: fibonacci_round_def Combined_SendGoal_def Combined_GoalResponseCallback_def cn_print_def Let_def)
qed

lemma funpow_expiries: "(f ^^ expiries (Publish_expiry # es)) x = (f ^^ expiries es) (f x)"
  by (simp add: expiries_def funpow_swap1)

lemma node_run_uninterrupted:
  assumes "cn_pub_timer n" "cn_action_timer n" "cn_has_client n" "list_all uninterrupted es"
    "list_all (\<lambda>goal. goal \<le> 46) (goals_asked (cn_order_parameter n) es)"
  shows "\<exists>n'. node_run es n = Some (Inr n') \<and> cn_action_timer n' \<and>
    cn_goals n' = cn_goals n @ goals_asked (cn_order_parameter n) es \<and>
    cn_log n' = cn_log n @ concat (map exchange_log (goals_asked (cn_order_parameter n) es)) \<and>
    cn_publisher n' = (Psa_on_timer ^^ expiries es) (cn_publisher n)"
  using assms
proof (induction es arbitrary: n)
  case (Cons e es)
  show ?case
  proof (cases e)
    case Publish_expiry
    then show ?thesis
      using Cons.prems Cons.IH [of "n\<lparr>cn_publisher := Psa_on_timer (cn_publisher n)\<rparr>"] by (simp add: funpow_expiries)
  next
    case (Action_expiry ok request available)
    then have "fibonacci_round ok request available n =
        Some (Inr (n\<lparr>cn_goal_done := False, cn_order := cn_order_parameter n,
          cn_goals := cn_goals n @ [goal_order (cn_order_parameter n)],
          cn_log := cn_log n @ exchange_log (goal_order (cn_order_parameter n))\<rparr>))" (is "_ = Some (Inr ?n)")
      using Cons.prems by (simp add: round_carried_out)
    then show ?thesis
      using Cons.prems Cons.IH [of ?n] by (simp add: Action_expiry expiries_def)
  next
    case (Set_order v)
    then show ?thesis
      using Cons.prems Cons.IH [of "n\<lparr>cn_order_parameter := v\<rparr>"] by (simp add: expiries_def)
  qed
qed (simp add: expiries_def)

text \<open>
  The node with a server that is available and carries its goals out, while messages are published and the
  order is set in between, to values whose 32-bit truncation is at most 46: the node sends one goal per expiry
  of the action timer, for the order of that moment, prints each Fibonacci number as it arrives and then all
  of them, publishes its wave independently of that, and its action timer runs again afterwards.
\<close>

theorem combined_node_runs:
  assumes "list_all uninterrupted es"
    and "list_all (\<lambda>goal. goal \<le> 46) (goals_asked (case override of None \<Rightarrow> 10 | Some v \<Rightarrow> v) es)"
  defines "goals \<equiv> goals_asked (case override of None \<Rightarrow> 10 | Some v \<Rightarrow> v) es"
  shows "\<exists>n. node_run es (CombinedNode_ctor count oper gd order0 override) = Some (Inr n) \<and> cn_action_timer n \<and>
    cn_goals n = goals \<and> cn_log n = concat (map exchange_log goals) \<and>
    cn_publisher n = (Psa_on_timer ^^ expiries es) \<lparr>psa_count = count, psa_oper = oper, psa_published = []\<rparr>"
  using node_run_uninterrupted [of "CombinedNode_ctor count oper gd order0 override" es] assms
  by (simp add: CombinedNode_ctor_def)

theorem combined_node_runs_witness:
  "\<exists>n. node_run [Publish_expiry, Action_expiry (\<lambda>_. True) None True, Set_order 3, Action_expiry (\<lambda>_. True) None True]
         (CombinedNode_ctor 0 True False 0 None) = Some (Inr n) \<and>
     cn_goals n = [10, 3] \<and> List.last (cn_log n) = ''Result received: 0 1 1 2 ''"
proof -
  let ?es = "[Publish_expiry, Action_expiry (\<lambda>_. True) None True, Set_order 3, Action_expiry (\<lambda>_. True) None True]"
  have g: "goals_asked (case None of None \<Rightarrow> 10 | Some v \<Rightarrow> v) ?es = [10, 3]" by (simp add: goal_order_def)
  have "list_all uninterrupted ?es" by simp
  then obtain n where n: "node_run ?es (CombinedNode_ctor 0 True False 0 None) = Some (Inr n)" "cn_goals n = [10, 3]"
    "cn_log n = concat (map exchange_log [10, 3])"
    using combined_node_runs [of ?es None 0 True False 0] unfolding g by auto
  have "exchange_log 3 \<noteq> []" "List.last (exchange_log 3) = ''Result received: 0 1 1 2 ''" by code_simp+
  then have "List.last (cn_log n) = ''Result received: 0 1 1 2 ''" using n(3) by simp
  then show ?thesis using n by blast
qed

section \<open>Goals that are not\<close>

lemma node_step_idle:
  assumes "\<not> cn_action_timer n"
  shows "\<exists>n'. node_step e n = Some (Inr n') \<and> \<not> cn_action_timer n' \<and> cn_goals n' = cn_goals n \<and> cn_log n' = cn_log n"
  using assms by (cases e) (auto simp: fibonacci_round_def)

lemma node_run_idle:
  "\<not> cn_action_timer n \<Longrightarrow>
   \<exists>n'. node_run es n = Some (Inr n') \<and> \<not> cn_action_timer n' \<and> cn_goals n' = cn_goals n \<and> cn_log n' = cn_log n"
proof (induction es arbitrary: n)
  case (Cons e es)
  obtain n1 where n1: "node_step e n = Some (Inr n1)" "\<not> cn_action_timer n1" "cn_goals n1 = cn_goals n" "cn_log n1 = cn_log n"
    using node_step_idle [OF Cons.prems] by blast
  then show ?case using Cons.IH [OF n1(2)] by simp
qed simp

text \<open>
  A server that is missing after ten seconds, an order above 9000 and a goal that is cancelled in its
  first round each stop the client for good: whatever follows, also when the server comes up or the order
  is set again, no further goal is sent and nothing more is printed.
\<close>

theorem combined_node_stalls:
  assumes "cn_action_timer n" "cn_has_client n"
    and "\<not> available \<or> 9000 < goal_order (cn_order_parameter n) \<or>
         ok 1 \<and> request = Some k \<and> k \<le> 1 \<and> 1 < goal_order (cn_order_parameter n)"
  shows "\<exists>n'. node_run (Action_expiry ok request available # es) n = Some (Inr n') \<and> \<not> cn_action_timer n' \<and>
    cn_goals n' = cn_goals n @ (if available then [goal_order (cn_order_parameter n)] else []) \<and>
    List.last (cn_log n') =
      (if \<not> available then ''Action server not available after waiting''
       else if 9000 < goal_order (cn_order_parameter n) then ''[ActionClient]: Goal was rejected by server''
       else ''Goal was canceled'')"
proof -
  let ?goal = "goal_order (cn_order_parameter n)"
  have canceled: "goal_accepted ok request ?goal m = Some (cn_print ''Goal was canceled'' m)"
    if "ok 1" "request = Some k" "k \<le> 1" "1 < ?goal" for m
    using that by (simp add: goal_accepted_def Fibonacci_Execute_def Fibonacci_loop.simps canceling_from_def
        Fibonacci_HandleCancel_def new_handle_def goal_ended_def Combined_ResultCallback_def)
  obtain n1 where n1: "fibonacci_round ok request available n = Some (Inr n1)" "\<not> cn_action_timer n1"
    "cn_goals n1 = cn_goals n @ (if available then [?goal] else [])"
    "List.last (cn_log n1) =
      (if \<not> available then ''Action server not available after waiting''
       else if 9000 < ?goal then ''[ActionClient]: Goal was rejected by server'' else ''Goal was canceled'')"
    using assms canceled
    by (cases available; cases "9000 < ?goal")
      (simp_all add: fibonacci_round_def Combined_SendGoal_def Fibonacci_HandleGoal_def
        Combined_GoalResponseCallback_def cn_print_def Let_def)
  then show ?thesis using node_run_idle [OF n1(2), of es] by auto
qed

theorem combined_node_stalls_witness:
  "\<exists>n'. node_run [Action_expiry (\<lambda>_. True) None False, Action_expiry (\<lambda>_. True) None True]
     (CombinedNode_ctor 0 True False 0 None) = Some (Inr n') \<and> cn_goals n' = []"
  using combined_node_stalls [of "CombinedNode_ctor 0 True False 0 None" False "\<lambda>_. True" None 0
      "[Action_expiry (\<lambda>_. True) None True]"]
  by (auto simp: CombinedNode_ctor_def)

section \<open>The calibration client of the combined nodes\<close>

text \<open>\<open>SubscriberClientNode\<close>: its constructor, the expiry of its timer, and what it prints of a response.\<close>

definition SubscriberClientNode_ctor :: "(bool \<times> bool) list \<Rightarrow> (queued \<times> ClientNode) option" where
  "SubscriberClientNode_ctor polls =
     (case Combined_QueueAsyncRequest SENSOR_TEMPERATURE polls of
        Waiting \<Rightarrow> None
      | q \<Rightarrow> Some (q, OnTimerAsync \<lparr>timer_running = False, timer_counter = 0\<rparr>))"

definition SubscriberClientNode_tick :: "ClientNode \<Rightarrow> (bool \<times> bool) list \<Rightarrow> queued \<times> ClientNode" where
  "SubscriberClientNode_tick c polls =
     (case Combined_OnTimerAsync_callback (timer_counter c) of
        (counter, sensor) \<Rightarrow> (Combined_QueueAsyncRequest sensor polls, c\<lparr>timer_counter := counter\<rparr>))"

definition Combined_response_received_callback :: "SensorCalibration_Response \<Rightarrow> string" where
  "Combined_response_received_callback result =
     ''[ServiceClient]:'' @ [CHR 0x0A] @ ''Is Calibrated = '' @ show_bool (is_calibrated result) @ [CHR 0x0A] @
     ''Response = '' @ response result"

definition SubscriberClientNode_dtor :: "ClientNode \<Rightarrow> ClientNode" where
  "SubscriberClientNode_dtor c = c\<lparr>timer_running := False\<rparr>"

fun client_ticks :: "(bool \<times> bool) list list \<Rightarrow> ClientNode \<Rightarrow> queued list" where
  "client_ticks [] c = []"
| "client_ticks (polls # rest) c = (case SubscriberClientNode_tick c polls of (q, c') \<Rightarrow> q # client_ticks rest c')"

text \<open>
  The combined client against the combined server, however often each tick has to wait for the service:
  tick \<open>n\<close> sends one request and prints that nothing was calibrated, with the reason \<open>Calibrated Failed\<close> only
  when \<open>n\<close> is a multiple of 7 and not of 3.
\<close>

definition combined_answer :: "queued \<Rightarrow> string option" where
  "combined_answer q =
     (case q of Sent request \<Rightarrow> Some (Combined_response_received_callback (handle_set_bool request Response_new)) | _ \<Rightarrow> None)"

definition no_calibration :: "nat \<Rightarrow> string" where
  "no_calibration m =
     ''[ServiceClient]:'' @ [CHR 0x0A] @ ''Is Calibrated = 0'' @ [CHR 0x0A] @ ''Response = '' @
     (if m mod 7 = 0 \<and> m mod 3 \<noteq> 0 then ''Calibrated Failed'' else ''Unknown Sensor Id to Calibrate!'')"

lemma tick_not_calibrated:
  assumes "wait_for_service polls = Some True" "timer_counter c = int n"
  shows "\<exists>q. SubscriberClientNode_tick c polls = (q, c\<lparr>timer_counter := int (Suc n)\<rparr>) \<and>
    combined_answer q = Some (no_calibration (Suc n))"
proof -
  have m: "(int n + 1) mod 3 = 0 \<longleftrightarrow> Suc n mod 3 = 0" "(int n + 1) mod 7 = 0 \<longleftrightarrow> Suc n mod 7 = 0" by presburger+
  show ?thesis
    using assms
    by (cases "Suc n mod 3 = 0"; cases "Suc n mod 7 = 0")
      (simp_all add: SubscriberClientNode_tick_def Combined_OnTimerAsync_callback_def Combined_QueueAsyncRequest_def
        queue_request_def Let_def m Request_new_def handle_set_bool_def calibration_defs combined_answer_def no_calibration_def
        Combined_response_received_callback_def show_bool_def add.commute [of 1])
qed

lemma client_ticks_not_calibrated:
  "list_all (\<lambda>polls. wait_for_service polls = Some True) ps \<Longrightarrow> timer_counter c = int n \<Longrightarrow>
   map combined_answer (client_ticks ps c) = map (\<lambda>m. Some (no_calibration m)) [Suc n..<Suc n + length ps]"
proof (induction ps arbitrary: c n)
  case (Cons polls ps)
  obtain q where q: "SubscriberClientNode_tick c polls = (q, c\<lparr>timer_counter := int (Suc n)\<rparr>)"
    "combined_answer q = Some (no_calibration (Suc n))"
    using tick_not_calibrated [of polls c n] Cons.prems by auto
  have u: "[Suc n..<Suc n + length (polls # ps)] = Suc n # [Suc (Suc n)..<Suc (Suc n) + length ps]"
    by (simp add: upt_conv_Cons del: upt_Suc)
  show ?case
    unfolding u using Cons.prems Cons.IH [of "c\<lparr>timer_counter := int (Suc n)\<rparr>" "Suc n"] q by (simp del: upt_Suc)
qed simp

theorem combined_client_never_calibrates:
  assumes "list_all (\<lambda>polls. wait_for_service polls = Some True) (polls # ps)"
  shows "\<exists>q c. SubscriberClientNode_ctor polls = Some (q, c) \<and>
    combined_answer q = Some (Combined_response_received_callback \<lparr>is_calibrated = False, error_margin = 2, response = ''Calibrated Failed''\<rparr>) \<and>
    map combined_answer (client_ticks ps c) = map (\<lambda>m. Some (no_calibration m)) [1..<Suc (length ps)]"
  using assms client_ticks_not_calibrated [of ps _ 0]
  by (simp add: SubscriberClientNode_ctor_def Combined_QueueAsyncRequest_def queue_request_def OnTimerAsync_def
      Request_new_def handle_set_bool_def calibration_defs combined_answer_def Let_def del: upt_Suc)

theorem combined_client_never_calibrates_witness:
  "\<exists>q c. SubscriberClientNode_ctor [(False, True), (True, True)] = Some (q, c) \<and>
    map combined_answer (client_ticks [[(True, True)], [(False, True), (True, False)]] c) =
      map (\<lambda>m. Some (no_calibration m)) [1, 2]"
  using combined_client_never_calibrates [of "[(False, True), (True, True)]" "[[(True, True)], [(False, True), (True, False)]]"]
  by (auto simp: upt_rec numeral_2_eq_2)

end
