(* ===== verification/Demo_Lifecycle.thy ===== *)
theory Demo_Lifecycle
  imports Mw_Prelude
begin

text \<open>
  The lifecycle demonstration (\<open>demo_to_cat/src/lifecycle\<close>): a managed publisher node, and the client that
  takes it through its lifecycle over the services \<open>change_state\<close> and \<open>get_state\<close>.  Shown: the publisher
  never uses a publisher it does not have, in whatever order its callbacks and timer run; the script of
  the client ends with exactly one of its two flags set, so that the executor is woken; and with a
  reachable node the script runs through and the node publishes exactly in its two active phases.

  The table of transitions belongs to \<open>rclcpp_lifecycle\<close>: it is the argument \<open>table\<close>, of which
  \<open>documented_table\<close> states the five documented rows that the script uses.  The base class callback
  \<open>LifecycleNode::on_activate\<close> activates the publishers that exist, \<open>on_deactivate\<close> deactivates them, and an
  inactive publisher drops what it is given, as \<open>rclcpp_lifecycle\<close> documents.
\<close>

section \<open>The publisher node\<close>

text \<open>\<open>pub\<close> is the publisher with its activation, \<open>None\<close> for a null pointer; \<open>count\<close> is the static counter.\<close>

record LifecyclePublisherNode =
  pub :: "bool option"
  timer :: bool
  count :: u64
  sent :: "string list"

definition LifecyclePublisherNode_ctor :: LifecyclePublisherNode where
  "LifecyclePublisherNode_ctor = \<lparr>pub = None, timer = False, count = 0, sent = []\<rparr>"

definition message_text :: "u64 \<Rightarrow> string" where
  "message_text n = ''Lifecycle HelloWorld #'' @ show_nat (unat n)"

definition publish :: "LifecyclePublisherNode \<Rightarrow> LifecyclePublisherNode cpp" where
  "publish s =
     (let s = s\<lparr>count := count s + 1\<rparr>;
          msg = message_text (count s)
      in case pub s of
           None \<Rightarrow> Inl NullDereference
         | Some activated \<Rightarrow> Inr (if activated then s\<lparr>sent := sent s @ [msg]\<rparr> else s))"

definition on_configure :: "LifecyclePublisherNode \<Rightarrow> LifecyclePublisherNode" where
  "on_configure s = s\<lparr>pub := Some False, timer := True\<rparr>"

definition on_activate :: "LifecyclePublisherNode \<Rightarrow> LifecyclePublisherNode" where
  "on_activate s = s\<lparr>pub := map_option (\<lambda>_. True) (pub s)\<rparr>"

definition on_deactivate :: "LifecyclePublisherNode \<Rightarrow> LifecyclePublisherNode" where
  "on_deactivate s = s\<lparr>pub := map_option (\<lambda>_. False) (pub s)\<rparr>"

definition on_cleanup :: "LifecyclePublisherNode \<Rightarrow> LifecyclePublisherNode" where
  "on_cleanup s = s\<lparr>timer := False, pub := None\<rparr>"

definition on_shutdown :: "LifecyclePublisherNode \<Rightarrow> LifecyclePublisherNode" where
  "on_shutdown s = s\<lparr>timer := False, pub := None\<rparr>"

text \<open>The wall timer calls \<open>publish\<close> while it exists.\<close>

definition timer_expired :: "LifecyclePublisherNode \<Rightarrow> LifecyclePublisherNode cpp" where
  "timer_expired s = (if timer s then publish s else Inr s)"

section \<open>The managed node\<close>

datatype Transition =
    TRANSITION_CONFIGURE
  | TRANSITION_ACTIVATE
  | TRANSITION_DEACTIVATE
  | TRANSITION_CLEANUP
  | TRANSITION_UNCONFIGURED_SHUTDOWN

definition PRIMARY_STATE_UNKNOWN :: nat where "PRIMARY_STATE_UNKNOWN = 0"

type_synonym transition_table = "Transition \<Rightarrow> nat \<Rightarrow> nat option"

definition documented_table :: "transition_table \<Rightarrow> bool" where
  "documented_table table \<longleftrightarrow>
     table TRANSITION_CONFIGURE 1 = Some 2 \<and> table TRANSITION_ACTIVATE 2 = Some 3 \<and>
     table TRANSITION_DEACTIVATE 3 = Some 2 \<and> table TRANSITION_CLEANUP 2 = Some 1 \<and>
     table TRANSITION_UNCONFIGURED_SHUTDOWN 1 = Some 4"

fun transition_callback :: "Transition \<Rightarrow> LifecyclePublisherNode \<Rightarrow> LifecyclePublisherNode" where
  "transition_callback TRANSITION_CONFIGURE = on_configure"
| "transition_callback TRANSITION_ACTIVATE = on_activate"
| "transition_callback TRANSITION_DEACTIVATE = on_deactivate"
| "transition_callback TRANSITION_CLEANUP = on_cleanup"
| "transition_callback TRANSITION_UNCONFIGURED_SHUTDOWN = on_shutdown"

text \<open>The service \<open>change_state\<close> of the node: every callback returns \<open>SUCCESS\<close>.\<close>

definition node_change_state ::
  "transition_table \<Rightarrow> Transition \<Rightarrow> nat \<times> LifecyclePublisherNode \<Rightarrow> bool \<times> nat \<times> LifecyclePublisherNode" where
  "node_change_state table t sn =
     (case table t (fst sn) of
        None \<Rightarrow> (False, sn)
      | Some goal \<Rightarrow> (True, goal, transition_callback t (snd sn)))"

section \<open>The client\<close>

datatype wait_status = fs_ready | fs_timeout

text \<open>
  The loop of \<open>wait_for_result\<close>: a poll is the time, whether the future is ready within the wait, and
  what \<open>rclcpp::ok\<close> says after it.  With no poll left the deadline has passed.
\<close>

fun wait_for_result :: "int \<Rightarrow> (int \<times> bool \<times> bool) list \<Rightarrow> wait_status" where
  "wait_for_result deadline [] = fs_timeout"
| "wait_for_result deadline ((now, ready, ok) # polls) =
     (if deadline - now \<le> 0 then fs_timeout
      else
        (let status = (if ready then fs_ready else fs_timeout)
         in if ok \<and> status \<noteq> fs_ready then wait_for_result deadline polls else status))"

record call_env =
  service_available :: bool
  deadline :: int
  polls :: "(int \<times> bool \<times> bool) list"

text \<open>A request that was sent changes the node even when its answer comes too late.\<close>

definition change_state :: "call_env \<Rightarrow> (Transition \<Rightarrow> 'n \<Rightarrow> bool \<times> 'n) \<Rightarrow> Transition \<Rightarrow> 'n \<Rightarrow> bool \<times> 'n" where
  "change_state env service transition n =
     (if \<not> service_available env then (False, n)
      else
        (case service transition n of
           (success, n') \<Rightarrow>
             if wait_for_result (deadline env) (polls env) \<noteq> fs_ready then (False, n')
             else if success then (True, n') else (False, n')))"

definition get_state :: "call_env \<Rightarrow> ('n \<Rightarrow> nat option) \<Rightarrow> 'n \<Rightarrow> nat" where
  "get_state env service n =
     (if \<not> service_available env then PRIMARY_STATE_UNKNOWN
      else if wait_for_result (deadline env) (polls env) \<noteq> fs_ready then PRIMARY_STATE_UNKNOWN
      else (case service n of Some i \<Rightarrow> i | None \<Rightarrow> PRIMARY_STATE_UNKNOWN))"

record TaskStatus =
  ts_completed :: bool
  ts_interrupted :: bool

definition interrupted :: "TaskStatus \<Rightarrow> TaskStatus" where
  "interrupted status = status\<lparr>ts_interrupted := True\<rparr>"

definition completed :: "TaskStatus \<Rightarrow> TaskStatus" where
  "completed status = status\<lparr>ts_completed := True\<rparr>"

definition script_transitions :: "Transition list" where
  "script_transitions =
     [TRANSITION_CONFIGURE, TRANSITION_ACTIVATE, TRANSITION_DEACTIVATE, TRANSITION_ACTIVATE,
      TRANSITION_DEACTIVATE, TRANSITION_CLEANUP, TRANSITION_UNCONFIGURED_SHUTDOWN]"

text \<open>
  The environment of one round of the script: \<open>rclcpp::ok\<close>, the two calls, and what happens to the
  node during the ten seconds between two state changes.
\<close>

record 'n round_env =
  r_ok :: bool
  r_change :: call_env
  r_get :: call_env
  r_sleep :: "'n \<Rightarrow> 'n"

fun script_loop ::
  "(Transition \<Rightarrow> 'n \<Rightarrow> bool \<times> 'n) \<Rightarrow> ('n \<Rightarrow> nat option) \<Rightarrow> (nat \<Rightarrow> 'n round_env) \<Rightarrow> nat \<Rightarrow> Transition list
     \<Rightarrow> bool \<Rightarrow> 'n \<Rightarrow> bool \<times> 'n" where
  "script_loop change get env k [] is_interrupted n = (is_interrupted, n)"
| "script_loop change get env k (it # rest) is_interrupted n =
     (if \<not> r_ok (env k) then (True, n)
      else
        (case change_state (r_change (env k)) change it n of
           (False, n') \<Rightarrow> (True, n')
         | (True, n') \<Rightarrow>
             if get_state (r_get (env k)) get n' = 0 then (True, n')
             else script_loop change get env (k + 1) rest False (r_sleep (env k) n')))"

definition callee_script ::
  "(Transition \<Rightarrow> 'n \<Rightarrow> bool \<times> 'n) \<Rightarrow> ('n \<Rightarrow> nat option) \<Rightarrow> (nat \<Rightarrow> 'n round_env) \<Rightarrow> TaskStatus \<times> 'n
     \<Rightarrow> TaskStatus \<times> 'n" where
  "callee_script change get env stn =
     (case script_loop change get env 0 script_transitions False (snd stn) of
        (is_interrupted, n') \<Rightarrow> (if is_interrupted then interrupted (fst stn) else completed (fst stn), n'))"

text \<open>\<open>wake_executor\<close> cancels the executor when its condition holds.\<close>

definition wake_condition :: "TaskStatus \<Rightarrow> bool" where
  "wake_condition status \<longleftrightarrow> ts_completed status \<or> ts_interrupted status"

section \<open>Safety of the publisher\<close>

datatype lifecycle_event = Callback Transition | TimerExpired

fun run_events :: "lifecycle_event list \<Rightarrow> LifecyclePublisherNode \<Rightarrow> LifecyclePublisherNode cpp" where
  "run_events [] s = Inr s"
| "run_events (Callback t # es) s = run_events es (transition_callback t s)"
| "run_events (TimerExpired # es) s = (case timer_expired s of Inl e \<Rightarrow> Inl e | Inr s' \<Rightarrow> run_events es s')"

definition timer_has_publisher :: "LifecyclePublisherNode \<Rightarrow> bool" where
  "timer_has_publisher s \<longleftrightarrow> (timer s \<longrightarrow> pub s \<noteq> None)"

lemma transition_callback_inv: "timer_has_publisher s \<Longrightarrow> timer_has_publisher (transition_callback t s)"
  by (cases t) (auto simp: timer_has_publisher_def on_configure_def on_activate_def on_deactivate_def
      on_cleanup_def on_shutdown_def)

lemma timer_expired_inv:
  "timer_has_publisher s \<Longrightarrow>
   \<exists>s'. timer_expired s = Inr s' \<and> timer_has_publisher s' \<and>
     (sent s' = sent s \<or> pub s = Some True \<and> timer s \<and> sent s' = sent s @ [message_text (count s + 1)])"
  by (auto simp: timer_has_publisher_def timer_expired_def publish_def Let_def)

text \<open>
  Whatever sequence of lifecycle callbacks and timer expiries the node is given, also ones that no
  table of transitions allows, it never dereferences a null publisher, and a timer exists only with a
  publisher; a message is sent only by an expiry of a timer whose publisher is active.
\<close>

theorem lifecycle_publisher_safe:
  "\<exists>s. run_events es LifecyclePublisherNode_ctor = Inr s \<and> timer_has_publisher s \<and>
    (\<exists>s'. timer_expired s = Inr s' \<and>
       (sent s' \<noteq> sent s) = (timer s \<and> pub s = Some True))"
proof -
  have "timer_has_publisher s0 \<Longrightarrow> \<exists>s. run_events es s0 = Inr s \<and> timer_has_publisher s" for s0
  proof (induction es s0 rule: run_events.induct)
    case (2 t es s)
    then show ?case using transition_callback_inv by simp
  next
    case (3 es s)
    then show ?case using timer_expired_inv [of s] by auto
  qed simp
  then obtain s where s: "run_events es LifecyclePublisherNode_ctor = Inr s" "timer_has_publisher s"
    by (force simp: LifecyclePublisherNode_ctor_def timer_has_publisher_def)
  then show ?thesis
    by (auto simp: timer_has_publisher_def timer_expired_def publish_def Let_def)
qed

section \<open>The script\<close>

text \<open>The service with a record of the transitions it was asked for.\<close>

definition recording :: "(Transition \<Rightarrow> 'n \<Rightarrow> bool \<times> 'n) \<Rightarrow> Transition \<Rightarrow> Transition list \<times> 'n \<Rightarrow> bool \<times> Transition list \<times> 'n" where
  "recording change t tn = (case change t (snd tn) of (b, n') \<Rightarrow> (b, fst tn @ [t], n'))"

lemma script_loop_trace:
  assumes "script_loop (recording change) get env k ts b (tr, n) = (b', tr', n')" "\<And>j x. fst (r_sleep (env j) x) = fst x"
  shows "\<exists>m. tr' = tr @ take m ts \<and> (\<not> b' \<longrightarrow> tr' = tr @ ts) \<and> (b' \<longrightarrow> b \<or> ts \<noteq> [])"
  using assms(1)
proof (induction ts arbitrary: k b tr n)
  case Nil
  then show ?case by simp
next
  case (Cons t ts)
  show ?case
  proof (cases "r_ok (env k)")
    case False
    then show ?thesis using Cons.prems by (auto intro: exI [of _ 0])
  next
    case ok: True
    obtain c tr1 n1 where c: "change_state (r_change (env k)) (recording change) t (tr, n) = (c, tr1, n1)"
      by (metis prod_cases3)
    have tr1: "tr1 = tr \<or> tr1 = tr @ [t]" "c \<Longrightarrow> tr1 = tr @ [t]"
      using c by (auto simp: change_state_def recording_def split: if_splits prod.splits)
    show ?thesis
    proof (cases "c \<and> get_state (r_get (env k)) get (tr1, n1) \<noteq> 0")
      case False
      then have "tr' = tr1" "b'" using Cons.prems ok by (auto simp: c split: bool.splits)
      then show ?thesis using tr1 by (auto intro: exI [of _ 0] exI [of _ 1])
    next
      case True
      obtain n2 where n2: "r_sleep (env k) (tr1, n1) = (tr1, n2)" using assms(2) [of k "(tr1, n1)"] by (metis fst_conv surj_pair)
      have "script_loop (recording change) get env (k + 1) ts False (tr1, n2) = (b', tr', n')"
        using Cons.prems ok True by (simp add: c n2)
      then obtain m where "tr' = tr1 @ take m ts" "\<not> b' \<longrightarrow> tr' = tr1 @ ts" using Cons.IH by blast
      then show ?thesis using tr1 True by (auto intro: exI [of _ "Suc m"])
    qed
  qed
qed

text \<open>
  The script against any node and any environment: it ends with exactly one of the flags set, so that
  the condition of \<open>wake_executor\<close> holds; the transitions it requested are an initial part of the
  seven of the script, and all of them when it reports completion.
\<close>

theorem script_reports:
  assumes "\<And>j x. fst (r_sleep (env j) x) = fst x"
    "callee_script (recording change) get env (\<lparr>ts_completed = False, ts_interrupted = False\<rparr>, [], n) = (status, tr, n')"
  shows "wake_condition status \<and> ts_completed status \<noteq> ts_interrupted status \<and>
    (\<exists>m. tr = take m script_transitions) \<and> (ts_completed status \<longrightarrow> tr = script_transitions)"
proof -
  obtain b' where l: "script_loop (recording change) get env 0 script_transitions False ([], n) = (b', tr, n')"
    and st: "status = (if b' then interrupted \<lparr>ts_completed = False, ts_interrupted = False\<rparr>
      else completed \<lparr>ts_completed = False, ts_interrupted = False\<rparr>)"
    using assms(2) by (auto simp: callee_script_def split: prod.splits)
  show ?thesis
    using script_loop_trace [OF l assms(1)] st by (auto simp: wake_condition_def interrupted_def completed_def)
qed

section \<open>The script with the publisher node\<close>

definition node_service ::
  "transition_table \<Rightarrow> Transition \<Rightarrow> (nat \<times> LifecyclePublisherNode) cpp \<Rightarrow> bool \<times> (nat \<times> LifecyclePublisherNode) cpp" where
  "node_service table t n =
     (case n of
        Inl e \<Rightarrow> (False, Inl e)
      | Inr sn \<Rightarrow> (case node_change_state table t sn of (b, sn') \<Rightarrow> (b, Inr sn')))"

definition node_state :: "(nat \<times> LifecyclePublisherNode) cpp \<Rightarrow> nat option" where
  "node_state n = (case n of Inl _ \<Rightarrow> None | Inr sn \<Rightarrow> Some (fst sn))"

definition node_sleep :: "nat \<Rightarrow> (nat \<times> LifecyclePublisherNode) cpp \<Rightarrow> (nat \<times> LifecyclePublisherNode) cpp" where
  "node_sleep m n =
     (case n of
        Inl e \<Rightarrow> Inl e
      | Inr (st, s) \<Rightarrow> (case run_events (replicate m TimerExpired) s of Inl e \<Rightarrow> Inl e | Inr s' \<Rightarrow> Inr (st, s')))"

definition reachable_call :: "call_env \<Rightarrow> bool" where
  "reachable_call env \<longleftrightarrow> service_available env \<and> wait_for_result (deadline env) (polls env) = fs_ready"

lemma change_state_reachable: "reachable_call env \<Longrightarrow> change_state env service t n = service t n"
  by (auto simp: change_state_def reachable_call_def split: prod.split)

lemma get_state_reachable: "reachable_call env \<Longrightarrow> service n = Some i \<Longrightarrow> get_state env service n = i"
  by (simp add: get_state_def reachable_call_def)

lemma expiries_without_timer: "\<not> timer s \<Longrightarrow> run_events (replicate m TimerExpired) s = Inr s"
  by (induction m) (simp_all add: timer_expired_def)

lemma expiries_with_timer:
  "timer s \<Longrightarrow> pub s = Some a \<Longrightarrow> run_events (replicate m TimerExpired) s =
     Inr (s\<lparr>count := count s + of_nat m,
            sent := sent s @ (if a then map (\<lambda>k. message_text (count s + of_nat k)) [1..<Suc m] else [])\<rparr>)"
proof (induction m arbitrary: s)
  case (Suc m)
  let ?s = "s\<lparr>count := count s + 1, sent := sent s @ (if a then [message_text (count s + 1)] else [])\<rparr>"
  have step: "timer_expired s = Inr ?s" using Suc.prems by (simp add: timer_expired_def publish_def Let_def)
  have shift: "map (\<lambda>k. message_text (count s + 1 + of_nat k)) [1..<Suc m] =
      map (\<lambda>k. message_text (count s + of_nat k)) [2..<Suc (Suc m)]"
  proof -
    have "[2..<Suc (Suc m)] = map Suc [1..<Suc m]" by (simp add: map_Suc_upt numeral_2_eq_2)
    then show ?thesis by (simp add: comp_def add.assoc)
  qed
  have "run_events (replicate (Suc m) TimerExpired) s = run_events (replicate m TimerExpired) ?s"
    by (simp add: step)
  also have "\<dots> = Inr (?s\<lparr>count := count ?s + of_nat m,
      sent := sent ?s @ (if a then map (\<lambda>k. message_text (count ?s + of_nat k)) [1..<Suc m] else [])\<rparr>)"
    using Suc by (intro Suc.IH) simp_all
  finally have run: "run_events (replicate (Suc m) TimerExpired) s = Inr (?s\<lparr>count := count ?s + of_nat m,
      sent := sent ?s @ (if a then map (\<lambda>k. message_text (count ?s + of_nat k)) [1..<Suc m] else [])\<rparr>)" .
  have "[1..<Suc (Suc m)] = 1 # [2..<Suc (Suc m)]" by (simp add: upt_conv_Cons numeral_2_eq_2)
  then show ?case using run shift by (cases a) (simp_all add: add.assoc del: upt_Suc)
qed (simp split: if_split)

text \<open>
C30: The script of the client with the publisher node, over any table of transitions with the documented
  rows, when both services answer in time.  With \<open>e k\<close> expiries of the node's timer after the \<open>k\<close>-th
  state change, the script completes and leaves the node finalised without timer and publisher; what
  the node has sent are the numbered messages of its two active phases, the expiries of the inactive
  phases having been counted and dropped.
\<close>

theorem script_drives_publisher:
  assumes "documented_table table"
    "\<And>k. r_ok (env k) \<and> reachable_call (r_change (env k)) \<and> reachable_call (r_get (env k)) \<and> r_sleep (env k) = node_sleep (e k)"
  shows "\<exists>s. callee_script (node_service table) node_state env
      (\<lparr>ts_completed = False, ts_interrupted = False\<rparr>, Inr (1, LifecyclePublisherNode_ctor)) =
      (\<lparr>ts_completed = True, ts_interrupted = False\<rparr>, Inr (4, s)) \<and>
    timer s = False \<and> pub s = None \<and>
    sent s = map (\<lambda>k. message_text (of_nat k)) ([e 0 + 1..<e 0 + e 1 + 1] @ [e 0 + e 1 + e 2 + 1..<e 0 + e 1 + e 2 + e 3 + 1])"
proof -
  have env: "r_ok (env k)" "change_state (r_change (env k)) service t n = service t n"
    "get_state (r_get (env k)) node_state (Inr (i, s)) = i" "r_sleep (env k) = node_sleep (e k)"
    for k service t and n :: "(nat \<times> LifecyclePublisherNode) cpp" and i s
    using assms(2) [of k] by (simp_all add: change_state_reachable get_state_reachable node_state_def)
  have upt: "map (\<lambda>k. message_text (of_nat m + of_nat k)) [Suc 0..<Suc j] =
      map (\<lambda>k. message_text (of_nat k)) [Suc m..<Suc (m + j)]" for m j
  proof -
    have "[Suc m..<Suc (m + j)] = map (\<lambda>k. m + k) [Suc 0..<Suc j]"
      by (rule nth_equalityI) (simp_all del: upt_Suc)
    then show ?thesis by (simp add: comp_def del: upt_Suc)
  qed
  show ?thesis
    using assms(1) upt upt [of "e 0 + e 1 + e 2" "e 3"]
    by (simp add: numeral_2_eq_2 numeral_3_eq_3 callee_script_def script_transitions_def env node_service_def node_change_state_def documented_table_def
        node_sleep_def expiries_with_timer [where a = True] expiries_with_timer [where a = False]
        expiries_without_timer on_configure_def on_activate_def on_deactivate_def
        on_cleanup_def on_shutdown_def LifecyclePublisherNode_ctor_def completed_def del: upt_Suc)
qed

text \<open>A table with the documented rows, and a round in which both services answer at the first poll.\<close>

fun example_table :: transition_table where
  "example_table TRANSITION_CONFIGURE st = (if st = 1 then Some 2 else None)"
| "example_table TRANSITION_ACTIVATE st = (if st = 2 then Some 3 else None)"
| "example_table TRANSITION_DEACTIVATE st = (if st = 3 then Some 2 else None)"
| "example_table TRANSITION_CLEANUP st = (if st = 2 then Some 1 else None)"
| "example_table TRANSITION_UNCONFIGURED_SHUTDOWN st = (if st = 1 then Some 4 else None)"

definition example_call :: call_env where
  "example_call = \<lparr>service_available = True, deadline = 3000, polls = [(0, False, True), (100, True, True)]\<rparr>"

theorem script_drives_publisher_witness:
  "\<exists>s. callee_script (node_service example_table) node_state
      (\<lambda>k. \<lparr>r_ok = True, r_change = example_call, r_get = example_call, r_sleep = node_sleep 1\<rparr>)
      (\<lparr>ts_completed = False, ts_interrupted = False\<rparr>, Inr (1, LifecyclePublisherNode_ctor)) =
      (\<lparr>ts_completed = True, ts_interrupted = False\<rparr>, Inr (4, s)) \<and>
    sent s = [message_text 2, message_text 4]"
  using script_drives_publisher [of example_table
      "\<lambda>k. \<lparr>r_ok = True, r_change = example_call, r_get = example_call, r_sleep = node_sleep 1\<rparr>" "\<lambda>_. 1"]
  by (auto simp: documented_table_def reachable_call_def example_call_def Let_def)

theorem script_reports_witness:
  "callee_script (recording (\<lambda>t n. (t \<noteq> TRANSITION_DEACTIVATE, n))) (\<lambda>_. Some 1)
     (\<lambda>k. \<lparr>r_ok = True, r_change = example_call, r_get = example_call, r_sleep = (\<lambda>x. x)\<rparr>)
     (\<lparr>ts_completed = False, ts_interrupted = False\<rparr>, [], ()) =
     (\<lparr>ts_completed = False, ts_interrupted = True\<rparr>,
      [TRANSITION_CONFIGURE, TRANSITION_ACTIVATE, TRANSITION_DEACTIVATE], ()) \<and>
   wake_condition \<lparr>ts_completed = False, ts_interrupted = True\<rparr>"
proof -
  let ?env = "\<lambda>k. \<lparr>r_ok = True, r_change = example_call, r_get = example_call, r_sleep = (\<lambda>x. x)\<rparr> :: (Transition list \<times> unit) round_env"
  have "callee_script (recording (\<lambda>t n. (t \<noteq> TRANSITION_DEACTIVATE, n))) (\<lambda>_. Some 1) ?env
     (\<lparr>ts_completed = False, ts_interrupted = False\<rparr>, [], ()) =
     (\<lparr>ts_completed = False, ts_interrupted = True\<rparr>, [TRANSITION_CONFIGURE, TRANSITION_ACTIVATE, TRANSITION_DEACTIVATE], ())"
    by (simp add: callee_script_def script_transitions_def change_state_def get_state_def recording_def example_call_def
        interrupted_def Let_def)
  then show ?thesis using script_reports [of ?env] by fastforce
qed

end
