(* ===== verification/Cdr_Stream.thy ===== *)
theory Cdr_Stream
  imports Rpc_Bindings
begin

text \<open>
  The interface between the generated type support and Fast CDR, the third-party serialiser.  The
  generated code makes calls on a \<open>Cdr\<close> object: the writing calls of one object are a list of
  \<open>cdr_put\<close>; reading goes through \<open>cdr_reader\<close>, whose state \<open>'s\<close> is the stream; sizes are computed through
  \<open>cdr_sizes\<close>, whose state \<open>'z\<close> is the calculator with the current alignment.  An exception of Fast CDR is
  \<open>None\<close>.

  What the generated code relies on is stated by \<open>cdr_read_laws\<close> (reading calls that mirror the
  writing calls return what was written), \<open>cdr_size_laws\<close> (the calculator adds up what the calls write)
  and \<open>cdr_codec_laws\<close>; the locale \<open>wire_type\<close> is what a generated type provides: its two halves mirror each
  other.  \<open>token_reader\<close> and the definitions around it are an instance of the interface.
\<close>

section \<open>Calls\<close>

datatype cdr_version = XCDRv1 | XCDRv2

datatype encoding_flag = PLAIN_CDR | PLAIN_CDR2 | DELIMIT_CDR2 | PL_CDR | PL_CDR2

text \<open>
  \<open>begin_serialize_type\<close>, \<open>MemberId\<close>, \<open>operator<<\<close> of a value, of an optional with and without a value (the
  calls of the value follow), and \<open>end_serialize_type\<close>.
\<close>

datatype cdr_put =
    Begin_type encoding_flag
  | Member_id u32
  | Put_string string
  | Put_u32 u32
  | Put_octets bytes
  | Put_code RemoteExceptionCode_t
  | Optional_present
  | Optional_absent
  | End_type

text \<open>The encodings of the three kinds of IDL types: appendable, final and mutable.\<close>

definition delimited_flag :: "cdr_version \<Rightarrow> encoding_flag" where
  "delimited_flag v = (if v = XCDRv2 then DELIMIT_CDR2 else PLAIN_CDR)"

definition final_flag :: "cdr_version \<Rightarrow> encoding_flag" where
  "final_flag v = (if v = XCDRv2 then PLAIN_CDR2 else PLAIN_CDR)"

definition mutable_flag :: "cdr_version \<Rightarrow> encoding_flag" where
  "mutable_flag v = (if v = XCDRv2 then PL_CDR2 else PL_CDR)"

definition put_type :: "encoding_flag \<Rightarrow> (u32 \<times> cdr_put list) list \<Rightarrow> cdr_put list" where
  "put_type f members = Begin_type f # concat (map (\<lambda>(i, ps). Member_id i # ps) members) @ [End_type]"

definition put_optional :: "('a \<Rightarrow> cdr_put list) \<Rightarrow> 'a option \<Rightarrow> cdr_put list" where
  "put_optional ser x = (case x of None \<Rightarrow> [Optional_absent] | Some y \<Rightarrow> Optional_present # ser y)"

text \<open>
  Well-formed calls: types are closed, and the members of a type that is not mutable are numbered from
  0 in order, since their numbers are not transmitted.  The stack has the open types with the number of
  the next member.
\<close>

type_synonym open_types = "(encoding_flag \<times> u32) list"

definition sequential :: "encoding_flag \<Rightarrow> bool" where
  "sequential f \<longleftrightarrow> f \<noteq> PL_CDR \<and> f \<noteq> PL_CDR2"

fun wf_puts :: "open_types \<Rightarrow> cdr_put list \<Rightarrow> open_types option" where
  "wf_puts K [] = Some K"
| "wf_puts K (Begin_type f # ps) = wf_puts ((f, 0) # K) ps"
| "wf_puts K (Member_id i # ps) =
     (case K of [] \<Rightarrow> None
      | (f, k) # K' \<Rightarrow> if sequential f \<and> i \<noteq> k then None else wf_puts ((f, i + 1) # K') ps)"
| "wf_puts K (End_type # ps) = (case K of [] \<Rightarrow> None | _ # K' \<Rightarrow> wf_puts K' ps)"
| "wf_puts K (_ # ps) = wf_puts K ps"

section \<open>Reading\<close>

text \<open>
  \<open>rd_enter\<close> and \<open>rd_next\<close> are the two parts of \<open>deserialize_type\<close>: entering the type, and the number of
  the member its functor is called with next, given what the functor returned last; \<open>None\<close> ends the type.
\<close>

record 's cdr_reader =
  rd_string :: "'s \<Rightarrow> (string \<times> 's) option"
  rd_u32 :: "'s \<Rightarrow> (u32 \<times> 's) option"
  rd_octets :: "'s \<Rightarrow> (bytes \<times> 's) option"
  rd_code :: "'s \<Rightarrow> (RemoteExceptionCode_t \<times> 's) option"
  rd_present :: "'s \<Rightarrow> (bool \<times> 's) option"
  rd_enter :: "encoding_flag \<Rightarrow> 's \<Rightarrow> 's option"
  rd_next :: "encoding_flag \<Rightarrow> bool \<Rightarrow> 's \<Rightarrow> (u32 option \<times> 's) option"

type_synonym ('s, 'a) member_functor = "u32 \<Rightarrow> 's \<Rightarrow> 'a \<Rightarrow> (bool \<times> 's \<times> 'a) option"

partial_function (option) member_loop ::
  "'s cdr_reader \<Rightarrow> encoding_flag \<Rightarrow> ('s, 'a) member_functor \<Rightarrow> bool \<Rightarrow> 's \<Rightarrow> 'a \<Rightarrow> ('s \<times> 'a) option" where
  "member_loop rd f fct again s x =
     Option.bind (rd_next rd f again s) (\<lambda>(mid, s').
       case mid of
         None \<Rightarrow> Some (s', x)
       | Some i \<Rightarrow> Option.bind (fct i s' x) (\<lambda>(again', s'', x'). member_loop rd f fct again' s'' x'))"

definition deserialize_type ::
  "'s cdr_reader \<Rightarrow> encoding_flag \<Rightarrow> ('s, 'a) member_functor \<Rightarrow> 's \<Rightarrow> 'a \<Rightarrow> ('s \<times> 'a) option" where
  "deserialize_type rd f fct s x = Option.bind (rd_enter rd f s) (\<lambda>s'. member_loop rd f fct True s' x)"

text \<open>The branches of a functor: \<open>dcdr >> member; break;\<close> and \<open>default: ret_value = false\<close>.\<close>

definition read_member :: "('s \<Rightarrow> ('m \<times> 's) option) \<Rightarrow> ('m \<Rightarrow> 'a) \<Rightarrow> 's \<Rightarrow> (bool \<times> 's \<times> 'a) option" where
  "read_member get store s = Option.bind (get s) (\<lambda>(m, s'). Some (True, s', store m))"

definition unknown_member :: "'s \<Rightarrow> 'a \<Rightarrow> (bool \<times> 's \<times> 'a) option" where
  "unknown_member s x = Some (False, s, x)"

text \<open>\<open>operator>>\<close> of an object of a generated type, and of an optional of one.\<close>

definition get_object :: "('s \<Rightarrow> 'a \<Rightarrow> ('s \<times> 'a) option) \<Rightarrow> 'a \<Rightarrow> 's \<Rightarrow> ('a \<times> 's) option" where
  "get_object des x s = Option.bind (des s x) (\<lambda>(s', y). Some (y, s'))"

definition get_optional :: "'s cdr_reader \<Rightarrow> ('s \<Rightarrow> ('a \<times> 's) option) \<Rightarrow> 's \<Rightarrow> ('a option \<times> 's) option" where
  "get_optional rd get s =
     Option.bind (rd_present rd s) (\<lambda>(present, s').
       if present then Option.bind (get s') (\<lambda>(x, s''). Some (Some x, s'')) else Some (None, s'))"

text \<open>
  The laws.  \<open>R s K ps\<close> reads: the stream \<open>s\<close> stands before what the calls \<open>ps\<close> wrote, inside the open
  types \<open>K\<close>.  A member without a value may be left out of the data; at the end of a type the functor may
  be offered the number after the last member, and the type ends when it declines.
\<close>

definition cdr_read_laws :: "'s cdr_reader \<Rightarrow> ('s \<Rightarrow> open_types \<Rightarrow> cdr_put list \<Rightarrow> bool) \<Rightarrow> bool" where
  "cdr_read_laws rd R \<longleftrightarrow>
     (\<forall>s K x ps. R s K (Put_string x # ps) \<longrightarrow> (\<exists>s'. rd_string rd s = Some (x, s') \<and> R s' K ps)) \<and>
     (\<forall>s K x ps. R s K (Put_u32 x # ps) \<longrightarrow> (\<exists>s'. rd_u32 rd s = Some (x, s') \<and> R s' K ps)) \<and>
     (\<forall>s K x ps. R s K (Put_octets x # ps) \<longrightarrow> (\<exists>s'. rd_octets rd s = Some (x, s') \<and> R s' K ps)) \<and>
     (\<forall>s K x ps. R s K (Put_code x # ps) \<longrightarrow> (\<exists>s'. rd_code rd s = Some (x, s') \<and> R s' K ps)) \<and>
     (\<forall>s K ps. R s K (Optional_present # ps) \<longrightarrow> (\<exists>s'. rd_present rd s = Some (True, s') \<and> R s' K ps)) \<and>
     (\<forall>s K ps. R s K (Optional_absent # ps) \<longrightarrow> (\<exists>s'. rd_present rd s = Some (False, s') \<and> R s' K ps)) \<and>
     (\<forall>s K f ps. R s K (Begin_type f # ps) \<longrightarrow> (\<exists>s'. rd_enter rd f s = Some s' \<and> R s' ((f, 0) # K) ps)) \<and>
     (\<forall>s f k K i p ps. R s ((f, k) # K) (Member_id i # p # ps) \<longrightarrow>
        (\<exists>s'. rd_next rd f True s = Some (Some i, s') \<and> R s' ((f, i + 1) # K) (p # ps)) \<or>
        (p = Optional_absent \<and> \<not> sequential f \<and> R s ((f, k) # K) ps)) \<and>
     (\<forall>s f k K ps. R s ((f, k) # K) (End_type # ps) \<longrightarrow>
        (\<exists>s'. rd_next rd f True s = Some (None, s') \<and> R s' K ps) \<or>
        (\<exists>s' s''. rd_next rd f True s = Some (Some k, s') \<and> rd_next rd f False s' = Some (None, s'') \<and> R s'' K ps))"

lemma cdr_readD:
  assumes "cdr_read_laws rd R"
  shows "R s K (Put_string x # ps) \<Longrightarrow> \<exists>s'. rd_string rd s = Some (x, s') \<and> R s' K ps"
    "R s K (Put_u32 n # ps) \<Longrightarrow> \<exists>s'. rd_u32 rd s = Some (n, s') \<and> R s' K ps"
    "R s K (Put_octets b # ps) \<Longrightarrow> \<exists>s'. rd_octets rd s = Some (b, s') \<and> R s' K ps"
    "R s K (Put_code c # ps) \<Longrightarrow> \<exists>s'. rd_code rd s = Some (c, s') \<and> R s' K ps"
    "R s K (Optional_present # ps) \<Longrightarrow> \<exists>s'. rd_present rd s = Some (True, s') \<and> R s' K ps"
    "R s K (Optional_absent # ps) \<Longrightarrow> \<exists>s'. rd_present rd s = Some (False, s') \<and> R s' K ps"
    "R s K (Begin_type f # ps) \<Longrightarrow> \<exists>s'. rd_enter rd f s = Some s' \<and> R s' ((f, 0) # K) ps"
    "R s ((f, k) # K) (Member_id i # p # ps) \<Longrightarrow>
        (\<exists>s'. rd_next rd f True s = Some (Some i, s') \<and> R s' ((f, i + 1) # K) (p # ps)) \<or>
        (p = Optional_absent \<and> \<not> sequential f \<and> R s ((f, k) # K) ps)"
    "R s ((f, k) # K) (End_type # ps) \<Longrightarrow>
        (\<exists>s'. rd_next rd f True s = Some (None, s') \<and> R s' K ps) \<or>
        (\<exists>s' s''. rd_next rd f True s = Some (Some k, s') \<and> rd_next rd f False s' = Some (None, s'') \<and> R s'' K ps)"
  using assms unfolding cdr_read_laws_def by simp_all

section \<open>Reading back\<close>

text \<open>A reading call gives the value \<open>m\<close> wherever the calls \<open>q\<close> were made.\<close>

definition reads ::
  "('s \<Rightarrow> open_types \<Rightarrow> cdr_put list \<Rightarrow> bool) \<Rightarrow> ('s \<Rightarrow> ('m \<times> 's) option) \<Rightarrow> cdr_put list \<Rightarrow> 'm \<Rightarrow> bool" where
  "reads R get q m \<longleftrightarrow> (\<forall>s K ps. R s K (q @ ps) \<longrightarrow> (\<exists>s'. get s = Some (m, s') \<and> R s' K ps))"

lemma readsD: "reads R get q m \<Longrightarrow> R s K (q @ ps) \<Longrightarrow> \<exists>s'. get s = Some (m, s') \<and> R s' K ps"
  by (simp add: reads_def)

lemma reads_values:
  assumes "cdr_read_laws rd R"
  shows "reads R (rd_string rd) [Put_string x] x" "reads R (rd_u32 rd) [Put_u32 n] n"
    "reads R (rd_octets rd) [Put_octets b] b" "reads R (rd_code rd) [Put_code c] c"
  using cdr_readD [OF assms] by (simp_all add: reads_def)

lemma reads_optional:
  assumes "cdr_read_laws rd R"
  shows "reads R (get_optional rd get) (put_optional ser None) None"
    and "reads R get (ser y) z \<Longrightarrow> reads R (get_optional rd get) (put_optional ser (Some y)) (Some z)"
proof -
  show "reads R (get_optional rd get) (put_optional ser None) None"
    using cdr_readD(6) [OF assms] by (fastforce simp: reads_def get_optional_def put_optional_def)
  assume r: "reads R get (ser y) z"
  show "reads R (get_optional rd get) (put_optional ser (Some y)) (Some z)"
    unfolding reads_def
  proof (intro allI impI)
    fix s K ps
    assume "R s K (put_optional ser (Some y) @ ps)"
    then obtain s1 where 1: "rd_present rd s = Some (True, s1)" "R s1 K (ser y @ ps)"
      using cdr_readD(5) [OF assms] by (fastforce simp: put_optional_def)
    then obtain s2 where "get s1 = Some (z, s2)" "R s2 K ps" using readsD [OF r] by blast
    then show "\<exists>s'. get_optional rd get s = Some (Some z, s') \<and> R s' K ps"
      using 1 by (simp add: get_optional_def)
  qed
qed

text \<open>
  What a functor does with the members of a type: it turns the object \<open>x\<close> into \<open>y\<close> member by member, a
  member without a value does not change it when it may be left out, and it declines the numbers \<open>ks\<close>
  that it may be offered at the end.
\<close>

definition handles ::
  "('s \<Rightarrow> open_types \<Rightarrow> cdr_put list \<Rightarrow> bool) \<Rightarrow> ('s, 'a) member_functor \<Rightarrow> u32 \<Rightarrow> cdr_put list \<Rightarrow> 'a \<Rightarrow> 'a \<Rightarrow> bool" where
  "handles R fct i q x y \<longleftrightarrow>
     (\<forall>s K ps. R s K (q @ ps) \<longrightarrow> (\<exists>s'. fct i s x = Some (True, s', y) \<and> R s' K ps))"

lemma handlesI:
  "(\<And>s. fct i s x = read_member get store s) \<Longrightarrow> reads R get q m \<Longrightarrow> handles R fct i q x (store m)"
  by (fastforce simp: handles_def reads_def read_member_def)

fun functor_reads ::
  "('s \<Rightarrow> open_types \<Rightarrow> cdr_put list \<Rightarrow> bool) \<Rightarrow> encoding_flag \<Rightarrow> ('s, 'a) member_functor \<Rightarrow> u32 set
     \<Rightarrow> (u32 \<times> cdr_put list) list \<Rightarrow> 'a \<Rightarrow> 'a \<Rightarrow> bool" where
  "functor_reads R f fct ks [] x y = (x = y \<and> (\<forall>k \<in> ks. \<forall>s. fct k s y = Some (False, s, y)))"
| "functor_reads R f fct ks ((i, q) # ms) x y =
     (\<exists>x'. q \<noteq> [] \<and> handles R fct i q x x' \<and>
        (hd q = Optional_absent \<longrightarrow> q = [Optional_absent] \<and> (sequential f \<or> x' = x)) \<and>
        functor_reads R f fct (if hd q = Optional_absent \<and> \<not> sequential f then insert (i + 1) ks else {i + 1}) ms x' y)"

lemma member_loop_reads:
  assumes "cdr_read_laws rd R" "functor_reads R f fct ks ms x y" "k \<in> ks"
    "R s ((f, k) # K) (concat (map (\<lambda>(i, q). Member_id i # q) ms) @ End_type # ps)"
  shows "\<exists>s'. member_loop rd f fct True s x = Some (s', y) \<and> R s' K ps"
  using assms(2-)
proof (induction ms arbitrary: ks x s k)
  case Nil
  then have d: "fct k s' x = Some (False, s', x)" "x = y" for s' by simp_all
  from Nil cdr_readD(9) [OF assms(1), of s f k K ps] consider
      s' where "rd_next rd f True s = Some (None, s')" "R s' K ps"
    | s' s'' where "rd_next rd f True s = Some (Some k, s')" "rd_next rd f False s' = Some (None, s'')" "R s'' K ps"
    by auto
  then show ?case
    by cases (use d in \<open>auto simp: member_loop.simps [of rd f fct]\<close>)
next
  case (Cons m ms)
  obtain i q where m: "m = (i, q)" by force
  let ?rest = "concat (map (\<lambda>(i, q). Member_id i # q) ms) @ End_type # ps"
  let ?ks = "if hd q = Optional_absent \<and> \<not> sequential f then insert (i + 1) ks else {i + 1}"
  obtain x' where x': "q \<noteq> []" "handles R fct i q x x'" "functor_reads R f fct ?ks ms x' y"
      "hd q = Optional_absent \<Longrightarrow> q = [Optional_absent] \<and> (sequential f \<or> x' = x)"
    using Cons.prems(1) by (auto simp: m)
  obtain p qs where q: "q = p # qs" using x'(1) by (cases q) auto
  have "R s ((f, k) # K) (Member_id i # p # qs @ ?rest)" using Cons.prems(3) by (simp add: m q)
  from cdr_readD(8) [OF assms(1) this] consider
      s1 where "rd_next rd f True s = Some (Some i, s1)" "R s1 ((f, i + 1) # K) (q @ ?rest)"
    | "p = Optional_absent" "\<not> sequential f" "R s ((f, k) # K) (qs @ ?rest)"
    using q by auto
  then show ?case
  proof cases
    case 1
    then obtain s2 where "fct i s1 x = Some (True, s2, x')" "R s2 ((f, i + 1) # K) ?rest"
      using x'(2) unfolding handles_def by blast
    moreover have "i + 1 \<in> ?ks" by simp
    ultimately show ?thesis
      using Cons.IH [OF x'(3)] 1(1) by (simp add: member_loop.simps [of rd f fct True s])
  next
    case 2
    then show ?thesis
      using Cons.IH [OF x'(3), of k s] Cons.prems(2) x'(4) by (simp add: q)
  qed
qed

lemma reads_type:
  assumes "cdr_read_laws rd R" "functor_reads R f fct {0} ms x y"
  shows "reads R (get_object (deserialize_type rd f fct) x) (put_type f ms) y"
  unfolding reads_def
proof (intro allI impI)
  fix s K ps
  assume "R s K (put_type f ms @ ps)"
  then obtain s1 where 1: "rd_enter rd f s = Some s1"
      "R s1 ((f, 0) # K) (concat (map (\<lambda>(i, q). Member_id i # q) ms) @ End_type # ps)"
    using cdr_readD(7) [OF assms(1)] by (fastforce simp: put_type_def)
  then obtain s2 where "member_loop rd f fct True s1 x = Some (s2, y)" "R s2 K ps"
    using member_loop_reads [OF assms] by blast
  then show "\<exists>s'. get_object (deserialize_type rd f fct) x s = Some (y, s') \<and> R s' K ps"
    using 1(1) by (simp add: get_object_def deserialize_type_def)
qed

text \<open>Rules that build \<open>functor_reads\<close> from the equations of a functor.\<close>

lemma functor_reads_mono:
  "functor_reads R f fct ks' ms x y \<Longrightarrow> ks \<subseteq> ks' \<Longrightarrow> functor_reads R f fct ks ms x y"
proof (induction ms arbitrary: ks ks' x)
  case (Cons m ms)
  obtain i q where m: "m = (i, q)" by force
  let ?K = "\<lambda>ks. if hd q = Optional_absent \<and> \<not> sequential f then insert (i + 1) ks else {i + 1}"
  obtain x' where x': "q \<noteq> []" "handles R fct i q x x'" "functor_reads R f fct (?K ks') ms x' y"
      "hd q = Optional_absent \<longrightarrow> q = [Optional_absent] \<and> (sequential f \<or> x' = x)"
    using Cons.prems(1) by (auto simp: m)
  have "functor_reads R f fct (?K ks) ms x' y" using Cons.prems(2) by (intro Cons.IH [OF x'(3)]) auto
  then show ?case using x' by (auto simp: m)
qed auto

lemma functor_reads_end:
  "(\<And>k s. k \<in> ks \<Longrightarrow> fct k s y = unknown_member s y) \<Longrightarrow> functor_reads R f fct ks [] y y"
  by (simp add: unknown_member_def)

lemma functor_reads_member:
  assumes "\<And>s. fct i s x = read_member get store s" "reads R get q m" "q \<noteq> []" "hd q \<noteq> Optional_absent"
    "functor_reads R f fct {i + 1} ms (store m) y"
  shows "functor_reads R f fct ks ((i, q) # ms) x y"
proof -
  have "handles R fct i q x (store m)" by (rule handlesI) (fact assms)+
  then show ?thesis using assms(3-) by auto
qed

lemma functor_reads_optional:
  assumes "\<And>s. fct i s x = read_member get store s" "reads R get (put_optional ser z) m"
    "z = None \<Longrightarrow> store m = x" "\<not> sequential f" "functor_reads R f fct (insert (i + 1) ks) ms (store m) y"
  shows "functor_reads R f fct ks ((i, put_optional ser z) # ms) x y"
proof -
  have "functor_reads R f fct {i + 1} ms (store m) y" using functor_reads_mono [OF assms(5)] by simp
  moreover have "handles R fct i (put_optional ser z) x (store m)" by (rule handlesI) (fact assms)+
  ultimately show ?thesis using assms(3-) by (cases z) (auto simp: put_optional_def)
qed

text \<open>Well-formedness of a type from that of its members.\<close>

fun numbered :: "encoding_flag \<Rightarrow> u32 \<Rightarrow> (u32 \<times> cdr_put list) list \<Rightarrow> bool" where
  "numbered f k [] = True"
| "numbered f k ((i, q) # ms) = ((sequential f \<longrightarrow> i = k) \<and> (\<forall>K ps. wf_puts K (q @ ps) = wf_puts K ps) \<and> numbered f (i + 1) ms)"

lemma wf_members:
  "numbered f k ms \<Longrightarrow> wf_puts ((f, k) # K) (concat (map (\<lambda>(i, q). Member_id i # q) ms) @ End_type # ps) = wf_puts K ps"
  by (induction f k ms rule: numbered.induct) auto

lemma wf_put_type: "numbered f 0 ms \<Longrightarrow> wf_puts K (put_type f ms @ ps) = wf_puts K ps"
  by (simp add: put_type_def wf_members)

lemma put_type_starts [simp]: "put_type f ms \<noteq> []" "hd (put_type f ms) \<noteq> Optional_absent"
  by (simp_all add: put_type_def)

lemma flag_sequential [simp]:
  "sequential (delimited_flag v)" "sequential (final_flag v)" "\<not> sequential (mutable_flag v)"
  by (simp_all add: sequential_def delimited_flag_def final_flag_def mutable_flag_def)

section \<open>Sizes\<close>

text \<open>
  A calculation returns a size and moves the calculator.  \<open>calculate_member_serialized_size\<close> is given the
  calculation of the member, since for an object it calls the generated code again.
\<close>

type_synonym 'z calculation = "'z \<Rightarrow> nat \<times> 'z"

record 'z cdr_sizes =
  cz_start :: "cdr_version \<Rightarrow> 'z"
  cz_version :: "'z \<Rightarrow> cdr_version"
  cz_encoding :: "'z \<Rightarrow> encoding_flag"
  cz_begin :: "encoding_flag \<Rightarrow> 'z calculation"
  cz_end :: "encoding_flag \<Rightarrow> 'z calculation"
  cz_member :: "u32 \<Rightarrow> 'z calculation \<Rightarrow> 'z calculation"
  cz_string :: "string \<Rightarrow> 'z calculation"
  cz_u32 :: "u32 \<Rightarrow> 'z calculation"
  cz_octets :: "bytes \<Rightarrow> 'z calculation"
  cz_code :: "RemoteExceptionCode_t \<Rightarrow> 'z calculation"
  cz_optional :: "'z calculation option \<Rightarrow> 'z calculation"

text \<open>\<open>calculated_size += c\<close>\<close>

definition then_add :: "'z calculation \<Rightarrow> 'z calculation \<Rightarrow> 'z calculation" where
  "then_add c d z = (case c z of (m, z') \<Rightarrow> case d z' of (n, z'') \<Rightarrow> (m + n, z''))"

definition calculate_type ::
  "'z cdr_sizes \<Rightarrow> encoding_flag \<Rightarrow> (u32 \<times> 'z calculation) list \<Rightarrow> 'z calculation" where
  "calculate_type cz f members z =
     then_add (foldl then_add (cz_begin cz f) (map (\<lambda>(i, c). cz_member cz i c) members)) (cz_end cz (cz_encoding cz z)) z"

text \<open>
  A calculation is exact for the calls \<open>q\<close> if it adds the number of bytes they write, \<open>len\<close>, and leaves the
  calculator where it should be: \<open>Z z ps\<close> reads that \<open>z\<close> stands behind the calls \<open>ps\<close>.  It is short if it moves
  the calculator rightly but adds less, though at least 8: up to that size the header of a member of a
  mutable type depends on the exact size.
\<close>

definition sized ::
  "('z \<Rightarrow> cdr_put list \<Rightarrow> bool) \<Rightarrow> (cdr_put list \<Rightarrow> nat) \<Rightarrow> bool \<Rightarrow> 'z calculation \<Rightarrow> cdr_put list \<Rightarrow> bool" where
  "sized Z len short c q \<longleftrightarrow>
     (\<forall>z ps. Z z ps \<longrightarrow> Z (snd (c z)) (ps @ q) \<and>
        (if short then 8 \<le> fst (c z) \<and> len ps + fst (c z) < len (ps @ q) else len (ps @ q) = len ps + fst (c z)))"

abbreviation exact ::
  "('z \<Rightarrow> cdr_put list \<Rightarrow> bool) \<Rightarrow> (cdr_put list \<Rightarrow> nat) \<Rightarrow> 'z calculation \<Rightarrow> cdr_put list \<Rightarrow> bool" where
  "exact Z len \<equiv> sized Z len False"

text \<open>
  The calls of the members of one type.  \<open>end_calculate_type_serialized_size\<close> is given the encoding that
  was current when the type began, and closes the type.
\<close>

definition members_of :: "encoding_flag \<Rightarrow> cdr_put list \<Rightarrow> bool" where
  "members_of f q \<longleftrightarrow> (case wf_puts [(f, 0)] q of Some [(g, _)] \<Rightarrow> g = f | _ \<Rightarrow> False)"

lemma members_ofI: "numbered f k ms \<Longrightarrow> \<exists>k'. wf_puts [(f, k)] (concat (map (\<lambda>(i, q). Member_id i # q) ms)) = Some [(f, k')]"
  by (induction f k ms rule: numbered.induct) auto

definition cdr_size_laws ::
  "'z cdr_sizes \<Rightarrow> cdr_version \<Rightarrow> ('z \<Rightarrow> cdr_put list \<Rightarrow> bool) \<Rightarrow> (cdr_put list \<Rightarrow> nat) \<Rightarrow> bool" where
  "cdr_size_laws cz v Z len \<longleftrightarrow>
     Z (cz_start cz v) [] \<and> (\<forall>z ps. Z z ps \<longrightarrow> cz_version cz z = v) \<and> len [] = 0 \<and>
     (\<forall>f. exact Z len (cz_begin cz f) [Begin_type f]) \<and>
     (\<forall>f q z z' ps. Z z ps \<longrightarrow> Z z' (ps @ Begin_type f # q) \<longrightarrow> members_of f q \<longrightarrow>
        Z (snd (cz_end cz (cz_encoding cz z) z')) (ps @ Begin_type f # q @ [End_type]) \<and>
        len (ps @ Begin_type f # q @ [End_type]) = len (ps @ Begin_type f # q) + fst (cz_end cz (cz_encoding cz z) z')) \<and>
     (\<forall>x. exact Z len (cz_string cz x) [Put_string x]) \<and> (\<forall>n. exact Z len (cz_u32 cz n) [Put_u32 n]) \<and>
     (\<forall>b. exact Z len (cz_octets cz b) [Put_octets b]) \<and> (\<forall>c. exact Z len (cz_code cz c) [Put_code c]) \<and>
     exact Z len (cz_optional cz None) [Optional_absent] \<and>
     (\<forall>b c q. sized Z len b c q \<longrightarrow> sized Z len b (cz_optional cz (Some c)) (Optional_present # q)) \<and>
     (\<forall>i b c q. sized Z len b c q \<longrightarrow> sized Z len b (cz_member cz i c) (Member_id i # q)) \<and>
     (\<forall>ps x. len ps + length x < len (ps @ [Put_string x])) \<and> (\<forall>ps n. len ps + 4 \<le> len (ps @ [Put_u32 n])) \<and>
     (\<forall>ps x. len ps + 4 \<le> len (ps @ [Put_octets x])) \<and> (\<forall>ps q. len ps \<le> len (ps @ q))"

lemma cdr_sizeD:
  assumes "cdr_size_laws cz v Z len"
  shows "Z (cz_start cz v) []" "Z z ps \<Longrightarrow> cz_version cz z = v" "len [] = 0" "exact Z len (cz_begin cz f) [Begin_type f]"
    "Z z ps \<Longrightarrow> Z z' (ps @ Begin_type f # q) \<Longrightarrow> members_of f q \<Longrightarrow>
        Z (snd (cz_end cz (cz_encoding cz z) z')) (ps @ Begin_type f # q @ [End_type]) \<and>
        len (ps @ Begin_type f # q @ [End_type]) = len (ps @ Begin_type f # q) + fst (cz_end cz (cz_encoding cz z) z')"
    "exact Z len (cz_string cz x) [Put_string x]" "exact Z len (cz_u32 cz n) [Put_u32 n]"
    "exact Z len (cz_octets cz b) [Put_octets b]" "exact Z len (cz_code cz r) [Put_code r]"
    "exact Z len (cz_optional cz None) [Optional_absent]"
    "sized Z len short c q \<Longrightarrow> sized Z len short (cz_optional cz (Some c)) (Optional_present # q)"
    "sized Z len short c q \<Longrightarrow> sized Z len short (cz_member cz i c) (Member_id i # q)"
    "len ps + length x < len (ps @ [Put_string x])" "len ps + 4 \<le> len (ps @ [Put_u32 n])"
    "len ps + 4 \<le> len (ps @ [Put_octets b])" "len ps \<le> len (ps @ q)"
  using assms unfolding cdr_size_laws_def by (elim conjE, metis)+

lemma exactD: "exact Z len c q \<Longrightarrow> Z z ps \<Longrightarrow> Z (snd (c z)) (ps @ q) \<and> len (ps @ q) = len ps + fst (c z)"
  by (simp add: sized_def)

lemma sizedD:
  "sized Z len short c q \<Longrightarrow> Z z ps \<Longrightarrow> Z (snd (c z)) (ps @ q) \<and>
     (if short then 8 \<le> fst (c z) \<and> len ps + fst (c z) < len (ps @ q) else len (ps @ q) = len ps + fst (c z))"
  by (simp add: sized_def)

lemma sized_then:
  assumes "sized Z len b c q" "sized Z len b' d r"
  shows "sized Z len (b \<or> b') (then_add c d) (q @ r)"
  unfolding sized_def
proof (intro allI impI)
  fix z ps
  assume "Z z ps"
  from sizedD [OF assms(1) this] sizedD [OF assms(2), of "snd (c z)" "ps @ q"]
  show "Z (snd (then_add c d z)) (ps @ q @ r) \<and> (if b \<or> b' then 8 \<le> fst (then_add c d z) \<and>
      len ps + fst (then_add c d z) < len (ps @ q @ r) else len (ps @ q @ r) = len ps + fst (then_add c d z))"
    by (auto simp: then_add_def case_prod_beta split: if_splits)
qed

lemma sized_members:
  assumes "cdr_size_laws cz v Z len" "sized Z len b c q" "list_all2 (\<lambda>(i, d) (j, b, r). i = j \<and> sized Z len b d r) cs ms"
  shows "sized Z len (b \<or> list_ex (\<lambda>(i, b, r). b) ms) (foldl then_add c (map (\<lambda>(i, d). cz_member cz i d) cs))
    (q @ concat (map (\<lambda>(i, b, r). Member_id i # r) ms))"
  using assms(3,2)
proof (induction cs ms arbitrary: b c q rule: list_all2_induct)
  case (Cons a cs m ms)
  obtain i d b' r where a: "a = (i, d)" "m = (i, b', r)" "sized Z len b' d r" using Cons.hyps(1) by (cases a; cases m) auto
  have "sized Z len (b \<or> b') (then_add c (cz_member cz i d)) (q @ Member_id i # r)"
    by (rule sized_then [OF Cons.prems cdr_sizeD(12) [OF assms(1) a(3)]])
  from Cons.IH [OF this] show ?case by (simp add: a disj_assoc)
qed simp

lemma sized_type:
  assumes "cdr_size_laws cz v Z len" "list_all2 (\<lambda>(i, d) (j, b, r). i = j \<and> sized Z len b d r) cs ms"
    "numbered (flag v) 0 (map (\<lambda>(i, b, r). (i, r)) ms)"
  shows "sized Z len (list_ex (\<lambda>(i, b, r). b) ms) (\<lambda>z. calculate_type cz (flag (cz_version cz z)) cs z)
    (put_type (flag v) (map (\<lambda>(i, b, r). (i, r)) ms))"
  unfolding sized_def
proof (intro allI impI)
  fix z ps
  assume z: "Z z ps"
  define b q c where "b = list_ex (\<lambda>(i, b, r). b) ms" and "q = concat (map (\<lambda>(i, b, r). Member_id i # r) ms)"
    and "c = foldl then_add (cz_begin cz (flag v)) (map (\<lambda>(i, c). cz_member cz i c) cs)"
  have q: "concat (map (\<lambda>(i, r). Member_id i # r) (map (\<lambda>(i, b, r). (i, r)) ms)) = q"
    unfolding q_def by (induction ms) auto
  have "sized Z len b c (Begin_type (flag v) # q)"
    using sized_members [OF assms(1) cdr_sizeD(4) [OF assms(1)] assms(2)] by (simp add: b_def q_def c_def)
  note c = sizedD [OF this z]
  have "members_of (flag v) q" using members_ofI [OF assms(3)] unfolding q by (auto simp: members_of_def)
  note e = cdr_sizeD(5) [OF assms(1) z conjunct1 [OF c] this]
  let ?t = "calculate_type cz (flag (cz_version cz z)) cs z"
  have t: "snd ?t = snd (cz_end cz (cz_encoding cz z) (snd (c z)))" "fst ?t = fst (c z) + fst (cz_end cz (cz_encoding cz z) (snd (c z)))"
    by (simp_all add: calculate_type_def then_add_def c_def case_prod_beta cdr_sizeD(2) [OF assms(1) z])
  show "Z (snd ?t) (ps @ put_type (flag v) (map (\<lambda>(i, b, r). (i, r)) ms)) \<and>
     (if list_ex (\<lambda>(i, b, r). b) ms then 8 \<le> fst ?t \<and> len ps + fst ?t < len (ps @ put_type (flag v) (map (\<lambda>(i, b, r). (i, r)) ms))
      else len (ps @ put_type (flag v) (map (\<lambda>(i, b, r). (i, r)) ms)) = len ps + fst ?t)"
    unfolding put_type_def q t b_def [symmetric] using c e by (cases b) simp_all
qed

lemma sized_optional:
  assumes "cdr_size_laws cz v Z len" "\<And>y. x = Some y \<Longrightarrow> sized Z len (short y) (calc y) (ser y)"
  shows "sized Z len (case x of None \<Rightarrow> False | Some y \<Rightarrow> short y) (cz_optional cz (map_option calc x)) (put_optional ser x)"
  using assms by (cases x) (simp_all add: put_optional_def cdr_sizeD(10) [OF assms(1)] cdr_sizeD(11) [OF assms(1)])

section \<open>Payloads\<close>

datatype data_representation = XCDR_DATA_REPRESENTATION | XCDR2_DATA_REPRESENTATION

definition version_of :: "data_representation \<Rightarrow> cdr_version" where
  "version_of r = (if r = XCDR_DATA_REPRESENTATION then XCDRv1 else XCDRv2)"

text \<open>
  A \<open>Cdr\<close> object on a buffer: what the calls leave in the buffer behind the encapsulation, if Fast CDR
  does not object, its length, and opening a buffer, which finds the version and the endianness.
\<close>

record ('b, 's) cdr_codec =
  cd_write :: "cdr_version \<Rightarrow> encoding_flag \<Rightarrow> cdr_put list \<Rightarrow> 'b option"
  cd_length :: "'b \<Rightarrow> nat"
  cd_open :: "'b \<Rightarrow> (cdr_version \<times> bool \<times> 's) option"
  cd_big_endian :: bool

record 'b payload =
  pl_data :: "'b option"
  pl_length :: u32
  pl_max_size :: u32
  pl_big_endian :: bool

definition topic_serialize ::
  "('b, 's) cdr_codec \<Rightarrow> (cdr_version \<Rightarrow> encoding_flag) \<Rightarrow> (cdr_version \<Rightarrow> cdr_put list) \<Rightarrow> data_representation
     \<Rightarrow> 'b payload \<Rightarrow> bool \<times> 'b payload" where
  "topic_serialize cd flag calls r p =
     (let v = version_of r; p1 = p\<lparr>pl_big_endian := cd_big_endian cd\<rparr> in
      case cd_write cd v (flag v) (calls v) of
        None \<Rightarrow> (False, p1\<lparr>pl_data := None\<rparr>)
      | Some b \<Rightarrow>
          if cd_length cd b > unat (pl_max_size p) then (False, p1\<lparr>pl_data := None\<rparr>)
          else (True, p1\<lparr>pl_data := Some b, pl_length := of_nat (cd_length cd b)\<rparr>))"

definition topic_deserialize ::
  "('b, 's) cdr_codec \<Rightarrow> (cdr_version \<Rightarrow> 's \<Rightarrow> 'a \<Rightarrow> ('s \<times> 'a) option) \<Rightarrow> 'b payload \<Rightarrow> 'a \<Rightarrow> ('b payload \<times> 'a) option" where
  "topic_deserialize cd des p x =
     Option.bind (pl_data p) (\<lambda>b. Option.bind (cd_open cd b) (\<lambda>(v, big, s).
       Option.bind (des v s x) (\<lambda>(_, y). Some (p\<lparr>pl_big_endian := big\<rparr>, y))))"

definition topic_size :: "'z cdr_sizes \<Rightarrow> 'z calculation \<Rightarrow> data_representation \<Rightarrow> u32" where
  "topic_size cz calc r = of_nat (fst (calc (cz_start cz (version_of r)))) + 4"

text \<open>Fast CDR refuses strings with a zero character.\<close>

definition nul_free :: "string \<Rightarrow> bool" where
  "nul_free x = list_all (\<lambda>c. of_char c \<noteq> (0 :: nat)) x"

definition writable :: "cdr_put list \<Rightarrow> bool" where
  "writable ps \<longleftrightarrow> wf_puts [] ps = Some [] \<and> (\<forall>x. Put_string x \<in> set ps \<longrightarrow> nul_free x)"

definition cdr_codec_laws ::
  "('b, 's) cdr_codec \<Rightarrow> cdr_version \<Rightarrow> ('s \<Rightarrow> open_types \<Rightarrow> cdr_put list \<Rightarrow> bool) \<Rightarrow> (cdr_put list \<Rightarrow> nat) \<Rightarrow> bool" where
  "cdr_codec_laws cd v R len \<longleftrightarrow>
     (\<forall>f ps. writable ps \<longrightarrow>
        (\<exists>b s. cd_write cd v f ps = Some b \<and> cd_length cd b = len ps + 4 \<and>
           cd_open cd b = Some (v, cd_big_endian cd, s) \<and> R s [] ps))"

section \<open>Types on the wire\<close>

text \<open>
  The contract of a generated type: reading into a fresh object gives the \<open>view\<close> of what was written, the
  calls of an object are balanced, and they do not begin like an absent optional.
\<close>

locale wire_type =
  fixes ser :: "cdr_version \<Rightarrow> 'a \<Rightarrow> cdr_put list"
    and des :: "'s cdr_reader \<Rightarrow> cdr_version \<Rightarrow> 's \<Rightarrow> 'a \<Rightarrow> ('s \<times> 'a) option"
    and fresh :: 'a
    and view :: "'a \<Rightarrow> 'a"
  assumes reads_back: "cdr_read_laws rd R \<Longrightarrow> reads R (get_object (des rd v) fresh) (ser v x) (view x)"
    and balanced: "wf_puts K (ser v x @ ps) = wf_puts K ps"
    and starts: "ser v x \<noteq> []" "hd (ser v x) \<noteq> Optional_absent"
begin

lemma reads_member_optional:
  "cdr_read_laws rd R \<Longrightarrow> reads R (get_optional rd (get_object (des rd v) fresh)) (put_optional (ser v) y) (map_option view y)"
  by (cases y) (simp_all add: reads_optional reads_back)

lemma balanced_optional: "wf_puts K (put_optional (ser v) y @ ps) = wf_puts K ps"
  by (cases y) (simp_all add: put_optional_def balanced)

lemma closed: "wf_puts [] (ser v x) = Some []"
  using balanced [of "[]" v x "[]"] by simp

lemma topic_write:
  assumes "cdr_codec_laws cd (version_of r) R len" "\<forall>t. Put_string t \<in> set (ser (version_of r) x) \<longrightarrow> nul_free t"
  shows "fst (topic_serialize cd flag (\<lambda>v. ser v x) r p) \<longleftrightarrow> len (ser (version_of r) x) + 4 \<le> unat (pl_max_size p)"
proof -
  have "writable (ser (version_of r) x)" using assms(2) closed by (simp add: writable_def)
  then obtain b where "cd_write cd (version_of r) (flag (version_of r)) (ser (version_of r) x) = Some b"
      "cd_length cd b = len (ser (version_of r) x) + 4"
    using assms(1) unfolding cdr_codec_laws_def by blast
  then show ?thesis by (simp add: topic_serialize_def Let_def not_less)
qed

lemma topic_round_trip:
  assumes "cdr_read_laws rd R" "cdr_codec_laws cd (version_of r) R len" "\<forall>t. Put_string t \<in> set (ser (version_of r) x) \<longrightarrow> nul_free t"
    "topic_serialize cd flag (\<lambda>v. ser v x) r p = (True, p')"
  shows "\<exists>p''. topic_deserialize cd (des rd) p' fresh = Some (p'', view x)"
proof -
  let ?v = "version_of r"
  have "writable (ser ?v x)" using assms(3) closed by (simp add: writable_def)
  then obtain b s where b: "cd_write cd ?v (flag ?v) (ser ?v x) = Some b" "cd_open cd b = Some (?v, cd_big_endian cd, s)" "R s [] (ser ?v x)"
    using assms(2) unfolding cdr_codec_laws_def by blast
  then obtain s' where "get_object (des rd ?v) fresh s = Some (view x, s')"
    using readsD [OF reads_back [OF assms(1)], of s "[]" ?v x "[]"] by auto
  moreover have "pl_data p' = Some b" using assms(4) b(1) by (auto simp: topic_serialize_def Let_def split: if_splits)
  ultimately show ?thesis using b(2) by (auto simp: topic_deserialize_def get_object_def split: Option.bind_splits)
qed

end

lemma topic_size_exact:
  assumes "cdr_size_laws cz (version_of r) Z len" "exact Z len (calc :: 'z calculation) q"
  shows "topic_size cz calc r = of_nat (len q + 4)"
  using exactD [OF assms(2) cdr_sizeD(1) [OF assms(1)]] cdr_sizeD(3) [OF assms(1)]
  by (simp add: topic_size_def)

section \<open>An instance\<close>

text \<open>Streams that are the calls themselves.\<close>

type_synonym tokens = "open_types \<times> cdr_put list"

definition token_next :: "encoding_flag \<Rightarrow> bool \<Rightarrow> tokens \<Rightarrow> (u32 option \<times> tokens) option" where
  "token_next f again s =
     (case s of
        ((g, k) # K, Member_id i # ps) \<Rightarrow> if again then Some (Some i, ((g, i + 1) # K, ps)) else None
      | (_ # K, End_type # ps) \<Rightarrow> Some (None, (K, ps))
      | _ \<Rightarrow> None)"

definition token_reader :: "tokens cdr_reader" where
  "token_reader = \<lparr>
     rd_string = (\<lambda>s. case s of (K, Put_string x # ps) \<Rightarrow> Some (x, (K, ps)) | _ \<Rightarrow> None),
     rd_u32 = (\<lambda>s. case s of (K, Put_u32 x # ps) \<Rightarrow> Some (x, (K, ps)) | _ \<Rightarrow> None),
     rd_octets = (\<lambda>s. case s of (K, Put_octets x # ps) \<Rightarrow> Some (x, (K, ps)) | _ \<Rightarrow> None),
     rd_code = (\<lambda>s. case s of (K, Put_code x # ps) \<Rightarrow> Some (x, (K, ps)) | _ \<Rightarrow> None),
     rd_present = (\<lambda>s. case s of (K, Optional_present # ps) \<Rightarrow> Some (True, (K, ps))
        | (K, Optional_absent # ps) \<Rightarrow> Some (False, (K, ps)) | _ \<Rightarrow> None),
     rd_enter = (\<lambda>f s. case s of (K, Begin_type g # ps) \<Rightarrow> if f = g then Some ((f, 0) # K, ps) else None | _ \<Rightarrow> None),
     rd_next = token_next\<rparr>"

definition token_at :: "tokens \<Rightarrow> open_types \<Rightarrow> cdr_put list \<Rightarrow> bool" where
  "token_at s K ps \<longleftrightarrow> s = (K, ps)"

lemma token_read_laws: "cdr_read_laws token_reader token_at"
  by (simp add: cdr_read_laws_def token_reader_def token_at_def token_next_def)

fun put_weight :: "cdr_put \<Rightarrow> nat" where
  "put_weight (Put_string x) = length x + 5"
| "put_weight (Put_u32 _) = 4"
| "put_weight (Put_octets b) = length b + 4"
| "put_weight (Put_code _) = 4"
| "put_weight (Member_id _) = 4"
| "put_weight _ = 1"

definition token_length :: "cdr_put list \<Rightarrow> nat" where
  "token_length ps = sum_list (map put_weight ps)"

type_synonym token_calc = "cdr_version \<times> cdr_put list"

definition token_add :: "cdr_put \<Rightarrow> token_calc calculation" where
  "token_add p z = (put_weight p, (fst z, snd z @ [p]))"

definition token_sizes :: "token_calc cdr_sizes" where
  "token_sizes = \<lparr>cz_start = (\<lambda>v. (v, [])), cz_version = fst, cz_encoding = (\<lambda>_. PLAIN_CDR),
     cz_begin = (\<lambda>f. token_add (Begin_type f)), cz_end = (\<lambda>_. token_add End_type),
     cz_member = (\<lambda>i c. then_add (token_add (Member_id i)) c), cz_string = (\<lambda>x. token_add (Put_string x)),
     cz_u32 = (\<lambda>n. token_add (Put_u32 n)), cz_octets = (\<lambda>b. token_add (Put_octets b)), cz_code = (\<lambda>c. token_add (Put_code c)),
     cz_optional = (\<lambda>c. case c of None \<Rightarrow> token_add Optional_absent | Some c \<Rightarrow> then_add (token_add Optional_present) c)\<rparr>"

definition token_behind :: "cdr_version \<Rightarrow> token_calc \<Rightarrow> cdr_put list \<Rightarrow> bool" where
  "token_behind v z ps \<longleftrightarrow> z = (v, ps)"

lemma exact_token_add: "exact (token_behind v) token_length (token_add p) [p]"
  by (simp add: sized_def token_behind_def token_add_def token_length_def)

lemma token_size_laws: "cdr_size_laws token_sizes v (token_behind v) token_length"
  unfolding cdr_size_laws_def token_sizes_def cdr_sizes.simps
proof (intro conjI allI impI, goal_cases)
  case (12 b c q)
  then show ?case using sized_then [OF exact_token_add, of v b c q Optional_present] by simp
next
  case (13 i b c q)
  then show ?case using sized_then [OF exact_token_add, of v b c q "Member_id i"] by simp
qed (simp_all add: exact_token_add token_behind_def token_length_def token_add_def)

definition token_codec :: "(cdr_version \<times> cdr_put list, tokens) cdr_codec" where
  "token_codec = \<lparr>cd_write = (\<lambda>v _ ps. Some (v, ps)), cd_length = (\<lambda>b. token_length (snd b) + 4),
     cd_open = (\<lambda>b. Some (fst b, False, ([], snd b))), cd_big_endian = False\<rparr>"

lemma token_codec_laws: "cdr_codec_laws token_codec v token_at token_length"
  by (simp add: cdr_codec_laws_def token_codec_def token_at_def)

end
