(* ===== verification/Cdr_Types.thy ===== *)
theory Cdr_Types
  imports Cdr_Stream Logger
begin

text \<open>
  The generated type support of the two IDL files: \<open>idl/topics/message/messageCdrAux.ipp\<close> and
  \<open>messagePubSubTypes.cxx\<close>, \<open>idl/topics/requests/requestsCdrAux.ipp\<close> and \<open>requestsPubSubTypes.cxx\<close>.  For each
  type the writing calls, the functor and the reading, and the size calculation.  \<open>Requests_Read_In\<close>,
  \<open>Requests_Read_Out\<close> and their \<open>Write\<close> twins have one member and are represented by it.

  Every type is an instance of \<open>wire_type\<close>.  Shown: what is written is read back, messages, requests and
  replies alike; the size calculation is exact for all types but \<open>RequestException\<close>, whose message it
  leaves out, so that a reply that carries an exception does not fit the size computed for it.
\<close>

section \<open>Message\<close>

record Message =
  ms_additional_information :: string
  ms_protobuf :: bytes

definition Message_fresh :: Message where
  "Message_fresh = \<lparr>ms_additional_information = [], ms_protobuf = []\<rparr>"

definition serialize_Message :: "cdr_version \<Rightarrow> Message \<Rightarrow> cdr_put list" where
  "serialize_Message v d = put_type (delimited_flag v)
     [(0, [Put_string (ms_additional_information d)]), (1, [Put_octets (ms_protobuf d)])]"

definition functor_Message :: "'s cdr_reader \<Rightarrow> ('s, Message) member_functor" where
  "functor_Message rd mid s d =
     (if mid = 0 then read_member (rd_string rd) (\<lambda>x. d\<lparr>ms_additional_information := x\<rparr>) s
      else if mid = 1 then read_member (rd_octets rd) (\<lambda>x. d\<lparr>ms_protobuf := x\<rparr>) s
      else unknown_member s d)"

definition deserialize_Message :: "'s cdr_reader \<Rightarrow> cdr_version \<Rightarrow> 's \<Rightarrow> Message \<Rightarrow> ('s \<times> Message) option" where
  "deserialize_Message rd v s d = deserialize_type rd (delimited_flag v) (functor_Message rd) s d"

definition calculate_Message :: "'z cdr_sizes \<Rightarrow> Message \<Rightarrow> 'z calculation" where
  "calculate_Message cz d z = calculate_type cz (delimited_flag (cz_version cz z))
     [(0, cz_string cz (ms_additional_information d)), (1, cz_octets cz (ms_protobuf d))] z"

section \<open>TransferData\<close>

definition TransferData_fresh :: TransferData where
  "TransferData_fresh = \<lparr>protobuf = []\<rparr>"

definition serialize_TransferData :: "cdr_version \<Rightarrow> TransferData \<Rightarrow> cdr_put list" where
  "serialize_TransferData v d = put_type (delimited_flag v) [(0, [Put_octets (protobuf d)])]"

definition functor_TransferData :: "'s cdr_reader \<Rightarrow> ('s, TransferData) member_functor" where
  "functor_TransferData rd mid s d =
     (if mid = 0 then read_member (rd_octets rd) (\<lambda>x. d\<lparr>protobuf := x\<rparr>) s else unknown_member s d)"

definition deserialize_TransferData ::
  "'s cdr_reader \<Rightarrow> cdr_version \<Rightarrow> 's \<Rightarrow> TransferData \<Rightarrow> ('s \<times> TransferData) option" where
  "deserialize_TransferData rd v s d = deserialize_type rd (delimited_flag v) (functor_TransferData rd) s d"

definition calculate_TransferData :: "'z cdr_sizes \<Rightarrow> TransferData \<Rightarrow> 'z calculation" where
  "calculate_TransferData cz d z =
     calculate_type cz (delimited_flag (cz_version cz z)) [(0, cz_octets cz (protobuf d))] z"

section \<open>RequestException\<close>

definition RequestException_of :: "string \<Rightarrow> RequestException" where
  "RequestException_of message = \<lparr>ex_what = message, ex_status_code = 0, ex_request = TransferData_fresh\<rparr>"

definition RequestException_fresh :: RequestException where
  "RequestException_fresh = RequestException_of ''RequestException''"

text \<open>\<open>what()\<close> is a C string: it ends at the first zero character.\<close>

definition serialize_RequestException :: "cdr_version \<Rightarrow> RequestException \<Rightarrow> cdr_put list" where
  "serialize_RequestException v d = put_type (final_flag v)
     [(0, [Put_string (c_str (ex_what d))]), (0 + 1, [Put_u32 (ex_status_code d)]),
      (1 + 1, serialize_TransferData v (ex_request d))]"

definition functor_RequestException :: "'s cdr_reader \<Rightarrow> cdr_version \<Rightarrow> ('s, RequestException) member_functor" where
  "functor_RequestException rd v mid s d =
     (if mid = 0 then read_member (rd_string rd) RequestException_of s
      else if mid = 0 + 1 then read_member (rd_u32 rd) (\<lambda>x. d\<lparr>ex_status_code := x\<rparr>) s
      else if mid = 1 + 1 then
        read_member (get_object (deserialize_TransferData rd v) (ex_request d)) (\<lambda>x. d\<lparr>ex_request := x\<rparr>) s
      else unknown_member s d)"

definition deserialize_RequestException ::
  "'s cdr_reader \<Rightarrow> cdr_version \<Rightarrow> 's \<Rightarrow> RequestException \<Rightarrow> ('s \<times> RequestException) option" where
  "deserialize_RequestException rd v s d = deserialize_type rd (final_flag v) (functor_RequestException rd v) s d"

text \<open>The size of the message is computed, which moves the alignment, but not added.\<close>

definition calculate_RequestException :: "'z cdr_sizes \<Rightarrow> RequestException \<Rightarrow> 'z calculation" where
  "calculate_RequestException cz d z =
     (case cz_begin cz (final_flag (cz_version cz z)) z of (n, z1) \<Rightarrow>
      case cz_member cz 0 (cz_string cz (c_str (ex_what d))) z1 of (_, z2) \<Rightarrow>
      case cz_member cz (0 + 1) (cz_u32 cz (ex_status_code d)) z2 of (n1, z3) \<Rightarrow>
      case cz_member cz (1 + 1) (calculate_TransferData cz (ex_request d)) z3 of (n2, z4) \<Rightarrow>
      case cz_end cz (cz_encoding cz z) z4 of (n3, z5) \<Rightarrow> (n + n1 + n2 + n3, z5))"

section \<open>Arguments and results of the operations\<close>

definition serialize_Read_In :: "cdr_version \<Rightarrow> TransferData \<Rightarrow> cdr_put list" where
  "serialize_Read_In v req = put_type (final_flag v) [(0, serialize_TransferData v req)]"

definition functor_Read_In :: "'s cdr_reader \<Rightarrow> cdr_version \<Rightarrow> ('s, TransferData) member_functor" where
  "functor_Read_In rd v mid s req =
     (if mid = 0 then read_member (get_object (deserialize_TransferData rd v) req) (\<lambda>x. x) s else unknown_member s req)"

definition deserialize_Read_In :: "'s cdr_reader \<Rightarrow> cdr_version \<Rightarrow> 's \<Rightarrow> TransferData \<Rightarrow> ('s \<times> TransferData) option" where
  "deserialize_Read_In rd v s req = deserialize_type rd (final_flag v) (functor_Read_In rd v) s req"

definition calculate_Read_In :: "'z cdr_sizes \<Rightarrow> TransferData \<Rightarrow> 'z calculation" where
  "calculate_Read_In cz req z = calculate_type cz (final_flag (cz_version cz z)) [(0, calculate_TransferData cz req)] z"

definition serialize_Read_Out :: "cdr_version \<Rightarrow> TransferData \<Rightarrow> cdr_put list" where
  "serialize_Read_Out v ret = put_type (final_flag v) [(0, serialize_TransferData v ret)]"

definition functor_Read_Out :: "'s cdr_reader \<Rightarrow> cdr_version \<Rightarrow> ('s, TransferData) member_functor" where
  "functor_Read_Out rd v mid s ret =
     (if mid = 0 then read_member (get_object (deserialize_TransferData rd v) ret) (\<lambda>x. x) s else unknown_member s ret)"

definition deserialize_Read_Out :: "'s cdr_reader \<Rightarrow> cdr_version \<Rightarrow> 's \<Rightarrow> TransferData \<Rightarrow> ('s \<times> TransferData) option" where
  "deserialize_Read_Out rd v s ret = deserialize_type rd (final_flag v) (functor_Read_Out rd v) s ret"

definition calculate_Read_Out :: "'z cdr_sizes \<Rightarrow> TransferData \<Rightarrow> 'z calculation" where
  "calculate_Read_Out cz ret z = calculate_type cz (final_flag (cz_version cz z)) [(0, calculate_TransferData cz ret)] z"

definition serialize_Write_In :: "cdr_version \<Rightarrow> TransferData \<Rightarrow> cdr_put list" where
  "serialize_Write_In v req = put_type (final_flag v) [(0, serialize_TransferData v req)]"

definition functor_Write_In :: "'s cdr_reader \<Rightarrow> cdr_version \<Rightarrow> ('s, TransferData) member_functor" where
  "functor_Write_In rd v mid s req =
     (if mid = 0 then read_member (get_object (deserialize_TransferData rd v) req) (\<lambda>x. x) s else unknown_member s req)"

definition deserialize_Write_In :: "'s cdr_reader \<Rightarrow> cdr_version \<Rightarrow> 's \<Rightarrow> TransferData \<Rightarrow> ('s \<times> TransferData) option" where
  "deserialize_Write_In rd v s req = deserialize_type rd (final_flag v) (functor_Write_In rd v) s req"

definition calculate_Write_In :: "'z cdr_sizes \<Rightarrow> TransferData \<Rightarrow> 'z calculation" where
  "calculate_Write_In cz req z = calculate_type cz (final_flag (cz_version cz z)) [(0, calculate_TransferData cz req)] z"

definition serialize_Write_Out :: "cdr_version \<Rightarrow> TransferData \<Rightarrow> cdr_put list" where
  "serialize_Write_Out v ret = put_type (final_flag v) [(0, serialize_TransferData v ret)]"

definition functor_Write_Out :: "'s cdr_reader \<Rightarrow> cdr_version \<Rightarrow> ('s, TransferData) member_functor" where
  "functor_Write_Out rd v mid s ret =
     (if mid = 0 then read_member (get_object (deserialize_TransferData rd v) ret) (\<lambda>x. x) s else unknown_member s ret)"

definition deserialize_Write_Out :: "'s cdr_reader \<Rightarrow> cdr_version \<Rightarrow> 's \<Rightarrow> TransferData \<Rightarrow> ('s \<times> TransferData) option" where
  "deserialize_Write_Out rd v s ret = deserialize_type rd (final_flag v) (functor_Write_Out rd v) s ret"

definition calculate_Write_Out :: "'z cdr_sizes \<Rightarrow> TransferData \<Rightarrow> 'z calculation" where
  "calculate_Write_Out cz ret z = calculate_type cz (final_flag (cz_version cz z)) [(0, calculate_TransferData cz ret)] z"

definition id_result :: u32 where "id_result = 0x0784a8b4"
definition id_exception :: u32 where "id_exception = 0x092eb941"

definition get_RequestException :: "'s cdr_reader \<Rightarrow> cdr_version \<Rightarrow> 's \<Rightarrow> (RequestException option \<times> 's) option" where
  "get_RequestException rd v = get_optional rd (get_object (deserialize_RequestException rd v) RequestException_fresh)"

definition serialize_Read_Result :: "cdr_version \<Rightarrow> Requests_Result \<Rightarrow> cdr_put list" where
  "serialize_Read_Result v d = put_type (mutable_flag v)
     [(id_result, put_optional (serialize_Read_Out v) (res_result d)),
      (id_exception, put_optional (serialize_RequestException v) (res_exception d))]"

definition functor_Read_Result :: "'s cdr_reader \<Rightarrow> cdr_version \<Rightarrow> ('s, Requests_Result) member_functor" where
  "functor_Read_Result rd v mid s d =
     (if mid = id_result then
        read_member (get_optional rd (get_object (deserialize_Read_Out rd v) TransferData_fresh)) (\<lambda>x. d\<lparr>res_result := x\<rparr>) s
      else if mid = id_exception then read_member (get_RequestException rd v) (\<lambda>x. d\<lparr>res_exception := x\<rparr>) s
      else unknown_member s d)"

definition deserialize_Read_Result ::
  "'s cdr_reader \<Rightarrow> cdr_version \<Rightarrow> 's \<Rightarrow> Requests_Result \<Rightarrow> ('s \<times> Requests_Result) option" where
  "deserialize_Read_Result rd v s d = deserialize_type rd (mutable_flag v) (functor_Read_Result rd v) s d"

definition calculate_Read_Result :: "'z cdr_sizes \<Rightarrow> Requests_Result \<Rightarrow> 'z calculation" where
  "calculate_Read_Result cz d z = calculate_type cz (mutable_flag (cz_version cz z))
     [(id_result, cz_optional cz (map_option (calculate_Read_Out cz) (res_result d))),
      (id_exception, cz_optional cz (map_option (calculate_RequestException cz) (res_exception d)))] z"

definition serialize_Write_Result :: "cdr_version \<Rightarrow> Requests_Result \<Rightarrow> cdr_put list" where
  "serialize_Write_Result v d = put_type (mutable_flag v)
     [(id_result, put_optional (serialize_Write_Out v) (res_result d)),
      (id_exception, put_optional (serialize_RequestException v) (res_exception d))]"

definition functor_Write_Result :: "'s cdr_reader \<Rightarrow> cdr_version \<Rightarrow> ('s, Requests_Result) member_functor" where
  "functor_Write_Result rd v mid s d =
     (if mid = id_result then
        read_member (get_optional rd (get_object (deserialize_Write_Out rd v) TransferData_fresh)) (\<lambda>x. d\<lparr>res_result := x\<rparr>) s
      else if mid = id_exception then read_member (get_RequestException rd v) (\<lambda>x. d\<lparr>res_exception := x\<rparr>) s
      else unknown_member s d)"

definition deserialize_Write_Result ::
  "'s cdr_reader \<Rightarrow> cdr_version \<Rightarrow> 's \<Rightarrow> Requests_Result \<Rightarrow> ('s \<times> Requests_Result) option" where
  "deserialize_Write_Result rd v s d = deserialize_type rd (mutable_flag v) (functor_Write_Result rd v) s d"

definition calculate_Write_Result :: "'z cdr_sizes \<Rightarrow> Requests_Result \<Rightarrow> 'z calculation" where
  "calculate_Write_Result cz d z = calculate_type cz (mutable_flag (cz_version cz z))
     [(id_result, cz_optional cz (map_option (calculate_Write_Out cz) (res_result d))),
      (id_exception, cz_optional cz (map_option (calculate_RequestException cz) (res_exception d)))] z"

section \<open>Requests and replies\<close>

definition id_Read :: u32 where "id_Read = 0x0e5f1a7a"
definition id_Write :: u32 where "id_Write = 0x04c02911"
definition id_remoteEx :: u32 where "id_remoteEx = 0x0f8e48f0"

definition Request_fresh :: Requests_Request where
  "Request_fresh = \<lparr>rq_Read = None, rq_Write = None\<rparr>"

definition serialize_Request :: "cdr_version \<Rightarrow> Requests_Request \<Rightarrow> cdr_put list" where
  "serialize_Request v d = put_type (mutable_flag v)
     [(id_Read, put_optional (serialize_Read_In v) (rq_Read d)), (id_Write, put_optional (serialize_Write_In v) (rq_Write d))]"

definition functor_Request :: "'s cdr_reader \<Rightarrow> cdr_version \<Rightarrow> ('s, Requests_Request) member_functor" where
  "functor_Request rd v mid s d =
     (if mid = id_Read then
        read_member (get_optional rd (get_object (deserialize_Read_In rd v) TransferData_fresh)) (\<lambda>x. d\<lparr>rq_Read := x\<rparr>) s
      else if mid = id_Write then
        read_member (get_optional rd (get_object (deserialize_Write_In rd v) TransferData_fresh)) (\<lambda>x. d\<lparr>rq_Write := x\<rparr>) s
      else unknown_member s d)"

definition deserialize_Request ::
  "'s cdr_reader \<Rightarrow> cdr_version \<Rightarrow> 's \<Rightarrow> Requests_Request \<Rightarrow> ('s \<times> Requests_Request) option" where
  "deserialize_Request rd v s d = deserialize_type rd (mutable_flag v) (functor_Request rd v) s d"

definition calculate_Request :: "'z cdr_sizes \<Rightarrow> Requests_Request \<Rightarrow> 'z calculation" where
  "calculate_Request cz d z = calculate_type cz (mutable_flag (cz_version cz z))
     [(id_Read, cz_optional cz (map_option (calculate_Read_In cz) (rq_Read d))),
      (id_Write, cz_optional cz (map_option (calculate_Write_In cz) (rq_Write d)))] z"

definition serialize_Reply :: "cdr_version \<Rightarrow> Requests_Reply \<Rightarrow> cdr_put list" where
  "serialize_Reply v d = put_type (mutable_flag v)
     [(id_Read, put_optional (serialize_Read_Result v) (rr_Read d)),
      (id_Write, put_optional (serialize_Write_Result v) (rr_Write d)),
      (id_remoteEx, put_optional (\<lambda>c. [Put_code c]) (rr_remoteEx d))]"

definition functor_Reply :: "'s cdr_reader \<Rightarrow> cdr_version \<Rightarrow> ('s, Requests_Reply) member_functor" where
  "functor_Reply rd v mid s d =
     (if mid = id_Read then
        read_member (get_optional rd (get_object (deserialize_Read_Result rd v) Result_default)) (\<lambda>x. d\<lparr>rr_Read := x\<rparr>) s
      else if mid = id_Write then
        read_member (get_optional rd (get_object (deserialize_Write_Result rd v) Result_default)) (\<lambda>x. d\<lparr>rr_Write := x\<rparr>) s
      else if mid = id_remoteEx then read_member (get_optional rd (rd_code rd)) (\<lambda>x. d\<lparr>rr_remoteEx := x\<rparr>) s
      else unknown_member s d)"

definition deserialize_Reply ::
  "'s cdr_reader \<Rightarrow> cdr_version \<Rightarrow> 's \<Rightarrow> Requests_Reply \<Rightarrow> ('s \<times> Requests_Reply) option" where
  "deserialize_Reply rd v s d = deserialize_type rd (mutable_flag v) (functor_Reply rd v) s d"

definition calculate_Reply :: "'z cdr_sizes \<Rightarrow> Requests_Reply \<Rightarrow> 'z calculation" where
  "calculate_Reply cz d z = calculate_type cz (mutable_flag (cz_version cz z))
     [(id_Read, cz_optional cz (map_option (calculate_Read_Result cz) (rr_Read d))),
      (id_Write, cz_optional cz (map_option (calculate_Write_Result cz) (rr_Write d))),
      (id_remoteEx, cz_optional cz (map_option (cz_code cz) (rr_remoteEx d)))] z"

section \<open>Topic types\<close>

record topic_type =
  tt_name :: string
  tt_max_serialized_type_size :: u32
  tt_is_compute_key_provided :: bool
  tt_key_length :: u32

text \<open>The constructors; \<open>alignment\<close> is the function of Fast CDR.\<close>

definition padded_size :: "(u32 \<Rightarrow> u32 \<Rightarrow> u32) \<Rightarrow> u32 \<Rightarrow> u32" where
  "padded_size alignment type_size = type_size + alignment type_size 4 + 4"

definition MessagePubSubType :: "(u32 \<Rightarrow> u32 \<Rightarrow> u32) \<Rightarrow> topic_type" where
  "MessagePubSubType alignment = \<lparr>tt_name = ''cat::middleware::Message'',
     tt_max_serialized_type_size = padded_size alignment 268, tt_is_compute_key_provided = False, tt_key_length = 16\<rparr>"

definition TransferDataPubSubType :: "(u32 \<Rightarrow> u32 \<Rightarrow> u32) \<Rightarrow> topic_type" where
  "TransferDataPubSubType alignment = \<lparr>tt_name = ''cat::middleware::dds::TransferData'',
     tt_max_serialized_type_size = padded_size alignment 8, tt_is_compute_key_provided = False, tt_key_length = 16\<rparr>"

definition Requests_RequestPubSubType :: "(u32 \<Rightarrow> u32 \<Rightarrow> u32) \<Rightarrow> topic_type" where
  "Requests_RequestPubSubType alignment = \<lparr>tt_name = ''cat::middleware::dds::Requests_Request'',
     tt_max_serialized_type_size = padded_size alignment 44, tt_is_compute_key_provided = False, tt_key_length = 0\<rparr>"

definition Requests_ReplyPubSubType :: "(u32 \<Rightarrow> u32 \<Rightarrow> u32) \<Rightarrow> topic_type" where
  "Requests_ReplyPubSubType alignment = \<lparr>tt_name = ''cat::middleware::dds::Requests_Reply'',
     tt_max_serialized_type_size = padded_size alignment 44, tt_is_compute_key_provided = False, tt_key_length = 0\<rparr>"

text \<open>\<open>create_Requests_service_type_support\<close>: the types of requests and of replies.\<close>

definition create_Requests_service_type_support :: "(u32 \<Rightarrow> u32 \<Rightarrow> u32) \<Rightarrow> topic_type \<times> topic_type" where
  "create_Requests_service_type_support alignment = (Requests_RequestPubSubType alignment, Requests_ReplyPubSubType alignment)"

definition Message_serialize :: "('b, 's) cdr_codec \<Rightarrow> Message \<Rightarrow> data_representation \<Rightarrow> 'b payload \<Rightarrow> bool \<times> 'b payload" where
  "Message_serialize cd d = topic_serialize cd delimited_flag (\<lambda>v. serialize_Message v d)"

definition Message_deserialize :: "('b, 's) cdr_codec \<Rightarrow> 's cdr_reader \<Rightarrow> 'b payload \<Rightarrow> Message \<Rightarrow> ('b payload \<times> Message) option" where
  "Message_deserialize cd rd = topic_deserialize cd (deserialize_Message rd)"

definition Message_calculate_size :: "'z cdr_sizes \<Rightarrow> Message \<Rightarrow> data_representation \<Rightarrow> u32" where
  "Message_calculate_size cz d = topic_size cz (calculate_Message cz d)"

definition TransferData_serialize ::
  "('b, 's) cdr_codec \<Rightarrow> TransferData \<Rightarrow> data_representation \<Rightarrow> 'b payload \<Rightarrow> bool \<times> 'b payload" where
  "TransferData_serialize cd d = topic_serialize cd delimited_flag (\<lambda>v. serialize_TransferData v d)"

definition TransferData_deserialize ::
  "('b, 's) cdr_codec \<Rightarrow> 's cdr_reader \<Rightarrow> 'b payload \<Rightarrow> TransferData \<Rightarrow> ('b payload \<times> TransferData) option" where
  "TransferData_deserialize cd rd = topic_deserialize cd (deserialize_TransferData rd)"

definition TransferData_calculate_size :: "'z cdr_sizes \<Rightarrow> TransferData \<Rightarrow> data_representation \<Rightarrow> u32" where
  "TransferData_calculate_size cz d = topic_size cz (calculate_TransferData cz d)"

definition Request_serialize ::
  "('b, 's) cdr_codec \<Rightarrow> Requests_Request \<Rightarrow> data_representation \<Rightarrow> 'b payload \<Rightarrow> bool \<times> 'b payload" where
  "Request_serialize cd d = topic_serialize cd mutable_flag (\<lambda>v. serialize_Request v d)"

definition Request_deserialize ::
  "('b, 's) cdr_codec \<Rightarrow> 's cdr_reader \<Rightarrow> 'b payload \<Rightarrow> Requests_Request \<Rightarrow> ('b payload \<times> Requests_Request) option" where
  "Request_deserialize cd rd = topic_deserialize cd (deserialize_Request rd)"

definition Request_calculate_size :: "'z cdr_sizes \<Rightarrow> Requests_Request \<Rightarrow> data_representation \<Rightarrow> u32" where
  "Request_calculate_size cz d = topic_size cz (calculate_Request cz d)"

definition Reply_serialize ::
  "('b, 's) cdr_codec \<Rightarrow> Requests_Reply \<Rightarrow> data_representation \<Rightarrow> 'b payload \<Rightarrow> bool \<times> 'b payload" where
  "Reply_serialize cd d = topic_serialize cd mutable_flag (\<lambda>v. serialize_Reply v d)"

definition Reply_deserialize ::
  "('b, 's) cdr_codec \<Rightarrow> 's cdr_reader \<Rightarrow> 'b payload \<Rightarrow> Requests_Reply \<Rightarrow> ('b payload \<times> Requests_Reply) option" where
  "Reply_deserialize cd rd = topic_deserialize cd (deserialize_Reply rd)"

definition Reply_calculate_size :: "'z cdr_sizes \<Rightarrow> Requests_Reply \<Rightarrow> data_representation \<Rightarrow> u32" where
  "Reply_calculate_size cz d = topic_size cz (calculate_Reply cz d)"

section \<open>The types on the wire\<close>

definition view_exception :: "RequestException \<Rightarrow> RequestException" where
  "view_exception d = d\<lparr>ex_what := c_str (ex_what d)\<rparr>"

definition view_result :: "Requests_Result \<Rightarrow> Requests_Result" where
  "view_result d = d\<lparr>res_exception := map_option view_exception (res_exception d)\<rparr>"

definition view_reply :: "Requests_Reply \<Rightarrow> Requests_Reply" where
  "view_reply d = d\<lparr>rr_Read := map_option view_result (rr_Read d), rr_Write := map_option view_result (rr_Write d)\<rparr>"

lemma functor_equations:
  "functor_Message rd 0 s m = read_member (rd_string rd) (\<lambda>x. m\<lparr>ms_additional_information := x\<rparr>) s"
  "functor_Message rd 1 s m = read_member (rd_octets rd) (\<lambda>x. m\<lparr>ms_protobuf := x\<rparr>) s"
  "functor_TransferData rd 0 s d = read_member (rd_octets rd) (\<lambda>x. d\<lparr>protobuf := x\<rparr>) s"
  "functor_RequestException rd v 0 s e = read_member (rd_string rd) RequestException_of s"
  "functor_RequestException rd v (0 + 1) s e = read_member (rd_u32 rd) (\<lambda>x. e\<lparr>ex_status_code := x\<rparr>) s"
  "functor_RequestException rd v (1 + 1) s e =
     read_member (get_object (deserialize_TransferData rd v) (ex_request e)) (\<lambda>x. e\<lparr>ex_request := x\<rparr>) s"
  "functor_Read_In rd v 0 s d = read_member (get_object (deserialize_TransferData rd v) d) (\<lambda>x. x) s"
  "functor_Read_Out rd v 0 s d = read_member (get_object (deserialize_TransferData rd v) d) (\<lambda>x. x) s"
  "functor_Write_In rd v 0 s d = read_member (get_object (deserialize_TransferData rd v) d) (\<lambda>x. x) s"
  "functor_Write_Out rd v 0 s d = read_member (get_object (deserialize_TransferData rd v) d) (\<lambda>x. x) s"
  by (simp_all add: functor_Message_def functor_TransferData_def functor_RequestException_def functor_Read_In_def
      functor_Read_Out_def functor_Write_In_def functor_Write_Out_def)

lemmas id_defs = id_result_def id_exception_def id_Read_def id_Write_def id_remoteEx_def

lemma functor_optional_equations:
  "functor_Read_Result rd v id_result s r =
     read_member (get_optional rd (get_object (deserialize_Read_Out rd v) TransferData_fresh)) (\<lambda>x. r\<lparr>res_result := x\<rparr>) s"
  "functor_Read_Result rd v id_exception s r = read_member (get_RequestException rd v) (\<lambda>x. r\<lparr>res_exception := x\<rparr>) s"
  "functor_Write_Result rd v id_result s r =
     read_member (get_optional rd (get_object (deserialize_Write_Out rd v) TransferData_fresh)) (\<lambda>x. r\<lparr>res_result := x\<rparr>) s"
  "functor_Write_Result rd v id_exception s r = read_member (get_RequestException rd v) (\<lambda>x. r\<lparr>res_exception := x\<rparr>) s"
  "functor_Request rd v id_Read s q =
     read_member (get_optional rd (get_object (deserialize_Read_In rd v) TransferData_fresh)) (\<lambda>x. q\<lparr>rq_Read := x\<rparr>) s"
  "functor_Request rd v id_Write s q =
     read_member (get_optional rd (get_object (deserialize_Write_In rd v) TransferData_fresh)) (\<lambda>x. q\<lparr>rq_Write := x\<rparr>) s"
  "functor_Reply rd v id_Read s p =
     read_member (get_optional rd (get_object (deserialize_Read_Result rd v) Result_default)) (\<lambda>x. p\<lparr>rr_Read := x\<rparr>) s"
  "functor_Reply rd v id_Write s p =
     read_member (get_optional rd (get_object (deserialize_Write_Result rd v) Result_default)) (\<lambda>x. p\<lparr>rr_Write := x\<rparr>) s"
  "functor_Reply rd v id_remoteEx s p = read_member (get_optional rd (rd_code rd)) (\<lambda>x. p\<lparr>rr_remoteEx := x\<rparr>) s"
  by (simp_all add: functor_Read_Result_def functor_Write_Result_def functor_Request_def functor_Reply_def id_defs)

interpretation msg: wire_type serialize_Message deserialize_Message Message_fresh "\<lambda>x. x"
proof
  fix rd :: "'s cdr_reader" and R v x
  assume L: "cdr_read_laws rd R"
  have "functor_reads R (delimited_flag v) (functor_Message rd) {0}
      [(0, [Put_string (ms_additional_information x)]), (1, [Put_octets (ms_protobuf x)])] Message_fresh x"
    by (rule functor_reads_member, rule functor_equations(1), rule reads_values(1) [OF L], simp, simp,
        rule functor_reads_member, rule functor_equations(2), rule reads_values(3) [OF L], simp, simp)
       (simp add: functor_Message_def unknown_member_def)
  from reads_type [OF L this] show "reads R (get_object (deserialize_Message rd v) Message_fresh) (serialize_Message v x) x"
    by (simp add: deserialize_Message_def [abs_def] serialize_Message_def)
qed (simp_all add: serialize_Message_def wf_put_type)

interpretation td: wire_type serialize_TransferData deserialize_TransferData TransferData_fresh "\<lambda>x. x"
proof
  fix rd :: "'s cdr_reader" and R v x
  assume L: "cdr_read_laws rd R"
  have "functor_reads R (delimited_flag v) (functor_TransferData rd) {0} [(0, [Put_octets (protobuf x)])] TransferData_fresh x"
    by (rule functor_reads_member, rule functor_equations(3), rule reads_values(3) [OF L], simp, simp)
       (simp add: functor_TransferData_def unknown_member_def)
  from reads_type [OF L this] show "reads R (get_object (deserialize_TransferData rd v) TransferData_fresh) (serialize_TransferData v x) x"
    by (simp add: deserialize_TransferData_def [abs_def] serialize_TransferData_def)
qed (simp_all add: serialize_TransferData_def wf_put_type)

lemma reads_wrapped:
  assumes "cdr_read_laws rd R"
    "\<And>s. fct 0 s TransferData_fresh = read_member (get_object (deserialize_TransferData rd v) TransferData_fresh) (\<lambda>x. x) s"
    "\<And>s. fct 1 s x = unknown_member s x"
  shows "reads R (get_object (deserialize_type rd (final_flag v) fct) TransferData_fresh)
    (put_type (final_flag v) [(0, serialize_TransferData v x)]) x"
proof (rule reads_type [OF assms(1)])
  show "functor_reads R (final_flag v) fct {0} [(0, serialize_TransferData v x)] TransferData_fresh x"
    by (rule functor_reads_member, rule assms(2), rule td.reads_back [OF assms(1)], rule td.starts, rule td.starts)
       (simp add: assms(3) unknown_member_def)
qed

lemma wf_wrapped: "wf_puts K (put_type (final_flag v) [(0, serialize_TransferData v x)] @ ps) = wf_puts K ps"
  by (simp add: wf_put_type td.balanced)

lemmas wrapped_defs =
  serialize_Read_In_def functor_Read_In_def deserialize_Read_In_def [abs_def]
  serialize_Read_Out_def functor_Read_Out_def deserialize_Read_Out_def [abs_def]
  serialize_Write_In_def functor_Write_In_def deserialize_Write_In_def [abs_def]
  serialize_Write_Out_def functor_Write_Out_def deserialize_Write_Out_def [abs_def]

interpretation rin: wire_type serialize_Read_In deserialize_Read_In TransferData_fresh "\<lambda>x. x"
  by standard (simp_all add: wrapped_defs wf_wrapped reads_wrapped)

interpretation rout: wire_type serialize_Read_Out deserialize_Read_Out TransferData_fresh "\<lambda>x. x"
  by standard (simp_all add: wrapped_defs wf_wrapped reads_wrapped)

interpretation win: wire_type serialize_Write_In deserialize_Write_In TransferData_fresh "\<lambda>x. x"
  by standard (simp_all add: wrapped_defs wf_wrapped reads_wrapped)

interpretation wout: wire_type serialize_Write_Out deserialize_Write_Out TransferData_fresh "\<lambda>x. x"
  by standard (simp_all add: wrapped_defs wf_wrapped reads_wrapped)

lemma functor_exception_request:
  "ex_request e = TransferData_fresh \<Longrightarrow> functor_RequestException rd v (1 + 1) s e =
     read_member (get_object (deserialize_TransferData rd v) TransferData_fresh) (\<lambda>x. e\<lparr>ex_request := x\<rparr>) s"
  using functor_equations(6) [of rd v s e] by simp

interpretation exc: wire_type serialize_RequestException deserialize_RequestException RequestException_fresh view_exception
proof
  fix rd :: "'s cdr_reader" and R v x
  assume L: "cdr_read_laws rd R"
  have "functor_reads R (final_flag v) (functor_RequestException rd v) {0}
      [(0, [Put_string (c_str (ex_what x))]), (0 + 1, [Put_u32 (ex_status_code x)]), (1 + 1, serialize_TransferData v (ex_request x))]
      RequestException_fresh (view_exception x)"
    by (rule functor_reads_member, rule functor_equations(4), rule reads_values(1) [OF L], simp, simp,
        rule functor_reads_member, rule functor_equations(5), rule reads_values(2) [OF L], simp, simp,
        rule functor_reads_member, rule functor_exception_request, simp add: RequestException_of_def,
        rule td.reads_back [OF L], rule td.starts, rule td.starts)
       (simp add: functor_RequestException_def unknown_member_def view_exception_def RequestException_of_def)
  from reads_type [OF L this]
  show "reads R (get_object (deserialize_RequestException rd v) RequestException_fresh) (serialize_RequestException v x) (view_exception x)"
    by (simp add: deserialize_RequestException_def [abs_def] serialize_RequestException_def)
qed (simp_all add: serialize_RequestException_def wf_put_type td.balanced)

lemma reads_result:
  assumes "cdr_read_laws rd R"
    "\<And>s r. fct id_result s r = read_member get (\<lambda>y. r\<lparr>res_result := y\<rparr>) s"
    "\<And>s r. fct id_exception s r = read_member (get_RequestException rd v) (\<lambda>y. r\<lparr>res_exception := y\<rparr>) s"
    "\<And>k s r. k \<noteq> id_result \<Longrightarrow> k \<noteq> id_exception \<Longrightarrow> fct k s r = unknown_member s r"
    "reads R get (put_optional out (res_result x)) (res_result x)"
  shows "reads R (get_object (deserialize_type rd (mutable_flag v) fct) Result_default)
    (put_type (mutable_flag v) [(id_result, put_optional out (res_result x)),
       (id_exception, put_optional (serialize_RequestException v) (res_exception x))]) (view_result x)"
proof (rule reads_type [OF assms(1)])
  have e: "reads R (get_RequestException rd v) (put_optional (serialize_RequestException v) (res_exception x))
      (map_option view_exception (res_exception x))"
    unfolding get_RequestException_def by (rule exc.reads_member_optional [OF assms(1)])
  show "functor_reads R (mutable_flag v) fct {0} [(id_result, put_optional out (res_result x)),
       (id_exception, put_optional (serialize_RequestException v) (res_exception x))] Result_default (view_result x)"
    by (rule functor_reads_optional, rule assms(2), rule assms(5), simp add: Result_default_def, simp,
        rule functor_reads_optional, rule assms(3), rule e, simp add: Result_default_def, simp)
       (auto simp: Result_default_def view_result_def assms(4) unknown_member_def id_defs)
qed

interpretation rres: wire_type serialize_Read_Result deserialize_Read_Result Result_default view_result
proof
  fix rd :: "'s cdr_reader" and R v and x :: Requests_Result
  assume L: "cdr_read_laws rd R"
  have "reads R (get_optional rd (get_object (deserialize_Read_Out rd v) TransferData_fresh))
      (put_optional (serialize_Read_Out v) (res_result x)) (res_result x)"
    using rout.reads_member_optional [OF L, of v "res_result x"] by (simp add: option.map_ident)
  then show "reads R (get_object (deserialize_Read_Result rd v) Result_default) (serialize_Read_Result v x) (view_result x)"
    unfolding deserialize_Read_Result_def [abs_def] serialize_Read_Result_def
    by (intro reads_result [OF L]) (simp_all add: functor_Read_Result_def id_defs)
qed (simp_all add: serialize_Read_Result_def wf_put_type rout.balanced_optional exc.balanced_optional)

interpretation wres: wire_type serialize_Write_Result deserialize_Write_Result Result_default view_result
proof
  fix rd :: "'s cdr_reader" and R v and x :: Requests_Result
  assume L: "cdr_read_laws rd R"
  have "reads R (get_optional rd (get_object (deserialize_Write_Out rd v) TransferData_fresh))
      (put_optional (serialize_Write_Out v) (res_result x)) (res_result x)"
    using wout.reads_member_optional [OF L, of v "res_result x"] by (simp add: option.map_ident)
  then show "reads R (get_object (deserialize_Write_Result rd v) Result_default) (serialize_Write_Result v x) (view_result x)"
    unfolding deserialize_Write_Result_def [abs_def] serialize_Write_Result_def
    by (intro reads_result [OF L]) (simp_all add: functor_Write_Result_def id_defs)
qed (simp_all add: serialize_Write_Result_def wf_put_type wout.balanced_optional exc.balanced_optional)

interpretation req: wire_type serialize_Request deserialize_Request Request_fresh "\<lambda>x. x"
proof
  fix rd :: "'s cdr_reader" and R v x
  assume L: "cdr_read_laws rd R"
  have "functor_reads R (mutable_flag v) (functor_Request rd v) {0}
      [(id_Read, put_optional (serialize_Read_In v) (rq_Read x)), (id_Write, put_optional (serialize_Write_In v) (rq_Write x))]
      Request_fresh x"
    by (rule functor_reads_optional, rule functor_optional_equations(5), rule rin.reads_member_optional [OF L],
        simp add: Request_fresh_def, simp,
        rule functor_reads_optional, rule functor_optional_equations(6), rule win.reads_member_optional [OF L],
        simp add: Request_fresh_def, simp)
       (auto simp: Request_fresh_def option.map_ident functor_Request_def unknown_member_def id_defs)
  from reads_type [OF L this] show "reads R (get_object (deserialize_Request rd v) Request_fresh) (serialize_Request v x) x"
    by (simp add: deserialize_Request_def [abs_def] serialize_Request_def)
qed (simp_all add: serialize_Request_def wf_put_type rin.balanced_optional win.balanced_optional)

lemma reads_code: "cdr_read_laws rd R \<Longrightarrow> reads R (get_optional rd (rd_code rd)) (put_optional (\<lambda>c. [Put_code c]) z) z"
  by (cases z) (simp_all add: reads_optional reads_values)

lemma wf_code: "wf_puts K (put_optional (\<lambda>c. [Put_code c]) z @ ps) = wf_puts K ps"
  by (cases z) (simp_all add: put_optional_def)

interpretation rep: wire_type serialize_Reply deserialize_Reply RpcReply_default view_reply
proof
  fix rd :: "'s cdr_reader" and R v x
  assume L: "cdr_read_laws rd R"
  have "functor_reads R (mutable_flag v) (functor_Reply rd v) {0}
      [(id_Read, put_optional (serialize_Read_Result v) (rr_Read x)), (id_Write, put_optional (serialize_Write_Result v) (rr_Write x)),
       (id_remoteEx, put_optional (\<lambda>c. [Put_code c]) (rr_remoteEx x))] RpcReply_default (view_reply x)"
    by (rule functor_reads_optional, rule functor_optional_equations(7), rule rres.reads_member_optional [OF L],
        simp add: RpcReply_default_def, simp,
        rule functor_reads_optional, rule functor_optional_equations(8), rule wres.reads_member_optional [OF L],
        simp add: RpcReply_default_def, simp,
        rule functor_reads_optional, rule functor_optional_equations(9), rule reads_code [OF L],
        simp add: RpcReply_default_def, simp)
       (auto simp: RpcReply_default_def view_reply_def functor_Reply_def unknown_member_def id_defs)
  from reads_type [OF L this] show "reads R (get_object (deserialize_Reply rd v) RpcReply_default) (serialize_Reply v x) (view_reply x)"
    by (simp add: deserialize_Reply_def [abs_def] serialize_Reply_def)
qed (simp_all add: serialize_Reply_def wf_put_type rres.balanced_optional wres.balanced_optional wf_code)

section \<open>Sizes\<close>

definition carries_exception :: "Requests_Reply \<Rightarrow> bool" where
  "carries_exception d =
     ((case rr_Read d of None \<Rightarrow> False | Some r \<Rightarrow> res_exception r \<noteq> None) \<or>
      (case rr_Write d of None \<Rightarrow> False | Some r \<Rightarrow> res_exception r \<noteq> None))"

lemma sized_values:
  assumes "cdr_size_laws cz v Z len"
  shows "exact Z len (calculate_Message cz m) (serialize_Message v m)"
    and "exact Z len (calculate_TransferData cz d) (serialize_TransferData v d)"
  using sized_type [OF assms, of "[(0, cz_string cz (ms_additional_information m)), (1, cz_octets cz (ms_protobuf m))]"
      "[(0, False, [Put_string (ms_additional_information m)]), (1, False, [Put_octets (ms_protobuf m)])]" delimited_flag]
    sized_type [OF assms, of "[(0, cz_octets cz (protobuf d))]" "[(0, False, [Put_octets (protobuf d)])]" delimited_flag]
  by (simp_all add: calculate_Message_def [abs_def] serialize_Message_def calculate_TransferData_def [abs_def]
      serialize_TransferData_def cdr_sizeD(6,8) [OF assms])

lemma sized_wrapped:
  assumes "cdr_size_laws cz v Z len"
  shows "exact Z len (\<lambda>z. calculate_type cz (final_flag (cz_version cz z)) [(0, calculate_TransferData cz d)] z)
    (put_type (final_flag v) [(0, serialize_TransferData v d)])"
  using sized_type [OF assms, of "[(0, calculate_TransferData cz d)]" "[(0, False, serialize_TransferData v d)]" final_flag]
  by (simp add: sized_values [OF assms] td.balanced)

lemma sized_arguments:
  assumes "cdr_size_laws cz v Z len"
  shows "exact Z len (calculate_Read_In cz d) (serialize_Read_In v d)" "exact Z len (calculate_Read_Out cz d) (serialize_Read_Out v d)"
    "exact Z len (calculate_Write_In cz d) (serialize_Write_In v d)" "exact Z len (calculate_Write_Out cz d) (serialize_Write_Out v d)"
  using sized_wrapped [OF assms, of d]
  by (simp_all add: calculate_Read_In_def [abs_def] calculate_Read_Out_def [abs_def] calculate_Write_In_def [abs_def]
      calculate_Write_Out_def [abs_def] serialize_Read_In_def serialize_Read_Out_def serialize_Write_In_def serialize_Write_Out_def)

text \<open>The calculation of an exception leaves out the size of the message.\<close>

lemma grown:
  assumes "cdr_size_laws cz v Z len"
  shows "len ps + length x < len (ps @ i # [Put_string x])" "len ps + 4 \<le> len (ps @ i # [Put_u32 n])"
    "len ps + 4 \<le> len (ps @ i # serialize_TransferData v d)"
proof -
  note mono = cdr_sizeD(16) [OF assms, of ps]
  show "len ps + length x < len (ps @ i # [Put_string x])"
    using cdr_sizeD(13) [OF assms, of "ps @ [i]" x] mono [of "[i]"] by simp
  show "len ps + 4 \<le> len (ps @ i # [Put_u32 n])"
    using cdr_sizeD(14) [OF assms, of "ps @ [i]" n] mono [of "[i]"] by simp
  let ?h = "[i, Begin_type (delimited_flag v), Member_id 0]"
  show "len ps + 4 \<le> len (ps @ i # serialize_TransferData v d)"
    using cdr_sizeD(15) [OF assms, of "ps @ ?h" "protobuf d"] mono [of ?h]
      cdr_sizeD(16) [OF assms, of "ps @ ?h @ [Put_octets (protobuf d)]" "[End_type]"]
    by (simp add: serialize_TransferData_def put_type_def)
qed

lemma short_exception:
  assumes L: "cdr_size_laws cz v Z len"
  shows "sized Z len True (calculate_RequestException cz d) (serialize_RequestException v d)"
  unfolding sized_def
proof (intro allI impI)
  fix z ps
  assume z: "Z z ps"
  let ?f = "final_flag v" and ?s = "[Put_string (c_str (ex_what d))]" and ?u = "[Put_u32 (ex_status_code d)]"
  let ?t = "serialize_TransferData v (ex_request d)"
  obtain n z1 where c1: "cz_begin cz (final_flag (cz_version cz z)) z = (n, z1)" by fastforce
  obtain k z2 where c2: "cz_member cz 0 (cz_string cz (c_str (ex_what d))) z1 = (k, z2)" by fastforce
  obtain n1 z3 where c3: "cz_member cz (0 + 1) (cz_u32 cz (ex_status_code d)) z2 = (n1, z3)" by fastforce
  obtain n2 z4 where c4: "cz_member cz (1 + 1) (calculate_TransferData cz (ex_request d)) z3 = (n2, z4)" by fastforce
  obtain n3 z5 where c5: "cz_end cz (cz_encoding cz z) z4 = (n3, z5)" by fastforce
  note member = cdr_sizeD(12) [OF L, of False]
  let ?p1 = "ps @ [Begin_type ?f]" and ?q = "(Member_id 0 # ?s) @ (Member_id (0 + 1) # ?u) @ Member_id (1 + 1) # ?t"
  have 1: "Z z1 ?p1" "len ?p1 = len ps + n"
    using exactD [OF cdr_sizeD(4) [OF L, of ?f] z] c1 by (simp_all add: cdr_sizeD(2) [OF L z])
  have 2: "Z z2 (?p1 @ Member_id 0 # ?s)" "len (?p1 @ Member_id 0 # ?s) = len ?p1 + k"
    using exactD [OF member [OF cdr_sizeD(6) [OF L, of "c_str (ex_what d)"], of 0] 1(1)] c2 by simp_all
  let ?p3 = "?p1 @ (Member_id 0 # ?s) @ Member_id (0 + 1) # ?u"
  have 3: "Z z3 ?p3" "len ?p3 = len (?p1 @ Member_id 0 # ?s) + n1"
    using exactD [OF member [OF cdr_sizeD(7) [OF L, of "ex_status_code d"], of "0 + 1"] 2(1)] c3 by simp_all
  have 4: "Z z4 (?p1 @ ?q)" "len (?p1 @ ?q) = len ?p3 + n2"
    using exactD [OF member [OF sized_values(2) [OF L, of "ex_request d"], of "1 + 1"] 3(1)] c4 by simp_all
  have m: "members_of ?f ?q"
    using members_ofI [of ?f 0 "[(0, ?s), (0 + 1, ?u), (1 + 1, ?t)]"] td.balanced [of _ v "ex_request d"] by (auto simp: members_of_def)
  have "Z z4 (ps @ Begin_type ?f # ?q)" using 4(1) by simp
  from cdr_sizeD(5) [OF L z this m] have 5: "Z z5 (?p1 @ ?q @ [End_type])" "len (?p1 @ ?q @ [End_type]) = len (?p1 @ ?q) + n3"
    unfolding c5 by simp_all
  have "0 < k" "4 \<le> n1" "4 \<le> n2"
    using grown(1) [OF L, of ?p1 "c_str (ex_what d)" "Member_id 0"] 2(2) grown(2) [OF L, of "?p1 @ Member_id 0 # ?s" "Member_id (0 + 1)" "ex_status_code d"]
      3(2) grown(3) [OF L, of ?p3 "Member_id (1 + 1)" "ex_request d"] 4(2) by simp_all
  moreover have "calculate_RequestException cz d z = (n + n1 + n2 + n3, z5)"
    by (simp only: calculate_RequestException_def c1 c2 c3 c4 c5 prod.case)
  moreover have "ps @ serialize_RequestException v d = ?p1 @ ?q @ [End_type]"
    by (simp add: serialize_RequestException_def put_type_def)
  ultimately show "Z (snd (calculate_RequestException cz d z)) (ps @ serialize_RequestException v d) \<and>
     (if True then 8 \<le> fst (calculate_RequestException cz d z) \<and>
        len ps + fst (calculate_RequestException cz d z) < len (ps @ serialize_RequestException v d)
      else len (ps @ serialize_RequestException v d) = len ps + fst (calculate_RequestException cz d z))"
    using 5 4(2) 3(2) 2(2) 1(2) by simp
qed

lemma sized_results:
  assumes L: "cdr_size_laws cz v Z len"
  shows "sized Z len (res_exception d \<noteq> None) (calculate_Read_Result cz d) (serialize_Read_Result v d)"
    and "sized Z len (res_exception d \<noteq> None) (calculate_Write_Result cz d) (serialize_Write_Result v d)"
proof -
  have e: "sized Z len (res_exception d \<noteq> None) (cz_optional cz (map_option (calculate_RequestException cz) (res_exception d)))
      (put_optional (serialize_RequestException v) (res_exception d))"
    using sized_optional [OF L, of "res_exception d" "\<lambda>_. True"] short_exception [OF L] by (cases "res_exception d") auto
  have "exact Z len (cz_optional cz (map_option (calculate_Read_Out cz) (res_result d))) (put_optional (serialize_Read_Out v) (res_result d))"
    using sized_optional [OF L, of "res_result d" "\<lambda>_. False"] sized_arguments(2) [OF L] by (cases "res_result d") auto
  with e show "sized Z len (res_exception d \<noteq> None) (calculate_Read_Result cz d) (serialize_Read_Result v d)"
    using sized_type [OF L, of _ "[(id_result, False, put_optional (serialize_Read_Out v) (res_result d)),
        (id_exception, res_exception d \<noteq> None, put_optional (serialize_RequestException v) (res_exception d))]" mutable_flag]
    by (simp add: calculate_Read_Result_def [abs_def] serialize_Read_Result_def rout.balanced_optional exc.balanced_optional)
  have "exact Z len (cz_optional cz (map_option (calculate_Write_Out cz) (res_result d))) (put_optional (serialize_Write_Out v) (res_result d))"
    using sized_optional [OF L, of "res_result d" "\<lambda>_. False"] sized_arguments(4) [OF L] by (cases "res_result d") auto
  with e show "sized Z len (res_exception d \<noteq> None) (calculate_Write_Result cz d) (serialize_Write_Result v d)"
    using sized_type [OF L, of _ "[(id_result, False, put_optional (serialize_Write_Out v) (res_result d)),
        (id_exception, res_exception d \<noteq> None, put_optional (serialize_RequestException v) (res_exception d))]" mutable_flag]
    by (simp add: calculate_Write_Result_def [abs_def] serialize_Write_Result_def wout.balanced_optional exc.balanced_optional)
qed

lemma sized_request:
  assumes L: "cdr_size_laws cz v Z len"
  shows "exact Z len (calculate_Request cz d) (serialize_Request v d)"
proof -
  have "exact Z len (cz_optional cz (map_option (calculate_Read_In cz) (rq_Read d))) (put_optional (serialize_Read_In v) (rq_Read d))"
    using sized_optional [OF L, of "rq_Read d" "\<lambda>_. False"] sized_arguments(1) [OF L] by (cases "rq_Read d") auto
  moreover have "exact Z len (cz_optional cz (map_option (calculate_Write_In cz) (rq_Write d))) (put_optional (serialize_Write_In v) (rq_Write d))"
    using sized_optional [OF L, of "rq_Write d" "\<lambda>_. False"] sized_arguments(3) [OF L] by (cases "rq_Write d") auto
  ultimately show ?thesis
    using sized_type [OF L, of _ "[(id_Read, False, put_optional (serialize_Read_In v) (rq_Read d)),
        (id_Write, False, put_optional (serialize_Write_In v) (rq_Write d))]" mutable_flag]
    by (simp add: calculate_Request_def [abs_def] serialize_Request_def rin.balanced_optional win.balanced_optional)
qed

lemma sized_reply:
  assumes L: "cdr_size_laws cz v Z len"
  shows "sized Z len (carries_exception d) (calculate_Reply cz d) (serialize_Reply v d)"
proof -
  let ?e = "\<lambda>x. case x of None \<Rightarrow> False | Some r \<Rightarrow> res_exception r \<noteq> None"
  have "sized Z len (?e (rr_Read d)) (cz_optional cz (map_option (calculate_Read_Result cz) (rr_Read d)))
      (put_optional (serialize_Read_Result v) (rr_Read d))"
    by (rule sized_optional [OF L]) (rule sized_results(1) [OF L])
  moreover have "sized Z len (?e (rr_Write d)) (cz_optional cz (map_option (calculate_Write_Result cz) (rr_Write d)))
      (put_optional (serialize_Write_Result v) (rr_Write d))"
    by (rule sized_optional [OF L]) (rule sized_results(2) [OF L])
  moreover have "exact Z len (cz_optional cz (map_option (cz_code cz) (rr_remoteEx d))) (put_optional (\<lambda>c. [Put_code c]) (rr_remoteEx d))"
    using sized_optional [OF L, of "rr_remoteEx d" "\<lambda>_. False"] cdr_sizeD(9) [OF L] by (cases "rr_remoteEx d") auto
  ultimately show ?thesis
    using sized_type [OF L, of _ "[(id_Read, ?e (rr_Read d), put_optional (serialize_Read_Result v) (rr_Read d)),
        (id_Write, ?e (rr_Write d), put_optional (serialize_Write_Result v) (rr_Write d)),
        (id_remoteEx, False, put_optional (\<lambda>c. [Put_code c]) (rr_remoteEx d))]" mutable_flag]
    by (simp add: calculate_Reply_def [abs_def] serialize_Reply_def carries_exception_def rres.balanced_optional
        wres.balanced_optional wf_code)
qed

section \<open>Messages, requests and replies on the wire\<close>

lemma c_str_nul_free [simp]: "nul_free (c_str x)"
  by (auto simp: nul_free_def c_str_def list_all_iff dest: set_takeWhileD)

lemma strings_written:
  "Put_string t \<in> set (serialize_Message v m) \<Longrightarrow> t = ms_additional_information m"
  "Put_string t \<notin> set (serialize_Request v q)"
  "Put_string t \<in> set (serialize_Reply v d) \<Longrightarrow> nul_free t"
  by (auto simp: serialize_Message_def serialize_Request_def serialize_Reply_def serialize_Read_Result_def
      serialize_Write_Result_def wrapped_defs serialize_TransferData_def serialize_RequestException_def
      put_type_def put_optional_def split: option.splits)

text \<open>A payload of the computed size: the type is written into it exactly when the computation is exact.\<close>

lemma short_size:
  assumes "cdr_size_laws cz (version_of r) Z len" "sized Z len short calc q" "len q + 4 < 2 ^ 32"
  shows "len q + 4 \<le> unat (topic_size cz calc r) \<longleftrightarrow> \<not> short"
proof -
  let ?n = "fst (calc (cz_start cz (version_of r)))"
  have n: "if short then ?n < len q else len q = ?n"
    using sizedD [OF assms(2) cdr_sizeD(1) [OF assms(1)]] cdr_sizeD(3) [OF assms(1)] by (cases short) simp_all
  then have "unat (of_nat (?n + 4) :: u32) = ?n + 4"
    using assms(3) by (simp add: unat_of_nat take_bit_nat_eq_self split: if_splits del: of_nat_add)
  then show ?thesis using n by (auto simp: topic_size_def)
qed

lemmas token_eval = token_length_def put_type_def topic_size_def version_of_def calculate_type_def then_add_def
  token_sizes_def token_add_def put_optional_def

text \<open>
  A message is written into a payload of the size computed for it and read back from there unchanged, in
  both data representations, when its text has no zero character.
\<close>

theorem message_round_trip:
  assumes "cdr_read_laws rd R" "cdr_codec_laws cd (version_of r) R len" "cdr_size_laws cz (version_of r) Z len"
    and "nul_free (ms_additional_information d)" "len (serialize_Message (version_of r) d) + 4 < 2 ^ 32"
    and "pl_max_size p = Message_calculate_size cz d r"
  shows "\<exists>p' p''. Message_serialize cd d r p = (True, p') \<and> Message_deserialize cd rd p' Message_fresh = Some (p'', d)"
proof -
  have t: "\<forall>t. Put_string t \<in> set (serialize_Message (version_of r) d) \<longrightarrow> nul_free t"
    using strings_written(1) assms(4) by blast
  have "fst (Message_serialize cd d r p)"
    unfolding Message_serialize_def msg.topic_write [OF assms(2) t]
    using short_size [OF assms(3) sized_values(1) [OF assms(3)] assms(5)] assms(6) by (simp add: Message_calculate_size_def)
  then obtain p' where p': "Message_serialize cd d r p = (True, p')" by (cases "Message_serialize cd d r p") simp
  from msg.topic_round_trip [OF assms(1,2) t] this show ?thesis
    unfolding Message_serialize_def Message_deserialize_def by blast
qed

theorem message_round_trip_witness:
  "\<exists>p' p''. Message_serialize token_codec \<lparr>ms_additional_information = ''B'', ms_protobuf = [1, 2]\<rparr> XCDR2_DATA_REPRESENTATION
       \<lparr>pl_data = None, pl_length = 0, pl_max_size = 26, pl_big_endian = True\<rparr> = (True, p') \<and>
     Message_deserialize token_codec token_reader p' Message_fresh = Some (p'', \<lparr>ms_additional_information = ''B'', ms_protobuf = [1, 2]\<rparr>)"
  by (rule message_round_trip [OF token_read_laws token_codec_laws token_size_laws])
    (simp_all add: nul_free_def token_eval serialize_Message_def Message_calculate_size_def calculate_Message_def)

text \<open>
C15: A reply is written into a payload of the size computed for it exactly when it carries no exception:
  the size of the exception's message is left out of the computation.
\<close>

theorem reply_fits_computed_size:
  assumes "cdr_codec_laws cd (version_of r) R len" "cdr_size_laws cz (version_of r) Z len"
    and "len (serialize_Reply (version_of r) d) + 4 < 2 ^ 32" "pl_max_size p = Reply_calculate_size cz d r"
  shows "fst (Reply_serialize cd d r p) \<longleftrightarrow> \<not> carries_exception d"
proof -
  have t: "\<forall>t. Put_string t \<in> set (serialize_Reply (version_of r) d) \<longrightarrow> nul_free t" using strings_written(3) by blast
  show ?thesis
    unfolding Reply_serialize_def rep.topic_write [OF assms(1) t]
    using short_size [OF assms(2) sized_reply [OF assms(2)] assms(3)] assms(4) by (simp add: Reply_calculate_size_def)
qed

theorem reply_fits_computed_size_witness:
  "\<not> fst (Reply_serialize token_codec (RpcReply_default\<lparr>rr_Read := Some \<lparr>res_result = None, res_exception = Some RequestException_fresh\<rparr>\<rparr>)
      XCDR_DATA_REPRESENTATION \<lparr>pl_data = None, pl_length = 0, pl_max_size = 57, pl_big_endian = False\<rparr>)"
  using reply_fits_computed_size [OF token_codec_laws token_size_laws, of XCDR_DATA_REPRESENTATION
      "RpcReply_default\<lparr>rr_Read := Some \<lparr>res_result = None, res_exception = Some RequestException_fresh\<rparr>\<rparr>"
      "\<lparr>pl_data = None, pl_length = 0, pl_max_size = 57, pl_big_endian = False\<rparr>"]
  by (simp add: carries_exception_def token_eval RpcReply_default_def RequestException_fresh_def RequestException_of_def c_str_def
      TransferData_fresh_def Reply_calculate_size_def calculate_Reply_def calculate_Read_Result_def calculate_RequestException_def
      calculate_TransferData_def serialize_Reply_def serialize_Read_Result_def serialize_RequestException_def serialize_TransferData_def)

text \<open>What a caller sees of an exception: its message ends at the first zero character.\<close>

fun cut_what :: "client_exn + TransferData \<Rightarrow> client_exn + TransferData" where
  "cut_what (Inl (ClientRaised ex)) = Inl (ClientRaised (view_exception ex))"
| "cut_what out = out"

lemma cut_remote [simp]: "cut_what (Inl (set_remote_exception code)) = Inl (set_remote_exception code)"
  by (cases code) simp_all

lemma promise_of_view: "promise_process_reply op (view_reply r) = cut_what (promise_process_reply op r)"
  by (cases op)
    (auto simp: promise_process_reply_def view_reply_def view_result_def count_reply_fields_def result_value_def split: option.splits)

text \<open>
C14: An operation over the wire, whenever the payloads are large enough: the server reads the request the
  client made, and the reply made of the handler's outcome resolves the client's promise with that outcome.
\<close>

theorem operation_over_the_wire:
  assumes "cdr_read_laws rd R" "cdr_codec_laws cd (version_of r) R len"
    and "Request_serialize cd (make_request op req) r p = (True, p')"
    and "reply_of (impl_of op wrap_Read wrap_Write) out = Inr reply" "Reply_serialize cd reply r q = (True, q')"
  shows "\<exists>p'' q'' reply'. Request_deserialize cd rd p' Request_fresh = Some (p'', make_request op req) \<and>
    Reply_deserialize cd rd q' RpcReply_default = Some (q'', reply') \<and>
    promise_process_reply op reply' = cut_what (client_view out)"
proof -
  have "\<exists>p''. Request_deserialize cd rd p' Request_fresh = Some (p'', make_request op req)"
    using req.topic_round_trip [OF assms(1,2) _ assms(3) [unfolded Request_serialize_def]] strings_written(2)
    unfolding Request_deserialize_def by blast
  moreover have "\<exists>q''. Reply_deserialize cd rd q' RpcReply_default = Some (q'', view_reply reply)"
    using rep.topic_round_trip [OF assms(1,2) _ assms(5) [unfolded Reply_serialize_def]] strings_written(3)
    unfolding Reply_deserialize_def by blast
  moreover have "promise_process_reply op reply = client_view out"
    using assms(4) promise_gets_outcome by (cases op) (simp_all add: impl_of_def)
  ultimately show ?thesis by (metis promise_of_view)
qed

theorem operation_over_the_wire_witness:
  "let pay = \<lparr>pl_data = None, pl_length = 0, pl_max_size = 200, pl_big_endian = False\<rparr>;
       p = snd (Request_serialize token_codec (make_request OpWrite \<lparr>protobuf = [7]\<rparr>) XCDR2_DATA_REPRESENTATION pay);
       q = snd (Reply_serialize token_codec (wrap_Write \<lparr>res_result = None, res_exception = Some RequestException_fresh\<rparr>)
             XCDR2_DATA_REPRESENTATION pay)
   in \<exists>p'' q'' reply'. Request_deserialize token_codec token_reader p Request_fresh = Some (p'', make_request OpWrite \<lparr>protobuf = [7]\<rparr>) \<and>
      Reply_deserialize token_codec token_reader q RpcReply_default = Some (q'', reply') \<and>
      promise_process_reply OpWrite reply' = cut_what (client_view (Inl (Raised RequestException_fresh)))"
  unfolding Let_def
  by (rule operation_over_the_wire [OF token_read_laws token_codec_laws,
        where r = XCDR2_DATA_REPRESENTATION and reply = "wrap_Write \<lparr>res_result = None, res_exception = Some RequestException_fresh\<rparr>"
          and p = "\<lparr>pl_data = None, pl_length = 0, pl_max_size = 200, pl_big_endian = False\<rparr>"
          and q = "\<lparr>pl_data = None, pl_length = 0, pl_max_size = 200, pl_big_endian = False\<rparr>"])
    (simp_all add: prod_eq_iff Request_serialize_def Reply_serialize_def topic_serialize_def token_codec_def token_eval
      reply_of_def set_result_def impl_of_def Result_default_def make_request_def serialize_Request_def serialize_Write_In_def
      serialize_TransferData_def serialize_Reply_def serialize_Write_Result_def serialize_RequestException_def wrap_Write_def
      RpcReply_default_def RequestException_fresh_def RequestException_of_def c_str_def TransferData_fresh_def)

end
