(* ===== verification/Type_Objects.thy ===== *)
theory Type_Objects
  imports Cdr_Types
begin

text \<open>
  The registration of type objects: \<open>idl/topics/requests/requestsTypeObjectSupport.cxx\<close>,
  \<open>idl/topics/message/messageTypeObjectSupport.cxx\<close> and its copy in \<open>apps/lockup-standalone/message\<close>.  Shown: with
  a registry that behaves as documented, registering any of the types registers all types it depends on and logs no
  error.  The type objects agree with what the IDL files declare (\<open>message.idl\<close>, \<open>requests.idl\<close>: names and types of the
  members, and the types that the request/reply mapping makes of the interface, as in \<open>requests_details.hpp\<close>) and, in
  what those leave open, with the calls of \<open>Cdr_Types\<close>: extensibility, member numbers, optional members.  An error in
  \<open>RequestException\<close> hands out the identifier of another type.

  The registry of Fast DDS is the record \<open>registry_api\<close> on a state \<open>'s\<close>, with \<open>'i\<close> for its type identifiers; a
  registration works on that state and the log.  A pair of identifiers keeps its value when a look-up fails.
\<close>

section \<open>The registry\<close>

datatype extensibility = FINAL | APPENDABLE | MUTABLE

datatype identifier_kind = EK_COMPLETE | EK_MINIMAL | EK_BOTH | TK_NONE | Plain_kind

type_synonym 'i id_pair = "'i \<times> 'i"

text \<open>All members discard what cannot be constructed, and are neither keys nor external nor must they be understood.\<close>

record 'i struct_member =
  mb_id :: u32
  mb_optional :: bool
  mb_name :: string
  mb_hash_id :: "string option"
  mb_type :: 'i

record 'i struct_type =
  st_extensibility :: extensibility
  st_name :: string
  st_base :: 'i
  st_members :: "'i struct_member list"

text \<open>
  \<open>tr_complete\<close> is \<open>retrieve_complete_type_identifier\<close> with its success flag; the registering functions are given the
  pair they overwrite and return whether they ended in \<open>RETCODE_BAD_PARAMETER\<close>.  \<open>tr_register_rpc\<close> has the functions
  \<open>register_..._type_identifier\<close> of the library for its own types.
\<close>

record ('s, 'i) registry_api =
  tr_none :: 'i
  tr_kind :: "'i \<Rightarrow> identifier_kind"
  tr_get :: "'s \<Rightarrow> string \<Rightarrow> 'i id_pair option"
  tr_complete :: "'i id_pair \<Rightarrow> 'i option"
  tr_register_string :: "nat \<Rightarrow> string \<Rightarrow> 'i id_pair \<Rightarrow> 's \<Rightarrow> bool \<times> 'i id_pair \<times> 's"
  tr_register_sequence :: "identifier_kind \<times> nat \<times> 'i \<Rightarrow> string \<Rightarrow> 'i id_pair \<Rightarrow> 's \<Rightarrow> bool \<times> 'i id_pair \<times> 's"
  tr_register_struct :: "'i struct_type \<Rightarrow> string \<Rightarrow> 'i id_pair \<Rightarrow> 's \<Rightarrow> bool \<times> 'i id_pair \<times> 's"
  tr_register_rpc :: "string \<Rightarrow> 'i id_pair \<Rightarrow> 's \<Rightarrow> 'i id_pair \<times> 's"

type_synonym 's logged = "'s \<times> string list"

definition log_error :: "string \<Rightarrow> 's logged \<Rightarrow> 's logged" where
  "log_error e st = (fst st, snd st @ [e])"

text \<open>A registration that reports a different type of the same name.\<close>

definition reported :: "string \<Rightarrow> (bool \<times> 'i id_pair \<times> 's) \<Rightarrow> string list \<Rightarrow> 'i id_pair \<times> 's logged" where
  "reported name r lg =
     (case r of (bad, ids, s) \<Rightarrow>
        (ids, if bad then log_error (name @ '' already registered in TypeObjectRegistry for a different type.'') (s, lg) else (s, lg)))"

section \<open>Members\<close>

text \<open>
  Where the identifier of a member comes from; \<open>None\<close> ends the registration.  An unbounded string, an unbounded
  sequence of bytes, a primitive type, and a type that is registered by a function of its own.
\<close>

definition string_ids :: "('s, 'i) registry_api \<Rightarrow> 's logged \<Rightarrow> 'i id_pair option \<times> 's logged" where
  "string_ids api st =
     (case tr_get api (fst st) ''anonymous_string_unbounded'' of
        Some ids \<Rightarrow> (Some ids, st)
      | None \<Rightarrow>
          apfst Some (reported ''anonymous_string_unbounded''
            (tr_register_string api 0 ''anonymous_string_unbounded'' (tr_none api, tr_none api) (fst st)) (snd st)))"

definition byte_sequence_ids :: "('s, 'i) registry_api \<Rightarrow> 's logged \<Rightarrow> 'i id_pair option \<times> 's logged" where
  "byte_sequence_ids api st =
     (case tr_get api (fst st) ''anonymous_sequence_byte_unbounded'' of
        Some ids \<Rightarrow> (Some ids, st)
      | None \<Rightarrow>
          (case tr_get api (fst st) ''_byte'' of
             None \<Rightarrow> (None, log_error ''Sequence element TypeIdentifier unknown to TypeObjectRegistry.'' st)
           | Some ids \<Rightarrow>
               (case tr_complete api ids of
                  None \<Rightarrow> (None, log_error ''Sequence element TypeIdentifier inconsistent.'' st)
                | Some element \<Rightarrow>
                    (let equiv_kind = (if tr_kind api (snd ids) = TK_NONE then EK_BOTH else EK_COMPLETE)
                     in apfst Some (reported ''anonymous_sequence_byte_unbounded''
                          (tr_register_sequence api (equiv_kind, 0, element) ''anonymous_sequence_byte_unbounded'' ids (fst st))
                          (snd st))))))"

definition primitive_ids :: "('s, 'i) registry_api \<Rightarrow> string \<Rightarrow> string \<Rightarrow> 's logged \<Rightarrow> 'i id_pair option \<times> 's logged" where
  "primitive_ids api type_name member_name st =
     (case tr_get api (fst st) type_name of
        Some ids \<Rightarrow> (Some ids, st)
      | None \<Rightarrow> (None, log_error (member_name @ '' Structure member TypeIdentifier unknown to TypeObjectRegistry.'') st))"

definition dependency_ids ::
  "('s, 'i) registry_api \<Rightarrow> string \<Rightarrow> ('i id_pair \<Rightarrow> 's logged \<Rightarrow> 'i id_pair \<times> 's logged) \<Rightarrow> 's logged
     \<Rightarrow> 'i id_pair option \<times> 's logged" where
  "dependency_ids api type_name register st =
     (case tr_get api (fst st) type_name of
        Some ids \<Rightarrow> (Some ids, st)
      | None \<Rightarrow> apfst Some (register (tr_none api, tr_none api) st))"

definition rpc_ids :: "('s, 'i) registry_api \<Rightarrow> string \<Rightarrow> 'i id_pair \<Rightarrow> 's logged \<Rightarrow> 'i id_pair \<times> 's logged" where
  "rpc_ids api type_name ids st = (case tr_register_rpc api type_name ids (fst st) of (ids, s) \<Rightarrow> (ids, s, snd st))"

text \<open>\<open>hash_id\<close> is the annotation of the members of the mutable types: an empty hash id.\<close>

definition add_member ::
  "('s, 'i) registry_api \<Rightarrow> u32 \<Rightarrow> bool \<Rightarrow> string \<Rightarrow> string option \<Rightarrow> ('s logged \<Rightarrow> 'i id_pair option \<times> 's logged) \<Rightarrow> 's logged
     \<Rightarrow> 'i struct_member option \<times> 's logged" where
  "add_member api member_id optional name hash_id source st =
     (case source st of
        (None, st) \<Rightarrow> (None, st)
      | (Some ids, st) \<Rightarrow>
          (case tr_complete api ids of
             None \<Rightarrow> (None, log_error (''Structure '' @ name @ '' member TypeIdentifier inconsistent.'') st)
           | Some i \<Rightarrow>
               (Some \<lparr>mb_id = member_id, mb_optional = optional, mb_name = name, mb_hash_id = hash_id, mb_type = i\<rparr>, st)))"

fun add_members :: "('s logged \<Rightarrow> 'i struct_member option \<times> 's logged) list \<Rightarrow> 's logged \<Rightarrow> 'i struct_member list option \<times> 's logged" where
  "add_members [] st = (Some [], st)"
| "add_members (add # rest) st =
     (case add st of
        (None, st) \<Rightarrow> (None, st)
      | (Some m, st) \<Rightarrow> apfst (map_option ((#) m)) (add_members rest st))"

definition build_struct ::
  "('s, 'i) registry_api \<Rightarrow> extensibility \<Rightarrow> string \<Rightarrow> 'i \<Rightarrow> ('s logged \<Rightarrow> 'i struct_member option \<times> 's logged) list
     \<Rightarrow> 'i id_pair \<Rightarrow> 's logged \<Rightarrow> 'i id_pair \<times> 's logged" where
  "build_struct api ext name base members ids st =
     (case add_members members st of
        (None, st) \<Rightarrow> (ids, st)
      | (Some ms, st) \<Rightarrow>
          reported name
            (tr_register_struct api \<lparr>st_extensibility = ext, st_name = name, st_base = base, st_members = ms\<rparr> name ids (fst st))
            (snd st))"

definition register_struct ::
  "('s, 'i) registry_api \<Rightarrow> extensibility \<Rightarrow> string \<Rightarrow> ('s logged \<Rightarrow> 'i struct_member option \<times> 's logged) list
     \<Rightarrow> 'i id_pair \<Rightarrow> 's logged \<Rightarrow> 'i id_pair \<times> 's logged" where
  "register_struct api ext name members ids st =
     (case tr_get api (fst st) name of
        Some ids \<Rightarrow> (ids, st)
      | None \<Rightarrow> build_struct api ext name (tr_none api) members ids st)"

section \<open>The types\<close>

definition n_Message :: string where "n_Message = ''cat::middleware::Message''"
definition n_Lockup_Message :: string where "n_Lockup_Message = ''Message''"
definition n_TransferData :: string where "n_TransferData = ''cat::middleware::dds::TransferData''"
definition n_RequestException :: string where "n_RequestException = ''cat::middleware::dds::RequestException''"
definition n_Read_In :: string where "n_Read_In = ''cat::middleware::dds::detail::Requests_Read_In''"
definition n_Read_Out :: string where "n_Read_Out = ''cat::middleware::dds::detail::Requests_Read_Out''"
definition n_Read_Result :: string where "n_Read_Result = ''cat::middleware::dds::detail::Requests_Read_Result''"
definition n_Write_In :: string where "n_Write_In = ''cat::middleware::dds::detail::Requests_Write_In''"
definition n_Write_Out :: string where "n_Write_Out = ''cat::middleware::dds::detail::Requests_Write_Out''"
definition n_Write_Result :: string where "n_Write_Result = ''cat::middleware::dds::detail::Requests_Write_Result''"
definition n_Request :: string where "n_Request = ''cat::middleware::dds::detail::Requests_Request''"
definition n_Reply :: string where "n_Reply = ''cat::middleware::dds::detail::Requests_Reply''"
definition n_RpcOperationError :: string where "n_RpcOperationError = ''eprosima::fastdds::dds::rpc::RpcOperationError''"
definition n_RemoteExceptionCode :: string where "n_RemoteExceptionCode = ''eprosima::fastdds::dds::rpc::RemoteExceptionCode_t''"

type_synonym ('s, 'i) registration = "('s, 'i) registry_api \<Rightarrow> 'i id_pair \<Rightarrow> 's logged \<Rightarrow> 'i id_pair \<times> 's logged"

definition register_Message_type_identifier :: "('s, 'i) registration" where
  "register_Message_type_identifier api =
     register_struct api APPENDABLE n_Message
       [add_member api 0 False ''additional_information'' None (string_ids api),
        add_member api 1 False ''protobuf'' None (byte_sequence_ids api)]"

definition register_Lockup_Message_type_identifier :: "('s, 'i) registration" where
  "register_Lockup_Message_type_identifier api =
     register_struct api APPENDABLE n_Lockup_Message
       [add_member api 0 False ''additional_information'' None (string_ids api),
        add_member api 1 False ''protobuf'' None (byte_sequence_ids api)]"

definition register_TransferData_type_identifier :: "('s, 'i) registration" where
  "register_TransferData_type_identifier api =
     register_struct api APPENDABLE n_TransferData [add_member api 0 False ''protobuf'' None (byte_sequence_ids api)]"

definition TransferData_ids :: "('s, 'i) registry_api \<Rightarrow> 's logged \<Rightarrow> 'i id_pair option \<times> 's logged" where
  "TransferData_ids api = dependency_ids api n_TransferData (register_TransferData_type_identifier api)"

text \<open>
  \<open>RequestException\<close> has a base type: the pair that is handed out is used for its look-up, so that the
  identifiers of the base are in it until the type itself is registered.
\<close>

definition RequestException_base :: "('s, 'i) registry_api \<Rightarrow> 'i id_pair \<Rightarrow> 's logged \<Rightarrow> 'i id_pair \<times> 's logged" where
  "RequestException_base api ids st =
     (case tr_get api (fst st) n_RpcOperationError of
        Some ids \<Rightarrow> (ids, st)
      | None \<Rightarrow> rpc_ids api n_RpcOperationError ids st)"

definition register_RequestException_type_identifier :: "('s, 'i) registration" where
  "register_RequestException_type_identifier api ids st =
     (case tr_get api (fst st) n_RequestException of
        Some ids \<Rightarrow> (ids, st)
      | None \<Rightarrow>
          (case RequestException_base api ids st of
             (ids, st) \<Rightarrow>
               if tr_kind api (fst ids) = EK_COMPLETE \<or> tr_kind api (snd ids) = EK_COMPLETE then
                 build_struct api FINAL n_RequestException (if tr_kind api (fst ids) = EK_COMPLETE then fst ids else snd ids)
                   [add_member api 1 False ''status_code'' None (primitive_ids api ''_uint32_t'' ''status_code''),
                    add_member api 2 False ''request'' None (TransferData_ids api)] ids st
               else
                 (ids, log_error (n_RequestException @ '' Structure: base_type TypeIdentifier registered in TypeObjectRegistry is inconsistent.'') st)))"

definition register_Requests_Read_In_type_identifier :: "('s, 'i) registration" where
  "register_Requests_Read_In_type_identifier api =
     register_struct api FINAL n_Read_In [add_member api 0 False ''req'' None (TransferData_ids api)]"

definition register_Requests_Read_Out_type_identifier :: "('s, 'i) registration" where
  "register_Requests_Read_Out_type_identifier api =
     register_struct api FINAL n_Read_Out [add_member api 0 False ''return_'' None (TransferData_ids api)]"

definition Read_Result_members :: "('s, 'i) registry_api \<Rightarrow> ('s logged \<Rightarrow> 'i struct_member option \<times> 's logged) list" where
  "Read_Result_members api =
     [add_member api 0x0784a8b4 True ''result'' (Some []) (dependency_ids api n_Read_Out (register_Requests_Read_Out_type_identifier api)),
      add_member api 0x092eb941 True ''cat_middleware_dds_RequestException_ex'' (Some [])
        (dependency_ids api n_RequestException (register_RequestException_type_identifier api))]"

definition register_Requests_Read_Result_type_identifier :: "('s, 'i) registration" where
  "register_Requests_Read_Result_type_identifier api = register_struct api MUTABLE n_Read_Result (Read_Result_members api)"

definition register_Requests_Write_In_type_identifier :: "('s, 'i) registration" where
  "register_Requests_Write_In_type_identifier api =
     register_struct api FINAL n_Write_In [add_member api 0 False ''req'' None (TransferData_ids api)]"

definition register_Requests_Write_Out_type_identifier :: "('s, 'i) registration" where
  "register_Requests_Write_Out_type_identifier api =
     register_struct api FINAL n_Write_Out [add_member api 0 False ''return_'' None (TransferData_ids api)]"

definition Write_Result_members :: "('s, 'i) registry_api \<Rightarrow> ('s logged \<Rightarrow> 'i struct_member option \<times> 's logged) list" where
  "Write_Result_members api =
     [add_member api 0x0784a8b4 True ''result'' (Some []) (dependency_ids api n_Write_Out (register_Requests_Write_Out_type_identifier api)),
      add_member api 0x092eb941 True ''cat_middleware_dds_RequestException_ex'' (Some [])
        (dependency_ids api n_RequestException (register_RequestException_type_identifier api))]"

definition register_Requests_Write_Result_type_identifier :: "('s, 'i) registration" where
  "register_Requests_Write_Result_type_identifier api = register_struct api MUTABLE n_Write_Result (Write_Result_members api)"

definition register_Requests_Request_type_identifier :: "('s, 'i) registration" where
  "register_Requests_Request_type_identifier api =
     register_struct api MUTABLE n_Request
       [add_member api 0x0e5f1a7a True ''Read'' (Some []) (dependency_ids api n_Read_In (register_Requests_Read_In_type_identifier api)),
        add_member api 0x04c02911 True ''Write'' (Some []) (dependency_ids api n_Write_In (register_Requests_Write_In_type_identifier api))]"

definition Reply_members :: "('s, 'i) registry_api \<Rightarrow> ('s logged \<Rightarrow> 'i struct_member option \<times> 's logged) list" where
  "Reply_members api =
     [add_member api 0x0e5f1a7a True ''Read'' (Some [])
        (dependency_ids api n_Read_Result (register_Requests_Read_Result_type_identifier api)),
      add_member api 0x04c02911 True ''Write'' (Some [])
        (dependency_ids api n_Write_Result (register_Requests_Write_Result_type_identifier api)),
      add_member api 0x0f8e48f0 True ''remoteEx'' (Some []) (dependency_ids api n_RemoteExceptionCode (rpc_ids api n_RemoteExceptionCode))]"

definition register_Requests_Reply_type_identifier :: "('s, 'i) registration" where
  "register_Requests_Reply_type_identifier api = register_struct api MUTABLE n_Reply (Reply_members api)"

lemmas type_names = n_Message_def n_Lockup_Message_def n_TransferData_def n_RequestException_def n_Read_In_def n_Read_Out_def
  n_Read_Result_def n_Write_In_def n_Write_Out_def n_Write_Result_def n_Request_def n_Reply_def
  n_RpcOperationError_def n_RemoteExceptionCode_def

section \<open>The type objects\<close>

text \<open>
  What the registrations enter for each type: extensibility, base type, and the members with number, name, whether
  they are optional, and the name of their type.  The table is an intermediate of the proofs; it is compared with the
  declarations of the IDL files and with the calls that write the types below.
\<close>

definition object_table :: "(string \<times> extensibility \<times> string option \<times> (u32 \<times> string \<times> bool \<times> string) list) list" where
  "object_table =
    [(n_Message, APPENDABLE, None, [(0, ''additional_information'', False, ''anonymous_string_unbounded''),
                                    (1, ''protobuf'', False, ''anonymous_sequence_byte_unbounded'')]),
     (n_Lockup_Message, APPENDABLE, None, [(0, ''additional_information'', False, ''anonymous_string_unbounded''),
                                    (1, ''protobuf'', False, ''anonymous_sequence_byte_unbounded'')]),
     (n_TransferData, APPENDABLE, None, [(0, ''protobuf'', False, ''anonymous_sequence_byte_unbounded'')]),
     (n_RequestException, FINAL, Some n_RpcOperationError, [(1, ''status_code'', False, ''_uint32_t''), (2, ''request'', False, n_TransferData)]),
     (n_Read_In, FINAL, None, [(0, ''req'', False, n_TransferData)]),
     (n_Read_Out, FINAL, None, [(0, ''return_'', False, n_TransferData)]),
     (n_Read_Result, MUTABLE, None, [(id_result, ''result'', True, n_Read_Out),
                                     (id_exception, ''cat_middleware_dds_RequestException_ex'', True, n_RequestException)]),
     (n_Write_In, FINAL, None, [(0, ''req'', False, n_TransferData)]),
     (n_Write_Out, FINAL, None, [(0, ''return_'', False, n_TransferData)]),
     (n_Write_Result, MUTABLE, None, [(id_result, ''result'', True, n_Write_Out),
                                     (id_exception, ''cat_middleware_dds_RequestException_ex'', True, n_RequestException)]),
     (n_Request, MUTABLE, None, [(id_Read, ''Read'', True, n_Read_In), (id_Write, ''Write'', True, n_Write_In)]),
     (n_Reply, MUTABLE, None, [(id_Read, ''Read'', True, n_Read_Result), (id_Write, ''Write'', True, n_Write_Result),
                               (id_remoteEx, ''remoteEx'', True, n_RemoteExceptionCode)])]"

section \<open>Documented behaviour of the registry\<close>

definition known :: "('s, 'i) registry_api \<Rightarrow> 's \<Rightarrow> string \<Rightarrow> 'i \<Rightarrow> bool" where
  "known api s n i \<longleftrightarrow> (\<exists>p. tr_get api s n = Some p \<and> tr_complete api p = Some i)"

text \<open>
  \<open>D s i\<close> is the type object stored for the identifier \<open>i\<close>.  From \<open>s\<close> to \<open>s'\<close> nothing is lost and only names in
  \<open>A\<close> are added.
\<close>

definition grows ::
  "('s, 'i) registry_api \<Rightarrow> ('s \<Rightarrow> 'i \<Rightarrow> 'i struct_type option) \<Rightarrow> string set \<Rightarrow> 's \<Rightarrow> 's \<Rightarrow> bool" where
  "grows api D A s s' \<longleftrightarrow>
     (\<forall>n p. tr_get api s n = Some p \<longrightarrow> tr_get api s' n = Some p) \<and> (\<forall>i t. D s i = Some t \<longrightarrow> D s' i = Some t) \<and>
     (\<forall>n. n \<notin> A \<longrightarrow> tr_get api s' n = tr_get api s n)"

definition enters ::
  "('s, 'i) registry_api \<Rightarrow> ('s \<Rightarrow> 'i \<Rightarrow> 'i struct_type option) \<Rightarrow> string \<Rightarrow> 's \<Rightarrow> bool \<times> 'i id_pair \<times> 's \<Rightarrow> bool" where
  "enters api D n s r \<longleftrightarrow> (case r of (bad, p, s') \<Rightarrow> \<not> bad \<and> tr_get api s' n = Some p \<and> grows api D {n} s s')"

text \<open>
  Primitive types are known, and so is the complete identifier of every entry, which is the one of the kind
  \<open>EK_COMPLETE\<close> if there is one; the base of the exceptions has one.  A name that is not known yet can be registered.
\<close>

definition registry_laws :: "('s, 'i) registry_api \<Rightarrow> ('s \<Rightarrow> 'i \<Rightarrow> 'i struct_type option) \<Rightarrow> bool" where
  "registry_laws api D \<longleftrightarrow>
     (\<forall>s. tr_get api s ''_byte'' \<noteq> None \<and> tr_get api s ''_uint32_t'' \<noteq> None) \<and>
     (\<forall>s n p. tr_get api s n = Some p \<longrightarrow> tr_complete api p \<noteq> None) \<and>
     (\<forall>s p. tr_get api s n_RpcOperationError = Some p \<longrightarrow>
        tr_kind api (fst p) = EK_COMPLETE \<and> tr_complete api p = Some (fst p) \<or>
        tr_kind api (fst p) \<noteq> EK_COMPLETE \<and> tr_kind api (snd p) = EK_COMPLETE \<and> tr_complete api p = Some (snd p)) \<and>
     (\<forall>s n b ids. tr_get api s n = None \<longrightarrow> enters api D n s (tr_register_string api b n ids s)) \<and>
     (\<forall>s n e ids. tr_get api s n = None \<longrightarrow> enters api D n s (tr_register_sequence api e n ids s)) \<and>
     (\<forall>s n ids. tr_get api s n = None \<longrightarrow> enters api D n s (False, tr_register_rpc api n ids s)) \<and>
     (\<forall>s n t ids. tr_get api s n = None \<longrightarrow> enters api D n s (tr_register_struct api t n ids s) \<and>
        (case tr_register_struct api t n ids s of (_, p, s') \<Rightarrow> \<exists>i. tr_complete api p = Some i \<and> D s' i = Some t))"

section \<open>What is registered\<close>

fun member_matches :: "('s, 'i) registry_api \<Rightarrow> 's \<Rightarrow> u32 \<times> string \<times> bool \<times> string \<Rightarrow> 'i struct_member \<Rightarrow> bool" where
  "member_matches api s (i, name, optional, ty) m \<longleftrightarrow>
     mb_id m = i \<and> mb_name m = name \<and> mb_optional m = optional \<and> known api s ty (mb_type m)"

definition described ::
  "('s, 'i) registry_api \<Rightarrow> ('s \<Rightarrow> 'i \<Rightarrow> 'i struct_type option) \<Rightarrow> 's
     \<Rightarrow> string \<times> extensibility \<times> string option \<times> (u32 \<times> string \<times> bool \<times> string) list \<Rightarrow> bool" where
  "described api D s e \<longleftrightarrow>
     (case e of (n, ext, base, ms) \<Rightarrow>
        \<exists>i t. known api s n i \<and> D s i = Some t \<and> st_name t = n \<and> st_extensibility t = ext \<and>
          (case base of None \<Rightarrow> st_base t = tr_none api | Some b \<Rightarrow> known api s b (st_base t)) \<and>
          list_all2 (member_matches api s) ms (st_members t))"

text \<open>Every type of the table that is known is described as there.\<close>

definition registry_ok :: "('s, 'i) registry_api \<Rightarrow> ('s \<Rightarrow> 'i \<Rightarrow> 'i struct_type option) \<Rightarrow> 's \<Rightarrow> bool" where
  "registry_ok api D s \<longleftrightarrow> (\<forall>e \<in> set object_table. tr_get api s (fst e) \<noteq> None \<longrightarrow> described api D s e)"

lemma described_members:
  "described api D s (n, ext, base, es) \<Longrightarrow> \<exists>sms. list_all2 (member_matches api s) es sms"
  by (auto simp: described_def)

lemma grows_refl [simp]: "grows api D A s s"
  by (simp add: grows_def)

lemma grows_trans:
  assumes "grows api D A s s1" "grows api D B s1 s2" "A \<union> B \<subseteq> C"
  shows "grows api D C s s2"
proof -
  have "tr_get api s2 n = tr_get api s n" if "n \<notin> C" for n
  proof -
    have "n \<notin> A" "n \<notin> B" using that assms(3) by auto
    then show ?thesis using assms(1,2) by (simp add: grows_def)
  qed
  then show ?thesis using assms(1,2) by (simp add: grows_def)
qed

lemma grows_mono: "grows api D A s s' \<Longrightarrow> A \<subseteq> B \<Longrightarrow> grows api D B s s'"
  by (auto simp: grows_def)

lemma get_grows: "tr_get api s n = Some p \<Longrightarrow> grows api D A s s' \<Longrightarrow> tr_get api s' n = Some p"
  unfolding grows_def by blast

lemma known_grows: "known api s n i \<Longrightarrow> grows api D A s s' \<Longrightarrow> known api s' n i"
  by (auto simp: known_def grows_def)

lemma member_matches_grows: "member_matches api s e m \<Longrightarrow> grows api D A s s' \<Longrightarrow> member_matches api s' e m"
  by (cases e) (auto intro: known_grows)

lemma described_grows:
  assumes "described api D s (n, ext, base, ms)" "grows api D A s s'"
  shows "described api D s' (n, ext, base, ms)"
proof -
  obtain i t where t: "known api s n i" "D s i = Some t" "st_name t = n" "st_extensibility t = ext"
    "case base of None \<Rightarrow> st_base t = tr_none api | Some b \<Rightarrow> known api s b (st_base t)"
    "list_all2 (member_matches api s) ms (st_members t)"
    using assms(1) by (auto simp: described_def)
  have "D s' i = Some t" using t(2) assms(2) by (simp add: grows_def)
  moreover have "case base of None \<Rightarrow> st_base t = tr_none api | Some b \<Rightarrow> known api s' b (st_base t)"
    using t(5) known_grows [OF _ assms(2)] by (auto split: option.splits)
  moreover have "list_all2 (member_matches api s') ms (st_members t)"
    using t(6) by (rule list_all2_mono) (rule member_matches_grows [OF _ assms(2)])
  ultimately show ?thesis using t(3,4) known_grows [OF t(1) assms(2)] by (auto simp: described_def)
qed

lemma registry_ok_grows:
  assumes "registry_ok api D s" "grows api D A s s'"
    and "\<And>e. e \<in> set object_table \<Longrightarrow> fst e \<in> A \<Longrightarrow> tr_get api s' (fst e) \<noteq> None \<Longrightarrow> tr_get api s (fst e) = None \<Longrightarrow> described api D s' e"
  shows "registry_ok api D s'"
  unfolding registry_ok_def
proof (intro ballI impI)
  fix e assume e: "e \<in> set object_table" "tr_get api s' (fst e) \<noteq> None"
  show "described api D s' e"
  proof (cases "tr_get api s (fst e)")
    case None
    then have "fst e \<in> A" using assms(2) e(2) by (auto simp: grows_def)
    then show ?thesis using assms(3) e None by blast
  next
    case (Some p)
    then have "described api D s e" using assms(1) e(1) by (auto simp: registry_ok_def)
    then show ?thesis using described_grows [OF _ assms(2)] by (cases e) auto
  qed
qed

text \<open>
  A source of identifiers, and a registration, that provide the name \<open>n\<close>, adding only names in \<open>A\<close> and logging
  nothing.
\<close>

definition provides ::
  "('s, 'i) registry_api \<Rightarrow> ('s \<Rightarrow> 'i \<Rightarrow> 'i struct_type option) \<Rightarrow> string set \<Rightarrow> ('s logged \<Rightarrow> 'i id_pair option \<times> 's logged) \<Rightarrow> string \<Rightarrow> bool" where
  "provides api D A source n \<longleftrightarrow>
     (\<forall>s lg. registry_ok api D s \<longrightarrow> (\<exists>p s'. source (s, lg) = (Some p, s', lg) \<and> tr_get api s' n = Some p \<and>
        grows api D A s s' \<and> registry_ok api D s'))"

definition registers ::
  "('s, 'i) registry_api \<Rightarrow> ('s \<Rightarrow> 'i \<Rightarrow> 'i struct_type option) \<Rightarrow> string set \<Rightarrow> ('i id_pair \<Rightarrow> 's logged \<Rightarrow> 'i id_pair \<times> 's logged)
     \<Rightarrow> string \<Rightarrow> bool" where
  "registers api D A R n \<longleftrightarrow>
     (\<forall>ids s lg. registry_ok api D s \<longrightarrow> (\<exists>p s'. R ids (s, lg) = (p, s', lg) \<and> tr_get api s' n = Some p \<and>
        grows api D A s s' \<and> registry_ok api D s'))"

lemma providesE:
  assumes "provides api D A source n" "registry_ok api D s"
  obtains p s' where "source (s, lg) = (Some p, s', lg)" "tr_get api s' n = Some p" "grows api D A s s'" "registry_ok api D s'"
  using assms unfolding provides_def by blast

lemma registersE:
  assumes "registers api D A R n" "registry_ok api D s"
  obtains p s' where "R ids (s, lg) = (p, s', lg)" "tr_get api s' n = Some p" "grows api D A s s'" "registry_ok api D s'"
  using assms unfolding registers_def by blast

lemma dependency_provides: "registers api D A R n \<Longrightarrow> provides api D A (dependency_ids api n R) n"
  unfolding provides_def dependency_ids_def
  by (auto split: option.split elim!: registersE [where ids = "(tr_none api, tr_none api)"] simp: registers_def) 
    (metis apfst_conv registers_def)

lemma registry_lawsD:
  assumes "registry_laws api D"
  shows "\<exists>ids. tr_get api s ''_byte'' = Some ids" "\<exists>ids. tr_get api s ''_uint32_t'' = Some ids"
    "tr_get api s n = Some p \<Longrightarrow> \<exists>i. tr_complete api p = Some i"
    "tr_get api s n = None \<Longrightarrow> enters api D n s (tr_register_string api b n ids s)"
    "tr_get api s n = None \<Longrightarrow> enters api D n s (tr_register_sequence api e n ids s)"
    "tr_get api s n = None \<Longrightarrow> enters api D n s (False, tr_register_rpc api n ids s)"
    "tr_get api s n = None \<Longrightarrow> enters api D n s (tr_register_struct api t n ids s)"
    "tr_get api s n = None \<Longrightarrow> tr_register_struct api t n ids s = (bad, p, s') \<Longrightarrow> \<exists>i. tr_complete api p = Some i \<and> D s' i = Some t"
proof -
  note laws = assms [unfolded registry_laws_def]
  show "\<exists>ids. tr_get api s ''_byte'' = Some ids" "\<exists>ids. tr_get api s ''_uint32_t'' = Some ids"
    using conjunct1 [OF laws] by auto
  show "tr_get api s n = Some p \<Longrightarrow> \<exists>i. tr_complete api p = Some i" using laws by blast
  show "tr_get api s n = None \<Longrightarrow> enters api D n s (tr_register_string api b n ids s)" using laws by blast
  show "tr_get api s n = None \<Longrightarrow> enters api D n s (tr_register_sequence api e n ids s)" using laws by blast
  show "tr_get api s n = None \<Longrightarrow> enters api D n s (False, tr_register_rpc api n ids s)" using laws by blast
  have struct: "tr_get api s n = None \<Longrightarrow> enters api D n s (tr_register_struct api t n ids s) \<and>
        (case tr_register_struct api t n ids s of (_, p, s') \<Rightarrow> \<exists>i. tr_complete api p = Some i \<and> D s' i = Some t)"
    using laws by (elim conjE) (rule mp, elim allE, assumption)
  then show "tr_get api s n = None \<Longrightarrow> enters api D n s (tr_register_struct api t n ids s)" by blast
  show "tr_get api s n = None \<Longrightarrow> tr_register_struct api t n ids s = (bad, p, s') \<Longrightarrow> \<exists>i. tr_complete api p = Some i \<and> D s' i = Some t"
    using struct by simp
qed

lemma base_law:
  assumes "registry_laws api D" "tr_get api s n_RpcOperationError = Some p"
  shows "tr_kind api (fst p) = EK_COMPLETE \<and> tr_complete api p = Some (fst p) \<or>
     tr_kind api (fst p) \<noteq> EK_COMPLETE \<and> tr_kind api (snd p) = EK_COMPLETE \<and> tr_complete api p = Some (snd p)"
  using assms(1) [unfolded registry_laws_def] assms(2) by blast

definition object_names :: "string set" where
  "object_names = fst ` set object_table"

lemma object_names_eq: "object_names = {n_Message, n_Lockup_Message, n_TransferData, n_RequestException, n_Read_In, n_Read_Out,
    n_Read_Result, n_Write_In, n_Write_Out, n_Write_Result, n_Request, n_Reply}"
  by (simp add: object_names_def object_table_def insert_commute)

lemma plain_entered:
  assumes "registry_ok api D s" "enters api D n s (bad, p, s')" "n \<notin> object_names"
  shows "\<not> bad" "tr_get api s' n = Some p" "grows api D {n} s s'" "registry_ok api D s'"
proof -
  show e: "\<not> bad" "tr_get api s' n = Some p" "grows api D {n} s s'" using assms(2) by (simp_all add: enters_def)
  show "registry_ok api D s'"
    by (rule registry_ok_grows [OF assms(1) e(3)]) (use assms(3) in \<open>auto simp: object_names_def\<close>)
qed

lemma string_provides:
  assumes "registry_laws api D"
  shows "provides api D {''anonymous_string_unbounded''} (string_ids api) ''anonymous_string_unbounded''"
  unfolding provides_def
proof (intro allI impI)
  fix s :: 'a and lg assume ok: "registry_ok api D s"
  let ?n = "''anonymous_string_unbounded''"
  have n: "?n \<notin> object_names" by (simp add: object_names_eq type_names)
  show "\<exists>p s'. string_ids api (s, lg) = (Some p, s', lg) \<and> tr_get api s' ?n = Some p \<and> grows api D {?n} s s' \<and> registry_ok api D s'"
  proof (cases "tr_get api s ?n")
    case None
    obtain bad p s' where r: "tr_register_string api 0 ?n (tr_none api, tr_none api) s = (bad, p, s')" by (rule prod_cases3)
    have "enters api D ?n s (bad, p, s')"
      using registry_lawsD(4) [OF assms None, where b = 0 and ids = "(tr_none api, tr_none api)"] by (simp only: r)
    from plain_entered [OF ok this n] show ?thesis
      by (simp add: string_ids_def None r reported_def)
  qed (use ok in \<open>simp add: string_ids_def\<close>)
qed

lemma byte_sequence_provides:
  assumes "registry_laws api D"
  shows "provides api D {''anonymous_sequence_byte_unbounded''} (byte_sequence_ids api) ''anonymous_sequence_byte_unbounded''"
  unfolding provides_def
proof (intro allI impI)
  fix s :: 'a and lg assume ok: "registry_ok api D s"
  let ?n = "''anonymous_sequence_byte_unbounded''"
  have n: "?n \<notin> object_names" by (simp add: object_names_eq type_names)
  obtain ids element where b: "tr_get api s ''_byte'' = Some ids" "tr_complete api ids = Some element"
    using registry_lawsD(1,3) [OF assms] by blast
  show "\<exists>p s'. byte_sequence_ids api (s, lg) = (Some p, s', lg) \<and> tr_get api s' ?n = Some p \<and> grows api D {?n} s s' \<and> registry_ok api D s'"
  proof (cases "tr_get api s ?n")
    case None
    let ?k = "if tr_kind api (snd ids) = TK_NONE then EK_BOTH else EK_COMPLETE"
    obtain bad p s' where r: "tr_register_sequence api (?k, 0, element) ?n ids s = (bad, p, s')" by (rule prod_cases3)
    have "enters api D ?n s (bad, p, s')"
      using registry_lawsD(5) [OF assms None, where e = "(?k, 0, element)" and ids = ids] by (simp only: r)
    from plain_entered [OF ok this n] show ?thesis
      using r by (simp add: byte_sequence_ids_def None b reported_def)
  qed (use ok in \<open>simp add: byte_sequence_ids_def\<close>)
qed

lemma primitive_provides:
  "registry_laws api D \<Longrightarrow> provides api D {} (primitive_ids api ''_uint32_t'' member) ''_uint32_t''"
  using registry_lawsD(2) [of api D _] by (fastforce simp: provides_def primitive_ids_def split: option.split)

lemma rpc_registers:
  assumes "registry_laws api D" "registry_ok api D s" "tr_get api s n = None" "n \<notin> object_names"
  obtains p s' where "rpc_ids api n ids (s, lg) = (p, s', lg)" "tr_get api s' n = Some p" "grows api D {n} s s'" "registry_ok api D s'"
proof -
  obtain p s' where r: "tr_register_rpc api n ids s = (p, s')" by fastforce
  have "enters api D n s (False, p, s')" using registry_lawsD(6) [OF assms(1,3), of ids] by (simp only: r)
  from plain_entered [OF assms(2) this assms(4)] show ?thesis using that r by (simp add: rpc_ids_def)
qed

lemma rpc_provides:
  assumes "registry_laws api D" "n \<notin> object_names"
  shows "provides api D {n} (dependency_ids api n (rpc_ids api n)) n"
  unfolding provides_def
proof (intro allI impI)
  fix s :: 'a and lg assume ok: "registry_ok api D s"
  show "\<exists>p s'. dependency_ids api n (rpc_ids api n) (s, lg) = (Some p, s', lg) \<and> tr_get api s' n = Some p \<and> grows api D {n} s s' \<and> registry_ok api D s'"
  proof (cases "tr_get api s n")
    case None
    obtain p s' where "rpc_ids api n (tr_none api, tr_none api) (s, lg) = (p, s', lg)" "tr_get api s' n = Some p"
      "grows api D {n} s s'" "registry_ok api D s'"
      by (rule rpc_registers [OF assms(1) ok None assms(2)])
    then show ?thesis using None by (simp add: dependency_ids_def)
  qed (use ok in \<open>simp add: dependency_ids_def\<close>)
qed

text \<open>Members that match the table.\<close>

inductive adds ::
  "('s, 'i) registry_api \<Rightarrow> ('s \<Rightarrow> 'i \<Rightarrow> 'i struct_type option) \<Rightarrow> string set \<Rightarrow> ('s logged \<Rightarrow> 'i struct_member option \<times> 's logged) list
     \<Rightarrow> (u32 \<times> string \<times> bool \<times> string) list \<Rightarrow> bool" for api D A where
  none: "adds api D A [] []"
| one: "provides api D B source ty \<Longrightarrow> B \<subseteq> A \<Longrightarrow> adds api D A ms es \<Longrightarrow>
     adds api D A (add_member api i optional name h source # ms) ((i, name, optional, ty) # es)"

lemma add_members_ok:
  assumes "adds api D A ms es" "registry_laws api D" "registry_ok api D s"
  shows "\<exists>sms s'. add_members ms (s, lg) = (Some sms, s', lg) \<and> list_all2 (member_matches api s') es sms \<and>
    grows api D A s s' \<and> registry_ok api D s'"
  using assms
proof (induction arbitrary: s rule: adds.induct)
  case (one B source ty ms es i optional name h)
  obtain p s1 where s1: "source (s, lg) = (Some p, s1, lg)" "tr_get api s1 ty = Some p" "grows api D B s s1" "registry_ok api D s1"
    by (rule providesE [OF one.hyps(1) one.prems(2)])
  obtain i' where i': "tr_complete api p = Some i'" using registry_lawsD(3) [OF one.prems(1) s1(2)] by blast
  obtain sms s2 where s2: "add_members ms (s1, lg) = (Some sms, s2, lg)" "list_all2 (member_matches api s2) es sms"
    "grows api D A s1 s2" "registry_ok api D s2"
    using one.IH [OF one.prems(1) s1(4)] by blast
  have "known api s1 ty i'" using s1(2) i' by (simp add: known_def)
  then have "known api s2 ty i'" by (rule known_grows [OF _ s2(3)])
  moreover have "grows api D A s s2" using grows_trans [OF s1(3) s2(3)] one.hyps(2) by auto
  ultimately show ?case using s1(1) i' s2 by (simp add: add_member_def)
qed simp

lemma table_distinct: "distinct (map fst object_table)"
  by (simp add: object_table_def type_names)

lemma table_unique: "(n, x) \<in> set object_table \<Longrightarrow> (n, y) \<in> set object_table \<Longrightarrow> y = x"
  using table_distinct eq_key_imp_eq_value by metis

lemma struct_entered:
  assumes laws: "registry_laws api D" and ok: "registry_ok api D s1" and get: "tr_get api s1 n = None"
    and e: "(n, ext, base, es) \<in> set object_table"
    and b: "case base of None \<Rightarrow> b = tr_none api | Some bn \<Rightarrow> known api s1 bn b"
    and ms: "list_all2 (member_matches api s1) es sms"
  obtains p s2 where "reported n (tr_register_struct api \<lparr>st_extensibility = ext, st_name = n, st_base = b, st_members = sms\<rparr> n ids s1) lg = (p, s2, lg)"
    "tr_get api s2 n = Some p" "grows api D {n} s1 s2" "registry_ok api D s2"
proof -
  let ?t = "\<lparr>st_extensibility = ext, st_name = n, st_base = b, st_members = sms\<rparr>"
  obtain bad p s2 where r: "tr_register_struct api ?t n ids s1 = (bad, p, s2)" by (rule prod_cases3)
  have en: "\<not> bad" "tr_get api s2 n = Some p" "grows api D {n} s1 s2"
    using registry_lawsD(7) [OF laws get, of ?t ids] unfolding r by (simp_all add: enters_def)
  obtain i where i: "tr_complete api p = Some i" "D s2 i = Some ?t"
    using registry_lawsD(8) [OF laws get r] by blast
  have "case base of None \<Rightarrow> b = tr_none api | Some bn \<Rightarrow> known api s2 bn b"
    using b known_grows [OF _ en(3)] by (auto split: option.splits)
  moreover have "list_all2 (member_matches api s2) es sms"
    using ms by (rule list_all2_mono) (rule member_matches_grows [OF _ en(3)])
  moreover have "known api s2 n i" using en(2) i(1) by (simp add: known_def)
  ultimately have d: "described api D s2 (n, ext, base, es)"
    using i(2) by (auto simp: described_def split: option.splits)
  have "registry_ok api D s2"
  proof (rule registry_ok_grows [OF ok en(3)])
    fix f assume "f \<in> set object_table" "fst f \<in> {n}"
    then have "snd f = (ext, base, es)" "fst f = n" using table_unique [OF e, of "snd f"] by (auto simp flip: surjective_pairing)
    then have "f = (n, ext, base, es)" by (metis prod.collapse)
    then show "described api D s2 f" using d by simp
  qed
  then show ?thesis using that en r by (simp add: reported_def)
qed

lemma register_struct_registers:
  assumes "registry_laws api D" "adds api D A ms es" "n \<notin> A"
    and "(n, ext, None, es) \<in> set object_table"
  shows "registers api D (insert n A) (register_struct api ext n ms) n"
  unfolding registers_def
proof (intro allI impI)
  fix ids :: "'b id_pair" and s and lg assume ok: "registry_ok api D s"
  show "\<exists>p s'. register_struct api ext n ms ids (s, lg) = (p, s', lg) \<and> tr_get api s' n = Some p \<and>
      grows api D (insert n A) s s' \<and> registry_ok api D s'"
  proof (cases "tr_get api s n")
    case None
    obtain sms s1 where s1: "add_members ms (s, lg) = (Some sms, s1, lg)" "list_all2 (member_matches api s1) es sms"
      "grows api D A s s1" "registry_ok api D s1"
      using add_members_ok [OF assms(2,1) ok] by blast
    have get: "tr_get api s1 n = None" using s1(3) None assms(3) by (simp add: grows_def)
    have base: "case None of None \<Rightarrow> tr_none api = tr_none api | Some bn \<Rightarrow> known api s1 bn (tr_none api)" by simp
    obtain p s2 where s2: "reported n (tr_register_struct api \<lparr>st_extensibility = ext, st_name = n, st_base = tr_none api, st_members = sms\<rparr> n ids s1) lg = (p, s2, lg)"
      "tr_get api s2 n = Some p" "grows api D {n} s1 s2" "registry_ok api D s2"
      by (rule struct_entered [OF assms(1) s1(4) get assms(4) base s1(2)])
    have "grows api D (insert n A) s s2" using grows_trans [OF s1(3) s2(3)] by auto
    then show ?thesis using s1(1) s2 None by (simp add: register_struct_def build_struct_def)
  qed (use ok in \<open>simp add: register_struct_def\<close>)
qed

section \<open>Every type registers\<close>

definition A_TransferData :: "string set" where
  "A_TransferData = {n_TransferData, ''anonymous_sequence_byte_unbounded''}"

definition A_RequestException :: "string set" where
  "A_RequestException = {n_RequestException, n_RpcOperationError} \<union> A_TransferData"

definition A_results :: "string set" where
  "A_results = {n_Read_Out, n_Write_Out} \<union> A_RequestException"

lemmas A_defs = A_TransferData_def A_RequestException_def A_results_def

lemma registered_struct:
  assumes "registry_laws api D" "adds api D A ms es" "(n, ext, None, es) \<in> set object_table" "n \<notin> A" "insert n A \<subseteq> B"
  shows "registers api D B (register_struct api ext n ms) n"
proof -
  have "registers api D (insert n A) (register_struct api ext n ms) n"
    by (rule register_struct_registers [OF assms(1,2,4,3)])
  then show ?thesis using assms(5) unfolding registers_def by (meson grows_mono)
qed

lemma Message_registers:
  assumes "registry_laws api D"
  shows "registers api D {n_Message, ''anonymous_string_unbounded'', ''anonymous_sequence_byte_unbounded''}
      (register_Message_type_identifier api) n_Message"
    "registers api D {n_Lockup_Message, ''anonymous_string_unbounded'', ''anonymous_sequence_byte_unbounded''}
      (register_Lockup_Message_type_identifier api) n_Lockup_Message"
proof -
  have a: "adds api D {''anonymous_string_unbounded'', ''anonymous_sequence_byte_unbounded''}
     [add_member api 0 False ''additional_information'' None (string_ids api), add_member api 1 False ''protobuf'' None (byte_sequence_ids api)]
     [(0, ''additional_information'', False, ''anonymous_string_unbounded''), (1, ''protobuf'', False, ''anonymous_sequence_byte_unbounded'')]"
    by (rule adds.one [OF string_provides [OF assms] _ adds.one [OF byte_sequence_provides [OF assms] _ adds.none]]) simp_all
  show "registers api D {n_Message, ''anonymous_string_unbounded'', ''anonymous_sequence_byte_unbounded''}
      (register_Message_type_identifier api) n_Message"
    unfolding register_Message_type_identifier_def
    by (rule registered_struct [OF assms a]) (simp_all add: object_table_def, simp add: type_names)
  show "registers api D {n_Lockup_Message, ''anonymous_string_unbounded'', ''anonymous_sequence_byte_unbounded''}
      (register_Lockup_Message_type_identifier api) n_Lockup_Message"
    unfolding register_Lockup_Message_type_identifier_def
    by (rule registered_struct [OF assms a]) (simp_all add: object_table_def, simp add: type_names)
qed

lemma TransferData_registers:
  assumes "registry_laws api D"
  shows "registers api D A_TransferData (register_TransferData_type_identifier api) n_TransferData"
proof -
  have a: "adds api D {''anonymous_sequence_byte_unbounded''} [add_member api 0 False ''protobuf'' None (byte_sequence_ids api)]
     [(0, ''protobuf'', False, ''anonymous_sequence_byte_unbounded'')]"
    by (rule adds.one [OF byte_sequence_provides [OF assms] _ adds.none]) simp
  show ?thesis
    unfolding register_TransferData_type_identifier_def
    by (rule registered_struct [OF assms a]) (simp_all add: object_table_def A_defs, simp add: type_names)
qed

lemma TransferData_provides: "registry_laws api D \<Longrightarrow> provides api D A_TransferData (TransferData_ids api) n_TransferData"
  unfolding TransferData_ids_def by (intro dependency_provides TransferData_registers)

lemma carriers_register:
  assumes "registry_laws api D"
  shows "registers api D (insert n_Read_In A_TransferData) (register_Requests_Read_In_type_identifier api) n_Read_In"
    "registers api D (insert n_Read_Out A_TransferData) (register_Requests_Read_Out_type_identifier api) n_Read_Out"
    "registers api D (insert n_Write_In A_TransferData) (register_Requests_Write_In_type_identifier api) n_Write_In"
    "registers api D (insert n_Write_Out A_TransferData) (register_Requests_Write_Out_type_identifier api) n_Write_Out"
proof -
  have a: "adds api D A_TransferData [add_member api 0 False name None (TransferData_ids api)] [(0, name, False, n_TransferData)]" for name
    by (rule adds.one [OF TransferData_provides [OF assms] _ adds.none]) simp
  have fresh: "n_Read_In \<notin> A_TransferData" "n_Read_Out \<notin> A_TransferData" "n_Write_In \<notin> A_TransferData" "n_Write_Out \<notin> A_TransferData"
    by (simp_all add: A_defs type_names)
  show "registers api D (insert n_Read_In A_TransferData) (register_Requests_Read_In_type_identifier api) n_Read_In"
    unfolding register_Requests_Read_In_type_identifier_def
    by (rule registered_struct [OF assms a _ fresh(1)]) (simp_all add: object_table_def)
  show "registers api D (insert n_Read_Out A_TransferData) (register_Requests_Read_Out_type_identifier api) n_Read_Out"
    unfolding register_Requests_Read_Out_type_identifier_def
    by (rule registered_struct [OF assms a _ fresh(2)]) (simp_all add: object_table_def)
  show "registers api D (insert n_Write_In A_TransferData) (register_Requests_Write_In_type_identifier api) n_Write_In"
    unfolding register_Requests_Write_In_type_identifier_def
    by (rule registered_struct [OF assms a _ fresh(3)]) (simp_all add: object_table_def)
  show "registers api D (insert n_Write_Out A_TransferData) (register_Requests_Write_Out_type_identifier api) n_Write_Out"
    unfolding register_Requests_Write_Out_type_identifier_def
    by (rule registered_struct [OF assms a _ fresh(4)]) (simp_all add: object_table_def)
qed

lemma RequestException_registers:
  assumes "registry_laws api D"
  shows "registers api D A_RequestException (register_RequestException_type_identifier api) n_RequestException"
  unfolding registers_def
proof (intro allI impI)
  fix ids :: "'b id_pair" and s and lg assume ok: "registry_ok api D s"
  let ?n = n_RequestException
  show "\<exists>p s'. register_RequestException_type_identifier api ids (s, lg) = (p, s', lg) \<and> tr_get api s' ?n = Some p \<and>
      grows api D A_RequestException s s' \<and> registry_ok api D s'"
  proof (cases "tr_get api s ?n")
    case None
    have rpc: "n_RpcOperationError \<notin> object_names" by (simp add: object_names_eq type_names)
    obtain b s1 where s1: "RequestException_base api ids (s, lg) = (b, s1, lg)" "tr_get api s1 n_RpcOperationError = Some b"
      "grows api D {n_RpcOperationError} s s1" "registry_ok api D s1"
    proof (cases "tr_get api s n_RpcOperationError")
      case None
      show ?thesis
        by (rule rpc_registers [OF assms ok None rpc, of ids lg], rule that) (simp_all add: RequestException_base_def None)
    next
      case (Some b)
      then show ?thesis using ok by (intro that [of b s]) (simp_all add: RequestException_base_def)
    qed
    let ?b = "if tr_kind api (fst b) = EK_COMPLETE then fst b else snd b"
    have base: "tr_kind api (fst b) = EK_COMPLETE \<or> tr_kind api (snd b) = EK_COMPLETE" "tr_complete api b = Some ?b"
      using base_law [OF assms s1(2)] by auto
    have a: "adds api D A_TransferData
        [add_member api 1 False ''status_code'' None (primitive_ids api ''_uint32_t'' ''status_code''),
         add_member api 2 False ''request'' None (TransferData_ids api)]
        [(1, ''status_code'', False, ''_uint32_t''), (2, ''request'', False, n_TransferData)]"
      by (rule adds.one [OF primitive_provides [OF assms] _ adds.one [OF TransferData_provides [OF assms] _ adds.none]]) simp_all
    obtain sms s2 where s2: "add_members
        [add_member api 1 False ''status_code'' None (primitive_ids api ''_uint32_t'' ''status_code''),
         add_member api 2 False ''request'' None (TransferData_ids api)] (s1, lg) = (Some sms, s2, lg)"
      "list_all2 (member_matches api s2) [(1, ''status_code'', False, ''_uint32_t''), (2, ''request'', False, n_TransferData)] sms"
      "grows api D A_TransferData s1 s2" "registry_ok api D s2"
      using add_members_ok [OF a assms s1(4)] by blast
    have g: "grows api D ({n_RpcOperationError} \<union> A_TransferData) s s2" by (rule grows_trans [OF s1(3) s2(3)]) simp
    have "?n \<notin> {n_RpcOperationError} \<union> A_TransferData" by (simp add: A_defs type_names)
    then have get: "tr_get api s2 ?n = None" using g None by (simp add: grows_def)
    have kb: "case Some n_RpcOperationError of None \<Rightarrow> ?b = tr_none api | Some bn \<Rightarrow> known api s2 bn ?b"
      using known_grows [OF _ s2(3), of n_RpcOperationError ?b] s1(2) base(2) by (simp add: known_def)
    have idl: "(?n, FINAL, Some n_RpcOperationError, [(1, ''status_code'', False, ''_uint32_t''), (2, ''request'', False, n_TransferData)]) \<in> set object_table"
      by (simp add: object_table_def)
    obtain p s3 where s3: "reported ?n (tr_register_struct api \<lparr>st_extensibility = FINAL, st_name = ?n, st_base = ?b, st_members = sms\<rparr> ?n b s2) lg = (p, s3, lg)"
      "tr_get api s3 ?n = Some p" "grows api D {?n} s2 s3" "registry_ok api D s3"
      by (rule struct_entered [OF assms s2(4) get idl kb s2(2)])
    have "grows api D A_RequestException s s3"
      by (rule grows_trans [OF g s3(3)]) (simp add: A_defs)
    moreover have "register_RequestException_type_identifier api ids (s, lg) = (p, s3, lg)"
      using None s1(1) base(1) s2(1) s3(1) by (simp add: register_RequestException_type_identifier_def build_struct_def)
    ultimately show ?thesis using s3 by blast
  qed (use ok in \<open>simp add: register_RequestException_type_identifier_def\<close>)
qed

lemmas dependencies_provide = dependency_provides [OF carriers_register(1)] dependency_provides [OF carriers_register(2)]
  dependency_provides [OF carriers_register(3)] dependency_provides [OF carriers_register(4)]
  dependency_provides [OF RequestException_registers]

lemma results_register:
  assumes "registry_laws api D"
  shows "registers api D (insert n_Read_Result A_results) (register_Requests_Read_Result_type_identifier api) n_Read_Result"
    "registers api D (insert n_Write_Result A_results) (register_Requests_Write_Result_type_identifier api) n_Write_Result"
proof -
  have fresh: "n_Read_Result \<notin> A_results" "n_Write_Result \<notin> A_results" by (simp_all add: A_defs type_names)
  have a: "adds api D A_results (Read_Result_members api)
      [(id_result, ''result'', True, n_Read_Out), (id_exception, ''cat_middleware_dds_RequestException_ex'', True, n_RequestException)]"
    unfolding Read_Result_members_def id_result_def id_exception_def
    by (rule adds.one [OF dependencies_provide(2) [OF assms] _ adds.one [OF dependencies_provide(5) [OF assms] _ adds.none]])
      (auto simp: A_defs)
  show "registers api D (insert n_Read_Result A_results) (register_Requests_Read_Result_type_identifier api) n_Read_Result"
    unfolding register_Requests_Read_Result_type_identifier_def
    by (rule registered_struct [OF assms a _ fresh(1)]) (simp_all add: object_table_def)
  have a: "adds api D A_results (Write_Result_members api)
      [(id_result, ''result'', True, n_Write_Out), (id_exception, ''cat_middleware_dds_RequestException_ex'', True, n_RequestException)]"
    unfolding Write_Result_members_def id_result_def id_exception_def
    by (rule adds.one [OF dependencies_provide(4) [OF assms] _ adds.one [OF dependencies_provide(5) [OF assms] _ adds.none]])
      (auto simp: A_defs)
  show "registers api D (insert n_Write_Result A_results) (register_Requests_Write_Result_type_identifier api) n_Write_Result"
    unfolding register_Requests_Write_Result_type_identifier_def
    by (rule registered_struct [OF assms a _ fresh(2)]) (simp_all add: object_table_def)
qed

definition A_Request :: "string set" where
  "A_Request = {n_Request, n_Read_In, n_Write_In} \<union> A_TransferData"

definition A_Reply :: "string set" where
  "A_Reply = {n_Reply, n_Read_Result, n_Write_Result, n_RemoteExceptionCode} \<union> A_results"

lemma Request_registers:
  assumes "registry_laws api D"
  shows "registers api D A_Request (register_Requests_Request_type_identifier api) n_Request"
proof -
  let ?A = "{n_Read_In, n_Write_In} \<union> A_TransferData"
  have fresh: "n_Request \<notin> ?A" by (simp add: A_defs type_names)
  have a: "adds api D ?A
      [add_member api id_Read True ''Read'' (Some []) (dependency_ids api n_Read_In (register_Requests_Read_In_type_identifier api)),
       add_member api id_Write True ''Write'' (Some []) (dependency_ids api n_Write_In (register_Requests_Write_In_type_identifier api))]
      [(id_Read, ''Read'', True, n_Read_In), (id_Write, ''Write'', True, n_Write_In)]"
    by (rule adds.one [OF dependencies_provide(1) [OF assms] _ adds.one [OF dependencies_provide(3) [OF assms] _ adds.none]]) auto
  show ?thesis
    unfolding register_Requests_Request_type_identifier_def id_Read_def [symmetric] id_Write_def [symmetric]
    by (rule registered_struct [OF assms a _ fresh]) (auto simp: object_table_def A_Request_def)
qed

lemma Reply_registers:
  assumes "registry_laws api D"
  shows "registers api D A_Reply (register_Requests_Reply_type_identifier api) n_Reply"
proof -
  let ?A = "{n_Read_Result, n_Write_Result, n_RemoteExceptionCode} \<union> A_results"
  have fresh: "n_Reply \<notin> ?A" and rpc: "n_RemoteExceptionCode \<notin> object_names" by (simp_all add: A_defs object_names_eq type_names)
  have a: "adds api D ?A (Reply_members api)
      [(id_Read, ''Read'', True, n_Read_Result), (id_Write, ''Write'', True, n_Write_Result), (id_remoteEx, ''remoteEx'', True, n_RemoteExceptionCode)]"
    unfolding Reply_members_def id_Read_def id_Write_def id_remoteEx_def
    by (rule adds.one [OF dependency_provides [OF results_register(1) [OF assms]] _ adds.one [OF dependency_provides [OF results_register(2) [OF assms]] _
          adds.one [OF rpc_provides [OF assms rpc] _ adds.none]]]) auto
  show ?thesis
    unfolding register_Requests_Reply_type_identifier_def
    by (rule registered_struct [OF assms a _ fresh]) (auto simp: object_table_def A_Reply_def)
qed

section \<open>A registry\<close>

text \<open>An instance: names with the objects stored for them.\<close>

datatype token_id = No_id | Id_of string

type_synonym token_registry = "(string \<times> token_id struct_type option) list"

definition token_get :: "token_registry \<Rightarrow> string \<Rightarrow> token_id id_pair option" where
  "token_get s n = (if n \<in> {''_byte'', ''_uint32_t''} \<or> n \<in> fst ` set s then Some (Id_of n, No_id) else None)"

definition token_enter :: "token_id struct_type option \<Rightarrow> string \<Rightarrow> token_registry \<Rightarrow> bool \<times> token_id id_pair \<times> token_registry" where
  "token_enter t n s = (False, (Id_of n, No_id), (n, t) # s)"

definition token_registry_api :: "(token_registry, token_id) registry_api" where
  "token_registry_api =
     \<lparr>tr_none = No_id, tr_kind = (\<lambda>i. if i = No_id then TK_NONE else EK_COMPLETE), tr_get = token_get,
      tr_complete = (\<lambda>p. if fst p = No_id then None else Some (fst p)),
      tr_register_string = (\<lambda>_ n _. token_enter None n), tr_register_sequence = (\<lambda>_ n _. token_enter None n),
      tr_register_struct = (\<lambda>t n _. token_enter (Some t) n), tr_register_rpc = (\<lambda>n _ s. snd (token_enter None n s))\<rparr>"

definition token_object :: "token_registry \<Rightarrow> token_id \<Rightarrow> token_id struct_type option" where
  "token_object s i = (case i of No_id \<Rightarrow> None | Id_of n \<Rightarrow> Option.bind (map_of s n) (\<lambda>t. t))"

lemma token_enters:
  assumes "token_get s n = None"
  shows "enters token_registry_api token_object n s (token_enter t n s)"
proof -
  have "map_of s n = None" using assms by (auto simp: token_get_def map_of_eq_None_iff split: if_splits)
  then have "token_object ((n, t) # s) i = Some u" if "token_object s i = Some u" for i u
    using that by (cases i) (auto simp: token_object_def)
  then show ?thesis
    using assms by (auto simp: enters_def token_enter_def grows_def token_registry_api_def token_get_def split: if_splits)
qed

lemma token_registry_laws: "registry_laws token_registry_api token_object"
proof -
  have get: "tr_get token_registry_api = token_get" by (simp add: token_registry_api_def)
  have "\<exists>i. tr_complete token_registry_api p = Some i \<and> token_object s' i = Some t"
    if "token_enter (Some t) n s = (bad, p, s')" for t n s bad p s'
    using that by (auto simp: token_enter_def token_registry_api_def token_object_def)
  then show ?thesis
    unfolding registry_laws_def get
    using token_enters
    by (auto simp: token_registry_api_def token_get_def split: if_splits prod.splits) (auto simp: token_enter_def)
qed

section \<open>Properties\<close>

definition table_uses :: "string \<Rightarrow> string set" where
  "table_uses n = (case map_of object_table n of None \<Rightarrow> {} | Some (_, _, es) \<Rightarrow> (\<lambda>(_, _, _, ty). ty) ` set es)"

lemma table_uses_simps:
  "table_uses n_Reply = {n_Read_Result, n_Write_Result, n_RemoteExceptionCode}" "table_uses n_Request = {n_Read_In, n_Write_In}"
  "table_uses n_Read_Result = {n_Read_Out, n_RequestException}" "table_uses n_Write_Result = {n_Write_Out, n_RequestException}"
  "table_uses n_Read_In = {n_TransferData}"
  by (simp_all add: table_uses_def object_table_def type_names)

lemma used_is_known:
  assumes "registry_ok api D s" "tr_get api s n \<noteq> None" "ty \<in> table_uses n"
  shows "tr_get api s ty \<noteq> None"
proof -
  obtain ext base es where e: "map_of object_table n = Some (ext, base, es)" "ty \<in> (\<lambda>(_, _, _, ty). ty) ` set es"
    using assms(3) by (cases "map_of object_table n") (auto simp only: table_uses_def option.case prod.case empty_iff prod.exhaust_sel split: prod.splits)
  have "described api D s (n, ext, base, es)"
    using assms(1,2) map_of_SomeD [OF e(1)] by (auto simp: registry_ok_def)
  from described_members [OF this] obtain sms where sms: "list_all2 (member_matches api s) es sms" by (elim exE)
  obtain x where x: "x \<in> set es" "ty = (\<lambda>(_, _, _, ty). ty) x" using e(2) by blast
  obtain sm where "member_matches api s x sm" using sms x(1) by (auto simp: list_all2_conv_all_nth in_set_conv_nth)
  then show ?thesis using x(2) by (cases x) (auto simp: known_def)
qed

text \<open>A registry that has all that requests, replies and messages use.\<close>

lemma all_described:
  assumes "registry_ok api D s" "tr_get api s n_Message = Some p1" "tr_get api s n_Request = Some p2" "tr_get api s n_Reply = Some p3"
  shows "\<forall>e \<in> set object_table. fst e \<noteq> n_Lockup_Message \<longrightarrow> described api D s e"
proof -
  have d: "described api D s (n, x)" if "(n, x) \<in> set object_table" "tr_get api s n \<noteq> None" for n x
    using assms(1) that by (auto simp: registry_ok_def)
  note used = used_is_known [OF assms(1)]
  have reply: "tr_get api s n_Read_Result \<noteq> None" "tr_get api s n_Write_Result \<noteq> None"
    using used [of n_Reply] assms(4) by (simp_all add: table_uses_simps)
  have results: "tr_get api s n_Read_Out \<noteq> None" "tr_get api s n_Write_Out \<noteq> None" "tr_get api s n_RequestException \<noteq> None"
    using used [OF reply(1)] used [OF reply(2)] by (simp_all add: table_uses_simps)
  have request: "tr_get api s n_Read_In \<noteq> None" "tr_get api s n_Write_In \<noteq> None"
    using used [of n_Request] assms(3) by (simp_all add: table_uses_simps)
  have "tr_get api s n_TransferData \<noteq> None"
    using used [OF request(1)] by (simp add: table_uses_simps)
  then have "\<forall>e \<in> set object_table. fst e \<noteq> n_Lockup_Message \<longrightarrow> tr_get api s (fst e) \<noteq> None"
    using reply results request assms(2-4) by (simp add: object_table_def)
  then show ?thesis using d by (metis prod.collapse)
qed

text \<open>
  An error in the middle of the registration of \<open>RequestException\<close>: without an entry for the primitive type nothing
  is registered, but the caller is handed the identifiers of the base type, whose look-up has used the same pair;
  every other type keeps the caller's pair when its registration fails.
\<close>

theorem exception_error_hands_out_base:
  assumes "tr_get api s n_RequestException = None" "tr_get api s n_RpcOperationError = Some base"
    "tr_kind api (fst base) = EK_COMPLETE \<or> tr_kind api (snd base) = EK_COMPLETE" "tr_get api s ''_uint32_t'' = None"
  shows "register_RequestException_type_identifier api ids (s, lg) =
     (base, s, lg @ [''status_code Structure member TypeIdentifier unknown to TypeObjectRegistry.''])"
proof -
  have "RequestException_base api ids (s, lg) = (base, s, lg)" by (simp add: RequestException_base_def assms(2))
  moreover have "build_struct api FINAL n_RequestException b
      (add_member api 1 False ''status_code'' None (primitive_ids api ''_uint32_t'' ''status_code'') # rest) base (s, lg) =
      (base, s, lg @ [''status_code Structure member TypeIdentifier unknown to TypeObjectRegistry.''])" for b rest
    by (simp add: build_struct_def add_member_def primitive_ids_def assms(4) log_error_def)
  ultimately show ?thesis
    using assms(1,3) by (simp add: register_RequestException_type_identifier_def)
qed

theorem exception_error_hands_out_base_witness:
  "register_RequestException_type_identifier
     (token_registry_api\<lparr>tr_get := \<lambda>s n. if n = ''_uint32_t'' then None else token_get s n\<rparr>) (No_id, No_id)
     ([(n_RpcOperationError, None)], []) =
     ((Id_of n_RpcOperationError, No_id), [(n_RpcOperationError, None)],
      [''status_code Structure member TypeIdentifier unknown to TypeObjectRegistry.''])"
  using exception_error_hands_out_base
    [of "token_registry_api\<lparr>tr_get := \<lambda>s n. if n = ''_uint32_t'' then None else token_get s n\<rparr>"
        "[(n_RpcOperationError, None)]" "(Id_of n_RpcOperationError, No_id)" "(No_id, No_id)" "[]"]
  by (simp add: token_registry_api_def token_get_def type_names)

section \<open>Agreement with the calls\<close>

text \<open>
  What is seen of a type in the calls that write it: the encoding, and the numbers of its own members, each with
  whether it is written as an optional.
\<close>

fun optional_call :: "cdr_put list \<Rightarrow> bool" where
  "optional_call (Optional_present # _) = True"
| "optional_call (Optional_absent # _) = True"
| "optional_call _ = False"

fun own_members :: "nat \<Rightarrow> cdr_put list \<Rightarrow> (u32 \<times> bool) list" where
  "own_members d [] = []"
| "own_members d (Begin_type _ # ps) = own_members (Suc d) ps"
| "own_members d (End_type # ps) = own_members (d - 1) ps"
| "own_members d (Member_id i # ps) = (if d = 1 then [(i, optional_call ps)] else []) @ own_members d ps"
| "own_members d (_ # ps) = own_members d ps"

definition call_layout :: "cdr_put list \<Rightarrow> (encoding_flag option \<times> (u32 \<times> bool) list)" where
  "call_layout ps = (case ps of Begin_type f # _ \<Rightarrow> Some f | _ \<Rightarrow> None, own_members 0 ps)"

fun extensibility_flag :: "extensibility \<Rightarrow> cdr_version \<Rightarrow> encoding_flag" where
  "extensibility_flag FINAL = final_flag"
| "extensibility_flag APPENDABLE = delimited_flag"
| "extensibility_flag MUTABLE = mutable_flag"

text \<open>The same of an entry of the table; a base type has one member, the message of the exception.\<close>

definition table_layout :: "cdr_version \<Rightarrow> string \<Rightarrow> (encoding_flag option \<times> (u32 \<times> bool) list) option" where
  "table_layout v n =
     map_option (\<lambda>(ext, base, ms). (Some (extensibility_flag ext v),
         (if base = None then [] else [(0, False)]) @ map (\<lambda>(i, _, optional, _). (i, optional)) ms))
       (map_of object_table n)"

definition nested_calls :: "cdr_put list \<Rightarrow> bool" where
  "nested_calls ps \<longleftrightarrow> ps \<noteq> [] \<and> (\<forall>d rest. 1 \<le> d \<longrightarrow> own_members d (ps @ rest) = own_members d rest)"

lemma nested_calls_simple: "nested_calls [Put_string x]" "nested_calls [Put_u32 u]" "nested_calls [Put_octets b]" "nested_calls [Put_code c]"
  by (simp_all add: nested_calls_def)

lemma nested_calls_optional: "(\<And>x. nested_calls (ser x)) \<Longrightarrow> nested_calls (put_optional ser y)"
  by (auto simp: nested_calls_def put_optional_def split: option.split)

lemma own_members_nested_calls:
  assumes "\<forall>(i, ps) \<in> set ms. nested_calls ps" "1 \<le> d"
  shows "own_members d (concat (map (\<lambda>(i, ps). Member_id i # ps) ms) @ rest) =
     (if d = 1 then map (\<lambda>(i, ps). (i, optional_call ps)) ms else []) @ own_members d rest"
  using assms(1)
proof (induction ms)
  case (Cons m ms)
  obtain i ps where m: "m = (i, ps)" by fastforce
  have "nested_calls ps" using Cons.prems by (simp add: m)
  moreover from this have "optional_call (ps @ r) = optional_call ps" for r
    by (cases ps rule: optional_call.cases) (simp_all add: nested_calls_def)
  ultimately show ?case using Cons assms(2) by (auto simp: m nested_calls_def)
qed simp

lemma nested_calls_type: "\<forall>(i, ps) \<in> set ms. nested_calls ps \<Longrightarrow> nested_calls (put_type f ms)"
  using own_members_nested_calls [of ms] by (simp add: nested_calls_def put_type_def)

lemma type_layout:
  "\<forall>(i, ps) \<in> set ms. nested_calls ps \<Longrightarrow> call_layout (put_type f ms) = (Some f, map (\<lambda>(i, ps). (i, optional_call ps)) ms)"
  using own_members_nested_calls [of ms 1] by (simp add: call_layout_def put_type_def)

lemma optional_call_put: "optional_call (put_optional ser y)"
  by (simp add: put_optional_def split: option.split)

lemma not_optional_type: "\<not> optional_call (put_type f ms)"
  by (simp add: put_type_def)

lemma nested_calls_types:
  "nested_calls (serialize_TransferData v d)" "nested_calls (serialize_RequestException v e)" "nested_calls (serialize_Read_In v d)"
  "nested_calls (serialize_Read_Out v d)" "nested_calls (serialize_Write_In v d)" "nested_calls (serialize_Write_Out v d)"
  "nested_calls (serialize_Read_Result v r)" "nested_calls (serialize_Write_Result v r)"
proof -
  have t: "nested_calls (serialize_TransferData v d)" for d
    unfolding serialize_TransferData_def by (intro nested_calls_type) (simp add: nested_calls_simple)
  have e: "nested_calls (serialize_RequestException v e)" for e
    unfolding serialize_RequestException_def by (intro nested_calls_type) (simp add: nested_calls_simple t)
  have c: "nested_calls (serialize_Read_In v d)" "nested_calls (serialize_Read_Out v d)" "nested_calls (serialize_Write_In v d)" "nested_calls (serialize_Write_Out v d)" for d
    unfolding serialize_Read_In_def serialize_Read_Out_def serialize_Write_In_def serialize_Write_Out_def
    by (intro nested_calls_type; simp add: t)+
  show "nested_calls (serialize_TransferData v d)" "nested_calls (serialize_RequestException v e)" "nested_calls (serialize_Read_In v d)"
    "nested_calls (serialize_Read_Out v d)" "nested_calls (serialize_Write_In v d)" "nested_calls (serialize_Write_Out v d)"
    by (rule t e c)+
  show "nested_calls (serialize_Read_Result v r)" "nested_calls (serialize_Write_Result v r)"
    unfolding serialize_Read_Result_def serialize_Write_Result_def
    by (intro nested_calls_type; simp add: nested_calls_optional e c)+
qed

text \<open>
  The type objects agree with the wire format: for every type, in both data representations and whatever its
  value, the encoding of the calls that write it is the one of its extensibility, and its members have the
  numbers of the type object, in the same order, and are written as optionals exactly where it says so.
\<close>

theorem type_objects_match_calls:
  "table_layout v n_Message = Some (call_layout (serialize_Message v m)) \<and>
   table_layout v n_TransferData = Some (call_layout (serialize_TransferData v d)) \<and>
   table_layout v n_RequestException = Some (call_layout (serialize_RequestException v e)) \<and>
   table_layout v n_Read_In = Some (call_layout (serialize_Read_In v d)) \<and>
   table_layout v n_Read_Out = Some (call_layout (serialize_Read_Out v d)) \<and>
   table_layout v n_Read_Result = Some (call_layout (serialize_Read_Result v r)) \<and>
   table_layout v n_Write_In = Some (call_layout (serialize_Write_In v d)) \<and>
   table_layout v n_Write_Out = Some (call_layout (serialize_Write_Out v d)) \<and>
   table_layout v n_Write_Result = Some (call_layout (serialize_Write_Result v r)) \<and>
   table_layout v n_Request = Some (call_layout (serialize_Request v rq)) \<and>
   table_layout v n_Reply = Some (call_layout (serialize_Reply v rp))"
proof -
  note layout = table_layout_def object_table_def type_names
  note nest = nested_calls_simple nested_calls_types nested_calls_optional
  have td: "\<not> optional_call (serialize_TransferData v d)" for d by (simp add: serialize_TransferData_def not_optional_type)
  have 1: "table_layout v n_Message = Some (call_layout (serialize_Message v m))"
    unfolding serialize_Message_def by (subst type_layout) (simp_all add: nest layout)
  have 2: "table_layout v n_TransferData = Some (call_layout (serialize_TransferData v d))"
    unfolding serialize_TransferData_def by (subst type_layout) (simp_all add: nest layout)
  have 3: "table_layout v n_RequestException = Some (call_layout (serialize_RequestException v e))"
    unfolding serialize_RequestException_def by (subst type_layout) (simp_all add: nest layout td)
  have 4: "table_layout v n_Read_In = Some (call_layout (serialize_Read_In v d))"
    unfolding serialize_Read_In_def by (subst type_layout) (simp_all add: nest layout td)
  have 5: "table_layout v n_Read_Out = Some (call_layout (serialize_Read_Out v d))"
    unfolding serialize_Read_Out_def by (subst type_layout) (simp_all add: nest layout td)
  have 6: "table_layout v n_Read_Result = Some (call_layout (serialize_Read_Result v r))"
    unfolding serialize_Read_Result_def by (subst type_layout) (simp_all add: nest layout optional_call_put)
  have 7: "table_layout v n_Write_In = Some (call_layout (serialize_Write_In v d))"
    unfolding serialize_Write_In_def by (subst type_layout) (simp_all add: nest layout td)
  have 8: "table_layout v n_Write_Out = Some (call_layout (serialize_Write_Out v d))"
    unfolding serialize_Write_Out_def by (subst type_layout) (simp_all add: nest layout td)
  have 9: "table_layout v n_Write_Result = Some (call_layout (serialize_Write_Result v r))"
    unfolding serialize_Write_Result_def by (subst type_layout) (simp_all add: nest layout optional_call_put)
  have 10: "table_layout v n_Request = Some (call_layout (serialize_Request v rq))"
    unfolding serialize_Request_def by (subst type_layout) (simp_all add: nest layout optional_call_put)
  have 11: "table_layout v n_Reply = Some (call_layout (serialize_Reply v rp))"
    unfolding serialize_Reply_def by (subst type_layout) (simp_all add: nest layout optional_call_put)
  show ?thesis using 1 2 3 4 5 6 7 8 9 10 11 by blast
qed

section \<open>Agreement with the IDL files\<close>

text \<open>
  The declarations of \<open>message.idl\<close> and \<open>requests.idl\<close>: structures and exceptions with their members, and an
  interface with its operations.
\<close>

datatype idl_type = Idl_string | Idl_octets | Idl_uint32 | Idl_named string

record idl_structure =
  idl_name :: string
  idl_exception :: bool
  idl_members :: "(string \<times> idl_type) list"

record idl_operation =
  op_name :: string
  op_in :: "(string \<times> idl_type) list"
  op_returns :: idl_type
  op_raises :: "string list"

definition message_idl :: "idl_structure list" where
  "message_idl =
     [\<lparr>idl_name = ''cat::middleware::Message'', idl_exception = False,
       idl_members = [(''additional_information'', Idl_string), (''protobuf'', Idl_octets)]\<rparr>]"

definition requests_idl :: "idl_structure list" where
  "requests_idl =
     [\<lparr>idl_name = ''cat::middleware::dds::TransferData'', idl_exception = False, idl_members = [(''protobuf'', Idl_octets)]\<rparr>,
      \<lparr>idl_name = ''cat::middleware::dds::RequestException'', idl_exception = True,
       idl_members = [(''status_code'', Idl_uint32), (''request'', Idl_named ''cat::middleware::dds::TransferData'')]\<rparr>]"

definition Requests_operations :: "idl_operation list" where
  "Requests_operations =
     map (\<lambda>name. \<lparr>op_name = name, op_in = [(''req'', Idl_named ''cat::middleware::dds::TransferData'')],
                   op_returns = Idl_named ''cat::middleware::dds::TransferData'',
                   op_raises = [''cat::middleware::dds::RequestException'']\<rparr>) [''Read'', ''Write'']"

text \<open>
  The types that the request/reply mapping makes of an interface: for each operation one of its parameters, one of its
  result, and one of the result or the exceptions it raises; and for the interface a request and a reply with one
  member for each operation, the reply also with the code of a remote exception (the structures of
  \<open>requests_details.hpp\<close>).
\<close>

fun underscored :: "string \<Rightarrow> string" where
  "underscored (c # d # s) = (if c = CHR '':'' \<and> d = CHR '':'' then CHR ''_'' # underscored s else c # underscored (d # s))"
| "underscored s = s"

definition rpc_structure :: "string \<Rightarrow> (string \<times> idl_type) list \<Rightarrow> idl_structure" where
  "rpc_structure name members = \<lparr>idl_name = name, idl_exception = False, idl_members = members\<rparr>"

definition operation_types :: "string \<Rightarrow> idl_operation \<Rightarrow> idl_structure list" where
  "operation_types prefix op =
     [rpc_structure (prefix @ op_name op @ ''_In'') (op_in op),
      rpc_structure (prefix @ op_name op @ ''_Out'') [(''return_'', op_returns op)],
      rpc_structure (prefix @ op_name op @ ''_Result'')
        ((''result'', Idl_named (prefix @ op_name op @ ''_Out'')) #
         map (\<lambda>e. (underscored e @ ''_ex'', Idl_named e)) (op_raises op))]"

definition interface_types :: "string \<Rightarrow> idl_operation list \<Rightarrow> idl_structure list" where
  "interface_types prefix ops =
     concat (map (operation_types prefix) ops) @
     [rpc_structure (prefix @ ''Request'') (map (\<lambda>op. (op_name op, Idl_named (prefix @ op_name op @ ''_In''))) ops),
      rpc_structure (prefix @ ''Reply'')
        (map (\<lambda>op. (op_name op, Idl_named (prefix @ op_name op @ ''_Result''))) ops @
         [(''remoteEx'', Idl_named ''eprosima::fastdds::dds::rpc::RemoteExceptionCode_t'')])]"

definition idl_declared :: "idl_structure list" where
  "idl_declared = message_idl @ requests_idl @
     interface_types ''cat::middleware::dds::detail::Requests_'' Requests_operations"

text \<open>The name under which a type is entered in the registry.\<close>

fun registry_name :: "idl_type \<Rightarrow> string" where
  "registry_name Idl_string = ''anonymous_string_unbounded''"
| "registry_name Idl_octets = ''anonymous_sequence_byte_unbounded''"
| "registry_name Idl_uint32 = ''_uint32_t''"
| "registry_name (Idl_named n) = n"

text \<open>The table has the members that are declared, under their names and in their order.\<close>

lemma declared_in_table:
  "list_all (\<lambda>d. list_ex (\<lambda>(n, ext, base, es). n = idl_name d \<and>
      base = (if idl_exception d then Some n_RpcOperationError else None) \<and>
      map (\<lambda>(_, name, _, ty). (name, ty)) es = map (apsnd registry_name) (idl_members d)) object_table) idl_declared"
  by (simp add: idl_declared_def message_idl_def requests_idl_def interface_types_def operation_types_def rpc_structure_def
      Requests_operations_def object_table_def type_names)

text \<open>The calls that write a value of a type, in one of the data representations.\<close>

inductive written :: "cdr_version \<Rightarrow> string \<Rightarrow> cdr_put list \<Rightarrow> bool" for v where
  "written v n_Message (serialize_Message v m)"
| "written v n_TransferData (serialize_TransferData v d)"
| "written v n_RequestException (serialize_RequestException v e)"
| "written v n_Read_In (serialize_Read_In v d)"
| "written v n_Read_Out (serialize_Read_Out v d)"
| "written v n_Read_Result (serialize_Read_Result v r)"
| "written v n_Write_In (serialize_Write_In v d)"
| "written v n_Write_Out (serialize_Write_Out v d)"
| "written v n_Write_Result (serialize_Write_Result v r)"
| "written v n_Request (serialize_Request v rq)"
| "written v n_Reply (serialize_Reply v rp)"

lemma written_layout: "written v n ps \<Longrightarrow> table_layout v n = Some (call_layout ps)"
  by (induction rule: written.induct) (simp_all add: type_objects_match_calls)

text \<open>What is seen of a type object in the calls; the member with number 0 of an exception is its base's message.\<close>

definition object_layout :: "cdr_version \<Rightarrow> bool \<Rightarrow> 'i struct_type \<Rightarrow> encoding_flag option \<times> (u32 \<times> bool) list" where
  "object_layout v has_base t =
     (Some (extensibility_flag (st_extensibility t) v),
      (if has_base then [(0, False)] else []) @ map (\<lambda>m. (mb_id m, mb_optional m)) (st_members t))"

text \<open>
  A type is registered as declared and as it is written: the members have the declared names and the identifiers of the
  declared types, an exception has the base of all exceptions, and whatever value is written in whichever
  representation, the calls show the extensibility, the member numbers and the optional members of the type object.
\<close>

definition registered_as_declared ::
  "('s, 'i) registry_api \<Rightarrow> ('s \<Rightarrow> 'i \<Rightarrow> 'i struct_type option) \<Rightarrow> 's \<Rightarrow> idl_structure \<Rightarrow> bool" where
  "registered_as_declared api D s d \<longleftrightarrow>
     (\<exists>i t. known api s (idl_name d) i \<and> D s i = Some t \<and> st_name t = idl_name d \<and>
        list_all2 (\<lambda>(name, ty) m. mb_name m = name \<and> known api s (registry_name ty) (mb_type m)) (idl_members d) (st_members t) \<and>
        (if idl_exception d then known api s n_RpcOperationError (st_base t) else st_base t = tr_none api) \<and>
        (\<forall>v ps. written v (idl_name d) ps \<longrightarrow> object_layout v (idl_exception d) t = call_layout ps))"

lemma matching_members:
  "list_all2 (member_matches api s) es ms \<Longrightarrow>
     map (\<lambda>m. (mb_id m, mb_optional m)) ms = map (\<lambda>(i, _, optional, _). (i, optional)) es"
  by (induction rule: list_all2_induct) auto

lemma declared_members:
  assumes "list_all2 (member_matches api s) es ms" "map (\<lambda>(_, name, _, ty). (name, ty)) es = map (apsnd registry_name) ds"
  shows "list_all2 (\<lambda>(name, ty) m. mb_name m = name \<and> known api s (registry_name ty) (mb_type m)) ds ms"
  using assms
proof (induction arbitrary: ds rule: list_all2_induct)
  case (Cons e es m ms)
  then obtain d ds' where "ds = d # ds'" by (cases ds) auto
  then show ?case using Cons by (cases e; cases d) auto
qed simp

lemma described_as_declared:
  assumes "d \<in> set idl_declared" "\<forall>e \<in> set object_table. fst e \<noteq> n_Lockup_Message \<longrightarrow> described api D s e"
  shows "registered_as_declared api D s d"
proof -
  let ?base = "if idl_exception d then Some n_RpcOperationError else None"
  obtain ext es where e: "(idl_name d, ext, ?base, es) \<in> set object_table"
    "map (\<lambda>(_, name, _, ty). (name, ty)) es = map (apsnd registry_name) (idl_members d)"
    using declared_in_table assms(1) by (fastforce simp: list_all_iff list_ex_iff)
  have "idl_name d \<noteq> n_Lockup_Message"
    using assms(1) by (auto simp: idl_declared_def message_idl_def requests_idl_def interface_types_def operation_types_def
        rpc_structure_def Requests_operations_def type_names)
  then have "described api D s (idl_name d, ext, ?base, es)" using assms(2) e(1) by force
  then obtain i t where t: "known api s (idl_name d) i" "D s i = Some t" "st_name t = idl_name d" "st_extensibility t = ext"
    "case ?base of None \<Rightarrow> st_base t = tr_none api | Some b \<Rightarrow> known api s b (st_base t)"
    "list_all2 (member_matches api s) es (st_members t)"
    unfolding described_def by blast
  have "map_of object_table (idl_name d) = Some (ext, ?base, es)"
    using e(1) table_distinct by (rule map_of_is_SomeI [rotated])
  then have "object_layout v (idl_exception d) t = call_layout ps" if "written v (idl_name d) ps" for v ps
    using written_layout [OF that] t(4) matching_members [OF t(6)]
    by (cases "idl_exception d") (simp_all add: table_layout_def object_layout_def)
  then show ?thesis
    unfolding registered_as_declared_def using t declared_members [OF t(6) e(2)] by (intro exI [of _ i] exI [of _ t]) auto
qed

text \<open>
C36: Registering the messages, the requests and the replies with a registry that behaves as documented and knows none of the
  types yet: nothing is logged, the identifiers handed out are those of the types asked for, and each of the eleven
  types that the two IDL files declare, or that the request/reply mapping makes of the declared interface, is
  registered.  Its members have the declared names, in the declared order, and the type identifiers registered for the
  declared types; an exception has the base of Fast DDS; and its extensibility and the numbers and optional flags of its
  members, which the IDL files do not give, are those that the calls show which write a value of the type, for every
  value and both data representations.
\<close>

theorem type_objects_registered:
  assumes "registry_laws api D" "\<forall>n \<in> object_names. tr_get api s n = None"
  shows "\<exists>p1 p2 p3 s1 s2 s3.
    register_Message_type_identifier api ids (s, lg) = (p1, s1, lg) \<and>
    register_Requests_Request_type_identifier api ids (s1, lg) = (p2, s2, lg) \<and>
    register_Requests_Reply_type_identifier api ids (s2, lg) = (p3, s3, lg) \<and>
    tr_get api s3 n_Message = Some p1 \<and> tr_get api s3 n_Request = Some p2 \<and> tr_get api s3 n_Reply = Some p3 \<and>
    (\<forall>d \<in> set idl_declared. registered_as_declared api D s3 d)"
proof -
  have ok: "registry_ok api D s" using assms(2) by (auto simp: registry_ok_def object_names_def)
  obtain p1 s1 where s1: "register_Message_type_identifier api ids (s, lg) = (p1, s1, lg)" "tr_get api s1 n_Message = Some p1"
    "registry_ok api D s1"
    by (rule registersE [OF Message_registers(1) [OF assms(1)] ok])
  obtain p2 s2 where s2: "register_Requests_Request_type_identifier api ids (s1, lg) = (p2, s2, lg)" "tr_get api s2 n_Request = Some p2"
    "grows api D A_Request s1 s2" "registry_ok api D s2"
    by (rule registersE [OF Request_registers [OF assms(1)] s1(3)])
  obtain p3 s3 where s3: "register_Requests_Reply_type_identifier api ids (s2, lg) = (p3, s3, lg)" "tr_get api s3 n_Reply = Some p3"
    "grows api D A_Reply s2 s3" "registry_ok api D s3"
    by (rule registersE [OF Reply_registers [OF assms(1)] s2(4)])
  have m: "tr_get api s3 n_Message = Some p1" "tr_get api s3 n_Request = Some p2"
    using get_grows [OF get_grows [OF s1(2) s2(3)] s3(3)] get_grows [OF s2(2) s3(3)] by blast+
  have "\<forall>e \<in> set object_table. fst e \<noteq> n_Lockup_Message \<longrightarrow> described api D s3 e"
    by (rule all_described [OF s3(4) m s3(2)])
  then have "\<forall>d \<in> set idl_declared. registered_as_declared api D s3 d" by (simp add: described_as_declared)
  then show ?thesis using s1(1) s2(1) s3(1,2) m by blast
qed

theorem type_objects_registered_witness:
  "\<exists>p1 p2 p3 s1 s2 s3.
    register_Message_type_identifier token_registry_api (No_id, No_id) ([], []) = (p1, s1, []) \<and>
    register_Requests_Request_type_identifier token_registry_api (No_id, No_id) (s1, []) = (p2, s2, []) \<and>
    register_Requests_Reply_type_identifier token_registry_api (No_id, No_id) (s2, []) = (p3, s3, []) \<and>
    (\<forall>d \<in> set idl_declared. registered_as_declared token_registry_api token_object s3 d)"
proof -
  have "\<forall>n \<in> object_names. tr_get token_registry_api [] n = None"
    by (simp add: object_names_eq type_names token_registry_api_def token_get_def)
  from type_objects_registered [OF token_registry_laws this, of "(No_id, No_id)" "[]"] show ?thesis by blast
qed

end
