(* ===== verification/Rpc_Threads.thy ===== *)
theory Rpc_Threads
  imports Rpc_Client
begin

text \<open>
  The threads of the request bindings, \<open>idl/topics/requests/requestsServer.cxx\<close> and \<open>requestsClient.cxx\<close>: the
  workers of the server's thread pool with their condition variable, the taking of requests, the start
  and end of a server and of a client, and the reply thread of a client against the threads that send.

  The pool is a function of the events: a request is scheduled, the pool is stopped, a worker takes a turn
  up to its next access to the shared state, or wakes up without a reason.  The locale \<open>ranked\<close> is the
  argument for progress; it is interpreted on the pool twice, for its end and for the serving of its
  queue.  The client is a step relation, cut where the mutex is taken and released.

  Shown: no request is lost between scheduling and a worker, every queued request is taken when the
  workers get turns, a stopped pool joins; and every reply that reaches a client resolves its promise,
  because a request is sent and entered under one lock.
\<close>

section \<open>Progress\<close>

text \<open>
  A system whose events keep an invariant, with a rank that no event raises and that the events of one
  thread lower.
\<close>

locale ranked =
  fixes step :: "'e \<Rightarrow> 's \<Rightarrow> 's"
    and inv :: "'s \<Rightarrow> bool"
    and rank :: "'s \<Rightarrow> nat"
    and own :: "'e \<Rightarrow> bool"
  assumes inv_step: "inv s \<Longrightarrow> inv (step e s)"
    and rank_step: "inv s \<Longrightarrow> rank (step e s) \<le> rank s"
    and rank_own: "inv s \<Longrightarrow> own e \<Longrightarrow> 0 < rank s \<Longrightarrow> rank (step e s) < rank s"
begin

lemma inv_run: "inv s \<Longrightarrow> inv (fold step es s)"
  by (induction es arbitrary: s) (simp_all add: inv_step)

lemma rank_run: "inv s \<Longrightarrow> rank (fold step es s) \<le> rank s - length (filter own es)"
proof (induction es arbitrary: s)
  case (Cons e es)
  have "rank (fold step es (step e s)) \<le> rank (step e s) - length (filter own es)"
    using Cons by (simp add: inv_step)
  moreover have "rank (step e s) \<le> rank s - (if own e then 1 else 0)"
    using rank_step [OF Cons.prems, of e] rank_own [OF Cons.prems, of e] by (cases "0 < rank s") auto
  ultimately show ?case by auto
qed simp

lemma rank_zero: "inv s \<Longrightarrow> rank s \<le> length (filter own es) \<Longrightarrow> rank (fold step es s) = 0"
  using rank_run [of s es] by simp

end

section \<open>The thread pool of the server\<close>

text \<open>
  A worker is before the test of \<open>while(!finished_)\<close>, before the mutex and the predicate of the wait, inside
  the wait, executing a request, or has ended.  The last two fields are histories: the requests that were
  accepted and those that workers took, oldest first.
\<close>

datatype 'r worker = Loop_test | Lock_wait | Parked | Executing 'r | Ended

record 'r pool =
  pl_requests :: "'r list"
  pl_finished :: bool
  pl_threads :: "'r worker list"
  pl_accepted :: "'r list"
  pl_taken :: "'r list"

definition pool_ctor :: "nat \<Rightarrow> 'r pool" where
  "pool_ctor num_threads = \<lparr>pl_requests = [], pl_finished = False,
     pl_threads = replicate (if num_threads = 0 then 1 else num_threads) Loop_test, pl_accepted = [], pl_taken = []\<rparr>"

definition set_thread :: "nat \<Rightarrow> 'r worker \<Rightarrow> 'r pool \<Rightarrow> 'r pool" where
  "set_thread i w p = p\<lparr>pl_threads := (pl_threads p)[i := w]\<rparr>"

definition worker_turn :: "nat \<Rightarrow> 'r pool \<Rightarrow> 'r pool" where
  "worker_turn i p =
     (if i < length (pl_threads p) then
        (case pl_threads p ! i of
           Loop_test \<Rightarrow> set_thread i (if pl_finished p then Ended else Lock_wait) p
         | Lock_wait \<Rightarrow>
             if pl_finished p then set_thread i Ended p
             else (case pl_requests p of
                     [] \<Rightarrow> set_thread i Parked p
                   | req # rest \<Rightarrow> (set_thread i (Executing req) p)\<lparr>pl_requests := rest, pl_taken := pl_taken p @ [req]\<rparr>)
         | Parked \<Rightarrow> p
         | Executing req \<Rightarrow> set_thread i Loop_test p
         | Ended \<Rightarrow> p)
      else p)"

text \<open>\<open>notify_one\<close> wakes one of the waiting threads; \<open>k\<close> is the choice of the system.\<close>

definition parked :: "'r worker list \<Rightarrow> nat list" where
  "parked ws = filter (\<lambda>i. ws ! i = Parked) [0..<length ws]"

definition notify_one :: "nat \<Rightarrow> 'r worker list \<Rightarrow> 'r worker list" where
  "notify_one k ws = (if parked ws = [] then ws else ws[parked ws ! (k mod length (parked ws)) := Lock_wait])"

definition notify_all :: "'r worker list \<Rightarrow> 'r worker list" where
  "notify_all ws = map (\<lambda>w. if w = Parked then Lock_wait else w) ws"

definition pool_schedule_request :: "nat \<Rightarrow> 'r \<Rightarrow> 'r pool \<Rightarrow> 'r pool" where
  "pool_schedule_request k req p =
     (if \<not> pl_finished p then
        p\<lparr>pl_requests := pl_requests p @ [req], pl_threads := notify_one k (pl_threads p), pl_accepted := pl_accepted p @ [req]\<rparr>
      else p)"

text \<open>\<open>server_stopped\<close> up to the joins, and the condition under which the joins return.\<close>

definition pool_server_stopped :: "'r pool \<Rightarrow> 'r pool" where
  "pool_server_stopped p = p\<lparr>pl_finished := True, pl_threads := notify_all (pl_threads p)\<rparr>"

definition pool_joined :: "'r pool \<Rightarrow> bool" where
  "pool_joined p = list_all (\<lambda>w. w = Ended) (pl_threads p)"

definition spurious_wakeup :: "nat \<Rightarrow> 'r pool \<Rightarrow> 'r pool" where
  "spurious_wakeup i p = (if i < length (pl_threads p) \<and> pl_threads p ! i = Parked then set_thread i Lock_wait p else p)"

datatype 'r pool_event = Schedule nat 'r | Stop | Turn nat | Spurious nat

fun pool_step :: "'r pool_event \<Rightarrow> 'r pool \<Rightarrow> 'r pool" where
  "pool_step (Schedule k req) p = pool_schedule_request k req p"
| "pool_step Stop p = pool_server_stopped p"
| "pool_step (Turn i) p = worker_turn i p"
| "pool_step (Spurious i) p = spurious_wakeup i p"

text \<open>The queue of the pool is the queue of the sequential model of the server.\<close>

definition pool_view :: "('i, 'g) RequestContext pool \<Rightarrow> ('i, 'g) RequestsServerLogic \<Rightarrow> ('i, 'g) RequestsServerLogic" where
  "pool_view p sv = sv\<lparr>sv_requests := pl_requests p, sv_finished := pl_finished p\<rparr>"

lemma pool_schedule_refines: "pool_view (pool_schedule_request k req p) sv = schedule_request req (pool_view p sv)"
  by (simp add: pool_view_def pool_schedule_request_def schedule_request_def)

lemma pool_take_refines:
  assumes "i < length (pl_threads p)" "pl_threads p ! i = Lock_wait"
  shows "worker_take (pool_view p sv) =
    (case pl_threads (worker_turn i p) ! i of Executing req \<Rightarrow> Some req | _ \<Rightarrow> None, pool_view (worker_turn i p) sv)"
  using assms by (auto simp: pool_view_def worker_take_def worker_turn_def set_thread_def split: list.splits)

section \<open>No request is lost\<close>

definition pool_inv :: "'r pool \<Rightarrow> bool" where
  "pool_inv p \<longleftrightarrow> pl_accepted p = pl_taken p @ pl_requests p \<and> pl_threads p \<noteq> [] \<and>
     (if pl_finished p then Parked \<notin> set (pl_threads p) else Ended \<notin> set (pl_threads p)) \<and>
     (pl_requests p \<noteq> [] \<and> \<not> pl_finished p \<longrightarrow> (\<exists>w \<in> set (pl_threads p). w \<noteq> Parked))"

lemma parked_index: "i \<in> set (parked ws) \<longleftrightarrow> i < length ws \<and> ws ! i = Parked"
  by (auto simp: parked_def)

lemma notify_one_awake: "ws \<noteq> [] \<Longrightarrow> \<exists>w \<in> set (notify_one k ws). w \<noteq> Parked"
proof (cases "parked ws = []")
  case True
  assume "ws \<noteq> []"
  then have "hd ws \<in> set ws" by simp
  moreover from True have "\<forall>i < length ws. ws ! i \<noteq> Parked" using parked_index [of _ ws] by auto
  ultimately show ?thesis using True by (metis in_set_conv_nth notify_one_def)
next
  case False
  let ?i = "parked ws ! (k mod length (parked ws))"
  have "?i \<in> set (parked ws)" using False by simp
  then have "?i < length ws" by (simp add: parked_index)
  then show ?thesis using False by (auto simp: notify_one_def intro!: bexI [of _ Lock_wait] set_update_memI)
qed

lemma notify_one_set: "set (notify_one k ws) \<subseteq> insert Lock_wait (set ws)"
  by (simp add: notify_one_def set_update_subset_insert subset_insertI)

lemma notify_one_length [simp]: "length (notify_one k ws) = length ws"
  by (simp add: notify_one_def)

lemma set_thread_simps [simp]:
  "pl_requests (set_thread i w p) = pl_requests p" "pl_finished (set_thread i w p) = pl_finished p"
  "pl_accepted (set_thread i w p) = pl_accepted p" "pl_taken (set_thread i w p) = pl_taken p"
  "pl_threads (set_thread i w p) = (pl_threads p)[i := w]"
  by (simp_all add: set_thread_def)

lemma update_inv:
  assumes "pool_inv p" "i < length (pl_threads p)" "w \<noteq> Parked" "w = Ended \<longrightarrow> pl_finished p"
  shows "pool_inv (set_thread i w p)"
proof -
  have "w \<in> set ((pl_threads p)[i := w])" using assms(2) by (rule set_update_memI)
  then show ?thesis
    using assms set_update_subset_insert [of "pl_threads p" i w] by (auto simp: pool_inv_def split: if_splits)
qed

lemma worker_turn_inv: "pool_inv p \<Longrightarrow> pool_inv (worker_turn i p)"
proof (cases "i < length (pl_threads p) \<and> pl_threads p ! i = Lock_wait \<and> \<not> pl_finished p")
  case True
  assume p: "pool_inv p"
  show ?thesis
  proof (cases "pl_requests p")
    case Nil
    then show ?thesis
      using True p set_update_subset_insert [of "pl_threads p" i Parked] by (auto simp: worker_turn_def pool_inv_def)
  next
    case (Cons req rest)
    then show ?thesis
      using True p update_inv [OF p, of i "Executing req"] by (auto simp: worker_turn_def pool_inv_def)
  qed
next
  case False
  assume "pool_inv p"
  then show ?thesis
    using False update_inv [of p i] by (auto simp: worker_turn_def split: worker.splits)
qed

lemma pool_step_inv: "pool_inv p \<Longrightarrow> pool_inv (pool_step e p)"
proof (cases e)
  case (Schedule k req)
  assume "pool_inv p"
  then show ?thesis
    using notify_one_awake [of "pl_threads p" k] notify_one_set [of k "pl_threads p"]
    by (auto simp: Schedule pool_schedule_request_def pool_inv_def notify_one_def split: if_splits)
next
  case Stop
  then show "pool_inv p \<Longrightarrow> ?thesis" by (auto simp: pool_server_stopped_def pool_inv_def notify_all_def split: if_splits)
next
  case (Spurious i)
  then show "pool_inv p \<Longrightarrow> ?thesis" using update_inv [of p i Lock_wait] by (simp add: spurious_wakeup_def)
qed (simp add: worker_turn_inv)

lemma pool_ctor_inv [simp]: "pool_inv (pool_ctor n)"
  by (simp add: pool_ctor_def pool_inv_def)

lemma pool_step_length [simp]: "length (pl_threads (pool_step e p)) = length (pl_threads p)"
  by (cases e) (auto simp: pool_schedule_request_def pool_server_stopped_def notify_all_def worker_turn_def
      spurious_wakeup_def split: worker.splits list.splits)

lemma pool_run_length [simp]: "length (pl_threads (fold pool_step es p)) = length (pl_threads p)"
  by (induction es arbitrary: p) simp_all

section \<open>Progress of the pool\<close>

fun end_rank :: "'r worker \<Rightarrow> nat" where
  "end_rank (Executing _) = 2"
| "end_rank Ended = 0"
| "end_rank _ = 1"

lemma finished_stays: "pl_finished p \<Longrightarrow> pl_finished (pool_step e p)"
  by (cases e) (auto simp: pool_schedule_request_def pool_server_stopped_def worker_turn_def spurious_wakeup_def
      split: worker.splits list.splits)

lemma finished_thread:
  assumes "pool_inv p" "pl_finished p" "i < length (pl_threads p)"
  shows "pl_threads (pool_step e p) ! i =
    (if e = Turn i then case pl_threads p ! i of Executing _ \<Rightarrow> Loop_test | _ \<Rightarrow> Ended else pl_threads p ! i)"
proof -
  have "pl_threads p ! j \<noteq> Parked" if "j < length (pl_threads p)" for j
    using assms(1,2) nth_mem [OF that] by (auto simp: pool_inv_def)
  then show ?thesis
    using assms by (cases e) (auto simp: pool_schedule_request_def pool_server_stopped_def notify_all_def worker_turn_def
        spurious_wakeup_def nth_list_update split: worker.splits)
qed

interpretation ending: ranked pool_step "\<lambda>p. pool_inv p \<and> pl_finished p \<and> i < length (pl_threads p)"
    "\<lambda>p. end_rank (pl_threads p ! i)" "\<lambda>e. e = Turn i" for i
proof
  fix p :: "'r pool" and e
  assume p: "pool_inv p \<and> pl_finished p \<and> i < length (pl_threads p)"
  show "pool_inv (pool_step e p) \<and> pl_finished (pool_step e p) \<and> i < length (pl_threads (pool_step e p))"
    using p by (simp add: pool_step_inv finished_stays)
  note t = finished_thread [OF conjunct1 [OF p], of i e]
  show "end_rank (pl_threads (pool_step e p) ! i) \<le> end_rank (pl_threads p ! i)"
    using p t by (auto split: worker.splits)
  show "e = Turn i \<Longrightarrow> 0 < end_rank (pl_threads p ! i) \<Longrightarrow> end_rank (pl_threads (pool_step e p) ! i) < end_rank (pl_threads p ! i)"
    using p t by (auto split: worker.splits)
qed

text \<open>The next request is taken after at most three turns of a thread that is not in the wait.\<close>

fun take_rank :: "'r worker \<Rightarrow> nat" where
  "take_rank (Executing _) = 3"
| "take_rank Loop_test = 2"
| "take_rank Lock_wait = 1"
| "take_rank _ = 0"

lemma turn_queue: "length (pl_requests (worker_turn j p)) \<le> length (pl_requests p)"
  by (auto simp: worker_turn_def split: worker.splits list.splits)

lemma turn_running: "\<not> pl_finished p \<Longrightarrow> \<not> pl_finished (worker_turn j p)"
  by (auto simp: worker_turn_def split: worker.splits list.splits)

lemma turn_thread:
  assumes "\<not> pl_finished p" "pl_requests p \<noteq> []" "i < length (pl_threads p)" "length (pl_requests (worker_turn j p)) = length (pl_requests p)"
  shows "pl_threads (worker_turn j p) ! i =
    (if j = i then case pl_threads p ! i of Executing _ \<Rightarrow> Loop_test | Loop_test \<Rightarrow> Lock_wait | w \<Rightarrow> w else pl_threads p ! i)"
    "j = i \<Longrightarrow> pl_threads p ! i \<noteq> Lock_wait"
  using assms by (auto simp: worker_turn_def nth_list_update split: worker.splits list.splits)

interpretation taking: ranked worker_turn
    "\<lambda>p. pool_inv p \<and> \<not> pl_finished p \<and> i < length (pl_threads p) \<and>
       length (pl_requests p) \<le> Suc m \<and> (length (pl_requests p) = Suc m \<longrightarrow> pl_threads p ! i \<noteq> Parked)"
    "\<lambda>p. if length (pl_requests p) \<le> m then 0 else take_rank (pl_threads p ! i)" "\<lambda>j. j = i" for i m
proof
  fix p :: "'r pool" and j
  assume p: "pool_inv p \<and> \<not> pl_finished p \<and> i < length (pl_threads p) \<and>
       length (pl_requests p) \<le> Suc m \<and> (length (pl_requests p) = Suc m \<longrightarrow> pl_threads p ! i \<noteq> Parked)"
  let ?p = "worker_turn j p" and ?rank = "\<lambda>p. if length (pl_requests p) \<le> m then 0 else take_rank (pl_threads p ! i)"
  have l: "length (pl_threads ?p) = length (pl_threads p)" using pool_step_length [of "Turn j" p] by simp
  have q: "length (pl_requests ?p) \<le> length (pl_requests p)" by (rule turn_queue)
  have full: "pl_threads ?p ! i = (if j = i then case pl_threads p ! i of Executing _ \<Rightarrow> Loop_test | Loop_test \<Rightarrow> Lock_wait | w \<Rightarrow> w
      else pl_threads p ! i)" "j = i \<Longrightarrow> pl_threads p ! i \<noteq> Lock_wait" "length (pl_requests p) = Suc m"
    if "length (pl_requests ?p) = Suc m"
  proof -
    show "length (pl_requests p) = Suc m" using that p q by simp
    then have "pl_requests p \<noteq> []" by auto
    then show "pl_threads ?p ! i = (if j = i then case pl_threads p ! i of Executing _ \<Rightarrow> Loop_test | Loop_test \<Rightarrow> Lock_wait | w \<Rightarrow> w
      else pl_threads p ! i)" "j = i \<Longrightarrow> pl_threads p ! i \<noteq> Lock_wait"
      using turn_thread [of p i j] p that \<open>length (pl_requests p) = Suc m\<close> by simp_all
  qed
  show "pool_inv ?p \<and> \<not> pl_finished ?p \<and> i < length (pl_threads ?p) \<and>
       length (pl_requests ?p) \<le> Suc m \<and> (length (pl_requests ?p) = Suc m \<longrightarrow> pl_threads ?p ! i \<noteq> Parked)"
    using p q l full by (auto simp: worker_turn_inv turn_running split: worker.splits if_splits)
  have "pl_threads p ! i \<in> set (pl_threads p)" using p by simp
  then have e: "pl_threads p ! i \<noteq> Ended" using p by (metis pool_inv_def)
  show "?rank ?p \<le> ?rank p"
    using p q full by (cases "length (pl_requests ?p) = Suc m") (auto split: worker.splits)
  show "j = i \<Longrightarrow> 0 < ?rank p \<Longrightarrow> ?rank ?p < ?rank p"
    using p q e full by (cases "length (pl_requests ?p) = Suc m") (auto split: worker.splits if_splits)
qed

lemma pool_run_inv: "pool_inv p \<Longrightarrow> pool_inv (fold pool_step es p)"
  by (induction es arbitrary: p) (simp_all add: pool_step_inv)

lemma turns_are_steps: "fold worker_turn ts p = fold pool_step (map Turn ts) p"
  by (induction ts arbitrary: p) simp_all

lemma turns_running: "\<not> pl_finished p \<Longrightarrow> \<not> pl_finished (fold worker_turn ts p)"
  by (induction ts arbitrary: p) (simp_all add: turn_running)

lemma turns_queue: "length (pl_requests (fold worker_turn ts p)) \<le> length (pl_requests p)"
proof (induction ts arbitrary: p)
  case (Cons t ts)
  then show ?case using turn_queue [of t p] by (auto intro: le_trans)
qed simp

lemma round_takes:
  assumes "pool_inv p" "\<not> pl_finished p" "\<forall>i < length (pl_threads p). 3 \<le> length (filter (\<lambda>j. j = i) ts)"
  shows "length (pl_requests (fold worker_turn ts p)) \<le> length (pl_requests p) - 1"
proof (cases "pl_requests p = []")
  case True
  then show ?thesis using turns_queue [of ts p] by simp
next
  case False
  then obtain m where m: "length (pl_requests p) = Suc m" by (cases "pl_requests p") auto
  obtain i where i: "i < length (pl_threads p)" "pl_threads p ! i \<noteq> Parked"
    using assms(1,2) False by (auto simp: pool_inv_def in_set_conv_nth)
  have "take_rank (pl_threads p ! i) \<le> 3" by (cases "pl_threads p ! i") simp_all
  then have r: "(if length (pl_requests p) \<le> m then 0 else take_rank (pl_threads p ! i)) \<le> length (filter (\<lambda>j. j = i) ts)"
    using assms(3) i(1) le_trans by auto
  let ?p = "fold worker_turn ts p"
  have inv: "pool_inv p \<and> \<not> pl_finished p \<and> i < length (pl_threads p) \<and> length (pl_requests p) \<le> Suc m \<and>
      (length (pl_requests p) = Suc m \<longrightarrow> pl_threads p ! i \<noteq> Parked)"
    using assms(1,2) i m by simp
  note z = taking.rank_zero [OF inv r] and v = taking.inv_run [OF inv, of ts]
  have "length (pl_requests ?p) \<noteq> Suc m"
  proof
    assume f: "length (pl_requests ?p) = Suc m"
    then have "pl_threads ?p ! i = Ended" using z v by (cases "pl_threads ?p ! i") auto
    moreover have "pl_threads ?p ! i \<in> set (pl_threads ?p)" using v by simp
    ultimately show False using v by (metis pool_inv_def)
  qed
  then show ?thesis using v m by simp
qed

lemma rounds_take:
  assumes "pool_inv p" "\<not> pl_finished p" "length (pl_requests p) \<le> length rounds"
    "\<forall>ts \<in> set rounds. \<forall>i < length (pl_threads p). 3 \<le> length (filter (\<lambda>j. j = i) ts)"
  shows "pl_requests (fold worker_turn (concat rounds) p) = []"
  using assms
proof (induction rounds arbitrary: p)
  case (Cons ts rounds)
  let ?p = "fold worker_turn ts p"
  have "pool_inv ?p" "length (pl_threads ?p) = length (pl_threads p)"
    using pool_run_inv [OF Cons.prems(1)] by (simp_all add: turns_are_steps)
  moreover have "length (pl_requests ?p) \<le> length rounds"
    using round_takes [OF Cons.prems(1,2), of ts] Cons.prems(3,4) by simp
  ultimately have "pl_requests (fold worker_turn (concat rounds) ?p) = []"
    using Cons.prems(2,4) by (intro Cons.IH) (simp_all add: turns_running)
  then show ?case by simp
qed simp

section \<open>Properties of the pool\<close>

text \<open>
  Whatever the order of events, the requests that workers took and those still queued are exactly the
  accepted ones, in order; while the pool runs and has a request, some worker is not in the wait, so no
  wake-up is lost; and the requests are the queue of the sequential server.
\<close>

theorem pool_keeps_requests:
  fixes es :: "('i, 'g) RequestContext pool_event list" and n :: nat
  defines "p \<equiv> fold pool_step es (pool_ctor n)"
  shows "pl_accepted p = pl_taken p @ pl_requests p \<and>
    (pl_requests p \<noteq> [] \<and> \<not> pl_finished p \<longrightarrow> (\<exists>w \<in> set (pl_threads p). w \<noteq> Parked \<and> w \<noteq> Ended)) \<and>
    (pl_finished p \<longrightarrow> Parked \<notin> set (pl_threads p)) \<and>
    pool_view (pool_schedule_request k req p) sv = schedule_request req (pool_view p sv)"
proof -
  have "pool_inv p" by (simp add: p_def pool_run_inv)
  then show ?thesis unfolding pool_schedule_refines by (auto simp: pool_inv_def split: if_splits)
qed

text \<open>
C11: A running pool serves its whole queue: if each worker gets three turns in each of as many rounds as there
  are requests, in any order, all of them have been taken, in the order in which they were accepted.
\<close>

theorem pool_serves_queue:
  assumes "\<not> pl_finished (fold pool_step es (pool_ctor n))"
    and "length (pl_requests (fold pool_step es (pool_ctor n))) \<le> length rounds"
    and "\<forall>ts \<in> set rounds. \<forall>i < max 1 n. 3 \<le> length (filter (\<lambda>j. j = i) ts)"
  defines "p \<equiv> fold worker_turn (concat rounds) (fold pool_step es (pool_ctor n))"
  shows "pl_requests p = [] \<and> pl_taken p = pl_accepted (fold pool_step es (pool_ctor n))"
proof -
  let ?q = "fold pool_step es (pool_ctor n)"
  have n: "length (pl_threads ?q) = max 1 n" by (simp add: pool_ctor_def)
  have e: "pl_requests p = []"
    unfolding p_def by (rule rounds_take [OF _ assms(1,2)]) (use assms(3) n in \<open>simp_all add: pool_run_inv\<close>)
  have "pl_accepted (fold worker_turn ts q) = pl_accepted q" for ts and q :: "'a pool"
    by (induction ts arbitrary: q) (simp_all add: worker_turn_def split: worker.splits list.splits)
  moreover have "pool_inv p" by (simp add: p_def turns_are_steps pool_run_inv)
  ultimately show ?thesis using e by (simp add: pool_inv_def p_def)
qed

theorem pool_serves_queue_witness:
  "let q = fold pool_step [Turn 0, Turn 0, Schedule 0 ''a'', Schedule 0 ''b''] (pool_ctor 1);
       p = fold worker_turn (concat [[0, 0, 0], [0, 0, 0]]) q in pl_requests p = [] \<and> pl_taken p = pl_accepted q"
  unfolding Let_def
  by (rule pool_serves_queue) (simp_all add: pool_ctor_def worker_turn_def pool_schedule_request_def notify_one_def parked_def)

text \<open>
C12: A stopped pool joins: whatever was happening, once the pool is stopped and every worker has had two turns,
  in any order and with any other events in between, all of them have ended.
\<close>

theorem pool_joins:
  assumes "\<forall>i < max 1 n. 2 \<le> length (filter (\<lambda>e. e = Turn i) es')"
  shows "pool_joined (fold pool_step es' (pool_server_stopped (fold pool_step es (pool_ctor n))))"
proof -
  let ?q = "pool_server_stopped (fold pool_step es (pool_ctor n))"
  have q: "pool_inv ?q" using pool_step_inv [OF pool_run_inv [OF pool_ctor_inv], of Stop] by simp
  have n: "length (pl_threads ?q) = max 1 n" by (simp add: pool_ctor_def pool_server_stopped_def notify_all_def)
  have "pl_threads (fold pool_step es' ?q) ! i = Ended" if i: "i < max 1 n" for i
  proof -
    have inv: "pool_inv ?q \<and> pl_finished ?q \<and> i < length (pl_threads ?q)" using q n i by (simp add: pool_server_stopped_def)
    have "end_rank (pl_threads ?q ! i) \<le> 2" by (cases "pl_threads ?q ! i") simp_all
    then have "end_rank (pl_threads (fold pool_step es' ?q) ! i) = 0"
      using assms i by (intro ending.rank_zero [OF inv]) (meson le_trans)
    then show ?thesis by (cases "pl_threads (fold pool_step es' ?q) ! i") simp_all
  qed
  then show ?thesis using n by (simp add: pool_joined_def list_all_length)
qed

theorem pool_joins_witness:
  "pool_joined (fold pool_step [Turn 1, Turn 0, Spurious 0, Turn 0, Turn 1] (pool_server_stopped (fold pool_step [Turn 0, Schedule 0 ''a''] (pool_ctor 2))))"
  by (rule pool_joins) (auto simp: less_Suc_eq numeral_2_eq_2)

section \<open>Taking requests\<close>

text \<open>
  \<open>take_from\<close>: a request is taken and the data of its writer are looked up.  The second part of an entry is
  whether Fast DDS knows the writer at that moment; the result is the return code.
\<close>

definition take_from :: "('i, 'g) RequestContext \<times> bool \<Rightarrow> ('i, 'g) RequestContext option" where
  "take_from entry = (if snd entry then Some (fst entry) else None)"

text \<open>The inner loop of \<open>run\<close> on what the reader holds; what is left stays in the reader.\<close>

fun take_requests ::
  "(('i::linorder, 'g) RequestContext \<times> bool) list \<Rightarrow> ('i, 'g) RequestsServerLogic
     \<Rightarrow> ('i, 'g) RequestsServerLogic \<times> (('i, 'g) RequestContext \<times> bool) list" where
  "take_requests [] sv = (sv, [])"
| "take_requests (entry # rest) sv =
     (case take_from entry of Some ctx \<Rightarrow> take_requests rest (take_one ctx sv) | None \<Rightarrow> (sv, rest))"

lemma take_requests_known:
  "list_all snd entries \<Longrightarrow> take_requests entries sv = (fold take_one (map fst entries) sv, [])"
  by (induction entries arbitrary: sv) (auto simp: take_from_def)

text \<open>
  A request whose writer Fast DDS does not know is taken out of the reader and dropped: it is neither
  queued nor answered, and the requests behind it wait for the next wake-up.
\<close>

theorem unknown_writer_dropped:
  assumes "list_all snd before"
  shows "take_requests (before @ (ctx, False) # after) sv = (fst (take_requests before sv), after)"
  using assms by (induction before arbitrary: sv) (auto simp: take_from_def)

theorem unknown_writer_dropped_witness:
  "take_requests ([] @ (context_of OpRead \<lparr>protobuf = []\<rparr> (0 :: nat) (), False) # []) server_initial =
     (fst (take_requests [] server_initial), [])"
  by (rule unknown_writer_dropped) simp

text \<open>\<open>execute_request\<close> on a pointer to the base class.\<close>

definition execute_request_base ::
  "('g, 'h) implementation \<Rightarrow> ('g, 'h) implementation \<Rightarrow> ('i, 'g) RequestContext option
     \<Rightarrow> ('i, 'g) RequestsServerLogic \<times> 'h \<Rightarrow> ('i, 'g) RequestsServerLogic cpp \<times> 'h" where
  "execute_request_base impl_Read impl_Write request svh =
     (case request of
        Some ctx \<Rightarrow> execute_request impl_Read impl_Write ctx svh
      | None \<Rightarrow> (Inl (RuntimeError ''Invalid request context type''), snd svh))"

section \<open>Creation and end\<close>

datatype service_call = Delete_service_replier | Delete_service_requester | Delete_service

definition RequestsServerLogic_dtor :: "bool \<Rightarrow> bool \<Rightarrow> service_call list" where
  "RequestsServerLogic_dtor replier service =
     (if replier then [Delete_service_replier] else []) @ (if service then [Delete_service] else [])"

text \<open>The proxy that the factory function returns; its destructor stops the server.\<close>

definition create_RequestsServer :: "fastdds_env \<Rightarrow> nat \<Rightarrow> (('i, 'g) RequestsServerLogic \<times> ('i, 'g) RequestContext pool) cpp" where
  "create_RequestsServer env thread_pool_size =
     (case RequestsServerLogic_ctor env of Inl e \<Rightarrow> Inl e | Inr sv \<Rightarrow> Inr (sv, pool_ctor thread_pool_size))"

definition RequestsServerProxy_stop ::
  "('i, 'g) RequestsServerLogic \<times> ('i, 'g) RequestContext pool \<Rightarrow> ('i, 'g) RequestsServerLogic \<times> ('i, 'g) RequestContext pool" where
  "RequestsServerProxy_stop s = (server_stop (fst s), pool_server_stopped (snd s))"

definition RequestsServerProxy_dtor ::
  "(('i, 'g) RequestsServerLogic \<times> ('i, 'g) RequestContext pool) option
     \<Rightarrow> (('i, 'g) RequestsServerLogic \<times> ('i, 'g) RequestContext pool) option" where
  "RequestsServerProxy_dtor impl = map_option RequestsServerProxy_stop impl"

lemma stop_agrees: "pool_view (pool_server_stopped p) (server_stop sv) = server_stop (pool_view p sv)"
  by (simp add: pool_view_def pool_server_stopped_def server_stop_def)

text \<open>
  The destructor of a client.  Promises that are still pending are destroyed with the map, which breaks
  them: the result has their identities.
\<close>

definition RequestsClient_dtor :: "bool \<Rightarrow> bool \<Rightarrow> 'i RequestsClient \<Rightarrow> service_call list \<times> 'i list" where
  "RequestsClient_dtor requester service cl =
     ((if requester then [Delete_service_requester] else []) @ (if service then [Delete_service] else []),
      map fst (cl_pending cl))"

section \<open>The threads of a client\<close>

text \<open>
  A thread that calls \<open>Read\<close> or \<open>Write\<close>: before the mutex, holding it, and between \<open>send_request\<close> and the entry in
  the map.  The reply thread: waiting, with a reply but without the mutex, and with both.
\<close>

datatype 'i caller = Caller_start operation | Caller_locked operation | Caller_sent operation 'i bool | Caller_done

datatype 'i reply_thread = Reply_wait | Reply_taken 'i Requests_Reply | Reply_locked 'i Requests_Reply | Reply_ended

datatype mutex_state = Free | Held_by_caller nat | Held_by_reply_thread

text \<open>The last three fields are histories: identities given out, those of requests that were sent, and those
  a reply has arrived for.\<close>

record 'i client_threads =
  ct_client :: "'i RequestsClient"
  ct_mtx :: mutex_state
  ct_callers :: "'i caller list"
  ct_reply :: "'i reply_thread"
  ct_inbox :: "('i \<times> Requests_Reply) list"
  ct_stop_thread :: bool
  ct_used :: "'i set"
  ct_sent :: "'i set"
  ct_replied :: "'i set"

definition client_threads_initial :: "operation list \<Rightarrow> 'i client_threads" where
  "client_threads_initial ops = \<lparr>ct_client = client_initial, ct_mtx = Free, ct_callers = map Caller_start ops,
     ct_reply = Reply_wait, ct_inbox = [], ct_stop_thread = False, ct_used = {}, ct_sent = {}, ct_replied = {}\<rparr>"

text \<open>
  Fast DDS gives each request an identity that it has not used and no reply has named.  Any reply may
  arrive, addressed to this client or not.
\<close>

inductive client_reach :: "'i::linorder client_threads \<Rightarrow> bool" where
  start: "client_reach (client_threads_initial ops)"
| caller_lock: "client_reach s \<Longrightarrow> j < length (ct_callers s) \<Longrightarrow> ct_callers s ! j = Caller_start op \<Longrightarrow> ct_mtx s = Free \<Longrightarrow>
     client_reach (s\<lparr>ct_mtx := Held_by_caller j, ct_callers := (ct_callers s)[j := Caller_locked op]\<rparr>)"
| caller_send: "client_reach s \<Longrightarrow> j < length (ct_callers s) \<Longrightarrow> ct_callers s ! j = Caller_locked op \<Longrightarrow>
     i \<notin> ct_used s \<Longrightarrow> i \<notin> ct_replied s \<Longrightarrow>
     client_reach (s\<lparr>ct_callers := (ct_callers s)[j := Caller_sent op i ok], ct_used := insert i (ct_used s),
       ct_sent := (if ok then insert i (ct_sent s) else ct_sent s)\<rparr>)"
| caller_enter: "client_reach s \<Longrightarrow> j < length (ct_callers s) \<Longrightarrow> ct_callers s ! j = Caller_sent op i ok \<Longrightarrow>
     client_reach (s\<lparr>ct_client := send_request_with_promise ok i op (ct_client s), ct_mtx := Free,
       ct_callers := (ct_callers s)[j := Caller_done]\<rparr>)"
| reply_arrives: "client_reach s \<Longrightarrow>
     client_reach (s\<lparr>ct_inbox := ct_inbox s @ [(i, r)], ct_replied := insert i (ct_replied s)\<rparr>)"
| reply_take: "client_reach s \<Longrightarrow> ct_reply s = Reply_wait \<Longrightarrow> \<not> ct_stop_thread s \<Longrightarrow> ct_inbox s = (i, r) # rest \<Longrightarrow>
     client_reach (s\<lparr>ct_inbox := rest, ct_reply := Reply_taken i r\<rparr>)"
| reply_lock: "client_reach s \<Longrightarrow> ct_reply s = Reply_taken i r \<Longrightarrow> ct_mtx s = Free \<Longrightarrow>
     client_reach (s\<lparr>ct_mtx := Held_by_reply_thread, ct_reply := Reply_locked i r\<rparr>)"
| reply_process: "client_reach s \<Longrightarrow> ct_reply s = Reply_locked i r \<Longrightarrow>
     client_reach (s\<lparr>ct_client := client_process_reply i r (ct_client s), ct_mtx := Free, ct_reply := Reply_wait\<rparr>)"
| stop_thread: "client_reach s \<Longrightarrow> client_reach (s\<lparr>ct_stop_thread := True\<rparr>)"
| reply_end: "client_reach s \<Longrightarrow> ct_reply s = Reply_wait \<Longrightarrow> ct_stop_thread s \<Longrightarrow> client_reach (s\<lparr>ct_reply := Reply_ended\<rparr>)"

section \<open>No reply is lost\<close>

fun critical :: "'i caller \<Rightarrow> bool" where
  "critical (Caller_locked _) = True"
| "critical (Caller_sent _ _ _) = True"
| "critical _ = False"

definition client_ids :: "'i RequestsClient \<Rightarrow> 'i set" where
  "client_ids cl = fst ` set (cl_pending cl) \<union> fst ` set (cl_resolved cl)"

definition resolved_ids :: "'i RequestsClient \<Rightarrow> 'i set" where
  "resolved_ids cl = fst ` set (cl_resolved cl)"

fun reply_id :: "'i reply_thread \<Rightarrow> 'i set" where
  "reply_id (Reply_taken i _) = {i}"
| "reply_id (Reply_locked i _) = {i}"
| "reply_id _ = {}"

lemma ids_after_send:
  "client_ids (send_request_with_promise ok i op cl) = insert i (client_ids cl)"
  "resolved_ids cl \<subseteq> resolved_ids (send_request_with_promise ok i op cl)"
  using fst_set_smap_assign [of i op "cl_pending cl"]
  by (auto simp: client_ids_def resolved_ids_def send_request_with_promise_def resolve_def)

lemma ids_after_reply:
  "client_ids (client_process_reply i r cl) = client_ids cl"
  "resolved_ids (client_process_reply i r cl) = resolved_ids cl \<union> ({i} \<inter> client_ids cl)"
proof -
  have e: "fst ` set (smap_erase i (cl_pending cl)) = fst ` set (cl_pending cl) - {i}" by (auto simp: smap_erase_def)
  have "i \<in> fst ` set (cl_pending cl) \<longleftrightarrow> smap_find (cl_pending cl) i \<noteq> None" by (simp add: smap_find_None_iff)
  with e show "client_ids (client_process_reply i r cl) = client_ids cl"
    "resolved_ids (client_process_reply i r cl) = resolved_ids cl \<union> ({i} \<inter> client_ids cl)"
    by (auto simp: client_ids_def resolved_ids_def client_process_reply_def resolve_def split: option.splits)
qed

text \<open>Who is between taking and releasing the mutex holds it.\<close>

lemma reach_locks:
  "client_reach s \<Longrightarrow> (\<forall>j < length (ct_callers s). critical (ct_callers s ! j) \<longrightarrow> ct_mtx s = Held_by_caller j) \<and>
     (\<forall>i r. ct_reply s = Reply_locked i r \<longrightarrow> ct_mtx s = Held_by_reply_thread)"
proof (induction rule: client_reach.induct)
  case (caller_enter s j op i ok)
  have h: "critical (ct_callers s ! k) \<longrightarrow> ct_mtx s = Held_by_caller k" if "k < length (ct_callers s)" for k
    using caller_enter.IH that by blast
  have "ct_mtx s = Held_by_caller j" using h [OF caller_enter.hyps(2)] by (simp add: caller_enter.hyps(3))
  moreover from this have "ct_reply s \<noteq> Reply_locked i' r" for i' r using caller_enter.IH by force
  moreover have "\<not> critical ((ct_callers s)[j := Caller_done] ! k)" if "k < length (ct_callers s)" for k
    using h [OF that] calculation(1) caller_enter.hyps(2) by (cases "k = j") auto
  ultimately show ?case by simp
next
  case (caller_send s j op i ok)
  have "critical ((ct_callers s)[j := Caller_sent op i ok] ! k) \<longrightarrow> critical (ct_callers s ! k)" for k
    using caller_send.hyps(2,3) by (cases "k = j") simp_all
  then show ?case using caller_send.IH by simp
next
  case (caller_lock s j op)
  then show ?case by (simp add: nth_list_update)
qed (auto simp: client_threads_initial_def nth_list_update)

lemma critical_unique:
  assumes "client_reach s" "j < length (ct_callers s)" "critical (ct_callers s ! j)" "c \<in> set (ct_callers s)" "critical c"
  shows "c = ct_callers s ! j"
proof -
  obtain k where k: "k < length (ct_callers s)" "ct_callers s ! k = c" using assms(4) by (auto simp: in_set_conv_nth)
  then have "Held_by_caller k = Held_by_caller j" using reach_locks [OF assms(1)] assms(2,3,5) by metis
  then show ?thesis using k by simp
qed

lemma sent_elsewhere:
  assumes "client_reach s" "j < length (ct_callers s)" "\<not> critical (ct_callers s ! j) \<or> (\<forall>op i ok. ct_callers s ! j \<noteq> Caller_sent op i ok)"
    "\<forall>op i ok. x \<noteq> Caller_sent op i ok"
  shows "Caller_sent op i ok \<in> set ((ct_callers s)[j := x]) \<longleftrightarrow> Caller_sent op i ok \<in> set (ct_callers s)"
proof
  assume "Caller_sent op i ok \<in> set (ct_callers s)"
  then obtain k where "k < length (ct_callers s)" "ct_callers s ! k = Caller_sent op i ok" by (auto simp: in_set_conv_nth)
  moreover from this assms(3) have "k \<noteq> j" by auto
  ultimately show "Caller_sent op i ok \<in> set ((ct_callers s)[j := x])"
    by (metis length_list_update nth_list_update_neq nth_mem)
qed (use assms(4) set_update_subset_insert [of "ct_callers s" j x] in auto)

definition ids_inv :: "'i::linorder client_threads \<Rightarrow> bool" where
  "ids_inv s \<longleftrightarrow>
     client_run (ct_client s) \<and> client_ids (ct_client s) \<union> ct_sent s \<subseteq> ct_used s \<and>
     (\<forall>op i ok. Caller_sent op i ok \<in> set (ct_callers s) \<longrightarrow> i \<in> ct_used s \<and> i \<notin> client_ids (ct_client s)) \<and>
     (\<forall>i \<in> ct_sent s. i \<in> client_ids (ct_client s) \<or> (\<exists>op. Caller_sent op i True \<in> set (ct_callers s))) \<and>
     (\<forall>i \<in> ct_sent s \<inter> ct_replied s. i \<in> resolved_ids (ct_client s) \<or> i \<in> fst ` set (ct_inbox s) \<or> i \<in> reply_id (ct_reply s))"

lemma sent_after_send:
  assumes "client_reach s" "j < length (ct_callers s)" "ct_callers s ! j = Caller_locked op"
  shows "Caller_sent op' i' ok' \<in> set ((ct_callers s)[j := Caller_sent op i ok]) \<longleftrightarrow> op' = op \<and> i' = i \<and> ok' = ok"
proof -
  have "Caller_sent op' i' ok' \<notin> set (ct_callers s)" using critical_unique [OF assms(1,2)] assms(3) by fastforce
  then show ?thesis
    using set_update_subset_insert [of "ct_callers s" j "Caller_sent op i ok"] set_update_memI [OF assms(2), of "Caller_sent op i ok"] by blast
qed

lemma sent_after_enter:
  assumes "client_reach s" "j < length (ct_callers s)" "ct_callers s ! j = Caller_sent op i ok"
  shows "Caller_sent op' i' ok' \<notin> set ((ct_callers s)[j := Caller_done])"
    "Caller_sent op' i' ok' \<in> set (ct_callers s) \<longleftrightarrow> op' = op \<and> i' = i \<and> ok' = ok"
proof -
  show u: "Caller_sent op' i' ok' \<in> set (ct_callers s) \<longleftrightarrow> op' = op \<and> i' = i \<and> ok' = ok"
    using critical_unique [OF assms(1,2), of "Caller_sent op' i' ok'"] assms(3) nth_mem [OF assms(2)] by auto
  have "ct_callers s ! k \<noteq> Caller_sent op' i' ok'" if "k < length (ct_callers s)" "k \<noteq> j" for k
    using reach_locks [OF assms(1)] assms(2,3) that by (metis critical.simps(2) mutex_state.inject)
  then show "Caller_sent op' i' ok' \<notin> set ((ct_callers s)[j := Caller_done])"
    using assms(2) by (auto simp: in_set_conv_nth nth_list_update split: if_splits)
qed

lemma reach_ids: "client_reach s \<Longrightarrow> ids_inv s"
proof (induction rule: client_reach.induct)
  case (start ops)
  then show ?case
    using client_run.start by (auto simp: ids_inv_def client_threads_initial_def client_ids_def resolved_ids_def client_initial_def)
next
  case (caller_lock s j op)
  then show ?case using sent_elsewhere [OF caller_lock(1,2), of "Caller_locked op"] by (simp add: ids_inv_def)
next
  case (caller_send s j op i ok)
  then have f: "i \<notin> client_ids (ct_client s)" "\<And>op' i' ok'. Caller_sent op' i' ok' \<notin> set (ct_callers s)"
    using critical_unique [OF caller_send(1,2)] by (fastforce simp: ids_inv_def)+
  show ?case
    using caller_send f by (auto simp: ids_inv_def sent_after_send [OF caller_send(1-3)])
next
  case (caller_enter s j op i ok)
  note e = sent_after_enter [OF caller_enter(1-3)]
  have i: "i \<in> ct_used s" "i \<notin> client_ids (ct_client s)" using caller_enter.IH by (auto simp: ids_inv_def e)
  then have "client_run (send_request_with_promise ok i op (ct_client s))"
    using caller_enter.IH by (intro client_run.send) (auto simp: ids_inv_def client_ids_def)
  then show ?case
    using caller_enter.IH i ids_after_send(2) [of "ct_client s" ok i op] by (auto simp: ids_inv_def e ids_after_send(1))
next
  case (reply_process s i r)
  have "Caller_sent op k ok \<notin> set (ct_callers s)" for op k ok
    using reach_locks [OF reply_process(1)] reply_process(2) by (auto simp: in_set_conv_nth)
  then show ?case
    using reply_process client_run.receive [of "ct_client s" i r] by (auto simp: ids_inv_def ids_after_reply)
next
  case (reply_take s i r rest)
  then show ?case by (auto simp: ids_inv_def)
qed (auto simp: ids_inv_def)

text \<open>
C10: Every reply that reaches a client resolves the promise of its request, whatever the interleaving of
  sending threads and reply thread: when the reader is empty and the reply thread waits, every request that
  was sent and for which a reply arrived is resolved, once.
\<close>

theorem no_reply_lost:
  assumes "client_reach s" "ct_inbox s = []" "ct_reply s = Reply_wait" "i \<in> ct_sent s" "i \<in> ct_replied s"
  shows "\<exists>!v. (i, v) \<in> set (cl_resolved (ct_client s))"
proof -
  have "i \<in> resolved_ids (ct_client s)" "client_run (ct_client s)"
    using reach_ids [OF assms(1)] assms(2-) by (auto simp: ids_inv_def)
  then show ?thesis
    using client_run_inv [of "ct_client s"] eq_key_imp_eq_value [of "cl_resolved (ct_client s)" i] by (auto simp: resolved_ids_def)
qed

theorem no_reply_lost_witness:
  "\<exists>s :: nat client_threads. client_reach s \<and> ct_sent s = {7} \<and> ct_replied s = {7} \<and> (\<exists>!v. (7, v) \<in> set (cl_resolved (ct_client s)))"
proof (intro exI conjI)
  let ?s0 = "client_threads_initial [OpRead] :: nat client_threads"
  let ?s1 = "?s0\<lparr>ct_mtx := Held_by_caller 0, ct_callers := (ct_callers ?s0)[0 := Caller_locked OpRead]\<rparr>"
  let ?s2 = "?s1\<lparr>ct_callers := (ct_callers ?s1)[0 := Caller_sent OpRead 7 True], ct_used := insert 7 (ct_used ?s1),
    ct_sent := (if True then insert 7 (ct_sent ?s1) else ct_sent ?s1)\<rparr>"
  let ?s3 = "?s2\<lparr>ct_client := send_request_with_promise True 7 OpRead (ct_client ?s2), ct_mtx := Free, ct_callers := (ct_callers ?s2)[0 := Caller_done]\<rparr>"
  let ?s4 = "?s3\<lparr>ct_inbox := ct_inbox ?s3 @ [(7, RpcReply_default)], ct_replied := insert 7 (ct_replied ?s3)\<rparr>"
  let ?s5 = "?s4\<lparr>ct_inbox := [], ct_reply := Reply_taken 7 RpcReply_default\<rparr>"
  let ?s6 = "?s5\<lparr>ct_mtx := Held_by_reply_thread, ct_reply := Reply_locked 7 RpcReply_default\<rparr>"
  let ?s7 = "?s6\<lparr>ct_client := client_process_reply 7 RpcReply_default (ct_client ?s6), ct_mtx := Free, ct_reply := Reply_wait\<rparr>"
  have "client_reach ?s1" by (rule caller_lock [OF start]) (simp_all add: client_threads_initial_def)
  then have "client_reach ?s2" by (rule caller_send) (simp_all add: client_threads_initial_def)
  then have "client_reach ?s3" by (rule caller_enter) (simp_all add: client_threads_initial_def)
  then have "client_reach ?s4" by (rule reply_arrives)
  then have "client_reach ?s5" by (rule reply_take) (simp_all add: client_threads_initial_def)
  then have "client_reach ?s6" by (rule reply_lock) simp_all
  then show r: "client_reach ?s7" by (rule reply_process) simp
  show s: "ct_sent ?s7 = {7}" "ct_replied ?s7 = {7}" by (simp_all add: client_threads_initial_def)
  show "\<exists>!v. (7, v) \<in> set (cl_resolved (ct_client ?s7))"
    by (rule no_reply_lost [OF r]) (simp_all add: s client_threads_initial_def)
qed

end
