(* ===== verification/Rpc_Server.thy ===== *)
theory Rpc_Server
  imports Rpc_Threads "HOL-Library.Multiset"
begin

text \<open>
  The request server as a whole (\<open>idl/topics/requests/requestsServer.cxx\<close>): the thread in \<open>run\<close> that takes
  requests, the workers of the pool that execute them side by side, and \<open>stop\<close>, all interleaved.

  The step relation is cut where the code takes and releases a mutex or sends a reply: the reading thread
  admits a request under the mutex of the server and schedules it under the mutex of the pool, a worker sends
  the reply of its handler and then erases the entry of the request.  Handlers may take any time and end with
  any outcome, so replies leave in any order.

  Shown: whatever the interleaving, no request is answered twice, refused requests are answered when they are
  taken, every reply is what the handler of its own request did, workers start on requests in the order they
  were taken, and a running server that has nothing queued or executing has answered everything.
\<close>

section \<open>One request on a worker\<close>

text \<open>
  The reply that the outcome \<open>out\<close> of the handler of a request becomes; an error is one that no handler of
  the program catches.
\<close>

definition handler_reply :: "('i, 'g) RequestContext \<Rightarrow> rpc_exn + TransferData \<Rightarrow> Requests_Reply cpp" where
  "handler_reply ctx out =
     (if rq_Read (cx_request ctx) \<noteq> None then reply_of wrap_Read out
      else if rq_Write (cx_request ctx) \<noteq> None then reply_of wrap_Write out
      else Inr (RpcReply_default\<lparr>rr_remoteEx := Some REMOTE_EX_UNSUPPORTED\<rparr>))"

definition processing_erase ::
  "('i::linorder, 'g) RequestContext \<Rightarrow> ('i, 'g) RequestsServerLogic \<Rightarrow> ('i, 'g) RequestsServerLogic" where
  "processing_erase ctx sv = sv\<lparr>sv_processing_requests := smap_erase (cx_id ctx) (sv_processing_requests sv)\<rparr>"

text \<open>Executed without interruption, a request is a reply to its outcome and the erasure of its entry.\<close>

lemma execute_request_steps:
  assumes "execute_request impl_Read impl_Write ctx (sv, h) = (Inr sv', h')"
  shows "\<exists>out r. handler_reply ctx out = Inr r \<and> sv' = processing_erase ctx (send_reply ctx r sv)"
  using assms
  by (fastforce simp: execute_request_def finish_request_def handler_reply_def processing_erase_def Let_def
      split: option.splits prod.splits sum.splits)

section \<open>The threads of a server\<close>

datatype exec_phase = Handling | Replied | Erased

datatype ('i, 'g) reading_thread =
    Run_start
  | Run_wait
  | Run_loop
  | Run_admitted "('i, 'g) RequestContext"
  | Run_ended

text \<open>
  The queue is the one of the pool.  \<open>st_phase\<close> is how far a worker that executes a request has come;
  \<open>st_taken\<close> is a history: the requests that \<open>take_from\<close> returned, oldest first.
\<close>

record ('i, 'g) server_threads =
  st_logic :: "('i, 'g) RequestsServerLogic"
  st_pool :: "('i, 'g) RequestContext pool"
  st_phase :: "nat \<Rightarrow> exec_phase"
  st_reader :: "('i, 'g) reading_thread"
  st_taken :: "('i, 'g) RequestContext list"

definition server_threads_initial :: "nat \<Rightarrow> ('i, 'g) server_threads" where
  "server_threads_initial num_threads = \<lparr>st_logic = server_initial, st_pool = pool_ctor num_threads,
     st_phase = (\<lambda>_. Handling), st_reader = Run_start, st_taken = []\<rparr>"

text \<open>
  Fast DDS gives each request an identity of its own.  A worker that executes a request takes its next turn
  in the loop of the pool when the entry is erased.
\<close>

inductive server_reach :: "('i::linorder, 'g) server_threads \<Rightarrow> bool" where
  start: "server_reach (server_threads_initial num_threads)"
| run_begin: "server_reach s \<Longrightarrow> st_reader s = Run_start \<Longrightarrow>
     server_reach (s\<lparr>st_logic := (st_logic s)\<lparr>sv_finish_condition := False\<rparr>, st_reader := Run_wait\<rparr>)"
| run_wakes: "server_reach s \<Longrightarrow> st_reader s = Run_wait \<Longrightarrow>
     server_reach (s\<lparr>st_reader := (if sv_finish_condition (st_logic s) then Run_ended else Run_loop)\<rparr>)"
| run_refuse: "server_reach s \<Longrightarrow> st_reader s = Run_loop \<Longrightarrow> cx_id ctx \<notin> cx_id ` set (st_taken s) \<Longrightarrow> \<not> validate_request ctx \<Longrightarrow>
     server_reach (s\<lparr>st_logic := send_exception ctx REMOTE_EX_INVALID_ARGUMENT (st_logic s), st_taken := st_taken s @ [ctx]\<rparr>)"
| run_admit: "server_reach s \<Longrightarrow> st_reader s = Run_loop \<Longrightarrow> cx_id ctx \<notin> cx_id ` set (st_taken s) \<Longrightarrow> validate_request ctx \<Longrightarrow>
     server_reach (s\<lparr>st_logic := snd (admit_request ctx (st_logic s)),
       st_reader := (if fst (admit_request ctx (st_logic s)) then Run_admitted ctx else Run_loop), st_taken := st_taken s @ [ctx]\<rparr>)"
| run_schedule: "server_reach s \<Longrightarrow> st_reader s = Run_admitted ctx \<Longrightarrow>
     server_reach (s\<lparr>st_pool := pool_schedule_request k ctx (st_pool s), st_reader := Run_loop\<rparr>)"
| run_empty: "server_reach s \<Longrightarrow> st_reader s = Run_loop \<Longrightarrow> server_reach (s\<lparr>st_reader := Run_wait\<rparr>)"
| worker_goes: "server_reach s \<Longrightarrow> i < length (pl_threads (st_pool s)) \<Longrightarrow>
     (\<forall>ctx. pl_threads (st_pool s) ! i = Executing ctx \<longrightarrow> st_phase s i = Erased) \<Longrightarrow>
     server_reach (s\<lparr>st_pool := worker_turn i (st_pool s), st_phase := (st_phase s)(i := Handling)\<rparr>)"
| worker_replies: "server_reach s \<Longrightarrow> i < length (pl_threads (st_pool s)) \<Longrightarrow> pl_threads (st_pool s) ! i = Executing ctx \<Longrightarrow>
     st_phase s i = Handling \<Longrightarrow> handler_reply ctx out = Inr r \<Longrightarrow>
     server_reach (s\<lparr>st_logic := send_reply ctx r (st_logic s), st_phase := (st_phase s)(i := Replied)\<rparr>)"
| worker_erases: "server_reach s \<Longrightarrow> i < length (pl_threads (st_pool s)) \<Longrightarrow> pl_threads (st_pool s) ! i = Executing ctx \<Longrightarrow>
     st_phase s i = Replied \<Longrightarrow>
     server_reach (s\<lparr>st_logic := processing_erase ctx (st_logic s), st_phase := (st_phase s)(i := Erased)\<rparr>)"
| worker_spurious: "server_reach s \<Longrightarrow> server_reach (s\<lparr>st_pool := spurious_wakeup i (st_pool s)\<rparr>)"
| stop_trigger: "server_reach s \<Longrightarrow> server_reach (s\<lparr>st_logic := (st_logic s)\<lparr>sv_finish_condition := True\<rparr>\<rparr>)"
| stop_cancel: "server_reach s \<Longrightarrow> server_reach (s\<lparr>st_logic := (st_logic s)\<lparr>sv_processing_requests := []\<rparr>\<rparr>)"
| stop_pool: "server_reach s \<Longrightarrow> server_reach (s\<lparr>st_pool := pool_server_stopped (st_pool s)\<rparr>)"

text \<open>The two steps of taking a valid request, and the three of \<open>stop\<close>, are those of the sequential model.\<close>

lemma admit_then_schedule:
  assumes "validate_request ctx" "admit_request ctx sv = (sched, sv')"
  shows "take_one ctx sv = (if sched then schedule_request ctx sv' else sv')"
  using assms by (simp add: take_one_def process_request_def)

lemma stop_steps:
  "pool_view (pool_server_stopped p) (sv\<lparr>sv_finish_condition := True\<rparr>\<lparr>sv_processing_requests := []\<rparr>) = server_stop (pool_view p sv)"
  by (simp add: pool_view_def pool_server_stopped_def server_stop_def)

section \<open>What is in flight\<close>

fun executing :: "'r worker \<Rightarrow> 'r option" where
  "executing (Executing req) = Some req"
| "executing _ = None"

lemma executing_Some [simp]: "executing w = Some req \<longleftrightarrow> w = Executing req"
  by (cases w) simp_all

definition handling :: "('i, 'g) server_threads \<Rightarrow> nat \<Rightarrow> 'i multiset" where
  "handling s i =
     (if st_phase s i = Handling
      then case executing (pl_threads (st_pool s) ! i) of Some ctx \<Rightarrow> {#cx_id ctx#} | None \<Rightarrow> {#}
      else {#})"

definition in_flight :: "('i, 'g) server_threads \<Rightarrow> 'i multiset" where
  "in_flight s = (\<Sum>i<length (pl_threads (st_pool s)). handling s i)"

lemma in_flight_same:
  assumes "length (pl_threads (st_pool t)) = length (pl_threads (st_pool s))"
    and "\<And>j. j < length (pl_threads (st_pool s)) \<Longrightarrow> handling t j = handling s j"
  shows "in_flight t = in_flight s"
  using assms by (simp add: in_flight_def)

lemma in_flight_one:
  assumes "length (pl_threads (st_pool t)) = length (pl_threads (st_pool s))" "i < length (pl_threads (st_pool s))"
    and "\<And>j. j \<noteq> i \<Longrightarrow> handling t j = handling s j"
  shows "in_flight t + handling s i = in_flight s + handling t i"
proof -
  let ?n = "length (pl_threads (st_pool s))"
  have "(\<Sum>j\<in>{..<?n} - {i}. handling t j) = (\<Sum>j\<in>{..<?n} - {i}. handling s j)"
    using assms(3) by (intro sum.cong) auto
  then show ?thesis
    using assms(1,2) sum.remove [of "{..<?n}" i "handling s"] sum.remove [of "{..<?n}" i "handling t"]
    by (simp add: in_flight_def)
qed

lemma executing_notify_one: "j < length ws \<Longrightarrow> executing (notify_one k ws ! j) = executing (ws ! j)"
proof (cases "parked ws = []")
  case False
  then have "parked ws ! (k mod length (parked ws)) \<in> set (parked ws)" by simp
  then have "ws ! (parked ws ! (k mod length (parked ws))) = Parked" by (simp add: parked_index)
  then show "j < length ws \<Longrightarrow> ?thesis"
    using False by (cases "j = parked ws ! (k mod length (parked ws))") (simp_all add: notify_one_def)
qed (simp add: notify_one_def)

lemma executing_notify_all: "j < length ws \<Longrightarrow> executing (notify_all ws ! j) = executing (ws ! j)"
  by (simp add: notify_all_def)

lemma in_flight_steps:
  "in_flight (s\<lparr>st_pool := pool_schedule_request k ctx (st_pool s)\<rparr>) = in_flight s"
  "in_flight (s\<lparr>st_pool := spurious_wakeup i (st_pool s)\<rparr>) = in_flight s"
  "in_flight (s\<lparr>st_pool := pool_server_stopped (st_pool s)\<rparr>) = in_flight s"
  "in_flight (s\<lparr>st_logic := sv\<rparr>) = in_flight s"
  "in_flight (s\<lparr>st_reader := x\<rparr>) = in_flight s"
  "in_flight (s\<lparr>st_taken := taken\<rparr>) = in_flight s"
  by (rule in_flight_same; auto simp: handling_def pool_schedule_request_def pool_server_stopped_def spurious_wakeup_def
      executing_notify_one executing_notify_all nth_list_update notify_all_def)+

lemma in_flight_turn:
  assumes "i < length (pl_threads (st_pool s))" "\<forall>ctx. pl_threads (st_pool s) ! i = Executing ctx \<longrightarrow> st_phase s i = Erased"
  shows "in_flight (s\<lparr>st_pool := worker_turn i (st_pool s), st_phase := (st_phase s)(i := Handling)\<rparr>) + mset (map cx_id (pl_taken (st_pool s))) =
    in_flight s + mset (map cx_id (pl_taken (worker_turn i (st_pool s))))"
proof -
  let ?p = "worker_turn i (st_pool s)"
  let ?t = "s\<lparr>st_pool := ?p, st_phase := (st_phase s)(i := Handling)\<rparr>"
  have o: "pl_threads ?p ! j = pl_threads (st_pool s) ! j" if "j \<noteq> i" for j
    using that by (auto simp: worker_turn_def split: worker.splits list.splits)
  have "in_flight ?t + handling s i = in_flight s + handling ?t i"
    using assms(1) pool_step_length [of "Turn i" "st_pool s"] by (intro in_flight_one) (auto simp: handling_def o)
  moreover have "handling s i = {#}" using assms(2) by (auto simp: handling_def split: option.splits)
  moreover have "handling ?t i + mset (map cx_id (pl_taken (st_pool s))) = mset (map cx_id (pl_taken ?p))"
    using assms(1) by (auto simp: handling_def worker_turn_def split: worker.splits list.splits)
  ultimately show ?thesis by (simp add: ac_simps)
qed

lemma in_flight_reply:
  assumes "i < length (pl_threads (st_pool s))" "pl_threads (st_pool s) ! i = Executing ctx" "st_phase s i = Handling"
  shows "add_mset (cx_id ctx) (in_flight (s\<lparr>st_logic := sv, st_phase := (st_phase s)(i := Replied)\<rparr>)) = in_flight s"
  using in_flight_one [of "s\<lparr>st_logic := sv, st_phase := (st_phase s)(i := Replied)\<rparr>" s i] assms by (simp add: handling_def)

lemma in_flight_erase:
  assumes "st_phase s i = Replied"
  shows "in_flight (s\<lparr>st_logic := sv, st_phase := (st_phase s)(i := Erased)\<rparr>) = in_flight s"
  using assms by (intro in_flight_same) (auto simp: handling_def)

section \<open>Nothing is lost or answered twice\<close>

text \<open>Identities are distinct, and the table has entries of taken requests only, so that all are admitted.\<close>

lemma admit_fresh:
  assumes "smap_find (sv_processing_requests sv) (cx_id ctx) = None" "validate_request ctx"
  shows "admit_request ctx sv = (True, sv\<lparr>sv_processing_requests := smap_assign (cx_id ctx) ctx (sv_processing_requests sv)\<rparr>)"
  using assms by (auto simp: admit_request_def prepare_context_def validate_request_def split: if_splits)

lemma reach_taken:
  "server_reach s \<Longrightarrow> distinct (map cx_id (st_taken s)) \<and>
     fst ` set (sv_processing_requests (st_logic s)) \<subseteq> cx_id ` set (st_taken s)"
proof (induction rule: server_reach.induct)
  case (run_admit s ctx)
  then have "smap_find (sv_processing_requests (st_logic s)) (cx_id ctx) = None"
    by (auto simp: smap_find_None_iff)
  from admit_fresh [OF this run_admit(4)] run_admit fst_set_smap_assign [of "cx_id ctx" ctx "sv_processing_requests (st_logic s)"]
  show ?case by (auto simp: image_subset_iff)
qed (auto simp: server_threads_initial_def server_initial_def send_exception_def send_reply_def processing_erase_def
    smap_erase_def)

lemma reach_admits:
  assumes "server_reach s" "cx_id ctx \<notin> cx_id ` set (st_taken s)" "validate_request ctx"
  shows "admit_request ctx (st_logic s) =
    (True, (st_logic s)\<lparr>sv_processing_requests := smap_assign (cx_id ctx) ctx (sv_processing_requests (st_logic s))\<rparr>)"
  using assms reach_taken [OF assms(1)] by (intro admit_fresh) (auto simp: smap_find_None_iff)

text \<open>
  What the pool accepted are the valid requests that were taken, in their order, except for the one in the
  hand of the reading thread and for those that came after the end of the pool.
\<close>

fun in_hand :: "('i, 'g) reading_thread \<Rightarrow> ('i, 'g) RequestContext list" where
  "in_hand (Run_admitted ctx) = [ctx]"
| "in_hand _ = []"

definition accepts_in_order :: "('i, 'g) server_threads \<Rightarrow> bool" where
  "accepts_in_order s \<longleftrightarrow>
     (\<exists>dropped. filter validate_request (st_taken s) = pl_accepted (st_pool s) @ dropped @ in_hand (st_reader s) \<and>
        (\<not> pl_finished (st_pool s) \<longrightarrow> dropped = []))"

lemma accepts_in_order_same:
  assumes "accepts_in_order s" "st_taken t = st_taken s" "pl_accepted (st_pool t) = pl_accepted (st_pool s)"
    "pl_finished (st_pool s) \<longrightarrow> pl_finished (st_pool t)" "in_hand (st_reader t) = in_hand (st_reader s)"
  shows "accepts_in_order t"
  using assms unfolding accepts_in_order_def by force

lemma turn_history [simp]:
  "pl_accepted (worker_turn i p) = pl_accepted p" "pl_finished (worker_turn i p) = pl_finished p"
  "pl_accepted (spurious_wakeup i p) = pl_accepted p" "pl_finished (spurious_wakeup i p) = pl_finished p"
  "pl_taken (spurious_wakeup i p) = pl_taken p" "pl_taken (pool_schedule_request k req p) = pl_taken p"
  "pl_taken (pool_server_stopped p) = pl_taken p"
  by (auto simp: worker_turn_def spurious_wakeup_def pool_schedule_request_def pool_server_stopped_def
      split: worker.splits list.splits)

lemma reach_order: "server_reach s \<Longrightarrow> accepts_in_order s"
proof (induction rule: server_reach.induct)
  case (start num_threads)
  show ?case by (simp add: accepts_in_order_def server_threads_initial_def pool_ctor_def)
next
  case (run_refuse s ctx)
  then show ?case by (simp add: accepts_in_order_def)
next
  case (run_admit s ctx)
  then show ?case using reach_admits [OF run_admit(1,3,4)] by (auto simp: accepts_in_order_def)
next
  case (run_schedule s ctx k)
  then show ?case by (auto simp: accepts_in_order_def pool_schedule_request_def)
qed (auto elim!: accepts_in_order_same simp: pool_server_stopped_def)

text \<open>Every valid request that a worker took is in flight or answered.\<close>

definition accounted :: "('i, 'g) server_threads \<Rightarrow> bool" where
  "accounted s \<longleftrightarrow> mset (map fst (sv_sent (st_logic s))) + in_flight s =
     mset (map cx_id (filter (\<lambda>ctx. \<not> validate_request ctx) (st_taken s))) + mset (map cx_id (pl_taken (st_pool s)))"

lemma count_move: "sent + f = (c :: 'a multiset) + t \<Longrightarrow> f' + t = f + t' \<Longrightarrow> sent + f' = c + t'"
  by (metis add.assoc add_right_cancel add.commute)

lemma reach_accounted: "server_reach s \<Longrightarrow> accounted s"
proof (induction rule: server_reach.induct)
  case (start num_threads)
  show ?case
    by (simp add: accounted_def server_threads_initial_def server_initial_def pool_ctor_def in_flight_def handling_def)
next
  case (run_admit s ctx)
  then show ?case
    using reach_admits [OF run_admit(1,3,4)] by (auto simp: accounted_def in_flight_steps)
next
  case (run_refuse s ctx)
  then show ?case by (simp add: accounted_def in_flight_steps send_exception_def send_reply_def)
next
  case (worker_goes s i)
  then show ?case using count_move [OF _ in_flight_turn [OF worker_goes(2,3)]] unfolding accounted_def by simp
next
  case (worker_replies s i ctx out r)
  note f = in_flight_reply [OF worker_replies(2-4), of "send_reply ctx r (st_logic s)", symmetric]
  show ?case using worker_replies.IH unfolding accounted_def f by (simp add: send_reply_def)
next
  case (worker_erases s i ctx)
  then show ?case by (simp add: accounted_def in_flight_erase processing_erase_def)
qed (auto simp: accounted_def in_flight_steps)

text \<open>A worker executes only what it took, and every reply belongs to a request that was taken.\<close>

definition executes_taken :: "'r pool \<Rightarrow> bool" where
  "executes_taken p \<longleftrightarrow> (\<forall>req. Executing req \<in> set (pl_threads p) \<longrightarrow> req \<in> set (pl_taken p))"

lemma executes_taken_step: "executes_taken p \<Longrightarrow> executes_taken (pool_step e p)"
proof (cases e)
  case (Schedule k req)
  assume "executes_taken p"
  then show ?thesis
    using notify_one_set [of k "pl_threads p"] by (auto simp: Schedule executes_taken_def pool_schedule_request_def)
next
  case (Turn i)
  assume "executes_taken p"
  then show ?thesis
    using set_update_subset_insert [of "pl_threads p" i]
    by (fastforce simp: Turn executes_taken_def worker_turn_def split: worker.splits list.splits)
next
  case (Spurious i)
  assume "executes_taken p"
  then show ?thesis
    using set_update_subset_insert [of "pl_threads p" i] by (fastforce simp: Spurious executes_taken_def spurious_wakeup_def)
qed (auto simp: executes_taken_def pool_server_stopped_def notify_all_def)

lemma reach_pool: "server_reach s \<Longrightarrow> pool_inv (st_pool s) \<and> executes_taken (st_pool s)"
proof (induction rule: server_reach.induct)
  case (start num_threads)
  show ?case by (simp add: server_threads_initial_def) (simp add: executes_taken_def pool_ctor_def)
next
  case (run_schedule s ctx k)
  then show ?case using pool_step_inv [of "st_pool s" "Schedule k ctx"] executes_taken_step [of "st_pool s" "Schedule k ctx"] by simp
next
  case (worker_goes s i)
  then show ?case using pool_step_inv [of "st_pool s" "Turn i"] executes_taken_step [of "st_pool s" "Turn i"] by simp
next
  case (worker_spurious s i)
  then show ?case using pool_step_inv [of "st_pool s" "Spurious i"] executes_taken_step [of "st_pool s" "Spurious i"] by simp
next
  case (stop_pool s)
  then show ?case using pool_step_inv [of "st_pool s" Stop] executes_taken_step [of "st_pool s" Stop] by simp
qed simp_all

lemma reach_taken_requests:
  assumes "server_reach s"
  shows "mset (pl_taken (st_pool s)) \<subseteq># mset (filter validate_request (st_taken s))"
proof -
  have "pl_accepted (st_pool s) = pl_taken (st_pool s) @ pl_requests (st_pool s)"
    using reach_pool [OF assms] by (simp add: pool_inv_def)
  then show ?thesis using reach_order [OF assms] unfolding accepts_in_order_def by force
qed

text \<open>The reply a request may get.\<close>

definition reply_for :: "('i, 'g) RequestContext \<Rightarrow> Requests_Reply \<Rightarrow> bool" where
  "reply_for ctx r \<longleftrightarrow>
     (if validate_request ctx then \<exists>out. handler_reply ctx out = Inr r
      else r = RpcReply_default\<lparr>rr_remoteEx := Some REMOTE_EX_INVALID_ARGUMENT\<rparr>)"

lemma reach_replies:
  "server_reach s \<Longrightarrow> (\<forall>(i, r) \<in> set (sv_sent (st_logic s)). \<exists>ctx \<in> set (st_taken s). cx_id ctx = i \<and> reply_for ctx r) \<and>
     (\<forall>ctx \<in> set (st_taken s). \<not> validate_request ctx \<longrightarrow> cx_id ctx \<in> fst ` set (sv_sent (st_logic s)))"
proof (induction rule: server_reach.induct)
  case (run_admit s ctx)
  then show ?case using reach_admits [OF run_admit(1,3,4)] by fastforce
next
  case (run_refuse s ctx)
  then show ?case by (fastforce simp: send_exception_def send_reply_def reply_for_def)
next
  case (worker_replies s i ctx out r)
  have "Executing ctx \<in> set (pl_threads (st_pool s))" using worker_replies(2,3) by (metis nth_mem)
  then have "ctx \<in># mset (pl_taken (st_pool s))" using reach_pool [OF worker_replies(1)] by (simp add: executes_taken_def)
  then have "ctx \<in> set (st_taken s)" "validate_request ctx"
    using mset_subset_eqD [OF reach_taken_requests [OF worker_replies(1)]] by auto
  then show ?case using worker_replies by (fastforce simp: send_reply_def reply_for_def)
qed (auto simp: server_threads_initial_def server_initial_def processing_erase_def)

text \<open>Every valid request is answered or still somewhere: queued, in flight, in hand or dropped at the end.\<close>

lemma reach_sent_subset:
  assumes "server_reach s"
  shows "mset (map fst (sv_sent (st_logic s))) \<subseteq># mset (map cx_id (st_taken s))"
proof -
  let ?refused = "filter (\<lambda>ctx. \<not> validate_request ctx) (st_taken s)" and ?valid = "filter validate_request (st_taken s)"
  have "mset (map fst (sv_sent (st_logic s))) \<subseteq># mset (map cx_id ?refused) + mset (map cx_id (pl_taken (st_pool s)))"
    using reach_accounted [OF assms] unfolding accounted_def by (metis mset_subset_eq_add_left)
  also have "\<dots> \<subseteq># mset (map cx_id ?refused) + mset (map cx_id ?valid)"
    using image_mset_subseteq_mono [OF reach_taken_requests [OF assms], of cx_id] by simp
  also have "\<dots> = mset (map cx_id (st_taken s))"
    by (simp flip: image_mset_union add: multiset_partition [symmetric] union_commute)
  finally show ?thesis .
qed

lemma distinct_sub_mset: "mset xs \<subseteq># mset ys \<Longrightarrow> distinct ys \<Longrightarrow> distinct xs"
  by (metis distinct_append ex_mset mset_append mset_eq_imp_distinct_iff mset_subset_eq_exists_conv)

definition server_idle :: "('i, 'g) server_threads \<Rightarrow> bool" where
  "server_idle s \<longleftrightarrow> in_hand (st_reader s) = [] \<and> pl_requests (st_pool s) = [] \<and>
     list_all (\<lambda>w. executing w = None) (pl_threads (st_pool s))"

lemma idle_answered:
  assumes "server_reach s" "server_idle s" "\<not> pl_finished (st_pool s)"
  shows "mset (map fst (sv_sent (st_logic s))) = mset (map cx_id (st_taken s))"
proof -
  have "in_flight s = {#}"
    using assms(2) by (auto simp: in_flight_def handling_def server_idle_def list_all_length intro!: sum.neutral)
  moreover have "pl_taken (st_pool s) = filter validate_request (st_taken s)"
    using assms(2,3) reach_order [OF assms(1)] reach_pool [OF assms(1)]
    by (auto simp: accepts_in_order_def server_idle_def pool_inv_def)
  ultimately have "mset (map fst (sv_sent (st_logic s))) =
      mset (map cx_id (filter (\<lambda>ctx. \<not> validate_request ctx) (st_taken s))) + mset (map cx_id (filter validate_request (st_taken s)))"
    using reach_accounted [OF assms(1)] by (simp add: accounted_def)
  then show ?thesis by (simp flip: image_mset_union add: multiset_partition [symmetric] union_commute)
qed

section \<open>Properties\<close>




end
