(* ===== verification/Grpc_Framework.thy ===== *)
theory Grpc_Framework
  imports Common_Utilities
begin

text \<open>
  The gRPC transport, \<open>lib/framework/grpc/source\<close>: conversions (\<open>common/HermesGrpcTools.cpp\<close>), the stub creator
  with its channel (\<open>StubCreator.cpp\<close>), the callback service and the server (\<open>server/\<close>), the client with its
  queue of calls (\<open>client/HermesGrpcClient.cpp\<close>) and the factory.  The transport is outside the build; its
  structures are the ones these functions use, which differ from those of \<open>MiddlewareDefines.h\<close>.  Channel
  states, statuses and completions of gRPC are arguments.

  Shown: the conversions are inverse to each other; an exchange through service and client gives the
  caller the callback's reply or a timeout; the disconnect callbacks run once per channel that replaces an
  earlier one; the client delivers the right replies when calls complete one at a time in order, and what
  happens to its queue when they do not.
\<close>

section \<open>Conversions\<close>

text \<open>Enumerations of the protocol are open: a value without a name arrives as \<open>Unknown\<close>.\<close>

datatype HStatusCode =
    H_UNSPECIFIED | H_SUCCESS | H_STANDARD_FAILURE | H_REQUESTED_NOT_FOUND_FAILURE | H_EMPTY_REQUEST_FAILURE
  | H_SERVER_NOT_AVAILABLE | H_NOT_AUTHORIZED_ERROR | H_TIMEOUT_ERROR | H_REQUEST_FORMAT_ERROR
  | H_SERVER_INTERNAL_ERROR | H_CLIENT_REQUEST_SIZE_ERROR | H_SERVER_NO_REPLY_ERROR

datatype GrpcReplyStatusCode =
    G_UNSPECIFIED | G_SUCCESS | G_STANDARD_FAILURE | G_REQUESTED_NOT_FOUND_FAILURE | G_EMPTY_REQUEST_FAILURE
  | G_SERVER_NOT_AVAILABLE | G_NOT_AUTHORIZED_ERROR | G_TIMEOUT_ERROR | G_REQUEST_FORMAT_ERROR
  | G_SERVER_INTERNAL_ERROR | G_CLIENT_REQUEST_SIZE_ERROR | G_SERVER_NO_REPLY_ERROR | Unknown_code int

datatype HRequestType = REQUEST_TYPE_UNSPECIFIED | REQUEST_TYPE_ALIVE | REQUEST_TYPE_READ | REQUEST_TYPE_WRITE

datatype GrpcRequestType = TYPE_UNSPECIFIED | TYPE_ALIVE | TYPE_READ | TYPE_WRITE | Unknown_type int

fun FromStatus :: "GrpcReplyStatusCode \<Rightarrow> HStatusCode" where
  "FromStatus G_SUCCESS = H_SUCCESS"
| "FromStatus G_STANDARD_FAILURE = H_STANDARD_FAILURE"
| "FromStatus G_REQUESTED_NOT_FOUND_FAILURE = H_REQUESTED_NOT_FOUND_FAILURE"
| "FromStatus G_EMPTY_REQUEST_FAILURE = H_EMPTY_REQUEST_FAILURE"
| "FromStatus G_SERVER_NOT_AVAILABLE = H_SERVER_NOT_AVAILABLE"
| "FromStatus G_NOT_AUTHORIZED_ERROR = H_NOT_AUTHORIZED_ERROR"
| "FromStatus G_TIMEOUT_ERROR = H_TIMEOUT_ERROR"
| "FromStatus G_REQUEST_FORMAT_ERROR = H_REQUEST_FORMAT_ERROR"
| "FromStatus G_SERVER_INTERNAL_ERROR = H_SERVER_INTERNAL_ERROR"
| "FromStatus G_CLIENT_REQUEST_SIZE_ERROR = H_CLIENT_REQUEST_SIZE_ERROR"
| "FromStatus G_SERVER_NO_REPLY_ERROR = H_SERVER_NO_REPLY_ERROR"
| "FromStatus _ = H_UNSPECIFIED"

fun ToStatus :: "HStatusCode \<Rightarrow> GrpcReplyStatusCode" where
  "ToStatus H_SUCCESS = G_SUCCESS"
| "ToStatus H_STANDARD_FAILURE = G_STANDARD_FAILURE"
| "ToStatus H_REQUESTED_NOT_FOUND_FAILURE = G_REQUESTED_NOT_FOUND_FAILURE"
| "ToStatus H_EMPTY_REQUEST_FAILURE = G_EMPTY_REQUEST_FAILURE"
| "ToStatus H_SERVER_NOT_AVAILABLE = G_SERVER_NOT_AVAILABLE"
| "ToStatus H_NOT_AUTHORIZED_ERROR = G_NOT_AUTHORIZED_ERROR"
| "ToStatus H_TIMEOUT_ERROR = G_TIMEOUT_ERROR"
| "ToStatus H_REQUEST_FORMAT_ERROR = G_REQUEST_FORMAT_ERROR"
| "ToStatus H_SERVER_INTERNAL_ERROR = G_SERVER_INTERNAL_ERROR"
| "ToStatus H_CLIENT_REQUEST_SIZE_ERROR = G_CLIENT_REQUEST_SIZE_ERROR"
| "ToStatus H_SERVER_NO_REPLY_ERROR = G_SERVER_NO_REPLY_ERROR"
| "ToStatus _ = G_UNSPECIFIED"

fun FromType :: "GrpcRequestType \<Rightarrow> HRequestType" where
  "FromType TYPE_ALIVE = REQUEST_TYPE_ALIVE"
| "FromType TYPE_READ = REQUEST_TYPE_READ"
| "FromType TYPE_WRITE = REQUEST_TYPE_WRITE"
| "FromType _ = REQUEST_TYPE_UNSPECIFIED"

fun ToType :: "HRequestType \<Rightarrow> GrpcRequestType" where
  "ToType REQUEST_TYPE_ALIVE = TYPE_ALIVE"
| "ToType REQUEST_TYPE_READ = TYPE_READ"
| "ToType REQUEST_TYPE_WRITE = TYPE_WRITE"
| "ToType _ = TYPE_UNSPECIFIED"

text \<open>\<open>'t\<close> and \<open>'c\<close> are the request type and the status code of either side.\<close>

record 't transport_request =
  tr_client_id :: string
  tr_type :: 't
  tr_serialized_protobuf :: bytes

record 'c transport_reply =
  tp_client_id :: string
  tp_status_code :: 'c
  tp_status_message :: string
  tp_serialized_protobuf :: bytes

type_synonym HRequest = "HRequestType transport_request"
type_synonym GrpcRequest = "GrpcRequestType transport_request"
type_synonym HReply = "HStatusCode transport_reply"
type_synonym GrpcReply = "GrpcReplyStatusCode transport_reply"

definition HReply_new :: HReply where
  "HReply_new = \<lparr>tp_client_id = [], tp_status_code = H_UNSPECIFIED, tp_status_message = [], tp_serialized_protobuf = []\<rparr>"

definition GrpcReply_new :: GrpcReply where
  "GrpcReply_new = \<lparr>tp_client_id = [], tp_status_code = G_UNSPECIFIED, tp_status_message = [], tp_serialized_protobuf = []\<rparr>"

definition FromRequest :: "GrpcRequest \<Rightarrow> HRequest" where
  "FromRequest r = \<lparr>tr_client_id = tr_client_id r, tr_type = FromType (tr_type r), tr_serialized_protobuf = tr_serialized_protobuf r\<rparr>"

definition ToRequest :: "HRequest \<Rightarrow> GrpcRequest" where
  "ToRequest r = \<lparr>tr_client_id = tr_client_id r, tr_type = ToType (tr_type r), tr_serialized_protobuf = tr_serialized_protobuf r\<rparr>"

definition FromReply :: "GrpcReply \<Rightarrow> HReply" where
  "FromReply r = \<lparr>tp_client_id = tp_client_id r, tp_status_code = FromStatus (tp_status_code r),
     tp_status_message = tp_status_message r, tp_serialized_protobuf = tp_serialized_protobuf r\<rparr>"

definition ToReply :: "HReply \<Rightarrow> GrpcReply" where
  "ToReply r = \<lparr>tp_client_id = tp_client_id r, tp_status_code = ToStatus (tp_status_code r),
     tp_status_message = tp_status_message r, tp_serialized_protobuf = tp_serialized_protobuf r\<rparr>"

definition ReplyTimeout :: "HRequest \<Rightarrow> GrpcReply" where
  "ReplyTimeout r = \<lparr>tp_client_id = tr_client_id r, tp_status_code = G_TIMEOUT_ERROR,
     tp_status_message = ''Timeout occurred for requested client_id ['' @ tr_client_id r @ '']'',
     tp_serialized_protobuf = tr_serialized_protobuf r\<rparr>"

definition ReplyServerNotAvailable :: "GrpcRequest \<Rightarrow> HReply" where
  "ReplyServerNotAvailable r = \<lparr>tp_client_id = tr_client_id r, tp_status_code = H_SERVER_NOT_AVAILABLE,
     tp_status_message = ''Request for ['' @ tr_client_id r @ ''] failed to send due to [STATUS_CODE_SERVER_NOT_AVAILABLE]'',
     tp_serialized_protobuf = tr_serialized_protobuf r\<rparr>"

text \<open>The codes of a call, and its status.\<close>

datatype grpc_code =
    OK | CANCELLED | UNKNOWN | INVALID_ARGUMENT | DEADLINE_EXCEEDED | NOT_FOUND | ALREADY_EXISTS | PERMISSION_DENIED
  | UNAUTHENTICATED | RESOURCE_EXHAUSTED | FAILED_PRECONDITION | ABORTED | OUT_OF_RANGE | UNIMPLEMENTED | INTERNAL
  | UNAVAILABLE | DATA_LOSS

type_synonym grpc_status = "grpc_code \<times> string"

fun code_of_failure :: "grpc_code \<Rightarrow> HStatusCode" where
  "code_of_failure DEADLINE_EXCEEDED = H_TIMEOUT_ERROR"
| "code_of_failure NOT_FOUND = H_REQUESTED_NOT_FOUND_FAILURE"
| "code_of_failure PERMISSION_DENIED = H_NOT_AUTHORIZED_ERROR"
| "code_of_failure UNAUTHENTICATED = H_NOT_AUTHORIZED_ERROR"
| "code_of_failure INVALID_ARGUMENT = H_REQUEST_FORMAT_ERROR"
| "code_of_failure OUT_OF_RANGE = H_REQUEST_FORMAT_ERROR"
| "code_of_failure UNAVAILABLE = H_SERVER_NOT_AVAILABLE"
| "code_of_failure CANCELLED = H_SERVER_NOT_AVAILABLE"
| "code_of_failure ABORTED = H_SERVER_NOT_AVAILABLE"
| "code_of_failure INTERNAL = H_SERVER_INTERNAL_ERROR"
| "code_of_failure FAILED_PRECONDITION = H_SERVER_INTERNAL_ERROR"
| "code_of_failure _ = H_STANDARD_FAILURE"

definition ReplyNotOk :: "grpc_status \<Rightarrow> HReply" where
  "ReplyNotOk status = HReply_new\<lparr>tp_status_code := code_of_failure (fst status), tp_status_message := snd status\<rparr>"

section \<open>The stub creator\<close>

datatype ConnectionStatus = NOT_CONNECTED | CONNECTED | LOST_CONNECTION

text \<open>
  Channels are counted; \<open>sc_disconnects\<close> is the history of the calls of the disconnect callbacks, by the
  number of the callback.
\<close>

record StubCreator =
  sc_serverURI :: string
  sc_channel :: "nat option"
  sc_callbacks :: nat
  sc_status :: ConnectionStatus
  sc_created :: nat
  sc_disconnects :: "nat list"

definition StubCreator_ctor :: "string \<Rightarrow> StubCreator" where
  "StubCreator_ctor uri = \<lparr>sc_serverURI = uri, sc_channel = None, sc_callbacks = 0, sc_status = NOT_CONNECTED,
     sc_created = 0, sc_disconnects = []\<rparr>"

definition AddOnDisconnect :: "StubCreator \<Rightarrow> StubCreator" where
  "AddOnDisconnect s = s\<lparr>sc_callbacks := sc_callbacks s + 1\<rparr>"

text \<open>\<open>ready\<close> is what \<open>GetState\<close> reports of the channel, if there is one.\<close>

definition CheckChannel :: "bool \<Rightarrow> StubCreator \<Rightarrow> StubCreator" where
  "CheckChannel ready s =
     (if sc_channel s = None \<or> \<not> ready then
        (let s1 = s\<lparr>sc_channel := Some (sc_created s), sc_created := sc_created s + 1\<rparr> in
         case sc_status s1 of
           NOT_CONNECTED \<Rightarrow> s1\<lparr>sc_status := CONNECTED\<rparr>
         | CONNECTED \<Rightarrow> s1\<lparr>sc_disconnects := sc_disconnects s1 @ [0..<sc_callbacks s1]\<rparr>
         | LOST_CONNECTION \<Rightarrow> s1)
      else s)"

text \<open>\<open>CreateTransactionStub\<close> returns a stub on the channel.\<close>

definition CreateTransactionStub :: "bool \<Rightarrow> StubCreator \<Rightarrow> nat option \<times> StubCreator" where
  "CreateTransactionStub ready s = (let s' = CheckChannel ready s in (sc_channel s', s'))"

definition StubCreator_Uri :: "StubCreator \<Rightarrow> string" where
  "StubCreator_Uri s = sc_serverURI s"

definition n_DomainClientStubs :: "(u32 \<times> StubCreator) list" where
  "n_DomainClientStubs = map (\<lambda>k. (of_nat k, StubCreator_ctor (''127.0.0.1:5000'' @ show_nat k))) [1..<6]"

section \<open>The server\<close>

text \<open>
  A registered callback changes the reply; it runs on the state \<open>'u\<close> of the user, and \<open>None\<close> is a callback that
  does not return.  \<open>FireEvent\<close> calls all of them in the order of registration.
\<close>

type_synonym 'u on_request = "HRequest \<Rightarrow> HReply \<times> 'u \<Rightarrow> (HReply \<times> 'u) option"

definition CallbackService_RegisterOnRequest :: "'u on_request option \<Rightarrow> 'u on_request list \<Rightarrow> 'u on_request list cpp" where
  "CallbackService_RegisterOnRequest callback registered =
     (case callback of None \<Rightarrow> Inl AssertFailed | Some f \<Rightarrow> Inr (registered @ [f]))"

fun FireEvent :: "'u on_request list \<Rightarrow> HRequest \<Rightarrow> HReply \<times> 'u \<Rightarrow> (HReply \<times> 'u) option" where
  "FireEvent [] request ru = Some ru"
| "FireEvent (f # fs) request ru = Option.bind (f request ru) (FireEvent fs request)"

text \<open>
  \<open>RequestOnce\<close>; \<open>in_time\<close> is the result of the task's \<open>Wait\<close>.  The destructor of the task joins its thread, so
  that the function returns only when the callbacks have, in time or not.
\<close>

definition RequestOnce ::
  "'u on_request list \<Rightarrow> bool \<Rightarrow> GrpcRequest \<Rightarrow> 'u \<Rightarrow> ((grpc_status \<times> GrpcReply) \<times> 'u) option" where
  "RequestOnce registered in_time request u =
     (let hermes_request = FromRequest request in
      Option.bind (FireEvent registered hermes_request (HReply_new, u)) (\<lambda>(hermes_reply, u').
        Some (if \<not> in_time
              then ((DEADLINE_EXCEEDED, ''Timeout occurred for ID ['' @ tr_client_id request @ '']''), ReplyTimeout hermes_request)
              else ((OK, []), ToReply hermes_reply), u')))"

record GrpcServer =
  gs_serverURI :: string
  gs_instance :: bool
  gs_queue :: bool
  gs_log :: "string list"

definition GrpcServer_ctor :: "string \<Rightarrow> bool \<Rightarrow> GrpcServer cpp" where
  "GrpcServer_ctor uri credentials =
     (if credentials then Inr \<lparr>gs_serverURI = uri, gs_instance = False, gs_queue = False, gs_log = []\<rparr> else Inl AssertFailed)"

text \<open>\<open>built\<close> is whether \<open>BuildAndStart\<close> returned a server.\<close>

definition GrpcServer_Start :: "bool \<Rightarrow> GrpcServer \<Rightarrow> GrpcServer" where
  "GrpcServer_Start built s =
     (if \<not> gs_instance s
      then s\<lparr>gs_queue := True, gs_instance := built, gs_log := gs_log s @ [''[Server] Server listening on ['' @ gs_serverURI s @ '']'']\<rparr>
      else s\<lparr>gs_log := gs_log s @ [''[Server] Server is already running'']\<rparr>)"

definition GrpcServer_Stop :: "GrpcServer \<Rightarrow> GrpcServer" where
  "GrpcServer_Stop s =
     (if gs_instance s
      then s\<lparr>gs_instance := False, gs_queue := False,
             gs_log := gs_log s @ [''[Server] Grpc Server is shutting down'', ''[Server] Grpc Server has stopped'']\<rparr>
      else s)"

section \<open>The client\<close>

text \<open>
  An \<open>AsyncClientCall\<close> is named by the number of its request; gRPC writes into its reply when the call
  completes.  The last field is the history of the completion callbacks, by the identifier of the request.
\<close>

record AsyncClientCall =
  ac_number :: nat
  ac_reply :: GrpcReply

record GrpcClient =
  gc_service_name :: string
  gc_creator :: StubCreator
  gc_stub :: "nat option"
  gc_stop :: bool
  gc_replyReceived :: bool
  gc_queue :: "AsyncClientCall list"
  gc_requests :: nat
  gc_completed :: "(string \<times> HReply) list"

definition GrpcClient_ctor :: "string \<Rightarrow> StubCreator option \<Rightarrow> GrpcClient cpp" where
  "GrpcClient_ctor name creator =
     (case creator of
        Some sc \<Rightarrow>
          if name \<noteq> [] then Inr \<lparr>gc_service_name = name, gc_creator = sc, gc_stub = None, gc_stop = False, gc_replyReceived = False,
             gc_queue = [], gc_requests = 0, gc_completed = []\<rparr>
          else Inl AssertFailed
      | None \<Rightarrow> Inl AssertFailed)"

definition GrpcClient_Start :: "GrpcClient \<Rightarrow> GrpcClient" where
  "GrpcClient_Start cl = cl\<lparr>gc_stop := False\<rparr>"

definition GrpcClient_Stop :: "GrpcClient \<Rightarrow> GrpcClient" where
  "GrpcClient_Stop cl = cl\<lparr>gc_stop := True\<rparr>"

definition GenerateId :: "nat \<Rightarrow> GrpcClient \<Rightarrow> string" where
  "GenerateId millis cl = gc_service_name cl @ ''_'' @ show_nat millis"

text \<open>A call is pushed and handed to gRPC with the addresses of its context and reply.\<close>

definition DoRequest :: "bool \<Rightarrow> GrpcClient \<Rightarrow> bool \<times> GrpcClient" where
  "DoRequest ready cl =
     (let cl1 = (case gc_stub cl of
          Some _ \<Rightarrow> cl
        | None \<Rightarrow> (case CreateTransactionStub ready (gc_creator cl) of (stub, sc) \<Rightarrow> cl\<lparr>gc_stub := stub, gc_creator := sc\<rparr>))
      in if gc_stub cl1 \<noteq> None
         then (True, cl1\<lparr>gc_queue := gc_queue cl1 @ [\<lparr>ac_number = gc_requests cl1, ac_reply = GrpcReply_new\<rparr>],
                         gc_requests := gc_requests cl1 + 1\<rparr>)
         else (False, cl1))"

definition typed_request :: "GrpcRequestType \<Rightarrow> nat \<Rightarrow> bytes \<Rightarrow> GrpcClient \<Rightarrow> GrpcRequest" where
  "typed_request t millis serialized cl = \<lparr>tr_client_id = GenerateId millis cl, tr_type = t, tr_serialized_protobuf = serialized\<rparr>"

definition GrpcClient_ReadRequest :: "bool \<Rightarrow> nat \<Rightarrow> bytes \<Rightarrow> GrpcClient \<Rightarrow> (bool \<times> GrpcRequest) \<times> GrpcClient" where
  "GrpcClient_ReadRequest ready millis serialized cl =
     (case DoRequest ready cl of (sent, cl') \<Rightarrow> ((sent, typed_request TYPE_READ millis serialized cl), cl'))"

definition GrpcClient_WriteRequest :: "bool \<Rightarrow> nat \<Rightarrow> bytes \<Rightarrow> GrpcClient \<Rightarrow> (bool \<times> GrpcRequest) \<times> GrpcClient" where
  "GrpcClient_WriteRequest ready millis serialized cl =
     (case DoRequest ready cl of (sent, cl') \<Rightarrow> ((sent, typed_request TYPE_WRITE millis serialized cl), cl'))"

text \<open>
  The completion of a call: gRPC writes the reply into the object of the call, and the handler reads the
  reply of the object at the front of the queue.  \<open>None\<close>: the object of the call is gone.
\<close>

definition fill_reply :: "nat \<Rightarrow> GrpcReply \<Rightarrow> AsyncClientCall list \<Rightarrow> AsyncClientCall list" where
  "fill_reply k r q = map (\<lambda>c. if ac_number c = k then c\<lparr>ac_reply := r\<rparr> else c) q"

definition handle_completion :: "nat \<Rightarrow> string \<Rightarrow> grpc_status \<Rightarrow> GrpcReply \<Rightarrow> GrpcClient \<Rightarrow> GrpcClient option" where
  "handle_completion k request_id status r cl =
     (if k \<notin> ac_number ` set (gc_queue cl) then None
      else
        (let q = (if fst status = OK then fill_reply k r (gc_queue cl) else gc_queue cl);
             reply = (if fst status = OK then FromReply (ac_reply (hd q)) else (ReplyNotOk status)\<lparr>tp_client_id := request_id\<rparr>)
         in Some (cl\<lparr>gc_queue := q, gc_completed := gc_completed cl @ [(request_id, reply)], gc_replyReceived := True\<rparr>)))"

text \<open>
  One turn of \<open>ProcessRequests\<close>; \<open>None\<close>: \<open>front\<close> of an empty queue.  The thread waits, takes the front, or ends.
\<close>

definition process_turn :: "GrpcClient \<Rightarrow> GrpcClient option" where
  "process_turn cl =
     (if \<not> (gc_replyReceived cl \<or> gc_stop cl) then Some cl
      else if \<not> gc_stop cl then
        (case gc_queue cl of [] \<Rightarrow> None | _ # q \<Rightarrow> Some (cl\<lparr>gc_queue := q, gc_replyReceived := False\<rparr>))
      else Some cl)"

section \<open>The factory\<close>

definition Grpc_CreateMessageParticipant :: "u32 \<Rightarrow> string \<Rightarrow> unit option" where
  "Grpc_CreateMessageParticipant domain_id name = None"

definition Grpc_CreateClientParticipant :: "u32 \<Rightarrow> string \<Rightarrow> string list \<Rightarrow> unit option" where
  "Grpc_CreateClientParticipant domain_id name sources = None"

definition Grpc_CreateServerParticipant :: "u32 \<Rightarrow> string \<Rightarrow> 'u on_request \<Rightarrow> unit option" where
  "Grpc_CreateServerParticipant domain_id connection f = None"

section \<open>Conversions are inverse\<close>

lemma status_round_trip [simp]: "FromStatus (ToStatus c) = c"
  by (cases c) simp_all

lemma type_round_trip [simp]: "FromType (ToType t) = t"
  by (cases t) simp_all

lemma request_round_trip [simp]: "FromRequest (ToRequest r) = r"
  by (simp add: FromRequest_def ToRequest_def)

lemma reply_round_trip [simp]: "FromReply (ToReply r) = r"
  by (simp add: FromReply_def ToReply_def)

lemma status_round_trip_known:
  "ToStatus (FromStatus c) = (case c of Unknown_code _ \<Rightarrow> G_UNSPECIFIED | _ \<Rightarrow> c)"
  by (cases c) simp_all

section \<open>Channels\<close>

lemma CheckChannel_connected:
  assumes "sc_status s = CONNECTED" "sc_channel s \<noteq> None"
  shows "sc_status (fold CheckChannel rs s) = CONNECTED \<and> sc_callbacks (fold CheckChannel rs s) = sc_callbacks s \<and>
    sc_disconnects (fold CheckChannel rs s) =
      sc_disconnects s @ concat (replicate (length (filter (\<lambda>r. \<not> r) rs)) [0..<sc_callbacks s])"
  using assms
proof (induction rs arbitrary: s)
  case (Cons r rs)
  have "sc_status (CheckChannel r s) = CONNECTED" "sc_channel (CheckChannel r s) \<noteq> None"
    "sc_callbacks (CheckChannel r s) = sc_callbacks s"
    "sc_disconnects (CheckChannel r s) = sc_disconnects s @ (if r then [] else [0..<sc_callbacks s])"
    using Cons.prems by (auto simp: CheckChannel_def Let_def)
  with Cons.IH [of "CheckChannel r s"] show ?case by (cases r) simp_all
qed simp

text \<open>
  The disconnect callbacks run, all of them in order, each time a check finds the channel not ready, but not
  when the first channel is made; the status \<open>LOST_CONNECTION\<close> is never reached.
\<close>

theorem disconnect_callbacks:
  "let s = fold CheckChannel (r # rs) ((AddOnDisconnect ^^ k) (StubCreator_ctor uri)) in
   sc_disconnects s = concat (replicate (length (filter (\<lambda>r. \<not> r) rs)) [0..<k]) \<and> sc_status s = CONNECTED"
proof -
  let ?s = "(AddOnDisconnect ^^ k) (StubCreator_ctor uri)"
  have "sc_callbacks ?s = k \<and> sc_channel ?s = None \<and> sc_status ?s = NOT_CONNECTED \<and> sc_disconnects ?s = []"
    by (induction k) (simp_all add: AddOnDisconnect_def StubCreator_ctor_def)
  then show ?thesis
    using CheckChannel_connected [of "CheckChannel r ?s" rs] by (simp add: Let_def CheckChannel_def)
qed

section \<open>Runs of the client\<close>

datatype grpc_event = Send_request string | Call_completes nat string grpc_status GrpcReply | Thread_turn

fun grpc_step :: "grpc_event \<Rightarrow> GrpcClient \<Rightarrow> GrpcClient option" where
  "grpc_step (Send_request request_id) cl = Some (snd (DoRequest True cl))"
| "grpc_step (Call_completes k request_id status r) cl = handle_completion k request_id status r cl"
| "grpc_step Thread_turn cl = process_turn cl"

fun grpc_run :: "grpc_event list \<Rightarrow> GrpcClient \<Rightarrow> GrpcClient option" where
  "grpc_run [] cl = Some cl"
| "grpc_run (e # es) cl = Option.bind (grpc_step e cl) (grpc_run es)"

text \<open>What the caller of a request is to be given, and the calls of the callbacks in a run.\<close>

definition own_reply :: "string \<Rightarrow> grpc_status \<Rightarrow> GrpcReply \<Rightarrow> HReply" where
  "own_reply request_id status r =
     (if fst status = OK then FromReply r else (ReplyNotOk status)\<lparr>tp_client_id := request_id\<rparr>)"

fun own_replies :: "grpc_event list \<Rightarrow> (string \<times> HReply) list" where
  "own_replies [] = []"
| "own_replies (Call_completes k request_id status r # es) = (request_id, own_reply request_id status r) # own_replies es"
| "own_replies (_ # es) = own_replies es"

text \<open>
  Runs in which calls complete in the order of the requests and the thread has taken a completed call out
  before the next one completes: \<open>n\<close> requests so far, the calls \<open>q\<close> in the queue, and whether the front has
  completed.
\<close>

fun one_at_a_time :: "nat \<Rightarrow> nat list \<Rightarrow> bool \<Rightarrow> grpc_event list \<Rightarrow> bool" where
  "one_at_a_time n q w [] = True"
| "one_at_a_time n q w (Send_request _ # es) = one_at_a_time (Suc n) (q @ [n]) w es"
| "one_at_a_time n q w (Call_completes k _ _ _ # es) = (\<not> w \<and> q \<noteq> [] \<and> k = hd q \<and> one_at_a_time n q True es)"
| "one_at_a_time n q w (Thread_turn # es) = one_at_a_time n (if w then tl q else q) False es"

lemma CheckChannel_channel: "sc_channel (CheckChannel ready s) \<noteq> None"
  by (cases "sc_status s") (auto simp: CheckChannel_def Let_def)

lemma fill_reply_simps [simp]:
  "map ac_number (fill_reply k r q) = map ac_number q"
  "fill_reply k r [] = []"
  "fill_reply k r (c # q) = (if ac_number c = k then c\<lparr>ac_reply := r\<rparr> else c) # fill_reply k r q"
  by (simp_all add: fill_reply_def)

lemma DoRequest_sends:
  "\<exists>stub sc. DoRequest ready cl = (True, cl\<lparr>gc_stub := Some stub, gc_creator := sc,
     gc_queue := gc_queue cl @ [\<lparr>ac_number = gc_requests cl, ac_reply = GrpcReply_new\<rparr>], gc_requests := gc_requests cl + 1\<rparr>)"
proof (cases "gc_stub cl")
  case None
  obtain stub where "sc_channel (CheckChannel ready (gc_creator cl)) = Some stub"
    using CheckChannel_channel [of ready "gc_creator cl"] by auto
  then show ?thesis using None by (auto simp: DoRequest_def CreateTransactionStub_def Let_def)
next
  case (Some stub)
  then have "cl = cl\<lparr>gc_stub := Some stub, gc_creator := gc_creator cl\<rparr>" by simp
  then show ?thesis using Some unfolding DoRequest_def by (intro exI [of _ stub] exI [of _ "gc_creator cl"]) simp
qed

definition queue_ok :: "nat \<Rightarrow> nat list \<Rightarrow> bool \<Rightarrow> GrpcClient \<Rightarrow> bool" where
  "queue_ok n q w cl \<longleftrightarrow> map ac_number (gc_queue cl) = q \<and> gc_requests cl = n \<and> gc_replyReceived cl = w \<and> \<not> gc_stop cl \<and>
     (\<forall>k \<in> set q. k < n) \<and> distinct q \<and> (w \<longrightarrow> q \<noteq> [])"

lemma grpc_run_in_order:
  assumes "one_at_a_time n q w es" "queue_ok n q w cl"
  shows "\<exists>cl'. grpc_run es cl = Some cl' \<and> gc_completed cl' = gc_completed cl @ own_replies es"
  using assms
proof (induction n q w es arbitrary: cl rule: one_at_a_time.induct)
  case (2 n q w request_id es)
  obtain stub sc where d: "DoRequest True cl = (True, cl\<lparr>gc_stub := Some stub, gc_creator := sc,
     gc_queue := gc_queue cl @ [\<lparr>ac_number = gc_requests cl, ac_reply = GrpcReply_new\<rparr>], gc_requests := gc_requests cl + 1\<rparr>)"
    using DoRequest_sends by blast
  have "queue_ok (Suc n) (q @ [n]) w (snd (DoRequest True cl))" using 2(3) by (auto simp: queue_ok_def d)
  from 2(1) [OF _ this] show ?case using 2(2) by (simp add: d)
next
  case (3 n q w k request_id status r es)
  then obtain c cs where c: "gc_queue cl = c # cs" "ac_number c = k" "\<not> w" by (cases "gc_queue cl") (auto simp: queue_ok_def)
  obtain cl1 where h: "handle_completion k request_id status r cl = Some cl1" "queue_ok n q True cl1"
    "gc_completed cl1 = gc_completed cl @ [(request_id, own_reply request_id status r)]"
    using 3(2,3) c by (auto simp: handle_completion_def Let_def queue_ok_def own_reply_def)
  then show ?case using 3(1) [OF _ h(2)] 3(2) by simp
next
  case (4 n q w es)
  obtain cl1 where "process_turn cl = Some cl1" "queue_ok n (if w then tl q else q) False cl1" "gc_completed cl1 = gc_completed cl"
    using 4(3) by (cases "gc_queue cl") (auto simp: process_turn_def queue_ok_def split: if_splits)
  then show ?case using 4(1) [of cl1] 4(2) by simp
qed simp

section \<open>Properties\<close>

text \<open>
C35: When calls complete one at a time and in order, the client never touches a call that is gone, and every
  completion callback is given the reply to its own request.
\<close>

theorem client_replies_in_order:
  assumes "GrpcClient_ctor name (Some sc) = Inr cl" "one_at_a_time 0 [] False es"
  shows "\<exists>cl'. grpc_run es (GrpcClient_Start cl) = Some cl' \<and> gc_completed cl' = own_replies es"
proof -
  have "queue_ok 0 [] False (GrpcClient_Start cl)" "gc_completed (GrpcClient_Start cl) = []"
    using assms(1) by (auto simp: GrpcClient_ctor_def GrpcClient_Start_def queue_ok_def split: if_splits)
  then show ?thesis using grpc_run_in_order [OF assms(2)] by fastforce
qed

text \<open>
  Otherwise the callbacks are mixed up.  If two calls complete before the thread has a turn, the second
  callback is given the reply to the first request and one call stays in the queue for ever; if the second
  call completes first, its callback is given the empty reply of the first, the thread destroys the first
  call, and the completion of that call refers to an object that is gone.
\<close>

theorem client_mixes_replies:
  assumes "GrpcClient_ctor name (Some sc) = Inr cl"
  shows "(\<exists>cl'. grpc_run [Send_request a, Send_request b, Call_completes 0 a (OK, []) ra, Call_completes 1 b (OK, []) rb,
         Thread_turn, Thread_turn] (GrpcClient_Start cl) = Some cl' \<and>
       gc_completed cl' = [(a, FromReply ra), (b, FromReply ra)] \<and> length (gc_queue cl') = 1) \<and>
    (\<exists>cl'. grpc_run [Send_request a, Send_request b, Call_completes 1 b (OK, []) rb, Thread_turn] (GrpcClient_Start cl) = Some cl' \<and>
       gc_completed cl' = [(b, FromReply GrpcReply_new)] \<and> grpc_run [Call_completes 0 a (OK, []) ra] cl' = None)"
proof -
  let ?c = "\<lambda>k. \<lparr>ac_number = k, ac_reply = GrpcReply_new\<rparr>" and ?s = "GrpcClient_Start cl"
  have c: "gc_queue ?s = []" "gc_requests ?s = 0" "\<not> gc_stop ?s" "\<not> gc_replyReceived ?s" "gc_completed ?s = []"
    using assms by (auto simp: GrpcClient_ctor_def GrpcClient_Start_def split: if_splits)
  obtain cl1 where 1: "DoRequest True ?s = (True, cl1)" "gc_queue cl1 = [?c 0]" "gc_requests cl1 = 1" "\<not> gc_stop cl1"
      "\<not> gc_replyReceived cl1" "gc_completed cl1 = []"
    using DoRequest_sends [of True ?s] c by auto
  obtain cl2 where 2: "DoRequest True cl1 = (True, cl2)" "gc_queue cl2 = [?c 0, ?c 1]" "\<not> gc_stop cl2"
      "\<not> gc_replyReceived cl2" "gc_completed cl2 = []"
    using DoRequest_sends [of True cl1] 1 by auto
  show ?thesis
    by (simp add: 1(1) 2 handle_completion_def process_turn_def Let_def)
qed

text \<open>
  An exchange: what the registered callbacks make of the reply reaches the completion callback unchanged,
  and a task that is not done in time reaches it as a timeout under the identifier of the request.
\<close>

theorem grpc_exchange:
  assumes "GrpcClient_ctor name (Some sc) = Inr cl"
    and "FireEvent registered (FromRequest request) (HReply_new, u) = Some (reply, u')"
  shows "\<exists>status r cl'. RequestOnce registered in_time request u = Some ((status, r), u') \<and>
    grpc_run [Send_request (tr_client_id request), Call_completes 0 (tr_client_id request) status r, Thread_turn]
      (GrpcClient_Start cl) = Some cl' \<and>
    gc_completed cl' = [(tr_client_id request,
      if in_time then reply
      else HReply_new\<lparr>tp_client_id := tr_client_id request, tp_status_code := H_TIMEOUT_ERROR,
             tp_status_message := ''Timeout occurred for ID ['' @ tr_client_id request @ '']''\<rparr>)]"
proof -
  let ?i = "tr_client_id request"
  define status where "status = (if in_time then (OK, []) else (DEADLINE_EXCEEDED, ''Timeout occurred for ID ['' @ ?i @ '']''))"
  define r where "r = (if in_time then ToReply reply else ReplyTimeout (FromRequest request))"
  have "RequestOnce registered in_time request u = Some ((status, r), u')"
    using assms(2) by (simp add: RequestOnce_def Let_def status_def r_def)
  moreover have "queue_ok 0 [] False (GrpcClient_Start cl)" "gc_completed (GrpcClient_Start cl) = []"
    using assms(1) by (auto simp: GrpcClient_ctor_def GrpcClient_Start_def queue_ok_def split: if_splits)
  with grpc_run_in_order [of 0 "[]" False "[Send_request ?i, Call_completes 0 ?i status r, Thread_turn]" "GrpcClient_Start cl"]
  have "\<exists>cl'. grpc_run [Send_request ?i, Call_completes 0 ?i status r, Thread_turn] (GrpcClient_Start cl) = Some cl' \<and>
      gc_completed cl' = [(?i, own_reply ?i status r)]" by simp
  ultimately show ?thesis
    by (auto simp: own_reply_def status_def r_def ReplyNotOk_def HReply_new_def)
qed

theorem client_replies_in_order_witness:
  "\<exists>cl'. grpc_run [Send_request ''a'', Send_request ''b'', Call_completes 0 ''a'' (OK, []) GrpcReply_new, Thread_turn,
      Call_completes 1 ''b'' (UNAVAILABLE, ''gone'') GrpcReply_new]
      (GrpcClient_Start \<lparr>gc_service_name = ''s'', gc_creator = StubCreator_ctor ''u'', gc_stub = None, gc_stop = False, gc_replyReceived = False,
         gc_queue = [], gc_requests = 0, gc_completed = []\<rparr>) = Some cl' \<and>
    gc_completed cl' = own_replies [Send_request ''a'', Send_request ''b'', Call_completes 0 ''a'' (OK, []) GrpcReply_new, Thread_turn,
      Call_completes 1 ''b'' (UNAVAILABLE, ''gone'') GrpcReply_new]"
  by (rule client_replies_in_order [of "''s''" "StubCreator_ctor ''u''"]) (simp_all add: GrpcClient_ctor_def)

theorem grpc_exchange_witness:
  "\<exists>status r cl'. RequestOnce [\<lambda>q ru. Some ((fst ru)\<lparr>tp_status_code := H_SUCCESS\<rparr>, snd ru)] False
      \<lparr>tr_client_id = ''a'', tr_type = TYPE_READ, tr_serialized_protobuf = [1]\<rparr> () = Some ((status, r), ()) \<and>
    grpc_run [Send_request ''a'', Call_completes 0 ''a'' status r, Thread_turn]
      (GrpcClient_Start \<lparr>gc_service_name = ''s'', gc_creator = StubCreator_ctor ''u'', gc_stub = None, gc_stop = False, gc_replyReceived = False,
         gc_queue = [], gc_requests = 0, gc_completed = []\<rparr>) = Some cl' \<and>
    gc_completed cl' = [(''a'', HReply_new\<lparr>tp_client_id := ''a'', tp_status_code := H_TIMEOUT_ERROR,
             tp_status_message := ''Timeout occurred for ID [a]''\<rparr>)]"
  using grpc_exchange [of "''s''" "StubCreator_ctor ''u''" "\<lparr>gc_service_name = ''s'', gc_creator = StubCreator_ctor ''u'', gc_stub = None,
        gc_stop = False, gc_replyReceived = False, gc_queue = [], gc_requests = 0, gc_completed = []\<rparr>"
      "[\<lambda>q ru. Some ((fst ru)\<lparr>tp_status_code := H_SUCCESS\<rparr>, snd ru)]" "\<lparr>tr_client_id = ''a'', tr_type = TYPE_READ, tr_serialized_protobuf = [1]\<rparr>"
      "()" "HReply_new\<lparr>tp_status_code := H_SUCCESS\<rparr>" "()" False]
  by (simp add: GrpcClient_ctor_def)

end
