(* ===== verification/Lockup_Apps.thy ===== *)
theory Lockup_Apps
  imports Cat_Apps Message_Pubsub
begin

text \<open>
  The lock-up programs: \<open>apps/lockup-publisher\<close> and \<open>apps/lockup-subscriber\<close>, which are configured by a
  file, and \<open>apps/lockup-standalone\<close>, which needs none.  They repeat the baseline programs with the
  transport chosen by an environment variable, a history of one preallocated sample, and a signal
  handler that ends the process.  Fast DDS is seen through the calls made to it (\<open>dds_call\<close>); which
  creations it answers with an entity is the parameter \<open>ok\<close>.  The environment is a map; a string built
  from a variable that is not set violates the precondition of the constructor.

  Shown: what is created is deleted, inner entities first; the main thread leaves its wait only after a
  signal, and exactly one moment of arrival loses the signal; the counters of the publishers.
\<close>

section \<open>Entities\<close>

type_synonym environ = "string \<Rightarrow> string option"

definition string_of_env :: "environ \<Rightarrow> string \<Rightarrow> string cpp" where
  "string_of_env env name = (case env name of None \<Rightarrow> Inl NullDereference | Some v \<Rightarrow> Inr v)"

datatype transport = Builtin_transports | Udp_transport (maxMessageSize: nat) (sendBufferSize: nat) (receiveBufferSize: nat) (non_blocking_send: bool)

datatype memory_policy = PREALLOCATED_MEMORY_MODE | DYNAMIC_REUSABLE_MEMORY_MODE

record endpoint_settings =
  st_memory :: memory_policy
  st_history :: history_kind
  st_durability :: durability_kind
  st_reliability :: reliability_kind
  st_max_blocking :: "(nat \<times> nat) option"
  st_depth :: int
  st_max_samples :: int
  st_max_instances :: int
  st_max_samples_per_instance :: int

datatype dds_call =
    Create_participant string transport
  | Register_type string
  | Unregister_type string
  | Create_topic string string
  | Create_publisher
  | Create_subscriber
  | Create_datawriter endpoint_settings
  | Create_datareader endpoint_settings
  | Delete_datawriter
  | Delete_datareader
  | Delete_publisher
  | Delete_subscriber
  | Delete_topic
  | Delete_contained_entities
  | Delete_participant

definition udp_9216 :: transport where
  "udp_9216 = Udp_transport 9216 9216 9216 True"

definition lockup_transport :: "environ \<Rightarrow> transport cpp" where
  "lockup_transport env =
     (case string_of_env env ''COMMUNICATION_METHOD'' of
        Inl e \<Rightarrow> Inl e
      | Inr v \<Rightarrow> Inr (if v \<noteq> ''shm'' then udp_9216 else Builtin_transports))"

definition standalone_transport :: "environ \<Rightarrow> transport" where
  "standalone_transport env =
     (case env ''COMMUNICATION_METHOD'' of
        None \<Rightarrow> Builtin_transports
      | Some v \<Rightarrow> if v \<noteq> ''shm'' then udp_9216 else Builtin_transports)"

definition lockup_settings :: endpoint_settings where
  "lockup_settings = \<lparr>st_memory = PREALLOCATED_MEMORY_MODE, st_history = KEEP_LAST_HISTORY_QOS,
     st_durability = TRANSIENT_LOCAL_DURABILITY_QOS, st_reliability = RELIABLE_RELIABILITY_QOS,
     st_max_blocking = None, st_depth = 1, st_max_samples = 1, st_max_instances = 1,
     st_max_samples_per_instance = 1\<rparr>"

definition standalone_writer_settings :: endpoint_settings where
  "standalone_writer_settings = lockup_settings\<lparr>st_max_blocking := Some (0, 100000000)\<rparr>"

text \<open>
  The constructors: the calls in order.  A participant, publisher or subscriber that Fast DDS does not
  create is dereferenced by the next call; a missing writer or reader is only stored.
\<close>

record LockupPublisher =
  lp_base :: Publisher
  lp_writer :: bool

definition publisher_calls :: "transport \<Rightarrow> string \<Rightarrow> string \<Rightarrow> endpoint_settings \<Rightarrow> dds_call list" where
  "publisher_calls t type_name topic q =
     [Create_participant ''Participant_publisher'' t, Register_type type_name, Create_topic topic type_name,
      Create_publisher, Create_datawriter q]"

definition subscriber_calls :: "transport \<Rightarrow> string \<Rightarrow> string \<Rightarrow> endpoint_settings \<Rightarrow> dds_call list" where
  "subscriber_calls t type_name topic q =
     [Create_participant ''Participant_subscriber'' t, Register_type type_name, Create_topic topic type_name,
      Create_subscriber, Create_datareader q]"

definition dereferenced :: "dds_call \<Rightarrow> bool" where
  "dereferenced c = (case c of Create_participant _ _ \<Rightarrow> True | Create_publisher \<Rightarrow> True | Create_subscriber \<Rightarrow> True | _ \<Rightarrow> False)"

definition LockupPublisher_ctor ::
  "environ \<Rightarrow> (dds_call \<Rightarrow> bool) \<Rightarrow> string \<Rightarrow> u32 \<Rightarrow> u32 \<Rightarrow> (LockupPublisher \<times> dds_call list) cpp" where
  "LockupPublisher_ctor env ok name mn mx =
     (case lockup_transport env of
        Inl e \<Rightarrow> Inl e
      | Inr t \<Rightarrow>
          let calls = publisher_calls t ''cat::middleware::Message'' name lockup_settings in
          if list_ex (\<lambda>c. dereferenced c \<and> \<not> ok c) calls then Inl NullDereference
          else Inr (\<lparr>lp_base = Publisher_ctor name mn mx, lp_writer = ok (Create_datawriter lockup_settings)\<rparr>, calls))"

definition LockupPublisher_dtor :: "dds_call list" where
  "LockupPublisher_dtor = [Delete_datawriter, Delete_publisher, Delete_topic, Delete_contained_entities, Delete_participant]"

record LockupSubscriber =
  ls_name :: string
  ls_reader :: bool

definition LockupSubscriber_ctor ::
  "environ \<Rightarrow> (dds_call \<Rightarrow> bool) \<Rightarrow> string \<Rightarrow> (LockupSubscriber \<times> dds_call list) cpp" where
  "LockupSubscriber_ctor env ok name =
     (case lockup_transport env of
        Inl e \<Rightarrow> Inl e
      | Inr t \<Rightarrow>
          let calls = subscriber_calls t ''cat::middleware::Message'' name lockup_settings in
          if list_ex (\<lambda>c. dereferenced c \<and> \<not> ok c) calls then Inl NullDereference
          else Inr (\<lparr>ls_name = name, ls_reader = ok (Create_datareader lockup_settings)\<rparr>, calls))"

definition LockupSubscriber_dtor :: "dds_call list" where
  "LockupSubscriber_dtor = [Delete_datareader, Delete_subscriber, Delete_topic, Delete_contained_entities, Delete_participant]"

record StandalonePublisher =
  sp_name :: string
  sp_current_value :: u32
  sp_writer :: bool

definition StandalonePublisher_ctor ::
  "environ \<Rightarrow> (dds_call \<Rightarrow> bool) \<Rightarrow> string \<Rightarrow> (StandalonePublisher \<times> dds_call list) cpp" where
  "StandalonePublisher_ctor env ok name =
     (let calls = publisher_calls (standalone_transport env) ''Message'' name standalone_writer_settings in
      if list_ex (\<lambda>c. dereferenced c \<and> \<not> ok c) calls then Inl NullDereference
      else Inr (\<lparr>sp_name = name, sp_current_value = 0, sp_writer = ok (Create_datawriter standalone_writer_settings)\<rparr>, calls))"

definition StandaloneSubscriber_ctor ::
  "environ \<Rightarrow> (dds_call \<Rightarrow> bool) \<Rightarrow> string \<Rightarrow> (LockupSubscriber \<times> dds_call list) cpp" where
  "StandaloneSubscriber_ctor env ok name =
     (let calls = subscriber_calls (standalone_transport env) ''Message'' name lockup_settings in
      if list_ex (\<lambda>c. dereferenced c \<and> \<not> ok c) calls then Inl NullDereference
      else Inr (\<lparr>ls_name = name, ls_reader = ok (Create_datareader lockup_settings)\<rparr>, calls))"

section \<open>Publishing and receiving\<close>

definition LockupPublisher_Publish :: "string \<Rightarrow> LockupPublisher \<Rightarrow> (app_message \<times> LockupPublisher) cpp" where
  "LockupPublisher_Publish now p =
     (if lp_writer p
      then case Publisher_Publish now (lp_base p) of (m, b) \<Rightarrow> Inr (m, p\<lparr>lp_base := b\<rparr>)
      else Inl NullDereference)"

definition standalone_publish :: "string \<Rightarrow> StandalonePublisher \<Rightarrow> (app_message \<times> StandalonePublisher) cpp" where
  "standalone_publish now p =
     (let v = (sp_current_value p + 1) mod 100 in
      if sp_writer p
      then Inr (\<lparr>additional_information = now, msg_protobuf = Publisher_To v\<rparr>, p\<lparr>sp_current_value := v\<rparr>)
      else Inl NullDereference)"

text \<open>The callbacks of the data writer that only report that they are not implemented.\<close>

datatype writer_notice = Deadline_missed | Incompatible_qos | Liveliness_lost | Unacknowledged_removed

definition on_writer_notice :: "string \<Rightarrow> writer_notice \<Rightarrow> string" where
  "on_writer_notice name n = bracket name @
     (case n of
        Deadline_missed \<Rightarrow> '' on_offered_deadline_missed not implemented''
      | Incompatible_qos \<Rightarrow> '' on_offered_incompatible_qos not implemented''
      | Liveliness_lost \<Rightarrow> '' on_liveliness_lost not implemented''
      | Unacknowledged_removed \<Rightarrow> '' on_unacknowledged_sample_removed not implemented'')"

text \<open>\<open>on_data_available\<close>; the standalone subscriber says nothing about an invalid sample.\<close>

definition lockup_on_data_available :: "LockupSubscriber \<Rightarrow> bool \<times> bool \<times> app_message \<Rightarrow> string option" where
  "lockup_on_data_available s sample = Subscriber_on_data_available (ls_name s) sample"

definition standalone_on_data_available :: "LockupSubscriber \<Rightarrow> bool \<times> bool \<times> app_message \<Rightarrow> string option" where
  "standalone_on_data_available s = (\<lambda>(ok, valid, message).
     if ok \<and> valid
     then Some (received_text (additional_information message) (ls_name s) (Subscriber_From (msg_protobuf message)))
     else None)"

section \<open>Signals\<close>

datatype signal = SIGUSR1 | SIGUSR2

text \<open>
  What a handler does to the process: it returns, with \<open>exiting\<close> set and the condition notified or
  not; it ends the process; it blocks on \<open>exit_mutex\<close> because a handler in another thread has it; or
  it builds a string from an unset variable.
\<close>

datatype handled = Handler_returns bool | Handler_exits | Handler_blocks | Handler_undefined

definition quick_exit_locked :: "bool \<Rightarrow> handled" where
  "quick_exit_locked exit_mutex_held = (if exit_mutex_held then Handler_blocks else Handler_exits)"

definition signal_handler :: "environ \<Rightarrow> bool \<Rightarrow> signal \<Rightarrow> handled" where
  "signal_handler env exit_mutex_held sig =
     (case sig of
        SIGUSR1 \<Rightarrow>
          (case string_of_env env ''EXIT_SIGUSR1'' of
             Inl _ \<Rightarrow> Handler_undefined
           | Inr a \<Rightarrow>
               if a = ''true'' then
                 (case string_of_env env ''CLEAN_EXIT'' of
                    Inl _ \<Rightarrow> Handler_undefined
                  | Inr c \<Rightarrow> if c = ''false'' then quick_exit_locked exit_mutex_held else Handler_returns True)
               else Handler_returns False)
      | SIGUSR2 \<Rightarrow> quick_exit_locked exit_mutex_held)"

text \<open>
  The main thread in \<open>condition.wait(lock, [] { return exiting; })\<close>: it tests the predicate, and when
  that is false goes on to block; a notification wakes it only once it is blocked.  The handler holds
  no lock the main thread waits with, so it may run between the test and the blocking.
\<close>

datatype main_pc = At_test | Before_block | Blocked | Past_wait | Process_exited | Process_undefined

record wait_state =
  ws_pc :: main_pc
  ws_exiting :: bool

datatype wait_event = Main_step | Spurious_wakeup | Signal_arrives signal

definition wait_init :: wait_state where
  "wait_init = \<lparr>ws_pc = At_test, ws_exiting = False\<rparr>"

definition notify_main :: "main_pc \<Rightarrow> main_pc" where
  "notify_main pc = (if pc = Blocked then At_test else pc)"

definition process_runs :: "main_pc \<Rightarrow> bool" where
  "process_runs pc \<longleftrightarrow> pc \<noteq> Process_exited \<and> pc \<noteq> Process_undefined"

definition main_step :: "wait_state \<Rightarrow> wait_state" where
  "main_step s =
     (case ws_pc s of
        At_test \<Rightarrow> s\<lparr>ws_pc := if ws_exiting s then Past_wait else Before_block\<rparr>
      | Before_block \<Rightarrow> s\<lparr>ws_pc := Blocked\<rparr>
      | _ \<Rightarrow> s)"

definition wait_step :: "environ \<Rightarrow> wait_event \<Rightarrow> wait_state \<Rightarrow> wait_state" where
  "wait_step env ev s =
     (if \<not> process_runs (ws_pc s) then s
      else case ev of
        Main_step \<Rightarrow> main_step s
      | Spurious_wakeup \<Rightarrow> s\<lparr>ws_pc := notify_main (ws_pc s)\<rparr>
      | Signal_arrives sig \<Rightarrow>
          (case signal_handler env False sig of
             Handler_returns True \<Rightarrow> \<lparr>ws_pc = notify_main (ws_pc s), ws_exiting = True\<rparr>
           | Handler_returns False \<Rightarrow> s
           | Handler_exits \<Rightarrow> s\<lparr>ws_pc := Process_exited\<rparr>
           | Handler_blocks \<Rightarrow> s
           | Handler_undefined \<Rightarrow> s\<lparr>ws_pc := Process_undefined\<rparr>))"

definition wait_run :: "environ \<Rightarrow> wait_event list \<Rightarrow> wait_state \<Rightarrow> wait_state" where
  "wait_run env evs s = fold (wait_step env) evs s"

section \<open>The programs\<close>

fun cpp_map :: "('a \<Rightarrow> 'b cpp) \<Rightarrow> 'a list \<Rightarrow> 'b list cpp" where
  "cpp_map f [] = Inr []"
| "cpp_map f (x # xs) =
     (case f x of Inl e \<Rightarrow> Inl e
      | Inr y \<Rightarrow> (case cpp_map f xs of Inl e \<Rightarrow> Inl e | Inr ys \<Rightarrow> Inr (y # ys)))"

text \<open>
  \<open>RunNoThreads\<close>, and the loop of each thread of \<open>RunWithThreads\<close> with a single publisher.  The list
  has the values of \<open>exiting\<close> that the tests of the loop see; \<open>None\<close> when it is used up.
\<close>

fun RunNoThreads :: "('p \<Rightarrow> (app_message \<times> 'p) cpp) \<Rightarrow> bool list \<Rightarrow> 'p list \<Rightarrow> (app_message list list \<times> 'p list) cpp option" where
  "RunNoThreads publish [] ps = None"
| "RunNoThreads publish (e # es) ps =
     (if e then Some (Inr ([], ps))
      else case cpp_map publish ps of
             Inl err \<Rightarrow> Some (Inl err)
           | Inr r \<Rightarrow>
               (case RunNoThreads publish es (map snd r) of
                  None \<Rightarrow> None
                | Some (Inl err) \<Rightarrow> Some (Inl err)
                | Some (Inr (ms, ps')) \<Rightarrow> Some (Inr (map fst r # ms, ps'))))"

definition RunWithThreads ::
  "('p \<Rightarrow> (app_message \<times> 'p) cpp) \<Rightarrow> bool list list \<Rightarrow> 'p list \<Rightarrow> (app_message list list \<times> 'p list) cpp option list" where
  "RunWithThreads publish observed ps = map2 (\<lambda>es p. RunNoThreads publish es [p]) observed ps"

definition lockup_publisher_main ::
  "environ \<Rightarrow> (dds_call \<Rightarrow> bool) \<Rightarrow> string list \<Rightarrow> pub_config \<Rightarrow> LockupPublisher started cpp" where
  "lockup_publisher_main env ok argv document =
     (if length argv < 2 then Inl NullDereference
      else case document of
             None \<Rightarrow> Inr (ExitCode 0)
           | Some (rate, nodes) \<Rightarrow>
               (case cpp_map (\<lambda>(name, mn, mx). LockupPublisher_ctor env ok name mn mx) nodes of
                  Inl e \<Rightarrow> Inl e
                | Inr created \<Rightarrow>
                    Inr (if argv ! 1 = ''1'' then ThreadEach rate (map fst created) else SingleThread rate (map fst created))))"

datatype 's subscriber_started = Exited int | Waiting "'s list"

definition lockup_subscriber_main ::
  "environ \<Rightarrow> (dds_call \<Rightarrow> bool) \<Rightarrow> string list option \<Rightarrow> LockupSubscriber subscriber_started cpp" where
  "lockup_subscriber_main env ok document =
     (case document of
        None \<Rightarrow> Inr (Exited 0)
      | Some names \<Rightarrow>
          (case cpp_map (LockupSubscriber_ctor env ok) names of
             Inl e \<Rightarrow> Inl e
           | Inr created \<Rightarrow> Inr (Waiting (map fst created))))"

definition standalone_names :: "string list" where
  "standalone_names = map (\<lambda>i. ''Parameter'' @ show_nat i) [0..<3]"

definition standalone_publisher_main :: "environ \<Rightarrow> (dds_call \<Rightarrow> bool) \<Rightarrow> StandalonePublisher started cpp" where
  "standalone_publisher_main env ok =
     (case cpp_map (StandalonePublisher_ctor env ok) standalone_names of
        Inl e \<Rightarrow> Inl e
      | Inr created \<Rightarrow> Inr (ThreadEach 100 (map fst created)))"

definition standalone_subscriber_main :: "environ \<Rightarrow> (dds_call \<Rightarrow> bool) \<Rightarrow> LockupSubscriber subscriber_started cpp" where
  "standalone_subscriber_main env ok =
     (case cpp_map (StandaloneSubscriber_ctor env ok) standalone_names of
        Inl e \<Rightarrow> Inl e
      | Inr created \<Rightarrow> Inr (Waiting (map fst created)))"

section \<open>Teardown\<close>

text \<open>The entities of a process as a stack: a creation pushes, a deletion must find its entity on top.\<close>

datatype entity = Participant_entity | Topic_entity | Publisher_entity | Subscriber_entity | Writer_entity | Reader_entity

fun opens :: "dds_call \<Rightarrow> entity option" where
  "opens (Create_participant _ _) = Some Participant_entity"
| "opens (Create_topic _ _) = Some Topic_entity"
| "opens Create_publisher = Some Publisher_entity"
| "opens Create_subscriber = Some Subscriber_entity"
| "opens (Create_datawriter _) = Some Writer_entity"
| "opens (Create_datareader _) = Some Reader_entity"
| "opens _ = None"

fun closes :: "dds_call \<Rightarrow> entity option" where
  "closes Delete_datawriter = Some Writer_entity"
| "closes Delete_datareader = Some Reader_entity"
| "closes Delete_publisher = Some Publisher_entity"
| "closes Delete_subscriber = Some Subscriber_entity"
| "closes Delete_topic = Some Topic_entity"
| "closes Delete_participant = Some Participant_entity"
| "closes _ = None"

fun nested :: "dds_call list \<Rightarrow> entity list \<Rightarrow> entity list option" where
  "nested [] st = Some st"
| "nested (c # cs) st =
     (case opens c of
        Some e \<Rightarrow> nested cs (e # st)
      | None \<Rightarrow>
          (case closes c of
             None \<Rightarrow> nested cs st
           | Some e \<Rightarrow> (case st of x # st' \<Rightarrow> if x = e then nested cs st' else None | [] \<Rightarrow> None)))"

lemma nested_publisher: "nested (publisher_calls t ty n q @ LockupPublisher_dtor @ cs) st = nested cs st"
  by (simp add: publisher_calls_def LockupPublisher_dtor_def)

lemma nested_subscriber: "nested (subscriber_calls t ty n q @ LockupSubscriber_dtor @ cs) st = nested cs st"
  by (simp add: subscriber_calls_def LockupSubscriber_dtor_def)

lemma LockupPublisher_ctor_Inr:
  "LockupPublisher_ctor env ok name mn mx = Inr (p, calls) \<longleftrightarrow>
     (\<exists>t. lockup_transport env = Inr t \<and> calls = publisher_calls t ''cat::middleware::Message'' name lockup_settings \<and>
        (\<forall>c \<in> set calls. dereferenced c \<longrightarrow> ok c) \<and>
        p = \<lparr>lp_base = Publisher_ctor name mn mx, lp_writer = ok (Create_datawriter lockup_settings)\<rparr>)"
  by (auto simp: LockupPublisher_ctor_def Let_def list_ex_iff split: sum.splits)

lemma LockupSubscriber_ctor_Inr:
  "LockupSubscriber_ctor env ok name = Inr (s, calls) \<longleftrightarrow>
     (\<exists>t. lockup_transport env = Inr t \<and> calls = subscriber_calls t ''cat::middleware::Message'' name lockup_settings \<and>
        (\<forall>c \<in> set calls. dereferenced c \<longrightarrow> ok c) \<and>
        s = \<lparr>ls_name = name, ls_reader = ok (Create_datareader lockup_settings)\<rparr>)"
  by (auto simp: LockupSubscriber_ctor_def Let_def list_ex_iff split: sum.splits)

section \<open>The wait\<close>

definition clean_exit_env :: "environ \<Rightarrow> bool" where
  "clean_exit_env env \<longleftrightarrow> env ''EXIT_SIGUSR1'' = Some ''true'' \<and> (\<exists>c. env ''CLEAN_EXIT'' = Some c \<and> c \<noteq> ''false'')"

lemma clean_signal: "clean_exit_env env \<Longrightarrow> signal_handler env held SIGUSR1 = Handler_returns True"
  by (auto simp: clean_exit_env_def signal_handler_def string_of_env_def)

lemma wait_run_append: "wait_run env (es @ es') s = wait_run env es' (wait_run env es s)"
  by (simp add: wait_run_def)

lemma wait_run_Cons: "wait_run env (e # es) s = wait_run env es (wait_step env e s)"
  by (simp add: wait_run_def)

lemmas wait_eval = wait_step_def main_step_def process_runs_def notify_main_def

lemma wait_step_Main: "wait_step env Main_step s = main_step s"
  by (cases "ws_pc s") (simp_all add: wait_eval)

lemma main_steps_fixed: "main_step s = s \<Longrightarrow> wait_run env (replicate n Main_step) s = s"
  by (induction n) (simp_all add: wait_run_def wait_step_Main)

lemma main_steps_from_test:
  "wait_run env (replicate n Main_step) wait_init =
     \<lparr>ws_pc = (if n = 0 then At_test else if n = 1 then Before_block else Blocked), ws_exiting = False\<rparr>"
proof (cases "n < 2")
  case True
  then show ?thesis by (auto simp: less_2_cases_iff wait_run_def wait_init_def wait_step_Main main_step_def)
next
  case False
  then obtain k where n: "n = Suc (Suc k)" by (metis add_2_eq_Suc le_Suc_ex not_less)
  have "wait_run env (replicate n Main_step) wait_init =
      wait_run env (replicate k Main_step) \<lparr>ws_pc = Blocked, ws_exiting = False\<rparr>"
    by (simp add: n wait_run_Cons wait_init_def wait_step_Main main_step_def)
  also have "\<dots> = \<lparr>ws_pc = Blocked, ws_exiting = False\<rparr>" by (simp add: main_steps_fixed main_step_def)
  finally show ?thesis by (simp add: n)
qed

lemma test_exits:
  "ws_pc (wait_run env (replicate m Main_step) \<lparr>ws_pc = At_test, ws_exiting = True\<rparr>) = Past_wait \<longleftrightarrow> 0 < m"
proof (cases m)
  case (Suc k)
  have "wait_run env (replicate m Main_step) \<lparr>ws_pc = At_test, ws_exiting = True\<rparr> =
      wait_run env (replicate k Main_step) \<lparr>ws_pc = Past_wait, ws_exiting = True\<rparr>"
    by (simp add: Suc wait_run_Cons wait_step_Main main_step_def)
  then show ?thesis by (simp add: Suc main_steps_fixed main_step_def)
qed (simp add: wait_run_def)

lemma gap_blocks:
  "ws_pc (wait_run env (replicate m Main_step) \<lparr>ws_pc = Before_block, ws_exiting = True\<rparr>) \<noteq> Past_wait"
proof (cases m)
  case (Suc k)
  have "wait_run env (replicate m Main_step) \<lparr>ws_pc = Before_block, ws_exiting = True\<rparr> =
      wait_run env (replicate k Main_step) \<lparr>ws_pc = Blocked, ws_exiting = True\<rparr>"
    by (simp add: Suc wait_run_Cons wait_step_Main main_step_def)
  then show ?thesis by (simp add: main_steps_fixed main_step_def)
qed (simp add: wait_run_def)

definition wait_inv :: "wait_state \<Rightarrow> bool" where
  "wait_inv s \<longleftrightarrow> (ws_pc s = Past_wait \<longrightarrow> ws_exiting s)"

lemma wait_inv_step: "wait_inv s \<Longrightarrow> wait_inv (wait_step env e s)"
  by (cases "ws_pc s") (auto simp: wait_inv_def wait_eval split: wait_event.splits handled.splits bool.splits)

lemma exiting_needs_signal:
  "ws_exiting (wait_step env e s) \<Longrightarrow> \<not> ws_exiting s \<Longrightarrow> e = Signal_arrives SIGUSR1 \<and> clean_exit_env env"
  by (auto simp: wait_eval clean_exit_env_def signal_handler_def string_of_env_def quick_exit_locked_def
      split: if_splits wait_event.splits handled.splits bool.splits main_pc.splits signal.splits option.splits)

lemma wait_run_inv: "wait_inv s \<Longrightarrow> wait_inv (wait_run env es s)"
  by (induction es arbitrary: s) (simp_all add: wait_run_Cons wait_inv_step, simp add: wait_run_def)

lemma run_exiting:
  "ws_exiting (wait_run env es s) \<Longrightarrow> \<not> ws_exiting s \<Longrightarrow> Signal_arrives SIGUSR1 \<in> set es \<and> clean_exit_env env"
proof (induction es arbitrary: s)
  case (Cons e es)
  then show ?case
    by (cases "ws_exiting (wait_step env e s)") (auto simp: wait_run_Cons dest: exiting_needs_signal)
qed (simp add: wait_run_def)

section \<open>Rounds\<close>

lemma cpp_map_Inr: "(\<And>x. x \<in> set xs \<Longrightarrow> f x = Inr (g x)) \<Longrightarrow> cpp_map f xs = Inr (map g xs)"
  by (induction xs) auto

fun rounds :: "('p \<Rightarrow> app_message \<times> 'p) \<Rightarrow> nat \<Rightarrow> 'p list \<Rightarrow> app_message list list \<times> 'p list" where
  "rounds g 0 ps = ([], ps)"
| "rounds g (Suc n) ps = (case rounds g n (map (snd \<circ> g) ps) of (ms, ps') \<Rightarrow> (map (fst \<circ> g) ps # ms, ps'))"

lemma RunNoThreads_rounds:
  assumes "\<And>p. I p \<Longrightarrow> publish p = Inr (g p)" "\<And>p. I p \<Longrightarrow> I (snd (g p))" "\<forall>p \<in> set ps. I p"
  shows "RunNoThreads publish (replicate n False @ True # es) ps = Some (Inr (rounds g n ps))"
  using assms(3)
proof (induction n arbitrary: ps)
  case (Suc n)
  have c: "cpp_map publish ps = Inr (map g ps)" using Suc.prems assms(1) by (intro cpp_map_Inr) blast
  have "\<forall>p \<in> set (map (snd \<circ> g) ps). I p" using Suc.prems assms(2) by auto
  from Suc.IH [OF this] show ?case by (simp add: c comp_def split: prod.splits)
qed simp

definition standalone_next :: "string \<Rightarrow> StandalonePublisher \<Rightarrow> app_message \<times> StandalonePublisher" where
  "standalone_next now p =
     (\<lparr>additional_information = now, msg_protobuf = Publisher_To ((sp_current_value p + 1) mod 100)\<rparr>,
      p\<lparr>sp_current_value := (sp_current_value p + 1) mod 100\<rparr>)"

lemma standalone_publish_next: "sp_writer p \<Longrightarrow> standalone_publish now p = Inr (standalone_next now p)"
  by (simp add: standalone_publish_def standalone_next_def Let_def)

lemma standalone_count: "(of_nat (k mod 100) + 1 :: u32) mod 100 = of_nat (Suc k mod 100)"
proof -
  let ?j = "Suc (k mod 100)"
  have u: "unat (of_nat j :: u32) = j" if "j \<le> 100" for j
    using that by (simp add: unat_of_nat)
  have "?j \<le> 100" "?j mod 100 \<le> 100"
    using mod_less_divisor [of 100 k] mod_less_divisor [of 100 ?j] by simp_all
  then have "unat (of_nat ?j mod (100 :: u32)) = unat (of_nat (?j mod 100) :: u32)"
    by (simp only: unat_mod u) simp
  then have "of_nat ?j mod (100 :: u32) = of_nat (?j mod 100)" by (simp only: word_unat_eq_iff)
  then show ?thesis by (simp add: add.commute mod_Suc_eq)
qed

lemma standalone_rounds:
  "sp_current_value p = of_nat (k mod 100) \<Longrightarrow>
   fst (rounds (standalone_next now) n [p]) =
     map (\<lambda>i. [\<lparr>additional_information = now, msg_protobuf = Publisher_To (of_nat ((k + i + 1) mod 100))\<rparr>]) [0..<n]"
proof (induction n arbitrary: p k)
  case (Suc n)
  let ?q = "snd (standalone_next now p)"
  have q: "sp_current_value ?q = of_nat (Suc k mod 100)"
    using Suc.prems by (simp add: standalone_next_def standalone_count)
  have up: "[0..<Suc n] = 0 # map Suc [0..<n]" by (simp only: upt_conv_Cons map_Suc_upt)
  show ?case
    using Suc.IH [OF q] Suc.prems
    by (simp add: up comp_def case_prod_beta standalone_count del: upt_Suc) (simp add: standalone_next_def standalone_count)
qed simp

section \<open>Properties\<close>

text \<open>
C34: The main thread of a lock-up program and the signal that ends it: a clean exit signal that
arrives after \<open>n\<close> steps of the wait, followed by at least one more step, ends the wait unless \<open>n\<close> is 1,
the moment between the test of \<open>exiting\<close> and the blocking; then the notification is lost and the
thread stays blocked with \<open>exiting\<close> set, however many steps follow.
\<close>

theorem signal_lost_in_gap:
  assumes "clean_exit_env env" "0 < m"
  shows "(ws_pc (wait_run env (replicate n Main_step @ Signal_arrives SIGUSR1 # replicate m Main_step) wait_init) = Past_wait
      \<longleftrightarrow> n \<noteq> 1) \<and>
    wait_run env (Main_step # Signal_arrives SIGUSR1 # replicate m Main_step) wait_init =
      \<lparr>ws_pc = Blocked, ws_exiting = True\<rparr>"
proof
  let ?s = "wait_run env (replicate n Main_step) wait_init"
  have sig: "wait_step env (Signal_arrives SIGUSR1) \<lparr>ws_pc = pc, ws_exiting = False\<rparr> = \<lparr>ws_pc = notify_main pc, ws_exiting = True\<rparr>"
    if "process_runs pc" for pc
    using that by (simp add: wait_step_def clean_signal [OF assms(1)])
  have "wait_step env (Signal_arrives SIGUSR1) ?s =
      \<lparr>ws_pc = (if n = 1 then Before_block else At_test), ws_exiting = True\<rparr>"
    by (simp add: main_steps_from_test sig process_runs_def notify_main_def)
  then show "ws_pc (wait_run env (replicate n Main_step @ Signal_arrives SIGUSR1 # replicate m Main_step) wait_init) = Past_wait
      \<longleftrightarrow> n \<noteq> 1"
    using assms(2) gap_blocks [of env m] by (simp add: wait_run_append wait_run_Cons test_exits)
  obtain k where m: "m = Suc k" using assms(2) gr0_conv_Suc by blast
  have "wait_run env (Main_step # Signal_arrives SIGUSR1 # replicate m Main_step) wait_init =
      wait_run env (replicate k Main_step) \<lparr>ws_pc = Blocked, ws_exiting = True\<rparr>"
    by (simp add: m wait_run_Cons wait_init_def wait_step_Main main_step_def sig process_runs_def notify_main_def)
  then show "wait_run env (Main_step # Signal_arrives SIGUSR1 # replicate m Main_step) wait_init = \<lparr>ws_pc = Blocked, ws_exiting = True\<rparr>"
    by (simp add: main_steps_fixed main_step_def)
qed

theorem signal_lost_in_gap_witness:
  "wait_run [''EXIT_SIGUSR1'' \<mapsto> ''true'', ''CLEAN_EXIT'' \<mapsto> ''true'']
     [Main_step, Signal_arrives SIGUSR1, Main_step, Main_step] wait_init = \<lparr>ws_pc = Blocked, ws_exiting = True\<rparr>"
proof -
  have "clean_exit_env [''EXIT_SIGUSR1'' \<mapsto> ''true'', ''CLEAN_EXIT'' \<mapsto> ''true'']" by (simp add: clean_exit_env_def)
  from signal_lost_in_gap [OF this, of 2 0] show ?thesis by (simp add: numeral_2_eq_2)
qed

text \<open>
  The main thread passes its wait only if a SIGUSR1 has arrived and the environment asks for a
clean exit, whatever the order of steps, spurious wakeups and signals.
\<close>

theorem wait_ends_on_signal:
  assumes "ws_pc (wait_run env es wait_init) = Past_wait"
  shows "Signal_arrives SIGUSR1 \<in> set es \<and> clean_exit_env env"
proof -
  have "wait_inv (wait_run env es wait_init)" by (rule wait_run_inv) (simp add: wait_inv_def wait_init_def)
  then have "ws_exiting (wait_run env es wait_init)" using assms by (simp add: wait_inv_def)
  then show ?thesis by (rule run_exiting) (simp add: wait_init_def)
qed

theorem wait_ends_on_signal_witness:
  "Signal_arrives SIGUSR1 \<in> set [Signal_arrives SIGUSR1, Main_step] \<and>
   clean_exit_env [''EXIT_SIGUSR1'' \<mapsto> ''true'', ''CLEAN_EXIT'' \<mapsto> ''true'']"
  by (rule wait_ends_on_signal)
     (simp add: wait_run_def wait_eval signal_handler_def string_of_env_def wait_init_def)

text \<open>
Constructing a publisher and a subscriber and destroying them again leaves no entity behind:
every deletion finds its entity as the most recent one, so inner entities go before their container.
\<close>

theorem entities_torn_down:
  assumes "LockupPublisher_ctor env ok pname mn mx = Inr (p, pcalls)" "LockupSubscriber_ctor env ok sname = Inr (s, scalls)"
  shows "nested (pcalls @ LockupPublisher_dtor @ scalls @ LockupSubscriber_dtor) [] = Some [] \<and>
    st_depth lockup_settings \<le> st_max_samples_per_instance lockup_settings \<and>
    st_max_samples_per_instance lockup_settings \<le> st_max_samples lockup_settings"
proof -
  obtain t u where "pcalls = publisher_calls t ''cat::middleware::Message'' pname lockup_settings"
      "scalls = subscriber_calls u ''cat::middleware::Message'' sname lockup_settings"
    using assms by (auto simp: LockupPublisher_ctor_Inr LockupSubscriber_ctor_Inr)
  then show ?thesis
    using nested_subscriber [of u "''cat::middleware::Message''" sname lockup_settings "[]" "[]"]
    by (simp add: nested_publisher lockup_settings_def)
qed

theorem entities_torn_down_witness:
  "nested (publisher_calls udp_9216 ''cat::middleware::Message'' ''a'' lockup_settings @ LockupPublisher_dtor @
     subscriber_calls udp_9216 ''cat::middleware::Message'' ''b'' lockup_settings @ LockupSubscriber_dtor) [] = Some []"
proof -
  let ?env = "[''COMMUNICATION_METHOD'' \<mapsto> ''udp'']"
  have t: "lockup_transport ?env = Inr udp_9216" by (simp add: lockup_transport_def string_of_env_def)
  have "LockupPublisher_ctor ?env (\<lambda>_. True) ''a'' 0 1 =
      Inr (\<lparr>lp_base = Publisher_ctor ''a'' 0 1, lp_writer = True\<rparr>, publisher_calls udp_9216 ''cat::middleware::Message'' ''a'' lockup_settings)"
    "LockupSubscriber_ctor ?env (\<lambda>_. True) ''b'' =
      Inr (\<lparr>ls_name = ''b'', ls_reader = True\<rparr>, subscriber_calls udp_9216 ''cat::middleware::Message'' ''b'' lockup_settings)"
    by (simp_all add: LockupPublisher_ctor_Inr LockupSubscriber_ctor_Inr t)
  then show ?thesis by (rule entities_torn_down [THEN conjunct1])
qed

text \<open>
  A thread of the standalone publisher publishes once for every test that sees \<open>exiting\<close> unset
and then ends; its \<open>i\<close>-th message carries \<open>(i + 1) mod 100\<close>, and a subscriber prints that value.
\<close>

theorem standalone_thread_messages:
  assumes "StandalonePublisher_ctor env ok name = Inr (p, calls)" "sp_writer p"
  shows "\<exists>ps. RunNoThreads (standalone_publish now) (replicate n False @ [True]) [p] =
      Some (Inr (map (\<lambda>i. [\<lparr>additional_information = now, msg_protobuf = Publisher_To (of_nat (Suc i mod 100))\<rparr>]) [0..<n], ps))"
proof -
  have "sp_current_value p = of_nat (0 mod 100)"
    using assms(1) by (auto simp: StandalonePublisher_ctor_def Let_def split: if_splits)
  note m = standalone_rounds [OF this, of now n]
  have "RunNoThreads (standalone_publish now) (replicate n False @ [True]) [p] = Some (Inr (rounds (standalone_next now) n [p]))"
    using assms(2) by (intro RunNoThreads_rounds [where I = sp_writer]) (simp_all add: standalone_publish_next standalone_next_def)
  then show ?thesis using m by (cases "rounds (standalone_next now) n [p]") simp
qed

theorem standalone_thread_messages_witness:
  "\<exists>ps. RunNoThreads (standalone_publish ''t'') (replicate 2 False @ [True])
      [\<lparr>sp_name = ''x'', sp_current_value = 0, sp_writer = True\<rparr>] =
      Some (Inr (map (\<lambda>i. [\<lparr>additional_information = ''t'', msg_protobuf = Publisher_To (of_nat (Suc i mod 100))\<rparr>]) [0..<2], ps))"
proof -
  have "StandalonePublisher_ctor Map.empty (\<lambda>_. True) ''x'' = Inr (\<lparr>sp_name = ''x'', sp_current_value = 0, sp_writer = True\<rparr>,
      publisher_calls Builtin_transports ''Message'' ''x'' standalone_writer_settings)"
    by (simp add: StandalonePublisher_ctor_def Let_def list_ex_iff standalone_transport_def)
  then show ?thesis by (rule standalone_thread_messages) simp
qed

end
