(* ===== verification/Discovery_Server.thy ===== *)
theory Discovery_Server
  imports Std_Stream
begin

text \<open>
  Discovery through a server: the program \<open>apps/DiscoveryServer\<close>, and \<open>ApplyDiscoveryServer\<close> of
  \<open>lib/framework/dds/eprosima/DomainParticipantMessageStub.cpp\<close>, which makes a participant a client of it.
  On the guest target the address of the server is found by reading \<open>/etc/hosts\<close>, given here by its lines;
  the call of \<open>ApplyDiscoveryServer\<close> is commented out in the constructor of the stub.

  Shown: addresses are read as they are written, the lowest address that is not a host's is taken, client
  and server agree on the locator, and the lower-casing of a line has no effect.
\<close>

section \<open>Locators and settings\<close>

datatype locator_kind = LOCATOR_KIND_UDPv4

record Locator =
  lo_kind :: locator_kind
  lo_port :: u32
  lo_ipv4 :: bytes

datatype discovery_protocol = SIMPLE | CLIENT | SERVER

record discovery_qos =
  dq_protocol :: discovery_protocol
  dq_servers :: "Locator list"
  dq_metatraffic :: "Locator list"

datatype build_target = ARM64_GUEST | X86_WORKSTATION

definition locator_port :: u32 where "locator_port = 64863"

text \<open>\<open>IPLocator::setIPv4\<close> takes four octets; the arguments are converted to eight bits.\<close>

definition setIPv4 :: "u32 list \<Rightarrow> Locator \<Rightarrow> Locator" where
  "setIPv4 ip l = l\<lparr>lo_ipv4 := map ucast ip\<rparr>"

definition udp_locator :: Locator where
  "udp_locator = \<lparr>lo_kind = LOCATOR_KIND_UDPv4, lo_port = locator_port, lo_ipv4 = [0, 0, 0, 0]\<rparr>"

section \<open>The program\<close>

definition discovery_server_main :: "build_target \<Rightarrow> discovery_qos \<Rightarrow> discovery_qos" where
  "discovery_server_main target qos =
     (let locator = (case target of
          ARM64_GUEST \<Rightarrow> setIPv4 [0, 0, 0, 0] udp_locator
        | X86_WORKSTATION \<Rightarrow> setIPv4 [127, 0, 0, 1] udp_locator)
      in qos\<lparr>dq_protocol := SERVER, dq_metatraffic := dq_metatraffic qos @ [locator]\<rparr>)"

section \<open>Reading addresses\<close>

text \<open>
  \<open>ss >> n\<close> on an \<open>unsigned int\<close> and \<open>ss.get()\<close>.  An extraction from a failed stream leaves the variable,
  which is 0; a number that does not fit is clamped, and a minus sign negates modulo \<open>2 ^ 32\<close>.
\<close>

definition get_uint :: "istream \<Rightarrow> u32 \<times> istream" where
  "get_uint s =
     (if is_fail s then (0, s)
      else let r = dropWhile isspace (is_text s) in
        if r = [] then (0, \<lparr>is_text = [], is_fail = True\<rparr>)
        else let neg = (hd r = CHR ''-''); r' = (if neg \<or> hd r = CHR ''+'' then tl r else r);
                 ds = takeWhile isdigit r' in
          if ds = [] then (0, \<lparr>is_text = r', is_fail = True\<rparr>)
          else if read_nat ds \<ge> 2 ^ 32 then (- 1, \<lparr>is_text = dropWhile isdigit r', is_fail = True\<rparr>)
          else (if neg then - of_nat (read_nat ds) else of_nat (read_nat ds), s\<lparr>is_text := dropWhile isdigit r'\<rparr>))"

definition get_char :: "istream \<Rightarrow> istream" where
  "get_char s =
     (if is_fail s then s else if is_text s = [] then s\<lparr>is_fail := True\<rparr> else s\<lparr>is_text := tl (is_text s)\<rparr>)"

definition parse_ip :: "string \<Rightarrow> u32 list" where
  "parse_ip line =
     (case get_uint (istringstream line) of (a, s1) \<Rightarrow>
        case get_uint (get_char s1) of (b, s2) \<Rightarrow>
          case get_uint (get_char s2) of (c, s3) \<Rightarrow>
            case get_uint (get_char s3) of (d, _) \<Rightarrow> [a, b, c, d])"

definition host_word :: string where "host_word = ''host''"

definition lower :: "char \<Rightarrow> bool" where
  "lower c \<longleftrightarrow> (97 :: nat) \<le> of_char c \<and> of_char c \<le> (122 :: nat)"

text \<open>\<open>line.find("host", from)\<close>\<close>

definition find_host :: "string \<Rightarrow> nat \<Rightarrow> nat option" where
  "find_host line from =
     List.find (\<lambda>i. take 4 (drop i line) = host_word) [from..<Suc (length line)]"

lemma find_host_bounds: "find_host line from = Some i \<Longrightarrow> from \<le> i \<and> i + 4 \<le> length line"
proof -
  assume "find_host line from = Some i"
  then have "i \<in> set [from..<Suc (length line)]" "take 4 (drop i line) = host_word"
    unfolding find_host_def find_Some_iff by (metis nth_mem)+
  then have "min 4 (length line - i) = length host_word" "from \<le> i"
    by (metis length_take length_drop min.commute, auto)
  then show ?thesis by (simp add: host_word_def min_def split: if_splits)
qed

text \<open>
  The inner loop: whether the line is skipped.  The search starts behind the first character; a \<open>host\<close>
  whose neighbours are both lower-case letters is passed over.
\<close>

function skip_from :: "string \<Rightarrow> nat \<Rightarrow> bool" where
  "skip_from line hostIndex =
     (case find_host line (hostIndex + 1) of
        None \<Rightarrow> False
      | Some i \<Rightarrow>
          if \<not> lower (line ! (i - 1)) then True
          else if i + 4 \<ge> length line then False
          else if \<not> lower (line ! (i + 4)) then True
          else skip_from line (i + 4))"
  by auto
termination
  by (relation "measure (\<lambda>(line, i). length line - i)") (auto dest!: find_host_bounds)

declare skip_from.simps [simp del]

text \<open>\<open>std::for_each\<close> discards what \<open>std::tolower\<close> returns.\<close>

definition for_each_tolower :: "string \<Rightarrow> string" where
  "for_each_tolower line = line"

definition line_ip :: "string \<Rightarrow> u32 list option" where
  "line_ip line =
     (if take 4 line \<noteq> ''172.'' then None
      else let line = for_each_tolower line in
        if skip_from line 0 then None else Some (parse_ip line))"

definition vm_ips :: "build_target \<Rightarrow> string list \<Rightarrow> u32 list list" where
  "vm_ips target hosts =
     (case target of
        ARM64_GUEST \<Rightarrow> List.map_filter line_ip hosts
      | X86_WORKSTATION \<Rightarrow> [[127, 0, 0, 1]])"

definition ApplyDiscoveryServer :: "build_target \<Rightarrow> string list \<Rightarrow> discovery_qos \<Rightarrow> discovery_qos" where
  "ApplyDiscoveryServer target hosts qos =
     (let vmIPs = vm_ips target hosts in
      if vmIPs = [] then qos
      else qos\<lparr>dq_protocol := CLIENT, dq_servers := dq_servers qos @ [setIPv4 (hd (sort vmIPs)) udp_locator]\<rparr>)"

section \<open>Lemmas\<close>

lemma get_uint_number:
  assumes "n < 2 ^ 32" "rest = [] \<or> \<not> isdigit (hd rest)"
  shows "get_uint \<lparr>is_text = show_nat n @ rest, is_fail = False\<rparr> = (of_nat n, \<lparr>is_text = rest, is_fail = False\<rparr>)"
proof -
  have ds: "\<And>c. c \<in> set (show_nat n) \<Longrightarrow> isdigit c" "hd (show_nat n) \<noteq> CHR ''-''" "hd (show_nat n) \<noteq> CHR ''+''"
    using show_nat_digits [of n] show_nat_nonempty [of n] by (auto simp: list_all_iff)
  have "takeWhile isdigit rest = []" "dropWhile isdigit rest = rest"
    using assms(2) by (cases rest; simp)+
  then have "takeWhile isdigit (show_nat n @ rest) = show_nat n" "dropWhile isdigit (show_nat n @ rest) = rest"
    using ds(1) by (simp_all add: takeWhile_append2 dropWhile_append2)
  then show ?thesis
    using assms(1) ds(2,3) by (simp add: get_uint_def Let_def skip_word [OF is_word_show_nat])
qed

definition show_ip :: "nat list \<Rightarrow> string" where
  "show_ip ip = show_nat (ip ! 0) @ ''.'' @ show_nat (ip ! 1) @ ''.'' @ show_nat (ip ! 2) @ ''.'' @ show_nat (ip ! 3)"

lemma parse_show_ip:
  assumes "a < 2 ^ 32" "b < 2 ^ 32" "c < 2 ^ 32" "d < 2 ^ 32" "rest = [] \<or> \<not> isdigit (hd rest)"
  shows "parse_ip (show_ip [a, b, c, d] @ rest) = map of_nat [a, b, c, d]"
proof -
  have dot: "\<not> isdigit CHR ''.''" by (simp add: isdigit_def)
  note g = get_uint_number [where rest = "CHR ''.'' # r" for r]
  show ?thesis
    using assms dot get_uint_number [OF assms(4,5)]
    by (simp add: parse_ip_def show_ip_def istringstream_def g get_char_def)
qed

lemma hd_sort_min:
  fixes xs :: "'a::linorder list"
  assumes "xs \<noteq> []"
  shows "hd (sort xs) \<in> set xs \<and> (\<forall>x \<in> set xs. hd (sort xs) \<le> x)"
proof -
  have "sort xs \<noteq> []" using assms by (metis set_empty set_sort)
  then obtain y ys where s: "sort xs = y # ys" by (cases "sort xs") auto
  then have "sorted (y # ys)" "set (y # ys) = set xs" using sorted_sort [of xs] set_sort s by (metis, metis)
  then show ?thesis using s by auto
qed

text \<open>
  A line of the hosts file that is not skipped yields the address it starts with, whatever follows
  the address.
\<close>

lemma hosts_line:
  assumes "b < 2 ^ 32" "c < 2 ^ 32" "d < 2 ^ 32" "rest = [] \<or> \<not> isdigit (hd rest)"
    "\<not> skip_from (show_ip [172, b, c, d] @ rest) 0"
  shows "line_ip (show_ip [172, b, c, d] @ rest) = Some [172, of_nat b, of_nat c, of_nat d]"
proof -
  have "show_nat 172 = ''172''" by code_simp
  then have "take 4 (show_ip [172, b, c, d] @ rest) = ''172.''" by (simp add: show_ip_def)
  then show ?thesis
    using parse_show_ip [of 172 b c d rest] assms by (simp add: line_ip_def for_each_tolower_def)
qed

section \<open>Properties\<close>

text \<open>
  A client is set up for the lowest address that the hosts file lists for a virtual machine, or not
at all when it lists none; on the workstation it is set up for exactly the locator on which the
discovery server listens.
\<close>

theorem lowest_vm_address:
  shows "(if List.map_filter line_ip hosts = [] then ApplyDiscoveryServer ARM64_GUEST hosts qos = qos
     else \<exists>ip line. line \<in> set hosts \<and> line_ip line = Some ip \<and>
       (\<forall>l \<in> set hosts. \<forall>ip'. line_ip l = Some ip' \<longrightarrow> ip \<le> ip') \<and>
       ApplyDiscoveryServer ARM64_GUEST hosts qos =
         qos\<lparr>dq_protocol := CLIENT, dq_servers := dq_servers qos @ [setIPv4 ip udp_locator]\<rparr>) \<and>
    dq_servers (ApplyDiscoveryServer X86_WORKSTATION hosts qos) =
      dq_servers qos @ [last (dq_metatraffic (discovery_server_main X86_WORKSTATION qos'))]"
proof
  let ?ips = "List.map_filter line_ip hosts"
  show "if ?ips = [] then ApplyDiscoveryServer ARM64_GUEST hosts qos = qos
     else \<exists>ip line. line \<in> set hosts \<and> line_ip line = Some ip \<and>
       (\<forall>l \<in> set hosts. \<forall>ip'. line_ip l = Some ip' \<longrightarrow> ip \<le> ip') \<and>
       ApplyDiscoveryServer ARM64_GUEST hosts qos =
         qos\<lparr>dq_protocol := CLIENT, dq_servers := dq_servers qos @ [setIPv4 ip udp_locator]\<rparr>"
  proof (cases "?ips = []")
    case True
    then show ?thesis by (simp add: ApplyDiscoveryServer_def vm_ips_def)
  next
    case False
    have s: "set ?ips = {ip. \<exists>l \<in> set hosts. line_ip l = Some ip}"
      by (force simp: List.map_filter_def image_iff)
    have h: "hd (sort ?ips) \<in> set ?ips" "\<forall>x \<in> set ?ips. hd (sort ?ips) \<le> x" using hd_sort_min [OF False] by auto
    then obtain line where "line \<in> set hosts" "line_ip line = Some (hd (sort ?ips))" using s by auto
    moreover have "\<forall>l \<in> set hosts. \<forall>ip'. line_ip l = Some ip' \<longrightarrow> hd (sort ?ips) \<le> ip'" using h(2) s by auto
    moreover have "ApplyDiscoveryServer ARM64_GUEST hosts qos =
         qos\<lparr>dq_protocol := CLIENT, dq_servers := dq_servers qos @ [setIPv4 (hd (sort ?ips)) udp_locator]\<rparr>"
      using False by (simp add: ApplyDiscoveryServer_def vm_ips_def)
    ultimately show ?thesis using False by auto
  qed
  show "dq_servers (ApplyDiscoveryServer X86_WORKSTATION hosts qos) =
      dq_servers qos @ [last (dq_metatraffic (discovery_server_main X86_WORKSTATION qos'))]"
    by (simp add: ApplyDiscoveryServer_def vm_ips_def discovery_server_main_def)
qed

text \<open>
  A host's line is skipped when its name is written in lower case, but the same line in upper case
is taken for a virtual machine: the line is not lower-cased before the search.
\<close>

theorem upper_case_host_kept:
  "line_ip ''172.16.0.2 host'' = None \<and> line_ip ''172.16.0.2 HOST'' = Some [172, 16, 0, 2]"
proof -
  have n: "show_nat 172 = ''172''" "show_nat 16 = ''16''" "show_nat 0 = ''0''" "show_nat 2 = ''2''" by code_simp+
  have l: "show_ip [172, 16, 0, 2] @ '' HOST'' = ''172.16.0.2 HOST''" by (simp add: show_ip_def n)
  have "\<not> skip_from ''172.16.0.2 HOST'' 0" "skip_from ''172.16.0.2 host'' 0"
    by (simp_all add: skip_from.simps find_host_def upt_rec host_word_def lower_def)
  then show ?thesis
    using hosts_line [of 16 0 2 "'' HOST''"] unfolding l
    by (simp add: line_ip_def for_each_tolower_def isdigit_def)
qed

end
