(* ===== verification/Pugi_Chars.thy ===== *)
theory Pugi_Chars
  imports Mw_Prelude
begin

text \<open>
  Characters of the XML parser of the ROS 2 workspace (\<open>porting/pugixml/src/pugixml.cpp\<close>): the two tables of
  character classes, the writing of code points as UTF-8, and strings that end at a zero character.  Shown: which
  characters each class has, so that evaluation does not look into the tables.

  Text is a list of characters; a character of a \<open>char\<close> buffer is its unsigned value.
\<close>

section \<open>Character classes\<close>

datatype chartype_t =
    ct_parse_pcdata | ct_parse_attr | ct_parse_attr_ws | ct_space
  | ct_parse_cdata | ct_parse_comment | ct_symbol | ct_start_symbol

fun chartype_mask :: "chartype_t \<Rightarrow> byte" where
  "chartype_mask ct_parse_pcdata = 1"
| "chartype_mask ct_parse_attr = 2"
| "chartype_mask ct_parse_attr_ws = 4"
| "chartype_mask ct_space = 8"
| "chartype_mask ct_parse_cdata = 16"
| "chartype_mask ct_parse_comment = 32"
| "chartype_mask ct_symbol = 64"
| "chartype_mask ct_start_symbol = 128"

definition chartype_table :: bytes where
  "chartype_table =
    [55,  0,   0,   0,   0,   0,   0,   0,      0,   12,  12,  0,   0,   63,  0,   0,
     0,   0,   0,   0,   0,   0,   0,   0,      0,   0,   0,   0,   0,   0,   0,   0,
     8,   0,   6,   0,   0,   0,   7,   6,      0,   0,   0,   0,   0,   96,  64,  0,
     64,  64,  64,  64,  64,  64,  64,  64,     64,  64,  192, 0,   1,   0,   48,  0,
     0,   192, 192, 192, 192, 192, 192, 192,    192, 192, 192, 192, 192, 192, 192, 192,
     192, 192, 192, 192, 192, 192, 192, 192,    192, 192, 192, 0,   0,   16,  0,   192,
     0,   192, 192, 192, 192, 192, 192, 192,    192, 192, 192, 192, 192, 192, 192, 192,
     192, 192, 192, 192, 192, 192, 192, 192,    192, 192, 192, 0, 0, 0, 0, 0,
     192, 192, 192, 192, 192, 192, 192, 192, 192, 192, 192, 192, 192, 192, 192, 192,
     192, 192, 192, 192, 192, 192, 192, 192, 192, 192, 192, 192, 192, 192, 192, 192,
     192, 192, 192, 192, 192, 192, 192, 192, 192, 192, 192, 192, 192, 192, 192, 192,
     192, 192, 192, 192, 192, 192, 192, 192, 192, 192, 192, 192, 192, 192, 192, 192,
     192, 192, 192, 192, 192, 192, 192, 192, 192, 192, 192, 192, 192, 192, 192, 192,
     192, 192, 192, 192, 192, 192, 192, 192, 192, 192, 192, 192, 192, 192, 192, 192,
     192, 192, 192, 192, 192, 192, 192, 192, 192, 192, 192, 192, 192, 192, 192, 192,
     192, 192, 192, 192, 192, 192, 192, 192, 192, 192, 192, 192, 192, 192, 192, 192]"

definition is_chartype :: "chartype_t \<Rightarrow> char \<Rightarrow> bool" where
  "is_chartype ct c \<longleftrightarrow> and (chartype_table ! of_char c) (chartype_mask ct) \<noteq> 0"

datatype chartypex_t = ctx_special_pcdata | ctx_special_attr | ctx_start_symbol | ctx_digit | ctx_symbol

fun chartypex_mask :: "chartypex_t \<Rightarrow> byte" where
  "chartypex_mask ctx_special_pcdata = 1"
| "chartypex_mask ctx_special_attr = 2"
| "chartypex_mask ctx_start_symbol = 4"
| "chartypex_mask ctx_digit = 8"
| "chartypex_mask ctx_symbol = 16"

definition chartypex_table :: bytes where
  "chartypex_table =
    [3,  3,  3,  3,  3,  3,  3,  3,     3,  2,  2,  3,  3,  2,  3,  3,
     3,  3,  3,  3,  3,  3,  3,  3,     3,  3,  3,  3,  3,  3,  3,  3,
     0,  0,  2,  0,  0,  0,  3,  2,     0,  0,  0,  0,  0, 16, 16,  0,
     24, 24, 24, 24, 24, 24, 24, 24,    24, 24, 0,  0,  3,  0,  1,  0,
     0,  20, 20, 20, 20, 20, 20, 20,    20, 20, 20, 20, 20, 20, 20, 20,
     20, 20, 20, 20, 20, 20, 20, 20,    20, 20, 20, 0,  0,  0,  0,  20,
     0,  20, 20, 20, 20, 20, 20, 20,    20, 20, 20, 20, 20, 20, 20, 20,
     20, 20, 20, 20, 20, 20, 20, 20,    20, 20, 20, 0,  0,  0,  0,  0,
     20, 20, 20, 20, 20, 20, 20, 20, 20, 20, 20, 20, 20, 20, 20, 20,
     20, 20, 20, 20, 20, 20, 20, 20, 20, 20, 20, 20, 20, 20, 20, 20,
     20, 20, 20, 20, 20, 20, 20, 20, 20, 20, 20, 20, 20, 20, 20, 20,
     20, 20, 20, 20, 20, 20, 20, 20, 20, 20, 20, 20, 20, 20, 20, 20,
     20, 20, 20, 20, 20, 20, 20, 20, 20, 20, 20, 20, 20, 20, 20, 20,
     20, 20, 20, 20, 20, 20, 20, 20, 20, 20, 20, 20, 20, 20, 20, 20,
     20, 20, 20, 20, 20, 20, 20, 20, 20, 20, 20, 20, 20, 20, 20, 20,
     20, 20, 20, 20, 20, 20, 20, 20, 20, 20, 20, 20, 20, 20, 20, 20]"

definition is_chartypex :: "chartypex_t \<Rightarrow> char \<Rightarrow> bool" where
  "is_chartypex ct c \<longleftrightarrow> and (chartypex_table ! of_char c) (chartypex_mask ct) \<noteq> 0"

text \<open>What the comments beside the classes say.\<close>

definition char_between :: "char \<Rightarrow> char \<Rightarrow> char \<Rightarrow> bool" where
  "char_between a b c \<longleftrightarrow> (of_char a :: nat) \<le> of_char c \<and> (of_char c :: nat) \<le> of_char b"

definition is_letter :: "char \<Rightarrow> bool" where
  "is_letter c \<longleftrightarrow> char_between (CHR ''a'') (CHR ''z'') c \<or> char_between (CHR ''A'') (CHR ''Z'') c"

fun chartype_spec :: "chartype_t \<Rightarrow> char \<Rightarrow> bool" where
  "chartype_spec ct_parse_pcdata c \<longleftrightarrow> c \<in> {CHR 0x00, CHR ''&'', CHR 0x0D, CHR ''<''}"
| "chartype_spec ct_parse_attr c \<longleftrightarrow> c \<in> {CHR 0x00, CHR ''&'', CHR 0x0D, CHR 0x27, CHR 0x22}"
| "chartype_spec ct_parse_attr_ws c \<longleftrightarrow> c \<in> {CHR 0x00, CHR ''&'', CHR 0x0D, CHR 0x27, CHR 0x22, CHR 0x0A, CHR 0x09}"
| "chartype_spec ct_space c \<longleftrightarrow> c \<in> {CHR 0x0D, CHR 0x0A, CHR '' '', CHR 0x09}"
| "chartype_spec ct_parse_cdata c \<longleftrightarrow> c \<in> {CHR 0x00, CHR '']'', CHR ''>'', CHR 0x0D}"
| "chartype_spec ct_parse_comment c \<longleftrightarrow> c \<in> {CHR 0x00, CHR ''-'', CHR ''>'', CHR 0x0D}"
| "chartype_spec ct_symbol c \<longleftrightarrow>
     digit7 c \<or> is_letter c \<or> char_between (CHR ''0'') (CHR ''9'') c \<or> c \<in> {CHR ''_'', CHR '':'', CHR ''-'', CHR ''.''}"
| "chartype_spec ct_start_symbol c \<longleftrightarrow> digit7 c \<or> is_letter c \<or> c \<in> {CHR ''_'', CHR '':''}"

fun chartypex_spec :: "chartypex_t \<Rightarrow> char \<Rightarrow> bool" where
  "chartypex_spec ctx_special_pcdata c \<longleftrightarrow>
     (of_char c :: nat) < 32 \<and> c \<notin> {CHR 0x09, CHR 0x0A, CHR 0x0D} \<or> c \<in> {CHR ''&'', CHR ''<'', CHR ''>''}"
| "chartypex_spec ctx_special_attr c \<longleftrightarrow> (of_char c :: nat) < 32 \<or> c \<in> {CHR ''&'', CHR ''<'', CHR 0x22, CHR 0x27}"
| "chartypex_spec ctx_start_symbol c \<longleftrightarrow> digit7 c \<or> is_letter c \<or> c = CHR ''_''"
| "chartypex_spec ctx_digit c \<longleftrightarrow> char_between (CHR ''0'') (CHR ''9'') c"
| "chartypex_spec ctx_symbol c \<longleftrightarrow>
     digit7 c \<or> is_letter c \<or> char_between (CHR ''0'') (CHR ''9'') c \<or> c \<in> {CHR ''_'', CHR ''-'', CHR ''.''}"

lemma enum_char_nth: "(Enum.enum :: char list) ! of_char c = c"
  by (simp add: enum_char_unfold)


lemma table_all:
  assumes "list_all2 (\<lambda>c t. P c \<longleftrightarrow> and t m \<noteq> 0) Enum.enum (table :: bytes)"
  shows "and (table ! of_char c) m \<noteq> 0 \<longleftrightarrow> P c"
proof -
  have "(of_char c :: nat) < length (Enum.enum :: char list)"
    by (simp add: enum_char_unfold)
  from list_all2_nthD [OF assms this] show ?thesis by (simp add: enum_char_nth)
qed

lemma chartype_table_spec: "list_all2 (\<lambda>c t. chartype_spec ct c \<longleftrightarrow> and t (chartype_mask ct) \<noteq> 0) Enum.enum chartype_table"
  by (cases ct) (simp_all add: enum_char_def chartype_table_def is_letter_def char_between_def)

lemma is_chartype_spec: "is_chartype ct c = chartype_spec ct c"
  unfolding is_chartype_def by (rule table_all) (rule chartype_table_spec)


lemma chartypex_table_spec: "list_all2 (\<lambda>c t. chartypex_spec ct c \<longleftrightarrow> and t (chartypex_mask ct) \<noteq> 0) Enum.enum chartypex_table"
  by (cases ct) (simp_all add: enum_char_def chartypex_table_def is_letter_def char_between_def)

lemma is_chartypex_spec: "is_chartypex ct c = chartypex_spec ct c"
  unfolding is_chartypex_def by (rule table_all) (rule chartypex_table_spec)


declare is_chartype_spec [code] is_chartypex_spec [code]

lemma symbol_classes:
  "is_chartype ct_start_symbol c \<Longrightarrow> is_chartype ct_symbol c"
  "is_chartype ct_symbol c \<Longrightarrow> \<not> is_chartype ct_space c"
  "is_chartype ct_symbol c \<Longrightarrow> c \<notin> {CHR ''<'', CHR ''>'', CHR ''/'', CHR ''!'', CHR ''?'', CHR ''='', CHR 0x22, CHR 0x27, CHR 0x00}"
  by (auto simp: is_chartype_spec is_letter_def char_between_def)

section \<open>Strings that end at a zero character\<close>

definition c_string :: "string \<Rightarrow> string" where
  "c_string s = takeWhile (\<lambda>c. c \<noteq> CHR 0x00) s"

definition no_zero :: "string \<Rightarrow> bool" where
  "no_zero s \<longleftrightarrow> CHR 0x00 \<notin> set s"

lemma c_string_no_zero: "no_zero s \<Longrightarrow> c_string s = s"
  by (auto simp: c_string_def no_zero_def takeWhile_eq_all_conv)

lemma no_zero_c_string [simp]: "no_zero (c_string s)"
  by (auto simp: c_string_def no_zero_def dest: set_takeWhileD)

lemma no_zero_simps [simp]:
  "no_zero []" "no_zero (c # s) \<longleftrightarrow> c \<noteq> CHR 0x00 \<and> no_zero s" "no_zero (s @ t) \<longleftrightarrow> no_zero s \<and> no_zero t"
  by (auto simp: no_zero_def)

section \<open>Code points as UTF-8\<close>

definition utf8_low :: "u32 \<Rightarrow> bytes" where
  "utf8_low ch =
     (if ch < 0x80 then [ucast ch]
      else if ch < 0x800 then [ucast (or 0xC0 (drop_bit 6 ch)), ucast (or 0x80 (and ch 0x3F))]
      else [ucast (or 0xE0 (drop_bit 12 ch)), ucast (or 0x80 (and (drop_bit 6 ch) 0x3F)), ucast (or 0x80 (and ch 0x3F))])"

definition utf8_high :: "u32 \<Rightarrow> bytes" where
  "utf8_high ch =
     [ucast (or 0xF0 (drop_bit 18 ch)), ucast (or 0x80 (and (drop_bit 12 ch) 0x3F)),
      ucast (or 0x80 (and (drop_bit 6 ch) 0x3F)), ucast (or 0x80 (and ch 0x3F))]"

definition utf8_any :: "u32 \<Rightarrow> bytes" where
  "utf8_any ch = (if ch < 0x10000 then utf8_low ch else utf8_high ch)"

definition chars_of_bytes :: "bytes \<Rightarrow> string" where
  "chars_of_bytes bs = map (\<lambda>b. char_of (unat b)) bs"

definition bytes_of_chars :: "string \<Rightarrow> bytes" where
  "bytes_of_chars s = map (\<lambda>c. of_nat (of_char c)) s"

lemma byte_mod: "unat (b :: byte) mod 256 = unat b"
proof -
  have "unat b < 2 ^ LENGTH(8)" by (rule unsigned_less)
  then show ?thesis by simp
qed

lemma chars_bytes [simp]: "chars_of_bytes (bytes_of_chars s) = s" "bytes_of_chars (chars_of_bytes bs) = bs"
  by (simp_all add: chars_of_bytes_def bytes_of_chars_def unat_of_nat comp_def byte_mod)

lemma utf8_any_length: "utf8_any ch \<noteq> []" "length (utf8_any ch) \<le> 4"
  by (simp_all add: utf8_any_def utf8_low_def utf8_high_def)

end
