(* ===== verification/Pugi_Strconv.thy ===== *)
theory Pugi_Strconv
  imports Pugi_Chars "HOL-Library.Sublist"
begin

text \<open>
  The conversion of text while it is parsed (\<open>strconv_escape\<close>, \<open>strconv_comment\<close>, \<open>strconv_cdata\<close>,
  \<open>strconv_pcdata_impl\<close> and \<open>strconv_attribute_impl\<close> of \<open>pugixml.cpp\<close>).  The code converts in place and closes the
  gaps with \<open>memmove\<close>; here a conversion takes the text from the current position to the terminating zero and
  returns what it leaves in the buffer and the text behind it.  Shown: what is still to be read is the end of the text, and
  the result with its zero is never longer than what was read, so that the conversion in place does not run into it.
\<close>

section \<open>Character references\<close>

definition ucs_hex :: "char \<Rightarrow> u32 option" where
  "ucs_hex c =
     (if char_between (CHR ''0'') (CHR ''9'') c then Some (of_nat (of_char c - 48))
      else if char_between (CHR ''a'') (CHR ''f'') c then Some (of_nat (of_char c - 87))
      else if char_between (CHR ''A'') (CHR ''F'') c then Some (of_nat (of_char c - 55))
      else None)"

definition ucs_dec :: "char \<Rightarrow> u32 option" where
  "ucs_dec c = (if char_between (CHR ''0'') (CHR ''9'') c then Some (of_nat (of_char c - 48)) else None)"

text \<open>The digits up to the semicolon; a code point that does not fit wraps round.\<close>

fun code_loop :: "(char \<Rightarrow> u32 option) \<Rightarrow> u32 \<Rightarrow> u32 \<Rightarrow> string \<Rightarrow> u32 option \<times> string" where
  "code_loop digit base ucsc [] = (None, [])"
| "code_loop digit base ucsc (ch # s) =
     (case digit ch of
        Some d \<Rightarrow> code_loop digit base (base * ucsc + d) s
      | None \<Rightarrow> if ch = CHR '';'' then (Some ucsc, s) else (None, ch # s))"

fun scan_word :: "string \<Rightarrow> string \<Rightarrow> bool \<times> string" where
  "scan_word [] s = (True, s)"
| "scan_word (w # ws) [] = (False, [])"
| "scan_word (w # ws) (c # s) = (if c = w then scan_word ws s else (False, c # s))"

definition code_reference :: "string \<Rightarrow> string option \<times> string" where
  "code_reference s =
     (let (hex, s) = (case s of c # r \<Rightarrow> if c = CHR ''x'' then (True, r) else (False, s) | [] \<Rightarrow> (False, s)) in
      if s \<noteq> [] \<and> hd s = CHR '';'' then (None, s)
      else apfst (map_option (\<lambda>ch. chars_of_bytes (utf8_any ch)))
        (if hex then code_loop ucs_hex 16 0 s else code_loop ucs_dec 10 0 s))"

definition named_reference :: "string \<Rightarrow> char \<Rightarrow> string \<Rightarrow> string option \<times> string" where
  "named_reference w c s = apfst (\<lambda>found. if found then Some [c] else None) (scan_word w s)"

text \<open>The text behind an ampersand: the characters it stands for, \<open>None\<close> when it is no reference.\<close>

definition reference :: "string \<Rightarrow> string option \<times> string" where
  "reference s =
     (case s of
        [] \<Rightarrow> (None, [])
      | c # r \<Rightarrow>
          if c = CHR ''#'' then code_reference r
          else if c = CHR ''a'' then
            (case r of
               [] \<Rightarrow> (None, [])
             | d # r' \<Rightarrow>
                 if d = CHR ''m'' then named_reference ''p;'' (CHR ''&'') r'
                 else if d = CHR ''p'' then named_reference ''os;'' (CHR 0x27) r'
                 else (None, r))
          else if c = CHR ''g'' then named_reference ''t;'' (CHR ''>'') r
          else if c = CHR ''l'' then named_reference ''t;'' (CHR ''<'') r
          else if c = CHR ''q'' then named_reference ''uot;'' (CHR 0x22) r
          else (None, s))"

text \<open>Called at an ampersand, with the text behind it; what is no reference stays as it is.\<close>

definition strconv_escape :: "string \<Rightarrow> string \<times> string" where
  "strconv_escape s =
     (case reference s of
        (Some out, rest) \<Rightarrow> (out, rest)
      | (None, rest) \<Rightarrow> (CHR ''&'' # take (length s - length rest) s, rest))"

lemma code_loop_rest:
  "code_loop digit base u s = (r, rest) \<Longrightarrow> \<exists>used. s = used @ rest \<and> (r \<noteq> None \<longrightarrow> used \<noteq> [])"
proof (induction digit base u s rule: code_loop.induct)
  case (2 digit base u ch s)
  show ?case
  proof (cases "digit ch")
    case None
    then show ?thesis using 2(2) by (auto split: if_splits intro: exI [of _ "[ch]"])
  next
    case (Some d)
    from 2(1) [OF this] 2(2) obtain used where "s = used @ rest" using Some by auto
    then show ?thesis by (intro exI [of _ "ch # used"]) simp
  qed
qed simp

lemma scan_word_rest: "scan_word w s = (found, rest) \<Longrightarrow> \<exists>used. s = used @ rest \<and> (found \<longrightarrow> used = w)"
proof (induction w s rule: scan_word.induct)
  case (3 w ws c s)
  then show ?case by (auto split: if_splits)
qed auto

text \<open>A reference is a part of the text and not longer than what it stands for, with \<open>k\<close> characters before it.\<close>

definition refers :: "nat \<Rightarrow> string \<Rightarrow> string option \<times> string \<Rightarrow> bool" where
  "refers k s p \<longleftrightarrow> (\<exists>used. s = used @ snd p \<and> (\<forall>out. fst p = Some out \<longrightarrow> length out \<le> k + length used))"

lemma refers_none: "refers k s (None, s)"
  by (simp add: refers_def)

lemma refers_Cons: "refers (Suc k) s p \<Longrightarrow> refers k (c # s) p"
  by (force simp: refers_def intro: exI [of _ "c # _"])

lemma refers_named: "refers (Suc k) s (named_reference w c s)"
  using scan_word_rest [of w s] by (cases "scan_word w s") (force simp: refers_def named_reference_def split: if_splits)

lemma refers_code: "refers 2 s (code_reference s)"
proof -
  define hex where "hex \<longleftrightarrow> s \<noteq> [] \<and> hd s = CHR ''x''"
  define t where "t = (if hex then tl s else s)"
  have pre: "\<exists>pre. s = pre @ t" by (cases s) (auto simp: t_def hex_def)
  define digit and base where d: "digit = (if hex then ucs_hex else ucs_dec)" "base = (if hex then 16 else 10 :: u32)"
  have e: "code_reference s = (if t \<noteq> [] \<and> hd t = CHR '';'' then (None, t)
      else apfst (map_option (\<lambda>ch. chars_of_bytes (utf8_any ch))) (code_loop digit base 0 t))"
    by (cases s) (auto simp: code_reference_def t_def hex_def d)
  show ?thesis
  proof (cases "t \<noteq> [] \<and> hd t = CHR '';''")
    case True
    then show ?thesis using pre by (auto simp: e refers_def)
  next
    case False
    obtain v rest where v: "code_loop digit base 0 t = (v, rest)" by fastforce
    obtain used where used: "t = used @ rest" using code_loop_rest [OF v] by blast
    have "2 \<le> length used" if some: "v = Some ch" for ch
    proof -
      obtain c t' where t: "t = c # t'" "c \<noteq> CHR '';''" using v some False by (cases t) auto
      obtain x where x: "digit c = Some x" using v t some by (cases "digit c") auto
      then have "code_loop digit base (base * 0 + x) t' = (v, rest)" using v t by simp
      from code_loop_rest [OF this] show ?thesis using some used t by (auto simp: Suc_le_eq)
    qed
    moreover have "length (chars_of_bytes (utf8_any ch)) \<le> 4" for ch
      using utf8_any_length(2) by (simp add: chars_of_bytes_def)
    ultimately have "length (chars_of_bytes (utf8_any ch)) \<le> 2 + length used" if "v = Some ch" for ch
      using that by (smt (verit) add_mono le_trans nat_1_add_1 numeral_Bit0 order_refl)
    moreover have "code_reference s = (map_option (\<lambda>ch. chars_of_bytes (utf8_any ch)) v, rest)"
      using False by (auto simp: e v)
    moreover obtain pre where "s = pre @ used @ rest" using pre used by blast
    ultimately show ?thesis unfolding refers_def by (intro exI [of _ "pre @ used"]) force
  qed
qed

lemma refers_reference: "refers 1 s (reference s)"
proof (cases s)
  case (Cons c r)
  note shorter = refers_Cons [OF refers_none] refers_Cons [OF refers_named] refers_Cons [OF refers_Cons [OF refers_none]]
    refers_Cons [OF refers_Cons [OF refers_named]]
  have "refers 1 (c # r) (code_reference r)" using refers_code [of r] by (auto intro: refers_Cons simp: numeral_2_eq_2)
  then show ?thesis
    using shorter refers_none [of 1] by (auto simp: reference_def Cons split: list.split)
qed (simp add: reference_def refers_none)

lemma strconv_escape_rest:
  "\<exists>used. s = used @ snd (strconv_escape s) \<and> length (fst (strconv_escape s)) \<le> Suc (length used)"
  using refers_reference [of s] by (cases "reference s") (auto simp: refers_def strconv_escape_def split: option.split)

lemma strconv_escape_length: "length (snd (strconv_escape s)) \<le> length s"
proof -
  obtain used where "s = used @ snd (strconv_escape s)" using strconv_escape_rest by blast
  then have "length s = length used + length (snd (strconv_escape s))" by (metis length_append)
  then show ?thesis by simp
qed

section \<open>Character data\<close>

definition skip_lf :: "string \<Rightarrow> string" where
  "skip_lf s = (case s of c # r \<Rightarrow> if c = CHR 0x0A then r else s | [] \<Rightarrow> [])"

definition skip_ws :: "string \<Rightarrow> string" where
  "skip_ws s = dropWhile (is_chartype ct_space) s"

lemma skip_ws_length: "length (skip_ws s) \<le> length s"
  by (simp add: skip_ws_def length_dropWhile_le)

definition trim_end :: "string \<Rightarrow> string" where
  "trim_end s = rev (dropWhile (is_chartype ct_space) (rev s))"

lemma skip_lf_length: "length (skip_lf s) \<le> length s"
  by (simp add: skip_lf_def split: list.split)

lemma trim_end_length: "length (trim_end s) \<le> length s"
  using length_dropWhile_le [of "is_chartype ct_space" "rev s"] by (simp add: trim_end_def)

text \<open>The text up to the next tag or the end, and the text behind the character that opens the tag.\<close>

function (sequential) pcdata_loop :: "bool \<Rightarrow> bool \<Rightarrow> string \<Rightarrow> string \<times> string" where
  "pcdata_loop opt_eol opt_escape [] = ([], [])"
| "pcdata_loop opt_eol opt_escape (c # s) =
     (if \<not> is_chartype ct_parse_pcdata c then apfst ((#) c) (pcdata_loop opt_eol opt_escape s)
      else if c = CHR ''<'' then ([], s)
      else if opt_eol \<and> c = CHR 0x0D then apfst ((#) CHR 0x0A) (pcdata_loop opt_eol opt_escape (skip_lf s))
      else if opt_escape \<and> c = CHR ''&'' then
        apfst ((@) (fst (strconv_escape s))) (pcdata_loop opt_eol opt_escape (snd (strconv_escape s)))
      else apfst ((#) c) (pcdata_loop opt_eol opt_escape s))"
  by pat_completeness auto
termination
  by (relation "measure (\<lambda>(_, _, s). length s)") (auto simp: le_imp_less_Suc strconv_escape_length skip_lf_length skip_ws_length)

definition strconv_pcdata_impl :: "bool \<Rightarrow> bool \<Rightarrow> bool \<Rightarrow> string \<Rightarrow> string \<times> string" where
  "strconv_pcdata_impl opt_trim opt_eol opt_escape s = apfst (if opt_trim then trim_end else id) (pcdata_loop opt_eol opt_escape s)"

section \<open>Attribute values\<close>

text \<open>
  The value up to the quote and the text behind the quote; \<open>None\<close> when the text ends before.  Values are kept,
  get their line ends or their white space converted, or are normalised.
\<close>

definition keeping :: "string \<Rightarrow> (string \<times> string) option \<Rightarrow> (string \<times> string) option" where
  "keeping out r = map_option (apfst ((@) out)) r"

function (sequential) parse_simple :: "bool \<Rightarrow> char \<Rightarrow> string \<Rightarrow> (string \<times> string) option" where
  "parse_simple opt_escape end_quote [] = None"
| "parse_simple opt_escape end_quote (c # s) =
     (if \<not> is_chartype ct_parse_attr c then keeping [c] (parse_simple opt_escape end_quote s)
      else if c = end_quote then Some ([], s)
      else if opt_escape \<and> c = CHR ''&'' then
        keeping (fst (strconv_escape s)) (parse_simple opt_escape end_quote (snd (strconv_escape s)))
      else keeping [c] (parse_simple opt_escape end_quote s))"
  by pat_completeness auto
termination
  by (relation "measure (\<lambda>(_, _, s). length s)") (auto simp: le_imp_less_Suc strconv_escape_length skip_lf_length skip_ws_length)

function (sequential) parse_eol_value :: "bool \<Rightarrow> char \<Rightarrow> string \<Rightarrow> (string \<times> string) option" where
  "parse_eol_value opt_escape end_quote [] = None"
| "parse_eol_value opt_escape end_quote (c # s) =
     (if \<not> is_chartype ct_parse_attr c then keeping [c] (parse_eol_value opt_escape end_quote s)
      else if c = end_quote then Some ([], s)
      else if c = CHR 0x0D then keeping [CHR 0x0A] (parse_eol_value opt_escape end_quote (skip_lf s))
      else if opt_escape \<and> c = CHR ''&'' then
        keeping (fst (strconv_escape s)) (parse_eol_value opt_escape end_quote (snd (strconv_escape s)))
      else keeping [c] (parse_eol_value opt_escape end_quote s))"
  by pat_completeness auto
termination
  by (relation "measure (\<lambda>(_, _, s). length s)") (auto simp: le_imp_less_Suc strconv_escape_length skip_lf_length skip_ws_length)

function (sequential) parse_wconv :: "bool \<Rightarrow> char \<Rightarrow> string \<Rightarrow> (string \<times> string) option" where
  "parse_wconv opt_escape end_quote [] = None"
| "parse_wconv opt_escape end_quote (c # s) =
     (if \<not> is_chartype ct_parse_attr_ws c then keeping [c] (parse_wconv opt_escape end_quote s)
      else if c = end_quote then Some ([], s)
      else if is_chartype ct_space c then
        (if c = CHR 0x0D then keeping '' '' (parse_wconv opt_escape end_quote (skip_lf s))
         else keeping '' '' (parse_wconv opt_escape end_quote s))
      else if opt_escape \<and> c = CHR ''&'' then
        keeping (fst (strconv_escape s)) (parse_wconv opt_escape end_quote (snd (strconv_escape s)))
      else keeping [c] (parse_wconv opt_escape end_quote s))"
  by pat_completeness auto
termination
  by (relation "measure (\<lambda>(_, _, s). length s)") (auto simp: le_imp_less_Suc strconv_escape_length skip_lf_length skip_ws_length)

function (sequential) wnorm_loop :: "bool \<Rightarrow> char \<Rightarrow> string \<Rightarrow> (string \<times> string) option" where
  "wnorm_loop opt_escape end_quote [] = None"
| "wnorm_loop opt_escape end_quote (c # s) =
     (if \<not> is_chartype ct_parse_attr_ws c \<and> \<not> is_chartype ct_space c then keeping [c] (wnorm_loop opt_escape end_quote s)
      else if c = end_quote then Some ([], s)
      else if is_chartype ct_space c then keeping '' '' (wnorm_loop opt_escape end_quote (skip_ws s))
      else if opt_escape \<and> c = CHR ''&'' then
        keeping (fst (strconv_escape s)) (wnorm_loop opt_escape end_quote (snd (strconv_escape s)))
      else keeping [c] (wnorm_loop opt_escape end_quote s))"
  by pat_completeness auto
termination
  by (relation "measure (\<lambda>(_, _, s). length s)") (auto simp: le_imp_less_Suc strconv_escape_length skip_lf_length skip_ws_length)

definition parse_wnorm :: "bool \<Rightarrow> char \<Rightarrow> string \<Rightarrow> (string \<times> string) option" where
  "parse_wnorm opt_escape end_quote s = map_option (apfst trim_end) (wnorm_loop opt_escape end_quote (skip_ws s))"

section \<open>Comments and CDATA sections\<close>

text \<open>
  \<open>endch\<close> is the last character of the buffer, which the terminating zero replaces while the parser runs: a test
  against a character that ends something is true at the zero when the last character was that one.
\<close>

definition ends_with :: "char \<Rightarrow> char \<Rightarrow> string \<Rightarrow> bool" where
  "ends_with endch e s \<longleftrightarrow> (case s of [] \<Rightarrow> endch = e | c # _ \<Rightarrow> c = e)"

definition pair_end :: "char \<Rightarrow> char \<Rightarrow> string \<Rightarrow> bool" where
  "pair_end endch d s \<longleftrightarrow> (case s of c # c' # t \<Rightarrow> c = d \<and> c' = d \<and> ends_with endch (CHR ''>'') t | _ \<Rightarrow> False)"

text \<open>Both return the text at the pair of characters that ends them.\<close>

function (sequential) strconv_until :: "chartype_t \<Rightarrow> char \<Rightarrow> char \<Rightarrow> string \<Rightarrow> (string \<times> string) option" where
  "strconv_until ct d endch [] = None"
| "strconv_until ct d endch (c # s) =
     (if \<not> is_chartype ct c then keeping [c] (strconv_until ct d endch s)
      else if c = CHR 0x0D then keeping [CHR 0x0A] (strconv_until ct d endch (skip_lf s))
      else if pair_end endch d (c # s) then Some ([], c # s)
      else keeping [c] (strconv_until ct d endch s))"
  by pat_completeness auto
termination
  by (relation "measure (\<lambda>(_, _, _, s). length s)") (auto simp: le_imp_less_Suc skip_lf_length)

definition strconv_comment :: "char \<Rightarrow> string \<Rightarrow> (string \<times> string) option" where
  "strconv_comment endch s = map_option (apsnd (drop 3)) (strconv_until ct_parse_comment (CHR ''-'') endch s)"

definition strconv_cdata :: "char \<Rightarrow> string \<Rightarrow> (string \<times> string) option" where
  "strconv_cdata endch s = map_option (apsnd (drop 1)) (strconv_until ct_parse_cdata (CHR '']'') endch s)"

section \<open>Conversion in place\<close>

text \<open>
  What a conversion leaves in the buffer, with its terminating zero, has room before the text that it has not read.
\<close>

definition fits :: "nat \<Rightarrow> (string \<times> string) option \<Rightarrow> bool" where
  "fits n r \<longleftrightarrow> (\<forall>v rest. r = Some (v, rest) \<longrightarrow> length v + length rest < n)"

lemma escape_fits: "length (fst (strconv_escape s)) + length (snd (strconv_escape s)) \<le> Suc (length s)"
proof -
  obtain used where "s = used @ snd (strconv_escape s)" "length (fst (strconv_escape s)) \<le> Suc (length used)"
    using strconv_escape_rest by blast
  then show ?thesis by (metis add_Suc add_le_mono1 length_append)
qed

lemma fits_keeping: "fits n r \<Longrightarrow> length out + n \<le> m \<Longrightarrow> fits m (keeping out r)"
  by (fastforce simp: fits_def keeping_def)

lemma fits_mono: "fits n r \<Longrightarrow> n \<le> m \<Longrightarrow> fits m r"
  by (fastforce simp: fits_def)

lemma fits_here [simp]: "fits n None" "fits (Suc n) (Some ([], s)) \<longleftrightarrow> length s \<le> n"
  by (auto simp: fits_def)

text \<open>One step of a loop: it emits \<open>out\<close>, and goes on with \<open>t\<close>.\<close>

lemma fits_step:
  assumes "fits (k + length t) r" "length out + length t \<le> Suc (length s)"
  shows "fits (k + Suc (length s)) (keeping out r)"
  using fits_keeping [OF assms(1)] assms(2) by simp

lemma fits_steps_k:
  "fits (k + length s) r \<Longrightarrow> fits (k + Suc (length s)) (keeping [x] r)"
  "fits (k + length (skip_lf s)) r \<Longrightarrow> fits (k + Suc (length s)) (keeping [x] r)"
  "fits (k + length (skip_ws s)) r \<Longrightarrow> fits (k + Suc (length s)) (keeping [x] r)"
  "fits (k + length (snd (strconv_escape s))) r \<Longrightarrow> fits (k + Suc (length s)) (keeping (fst (strconv_escape s)) r)"
  using fits_step [of k s r "[x]" s] fits_step [of k "skip_lf s" r "[x]" s] fits_step [of k "skip_ws s" r "[x]" s]
    fits_step [of k "snd (strconv_escape s)" r "fst (strconv_escape s)" s] escape_fits [of s] skip_lf_length [of s] skip_ws_length [of s]
  by simp_all

lemmas fits_steps = fits_steps_k [where k = 0, simplified add_0] fits_steps_k [where k = "Suc 0", simplified add_Suc add_0]

lemma fits_simple: "fits (length s) (parse_simple e q s)"
  by (induction e q s rule: parse_simple.induct) (simp_all add: fits_steps)

lemma fits_eol: "fits (length s) (parse_eol_value e q s)"
  by (induction e q s rule: parse_eol_value.induct) (simp_all add: fits_steps)

lemma fits_wconv: "fits (length s) (parse_wconv e q s)"
  by (induction e q s rule: parse_wconv.induct) (auto simp: fits_steps)

lemma fits_wnorm_loop: "fits (length s) (wnorm_loop e q s)"
  by (induction e q s rule: wnorm_loop.induct) (simp_all add: fits_steps)

lemma fits_until: "fits (Suc (length s)) (strconv_until ct d endch s)"
  by (induction ct d endch s rule: strconv_until.induct) (simp_all add: fits_steps)

lemma until_rest: "strconv_until ct d endch s = Some (v, rest) \<Longrightarrow> rest \<noteq> []"
  by (induction ct d endch s arbitrary: v rule: strconv_until.induct) (auto simp: keeping_def split: if_splits)

lemma fits_trim: "fits n r \<Longrightarrow> fits n (map_option (apfst trim_end) r)"
  using trim_end_length by (fastforce simp: fits_def intro: le_less_trans [rotated])

lemma fits_wnorm: "fits (length s) (parse_wnorm e q s)"
  unfolding parse_wnorm_def using fits_mono [OF fits_wnorm_loop skip_ws_length] by (rule fits_trim)

lemma fits_pcdata_steps:
  "fits (Suc (length s)) (Some p) \<Longrightarrow> fits (Suc (Suc (length s))) (Some (apfst ((#) x) p))"
  "fits (Suc (length (skip_lf s))) (Some p) \<Longrightarrow> fits (Suc (Suc (length s))) (Some (apfst ((#) x) p))"
  "fits (Suc (length (snd (strconv_escape s)))) (Some p) \<Longrightarrow>
     fits (Suc (Suc (length s))) (Some (apfst ((@) (fst (strconv_escape s))) p))"
  using fits_steps(5-8) [of s "Some p"] by (simp_all add: keeping_def)
    (simp_all add: fits_def apfst_def map_prod_def case_prod_unfold)

lemma fits_pcdata_loop: "fits (Suc (length s)) (Some (pcdata_loop eol e s))"
  by (induction eol e s rule: pcdata_loop.induct) (auto simp: fits_pcdata_steps fits_def [of "Suc 0"])

lemma fits_pcdata: "fits (Suc (length s)) (Some (strconv_pcdata_impl trim eol e s))"
  using fits_trim [OF fits_pcdata_loop [of s eol e]] fits_pcdata_loop [of s eol e] by (simp add: strconv_pcdata_impl_def)

lemma fits_drop:
  assumes "strconv_until ct d endch s = Some (v, rest)" "0 < k"
  shows "length v + length (drop k rest) < length s"
proof -
  have "length v + length rest < Suc (length s)" using fits_until [of s] assms(1) by (auto simp: fits_def)
  moreover have "0 < length rest" using until_rest [OF assms(1)] by simp
  ultimately show ?thesis using assms(2) unfolding length_drop by arith
qed

lemma fits_comment: "fits (length s) (strconv_comment endch s)" "fits (length s) (strconv_cdata endch s)"
  using fits_drop [of _ _ endch s, where k = 3] fits_drop [of _ _ endch s, where k = 1]
  by (fastforce simp: strconv_comment_def strconv_cdata_def fits_def apsnd_def map_prod_def)+

text \<open>Character data: with text left to read, the zero takes the place of the bracket or comes before it.\<close>

lemma pcdata_step:
  "length v + length rest < length (t :: string) \<Longrightarrow> length out + length t \<le> Suc (length (s :: string)) \<Longrightarrow>
     length out + length v + length rest < Suc (length s)"
  by linarith

lemma pcdata_loop_gap:
  "snd (pcdata_loop eol e s) \<noteq> [] \<Longrightarrow>
     length (fst (pcdata_loop eol e s)) + length (snd (pcdata_loop eol e s)) < length s"
proof (induction eol e s rule: pcdata_loop.induct)
  case (2 eol e c s)
  show ?case
    using 2 skip_lf_length [of s] escape_fits [of s]
      pcdata_step [of _ _ "skip_lf s" "[c]" s] pcdata_step [of _ _ "snd (strconv_escape s)" "fst (strconv_escape s)" s]
    by (auto simp: apfst_def map_prod_def case_prod_unfold split: if_splits)
qed simp

lemma pcdata_gap:
  assumes "strconv_pcdata_impl trim eol e s = (v, rest)" "rest \<noteq> []"
  shows "length v + length rest < length s"
  using assms pcdata_loop_gap [of eol e s] trim_end_length [of "fst (pcdata_loop eol e s)"]
  by (auto simp: strconv_pcdata_impl_def apfst_def map_prod_def case_prod_unfold split: if_splits)

section \<open>What is left to read\<close>

text \<open>The text behind a conversion is an end of the text that was given to it.\<close>

lemma suffix_skips [simp]: "suffix (skip_lf s) s" "suffix (skip_ws s) s" "suffix (snd (strconv_escape s)) s"
proof -
  show "suffix (skip_lf s) s" by (auto simp: skip_lf_def suffix_ConsI split: list.split)
  show "suffix (skip_ws s) s" unfolding skip_ws_def by (rule suffix_dropWhile)
  show "suffix (snd (strconv_escape s)) s" using strconv_escape_rest [of s] by (auto simp: suffix_def)
qed

lemma suffix_into: "suffix r t \<Longrightarrow> suffix t s \<Longrightarrow> suffix r (c # s)"
  by (meson suffix_ConsI suffix_order.trans)

definition leaves :: "string \<Rightarrow> (string \<times> string) option \<Rightarrow> bool" where
  "leaves s r \<longleftrightarrow> (\<forall>v rest. r = Some (v, rest) \<longrightarrow> suffix rest s)"

lemma leaves_here [simp]: "leaves s None" "leaves s (Some (v, rest)) \<longleftrightarrow> suffix rest s"
  by (auto simp: leaves_def)

lemma leaves_step: "leaves t r \<Longrightarrow> suffix t s \<Longrightarrow> leaves (c # s) (keeping out r)"
  by (cases r) (auto simp: leaves_def keeping_def intro: suffix_ConsI suffix_order.trans)

lemmas leaves_steps = leaves_step [OF _ suffix_order.refl] leaves_step [OF _ suffix_skips(1)] leaves_step [OF _ suffix_skips(2)]
  leaves_step [OF _ suffix_skips(3)]

lemma leaves_simple: "leaves s (parse_simple e q s)"
  by (induction e q s rule: parse_simple.induct) (simp_all add: leaves_steps suffix_ConsI)

lemma leaves_eol: "leaves s (parse_eol_value e q s)"
  by (induction e q s rule: parse_eol_value.induct) (simp_all add: leaves_steps suffix_ConsI)

lemma leaves_wconv: "leaves s (parse_wconv e q s)"
  by (induction e q s rule: parse_wconv.induct) (auto simp: leaves_steps suffix_ConsI)

lemma leaves_wnorm_loop: "leaves s (wnorm_loop e q s)"
  by (induction e q s rule: wnorm_loop.induct) (simp_all add: leaves_steps suffix_ConsI)

lemma leaves_wnorm: "leaves s (parse_wnorm e q s)"
  using leaves_wnorm_loop [of "skip_ws s" e q] suffix_skips(2) [of s]
  by (cases "wnorm_loop e q (skip_ws s)") (auto simp: parse_wnorm_def leaves_def intro: suffix_order.trans)

lemma leaves_until: "leaves s (strconv_until ct d endch s)"
  by (induction ct d endch s rule: strconv_until.induct) (simp_all add: leaves_steps)

lemma leaves_comment: "leaves s (strconv_comment endch s)" "leaves s (strconv_cdata endch s)"
  using leaves_until [of s ct_parse_comment "CHR ''-''" endch] leaves_until [of s ct_parse_cdata "CHR '']''" endch]
    suffix_order.trans [OF suffix_drop]
  by (auto simp: strconv_comment_def strconv_cdata_def leaves_def)

lemma leaves_pcdata_loop: "suffix (snd (pcdata_loop eol e s)) s"
proof (induction eol e s rule: pcdata_loop.induct)
  case (2 eol e c s)
  then show ?case
    using suffix_into [OF _ suffix_skips(1), of _ s] suffix_into [OF _ suffix_skips(3), of _ s]
    by (auto simp: apfst_def map_prod_def case_prod_unfold suffix_ConsI)
qed simp

lemma leaves_pcdata: "suffix (snd (strconv_pcdata_impl trim eol e s)) s"
  using leaves_pcdata_loop [of eol e s] by (simp add: strconv_pcdata_impl_def)

end
