(* ===== verification/Pugi_Parser.thy ===== *)
theory Pugi_Parser
  imports Pugi_Strconv
begin

text \<open>
  The parser \<open>xml_parser\<close> of \<open>pugixml.cpp\<close> and the tree it builds.  The cursor of the parser is a node with the
  chain of its ancestors, each without the child on the way to the cursor.  A position is the text from it to the
  terminating zero; errors carry the number of characters from their position to behind that zero.  The options
  are the bit mask of the source.  Shown: the position of an error lies in the buffer, an accepted document has an
  element and is closed, and the parser takes every text, so that it returns for each.
\<close>

unbundle bit_operations_syntax

section \<open>Trees\<close>

datatype xml_node_type =
    node_null | node_document | node_element | node_pcdata | node_cdata | node_comment | node_pi
  | node_declaration | node_doctype

text \<open>A name or value that is a null pointer is \<open>None\<close>.\<close>

datatype xml_attribute = Attr (attr_name: "string option") (attr_value: "string option")

datatype xml_node =
  Node (node_type: xml_node_type) (node_name: "string option") (node_value: "string option")
    (node_attributes: "xml_attribute list") (node_children: "xml_node list")

definition new_node :: "xml_node_type \<Rightarrow> xml_node" where
  "new_node t = Node t None None [] []"

fun append_child :: "xml_node \<Rightarrow> xml_node \<Rightarrow> xml_node" where
  "append_child (Node t n v as cs) c = Node t n v as (cs @ [c])"

fun append_attribute :: "xml_node \<Rightarrow> xml_attribute \<Rightarrow> xml_node" where
  "append_attribute (Node t n v as cs) a = Node t n v (as @ [a]) cs"

fun set_node_name :: "string \<Rightarrow> xml_node \<Rightarrow> xml_node" where
  "set_node_name name (Node t n v as cs) = Node t (Some name) v as cs"

fun set_node_value :: "string \<Rightarrow> xml_node \<Rightarrow> xml_node" where
  "set_node_value value (Node t n v as cs) = Node t n (Some value) as cs"

type_synonym cursor = "xml_node \<times> xml_node list"

definition push_node :: "xml_node \<Rightarrow> cursor \<Rightarrow> cursor" where
  "push_node n cur = (n, fst cur # snd cur)"

fun pop_node :: "cursor \<Rightarrow> cursor" where
  "pop_node (n, p # ps) = (append_child p n, ps)"
| "pop_node (n, []) = (n, [])"

text \<open>A node that is pushed and popped at once.\<close>

definition add_node :: "xml_node \<Rightarrow> cursor \<Rightarrow> cursor" where
  "add_node n cur = apfst (\<lambda>c. append_child c n) cur"

section \<open>Options and errors\<close>

definition parse_pi :: u32 where "parse_pi = 0x0001"
definition parse_comments :: u32 where "parse_comments = 0x0002"
definition parse_cdata :: u32 where "parse_cdata = 0x0004"
definition parse_ws_pcdata :: u32 where "parse_ws_pcdata = 0x0008"
definition parse_escapes :: u32 where "parse_escapes = 0x0010"
definition parse_eol :: u32 where "parse_eol = 0x0020"
definition parse_wconv_attribute :: u32 where "parse_wconv_attribute = 0x0040"
definition parse_wnorm_attribute :: u32 where "parse_wnorm_attribute = 0x0080"
definition parse_declaration :: u32 where "parse_declaration = 0x0100"
definition parse_doctype :: u32 where "parse_doctype = 0x0200"
definition parse_ws_pcdata_single :: u32 where "parse_ws_pcdata_single = 0x0400"
definition parse_trim_pcdata :: u32 where "parse_trim_pcdata = 0x0800"
definition parse_fragment :: u32 where "parse_fragment = 0x1000"
definition parse_embed_pcdata :: u32 where "parse_embed_pcdata = 0x2000"
definition parse_merge_pcdata :: u32 where "parse_merge_pcdata = 0x4000"

definition parse_default :: u32 where
  "parse_default = parse_cdata OR parse_escapes OR parse_wconv_attribute OR parse_eol"

definition parse_full :: u32 where
  "parse_full = parse_default OR parse_pi OR parse_comments OR parse_declaration OR parse_doctype"

lemmas option_bits = parse_pi_def parse_comments_def parse_cdata_def parse_ws_pcdata_def parse_escapes_def parse_eol_def
  parse_wconv_attribute_def parse_wnorm_attribute_def parse_declaration_def parse_doctype_def parse_ws_pcdata_single_def
  parse_trim_pcdata_def parse_fragment_def parse_embed_pcdata_def parse_merge_pcdata_def

definition optset :: "u32 \<Rightarrow> u32 \<Rightarrow> bool" where
  "optset optmsk opt \<longleftrightarrow> optmsk AND opt \<noteq> 0"

datatype xml_parse_status =
    status_ok | status_file_not_found | status_io_error | status_out_of_memory | status_internal_error
  | status_unrecognized_tag | status_bad_pi | status_bad_comment | status_bad_cdata | status_bad_doctype
  | status_bad_pcdata | status_bad_start_element | status_bad_attribute | status_bad_end_element
  | status_end_element_mismatch | status_append_invalid_root | status_no_document_element

type_synonym 'a parsed = "(xml_parse_status \<times> nat) + 'a"

text \<open>An error at a position, and one behind the terminating zero.\<close>

definition throw_error :: "xml_parse_status \<Rightarrow> string \<Rightarrow> 'a parsed" where
  "throw_error err m = Inl (err, Suc (length m))"

definition throw_behind :: "xml_parse_status \<Rightarrow> 'a parsed" where
  "throw_behind err = Inl (err, 0)"

definition strconv_attribute :: "u32 \<Rightarrow> char \<Rightarrow> string \<Rightarrow> (string \<times> string) option" where
  "strconv_attribute optmask =
     [parse_simple False, parse_simple True, parse_eol_value False, parse_eol_value True,
      parse_wconv False, parse_wconv True, parse_wconv False, parse_wconv True,
      parse_wnorm False, parse_wnorm True, parse_wnorm False, parse_wnorm True,
      parse_wnorm False, parse_wnorm True, parse_wnorm False, parse_wnorm True]
     ! unat (drop_bit 4 optmask AND 15)"

definition strconv_pcdata :: "u32 \<Rightarrow> string \<Rightarrow> string \<times> string" where
  "strconv_pcdata optmask =
     [strconv_pcdata_impl False False False, strconv_pcdata_impl False False True,
      strconv_pcdata_impl False True False, strconv_pcdata_impl False True True,
      strconv_pcdata_impl True False False, strconv_pcdata_impl True False True,
      strconv_pcdata_impl True True False, strconv_pcdata_impl True True True]
     ! unat ((drop_bit 4 optmask AND 3) OR (drop_bit 9 optmask AND 4))"

section \<open>Document types\<close>

text \<open>The text before and from the first position where the test holds.\<close>

fun scan_for :: "(string \<Rightarrow> bool) \<Rightarrow> string \<Rightarrow> string \<times> string" where
  "scan_for P [] = ([], [])"
| "scan_for P (c # s) = (if P (c # s) then ([], c # s) else apfst ((#) c) (scan_for P s))"

definition starts :: "string \<Rightarrow> string \<Rightarrow> bool" where
  "starts w s \<longleftrightarrow> take (length w) s = w"

definition parse_doctype_primitive :: "string \<Rightarrow> string parsed" where
  "parse_doctype_primitive s =
     (if starts [CHR 0x22] s \<or> starts [CHR 0x27] s then
        (case scan_for (starts [hd s]) (tl s) of
           (_, []) \<Rightarrow> throw_error status_bad_doctype [] | (_, s) \<Rightarrow> Inr (drop 1 s))
      else if starts ''<?'' s then
        (case scan_for (starts ''?>'') (drop 2 s) of
           (_, []) \<Rightarrow> throw_error status_bad_doctype [] | (_, s) \<Rightarrow> Inr (drop 2 s))
      else if starts ''<!--'' s then
        (case scan_for (starts ''-->'') (drop 4 s) of
           (_, []) \<Rightarrow> throw_error status_bad_doctype [] | (_, s) \<Rightarrow> Inr (drop 3 s))
      else throw_error status_bad_doctype s)"

function ignore_loop :: "nat \<Rightarrow> string \<Rightarrow> string parsed" where
  "ignore_loop depth s =
     (if s = [] then throw_error status_bad_doctype s
      else if starts ''<!['' s then ignore_loop (Suc depth) (drop 3 s)
      else if starts '']]>'' s then (if depth = 0 then Inr (drop 3 s) else ignore_loop (depth - 1) (drop 3 s))
      else ignore_loop depth (drop 1 s))"
  by pat_completeness auto
termination by (relation "measure (\<lambda>(_, s). length s)") auto

definition parse_doctype_ignore :: "string \<Rightarrow> string parsed" where
  "parse_doctype_ignore s = ignore_loop 0 (drop 3 s)"

declare ignore_loop.simps [simp del]

lemma scan_for_append: "scan_for P s = (a, b) \<Longrightarrow> s = a @ b"
  by (induction P s arbitrary: a rule: scan_for.induct) (auto split: if_splits simp: apfst_def map_prod_def split: prod.splits)

lemma scan_for_length: "length (snd (scan_for P s)) \<le> length s"
  by (induction P s rule: scan_for.induct) auto

lemma starts_Nil [simp]: "starts w [] \<longleftrightarrow> w = []"
  by (auto simp: starts_def)

lemma starts_length: "starts w s \<Longrightarrow> length w \<le> length s"
  by (metis nat_le_linear starts_def take_all)

lemma primitive_shorter: "parse_doctype_primitive s = Inr r \<Longrightarrow> length r < length s"
  using scan_for_length [of "starts [hd s]" "tl s"] scan_for_length [of "starts ''?>''" "drop 2 s"]
    scan_for_length [of "starts ''-->''" "drop 4 s"] starts_length [of _ s]
  by (cases s) (auto simp: parse_doctype_primitive_def throw_error_def split: if_splits prod.splits list.splits)

lemma ignore_loop_length: "ignore_loop depth s = Inr r \<Longrightarrow> length r \<le> length s"
proof (induction depth s rule: ignore_loop.induct)
  case (1 depth s)
  have "length r \<le> length (drop n s) \<Longrightarrow> length r \<le> length s" for n by simp
  then show ?case
    using 1 by (subst (asm) ignore_loop.simps) (auto simp: throw_error_def split: if_splits)
qed

lemma ignore_shorter: "parse_doctype_ignore s = Inr r \<Longrightarrow> s \<noteq> [] \<Longrightarrow> length r < length s"
  using ignore_loop_length [of 0 "drop 3 s" r] by (cases s) (auto simp: parse_doctype_ignore_def)

function group_loop :: "char \<Rightarrow> nat \<Rightarrow> string \<Rightarrow> string parsed" where
  "group_loop endch depth s =
     (if s = [] then (if depth \<noteq> 0 \<or> endch \<noteq> CHR ''>'' then throw_error status_bad_doctype s else Inr s)
      else if starts ''<!'' s \<and> \<not> starts ''<!-'' s then
        (if starts ''<!['' s then
           (case parse_doctype_ignore s of Inl e \<Rightarrow> Inl e | Inr r \<Rightarrow> group_loop endch depth r)
         else group_loop endch (Suc depth) (drop 2 s))
      else if hd s \<in> {CHR ''<'', CHR 0x22, CHR 0x27} then
        (case parse_doctype_primitive s of Inl e \<Rightarrow> Inl e | Inr r \<Rightarrow> group_loop endch depth r)
      else if hd s = CHR ''>'' then (if depth = 0 then Inr s else group_loop endch (depth - 1) (drop 1 s))
      else group_loop endch depth (drop 1 s))"
  by pat_completeness auto
termination
  by (relation "measure (\<lambda>(_, _, s). length s)") (auto dest: primitive_shorter ignore_shorter)

declare group_loop.simps [simp del]

definition parse_doctype_group :: "char \<Rightarrow> string \<Rightarrow> string parsed" where
  "parse_doctype_group endch s = group_loop endch 0 (drop 2 s)"

section \<open>Comments, CDATA sections and document types\<close>

text \<open>Entered at the exclamation mark.\<close>

definition parse_comment :: "u32 \<Rightarrow> char \<Rightarrow> cursor \<Rightarrow> string \<Rightarrow> (cursor \<times> string) parsed" where
  "parse_comment optmsk endch cur s =
     (if optset optmsk parse_eol \<and> optset optmsk parse_comments then
        (case strconv_comment endch s of
           None \<Rightarrow> throw_error status_bad_comment s
         | Some (value, rest) \<Rightarrow> Inr (add_node (set_node_value (c_string value) (new_node node_comment)) cur, rest))
      else
        (case scan_for (pair_end endch (CHR ''-'')) s of
           (_, []) \<Rightarrow> throw_error status_bad_comment []
         | (value, rest) \<Rightarrow>
             Inr (if optset optmsk parse_comments
                  then add_node (set_node_value value (new_node node_comment)) cur else cur, drop 3 rest)))"

definition parse_cdata_section :: "u32 \<Rightarrow> char \<Rightarrow> cursor \<Rightarrow> string \<Rightarrow> (cursor \<times> string) parsed" where
  "parse_cdata_section optmsk endch cur s =
     (if optset optmsk parse_cdata then
        (if optset optmsk parse_eol then
           (case strconv_cdata endch s of
              None \<Rightarrow> throw_error status_bad_cdata s
            | Some (value, rest) \<Rightarrow> Inr (add_node (set_node_value (c_string value) (new_node node_cdata)) cur, drop 2 rest))
         else
           (case scan_for (pair_end endch (CHR '']'')) s of
              (_, []) \<Rightarrow> throw_error status_bad_cdata []
            | (value, rest) \<Rightarrow> Inr (add_node (set_node_value value (new_node node_cdata)) cur, drop 2 (drop 1 rest))))
      else
        (case scan_for (pair_end endch (CHR '']'')) s of
           (_, []) \<Rightarrow> throw_error status_bad_cdata []
         | (_, rest) \<Rightarrow> Inr (cur, drop 2 (drop 1 rest))))"

text \<open>\<open>tag\<close> is the text from the opening bracket on, \<open>s\<close> the text behind the exclamation mark.\<close>

definition parse_doctype_node :: "u32 \<Rightarrow> char \<Rightarrow> cursor \<Rightarrow> string \<Rightarrow> (cursor \<times> string) parsed" where
  "parse_doctype_node optmsk endch cur tag =
     (if snd cur \<noteq> [] then throw_error status_bad_doctype tag
      else case parse_doctype_group endch tag of
        Inl e \<Rightarrow> Inl e
      | Inr rest \<Rightarrow>
          (let mark = drop 9 (take (length tag - length rest) tag) in
           Inr (if optset optmsk parse_doctype
                then add_node (set_node_value (skip_ws mark) (new_node node_doctype)) cur else cur, drop 1 rest)))"

definition parse_exclamation :: "u32 \<Rightarrow> char \<Rightarrow> cursor \<Rightarrow> string \<Rightarrow> (cursor \<times> string) parsed" where
  "parse_exclamation optmsk endch cur s =
     (let s = drop 1 s in
      if starts ''-'' s then
        (if starts ''--'' s then parse_comment optmsk endch cur (drop 2 s) else throw_error status_bad_comment (drop 1 s))
      else if starts ''['' s then
        (case scan_word ''CDATA['' (drop 1 s) of
           (True, rest) \<Rightarrow> parse_cdata_section optmsk endch cur rest
         | (False, rest) \<Rightarrow> throw_error status_bad_cdata rest)
      else if starts ''DOCTYP'' s \<and> ends_with endch (CHR ''E'') (drop 6 s) then
        parse_doctype_node optmsk endch cur (CHR ''<'' # CHR ''!'' # s)
      else if s = [] \<and> endch = CHR ''-'' then throw_error status_bad_comment s
      else if s = [] \<and> endch = CHR ''['' then throw_error status_bad_cdata s
      else throw_error status_unrecognized_tag s)"

section \<open>Attributes\<close>

text \<open>The class of the character at a position; the terminating zero is in none of the classes asked for.\<close>

definition at_class :: "chartype_t \<Rightarrow> string \<Rightarrow> bool" where
  "at_class ct s \<longleftrightarrow> s \<noteq> [] \<and> is_chartype ct (hd s)"

definition scan_name :: "string \<Rightarrow> string \<times> string" where
  "scan_name s = (takeWhile (is_chartype ct_symbol) s, dropWhile (is_chartype ct_symbol) s)"

text \<open>The character behind the name, white space skipped; the scan may step over the terminating zero.\<close>

definition after_name :: "string \<Rightarrow> (char \<times> string) option" where
  "after_name s =
     (case s of
        [] \<Rightarrow> None
      | ch # r \<Rightarrow> if is_chartype ct_space ch then (case skip_ws r of [] \<Rightarrow> None | ch # r \<Rightarrow> Some (ch, r)) else Some (ch, r))"

definition parse_attribute :: "u32 \<Rightarrow> string \<Rightarrow> (xml_attribute \<times> string) parsed" where
  "parse_attribute optmsk s =
     (case scan_name s of (name, s) \<Rightarrow>
        (case after_name s of
           None \<Rightarrow> throw_behind status_bad_attribute
         | Some (ch, s) \<Rightarrow>
             if ch \<noteq> CHR ''='' then throw_error status_bad_attribute s
             else (case skip_ws s of
                 [] \<Rightarrow> throw_error status_bad_attribute []
               | quote # s \<Rightarrow>
                   if quote \<noteq> CHR 0x22 \<and> quote \<noteq> CHR 0x27 then throw_error status_bad_attribute (quote # s)
                   else (case strconv_attribute optmsk quote s of
                       None \<Rightarrow> throw_error status_bad_attribute s
                     | Some (value, rest) \<Rightarrow>
                         if at_class ct_start_symbol rest then throw_error status_bad_attribute rest
                         else Inr (Attr (Some name) (Some (c_string value)), rest)))))"

lemma fits_length: "fits n r \<Longrightarrow> r = Some (v, rest) \<Longrightarrow> length rest < n"
  by (auto simp: fits_def)

lemma fits_attribute: "fits (length s) (strconv_attribute optmsk q s)"
proof -
  have "drop_bit 4 optmsk AND 15 \<le> 15" by (rule word_and_le1)
  then have "unat (drop_bit 4 optmsk AND 15) \<le> 15" by (simp add: word_le_nat_alt)
  then have "unat (drop_bit 4 optmsk AND 15) \<in> set [0..<16]" by simp
  then show ?thesis
    by (auto simp: strconv_attribute_def upt_conv_Cons fits_simple fits_eol fits_wconv fits_wnorm)
qed

lemma leaves_attribute: "leaves s (strconv_attribute optmsk q s)"
proof -
  have "drop_bit 4 optmsk AND 15 \<le> 15" by (rule word_and_le1)
  then have "unat (drop_bit 4 optmsk AND 15) \<le> 15" by (simp add: word_le_nat_alt)
  then have "unat (drop_bit 4 optmsk AND 15) \<in> set [0..<16]" by simp
  then show ?thesis
    by (auto simp: strconv_attribute_def upt_conv_Cons leaves_simple leaves_eol leaves_wconv leaves_wnorm)
qed

lemma after_name_length: "after_name s = Some (ch, r) \<Longrightarrow> length r < length s"
proof -
  assume "after_name s = Some (ch, r)"
  then obtain c t where "s = c # t" "r = t \<or> (\<exists>d. skip_ws t = d # r)"
    by (auto simp: after_name_def split: list.splits if_splits)
  then show ?thesis using skip_ws_length [of t] by auto
qed

lemma scan_name_length: "length (snd (scan_name s)) \<le> length s"
  by (simp add: scan_name_def length_dropWhile_le)

lemma attribute_shorter: "parse_attribute optmsk s = Inr (a, rest) \<Longrightarrow> length rest < length s"
proof -
  assume a: "parse_attribute optmsk s = Inr (a, rest)"
  obtain name t where t: "scan_name s = (name, t)" by fastforce
  obtain ch u where u: "after_name t = Some (ch, u)"
    using a by (auto simp: parse_attribute_def t throw_behind_def split: option.splits)
  obtain q v where v: "skip_ws u = q # v"
    using a by (auto simp: parse_attribute_def t u throw_error_def split: list.splits if_splits)
  obtain x where "strconv_attribute optmsk q v = Some (x, rest)"
    using a by (auto simp: parse_attribute_def t u v throw_error_def split: option.splits if_splits)
  from fits_length [OF fits_attribute this] have "length rest \<le> length v" by simp
  then show ?thesis
    using after_name_length [OF u] skip_ws_length [of u] scan_name_length [of s] by (simp add: t v)
qed

function parse_attributes :: "u32 \<Rightarrow> char \<Rightarrow> cursor \<Rightarrow> string \<Rightarrow> (cursor \<times> string) parsed" where
  "parse_attributes optmsk endch cur s0 =
     (let s = skip_ws s0 in
      if at_class ct_start_symbol s then
        (case parse_attribute optmsk s of
           Inl e \<Rightarrow> Inl e
         | Inr (a, rest) \<Rightarrow> parse_attributes optmsk endch (apfst (\<lambda>n. append_attribute n a) cur) rest)
      else if starts ''/'' s then
        (let s = drop 1 s in
         if starts ''>'' s then Inr (pop_node cur, drop 1 s)
         else if s = [] \<and> endch = CHR ''>'' then Inr (pop_node cur, s)
         else throw_error status_bad_start_element s)
      else if starts ''>'' s then Inr (cur, drop 1 s)
      else if s = [] \<and> endch = CHR ''>'' then Inr (cur, s)
      else throw_error status_bad_start_element s)"
  by pat_completeness auto
termination
proof (relation "measure (\<lambda>(_, _, _, s). length s)", goal_cases)
  case (2 optmsk endch cur s0 s r a rest)
  then show ?case using attribute_shorter [of optmsk "skip_ws s0" a rest] skip_ws_length [of s0] by auto
qed simp

declare parse_attributes.simps [simp del]

section \<open>Processing instructions\<close>

text \<open>
  Entered at the question mark.  A declaration that is kept leaves the cursor on its node, and its text ends as that
  of an element, so that its attributes are read next.
\<close>

definition or_space :: "char \<Rightarrow> char" where
  "or_space c = char_of ((of_char c :: nat) OR 32)"

definition pi_end :: "char \<Rightarrow> string \<Rightarrow> bool" where
  "pi_end endch s \<longleftrightarrow> starts ''?'' s \<and> ends_with endch (CHR ''>'') (drop 1 s)"

definition step_over :: "char \<Rightarrow> string \<Rightarrow> string" where
  "step_over c s = (if starts [c] s then drop 1 s else s)"

definition pi_content :: "char \<Rightarrow> bool \<Rightarrow> cursor \<Rightarrow> string \<Rightarrow> (cursor \<times> string) parsed" where
  "pi_content endch declaration cur s =
     (if starts ''?'' s then
        (if \<not> ends_with endch (CHR ''>'') (drop 1 s) then throw_error status_bad_pi (drop 1 s)
         else Inr (pop_node cur, step_over (CHR ''>'') (drop 1 s)))
      else if at_class ct_space s then
        (case scan_for (pi_end endch) (skip_ws (drop 1 s)) of
           (_, []) \<Rightarrow> throw_error status_bad_pi []
         | (value, rest) \<Rightarrow>
             if declaration then Inr (cur, value @ CHR ''/'' # drop 1 rest)
             else Inr (pop_node (apfst (set_node_value value) cur), step_over (CHR ''>'') (drop 1 rest)))
      else throw_error status_bad_pi (drop 1 s))"

definition parse_question :: "u32 \<Rightarrow> char \<Rightarrow> cursor \<Rightarrow> string \<Rightarrow> (cursor \<times> string) parsed" where
  "parse_question optmsk endch cur s =
     (let target = drop 1 s in
      if \<not> at_class ct_start_symbol target then throw_error status_bad_pi target
      else case scan_name target of (name, s) \<Rightarrow>
        if s = [] then throw_error status_bad_pi s
        else (let declaration = (map or_space name = ''xml'') in
          if (if declaration then optset optmsk parse_declaration else optset optmsk parse_pi) then
            (if declaration \<and> snd cur \<noteq> [] then throw_error status_bad_pi s
             else pi_content endch declaration
               (push_node (set_node_name name (new_node (if declaration then node_declaration else node_pi))) cur) s)
          else (case scan_for (pi_end endch) s of
              (_, []) \<Rightarrow> throw_error status_bad_pi []
            | (_, rest) \<Rightarrow> Inr (cur, drop 2 rest))))"

section \<open>Tags\<close>

text \<open>The rests of the name and of the text where the comparison of a closing tag ends; \<open>None\<close> at a difference.\<close>

fun match_name :: "string \<Rightarrow> string \<Rightarrow> (string \<times> string) option" where
  "match_name name [] = Some (name, [])"
| "match_name name (c # s) =
     (if is_chartype ct_symbol c
      then (case name of [] \<Rightarrow> None | n # name \<Rightarrow> if c = n then match_name name s else None)
      else Some (name, c # s))"

definition parse_closing :: "char \<Rightarrow> cursor \<Rightarrow> string \<Rightarrow> (cursor \<times> string) parsed" where
  "parse_closing endch cur mark =
     (case node_name (fst cur) of
        None \<Rightarrow> throw_error status_end_element_mismatch mark
      | Some name \<Rightarrow>
          (case match_name name mark of
             None \<Rightarrow> throw_error status_end_element_mismatch mark
           | Some (name, s) \<Rightarrow>
               if name \<noteq> [] then
                 (if s = [] \<and> name = [endch] then throw_error status_bad_end_element s
                  else throw_error status_end_element_mismatch mark)
               else (let s = skip_ws s in
                 if s = [] then (if endch \<noteq> CHR ''>'' then throw_error status_bad_end_element s else Inr (pop_node cur, s))
                 else if \<not> starts ''>'' s then throw_error status_bad_end_element s
                 else Inr (pop_node cur, drop 1 s))))"

definition parse_element :: "u32 \<Rightarrow> char \<Rightarrow> cursor \<Rightarrow> string \<Rightarrow> (cursor \<times> string) parsed" where
  "parse_element optmsk endch cur s =
     (case scan_name s of (name, s) \<Rightarrow>
        (let cur = push_node (set_node_name name (new_node node_element)) cur in
         case s of
           [] \<Rightarrow> if endch \<noteq> CHR ''>'' then throw_error status_bad_start_element [] else Inr (cur, [])
         | ch # s \<Rightarrow>
             if ch = CHR ''>'' then Inr (cur, s)
             else if is_chartype ct_space ch then parse_attributes optmsk endch cur s
             else if ch = CHR ''/'' then
               (if \<not> ends_with endch (CHR ''>'') s then throw_error status_bad_start_element s
                else Inr (pop_node cur, step_over (CHR ''>'') s))
             else throw_error status_bad_start_element s))"

text \<open>\<open>LOC_TAG\<close>: the text behind an opening bracket.\<close>

definition parse_tag :: "u32 \<Rightarrow> char \<Rightarrow> cursor \<Rightarrow> string \<Rightarrow> (cursor \<times> string) parsed" where
  "parse_tag optmsk endch cur s =
     (if at_class ct_start_symbol s then parse_element optmsk endch cur s
      else if starts ''/'' s then parse_closing endch cur (drop 1 s)
      else if starts ''?'' s then
        (case parse_question optmsk endch cur s of
           Inl e \<Rightarrow> Inl e
         | Inr (cur, s) \<Rightarrow>
             if node_type (fst cur) = node_declaration then parse_attributes optmsk endch cur s else Inr (cur, s))
      else if starts ''!'' s then parse_exclamation optmsk endch cur s
      else if s = [] \<and> endch = CHR ''?'' then throw_error status_bad_pi s
      else throw_error status_unrecognized_tag s)"

lemma attributes_length: "parse_attributes optmsk endch cur s0 = Inr (cur', rest) \<Longrightarrow> length rest \<le> length s0"
proof (induction optmsk endch cur s0 rule: parse_attributes.induct)
  case (1 optmsk endch cur s0)
  let ?s = "skip_ws s0"
  show ?case
  proof (cases "at_class ct_start_symbol ?s")
    case True
    obtain a t where t: "parse_attribute optmsk ?s = Inr (a, t)"
      using 1(2) True by (cases "parse_attribute optmsk ?s") (auto simp: parse_attributes.simps [of _ _ _ s0] Let_def)
    have "length rest \<le> length t"
      using 1(1) [OF refl True t refl] 1(2) True t by (simp add: parse_attributes.simps [of _ _ _ s0] Let_def)
    then show ?thesis using attribute_shorter [OF t] skip_ws_length [of s0] by simp
  next
    case False
    have "length rest \<le> length ?s"
      using 1(2) False
      by (subst (asm) parse_attributes.simps) (auto simp: Let_def throw_error_def split: if_splits)
    then show ?thesis using skip_ws_length [of s0] by simp
  qed
qed

lemma comment_length: "parse_comment optmsk endch cur s = Inr (cur', rest) \<Longrightarrow> length rest \<le> length s"
  using fits_length [OF fits_comment(1) [of s endch]] scan_for_length [of "pair_end endch (CHR ''-'')" s]
  by (auto simp: parse_comment_def throw_error_def split: if_splits option.splits prod.splits list.splits)

lemma cdata_length: "parse_cdata_section optmsk endch cur s = Inr (cur', rest) \<Longrightarrow> length rest \<le> length s"
  using fits_length [OF fits_comment(2) [of s endch]] scan_for_length [of "pair_end endch (CHR '']'')" s]
  by (fastforce simp: parse_cdata_section_def throw_error_def split: if_splits option.splits prod.splits list.splits)

lemma group_loop_length: "group_loop endch depth s = Inr rest \<Longrightarrow> length rest \<le> length s"
proof (induction endch depth s rule: group_loop.induct)
  case (1 endch depth s)
  have d: "length rest \<le> length (drop n s) \<Longrightarrow> length rest \<le> length s" for n by simp
  show ?case
    using 1 d
    by (subst (asm) group_loop.simps)
      (auto simp: throw_error_def split: if_splits sum.splits dest!: ignore_shorter primitive_shorter)
qed

lemma exclamation_length: "parse_exclamation optmsk endch cur s = Inr (cur', rest) \<Longrightarrow> length rest \<le> length s"
proof -
  assume a: "parse_exclamation optmsk endch cur s = Inr (cur', rest)"
  define t where "t = drop 1 s"
  note d = throw_error_def
  note a = a [unfolded parse_exclamation_def Let_def, folded t_def]
  have "length rest \<le> length t"
  proof (cases "starts ''-'' t")
    case True
    then have "parse_comment optmsk endch cur (drop 2 t) = Inr (cur', rest)" using a by (auto simp: d split: if_splits)
    from comment_length [OF this] show ?thesis by simp
  next
    case minus: False
    show ?thesis
    proof (cases "starts ''['' t")
      case True
      then obtain u where u: "scan_word ''CDATA['' (drop 1 t) = (True, u)" "parse_cdata_section optmsk endch cur u = Inr (cur', rest)"
        using a minus by (auto simp: d split: prod.splits bool.splits)
      from scan_word_rest [OF u(1)] have "length u \<le> length (drop 1 t)" by auto
      with cdata_length [OF u(2)] show ?thesis by simp
    next
      case False
      then have "parse_doctype_node optmsk endch cur (CHR ''<'' # CHR ''!'' # t) = Inr (cur', rest)"
        using a minus by (auto simp: d split: if_splits)
      then obtain u where "group_loop endch 0 t = Inr u" "rest = drop 1 u"
        by (auto simp: parse_doctype_node_def throw_error_def parse_doctype_group_def Let_def split: if_splits sum.splits)
      with group_loop_length [of endch 0 t u] show ?thesis by simp
    qed
  qed
  then show ?thesis by (simp add: t_def)
qed

lemma scan_for_nonempty: "scan_for P s = (a, b) \<Longrightarrow> b \<noteq> [] \<Longrightarrow> P b \<and> length a + length b = length s"
  by (induction P s arbitrary: a rule: scan_for.induct) (auto split: if_splits prod.splits simp: apfst_def map_prod_def)

lemma step_over_length: "length (step_over c s) \<le> length s"
  by (simp add: step_over_def)

lemma pi_content_length: "pi_content endch declaration cur s = Inr (cur', rest) \<Longrightarrow> length rest \<le> length s"
  using skip_ws_length [of "drop 1 s"] step_over_length [of "CHR ''>''" "drop 1 s"] step_over_length [of "CHR ''>''"]
  by (auto simp: pi_content_def throw_error_def split: if_splits prod.splits list.splits
      dest!: scan_for_nonempty intro: le_trans [OF step_over_length])

lemma question_length: "parse_question optmsk endch cur s = Inr (cur', rest) \<Longrightarrow> length rest \<le> length s"
proof -
  assume a: "parse_question optmsk endch cur s = Inr (cur', rest)"
  obtain name t where t: "scan_name (drop 1 s) = (name, t)" by fastforce
  note a = a [unfolded parse_question_def Let_def t prod.case throw_error_def]
  have "length rest \<le> length t"
    using a by (auto split: if_splits prod.splits list.splits dest!: pi_content_length scan_for_nonempty)
  then show ?thesis using scan_name_length [of "drop 1 s", unfolded t snd_conv] by simp
qed

lemma skip_ws_le: "length s \<le> n \<Longrightarrow> length (skip_ws s) \<le> n" "length s \<le> n \<Longrightarrow> length (skip_ws s) - k \<le> n"
  using skip_ws_length [of s] by simp_all

lemma match_name_length: "match_name name s = Some (name', t) \<Longrightarrow> length t \<le> length s"
  by (induction name s rule: match_name.induct) (auto split: if_splits list.splits intro: le_SucI)

lemma closing_length: "parse_closing endch cur s = Inr (cur', rest) \<Longrightarrow> length rest \<le> length s"
  by (auto simp: parse_closing_def throw_error_def Let_def split: option.splits if_splits
      dest!: match_name_length intro: skip_ws_le) (meson diff_le_self le_trans skip_ws_length)

lemma element_length: "parse_element optmsk endch cur s = Inr (cur', rest) \<Longrightarrow> length rest \<le> length s"
  using scan_name_length [of s]
  by (auto simp: parse_element_def throw_error_def Let_def split: prod.splits list.splits if_splits
      dest!: attributes_length intro: le_trans [OF step_over_length])

lemma tag_length: "parse_tag optmsk endch cur s = Inr (cur', rest) \<Longrightarrow> length rest \<le> length s"
  by (auto simp: parse_tag_def throw_error_def split: if_splits sum.splits
      dest!: element_length closing_length question_length exclamation_length attributes_length)

section \<open>The tree\<close>

definition store_pcdata :: "u32 \<Rightarrow> cursor \<Rightarrow> string \<Rightarrow> cursor" where
  "store_pcdata optmsk cur v =
     (let n = fst cur in
      if optset optmsk parse_embed_pcdata \<and> snd cur \<noteq> [] \<and> node_children n = [] \<and> node_value n = None
      then apfst (set_node_value v) cur
      else if optset optmsk parse_merge_pcdata \<and> node_children n \<noteq> [] \<and> node_type (last (node_children n)) = node_pcdata
      then (Node (node_type n) (node_name n) (node_value n) (node_attributes n)
              (butlast (node_children n) @
                 [set_node_value (the (node_value (last (node_children n))) @ v) (last (node_children n))]), snd cur)
      else add_node (set_node_value v (new_node node_pcdata)) cur)"

text \<open>
  The branch for text before the next tag: the text behind the bracket that opens the tag, \<open>None\<close> when the
  document ends.  White space is only text where the options say so.
\<close>

definition next_tag :: "string \<Rightarrow> string option" where
  "next_tag s = (case s of [] \<Rightarrow> None | _ # r \<Rightarrow> Some r)"

definition drops_space :: "u32 \<Rightarrow> cursor \<Rightarrow> string \<Rightarrow> bool" where
  "drops_space optmsk cur s \<longleftrightarrow>
     (s = [] \<or> hd s = CHR ''<'') \<and>
     (\<not> optset optmsk (parse_ws_pcdata OR parse_ws_pcdata_single) \<or> optset optmsk parse_trim_pcdata \<or>
      optset optmsk parse_ws_pcdata_single \<and> (\<not> starts ''</'' s \<or> node_children (fst cur) \<noteq> []))"

definition parse_text :: "u32 \<Rightarrow> cursor \<Rightarrow> string \<Rightarrow> cursor \<times> string option" where
  "parse_text optmsk cur mark =
     (let s = skip_ws mark in
      if drops_space optmsk cur s then (cur, next_tag s)
      else (let s = (if optset optmsk parse_trim_pcdata then s else mark) in
        if snd cur \<noteq> [] \<or> optset optmsk parse_fragment then
          (case strconv_pcdata optmsk s of
             (v, rest) \<Rightarrow> (store_pcdata optmsk cur (c_string v), if rest = [] then None else Some rest))
        else (cur, next_tag (snd (scan_for (starts ''<'') s)))))"

lemma next_tag_length: "next_tag s = Some r \<Longrightarrow> length r < length s"
  by (cases s) (auto simp: next_tag_def)

lemma pcdata_mask_cases: "unat ((drop_bit 4 optmask AND 3) OR (drop_bit 9 optmask AND (4 :: u32))) \<in> {0, 1, 2, 3, 4, 5, 6, 7}"
proof -
  have "(drop_bit 4 optmask AND 3) OR (drop_bit 9 optmask AND (4 :: u32)) = ((drop_bit 4 optmask AND 3) OR (drop_bit 9 optmask AND 4)) AND 7"
    by (simp only: bit.conj_disj_distrib2 and.assoc) simp
  then have "(drop_bit 4 optmask AND 3) OR (drop_bit 9 optmask AND (4 :: u32)) \<le> 7" by (metis word_and_le1)
  then have "unat ((drop_bit 4 optmask AND 3) OR (drop_bit 9 optmask AND (4 :: u32))) \<le> 7" by (simp add: word_le_nat_alt)
  then show ?thesis by auto
qed

lemma strconv_pcdata_cases: "\<exists>trim eol e. strconv_pcdata optmask = strconv_pcdata_impl trim eol e"
  using pcdata_mask_cases [of optmask] unfolding strconv_pcdata_def by (elim insertE emptyE) (simp_all, blast+)

lemma pcdata_loop_shorter: "s \<noteq> [] \<Longrightarrow> length (snd (pcdata_loop eol e s)) < length s"
proof (cases s)
  case (Cons c t)
  have le: "length (snd (pcdata_loop eol e u)) \<le> length u" for eol e u
    using fits_length [OF fits_pcdata_loop [of u eol e], of "fst (pcdata_loop eol e u)" "snd (pcdata_loop eol e u)"] by simp
  show ?thesis
    using le by (auto simp: Cons less_Suc_eq_le intro: le_trans [OF _ skip_lf_length] le_trans [OF _ strconv_escape_length])
qed simp

lemma text_shorter: "mark \<noteq> [] \<Longrightarrow> parse_text optmsk cur mark = (cur', Some r) \<Longrightarrow> length r < length mark"
proof -
  assume m: "mark \<noteq> []" and a: "parse_text optmsk cur mark = (cur', Some r)"
  obtain trim eol e where p: "strconv_pcdata optmsk = strconv_pcdata_impl trim eol e" using strconv_pcdata_cases by blast
  have s: "length (snd (strconv_pcdata_impl trim eol e t)) < length t" if "t \<noteq> []" for t
    using pcdata_loop_shorter [OF that] by (simp add: strconv_pcdata_impl_def)
  define t where "t = (if optset optmsk parse_trim_pcdata then skip_ws mark else mark)"
  have t: "length t \<le> length mark" by (simp add: t_def skip_ws_length)
  note a = a [unfolded parse_text_def Let_def, folded t_def]
  show ?thesis
  proof (cases "drops_space optmsk cur (skip_ws mark)")
    case True
    then show ?thesis using a skip_ws_length [of mark] by (auto dest!: next_tag_length)
  next
    case False
    show ?thesis
    proof (cases "snd cur \<noteq> [] \<or> optset optmsk parse_fragment")
      case True
      then have "r = snd (strconv_pcdata_impl trim eol e t)" "r \<noteq> []"
        using False a by (auto simp: p split: prod.splits if_splits)
      moreover from this have "t \<noteq> []" by (auto simp: strconv_pcdata_impl_def)
      ultimately show ?thesis using s [of t] t by simp
    next
      case nofrag: False
      then have "next_tag (snd (scan_for (starts ''<'') t)) = Some r" using False a by simp
      then show ?thesis using next_tag_length scan_for_length [of "starts ''<''" t] t by fastforce
    qed
  qed
qed

lemma below_tail: "s \<noteq> [] \<Longrightarrow> n \<le> length s - Suc 0 \<Longrightarrow> n < length s"
  by (cases s) auto

function parse_tree :: "u32 \<Rightarrow> char \<Rightarrow> cursor \<Rightarrow> string \<Rightarrow> cursor parsed" where
  "parse_tree optmsk endch cur s =
     (if s = [] then (if snd cur \<noteq> [] then throw_error status_end_element_mismatch [] else Inr cur)
      else case (if hd s = CHR ''<'' then (cur, Some (tl s)) else parse_text optmsk cur s) of
        (cur, None) \<Rightarrow> if snd cur \<noteq> [] then throw_error status_end_element_mismatch [] else Inr cur
      | (cur, Some tag) \<Rightarrow>
          (case parse_tag optmsk endch cur tag of Inl e \<Rightarrow> Inl e | Inr (cur, s) \<Rightarrow> parse_tree optmsk endch cur s))"
  by pat_completeness auto
termination
  by (relation "measure (\<lambda>(_, _, _, s). length s)")
    (simp, auto split: if_splits dest!: tag_length dest: text_shorter [OF _ sym] intro: below_tail)

declare parse_tree.simps [simp del]

text \<open>
  \<open>xml_parser::parse\<close>: the last character of the buffer makes room for the terminating zero, and text behind a zero
  in the buffer is not read.  The result is the status, the offset of the error, and the tree when the parser has
  reached the end; what a failed parse leaves in the document is not modelled.
\<close>

definition parse_skip_bom :: "string \<Rightarrow> string" where
  "parse_skip_bom s = (if starts [CHR 0xEF, CHR 0xBB, CHR 0xBF] s then drop 3 s else s)"

definition has_element :: "xml_node list \<Rightarrow> bool" where
  "has_element ns \<longleftrightarrow> list_ex (\<lambda>n. node_type n = node_element) ns"

definition parse_buffer :: "string \<Rightarrow> u32 \<Rightarrow> (xml_parse_status \<times> nat) \<times> xml_node option" where
  "parse_buffer buffer optmsk =
     (if buffer = [] then
        ((if optset optmsk parse_fragment then status_ok else status_no_document_element, 0), Some (new_node node_document))
      else
        (let endch = last buffer; text = c_string (butlast buffer) in
         case parse_tree optmsk endch (new_node node_document, []) (parse_skip_bom text) of
           Inl (err, behind) \<Rightarrow>
             (let offset = Suc (length text) - behind in
              ((err, if 0 < offset \<and> offset = length buffer - 1 \<and> endch = CHR 0x00 then offset - 1 else offset), None))
         | Inr (root, _) \<Rightarrow>
             if endch = CHR ''<'' then ((status_unrecognized_tag, length buffer - 1), Some root)
             else if \<not> optset optmsk parse_fragment \<and> \<not> has_element (node_children root)
             then ((status_no_document_element, length buffer - 1), Some root)
             else ((status_ok, 0), Some root)))"

section \<open>Where errors are\<close>

text \<open>An error has a status of its own and a position at most \<open>n\<close> characters from behind the terminating zero.\<close>

definition within :: "nat \<Rightarrow> 'a parsed \<Rightarrow> bool" where
  "within n r \<longleftrightarrow> (\<forall>err k. r = Inl (err, k) \<longrightarrow> err \<noteq> status_ok \<and> k \<le> n)"

lemma within_simps [simp]:
  "within n (Inr x)" "within n (Inl (err, k)) \<longleftrightarrow> err \<noteq> status_ok \<and> k \<le> n"
  "within n (throw_error err m) \<longleftrightarrow> err \<noteq> status_ok \<and> Suc (length m) \<le> n" "within n (throw_behind err) \<longleftrightarrow> err \<noteq> status_ok"
  by (auto simp: within_def throw_error_def throw_behind_def)

lemma within_mono: "within n r \<Longrightarrow> n \<le> m \<Longrightarrow> within m r"
  by (fastforce simp: within_def)

lemma within_if: "(P \<Longrightarrow> within n a) \<Longrightarrow> (\<not> P \<Longrightarrow> within n b) \<Longrightarrow> within n (if P then a else b)"
  by simp

lemma within_then: "within n r \<Longrightarrow> (\<And>x. r = Inr x \<Longrightarrow> within n (f x)) \<Longrightarrow> within n (case r of Inl e \<Rightarrow> Inl e | Inr x \<Rightarrow> f x)"
  by (cases r) auto

lemma within_shorter: "within (Suc (length t)) r \<Longrightarrow> length t \<le> length s \<Longrightarrow> within (Suc (length s)) r"
  by (erule within_mono) simp

lemmas within_drop = within_shorter [OF _ eq_refl [OF length_drop, THEN le_trans, OF diff_le_self]]

lemma within_primitive: "within (Suc (length s)) (parse_doctype_primitive s)"
  by (simp add: parse_doctype_primitive_def split: prod.split list.split)

lemma within_ignore_loop: "within (Suc (length s)) (ignore_loop depth s)"
proof (induction depth s rule: ignore_loop.induct)
  case (1 depth s)
  show ?case
    by (subst ignore_loop.simps; intro within_if) ((rule within_drop, rule 1; assumption) | simp)+
qed

lemma within_ignore: "within (Suc (length s)) (parse_doctype_ignore s)"
  unfolding parse_doctype_ignore_def by (rule within_drop) (rule within_ignore_loop)

lemma within_group_loop: "within (Suc (length s)) (group_loop endch depth s)"
proof (induction endch depth s rule: group_loop.induct)
  case (1 endch depth s)
  have i: "within (Suc (length s)) (group_loop endch depth r)"
    if "s \<noteq> []" "starts ''<!'' s \<and> \<not> starts ''<!-'' s" "starts ''<!['' s" "parse_doctype_ignore s = Inr r" for r
    using 1(1) [OF that] ignore_shorter [OF that(4,1)] by (auto intro: within_shorter)
  have p: "within (Suc (length s)) (group_loop endch depth r)"
    if "s \<noteq> []" "\<not> (starts ''<!'' s \<and> \<not> starts ''<!-'' s)" "hd s \<in> {CHR ''<'', CHR 0x22, CHR 0x27}" "parse_doctype_primitive s = Inr r" for r
    using 1(3) [OF that] primitive_shorter [OF that(4)] by (auto intro: within_shorter)
  show ?case
    by (subst group_loop.simps; intro within_if within_then within_ignore within_primitive)
      ((rule i; assumption) | (rule p; assumption) | (rule within_drop, rule 1; assumption) | simp)+
qed

lemma within_attribute: "within (length s) (parse_attribute optmsk s)"
proof -
  obtain name t where t: "scan_name s = (name, t)" by fastforce
  have st: "length t \<le> length s" using scan_name_length [of s] by (simp add: t)
  show ?thesis
  proof (cases "after_name t")
    case None
    then show ?thesis by (simp add: parse_attribute_def t)
  next
    case (Some p)
    obtain ch u where p: "p = (ch, u)" by fastforce
    have u: "length u < length s" using after_name_length [of t ch u] Some st by (simp add: p)
    show ?thesis
    proof (cases "skip_ws u")
      case Nil
      then show ?thesis using u by (auto simp: parse_attribute_def t Some p intro!: within_if)
    next
      case (Cons q v)
      have v: "length v < length s" using skip_ws_length [of u] u by (simp add: Cons)
      have "within (length s) (case strconv_attribute optmsk q v of None \<Rightarrow> throw_error status_bad_attribute v
          | Some (x, rest) \<Rightarrow> if at_class ct_start_symbol rest then throw_error status_bad_attribute rest
              else Inr (Attr (Some name) (Some (c_string x)), rest))"
        using v fits_length [OF fits_attribute [of v optmsk q]] by (fastforce split: option.split)
      then show ?thesis
        using u v skip_ws_length [of u] by (auto simp: parse_attribute_def t Some p Cons intro!: within_if)
    qed
  qed
qed

lemma within_attributes: "within (Suc (length s0)) (parse_attributes optmsk endch cur s0)"
proof (induction optmsk endch cur s0 rule: parse_attributes.induct)
  case (1 optmsk endch cur s0)
  let ?s = "skip_ws s0"
  have s: "length ?s \<le> length s0" by (rule skip_ws_length)
  show ?case
  proof (cases "at_class ct_start_symbol ?s")
    case True
    have r: "within (Suc (length s0)) (case parse_attribute optmsk ?s of Inl e \<Rightarrow> Inl e
        | Inr p \<Rightarrow> (case p of (a, rest) \<Rightarrow> parse_attributes optmsk endch (apfst (\<lambda>n. append_attribute n a) cur) rest))"
    proof (rule within_then)
      show "within (Suc (length s0)) (parse_attribute optmsk ?s)" using s by (intro within_mono [OF within_attribute]) simp
      fix p assume p: "parse_attribute optmsk ?s = Inr p"
      then show "within (Suc (length s0)) (case p of (a, rest) \<Rightarrow> parse_attributes optmsk endch (apfst (\<lambda>n. append_attribute n a) cur) rest)"
        using 1 [OF refl True p] s attribute_shorter [of optmsk ?s "fst p" "snd p"] by (auto split: prod.split intro: within_shorter)
    qed
    with True show ?thesis by (subst parse_attributes.simps) (simp add: Let_def)
  next
    case False
    with s show ?thesis by (subst parse_attributes.simps) (auto simp: Let_def)
  qed
qed

lemma within_exclamation: "within (Suc (Suc (length s))) (parse_exclamation optmsk endch cur s)"
proof -
  have c: "within (Suc (length t)) (parse_comment optmsk endch cur t)" "within (Suc (length t)) (parse_cdata_section optmsk endch cur t)" for t
    by (auto simp: parse_comment_def parse_cdata_section_def split: option.split prod.split list.split)
  have d: "within (Suc (Suc (Suc (length t)))) (parse_doctype_node optmsk endch cur (CHR ''<'' # CHR ''!'' # t))" for t
    using within_mono [OF within_group_loop [of t endch 0]]
    by (auto simp: parse_doctype_node_def parse_doctype_group_def Let_def intro!: within_if within_then)
  define t where "t = drop 1 s"
  have s: "length t \<le> length s" by (simp add: t_def)
  have w: "length u \<le> length t" if "scan_word ''CDATA['' (drop 1 t) = (b, u)" for b u
    using scan_word_rest [OF that] by (metis diff_le_self le_add2 le_trans length_append length_drop)
  have "length t < length s" if "starts ''DOCTYP'' t" using that by (cases s) (auto simp: t_def)
  then have doc: "within (Suc (Suc (length s))) (parse_doctype_node optmsk endch cur (CHR ''<'' # CHR ''!'' # t))"
    if "starts ''DOCTYP'' t" using that within_mono [OF d [of t]] by simp
  have cd: "within (Suc (Suc (length s))) (case scan_word ''CDATA['' (drop 1 t) of
      (True, rest) \<Rightarrow> parse_cdata_section optmsk endch cur rest | (False, rest) \<Rightarrow> throw_error status_bad_cdata rest)"
  proof (cases "scan_word ''CDATA['' (drop 1 t)")
    case (Pair b u)
    with w [of b u] s within_mono [OF c(2) [of u]] show ?thesis by (cases b) simp_all
  qed
  have co: "within (Suc (Suc (length s))) (parse_comment optmsk endch cur (drop 2 t))"
    using s within_mono [OF c(1) [of "drop 2 t"]] by simp
  show ?thesis
    unfolding parse_exclamation_def Let_def t_def [symmetric]
    by (intro within_if cd co) (use doc s in auto)
qed

lemma within_pi_content: "within (Suc (length s)) (pi_content endch declaration cur s)"
  by (simp add: pi_content_def split: prod.split list.split)

lemma within_question: "within (Suc (length s)) (parse_question optmsk endch cur s)"
proof -
  obtain name t where t: "scan_name (drop 1 s) = (name, t)" by fastforce
  have s: "length t \<le> length s" using scan_name_length [of "drop 1 s", unfolded t snd_conv] by simp
  show ?thesis
    unfolding parse_question_def Let_def t prod.case
    by (intro within_if within_shorter [OF within_pi_content s])
      (use s in \<open>auto split: prod.split list.split\<close>)
qed

lemma within_closing: "within (Suc (length s)) (parse_closing endch cur s)"
  by (auto simp: parse_closing_def Let_def split: option.split dest!: match_name_length intro: skip_ws_le)

lemma within_element: "within (Suc (length s)) (parse_element optmsk endch cur s)"
proof -
  obtain name t where t: "scan_name s = (name, t)" by fastforce
  have s: "length t \<le> length s" using scan_name_length [of s, unfolded t snd_conv] .
  show ?thesis
  proof (cases t)
    case Nil
    then show ?thesis using s by (simp add: parse_element_def t)
  next
    case (Cons ch u)
    then have u: "length u \<le> length s" using s by simp
    show ?thesis
      using within_shorter [OF within_attributes u] u s Cons
      by (auto simp: parse_element_def t Let_def intro!: within_if)
  qed
qed

lemma within_tag: "within (Suc (Suc (length s))) (parse_tag optmsk endch cur s)"
proof -
  have "within (Suc (Suc (length s))) (case parse_question optmsk endch cur s of Inl e \<Rightarrow> Inl e
      | Inr p \<Rightarrow> (case p of (c, t) \<Rightarrow> if node_type (fst c) = node_declaration then parse_attributes optmsk endch c t else Inr (c, t)))"
  proof (rule within_then)
    show "within (Suc (Suc (length s))) (parse_question optmsk endch cur s)" using within_mono [OF within_question] by simp
    fix p assume "parse_question optmsk endch cur s = Inr p"
    with question_length [of optmsk endch cur s "fst p" "snd p"]
    show "within (Suc (Suc (length s))) (case p of (c, t) \<Rightarrow>
        if node_type (fst c) = node_declaration then parse_attributes optmsk endch c t else Inr (c, t))"
      by (auto split: prod.split intro!: within_if within_mono [OF within_attributes])
  qed
  moreover have "within (Suc (Suc (length s))) (parse_element optmsk endch cur s)" using within_mono [OF within_element] by simp
  moreover have "within (Suc (Suc (length s))) (parse_closing endch cur (drop 1 s))"
    using within_mono [OF within_closing [of "drop 1 s"]] by simp
  ultimately show ?thesis using within_exclamation [of s] by (auto simp: parse_tag_def intro!: within_if)
qed

lemma within_tree: "within (Suc (length s)) (parse_tree optmsk endch cur s)"
proof (induction optmsk endch cur s rule: parse_tree.induct)
  case (1 optmsk endch cur s)
  show ?case
  proof (cases "s = []")
    case True
    then show ?thesis by (subst parse_tree.simps) simp
  next
    case False
    obtain c tag where t: "(if hd s = CHR ''<'' then (cur, Some (tl s)) else parse_text optmsk cur s) = (c, tag)" by fastforce
    show ?thesis
    proof (cases tag)
      case None
      then show ?thesis using False t by (subst parse_tree.simps) auto
    next
      case (Some r)
      have r: "length r < length s" using t False text_shorter [OF False, of optmsk cur c r] Some by (auto split: if_splits)
      have "within (Suc (length s)) (case parse_tag optmsk endch c r of Inl e \<Rightarrow> Inl e
          | Inr p \<Rightarrow> (case p of (c, s) \<Rightarrow> parse_tree optmsk endch c s))"
      proof (rule within_then)
        show "within (Suc (length s)) (parse_tag optmsk endch c r)" using r within_mono [OF within_tag] by simp
        fix p assume p: "parse_tag optmsk endch c r = Inr p"
        have "length (snd p) \<le> length r" using tag_length [of optmsk endch c r "fst p" "snd p"] p by simp
        with 1 [OF False t [symmetric] Some p, of "fst p" "snd p"] r
        show "within (Suc (length s)) (case p of (c, s) \<Rightarrow> parse_tree optmsk endch c s)"
          by (auto split: prod.split intro: within_shorter)
      qed
      then show ?thesis using False t Some by (subst parse_tree.simps) simp
    qed
  qed
qed

section \<open>Shape of the tree\<close>

text \<open>
  What a parsed tree looks like: elements and declarations have a name and complete attributes, the other nodes
  have no attributes and no children, and the kinds of nodes are those that the options ask for.
\<close>

definition valid_name :: "string \<Rightarrow> bool" where
  "valid_name s \<longleftrightarrow> s \<noteq> [] \<and> is_chartype ct_start_symbol (hd s) \<and> list_all (is_chartype ct_symbol) s"

definition named :: "string option \<Rightarrow> bool" where
  "named n \<longleftrightarrow> (\<exists>name. n = Some name \<and> valid_name name)"

definition attribute_ok :: "xml_attribute \<Rightarrow> bool" where
  "attribute_ok a \<longleftrightarrow> named (attr_name a) \<and> attr_value a \<noteq> None"

definition shape_ok :: "u32 \<Rightarrow> xml_node_type \<Rightarrow> string option \<Rightarrow> string option \<Rightarrow> xml_attribute list \<Rightarrow> bool \<Rightarrow> bool" where
  "shape_ok optmsk t n v as leaf \<longleftrightarrow>
     (case t of
        node_null \<Rightarrow> False
      | node_document \<Rightarrow> n = None \<and> v = None \<and> as = []
      | node_element \<Rightarrow> named n \<and> list_all attribute_ok as \<and> (v \<noteq> None \<longrightarrow> optset optmsk parse_embed_pcdata)
      | node_declaration \<Rightarrow> named n \<and> list_all attribute_ok as \<and> optset optmsk parse_declaration
      | node_pi \<Rightarrow> named n \<and> as = [] \<and> leaf \<and> optset optmsk parse_pi
      | node_pcdata \<Rightarrow> n = None \<and> v \<noteq> None \<and> as = [] \<and> leaf
      | node_cdata \<Rightarrow> n = None \<and> v \<noteq> None \<and> as = [] \<and> leaf \<and> optset optmsk parse_cdata
      | node_comment \<Rightarrow> n = None \<and> v \<noteq> None \<and> as = [] \<and> leaf \<and> optset optmsk parse_comments
      | node_doctype \<Rightarrow> n = None \<and> v \<noteq> None \<and> as = [] \<and> leaf \<and> optset optmsk parse_doctype)"

fun tree_ok :: "u32 \<Rightarrow> xml_node \<Rightarrow> bool" where
  "tree_ok optmsk (Node t n v as cs) \<longleftrightarrow>
     shape_ok optmsk t n v as (cs = []) \<and> (\<forall>c \<in> set cs. tree_ok optmsk c \<and> node_type c \<noteq> node_document)"

definition inner :: "xml_node \<Rightarrow> bool" where
  "inner n \<longleftrightarrow> node_type n = node_element \<or> node_type n = node_declaration"

fun chain_ok :: "u32 \<Rightarrow> xml_node list \<Rightarrow> bool" where
  "chain_ok optmsk [] \<longleftrightarrow> False"
| "chain_ok optmsk [n] \<longleftrightarrow> tree_ok optmsk n \<and> node_type n = node_document"
| "chain_ok optmsk (n # ns) \<longleftrightarrow> tree_ok optmsk n \<and> inner n \<and> chain_ok optmsk ns"

definition cursor_ok :: "u32 \<Rightarrow> cursor \<Rightarrow> bool" where
  "cursor_ok optmsk cur \<longleftrightarrow> chain_ok optmsk (fst cur # snd cur)"

lemma cursor_cases:
  assumes "cursor_ok optmsk cur"
  obtains n where "cur = (n, [])" "tree_ok optmsk n" "node_type n = node_document"
    | n p ps where "cur = (n, p # ps)" "tree_ok optmsk n" "inner n" "cursor_ok optmsk (p, ps)"
  using assms by (cases cur; cases "snd cur") (auto simp: cursor_ok_def)

lemma cursor_top: "cursor_ok optmsk cur \<Longrightarrow> tree_ok optmsk (fst cur) \<and> (inner (fst cur) \<or> node_type (fst cur) = node_document)"
  by (erule cursor_cases) auto

lemma cursor_replace:
  assumes "cursor_ok optmsk cur" "tree_ok optmsk n" "node_type n = node_type (fst cur)"
  shows "cursor_ok optmsk (n, snd cur)"
  using assms by (cases "snd cur") (auto simp: cursor_ok_def inner_def)

lemma append_child_ok:
  assumes "tree_ok optmsk n" "inner n \<or> node_type n = node_document" "tree_ok optmsk c" "node_type c \<noteq> node_document"
  shows "tree_ok optmsk (append_child n c)" "node_type (append_child n c) = node_type n"
  using assms by (cases n; auto simp: inner_def shape_ok_def)+

lemma add_node_ok:
  "cursor_ok optmsk cur \<Longrightarrow> tree_ok optmsk c \<Longrightarrow> node_type c \<noteq> node_document \<Longrightarrow> cursor_ok optmsk (add_node c cur)"
  using cursor_replace [of optmsk cur "append_child (fst cur) c"] append_child_ok [of optmsk "fst cur" c] cursor_top [of optmsk cur]
  by (cases cur) (simp add: add_node_def)

lemma push_node_ok: "cursor_ok optmsk cur \<Longrightarrow> tree_ok optmsk n \<Longrightarrow> inner n \<Longrightarrow> cursor_ok optmsk (push_node n cur)"
  by (simp add: cursor_ok_def push_node_def)

lemma pop_is_add: "pop_node (n, p # ps) = add_node n (p, ps)"
  by (simp add: add_node_def)

lemma pop_node_ok: "cursor_ok optmsk cur \<Longrightarrow> cursor_ok optmsk (pop_node cur)"
  by (erule cursor_cases) (auto simp: pop_is_add inner_def simp del: pop_node.simps(1) intro!: add_node_ok, simp add: cursor_ok_def)

lemma append_attribute_ok:
  assumes "cursor_ok optmsk cur" "attribute_ok a" "inner (fst cur)"
  shows "cursor_ok optmsk (apfst (\<lambda>n. append_attribute n a) cur)" "inner (fst (apfst (\<lambda>n. append_attribute n a) cur))"
proof -
  obtain t n v as cs ps where cur: "cur = (Node t n v as cs, ps)" by (metis prod.exhaust_sel xml_node.exhaust_sel)
  have "tree_ok optmsk (append_attribute (fst cur) a)" "node_type (append_attribute (fst cur) a) = node_type (fst cur)"
    using assms cursor_top [OF assms(1)] by (auto simp: cur inner_def shape_ok_def)
  from cursor_replace [OF assms(1) this] this(2) assms(3)
  show "cursor_ok optmsk (apfst (\<lambda>n. append_attribute n a) cur)" "inner (fst (apfst (\<lambda>n. append_attribute n a) cur))"
    by (simp_all add: cur inner_def)
qed

lemma scan_name_valid: "at_class ct_start_symbol s \<Longrightarrow> valid_name (fst (scan_name s))"
  by (cases s) (auto simp: at_class_def scan_name_def valid_name_def list_all_iff dest: symbol_classes(1) set_takeWhileD)

lemma attribute_parsed: "parse_attribute optmsk s = Inr (a, rest) \<Longrightarrow> at_class ct_start_symbol s \<Longrightarrow> attribute_ok a"
  using scan_name_valid [of s]
  by (auto simp: parse_attribute_def throw_error_def throw_behind_def attribute_ok_def named_def
      split: prod.splits option.splits list.splits if_splits)

lemma attributes_ok:
  "parse_attributes optmsk endch cur s0 = Inr (cur', rest) \<Longrightarrow> cursor_ok optmsk cur \<Longrightarrow> inner (fst cur) \<Longrightarrow> cursor_ok optmsk cur'"
proof (induction optmsk endch cur s0 rule: parse_attributes.induct)
  case (1 optmsk endch cur s0)
  let ?s = "skip_ws s0"
  show ?case
  proof (cases "at_class ct_start_symbol ?s")
    case True
    obtain a t where t: "parse_attribute optmsk ?s = Inr (a, t)"
      using 1(2) True by (cases "parse_attribute optmsk ?s") (auto simp: parse_attributes.simps [of _ _ _ s0] Let_def)
    have "parse_attributes optmsk endch (apfst (\<lambda>n. append_attribute n a) cur) t = Inr (cur', rest)"
      using 1(2) True t by (simp add: parse_attributes.simps [of _ _ _ s0] Let_def)
    from 1(1) [OF refl True t refl this] show ?thesis
      using append_attribute_ok [OF 1(3) attribute_parsed [OF t True] 1(4)] by blast
  next
    case False
    then show ?thesis
      using 1(2,3) pop_node_ok [OF 1(3)]
      by (subst (asm) parse_attributes.simps) (auto simp: Let_def throw_error_def split: if_splits)
  qed
qed

lemma leaf_ok:
  "optset optmsk parse_comments \<Longrightarrow> tree_ok optmsk (set_node_value v (new_node node_comment))"
  "optset optmsk parse_cdata \<Longrightarrow> tree_ok optmsk (set_node_value v (new_node node_cdata))"
  "optset optmsk parse_doctype \<Longrightarrow> tree_ok optmsk (set_node_value v (new_node node_doctype))"
  "tree_ok optmsk (set_node_value v (new_node node_pcdata))"
  "node_type (set_node_value v n) = node_type n" "node_type (new_node t) = t" "node_type (set_node_name v n) = node_type n"
  by (simp_all add: new_node_def shape_ok_def) (cases n; simp)+

lemma exclamation_ok:
  "parse_exclamation optmsk endch cur s = Inr (cur', rest) \<Longrightarrow> cursor_ok optmsk cur \<Longrightarrow> cursor_ok optmsk cur'"
  by (auto simp: parse_exclamation_def parse_comment_def parse_cdata_section_def parse_doctype_node_def Let_def throw_error_def leaf_ok
      split: if_splits option.splits prod.splits list.splits sum.splits bool.splits intro!: add_node_ok)

text \<open>A processing instruction is on the cursor only until its text ends.\<close>

lemma pi_node_ok: "optset optmsk parse_pi \<Longrightarrow> valid_name name \<Longrightarrow> tree_ok optmsk (Node node_pi (Some name) v [] [])"
  by (simp add: shape_ok_def named_def)

lemma pi_content_ok:
  assumes "pi_content endch dcl (push_node n cur) s = Inr (cur', rest)" "cursor_ok optmsk cur"
    and "if dcl then tree_ok optmsk n \<and> inner n else \<exists>name. n = Node node_pi (Some name) None [] [] \<and> valid_name name \<and> optset optmsk parse_pi"
  shows "cursor_ok optmsk cur'"
proof -
  have a: "cur' = pop_node (push_node n cur) \<or> dcl \<and> cur' = push_node n cur \<or>
      \<not> dcl \<and> (\<exists>v. cur' = pop_node (apfst (set_node_value v) (push_node n cur)))"
    using assms(1) by (auto simp: pi_content_def throw_error_def split: if_splits prod.splits list.splits)
  show ?thesis
  proof (cases dcl)
    case True
    then have "cursor_ok optmsk (push_node n cur)" using assms(2,3) push_node_ok by simp
    with a True show ?thesis using pop_node_ok [of optmsk "push_node n cur"] by auto
  next
    case False
    then obtain name where n: "n = Node node_pi (Some name) None [] []" "valid_name name" "optset optmsk parse_pi" using assms(3) by auto
    have "\<exists>v. cur' = add_node (Node node_pi (Some name) v [] []) cur"
      using a False by (cases cur) (auto simp: n(1) push_node_def add_node_def)
    then show ?thesis using add_node_ok [OF assms(2) pi_node_ok [OF n(3,2)]] by auto
  qed
qed

lemma question_ok:
  assumes "parse_question optmsk endch cur s = Inr (cur', rest)" "cursor_ok optmsk cur"
  shows "cursor_ok optmsk cur'"
proof -
  obtain name t where t: "scan_name (drop 1 s) = (name, t)" by fastforce
  define dcl where "dcl \<longleftrightarrow> map or_space name = ''xml''"
  define n where "n = set_node_name name (new_node (if dcl then node_declaration else node_pi))"
  note a = assms(1) [unfolded parse_question_def Let_def t prod.case, folded dcl_def, folded n_def]
  have v: "valid_name name"
    using scan_name_valid [of "drop 1 s", unfolded t fst_conv] a by (auto simp: throw_error_def split: if_splits)
  show ?thesis
  proof (cases "if dcl then optset optmsk parse_declaration else optset optmsk parse_pi")
    case True
    then have "pi_content endch dcl (push_node n cur) t = Inr (cur', rest)"
      using a by (auto simp: throw_error_def split: if_splits)
    then show ?thesis using True v
      by (intro pi_content_ok [OF _ assms(2)])
        (auto simp: n_def new_node_def shape_ok_def named_def inner_def)
  next
    case False
    then have "cur' = cur" using a by (auto simp: throw_error_def split: if_splits prod.splits list.splits)
    then show ?thesis using assms(2) by simp
  qed
qed

lemma closing_ok: "parse_closing endch cur s = Inr (cur', rest) \<Longrightarrow> cursor_ok optmsk cur \<Longrightarrow> cursor_ok optmsk cur'"
  by (auto simp: parse_closing_def throw_error_def Let_def split: option.splits if_splits intro: pop_node_ok)

lemma element_ok:
  assumes "parse_element optmsk endch cur s = Inr (cur', rest)" "cursor_ok optmsk cur" "at_class ct_start_symbol s"
  shows "cursor_ok optmsk cur'"
proof -
  obtain name t where t: "scan_name s = (name, t)" by fastforce
  define c where "c = push_node (set_node_name name (new_node node_element)) cur"
  have "tree_ok optmsk (set_node_name name (new_node node_element))"
    using scan_name_valid [OF assms(3)] by (simp add: t new_node_def shape_ok_def named_def)
  from push_node_ok [OF assms(2) this] have c: "cursor_ok optmsk c" "inner (fst c)"
    by (simp_all add: c_def inner_def leaf_ok push_node_def)
  note a = assms(1) [unfolded parse_element_def Let_def t prod.case, folded c_def]
  show ?thesis
    using a c attributes_ok [OF _ c] pop_node_ok [OF c(1)] by (auto simp: throw_error_def split: list.splits if_splits)
qed

lemma tag_ok:
  assumes "parse_tag optmsk endch cur s = Inr (cur', rest)" "cursor_ok optmsk cur"
  shows "cursor_ok optmsk cur'"
proof -
  have q: "cursor_ok optmsk cur'"
    if "parse_question optmsk endch cur s = Inr (c, t)"
      "(if node_type (fst c) = node_declaration then parse_attributes optmsk endch c t else Inr (c, t)) = Inr (cur', rest)" for c t
    using that question_ok [OF that(1) assms(2)] attributes_ok [of optmsk endch c t cur' rest]
    by (auto simp: inner_def split: if_splits)
  show ?thesis
    using assms(1) element_ok [OF _ assms(2)] closing_ok [OF _ assms(2)] exclamation_ok [OF _ assms(2)] q
    by (auto simp: parse_tag_def throw_error_def split: if_splits sum.splits)
qed

lemma last_child_ok:
  assumes "tree_ok optmsk (Node t n v as cs)" "cs \<noteq> []" "node_type (last cs) = node_pcdata"
  shows "tree_ok optmsk (Node t n v as (butlast cs @ [set_node_value w (last cs)]))"
proof -
  have "last cs \<in> set cs" using assms(2) by simp
  then have "tree_ok optmsk (last cs)" using assms(1) by simp
  then have "tree_ok optmsk (set_node_value w (last cs))"
    using assms(3) by (cases "last cs") (auto simp: shape_ok_def)
  then show ?thesis using assms by (auto simp: leaf_ok dest: in_set_butlastD)
qed

lemma store_pcdata_ok:
  assumes "cursor_ok optmsk cur"
  shows "cursor_ok optmsk (store_pcdata optmsk cur v)"
proof -
  obtain t n x as cs ps where cur: "cur = (Node t n x as cs, ps)" by (metis prod.exhaust_sel xml_node.exhaust_sel)
  have top: "tree_ok optmsk (Node t n x as cs)" using cursor_top [OF assms] by (simp add: cur)
  have "cursor_ok optmsk (add_node (set_node_value v (new_node node_pcdata)) cur)"
    by (rule add_node_ok [OF assms]) (simp_all add: leaf_ok)
  moreover have "cursor_ok optmsk (apfst (set_node_value v) cur)" if "optset optmsk parse_embed_pcdata" "ps \<noteq> []"
  proof -
    have "inner (Node t n x as cs)" using assms that(2) by (auto simp: cur elim: cursor_cases)
    then have "tree_ok optmsk (set_node_value v (Node t n x as cs))" using top that(1) by (auto simp: shape_ok_def inner_def)
    from cursor_replace [OF assms this] show ?thesis by (simp add: cur)
  qed
  moreover have "cursor_ok optmsk (Node t n x as (butlast cs @ [set_node_value w (last cs)]), ps)"
    if "cs \<noteq> []" "node_type (last cs) = node_pcdata" for w
    using cursor_replace [OF assms last_child_ok [OF top that]] by (simp add: cur)
  ultimately show ?thesis by (auto simp: store_pcdata_def Let_def cur)
qed

lemma text_ok: "parse_text optmsk cur s = (cur', tag) \<Longrightarrow> cursor_ok optmsk cur \<Longrightarrow> cursor_ok optmsk cur'"
  by (auto simp: parse_text_def Let_def store_pcdata_ok split: if_splits prod.splits)

lemma parsed_tree_ok: "parse_tree optmsk endch cur s = Inr cur' \<Longrightarrow> cursor_ok optmsk cur \<Longrightarrow> cursor_ok optmsk cur' \<and> snd cur' = []"
proof (induction optmsk endch cur s rule: parse_tree.induct)
  case (1 optmsk endch cur s)
  show ?case
  proof (cases "s = []")
    case True
    then show ?thesis using 1(2,3) by (subst (asm) parse_tree.simps) (auto simp: throw_error_def split: if_splits)
  next
    case False
    obtain c tag where t: "(if hd s = CHR ''<'' then (cur, Some (tl s)) else parse_text optmsk cur s) = (c, tag)" by fastforce
    have c: "cursor_ok optmsk c" using t text_ok [of optmsk cur s c tag] 1(3) by (auto split: if_splits)
    show ?thesis
    proof (cases tag)
      case None
      then show ?thesis using False t 1(2) c by (subst (asm) parse_tree.simps) (auto simp: throw_error_def split: if_splits)
    next
      case (Some r)
      obtain c2 s2 where p: "parse_tag optmsk endch c r = Inr (c2, s2)" "parse_tree optmsk endch c2 s2 = Inr cur'"
        using False t Some 1(2) by (subst (asm) parse_tree.simps) (auto split: sum.splits)
      show ?thesis using 1(1) [OF False t [symmetric] Some p(1) refl p(2) tag_ok [OF p(1) c]] .
    qed
  qed
qed

text \<open>
C39: Parsing a buffer ends for every content and every choice of options.  The offset lies in the buffer.  When the
  status is the one of success the document is there, with a well-formed tree of the kinds of nodes asked for,
  closed, and unless fragments are allowed it has an element; a tree that is not there has an error as status.
\<close>

theorem parse_result_spec:
  "case parse_buffer buffer optmsk of ((status, offset), document) \<Rightarrow>
     offset \<le> length buffer \<and>
     (case document of
        None \<Rightarrow> status \<noteq> status_ok
      | Some root \<Rightarrow>
          tree_ok optmsk root \<and> node_type root = node_document \<and>
          (status = status_ok \<longrightarrow> optset optmsk parse_fragment \<or> has_element (node_children root)))"
proof (cases "buffer = []")
  case True
  then show ?thesis by (simp add: parse_buffer_def new_node_def shape_ok_def)
next
  case False
  define content where "content = c_string (butlast buffer)"
  have l: "Suc (length content) \<le> length buffer"
  proof -
    have "length content \<le> length buffer - 1" using length_takeWhile_le [of _ "butlast buffer"] by (simp add: content_def c_string_def)
    moreover have "0 < length buffer" using False by simp
    ultimately show ?thesis by linarith
  qed
  have new: "cursor_ok optmsk (new_node node_document, [])" by (simp add: cursor_ok_def new_node_def shape_ok_def)
  have "length (parse_skip_bom content) \<le> length content" by (simp add: parse_skip_bom_def)
  show ?thesis
  proof (cases "parse_tree optmsk (last buffer) (new_node node_document, []) (parse_skip_bom content)")
    case (Inl e)
    have "fst e \<noteq> status_ok"
      using within_tree [of "parse_skip_bom content" optmsk "last buffer" "(new_node node_document, [])"]
      by (cases e) (simp add: Inl)
    then show ?thesis using l False by (cases e) (auto simp: parse_buffer_def Inl Let_def content_def [symmetric])
  next
    case (Inr cur)
    from parsed_tree_ok [OF this new] obtain root where "cur = (root, [])" "tree_ok optmsk root" "node_type root = node_document"
      by (cases cur) (auto simp: cursor_ok_def)
    then show ?thesis using False by (auto simp: parse_buffer_def Inr Let_def content_def [symmetric])
  qed
qed

theorem parse_result_spec_witness:
  "\<exists>root. parse_buffer (''<a b=\"1\">x</a>'' @ [CHR 0x00]) parse_default = ((status_ok, 0), Some root) \<and> tree_ok parse_default root"
proof -
  have "parse_buffer (''<a b=\"1\">x</a>'' @ [CHR 0x00]) parse_default =
    ((status_ok, 0), Some (Node node_document None None []
      [Node node_element (Some ''a'') None [Attr (Some ''b'') (Some ''1'')] [Node node_pcdata None (Some ''x'') [] []]]))"
    by code_simp
  with parse_result_spec [of "''<a b=\"1\">x</a>'' @ [CHR 0x00]" parse_default] show ?thesis by simp
qed

text \<open>A conversion with room for its zero: what it leaves is shorter than the part \<open>used\<close> that it has read.\<close>

lemma in_place:
  assumes "fits (length s) r" "leaves s r" "r = Some (v, rest)"
  shows "\<exists>used. s = used @ rest \<and> length v < length used"
  using assms by (auto simp: fits_def leaves_def suffix_def)

text \<open>
C40: Conversion in place: what is still to be read after a conversion is an end of the text that was given to it,
  and what the conversion leaves in the buffer ends, with the zero behind it, inside the part \<open>used\<close> before that
  end.  For attribute values, comments and CDATA sections this holds whatever the options are; for character data it
  holds whenever there is text left to read, and when there is none the value fits in what was read and its zero
  comes no later than the one that ends the buffer.
\<close>

theorem conversion_in_place:
  "(strconv_attribute optmsk quote s = Some (v, rest) \<longrightarrow> (\<exists>used. s = used @ rest \<and> length v < length used)) \<and>
   (strconv_comment endch s = Some (v, rest) \<longrightarrow> (\<exists>used. s = used @ rest \<and> length v < length used)) \<and>
   (strconv_cdata endch s = Some (v, rest) \<longrightarrow> (\<exists>used. s = used @ rest \<and> length v < length used)) \<and>
   (strconv_pcdata optmsk s = (v, rest) \<longrightarrow>
     (\<exists>used. s = used @ rest \<and> (if rest = [] then length v \<le> length used else length v < length used)))"
proof -
  obtain trim eol e where p: "strconv_pcdata optmsk = strconv_pcdata_impl trim eol e" using strconv_pcdata_cases by blast
  have "\<exists>used. s = used @ rest \<and> (if rest = [] then length v \<le> length used else length v < length used)"
    if r: "strconv_pcdata optmsk s = (v, rest)"
  proof -
    obtain used where "s = used @ rest" using leaves_pcdata [of trim eol e s] r p by (auto simp: suffix_def)
    then show ?thesis
      using fits_pcdata [of s trim eol e] pcdata_gap [of trim eol e s v rest] r p by (auto simp: fits_def)
  qed
  then show ?thesis
    using in_place [OF fits_attribute leaves_attribute] in_place [OF fits_comment(1) leaves_comment(1)]
      in_place [OF fits_comment(2) leaves_comment(2)] by blast
qed

theorem conversion_in_place_witness:
  "strconv_attribute parse_default (CHR 0x22) (''a&lt;&#x20AC;\"/>'') =
     Some (''a<'' @ [CHR 0xE2, CHR 0x82, CHR 0xAC], ''/>'') \<and>
   (\<exists>used. ''a&lt;&#x20AC;\"/>'' = used @ ''/>'' \<and> length (''a<'' @ [CHR 0xE2, CHR 0x82, CHR 0xAC]) < length used) \<and>
   strconv_comment (CHR 0x00) ''x -->y'' = Some (''x '', ''y'') \<and> (\<exists>used. ''x -->y'' = used @ ''y'' \<and> length ''x '' < length used) \<and>
   strconv_pcdata parse_default ''ab</c>'' = (''ab'', ''/c>'') \<and> (\<exists>used. ''ab</c>'' = used @ ''/c>'' \<and> length ''ab'' < length used)"
proof -
  have a: "strconv_attribute parse_default (CHR 0x22) (''a&lt;&#x20AC;\"/>'') =
     Some (''a<'' @ [CHR 0xE2, CHR 0x82, CHR 0xAC], ''/>'')" by code_simp
  have c: "strconv_comment (CHR 0x00) ''x -->y'' = Some (''x '', ''y'')" by code_simp
  have p: "strconv_pcdata parse_default ''ab</c>'' = (''ab'', ''/c>'')" by code_simp
  show ?thesis
    using conversion_in_place [of parse_default "CHR 0x22" "''a&lt;&#x20AC;\"/>''" _ _ "CHR 0x00"] a
      conversion_in_place [of parse_default "CHR 0x22" "''x -->y''" _ _ "CHR 0x00"] c
      conversion_in_place [of parse_default "CHR 0x22" "''ab</c>''" "''ab''" "''/c>''" "CHR 0x00"] p
    by (metis list.distinct(1))
qed

end
