(* ===== verification/Pugi_Values.thy ===== *)
theory Pugi_Values
  imports Pugi_Parser Std_Stream
begin

text \<open>
  Reading and writing of numbers and truth values as text (\<open>string_to_integer\<close>, \<open>integer_to_string\<close> and the functions
  that use them in \<open>pugixml.cpp\<close>).  The unsigned type that the templates are instantiated with is a word type.
  Shown: the result is the number of the text, whatever its length, brought into the range of the type; a number
  that is written is read back.
\<close>

section \<open>Reading integers\<close>

definition decimal_digit :: "char \<Rightarrow> nat option" where
  "decimal_digit c = (if char_between (CHR ''0'') (CHR ''9'') c then Some (of_char c - 48) else None)"

definition hexadecimal_digit :: "char \<Rightarrow> nat option" where
  "hexadecimal_digit c =
     (if char_between (CHR ''0'') (CHR ''9'') c then Some (of_char c - 48)
      else if char_between (CHR ''a'') (CHR ''f'') (or_space c) then Some (of_char (or_space c) - 87)
      else None)"

definition skip_zeros :: "string \<Rightarrow> string" where
  "skip_zeros s = dropWhile (\<lambda>c. c = CHR ''0'') s"

text \<open>The number of the digits at the front, in the arithmetic of the type, and how many they are.\<close>

fun digit_loop :: "(char \<Rightarrow> nat option) \<Rightarrow> 'w::len word \<Rightarrow> 'w word \<Rightarrow> string \<Rightarrow> 'w word \<times> nat" where
  "digit_loop digit base result [] = (result, 0)"
| "digit_loop digit base result (c # s) =
     (case digit c of
        None \<Rightarrow> (result, 0)
      | Some d \<Rightarrow> apsnd Suc (digit_loop digit base (result * base + of_nat d) s))"

definition size_of :: "'w::len word \<Rightarrow> nat" where
  "size_of w = LENGTH('w) div 8"

definition max_digits10 :: "'w::len word \<Rightarrow> nat" where
  "max_digits10 w = (if size_of w = 8 then 20 else if size_of w = 4 then 10 else 5)"

definition max_lead :: "'w::len word \<Rightarrow> char" where
  "max_lead w = (if size_of w = 8 then CHR ''1'' else if size_of w = 4 then CHR ''4'' else CHR ''6'')"

definition hexadecimal :: "string \<Rightarrow> 'w::len word \<times> bool" where
  "hexadecimal s = (case digit_loop hexadecimal_digit 16 0 (skip_zeros s) of
     (result, digits) \<Rightarrow> (result, 2 * size_of result < digits))"

definition decimal :: "string \<Rightarrow> 'w::len word \<times> bool" where
  "decimal s =
     (let start = skip_zeros s in
      case digit_loop decimal_digit 10 0 start of
        (result, digits) \<Rightarrow>
          (result, max_digits10 result \<le> digits \<and>
             \<not> (digits = max_digits10 result \<and>
                ((of_char (hd start) :: nat) < of_char (max_lead result) \<or>
                 hd start = max_lead result \<and> drop_bit (8 * size_of result - 1) result \<noteq> 0))))"

definition string_to_integer :: "string \<Rightarrow> 'w::len word \<Rightarrow> 'w word \<Rightarrow> 'w word" where
  "string_to_integer val minv maxv =
     (let s = skip_ws val;
          negative = starts ''-'' s;
          s = (if starts ''+'' s \<or> starts ''-'' s then drop 1 s else s);
          (result, overflow) =
            (if starts ''0'' s \<and> starts ''x'' (map or_space (drop 1 s)) then hexadecimal (drop 2 s) else decimal s) in
      if negative then (if overflow \<or> 0 - minv < result then minv else 0 - result)
      else (if overflow \<or> maxv < result then maxv else result))"

definition INT_MIN :: u32 where "INT_MIN = 0x80000000"
definition INT_MAX :: u32 where "INT_MAX = 0x7FFFFFFF"
definition UINT_MAX :: u32 where "UINT_MAX = 0xFFFFFFFF"
definition LLONG_MIN :: u64 where "LLONG_MIN = 0x8000000000000000"
definition LLONG_MAX :: u64 where "LLONG_MAX = 0x7FFFFFFFFFFFFFFF"
definition ULLONG_MAX :: u64 where "ULLONG_MAX = 0xFFFFFFFFFFFFFFFF"

definition get_value_int :: "string \<Rightarrow> int" where
  "get_value_int val = sint (string_to_integer val INT_MIN INT_MAX)"

definition get_value_uint :: "string \<Rightarrow> u32" where
  "get_value_uint val = string_to_integer val 0 UINT_MAX"

definition get_value_llong :: "string \<Rightarrow> int" where
  "get_value_llong val = sint (string_to_integer val LLONG_MIN LLONG_MAX)"

definition get_value_ullong :: "string \<Rightarrow> u64" where
  "get_value_ullong val = string_to_integer val 0 ULLONG_MAX"

definition get_value_bool :: "string \<Rightarrow> bool" where
  "get_value_bool val \<longleftrightarrow> val \<noteq> [] \<and> hd val \<in> {CHR ''1'', CHR ''t'', CHR ''T'', CHR ''y'', CHR ''Y''}"

section \<open>Writing integers\<close>

definition integer_to_string :: "'w::len word \<Rightarrow> bool \<Rightarrow> string" where
  "integer_to_string val negative =
     (let rest = (if negative then 0 - val else val) in (if negative then ''-'' else []) @ show_nat (unat rest))"

definition set_value_int :: "int \<Rightarrow> string" where
  "set_value_int rhs = integer_to_string (word_of_int rhs :: u32) (rhs < 0)"

definition set_value_uint :: "u32 \<Rightarrow> string" where
  "set_value_uint rhs = integer_to_string rhs False"

definition set_value_llong :: "int \<Rightarrow> string" where
  "set_value_llong rhs = integer_to_string (word_of_int rhs :: u64) (rhs < 0)"

definition set_value_ullong :: "u64 \<Rightarrow> string" where
  "set_value_ullong rhs = integer_to_string rhs False"

definition set_value_bool :: "bool \<Rightarrow> string" where
  "set_value_bool rhs = (if rhs then ''true'' else ''false'')"

section \<open>Numbers of unbounded size\<close>

fun digits_at :: "(char \<Rightarrow> nat option) \<Rightarrow> string \<Rightarrow> nat list" where
  "digits_at digit [] = []"
| "digits_at digit (c # s) = (case digit c of None \<Rightarrow> [] | Some d \<Rightarrow> d # digits_at digit s)"

definition number :: "nat \<Rightarrow> nat list \<Rightarrow> nat" where
  "number base ds = foldl (\<lambda>n d. n * base + d) 0 ds"

text \<open>The integer that a text stands for: white space, a sign, and hexadecimal or decimal digits.\<close>

definition text_integer :: "string \<Rightarrow> int" where
  "text_integer val =
     (let s = skip_ws val; t = (if starts ''+'' s \<or> starts ''-'' s then drop 1 s else s);
          n = (if starts ''0'' t \<and> starts ''x'' (map or_space (drop 1 t)) then number 16 (digits_at hexadecimal_digit (drop 2 t))
               else number 10 (digits_at decimal_digit t)) in
      if starts ''-'' s then - int n else int n)"

lemma number_Cons: "number base (d # ds) = d * base ^ length ds + number base ds"
proof -
  have "foldl (\<lambda>n d. n * base + d) m ds = m * base ^ length ds + foldl (\<lambda>n d. n * base + d) 0 ds" for m
  proof (induction ds arbitrary: m)
    case (Cons e ds)
    show ?case using Cons [of "m * base + e"] Cons [of e] by (simp add: algebra_simps)
  qed simp
  from this [of d] show ?thesis by (simp add: number_def)
qed

lemma number_Nil [simp]: "number base [] = 0"
  by (simp add: number_def)

lemma number_below: "\<forall>d \<in> set ds. d < base \<Longrightarrow> number base ds < base ^ length ds"
proof (induction ds)
  case (Cons d ds)
  then have "number base ds < base ^ length ds" "Suc d \<le> base" by auto
  then have "number base (d # ds) < Suc d * base ^ length ds" by (simp add: number_Cons)
  also have "\<dots> \<le> base * base ^ length ds" using \<open>Suc d \<le> base\<close> by (rule mult_le_mono1)
  finally show ?case by simp
qed simp

lemma digit_loop_number:
  "digit_loop digit (of_nat base) r s =
     (r * of_nat base ^ length (digits_at digit s) + of_nat (number base (digits_at digit s)), length (digits_at digit s))"
proof (induction s arbitrary: r)
  case (Cons c s)
  show ?case by (cases "digit c") (simp_all add: Cons number_Cons algebra_simps)
qed simp

definition digits_of :: "nat \<Rightarrow> (char \<Rightarrow> nat option) \<Rightarrow> bool" where
  "digits_of base digit \<longleftrightarrow> (\<forall>c d. digit c = Some d \<longrightarrow> d < base \<and> (d = 0 \<longleftrightarrow> c = CHR ''0'')) \<and> digit (CHR ''0'') = Some 0"

lemma char_zero: "(of_char c :: nat) = 48 \<longleftrightarrow> c = CHR ''0''"
proof
  assume "(of_char c :: nat) = 48"
  then have "char_of (of_char c :: nat) = (char_of (48 :: nat) :: char)" by simp
  moreover have "char_of (48 :: nat) = CHR ''0''" by code_simp
  ultimately show "c = CHR ''0''" by simp
qed simp

lemma decimal_digits: "digits_of 10 decimal_digit"
proof -
  have "decimal_digit c = Some d \<Longrightarrow> d < 10 \<and> of_char c = d + 48" for c d
    by (auto simp: decimal_digit_def char_between_def split: if_splits)
  moreover have "decimal_digit (CHR ''0'') = Some 0" by (simp add: decimal_digit_def char_between_def)
  ultimately show ?thesis unfolding digits_of_def by (metis char_zero add_0 add_cancel_left_left option.inject)
qed

lemma hexadecimal_digits: "digits_of 16 hexadecimal_digit"
proof -
  have "hexadecimal_digit c = Some d \<Longrightarrow> d < 16 \<and> (d = 0 \<longrightarrow> of_char c = (48 :: nat))" for c d
    by (auto simp: hexadecimal_digit_def char_between_def split: if_splits)
  moreover have "hexadecimal_digit (CHR ''0'') = Some 0" by (simp add: hexadecimal_digit_def char_between_def)
  ultimately show ?thesis unfolding digits_of_def by (metis char_zero option.inject)
qed

lemma digits_below: "digits_of base digit \<Longrightarrow> \<forall>d \<in> set (digits_at digit s). d < base"
proof (induction s)
  case (Cons c s)
  then show ?case by (cases "digit c") (auto simp: digits_of_def)
qed simp

lemma number_skip_zeros:
  assumes "digits_of base digit"
  shows "number base (digits_at digit (skip_zeros s)) = number base (digits_at digit s)"
  using assms by (induction s) (auto simp: skip_zeros_def number_Cons digits_of_def)

text \<open>What the digits behind the leading zeros say about the size of the number.\<close>

lemma leading_digit:
  assumes "digits_of base digit" "digits_at digit (skip_zeros s) = d # ds"
  shows "0 < d" "digit (hd (skip_zeros s)) = Some d" "d * base ^ length ds \<le> number base (d # ds)"
    "number base (d # ds) < Suc d * base ^ length ds"
proof -
  obtain c t where c: "skip_zeros s = c # t" using assms(2) by (cases "skip_zeros s") auto
  then have "c \<noteq> CHR ''0''" by (auto simp: skip_zeros_def dropWhile_eq_Cons_conv)
  moreover have d: "digit c = Some d" using assms(2) by (auto simp: c split: option.splits)
  ultimately show "0 < d" "digit (hd (skip_zeros s)) = Some d" using assms(1) by (auto simp: digits_of_def c)
  have "\<forall>e \<in> set ds. e < base" using digits_below [OF assms(1), of "skip_zeros s"] assms(2) by simp
  from number_below [OF this] show "d * base ^ length ds \<le> number base (d # ds)"
    "number base (d # ds) < Suc d * base ^ length ds" by (simp_all add: number_Cons)
qed

lemma hexadecimal_spec:
  assumes "8 dvd LENGTH('w::len)"
  shows "(hexadecimal s :: 'w word \<times> bool) =
    (of_nat (number 16 (digits_at hexadecimal_digit s)), 2 ^ LENGTH('w) \<le> number 16 (digits_at hexadecimal_digit s))"
proof -
  let ?ds = "digits_at hexadecimal_digit (skip_zeros s)"
  obtain k where k: "LENGTH('w) = 8 * k" using assms by (elim dvdE)
  have p: "(2 :: nat) ^ (8 * k) = 16 ^ (2 * k)" by (simp add: power_mult)
  have "2 * k < length ?ds \<longleftrightarrow> 16 ^ (2 * k) \<le> number 16 ?ds"
  proof (cases ?ds)
    case (Cons d ds)
    note l = leading_digit [OF hexadecimal_digits Cons]
    show ?thesis
    proof (cases "2 * k \<le> length ds")
      case True
      then have "(16 :: nat) ^ (2 * k) \<le> 16 ^ length ds" by (rule power_increasing) simp
      also have "\<dots> \<le> d * 16 ^ length ds" using l(1) by simp
      finally show ?thesis using l(3) True by (simp add: Cons)
    next
      case False
      then have "(16 :: nat) ^ length ?ds \<le> 16 ^ (2 * k)" by (intro power_increasing) (simp_all add: Cons)
      moreover have "number 16 ?ds < 16 ^ length ?ds" by (rule number_below) (rule digits_below [OF hexadecimal_digits])
      ultimately show ?thesis using False by (simp add: Cons)
    qed
  qed simp
  moreover have "number 16 ?ds = number 16 (digits_at hexadecimal_digit s)" by (rule number_skip_zeros [OF hexadecimal_digits])
  ultimately show ?thesis
    using digit_loop_number [of hexadecimal_digit 16 "0 :: 'w word" "skip_zeros s"]
    by (simp add: hexadecimal_def size_of_def k p)
qed

lemma decimal_digit_code: "decimal_digit c = Some d \<Longrightarrow> of_char c = d + 48 \<and> d \<le> 9"
  by (auto simp: decimal_digit_def char_between_def split: if_splits)

text \<open>
  The test for overflow: \<open>M\<close> values, the largest with \<open>m\<close> digits of which \<open>L\<close> leads; \<open>n\<close> has \<open>Suc l\<close> digits of
  which \<open>d\<close> leads.
\<close>

lemma overflow_test:
  fixes M H L m n d l :: nat
  assumes n: "d * 10 ^ l \<le> n" "n < Suc d * 10 ^ l" and d: "0 < d" "d \<le> 9"
    and m: "0 < m" "M = 2 * H" "0 < L" "L \<le> 9" "H \<le> L * 10 ^ (m - 1)" "L * 10 ^ (m - 1) \<le> M"
      "M \<le> Suc L * 10 ^ (m - 1)" "Suc L * 10 ^ (m - 1) \<le> M + H"
  shows "m \<le> Suc l \<and> \<not> (Suc l = m \<and> (d < L \<or> d = L \<and> H \<le> n mod M)) \<longleftrightarrow> M \<le> n"
proof -
  define P :: nat where "P = 10 ^ (m - 1)"
  consider "Suc l < m" | "m < Suc l" | "Suc l = m" by linarith
  then show ?thesis
  proof cases
    case 1
    then have "(10 :: nat) ^ Suc l \<le> P" unfolding P_def by (intro power_increasing) simp_all
    moreover have "Suc d * 10 ^ l \<le> 10 ^ Suc l" using d(2) by simp
    moreover have "P \<le> L * P" using m(3) by simp
    ultimately have "n < M" using n(2) m(6) unfolding P_def [symmetric] by linarith
    then show ?thesis using 1 by simp
  next
    case 2
    then have "(10 :: nat) ^ m \<le> 10 ^ l" by (intro power_increasing) simp_all
    moreover have "(10 :: nat) ^ m = 10 * P" using m(1) by (cases m) (simp_all add: P_def)
    moreover have "Suc L * P \<le> 10 * P" using m(4) by (intro mult_le_mono1) simp
    moreover have "10 ^ l \<le> d * 10 ^ l" using d(1) by simp
    ultimately have "M \<le> n" using n(1) m(7) unfolding P_def [symmetric] by linarith
    then show ?thesis using 2 by simp
  next
    case same: 3
    then have l: "10 ^ l = P" by (auto simp: P_def)
    note b = n [unfolded l] m(5-8) [folded P_def]
    consider "d < L" | "d = L" | "L < d" by linarith
    then show ?thesis
    proof cases
      case 1
      then have "Suc d * P \<le> L * P" by (intro mult_le_mono1) simp
      then have "n < M" using b by linarith
      then show ?thesis using 1 same by simp
    next
      case 2
      have "n mod M = (if n < M then n else n - M)"
      proof (cases "n < M")
        case False
        then have "n - M < M" using b(2,6) m(2) unfolding 2 by linarith
        then show ?thesis using False by (simp add: mod_if)
      qed simp
      then show ?thesis using b(1,2,3,6) 2 same by (auto simp: not_less)
    next
      case 3
      then have "Suc L * P \<le> d * P" by (intro mult_le_mono1) simp
      then have "M \<le> n" using b by linarith
      then show ?thesis using 3 same by simp
    qed
  qed
qed

lemma drop_high_bit: "drop_bit k w \<noteq> 0 \<longleftrightarrow> 2 ^ k \<le> unat (w :: 'w::len word)"
proof -
  have "unat (drop_bit k w) = unat w div 2 ^ k" unfolding unsigned_drop_bit_eq by (simp add: drop_bit_eq_div take_bit_nat_eq_self)
  then show ?thesis by (metis div_eq_0_iff not_less power_not_zero unat_eq_zero zero_neq_numeral)
qed

lemma decimal_spec:
  assumes w: "LENGTH('w::len) = 32 \<or> LENGTH('w) = 64"
  shows "(decimal s :: 'w word \<times> bool) =
    (of_nat (number 10 (digits_at decimal_digit s)), 2 ^ LENGTH('w) \<le> number 10 (digits_at decimal_digit s))"
proof -
  let ?ds = "digits_at decimal_digit (skip_zeros s)"
  define n where "n = number 10 ?ds"
  define r :: "'w word" where "r = of_nat n"
  define L :: nat where "L = (if LENGTH('w) = 64 then 1 else 4)"
  have lead: "of_char (max_lead r) = L + 48" using w by (auto simp: L_def max_lead_def size_of_def)
  have m: "max_digits10 r = (if LENGTH('w) = 64 then 20 else 10)" using w by (auto simp: max_digits10_def size_of_def)
  have high: "drop_bit (8 * size_of r - 1) r \<noteq> 0 \<longleftrightarrow> 2 ^ (LENGTH('w) - 1) \<le> n mod 2 ^ LENGTH('w)"
    unfolding drop_high_bit r_def using w by (auto simp: size_of_def unat_of_nat)
  have loop: "digit_loop decimal_digit 10 (0 :: 'w word) (skip_zeros s) = (r, length ?ds)"
    using digit_loop_number [of decimal_digit 10 "0 :: 'w word" "skip_zeros s"] by (simp add: r_def n_def)
  have "max_digits10 r \<le> length ?ds \<and> \<not> (length ?ds = max_digits10 r \<and>
        ((of_char (hd (skip_zeros s)) :: nat) < of_char (max_lead r) \<or> hd (skip_zeros s) = max_lead r \<and>
          2 ^ (LENGTH('w) - 1) \<le> n mod 2 ^ LENGTH('w))) \<longleftrightarrow> 2 ^ LENGTH('w) \<le> n"
  proof (cases ?ds)
    case (Cons d ds)
    note l = leading_digit [OF decimal_digits Cons, folded n_def Cons]
    have c: "of_char (hd (skip_zeros s)) = d + 48" "d \<le> 9" using decimal_digit_code [OF l(2)] by auto
    have e: "hd (skip_zeros s) = max_lead r \<longleftrightarrow> d = L"
      using c(1) lead by (metis add_right_cancel of_char_eq_iff)
    have n: "d * 10 ^ length ds \<le> n" "n < Suc d * 10 ^ length ds" using l(3,4) by (simp_all add: n_def Cons)
    have "max_digits10 r \<le> Suc (length ds) \<and> \<not> (Suc (length ds) = max_digits10 r \<and> (d < L \<or> d = L \<and>
        2 ^ (LENGTH('w) - 1) \<le> n mod 2 ^ LENGTH('w))) \<longleftrightarrow> 2 ^ LENGTH('w) \<le> n"
      by (rule overflow_test [OF n l(1) c(2)]) (use w in \<open>auto simp: m L_def\<close>)
    then show ?thesis unfolding c(1) lead e by (simp add: Cons)
  qed (use w in \<open>auto simp: m n_def\<close>)
  moreover have "n = number 10 (digits_at decimal_digit s)" unfolding n_def by (rule number_skip_zeros [OF decimal_digits])
  ultimately show ?thesis unfolding decimal_def Let_def loop prod.case high by (simp add: r_def)
qed

section \<open>The range of the type\<close>

lemma in_range:
  assumes "n < 2 ^ LENGTH('w::len)"
  shows "unat (of_nat n :: 'w word) = n"
  using assms by (simp add: unat_of_nat)

lemma string_to_integer_spec:
  assumes "LENGTH('w::len) = 32 \<or> LENGTH('w) = 64"
  shows "string_to_integer v (minv :: 'w word) maxv =
    (let n = nat \<bar>text_integer v\<bar> in
     if starts ''-'' (skip_ws v) then (if unat (0 - minv) < n then minv else 0 - of_nat n)
     else (if unat maxv < n then maxv else of_nat n))"
proof -
  define t where "t = (if starts ''+'' (skip_ws v) \<or> starts ''-'' (skip_ws v) then drop 1 (skip_ws v) else skip_ws v)"
  define hex where "hex \<longleftrightarrow> starts ''0'' t \<and> starts ''x'' (map or_space (drop 1 t))"
  define n where "n = (if hex then number 16 (digits_at hexadecimal_digit (drop 2 t)) else number 10 (digits_at decimal_digit t))"
  have ti: "text_integer v = (if starts ''-'' (skip_ws v) then - int n else int n)"
    by (simp add: text_integer_def Let_def n_def t_def hex_def)
  have d: "8 dvd LENGTH('w)" using assms by auto
  have r: "(if hex then hexadecimal (drop 2 t) else decimal t) = (of_nat n :: 'w word, 2 ^ LENGTH('w) \<le> n)"
    by (simp add: hexadecimal_spec [OF d] decimal_spec [OF assms] n_def)
  have less: "2 ^ LENGTH('w) \<le> n \<or> w < of_nat n \<longleftrightarrow> unat w < n" for w :: "'w word"
  proof (cases "n < 2 ^ LENGTH('w)")
    case True
    then show ?thesis using in_range [where 'w = 'w, OF True] by (simp add: word_less_nat_alt)
  next
    case False
    have "unat w < 2 ^ LENGTH('w)" by (rule unsigned_less)
    also have "\<dots> \<le> n" using False by simp
    finally show ?thesis using False by simp
  qed
  show ?thesis
    unfolding string_to_integer_def Let_def t_def [symmetric] hex_def [symmetric] r prod.case less ti by simp
qed

lemma text_integer_sign:
  "starts ''-'' (skip_ws v) \<Longrightarrow> text_integer v \<le> 0" "\<not> starts ''-'' (skip_ws v) \<Longrightarrow> 0 \<le> text_integer v"
  by (simp_all add: text_integer_def Let_def)

lemma sint_in_range:
  assumes "- (2 ^ (LENGTH('w::len) - 1)) \<le> i" "i < 2 ^ (LENGTH('w) - 1)"
  shows "sint (word_of_int i :: 'w word) = i"
  using assms by (simp add: signed_of_int signed_take_bit_int_eq_self)

lemma signed_saturates:
  fixes minv maxv :: "'w::len word"
  assumes w: "LENGTH('w) = 32 \<or> LENGTH('w) = 64" and H: "2 ^ (LENGTH('w) - 1) = H"
    and m: "unat (- minv) = nat H" "sint minv = - H" "unat maxv = nat (H - 1)" "sint maxv = H - 1"
  shows "sint (string_to_integer v minv maxv) = max (- H) (min (H - 1) (text_integer v))"
proof -
  define n where "n = nat \<bar>text_integer v\<bar>"
  have pos: "0 < H" unfolding H [symmetric] by simp
  have minus: "sint (- of_nat n :: 'w word) = - int n" if "n \<le> nat H"
  proof -
    have "- (2 ^ (LENGTH('w) - 1)) \<le> - int n" "- int n < 2 ^ (LENGTH('w) - 1)" unfolding H using that pos by linarith+
    then have "sint (word_of_int (- int n) :: 'w word) = - int n" by (rule sint_in_range)
    then show ?thesis by simp
  qed
  have plus: "sint (of_nat n :: 'w word) = int n" if "n \<le> nat (H - 1)"
  proof -
    have "- (2 ^ (LENGTH('w) - 1)) \<le> int n" "int n < 2 ^ (LENGTH('w) - 1)" unfolding H using that pos by linarith+
    then have "sint (word_of_int (int n) :: 'w word) = int n" by (rule sint_in_range)
    then show ?thesis by simp
  qed
  show ?thesis
  proof (cases "starts ''-'' (skip_ws v)")
    case True
    then have "text_integer v = - int n" using text_integer_sign(1) by (simp add: n_def)
    then show ?thesis
      using minus pos by (auto simp: string_to_integer_spec [OF w] Let_def True m not_less)
  next
    case False
    then have "text_integer v = int n" using text_integer_sign(2) by (simp add: n_def)
    then show ?thesis
      using plus pos by (auto simp: string_to_integer_spec [OF w] Let_def False m not_less)
  qed
qed

lemma unsigned_saturates:
  assumes w: "LENGTH('w::len) = 32 \<or> LENGTH('w) = 64"
  shows "uint (string_to_integer v 0 (- 1 :: 'w word)) = max 0 (min (2 ^ LENGTH('w) - 1) (text_integer v))"
proof -
  define n where "n = nat \<bar>text_integer v\<bar>"
  have top: "uint (- 1 :: 'w word) = 2 ^ LENGTH('w) - 1" by (simp add: unsigned_minus_1_eq_mask mask_eq_exp_minus_1)
  have below: "unat (- 1 :: 'w word) < n \<longleftrightarrow> 2 ^ LENGTH('w) - 1 < int n"
    unfolding top [symmetric] uint_nat of_nat_less_iff by (rule refl)
  have plus: "uint (of_nat n :: 'w word) = int n" if "int n \<le> 2 ^ LENGTH('w) - 1"
  proof -
    have "int n < int (2 ^ LENGTH('w))" using that by simp
    then show ?thesis using in_range [where 'w = 'w, of n] by (simp only: of_nat_less_iff uint_nat)
  qed
  have pos: "(0 :: int) \<le> 2 ^ LENGTH('w) - 1" by simp
  show ?thesis
  proof (cases "starts ''-'' (skip_ws v)")
    case True
    then have "text_integer v = - int n" using text_integer_sign(1) by (simp add: n_def)
    then show ?thesis
      using pos by (simp add: string_to_integer_spec [OF w] Let_def True)
  next
    case False
    then have "text_integer v = int n" using text_integer_sign(2) by (simp add: n_def)
    then show ?thesis
      using plus pos by (auto simp: string_to_integer_spec [OF w] Let_def False below top not_less)
  qed
qed

lemma values_saturate_facts:
  "get_value_int v = max (- (2 ^ 31)) (min (2 ^ 31 - 1) (text_integer v))"
  "uint (get_value_uint v) = max 0 (min (2 ^ 32 - 1) (text_integer v))"
  "get_value_llong v = max (- (2 ^ 63)) (min (2 ^ 63 - 1) (text_integer v))"
  "uint (get_value_ullong v) = max 0 (min (2 ^ 64 - 1) (text_integer v))"
proof -
  have "unat (- INT_MIN) = nat (2 ^ 31)" "sint INT_MIN = - (2 ^ 31)" "unat INT_MAX = nat (2 ^ 31 - 1)" "sint INT_MAX = 2 ^ 31 - 1"
    by (simp_all add: INT_MIN_def INT_MAX_def)
  then show "get_value_int v = max (- (2 ^ 31)) (min (2 ^ 31 - 1) (text_integer v))"
    unfolding get_value_int_def by (intro signed_saturates) simp_all
  have "unat (- LLONG_MIN) = nat (2 ^ 63)" "sint LLONG_MIN = - (2 ^ 63)" "unat LLONG_MAX = nat (2 ^ 63 - 1)" "sint LLONG_MAX = 2 ^ 63 - 1"
    by (simp_all add: LLONG_MIN_def LLONG_MAX_def)
  then show "get_value_llong v = max (- (2 ^ 63)) (min (2 ^ 63 - 1) (text_integer v))"
    unfolding get_value_llong_def by (intro signed_saturates) simp_all
  have m: "UINT_MAX = - 1" "ULLONG_MAX = - 1" by (simp_all add: UINT_MAX_def ULLONG_MAX_def)
  show "uint (get_value_uint v) = max 0 (min (2 ^ 32 - 1) (text_integer v))"
    using unsigned_saturates [where 'w = 32, of v] unfolding get_value_uint_def m by simp
  show "uint (get_value_ullong v) = max 0 (min (2 ^ 64 - 1) (text_integer v))"
    using unsigned_saturates [where 'w = 64, of v] unfolding get_value_ullong_def m by simp
qed

text \<open>
C37: Reading a number: whatever the length of the text, the result is the integer that the text stands for, brought
  into the range of the type.
\<close>

theorem values_saturate:
  "get_value_int v = max (- (2 ^ 31)) (min (2 ^ 31 - 1) (text_integer v)) \<and>
   uint (get_value_uint v) = max 0 (min (2 ^ 32 - 1) (text_integer v)) \<and>
   get_value_llong v = max (- (2 ^ 63)) (min (2 ^ 63 - 1) (text_integer v)) \<and>
   uint (get_value_ullong v) = max 0 (min (2 ^ 64 - 1) (text_integer v))"
  by (intro conjI values_saturate_facts)

section \<open>What is written is read\<close>

lemma isdigit_decimal: "isdigit c \<Longrightarrow> decimal_digit c = Some (digit_val c)"
  by (simp add: isdigit_def decimal_digit_def char_between_def digit_val_def Let_def)

lemma digits_at_digits: "list_all isdigit s \<Longrightarrow> number 10 (digits_at decimal_digit s) = read_nat s"
proof -
  assume "list_all isdigit s"
  then have "digits_at decimal_digit s = map digit_val s" by (induction s) (simp_all add: isdigit_decimal)
  moreover have "foldl (\<lambda>n d. n * 10 + d) m (map digit_val s) = foldl (\<lambda>acc c. 10 * acc + digit_val c) m s" for m
    by (induction s arbitrary: m) (simp_all add: mult.commute)
  ultimately show ?thesis by (simp add: number_def read_nat_def)
qed

lemma digit_no_space:
  assumes "isdigit c"
  shows "\<not> is_chartype ct_space c" "c \<noteq> CHR ''-''" "c \<noteq> CHR ''+''" "or_space c \<noteq> CHR ''x''"
proof -
  have n: "48 \<le> (of_char c :: nat)" "(of_char c :: nat) \<le> 57" using assms by (simp_all add: isdigit_def Let_def)
  then have "(of_char c :: nat) \<in> {48, 49, 50, 51, 52, 53, 54, 55, 56, 57}" unfolding insert_iff empty_iff by arith
  then have "of_char c OR 32 = (of_char c :: nat)" by auto
  then have "or_space c = c" by (simp add: or_space_def)
  then show "\<not> is_chartype ct_space c" "c \<noteq> CHR ''-''" "c \<noteq> CHR ''+''" "or_space c \<noteq> CHR ''x''"
    using n by (auto simp: is_chartype_spec)
qed

lemma text_integer_digits:
  assumes "list_all isdigit s" "s \<noteq> []"
  shows "text_integer s = int (read_nat s)" "text_integer (CHR ''-'' # s) = - int (read_nat s)"
proof -
  obtain c t where c: "s = c # t" "isdigit c" "list_all isdigit t" using assms by (cases s) auto
  have hex: "\<not> starts ''x'' (map or_space t)"
    using c(3) digit_no_space(4) by (cases t) (auto simp: starts_def)
  have sign: "\<not> starts ''-'' s" "\<not> starts ''+'' s" using digit_no_space [OF c(2)] by (simp_all add: starts_def c)
  have "skip_ws s = s" "skip_ws (CHR ''-'' # s) = CHR ''-'' # s"
    using digit_no_space [OF c(2)] by (simp_all add: skip_ws_def c is_chartype_spec)
  moreover have "starts ''-'' (CHR ''-'' # s)" by (simp add: starts_def)
  ultimately show "text_integer s = int (read_nat s)" "text_integer (CHR ''-'' # s) = - int (read_nat s)"
    using hex sign by (simp_all add: text_integer_def digits_at_digits [OF assms(1)]) (simp_all add: c)
qed

lemma text_integer_show_int: "text_integer (show_int i) = i"
proof -
  have "list_all isdigit (show_nat n)" for n using show_nat_digits [of n] by (simp add: list_all_iff)
  from text_integer_digits [OF this] show ?thesis by (simp add: show_int_def)
qed

lemma integer_to_string_int:
  assumes "- (2 ^ (LENGTH('w::len) - 1)) \<le> i" "i < 2 ^ (LENGTH('w) - 1)"
  shows "integer_to_string (word_of_int i :: 'w word) (i < 0) = show_int i"
proof -
  have e: "unat (word_of_int j :: 'w word) = nat j" if "0 \<le> j" "j \<le> 2 ^ (LENGTH('w) - 1)" for j
  proof -
    have "(2 :: int) ^ (LENGTH('w) - 1) < 2 ^ LENGTH('w)" by (intro power_strict_increasing) simp_all
    then have "j < 2 ^ LENGTH('w)" using that(2) by (rule le_less_trans [rotated])
    then show ?thesis using that(1) by (simp add: unsigned_of_int take_bit_int_eq_self)
  qed
  have "unat (- word_of_int i :: 'w word) = nat (- i)" if "i < 0" using e [of "- i"] that assms by simp
  moreover have "unat (word_of_int i :: 'w word) = nat i" if "0 \<le> i" using e [of i] that assms by simp
  ultimately show ?thesis by (simp add: integer_to_string_def show_int_def)
qed

lemma integer_to_string_nat: "integer_to_string w False = show_int (uint w)"
  by (simp add: integer_to_string_def show_int_def)

text \<open>The numbers and truth values that are stored are read back.\<close>

theorem values_read_back:
  "(- (2 ^ 31) \<le> i \<and> i < 2 ^ 31 \<longrightarrow> get_value_int (set_value_int i) = i) \<and>
   get_value_uint (set_value_uint w) = w \<and>
   (- (2 ^ 63) \<le> j \<and> j < 2 ^ 63 \<longrightarrow> get_value_llong (set_value_llong j) = j) \<and>
   get_value_ullong (set_value_ullong x) = x \<and>
   get_value_bool (set_value_bool b) = b"
proof (intro conjI impI)
  assume i: "- (2 ^ 31) \<le> i \<and> i < 2 ^ 31"
  then have "set_value_int i = show_int i"
    unfolding set_value_int_def by (intro integer_to_string_int) simp_all
  then show "get_value_int (set_value_int i) = i"
    using i values_saturate_facts(1) [of "show_int i"] by (simp add: text_integer_show_int)
next
  assume j: "- (2 ^ 63) \<le> j \<and> j < 2 ^ 63"
  then have "set_value_llong j = show_int j"
    unfolding set_value_llong_def by (intro integer_to_string_int) simp_all
  then show "get_value_llong (set_value_llong j) = j"
    using j values_saturate_facts(3) [of "show_int j"] by (simp add: text_integer_show_int)
next
  have "uint w < 2 ^ LENGTH(32)" by (rule unsigned_less)
  then have "uint (get_value_uint (set_value_uint w)) = uint w"
    using values_saturate_facts(2) [of "set_value_uint w"]
    by (simp add: set_value_uint_def integer_to_string_nat text_integer_show_int)
  then show "get_value_uint (set_value_uint w) = w" by (rule unsigned_word_eqI)
next
  have "uint x < 2 ^ LENGTH(64)" by (rule unsigned_less)
  then have "uint (get_value_ullong (set_value_ullong x)) = uint x"
    using values_saturate_facts(4) [of "set_value_ullong x"]
    by (simp add: set_value_ullong_def integer_to_string_nat text_integer_show_int)
  then show "get_value_ullong (set_value_ullong x) = x" by (rule unsigned_word_eqI)
next
  show "get_value_bool (set_value_bool b) = b" by (simp add: get_value_bool_def set_value_bool_def)
qed

theorem values_read_back_witness:
  "- (2 ^ 31) \<le> (- 40 :: int) \<and> get_value_int (set_value_int (- 40)) = - 40 \<and> set_value_int (- 40) = ''-40'' \<and>
   get_value_uint (set_value_uint 7) = 7 \<and> get_value_llong (set_value_llong (2 ^ 40)) = 2 ^ 40 \<and>
   get_value_ullong (set_value_ullong 9) = 9 \<and> get_value_bool (set_value_bool True)"
proof -
  have "set_value_int (- 40) = ''-40''" by code_simp
  then show ?thesis using values_read_back [of "- 40" 7 "2 ^ 40" 9 True] by simp
qed

end
