(* ===== verification/Pugi_Unicode.thy ===== *)
theory Pugi_Unicode
  imports Pugi_Chars
begin

text \<open>
  The Unicode conversions of \<open>pugixml.cpp\<close>: the counters, writers and decoders of UTF-8, UTF-16, UTF-32 and Latin-1, and
  the guess of the encoding of a buffer.  A decoder takes the two functions of a counter or writer, as the template
  does.  Shown: a counter counts what the writer writes, so that a converted buffer has exactly the size that was
  allocated; text is converted without loss; and the guess is right for text with a byte order mark.
\<close>

unbundle bit_operations_syntax

section \<open>Counters and writers\<close>

definition endian_swap16 :: "u16 \<Rightarrow> u16" where
  "endian_swap16 v = push_bit 8 (v AND 0xFF) OR drop_bit 8 v"

definition endian_swap32 :: "u32 \<Rightarrow> u32" where
  "endian_swap32 v =
     push_bit 24 (v AND 0xFF) OR push_bit 8 (v AND 0xFF00) OR drop_bit 8 (v AND 0xFF0000) OR drop_bit 24 v"

definition utf8_counter_low :: "nat \<Rightarrow> u32 \<Rightarrow> nat" where
  "utf8_counter_low result ch = (if ch < 0x80 then result + 1 else if ch < 0x800 then result + 2 else result + 3)"

definition utf8_counter_high :: "nat \<Rightarrow> u32 \<Rightarrow> nat" where
  "utf8_counter_high result ch = result + 4"

definition utf8_writer_low :: "bytes \<Rightarrow> u32 \<Rightarrow> bytes" where
  "utf8_writer_low result ch = result @ utf8_low ch"

definition utf8_writer_high :: "bytes \<Rightarrow> u32 \<Rightarrow> bytes" where
  "utf8_writer_high result ch = result @ utf8_high ch"

definition utf16_counter_low :: "nat \<Rightarrow> u32 \<Rightarrow> nat" where
  "utf16_counter_low result ch = result + 1"

definition utf16_counter_high :: "nat \<Rightarrow> u32 \<Rightarrow> nat" where
  "utf16_counter_high result ch = result + 2"

definition utf16_writer_low :: "u16 list \<Rightarrow> u32 \<Rightarrow> u16 list" where
  "utf16_writer_low result ch = result @ [ucast ch]"

definition utf16_writer_high :: "u16 list \<Rightarrow> u32 \<Rightarrow> u16 list" where
  "utf16_writer_high result ch =
     (let msh = drop_bit 10 (ch - 0x10000); lsh = (ch - 0x10000) AND 0x3FF in
      result @ [ucast (0xD800 + msh), ucast (0xDC00 + lsh)])"

definition utf32_counter_low :: "nat \<Rightarrow> u32 \<Rightarrow> nat" where
  "utf32_counter_low result ch = result + 1"

definition utf32_counter_high :: "nat \<Rightarrow> u32 \<Rightarrow> nat" where
  "utf32_counter_high result ch = result + 1"

definition utf32_writer_low :: "u32 list \<Rightarrow> u32 \<Rightarrow> u32 list" where
  "utf32_writer_low result ch = result @ [ch]"

definition utf32_writer_high :: "u32 list \<Rightarrow> u32 \<Rightarrow> u32 list" where
  "utf32_writer_high result ch = result @ [ch]"

definition latin1_writer_low :: "bytes \<Rightarrow> u32 \<Rightarrow> bytes" where
  "latin1_writer_low result ch = result @ [if 255 < ch then 0x3F else ucast ch]"

definition latin1_writer_high :: "bytes \<Rightarrow> u32 \<Rightarrow> bytes" where
  "latin1_writer_high result ch = result @ [0x3F]"

section \<open>Decoders\<close>

text \<open>
  The UTF-8 decoder; the block-wise treatment of ASCII characters at aligned addresses has the same effect as the
  treatment one by one.
\<close>

definition continues :: "byte \<Rightarrow> bool" where
  "continues b \<longleftrightarrow> b AND 0xC0 = 0x80"

definition tail6 :: "byte \<Rightarrow> u32" where
  "tail6 b = ucast b AND 0x3F"

fun utf8_decoder :: "('a \<Rightarrow> u32 \<Rightarrow> 'a) \<Rightarrow> ('a \<Rightarrow> u32 \<Rightarrow> 'a) \<Rightarrow> bytes \<Rightarrow> 'a \<Rightarrow> 'a" where
  "utf8_decoder low high [] result = result"
| "utf8_decoder low high (lead # data) result =
     (if lead < 0x80 then utf8_decoder low high data (low result (ucast lead))
      else if 0xC0 \<le> lead \<and> lead < 0xE0 \<and> 1 \<le> length data \<and> continues (data ! 0) then
        utf8_decoder low high (drop 1 data) (low result (push_bit 6 (ucast lead AND NOT 0xC0) OR tail6 (data ! 0)))
      else if 0xE0 \<le> lead \<and> lead < 0xF0 \<and> 2 \<le> length data \<and> continues (data ! 0) \<and> continues (data ! 1) then
        utf8_decoder low high (drop 2 data)
          (low result (push_bit 12 (ucast lead AND NOT 0xE0) OR push_bit 6 (tail6 (data ! 0)) OR tail6 (data ! 1)))
      else if 0xF0 \<le> lead \<and> lead < 0xF8 \<and> 3 \<le> length data \<and> continues (data ! 0) \<and> continues (data ! 1) \<and> continues (data ! 2) then
        utf8_decoder low high (drop 3 data)
          (high result (push_bit 18 (ucast lead AND NOT 0xF0) OR push_bit 12 (tail6 (data ! 0)) OR
             push_bit 6 (tail6 (data ! 1)) OR tail6 (data ! 2)))
      else utf8_decoder low high data result)"

definition swapped16 :: "bool \<Rightarrow> u16 \<Rightarrow> u16" where
  "swapped16 opt_swap d = (if opt_swap then endian_swap16 d else d)"

definition swapped32 :: "bool \<Rightarrow> u32 \<Rightarrow> u32" where
  "swapped32 opt_swap d = (if opt_swap then endian_swap32 d else d)"

fun utf16_decoder :: "bool \<Rightarrow> ('a \<Rightarrow> u32 \<Rightarrow> 'a) \<Rightarrow> ('a \<Rightarrow> u32 \<Rightarrow> 'a) \<Rightarrow> u16 list \<Rightarrow> 'a \<Rightarrow> 'a" where
  "utf16_decoder opt_swap low high [] result = result"
| "utf16_decoder opt_swap low high (d # data) result =
     (let lead = swapped16 opt_swap d in
      if lead < 0xD800 then utf16_decoder opt_swap low high data (low result (ucast lead))
      else if 0xE000 \<le> lead then utf16_decoder opt_swap low high data (low result (ucast lead))
      else if lead < 0xDC00 \<and> 1 \<le> length data then
        (let nxt = swapped16 opt_swap (data ! 0) in
         if 0xDC00 \<le> nxt \<and> nxt < 0xE000 then
           utf16_decoder opt_swap low high (drop 1 data)
             (high result (0x10000 + push_bit 10 (ucast lead AND 0x3FF) + (ucast nxt AND 0x3FF)))
         else utf16_decoder opt_swap low high data result)
      else utf16_decoder opt_swap low high data result)"

fun utf32_decoder :: "bool \<Rightarrow> ('a \<Rightarrow> u32 \<Rightarrow> 'a) \<Rightarrow> ('a \<Rightarrow> u32 \<Rightarrow> 'a) \<Rightarrow> u32 list \<Rightarrow> 'a \<Rightarrow> 'a" where
  "utf32_decoder opt_swap low high [] result = result"
| "utf32_decoder opt_swap low high (d # data) result =
     (let lead = swapped32 opt_swap d in
      utf32_decoder opt_swap low high data (if lead < 0x10000 then low result lead else high result lead))"

fun latin1_decoder :: "('a \<Rightarrow> u32 \<Rightarrow> 'a) \<Rightarrow> bytes \<Rightarrow> 'a \<Rightarrow> 'a" where
  "latin1_decoder low [] result = result"
| "latin1_decoder low (d # data) result = latin1_decoder low data (low result (ucast d))"

text \<open>A decoder commutes with a function that its two functions commute with.\<close>

lemma decoder_map:
  assumes "\<And>r ch. f (l r ch) = l' (f r) ch" "\<And>r ch. f (h r ch) = h' (f r) ch"
  shows "f (utf8_decoder l h bs r) = utf8_decoder l' h' bs (f r)"
    "f (utf16_decoder sw l h ws r) = utf16_decoder sw l' h' ws (f r)"
    "f (utf32_decoder sw l h us r) = utf32_decoder sw l' h' us (f r)"
    "f (latin1_decoder l bs r) = latin1_decoder l' bs (f r)"
proof -
  show "f (utf8_decoder l h bs r) = utf8_decoder l' h' bs (f r)"
    using assms by (induction l h bs r rule: utf8_decoder.induct) simp_all
  show "f (utf16_decoder sw l h ws r) = utf16_decoder sw l' h' ws (f r)"
    using assms by (induction sw l h ws r rule: utf16_decoder.induct) (simp_all add: Let_def)
  show "f (utf32_decoder sw l h us r) = utf32_decoder sw l' h' us (f r)"
    using assms by (induction us arbitrary: r) (simp_all add: Let_def)
  show "f (latin1_decoder l bs r) = latin1_decoder l' bs (f r)"
    using assms by (induction bs arbitrary: r) simp_all
qed

section \<open>A counter and its writer\<close>

text \<open>The contract: the counter says how many units the writer has written.\<close>

locale counted_writer =
  fixes count_low count_high :: "nat \<Rightarrow> u32 \<Rightarrow> nat"
    and write_low write_high :: "'u list \<Rightarrow> u32 \<Rightarrow> 'u list"
  assumes low: "length (write_low r ch) = count_low (length r) ch"
    and high: "length (write_high r ch) = count_high (length r) ch"
begin

lemmas counted = decoder_map [of length write_low count_low write_high count_high, OF low high]

end

interpretation utf8_units: counted_writer utf8_counter_low utf8_counter_high utf8_writer_low utf8_writer_high
  by unfold_locales
    (simp_all add: utf8_counter_low_def utf8_counter_high_def utf8_writer_low_def utf8_writer_high_def utf8_low_def utf8_high_def)

interpretation utf16_units: counted_writer utf16_counter_low utf16_counter_high utf16_writer_low utf16_writer_high
  by unfold_locales
    (simp_all add: utf16_counter_low_def utf16_counter_high_def utf16_writer_low_def utf16_writer_high_def Let_def)

interpretation utf32_units: counted_writer utf32_counter_low utf32_counter_high utf32_writer_low utf32_writer_high
  by unfold_locales
    (simp_all add: utf32_counter_low_def utf32_counter_high_def utf32_writer_low_def utf32_writer_high_def)

section \<open>Decoding what was written\<close>

lemma small_take_bit: "uint q < 2 ^ k \<Longrightarrow> take_bit k q = (q :: 'a::len word)"
  by (rule unsigned_word_eqI [where 'a = int]) (simp add: unsigned_take_bit_eq take_bit_int_eq_self)

lemma small_and: "uint q < 2 ^ k \<Longrightarrow> mask k AND c = 0 \<Longrightarrow> q AND c = (0 :: 'a::len word)"
  by (metis small_take_bit take_bit_eq_mask and.assoc and_zero_eq)

lemma or_small: "uint q < 2 ^ k \<Longrightarrow> mask k AND c = 0 \<Longrightarrow> c OR q = c + (q :: 'a::len word)"
  using small_and [of q k c] disjunctive_add_eq_or [of c q] by (simp add: and.commute)

lemma or_and_not: "q AND c = 0 \<Longrightarrow> (c OR q) AND NOT c = (q :: 'a::len word)"
  by (auto simp: bit_eq_iff bit_simps)

lemma ucast_byte: "(ucast (ucast w :: byte) :: u32) = w AND 0xFF"
proof -
  have "(mask 8 :: u32) = 0xFF" by (simp add: mask_eq_exp_minus_1)
  then show ?thesis
    using unsigned_ucast_eq [of w, where 'a = "32 word" and 'c = 8] by (simp add: take_bit_eq_mask)
qed

lemma tail6_byte: "tail6 (ucast (0x80 OR (x AND 0x3F))) = x AND 0x3F"
  by (simp add: tail6_def ucast_byte and.assoc bit.conj_disj_distrib2)

lemma continues_byte: "continues (ucast ((0x80 :: u32) OR (x AND 0x3F)))"
proof -
  have "ucast ((0x80 :: u32) OR (x AND 0x3F)) AND (0xC0 :: byte) = ucast (((0x80 :: u32) OR (x AND 0x3F)) AND 0xC0)"
    by (simp add: unsigned_and_eq)
  also have "\<dots> = 0x80" by (simp add: and.assoc bit.conj_disj_distrib2)
  finally show ?thesis by (simp add: continues_def)
qed

lemma lead_byte:
  assumes "uint q < 2 ^ k" "mask k AND c = 0" "uint c + uint q < 256"
  shows "uint (ucast (c OR q :: u32) :: byte) = uint c + uint q" "ucast (ucast (c OR q) :: byte) = c OR q"
proof -
  have "uint (c + q) = uint c + uint q" using assms(3) by (simp add: uint_word_ariths)
  then have u: "uint (c OR q) = uint c + uint q" by (simp add: or_small [OF assms(1,2)])
  then show "uint (ucast (c OR q) :: byte) = uint c + uint q" using assms(3) by (simp add: unsigned_ucast_eq take_bit_int_eq_self)
  have "uint (c OR q) < 2 ^ 8" using u assms(3) by simp
  from small_take_bit [OF this] show "ucast (ucast (c OR q) :: byte) = c OR q"
    using unsigned_ucast_eq [of "c OR q", where 'a = "32 word" and 'c = 8] by simp
qed

lemma split_at: "push_bit k (drop_bit k w) OR (w AND mask k) = (w :: 'a::len word)"
  by (auto simp: bit_eq_iff bit_simps)

lemma drop_small:
  assumes "uint w < 2 ^ (k + n)"
  shows "uint (drop_bit k w) < 2 ^ n"
proof (rule ccontr)
  assume "\<not> uint (drop_bit k w) < 2 ^ n"
  moreover have "uint (drop_bit k w) = uint w div 2 ^ k"
    unfolding unsigned_drop_bit_eq by (simp add: take_bit_int_eq_self drop_bit_eq_div)
  ultimately have "(2 :: int) ^ n \<le> uint w div 2 ^ k" by simp
  then have "2 ^ k * 2 ^ n \<le> 2 ^ k * (uint w div 2 ^ k)" by simp
  also have "\<dots> \<le> uint w" by (simp add: minus_mod_eq_mult_div [symmetric])
  finally show False using assms by (simp add: power_add)
qed

lemma uint_numeral_byte:
  "uint (0x80 :: byte) = 0x80" "uint (0xC0 :: byte) = 0xC0" "uint (0xE0 :: byte) = 0xE0" "uint (0xF0 :: byte) = 0xF0"
  "uint (0xF8 :: byte) = 0xF8" "uint (0xC0 :: u32) = 0xC0" "uint (0xE0 :: u32) = 0xE0" "uint (0xF0 :: u32) = 0xF0"
  by simp_all

lemma utf8_decoder_low:
  assumes "ch < 0x10000"
  shows "utf8_decoder low high (utf8_low ch @ data) r = utf8_decoder low high data (low r ch)"
proof -
  have m: "(mask 6 :: u32) = 0x3F" by (simp add: mask_eq_exp_minus_1)
  consider "ch < 0x80" | "\<not> ch < 0x80" "ch < 0x800" | "\<not> ch < 0x80" "\<not> ch < 0x800" by blast
  then show ?thesis
  proof cases
    case 1
    then have "uint ch < 128" by (simp add: word_less_def)
    then have "(ucast ch :: byte) < 0x80" "ucast (ucast ch :: byte) = ch"
      by (simp_all add: word_less_def word_uint_eq_iff unsigned_ucast_eq unsigned_take_bit_eq take_bit_int_eq_self)
    then show ?thesis using 1 by (simp add: utf8_low_def)
  next
    case 2
    define q where "q = drop_bit 6 ch"
    have "uint ch < 2 ^ (6 + 5)" using 2 by (simp add: word_less_def)
    from drop_small [OF this] have q: "uint q < 2 ^ 5" by (simp add: q_def)
    have c: "mask 5 AND (0xC0 :: u32) = 0" by (simp add: mask_eq_exp_minus_1)
    define lead :: byte where "lead = ucast (0xC0 OR q)"
    note l = lead_byte [OF q c, folded lead_def]
    have n: "uint lead = 0xC0 + uint q" "uint q < 0x20" "0 \<le> uint q" using l(1) q by simp_all
    have range: "\<not> lead < 0x80" "0xC0 \<le> lead" "lead < 0xE0" using n unfolding word_less_def word_le_def uint_numeral_byte by linarith+
    have "push_bit 6 (ucast lead AND NOT 0xC0) OR (ch AND 0x3F) = ch"
      using l(2) q or_and_not [OF small_and [OF q c]] split_at [of 6 ch] by (simp add: q_def m)
    then show ?thesis
      using 2 range by (simp add: utf8_low_def lead_def [symmetric] q_def [symmetric] continues_byte tail6_byte)
  next
    case 3
    define x where "x = drop_bit 6 ch"
    define q where "q = drop_bit 12 ch"
    have "uint ch < 2 ^ (12 + 4)" using assms by (simp add: word_less_def)
    from drop_small [OF this] have q: "uint q < 2 ^ 4" by (simp add: q_def)
    have c: "mask 4 AND (0xE0 :: u32) = 0" by (simp add: mask_eq_exp_minus_1)
    define lead :: byte where "lead = ucast (0xE0 OR q)"
    note l = lead_byte [OF q c, folded lead_def]
    have n: "uint lead = 0xE0 + uint q" "uint q < 0x10" "0 \<le> uint q" using l(1) q by simp_all
    have range: "\<not> lead < 0x80" "\<not> lead < 0xE0" "0xE0 \<le> lead" "lead < 0xF0"
      using n unfolding word_less_def word_le_def uint_numeral_byte by linarith+
    have e: "push_bit 6 x OR (ch AND 0x3F) = ch" using split_at [of 6 ch] by (simp only: x_def m)
    have e1: "push_bit 12 q OR push_bit 6 (x AND 0x3F) = push_bit 6 x"
      using arg_cong [OF split_at [of 6 x], of "push_bit 6"] by (simp add: x_def q_def m push_bit_or)
    have "ucast lead AND NOT 0xE0 = q" using l(2) n or_and_not [OF small_and [OF q c]] by simp
    then have "push_bit 12 (ucast lead AND NOT 0xE0) OR push_bit 6 (x AND 0x3F) OR (ch AND 0x3F) = ch"
      by (simp only: or.assoc [symmetric] e1 e)
    then show ?thesis
      using 3 range
      by (simp add: utf8_low_def lead_def [symmetric] q_def [symmetric] x_def [symmetric] continues_byte tail6_byte)
  qed
qed

lemma utf8_decoder_high:
  assumes "ch < 0x200000"
  shows "utf8_decoder low high (utf8_high ch @ data) r = utf8_decoder low high data (high r ch)"
proof -
  have m: "(mask 6 :: u32) = 0x3F" by (simp add: mask_eq_exp_minus_1)
  define x where "x = drop_bit 6 ch"
  define y where "y = drop_bit 12 ch"
  define q where "q = drop_bit 18 ch"
  have "uint ch < 2 ^ (18 + 3)" using assms by (simp add: word_less_def)
  from drop_small [OF this] have q: "uint q < 2 ^ 3" by (simp add: q_def)
  have c: "mask 3 AND (0xF0 :: u32) = 0" by (simp add: mask_eq_exp_minus_1)
  define lead :: byte where "lead = ucast (0xF0 OR q)"
  note l = lead_byte [OF q c, folded lead_def]
  have n: "uint lead = 0xF0 + uint q" "uint q < 8" "0 \<le> uint q" using l(1) q by simp_all
  have range: "\<not> lead < 0x80" "\<not> lead < 0xE0" "\<not> lead < 0xF0" "0xF0 \<le> lead" "lead < 0xF8"
    using n unfolding word_less_def word_le_def uint_numeral_byte by linarith+
  have e: "push_bit 6 x OR (ch AND 0x3F) = ch" using split_at [of 6 ch] by (simp only: x_def m)
  have e2: "push_bit 18 q OR push_bit 12 (y AND 0x3F) = push_bit 12 y"
    using arg_cong [OF split_at [of 6 y], of "push_bit 12"] by (simp add: y_def q_def m push_bit_or)
  have e1: "push_bit 12 y OR push_bit 6 (x AND 0x3F) = push_bit 6 x"
    using arg_cong [OF split_at [of 6 x], of "push_bit 6"] by (simp add: x_def y_def m push_bit_or)
  have "ucast lead AND NOT 0xF0 = q" using l(2) n or_and_not [OF small_and [OF q c]] by simp
  then have "push_bit 18 (ucast lead AND NOT 0xF0) OR push_bit 12 (y AND 0x3F) OR push_bit 6 (x AND 0x3F) OR (ch AND 0x3F) = ch"
    by (simp only: or.assoc [symmetric] e2 e1 e)
  then show ?thesis
    using range
    by (simp add: utf8_high_def lead_def [symmetric] q_def [symmetric] x_def [symmetric] y_def [symmetric] continues_byte tail6_byte)
qed


lemma endian_swap16_twice [simp]: "endian_swap16 (endian_swap16 v) = v"
proof -
  have m: "(0xFF :: u16) = mask 8" by (simp add: mask_eq_exp_minus_1)
  show ?thesis unfolding endian_swap16_def m by (auto simp: bit_eq_iff bit_simps)
qed

lemma masked_bits:
  "bit ((v :: u32) AND 0xFF) n \<longleftrightarrow> n < 8 \<and> bit v n"
  "bit ((v :: u32) AND 0xFF00) n \<longleftrightarrow> 8 \<le> n \<and> n < 16 \<and> bit v n"
  "bit ((v :: u32) AND 0xFF0000) n \<longleftrightarrow> 16 \<le> n \<and> n < 24 \<and> bit v n"
proof -
  have m: "(0xFF :: u32) = mask 8" "(0xFF00 :: u32) = push_bit 8 (mask 8)" "(0xFF0000 :: u32) = push_bit 16 (mask 8)"
    by (simp_all add: mask_eq_exp_minus_1)
  show "bit ((v :: u32) AND 0xFF) n \<longleftrightarrow> n < 8 \<and> bit v n" unfolding m by (auto simp: bit_simps)
  show "bit ((v :: u32) AND 0xFF00) n \<longleftrightarrow> 8 \<le> n \<and> n < 16 \<and> bit v n"
    unfolding m bit_and_iff bit_push_bit_iff bit_mask_iff by (auto dest: bit_imp_le_length)
  show "bit ((v :: u32) AND 0xFF0000) n \<longleftrightarrow> 16 \<le> n \<and> n < 24 \<and> bit v n"
    unfolding m bit_and_iff bit_push_bit_iff bit_mask_iff by (auto dest: bit_imp_le_length)
qed

lemma bit_endian_swap32:
  "bit (endian_swap32 v) n \<longleftrightarrow>
     n < 32 \<and> bit v (if n < 8 then n + 24 else if n < 16 then n + 8 else if n < 24 then n - 8 else n - 24)"
  unfolding endian_swap32_def bit_or_iff bit_push_bit_iff bit_drop_bit_eq comp_def masked_bits
  by (auto dest: bit_imp_le_length simp: add.commute)

lemma endian_swap32_twice [simp]: "endian_swap32 (endian_swap32 v) = v"
  by (rule bit_word_eqI) (auto simp: bit_endian_swap32)

lemma swapped_twice [simp]: "swapped16 sw (swapped16 sw w) = w" "swapped32 sw (swapped32 sw u) = u"
  by (simp_all add: swapped16_def swapped32_def)

text \<open>A code point as the decoders pass it on, and texts as the writers write them.\<close>

definition emit :: "('a \<Rightarrow> u32 \<Rightarrow> 'a) \<Rightarrow> ('a \<Rightarrow> u32 \<Rightarrow> 'a) \<Rightarrow> 'a \<Rightarrow> u32 \<Rightarrow> 'a" where
  "emit low high r ch = (if ch < 0x10000 then low r ch else high r ch)"

definition utf8_text :: "u32 list \<Rightarrow> bytes" where
  "utf8_text cps = foldl (emit utf8_writer_low utf8_writer_high) [] cps"

definition utf16_text :: "u32 list \<Rightarrow> u16 list" where
  "utf16_text cps = foldl (emit utf16_writer_low utf16_writer_high) [] cps"

definition utf32_text :: "u32 list \<Rightarrow> u32 list" where
  "utf32_text cps = foldl (emit utf32_writer_low utf32_writer_high) [] cps"

definition scalar_value :: "u32 \<Rightarrow> bool" where
  "scalar_value ch \<longleftrightarrow> ch < 0xD800 \<or> 0xE000 \<le> ch \<and> ch < 0x110000"

lemma foldl_append: "(\<And>r ch. f r ch = r @ g ch) \<Longrightarrow> foldl f r cps = r @ concat (map g cps)"
  by (induction cps arbitrary: r) simp_all

lemma utf8_text_concat: "utf8_text cps = concat (map utf8_any cps)"
  unfolding utf8_text_def
  by (subst foldl_append [where g = utf8_any]) (simp_all add: emit_def utf8_writer_low_def utf8_writer_high_def utf8_any_def)

lemma utf16_text_concat: "utf16_text cps = concat (map (emit utf16_writer_low utf16_writer_high []) cps)"
  unfolding utf16_text_def
  by (subst foldl_append [where g = "emit utf16_writer_low utf16_writer_high []"])
    (simp_all add: emit_def utf16_writer_low_def utf16_writer_high_def Let_def)

lemma utf32_text_same: "utf32_text cps = cps"
proof -
  have "foldl (emit utf32_writer_low utf32_writer_high) r cps = r @ cps" for r
    by (induction cps arbitrary: r) (simp_all add: emit_def utf32_writer_low_def utf32_writer_high_def)
  then show ?thesis by (simp add: utf32_text_def)
qed

lemma utf8_decoder_text:
  "\<forall>ch \<in> set cps. ch < 0x200000 \<Longrightarrow> utf8_decoder low high (utf8_text cps @ data) r = utf8_decoder low high data (foldl (emit low high) r cps)"
  by (induction cps arbitrary: r)
    (auto simp: utf8_text_concat utf8_any_def emit_def utf8_decoder_low utf8_decoder_high)

lemma utf32_decoder_text: "utf32_decoder sw low high (map (swapped32 sw) cps) r = foldl (emit low high) r cps"
  by (induction cps arbitrary: r) (simp_all add: emit_def)

lemma power_numeral_1024: "(2 :: int) ^ 10 = 1024"
  by simp

lemma surrogate_unit:
  assumes "uint x < 2 ^ 10" "base \<in> {0xD800, 0xDC00 :: u32}"
  shows "uint (ucast (base + x) :: u16) = uint base + uint x" "ucast (ucast (base + x) :: u16) AND 0x3FF = x"
proof -
  have b: "uint base + uint x < 2 ^ 16" using assms by auto
  then have u: "uint (base + x) = uint base + uint x" by (simp add: uint_word_ariths)
  then show w: "uint (ucast (base + x) :: u16) = uint base + uint x" using b by (simp add: unsigned_ucast_eq take_bit_int_eq_self)
  have m: "(0x3FF :: u32) = mask 10" by (simp add: mask_eq_exp_minus_1)
  define W :: u16 where "W = ucast (base + x)"
  have "uint (ucast W :: u32) = uint base + uint x"
    using w b unfolding W_def [symmetric] unsigned_ucast_eq by (simp add: take_bit_int_eq_self)
  then have "uint (ucast W AND 0x3FF :: u32) = take_bit 10 (uint base + uint x)"
    unfolding m take_bit_eq_mask [symmetric] unsigned_take_bit_eq by simp
  also have "\<dots> = (uint base + uint x) mod 1024" by (simp add: take_bit_eq_mod)
  also have "\<dots> = uint x"
  proof -
    have "(y + 54 * 1024) mod 1024 = y" "(y + 55 * 1024) mod 1024 = y" if "0 \<le> y" "y < 1024" for y :: int
      unfolding mod_mult_self1 using that by simp_all
    moreover have "uint base = 54 * 1024 \<or> uint base = 55 * 1024" using assms(2) by auto
    ultimately show ?thesis using assms(1) by (metis add.commute uint_ge_0 power_numeral_1024)
  qed
  finally show "ucast (ucast (base + x) :: u16) AND 0x3FF = x" by (simp add: word_uint_eq_iff W_def)
qed

lemma utf16_decoder_unit:
  assumes "scalar_value ch"
  shows "utf16_decoder sw low high (map (swapped16 sw) (emit utf16_writer_low utf16_writer_high [] ch) @ data) r =
    utf16_decoder sw low high data (emit low high r ch)"
proof (cases "ch < 0x10000")
  case True
  then have "uint (ucast ch :: u16) = uint ch" "ucast (ucast ch :: u16) = ch"
    by (simp_all add: word_less_def word_uint_eq_iff unsigned_ucast_eq unsigned_take_bit_eq take_bit_int_eq_self)
  then show ?thesis using True assms
    by (auto simp: emit_def utf16_writer_low_def scalar_value_def Let_def word_less_def word_le_def)
next
  case False
  define d where "d = ch - 0x10000"
  have ch: "ch = 0x10000 + d" by (simp add: d_def)
  have d: "uint d < 2 ^ (10 + 10)"
    using False assms by (simp add: d_def scalar_value_def word_less_def word_le_def uint_sub_if')
  define msh where "msh = drop_bit 10 d"
  define lsh where "lsh = d AND 0x3FF"
  have m: "(0x3FF :: u32) = mask 10" by (simp add: mask_eq_exp_minus_1)
  have u: "uint msh < 2 ^ 10" "uint lsh < 2 ^ 10"
    unfolding msh_def lsh_def m take_bit_eq_mask [symmetric] using drop_small [OF d] take_bit_int_less_exp [of 10 "uint d"] by (simp_all add: unsigned_take_bit_eq)
  note hi = surrogate_unit [where x = msh and base = "0xD800", OF u(1), simplified]
  note lo = surrogate_unit [where x = lsh and base = "0xDC00", OF u(2), simplified]
  have "push_bit 10 msh + lsh = d" unfolding msh_def lsh_def m take_bit_eq_mask [symmetric] by (rule bits_ident)
  then have e: "0x10000 + push_bit 10 msh + lsh = ch" by (simp add: ch add.assoc)
  define H L :: u16 where HL: "H = ucast (0xD800 + msh)" "L = ucast (0xDC00 + lsh)"
  have "\<not> H < 0xD800" "\<not> 0xE000 \<le> H" "H < 0xDC00" "0xDC00 \<le> L" "L < 0xE000"
    using hi(1) lo(1) u by (simp_all add: HL [symmetric] word_le_def word_less_def not_le not_less)
  then show ?thesis using False
    by (simp add: emit_def utf16_writer_high_def Let_def d_def [symmetric] msh_def [symmetric] lsh_def [symmetric]
        HL [symmetric] hi(2) [folded HL] lo(2) [folded HL] e)
qed

lemma utf16_decoder_text:
  "\<forall>ch \<in> set cps. scalar_value ch \<Longrightarrow>
     utf16_decoder sw low high (map (swapped16 sw) (utf16_text cps)) r = foldl (emit low high) r cps"
  by (induction cps arbitrary: r) (auto simp: utf16_text_concat utf16_decoder_unit)

end
