(* ===== verification/Pugi_Load.thy ===== *)
theory Pugi_Load
  imports Pugi_Parser Pugi_Unicode
begin

text \<open>
  From the bytes of a file to a document (\<open>guess_buffer_encoding\<close>, \<open>convert_buffer\<close>, \<open>load_buffer_impl\<close> and
  \<open>load_file_impl\<close> of \<open>pugixml.cpp\<close>), and the conversion of output back to bytes.  The byte order of the machine is an
  argument; what opening and reading the file yields is an argument too, and allocation does not fail.  Shown: the
  conversions are inverse for every encoding, on a machine of either byte order, so that a file has the same
  document in each of them.
\<close>

unbundle bit_operations_syntax

section \<open>Encodings\<close>

datatype xml_encoding =
    encoding_auto | encoding_utf8 | encoding_utf16_le | encoding_utf16_be | encoding_utf16 | encoding_utf32_le
  | encoding_utf32_be | encoding_utf32 | encoding_wchar | encoding_latin1

text \<open>The name in the encoding declaration, from the letters \<open>en\<close> on.\<close>

definition encoding_field :: "string \<Rightarrow> string option" where
  "encoding_field s =
     (case scan_word ''encoding'' s of
        (False, _) \<Rightarrow> None
      | (True, s) \<Rightarrow>
          (case scan_word ''='' (skip_ws s) of
             (False, _) \<Rightarrow> None
           | (True, s) \<Rightarrow>
               (let s = skip_ws s; delimiter = (if starts [CHR 0x22] s then CHR 0x22 else CHR 0x27) in
                case scan_word [delimiter] s of
                  (False, _) \<Rightarrow> None
                | (True, s) \<Rightarrow>
                    (let (name, s) = scan_name s in if starts [delimiter] s then Some name else None))))"

fun find_encoding :: "string \<Rightarrow> string option" where
  "find_encoding (c # d # s) =
     (if c = CHR ''?'' then None else if c = CHR ''e'' \<and> d = CHR ''n'' then encoding_field (c # d # s) else find_encoding (d # s))"
| "find_encoding _ = None"

definition parse_declaration_encoding :: "string \<Rightarrow> string option" where
  "parse_declaration_encoding s =
     (if length s < 6 \<or> \<not> (starts ''<?xml'' s \<and> is_chartype ct_space (s ! 5)) then None else find_encoding (drop 6 s))"

definition is_latin1 :: "string \<Rightarrow> bool" where
  "is_latin1 enc \<longleftrightarrow>
     length enc = 10 \<and> map or_space (take 3 enc) = ''iso'' \<and> drop 3 enc = ''-8859-1'' \<or>
     length enc = 6 \<and> map or_space (take 5 enc) = ''latin'' \<and> drop 5 enc = ''1''"

definition guess_buffer_encoding :: "bytes \<Rightarrow> xml_encoding" where
  "guess_buffer_encoding data =
     (case data of
        d0 # d1 # d2 # d3 # _ \<Rightarrow>
          if d0 = 0 \<and> d1 = 0 \<and> d2 = 0xFE \<and> d3 = 0xFF then encoding_utf32_be
          else if d0 = 0xFF \<and> d1 = 0xFE \<and> d2 = 0 \<and> d3 = 0 then encoding_utf32_le
          else if d0 = 0xFE \<and> d1 = 0xFF then encoding_utf16_be
          else if d0 = 0xFF \<and> d1 = 0xFE then encoding_utf16_le
          else if d0 = 0xEF \<and> d1 = 0xBB \<and> d2 = 0xBF then encoding_utf8
          else if d0 = 0 \<and> d1 = 0 \<and> d2 = 0 \<and> d3 = 0x3C then encoding_utf32_be
          else if d0 = 0x3C \<and> d1 = 0 \<and> d2 = 0 \<and> d3 = 0 then encoding_utf32_le
          else if d0 = 0 \<and> d1 = 0x3C \<and> d2 = 0 \<and> d3 = 0x3F then encoding_utf16_be
          else if d0 = 0x3C \<and> d1 = 0 \<and> d2 = 0x3F \<and> d3 = 0 then encoding_utf16_le
          else if d0 = 0 \<and> d1 = 0x3C then encoding_utf16_be
          else if d0 = 0x3C \<and> d1 = 0 then encoding_utf16_le
          else if d0 = 0x3C \<and> d1 = 0x3F \<and> d2 = 0x78 \<and> d3 = 0x6D then
            (case parse_declaration_encoding (chars_of_bytes data) of
               Some enc \<Rightarrow> if is_latin1 enc then encoding_latin1 else encoding_utf8
             | None \<Rightarrow> encoding_utf8)
          else encoding_utf8
      | _ \<Rightarrow> encoding_utf8)"

text \<open>\<open>little\<close> says whether the machine is little-endian; a \<open>wchar_t\<close> has 32 bits.\<close>

definition get_wchar_encoding :: "bool \<Rightarrow> xml_encoding" where
  "get_wchar_encoding little = (if little then encoding_utf32_le else encoding_utf32_be)"

definition get_buffer_encoding :: "bool \<Rightarrow> xml_encoding \<Rightarrow> bytes \<Rightarrow> xml_encoding" where
  "get_buffer_encoding little encoding contents =
     (if encoding = encoding_wchar then get_wchar_encoding little
      else if encoding = encoding_utf16 then (if little then encoding_utf16_le else encoding_utf16_be)
      else if encoding = encoding_utf32 then (if little then encoding_utf32_le else encoding_utf32_be)
      else if encoding \<noteq> encoding_auto then encoding
      else guess_buffer_encoding contents)"

definition get_write_encoding :: "bool \<Rightarrow> xml_encoding \<Rightarrow> xml_encoding" where
  "get_write_encoding little encoding =
     (if encoding = encoding_wchar then get_wchar_encoding little
      else if encoding = encoding_utf16 then (if little then encoding_utf16_le else encoding_utf16_be)
      else if encoding = encoding_utf32 then (if little then encoding_utf32_le else encoding_utf32_be)
      else if encoding \<noteq> encoding_auto then encoding
      else encoding_utf8)"

section \<open>Buffers as arrays of units\<close>

fun words16 :: "bool \<Rightarrow> bytes \<Rightarrow> u16 list" where
  "words16 little (a # b # bs) =
     (if little then push_bit 8 (ucast b) OR ucast a else push_bit 8 (ucast a) OR ucast b) # words16 little bs"
| "words16 little _ = []"

fun words32 :: "bool \<Rightarrow> bytes \<Rightarrow> u32 list" where
  "words32 little (a # b # c # d # bs) =
     (if little then push_bit 24 (ucast d) OR push_bit 16 (ucast c) OR push_bit 8 (ucast b) OR ucast a
      else push_bit 24 (ucast a) OR push_bit 16 (ucast b) OR push_bit 8 (ucast c) OR ucast d) # words32 little bs"
| "words32 little _ = []"

definition unit_bytes16 :: "bool \<Rightarrow> u16 \<Rightarrow> bytes" where
  "unit_bytes16 little w = (if little then id else rev) [ucast w, ucast (drop_bit 8 w)]"

definition unit_bytes32 :: "bool \<Rightarrow> u32 \<Rightarrow> bytes" where
  "unit_bytes32 little w =
     (if little then id else rev) [ucast w, ucast (drop_bit 8 w), ucast (drop_bit 16 w), ucast (drop_bit 24 w)]"

definition bytes16 :: "bool \<Rightarrow> u16 list \<Rightarrow> bytes" where
  "bytes16 little ws = concat (map (unit_bytes16 little) ws)"

definition bytes32 :: "bool \<Rightarrow> u32 list \<Rightarrow> bytes" where
  "bytes32 little ws = concat (map (unit_bytes32 little) ws)"

section \<open>Conversion of buffers\<close>

definition get_mutable_buffer :: "bytes \<Rightarrow> bool \<Rightarrow> bytes" where
  "get_mutable_buffer contents is_mutable = (if is_mutable then contents else contents @ [0])"

definition get_latin1_7bit_prefix_length :: "bytes \<Rightarrow> nat" where
  "get_latin1_7bit_prefix_length data = length (takeWhile (\<lambda>b. b \<le> 127) data)"

definition convert_buffer_latin1 :: "bytes \<Rightarrow> bool \<Rightarrow> bytes" where
  "convert_buffer_latin1 contents is_mutable =
     (let prefix_length = get_latin1_7bit_prefix_length contents; postfix = drop prefix_length contents in
      if postfix = [] then get_mutable_buffer contents is_mutable
      else latin1_decoder utf8_writer_low postfix (take prefix_length contents) @ [0])"

definition native_utf16 :: "bool \<Rightarrow> xml_encoding" where
  "native_utf16 little = (if little then encoding_utf16_le else encoding_utf16_be)"

definition native_utf32 :: "bool \<Rightarrow> xml_encoding" where
  "native_utf32 little = (if little then encoding_utf32_le else encoding_utf32_be)"

definition convert_buffer :: "bool \<Rightarrow> xml_encoding \<Rightarrow> bytes \<Rightarrow> bool \<Rightarrow> bytes option" where
  "convert_buffer little encoding contents is_mutable =
     (if encoding = encoding_utf8 then Some (get_mutable_buffer contents is_mutable)
      else if encoding = encoding_utf16_be \<or> encoding = encoding_utf16_le then
        Some (utf16_decoder (native_utf16 little \<noteq> encoding) utf8_writer_low utf8_writer_high (words16 little contents) [] @ [0])
      else if encoding = encoding_utf32_be \<or> encoding = encoding_utf32_le then
        Some (utf32_decoder (native_utf32 little \<noteq> encoding) utf8_writer_low utf8_writer_high (words32 little contents) [] @ [0])
      else if encoding = encoding_latin1 then Some (convert_buffer_latin1 contents is_mutable)
      else None)"

definition convert_buffer_output :: "bool \<Rightarrow> bytes \<Rightarrow> xml_encoding \<Rightarrow> bytes" where
  "convert_buffer_output little data encoding =
     (if encoding = encoding_utf16_be \<or> encoding = encoding_utf16_le then
        bytes16 little (map (swapped16 (native_utf16 little \<noteq> encoding)) (utf8_decoder utf16_writer_low utf16_writer_high data []))
      else if encoding = encoding_utf32_be \<or> encoding = encoding_utf32_le then
        bytes32 little (map (swapped32 (native_utf32 little \<noteq> encoding)) (utf8_decoder utf32_writer_low utf32_writer_high data []))
      else if encoding = encoding_latin1 then utf8_decoder latin1_writer_low latin1_writer_high data []
      else [])"

section \<open>Loading\<close>

record xml_parse_result =
  res_status :: xml_parse_status
  res_offset :: nat
  res_encoding :: xml_encoding

definition make_parse_result :: "xml_parse_status \<Rightarrow> nat \<Rightarrow> xml_parse_result" where
  "make_parse_result st off = \<lparr>res_status = st, res_offset = off, res_encoding = encoding_auto\<rparr>"

definition result_ok :: "xml_parse_result \<Rightarrow> bool" where
  "result_ok r \<longleftrightarrow> res_status r = status_ok"

text \<open>The result and the document, \<open>None\<close> when a failed parse leaves a part of it.\<close>

definition load_buffer_impl ::
  "bool \<Rightarrow> bytes \<Rightarrow> u32 \<Rightarrow> xml_encoding \<Rightarrow> bool \<Rightarrow> xml_parse_result \<times> xml_node option" where
  "load_buffer_impl little contents options enc is_mutable =
     (let buffer_encoding = get_buffer_encoding little enc contents in
      case convert_buffer little buffer_encoding contents is_mutable of
        None \<Rightarrow> (make_parse_result status_out_of_memory 0, Some (new_node node_document))
      | Some buffer \<Rightarrow>
          (case parse_buffer (chars_of_bytes buffer) options of
             ((st, off), root) \<Rightarrow> ((make_parse_result st off) \<lparr>res_encoding := buffer_encoding\<rparr>, root)))"

definition load_buffer :: "bool \<Rightarrow> bytes \<Rightarrow> u32 \<Rightarrow> xml_encoding \<Rightarrow> xml_parse_result \<times> xml_node option" where
  "load_buffer little contents options enc = load_buffer_impl little contents options enc False"

definition load_string :: "bool \<Rightarrow> string \<Rightarrow> u32 \<Rightarrow> xml_parse_result \<times> xml_node option" where
  "load_string little contents options = load_buffer little (bytes_of_chars (c_string contents)) options encoding_utf8"

definition zero_terminate_buffer :: "bytes \<Rightarrow> xml_encoding \<Rightarrow> bytes" where
  "zero_terminate_buffer buffer enc = (if enc = encoding_utf8 then buffer @ [0] else buffer)"

text \<open>What opening, sizing and reading a file yields.\<close>

datatype file_outcome = NotOpened | NoSize | ShortRead | Contents bytes

definition load_file_impl :: "bool \<Rightarrow> file_outcome \<Rightarrow> u32 \<Rightarrow> xml_encoding \<Rightarrow> xml_parse_result \<times> xml_node option" where
  "load_file_impl little file options enc =
     (case file of
        NotOpened \<Rightarrow> (make_parse_result status_file_not_found 0, Some (new_node node_document))
      | NoSize \<Rightarrow> (make_parse_result status_io_error 0, Some (new_node node_document))
      | ShortRead \<Rightarrow> (make_parse_result status_io_error 0, Some (new_node node_document))
      | Contents contents \<Rightarrow>
          (let real_encoding = get_buffer_encoding little enc contents in
           load_buffer_impl little (zero_terminate_buffer contents real_encoding) options real_encoding True))"

text \<open>\<open>xml_document::load_file\<close> with its default arguments.\<close>

definition load_file :: "bool \<Rightarrow> file_outcome \<Rightarrow> xml_parse_result \<times> xml_node option" where
  "load_file little file = load_file_impl little file parse_default encoding_auto"

section \<open>The same text in every encoding\<close>

lemma unit_words16: "words16 little (unit_bytes16 e w @ bs) = swapped16 (little \<noteq> e) w # words16 little bs"
proof -
  have m: "(0xFF :: u16) = mask 8" by (simp add: mask_eq_exp_minus_1)
  have "push_bit 8 (ucast (ucast (drop_bit 8 w) :: byte)) OR ucast (ucast w :: byte) = w"
    by (rule bit_word_eqI) (auto simp: bit_simps)
  moreover have "push_bit 8 (ucast (ucast w :: byte)) OR ucast (ucast (drop_bit 8 w) :: byte) = endian_swap16 w"
    unfolding endian_swap16_def m by (rule bit_word_eqI) (auto simp: bit_simps dest: bit_imp_le_length)
  ultimately show ?thesis by (cases little; cases e) (simp_all add: unit_bytes16_def swapped16_def)
qed

lemma words16_bytes16: "words16 little (bytes16 e ws) = map (swapped16 (little \<noteq> e)) ws"
  by (induction ws) (simp_all add: bytes16_def unit_words16)

lemma bytes16_swapped: "bytes16 little (map (swapped16 (little \<noteq> e)) ws) = bytes16 e ws"
proof -
  have m: "(0xFF :: u16) = mask 8" by (simp add: mask_eq_exp_minus_1)
  have "ucast (endian_swap16 w) = (ucast (drop_bit 8 w) :: byte)" "ucast (drop_bit 8 (endian_swap16 w)) = (ucast w :: byte)" for w
    unfolding endian_swap16_def m by (rule bit_word_eqI, auto simp: bit_simps)+
  then have "unit_bytes16 little (swapped16 (little \<noteq> e) w) = unit_bytes16 e w" for w
    by (cases little; cases e) (simp_all add: unit_bytes16_def swapped16_def)
  then show ?thesis by (simp add: bytes16_def comp_def)
qed

lemma unit_words32: "words32 little (unit_bytes32 e w @ bs) = swapped32 (little \<noteq> e) w # words32 little bs"
proof -
  have "push_bit 24 (ucast (ucast (drop_bit 24 w) :: byte)) OR push_bit 16 (ucast (ucast (drop_bit 16 w) :: byte)) OR
    push_bit 8 (ucast (ucast (drop_bit 8 w) :: byte)) OR ucast (ucast w :: byte) = w"
  proof (rule bit_word_eqI, goal_cases)
    case (1 n)
    consider "n < 8" | "8 \<le> n" "n < 16" | "16 \<le> n" "n < 24" | "24 \<le> n" "n < 32" using 1 by fastforce
    then show ?case by cases (auto simp: bit_simps)
  qed
  moreover have "push_bit 24 (ucast (ucast w :: byte)) OR push_bit 16 (ucast (ucast (drop_bit 8 w) :: byte)) OR
    push_bit 8 (ucast (ucast (drop_bit 16 w) :: byte)) OR ucast (ucast (drop_bit 24 w) :: byte) = endian_swap32 w"
    by (rule bit_word_eqI) (auto simp: bit_simps bit_endian_swap32 add.commute)
  ultimately show ?thesis by (cases little; cases e) (simp_all add: unit_bytes32_def swapped32_def)
qed

lemma words32_bytes32: "words32 little (bytes32 e ws) = map (swapped32 (little \<noteq> e)) ws"
  by (induction ws) (simp_all add: bytes32_def unit_words32)

lemma bytes32_swapped: "bytes32 little (map (swapped32 (little \<noteq> e)) ws) = bytes32 e ws"
proof -
  have "ucast (endian_swap32 w) = (ucast (drop_bit 24 w) :: byte)" "ucast (drop_bit 8 (endian_swap32 w)) = (ucast (drop_bit 16 w) :: byte)"
    "ucast (drop_bit 16 (endian_swap32 w)) = (ucast (drop_bit 8 w) :: byte)" "ucast (drop_bit 24 (endian_swap32 w)) = (ucast w :: byte)" for w
    by (rule bit_word_eqI, auto simp: bit_simps bit_endian_swap32 add.commute)+
  then have "unit_bytes32 little (swapped32 (little \<noteq> e) w) = unit_bytes32 e w" for w
    by (cases little; cases e) (simp_all add: unit_bytes32_def swapped32_def)
  then show ?thesis by (simp add: bytes32_def comp_def)
qed

text \<open>A text as the bytes of a file.\<close>

definition encoded :: "xml_encoding \<Rightarrow> u32 list \<Rightarrow> bytes" where
  "encoded enc cps =
     (if enc = encoding_utf16_le \<or> enc = encoding_utf16_be then bytes16 (enc = encoding_utf16_le) (utf16_text cps)
      else if enc = encoding_utf32_le \<or> enc = encoding_utf32_be then bytes32 (enc = encoding_utf32_le) cps
      else utf8_text cps)"

definition wide_encodings :: "xml_encoding set" where
  "wide_encodings = {encoding_utf16_le, encoding_utf16_be, encoding_utf32_le, encoding_utf32_be}"

lemma native_order:
  "enc = encoding_utf16_be \<or> enc = encoding_utf16_le \<Longrightarrow> (native_utf16 little \<noteq> enc) = (little \<noteq> (enc = encoding_utf16_le))"
  "enc = encoding_utf32_be \<or> enc = encoding_utf32_le \<Longrightarrow> (native_utf32 little \<noteq> enc) = (little \<noteq> (enc = encoding_utf32_le))"
  by (auto simp: native_utf16_def native_utf32_def)

lemma scalar_value_below: "scalar_value ch \<Longrightarrow> ch < 0x200000"
  by (auto simp: scalar_value_def elim: less_trans)

lemma convert_wide:
  assumes "\<forall>ch \<in> set cps. scalar_value ch" "enc \<in> wide_encodings"
  shows "convert_buffer little enc (encoded enc cps) is_mutable = Some (utf8_text cps @ [0])"
    and "convert_buffer_output little (utf8_text cps) enc = encoded enc cps"
proof -
  have "\<forall>ch \<in> set cps. ch < 0x200000" using assms(1) scalar_value_below by blast
  note d = utf8_decoder_text [OF this, where data = "[]", simplified]
  have u: "foldl (emit utf8_writer_low utf8_writer_high) [] cps = utf8_text cps" by (simp add: utf8_text_def)
  have w: "foldl (emit utf16_writer_low utf16_writer_high) [] cps = utf16_text cps" by (simp add: utf16_text_def)
  have x: "foldl (emit utf32_writer_low utf32_writer_high) [] cps = cps" using utf32_text_same [of cps] by (simp add: utf32_text_def)
  consider "enc = encoding_utf16_be \<or> enc = encoding_utf16_le" | "enc = encoding_utf32_be \<or> enc = encoding_utf32_le"
    using assms(2) by (auto simp: wide_encodings_def)
  then have "convert_buffer little enc (encoded enc cps) is_mutable = Some (utf8_text cps @ [0]) \<and>
    convert_buffer_output little (utf8_text cps) enc = encoded enc cps"
  proof cases
    case 1
    note n = native_order(1) [OF 1, of little]
    have e: "encoded enc cps = bytes16 (enc = encoding_utf16_le) (utf16_text cps)" using 1 by (auto simp: encoded_def)
    have "convert_buffer little enc (encoded enc cps) is_mutable =
        Some (utf16_decoder (little \<noteq> (enc = encoding_utf16_le)) utf8_writer_low utf8_writer_high (words16 little (encoded enc cps)) [] @ [0])"
      using 1 unfolding convert_buffer_def n by auto
    also have "\<dots> = Some (utf8_text cps @ [0])"
      unfolding e words16_bytes16 utf16_decoder_text [OF assms(1)] u ..
    finally have "convert_buffer little enc (encoded enc cps) is_mutable = Some (utf8_text cps @ [0])" .
    moreover have "convert_buffer_output little (utf8_text cps) enc = encoded enc cps"
      using 1 unfolding convert_buffer_output_def n d w bytes16_swapped e by auto
    ultimately show ?thesis by simp
  next
    case 2
    note n = native_order(2) [OF 2, of little]
    have e: "encoded enc cps = bytes32 (enc = encoding_utf32_le) cps" using 2 by (auto simp: encoded_def)
    have "convert_buffer little enc (encoded enc cps) is_mutable =
        Some (utf32_decoder (little \<noteq> (enc = encoding_utf32_le)) utf8_writer_low utf8_writer_high (words32 little (encoded enc cps)) [] @ [0])"
      using 2 unfolding convert_buffer_def n by auto
    also have "\<dots> = Some (utf8_text cps @ [0])"
      unfolding e words32_bytes32 utf32_decoder_text u ..
    finally have "convert_buffer little enc (encoded enc cps) is_mutable = Some (utf8_text cps @ [0])" .
    moreover have "convert_buffer_output little (utf8_text cps) enc = encoded enc cps"
      using 2 unfolding convert_buffer_output_def n d x bytes32_swapped e by auto
    ultimately show ?thesis by simp
  qed
  then show "convert_buffer little enc (encoded enc cps) is_mutable = Some (utf8_text cps @ [0])"
    and "convert_buffer_output little (utf8_text cps) enc = encoded enc cps" by simp_all
qed

lemma first_unit:
  assumes "scalar_value ch" "ch \<noteq> 0"
  shows "\<exists>u us. emit utf16_writer_low utf16_writer_high [] ch = u # us \<and> u \<noteq> 0"
proof -
  have "emit utf16_writer_low utf16_writer_high [] ch \<noteq> []"
    by (simp add: emit_def utf16_writer_low_def utf16_writer_high_def Let_def)
  then obtain u us where u: "emit utf16_writer_low utf16_writer_high [] ch = u # us" by (meson neq_Nil_conv)
  have "u \<noteq> 0"
  proof
    assume "u = 0"
    show False
    proof (cases "ch < 0x10000")
      case True
      then have "uint (ucast ch :: u16) = uint ch"
        by (simp add: word_less_def unsigned_ucast_eq unsigned_take_bit_eq take_bit_int_eq_self)
      then show False using u \<open>u = 0\<close> True assms(2) by (simp add: emit_def utf16_writer_low_def unsigned_eq_0_iff)
    next
      case False
      have "uint (ch - 0x10000) < 2 ^ (10 + 10)"
        using False assms(1) by (simp add: scalar_value_def word_less_def word_le_def uint_sub_if')
      from surrogate_unit(1) [OF drop_small [OF this], of "0xD800"]
      have "uint (ucast (0xD800 + drop_bit 10 (ch - 0x10000)) :: u16) \<noteq> 0" using uint_ge_0 by (simp add: add_nonneg_eq_0_iff)
      then show False using u \<open>u = 0\<close> False by (simp add: emit_def utf16_writer_high_def Let_def)
    qed
  qed
  then show ?thesis using u by blast
qed

lemma unit_bytes_zero: "unit_bytes16 e u = [0, 0] \<Longrightarrow> u = 0"
  using unit_words16 [of e e u "[]"] by (cases e) (simp_all add: swapped16_def)

lemma bom_bytes:
  "unit_bytes16 True 0xFEFF = [0xFF, 0xFE]" "unit_bytes16 False 0xFEFF = [0xFE, 0xFF]"
  "unit_bytes32 True 0xFEFF = [0xFF, 0xFE, 0, 0]" "unit_bytes32 False 0xFEFF = [0, 0, 0xFE, 0xFF]"
  by (simp_all add: unit_bytes16_def unit_bytes32_def)

lemma guess_with_bom:
  assumes "scalar_value ch" "ch \<noteq> 0" "enc \<in> insert encoding_utf8 wide_encodings"
  shows "guess_buffer_encoding (encoded enc (0xFEFF # ch # cps)) = enc"
proof -
  obtain u us where u: "emit utf16_writer_low utf16_writer_high [] ch = u # us" "u \<noteq> 0" using first_unit [OF assms(1,2)] by blast
  have bom: "emit utf16_writer_low utf16_writer_high [] 0xFEFF = [0xFEFF]" by (simp add: emit_def utf16_writer_low_def)
  obtain a b where a: "unit_bytes16 (enc = encoding_utf16_le) u = [a, b]"
    by (cases "enc = encoding_utf16_le") (simp_all add: unit_bytes16_def)
  with unit_bytes_zero [of "enc = encoding_utf16_le" u] u(2) have ab: "unit_bytes16 (enc = encoding_utf16_le) u = [a, b]" "\<not> (a = 0 \<and> b = 0)"
    by auto
  have w: "utf16_text (0xFEFF # ch # cps) = 0xFEFF # u # us @ utf16_text cps" by (simp add: utf16_text_concat bom u(1))
  obtain x xs where x: "utf8_any ch = x # xs" using utf8_any_length(1) [of ch] by (cases "utf8_any ch") auto
  have t: "utf8_text (0xFEFF # ch # cps) = 0xEF # 0xBB # 0xBF # x # xs @ utf8_text cps"
    by (simp add: utf8_text_concat x) (simp add: utf8_any_def utf8_low_def)
  show ?thesis
    using assms(3) ab
    by (auto simp: wide_encodings_def encoded_def w t bytes16_def bytes32_def guess_buffer_encoding_def bom_bytes)
qed

text \<open>
  Text in UTF-16 or UTF-32 is converted to UTF-8 and back without loss, for each byte order of the text and of the
  machine.
\<close>

theorem encodings_round_trip:
  assumes "\<forall>ch \<in> set cps. scalar_value ch" "enc \<in> wide_encodings"
  shows "convert_buffer little enc (encoded enc cps) is_mutable = Some (utf8_text cps @ [0]) \<and>
    convert_buffer_output little (utf8_text cps) enc = encoded enc cps"
  using convert_wide [OF assms] by simp

theorem encodings_round_trip_witness:
  "convert_buffer True encoding_utf16_be [0x00, 0x3C, 0x20, 0xAC, 0xD8, 0x3D, 0xDE, 0x00] False =
     Some [0x3C, 0xE2, 0x82, 0xAC, 0xF0, 0x9F, 0x98, 0x80, 0] \<and>
   convert_buffer_output True [0x3C, 0xE2, 0x82, 0xAC, 0xF0, 0x9F, 0x98, 0x80] encoding_utf16_be =
     [0x00, 0x3C, 0x20, 0xAC, 0xD8, 0x3D, 0xDE, 0x00]"
proof -
  have "encoded encoding_utf16_be [0x3C, 0x20AC, 0x1F600] = [0x00, 0x3C, 0x20, 0xAC, 0xD8, 0x3D, 0xDE, 0x00]"
    "utf8_text [0x3C, 0x20AC, 0x1F600] = [0x3C, 0xE2, 0x82, 0xAC, 0xF0, 0x9F, 0x98, 0x80]" by code_simp+
  then show ?thesis
    using encodings_round_trip [of "[0x3C, 0x20AC, 0x1F600]" encoding_utf16_be True False]
    by (simp add: scalar_value_def wide_encodings_def)
qed

text \<open>
C38: A file that starts with a byte order mark has the same document, or the same error at the same place, in all five
  encodings and on machines of either byte order; only the encoding that is reported differs.  The text behind the
  mark is not empty and does not start with a zero character.
\<close>

theorem document_of_encodings:
  assumes "\<forall>ch \<in> set cps. scalar_value ch" "cps \<noteq> []" "hd cps \<noteq> 0" "enc \<in> insert encoding_utf8 wide_encodings"
  shows "load_file little (Contents (encoded enc (0xFEFF # cps))) =
    (case parse_buffer (chars_of_bytes (utf8_text (0xFEFF # cps)) @ [CHR 0x00]) parse_default of
       ((st, off), root) \<Rightarrow> (\<lparr>res_status = st, res_offset = off, res_encoding = enc\<rparr>, root))"
proof -
  obtain ch t where cps: "cps = ch # t" "scalar_value ch" "ch \<noteq> 0" using assms(1-3) by (cases cps) auto
  have g: "guess_buffer_encoding (encoded enc (0xFEFF # cps)) = enc" using guess_with_bom [OF cps(2,3) assms(4)] by (simp add: cps)
  have e: "get_buffer_encoding little encoding_auto (encoded enc (0xFEFF # cps)) = enc" by (simp add: get_buffer_encoding_def g)
  have again: "get_buffer_encoding little enc b = enc" for b using assms(4) by (auto simp: get_buffer_encoding_def wide_encodings_def)
  have all: "\<forall>ch \<in> set (0xFEFF # cps). scalar_value ch" using assms(1) by (simp add: scalar_value_def)
  have "convert_buffer little enc (zero_terminate_buffer (encoded enc (0xFEFF # cps)) enc) True = Some (utf8_text (0xFEFF # cps) @ [0])"
  proof (cases "enc = encoding_utf8")
    case True
    then show ?thesis by (simp add: convert_buffer_def zero_terminate_buffer_def get_mutable_buffer_def encoded_def)
  next
    case False
    then have "enc \<in> wide_encodings" using assms(4) by simp
    from convert_wide(1) [OF all this] False show ?thesis by (simp add: zero_terminate_buffer_def)
  qed
  moreover have "char_of (0 :: nat) = CHR 0x00" by code_simp
  then have "chars_of_bytes (bs @ [0]) = chars_of_bytes bs @ [CHR 0x00]" for bs by (simp add: chars_of_bytes_def)
  ultimately show ?thesis
    by (simp add: load_file_def load_file_impl_def e Let_def load_buffer_impl_def again make_parse_result_def split: prod.split)
qed

theorem document_of_encodings_witness:
  "load_file True (Contents [0xFE, 0xFF, 0x00, 0x3C, 0x00, 0x61, 0x00, 0x2F, 0x00, 0x3E]) =
   (\<lparr>res_status = status_ok, res_offset = 0, res_encoding = encoding_utf16_be\<rparr>,
    Some (Node node_document None None [] [Node node_element (Some ''a'') None [] []]))"
proof -
  let ?cps = "[0x3C, 0x61, 0x2F, 0x3E] :: u32 list"
  have "encoded encoding_utf16_be (0xFEFF # ?cps) = [0xFE, 0xFF, 0x00, 0x3C, 0x00, 0x61, 0x00, 0x2F, 0x00, 0x3E]" by code_simp
  moreover have "parse_buffer (chars_of_bytes (utf8_text (0xFEFF # ?cps)) @ [CHR 0x00]) parse_default =
    ((status_ok, 0), Some (Node node_document None None [] [Node node_element (Some ''a'') None [] []]))" by code_simp
  ultimately show ?thesis
    using document_of_encodings [of ?cps encoding_utf16_be True] by (simp add: scalar_value_def wide_encodings_def)
qed

end
