(* ===== verification/Spec2Isabelle.thy ===== *)
theory Spec2Isabelle
  imports Logger Rpc_Client Message_Pubsub Endpoint_Config Parameter_Service Diagnostics
    Obfuscated_Key Shm_Cleanup Middleware_Spy Common_Utilities Process_Launcher Cat_Apps
    Parameters_Tester Param_Simulators Simulator_Programs Parameter_Apps
    Demo_Pubsub Demo_Services Demo_Actions Demo_Combined Demo_Lifecycle
    Cdr_Types Type_Objects Rpc_Server Grpc_Framework Lockup_Apps Spy_App Discovery_Server Pugi_Parser Pugi_Values Pugi_Load
begin

text \<open>
  \<^bold>\<open>The program.\<close>  The repository holds a C++ middleware on eProsima Fast DDS
  (\<open>src/middleware-cpp-master/middleware-cpp-master\<close>, below called \<open>mw\<close>), a workspace that ports parts
  of it to ROS 2 (\<open>src/ros2/ros2/apps/src\<close>) and the applications of both.  A process that owns
  parameters builds a \<^emph>\<open>parameter service\<close> from a configuration.  Other processes read and write its
  parameters by requests and replies and subscribe to the values it publishes.  The diagnostics service
  distributes active codes over the same transport.

  A read or write goes through five layers: a handle (\<open>ReadParameter\<close>, \<open>WriteParameter\<close>) serialises it
  and gives it to a \<open>dds::Client\<close>, whose thread pool calls the stub of the request interface; the
  client bindings send it and keep a promise; the server bindings validate it and queue it for a
  worker; the worker calls \<open>ServerRequestHandler\<close>, which calls the service's action and, when the
  action defers, waits for \<open>Reply\<close>; the answer goes back the same way and ends in the handle's
  completion callback.  Published values go from \<open>PublishParameter\<close> through a \<open>MessageWriter\<close> to the
  \<open>MessageReader\<close> of each subscriber and to the callback of a \<open>SubscribeParameter\<close>.

  \<^bold>\<open>The theories.\<close>  Definitions carry the names of the source; where one function is split, the pieces
  are named after it.

  \<^item> \<open>Mw_Prelude\<close>: bytes, words and text, the type \<open>cpp_error\<close> of the ways a C++ call fails, shared
    lemmas.  \<open>Std_Map\<close>: \<open>std::map\<close> as an ordered association list.  \<open>Std_Stream\<close>: extraction from an
    \<open>istringstream\<close>.  \<open>Std_Parse\<close>: \<open>std::stoul\<close>, \<open>strtol\<close> and the buffers filled by \<open>strncpy\<close>.  \<open>Std_Float\<close>: what
    is compared of a \<open>double\<close>.
  \<^item> \<open>Mw_Defines\<close> (\<open>mw/lib/framework/common/MiddlewareDefines.h\<close>): status codes, requests and replies,
    the payload limit.  \<open>Logger\<close> (\<open>SystemUtilities.cpp\<close>): log levels, start and reset of the logger, text
    of a time.  \<open>Common_Utilities\<close> (\<open>TestUtilities.h\<close>, \<open>SimpleTaskSignal.h\<close>,
    \<open>SingleThreadedUsageValidator.cpp\<close>): exchangeable clock, timed waits, thread checks.
  \<^item> \<open>Request_Handler\<close> (\<open>mw/lib/framework/dds/server/ServerRequestHandler.cpp\<close>): the state is the key
    counter, the table of promises and the two callbacks.  \<open>ProcessRequest\<close> is one call of one thread, as a
    function of the list of replies that arrive while it waits; \<open>hstep\<close> interleaves the calls of any
    number of threads, cut where the code takes or releases its mutex.  Shown: the outcome on every
    branch, uniqueness of keys among waiting calls, the exact content of the table of promises, the
    payload limit, and the consequence of the entry that an oversized deferred reply leaves behind.
  \<^item> \<open>Rpc_Bindings\<close> (\<open>mw/idl/topics/requests/requestsServer.cxx\<close>, \<open>requestsClient.cxx\<close>): validation,
    queue, workers and replies of the server, pending promises of the client.  Shown: every promise is
    fulfilled at most once, and what the handler did is what the future holds.
  \<^item> \<open>Rpc_Threads\<close> (the same files): the workers of the server's pool as a machine driven by events, and the
    sending threads and the reply thread of a client as a step relation.  Shown: no request and no wake-up is
    lost, the queue is served, a stopped pool joins, and every reply that arrives resolves its promise.
  \<^item> \<open>Rpc_Server\<close> (\<open>requestsServer.cxx\<close>): the server as a whole, a step relation that interleaves the reading
    thread, the workers of that pool with handlers of any duration and outcome, and \<open>stop\<close>.  Shown: no request is
    answered twice, each reply is what its own handler did, workers start in the order of the requests, and a
    running server that is idle has answered all of them.
  \<^item> \<open>Cdr_Stream\<close> and \<open>Cdr_Types\<close> (\<open>requestsCdrAux.ipp\<close>, \<open>requestsPubSubTypes.cxx\<close>, \<open>messageCdrAux.ipp\<close>,
    \<open>messagePubSubTypes.cxx\<close>): the calls that the generated code makes on Fast CDR to write, read and size the
    types of the two IDL files, and the topic types.  Shown: what is written is read back, in both data
    representations; computed sizes are exact for all types without an exception and too small for the
    replies that carry one; an operation over the wire resolves the promise with the handler's outcome.
  \<^item> \<open>Type_Objects\<close> (\<open>requestsTypeObjectSupport.cxx\<close>, \<open>messageTypeObjectSupport.cxx\<close> and its copy under
    \<open>mw/apps/lockup-standalone\<close>): registration of the type objects.  Shown: a registration enters
    every type it depends on and logs nothing; the type objects have the members that the IDL files declare, and for
    the interface those that the request/reply mapping derives; extensibility, member numbers and optional
    members, which the IDL files leave open, are those of the calls of \<open>Cdr_Types\<close>; and what an error in the
    registration of the exception hands out.
  \<^item> \<open>Rpc_Client\<close> (\<open>MiddlewareClient.cpp\<close>, \<open>ThreadPool.cpp\<close>, \<open>MiddlewareServer.cpp\<close>, the RPC stubs and
    \<open>MiddlewareFrameworkFactory.cpp\<close>): every submitted request completes once; start and stop of the
    server thread; the factory.
  \<^item> \<open>Message_Pubsub\<close> (\<open>mw/lib/framework/dds/message\<close>, \<open>mw/lib/framework/dds/eprosima\<close>): participant,
    writer, reader, listeners, and the stubs with their order of deletion.  Shown: delivery in order, when
    publishing succeeds, and what the match flag means with one peer and with several.
  \<^item> \<open>Parameter_Config\<close> (\<open>ConfigBuilder.cpp\<close> and the structures of a configuration), \<open>Endpoint_Config\<close>
    (\<open>ParameterEndpointConfigurationUtilities.cpp\<close>: loading, validation and routing against the directory
    of sources), \<open>Protobuf_Api\<close> (what is used of the generated messages), \<open>Parameter_Types\<close> (the four
    kinds of handle under \<open>mw/lib/parameters/types\<close>) and \<open>Parameter_Service\<close> (\<open>ParameterService.cpp\<close>:
    construction, handles, server side).  Shown: characterisations of validation and routing, existence
    of the configured handles, round trips of published values, the status of a completion.
  \<^item> \<open>Diagnostics\<close> (\<open>mw/lib/diagnostics\<close>): code server and client, additional information.
  \<^item> \<open>Obfuscated_Key\<close> (\<open>ObfuscatedKey.h\<close>): the shuffle ends and is a permutation, the keys are
    injective.  \<open>Shm_Cleanup\<close> (\<open>ShmCleanup.cpp\<close>): which files are removed, descriptors and signal handler.
    \<open>Middleware_Spy\<close> (\<open>mw/lib/framework/dds/spy\<close>): the tables are a function of the discovery events.
  \<^item> \<open>Grpc_Framework\<close> (\<open>mw/lib/framework/grpc/source\<close>): the alternative transport, which is outside the build.
    Shown: its conversions are inverse, an exchange ends with the callback's reply or a timeout, its client
    is right when calls complete one at a time, and how it mixes replies up otherwise.
  \<^item> \<open>Process_Launcher\<close> (\<open>process_launcher/src/launcher.cpp\<close>): restart policy, with children that exit again while
    others are reaped and forks that fail; monitoring, termination.
    \<open>Cat_Apps\<close> (\<open>mw/apps/baseline-*\<close>, \<open>porting/cat_apps\<close>): byte codec, and the ROS 2 port refines the
    original.
  \<^item> \<open>Service_Factory\<close> (\<open>ParameterServiceFactory.cpp\<close>): how the applications obtain a service and publish in
    loops.  \<open>Value_Api\<close>: the field \<open>value\<close> of the generated message \<open>Data\<close>.  \<open>Parameters_Tester\<close>
    (\<open>mw/apps/middleware-parameters-tester\<close>): argument parser, values, actions and \<open>main\<close>.  Shown: what is
    parsed, that parsed arguments have the shape the actions need, that binary values are read as they
    are printed, that the read action ends, and that no exception escapes.
  \<^item> \<open>Latency_Stats\<close> and \<open>Param_Simulators\<close> (\<open>mw/apps/ParameterReadServer\<close>, \<open>ParameterReadClient\<close>,
    \<open>ParameterPublish\<close>, \<open>ParameterSubscribe\<close>): the sampler stays in its array and reports the statistics of
    the last fifty samples; a client of the read server finds no gap; what each sequence check counts.
    \<open>Simulator_Programs\<close> has their mains, threads and signal handler, cut into its test, store and report: what is
    read until the flag has fallen, when each program ends, and how often the handlers report.
    \<open>Parameter_Apps\<close> (\<open>mw/apps/Mapper\<close>, \<open>mw/apps/stress-tester\<close>): the mapper publishes what it receives;
    the values of the stress tester.
  \<^item> \<open>Lockup_Apps\<close> (\<open>mw/apps/lockup-*\<close>): the entities of the publishers and subscribers are returned in the
    reverse order of creation; the wait of \<open>main\<close> against the signal handler, step by step: it ends only
    through the clean-exit signal, and that signal is lost exactly in the gap before the block.
    \<open>Spy_App\<close> (\<open>mw/apps/Spy\<close>): what the spy prints.  \<open>Discovery_Server\<close> (\<open>mw/apps/DiscoveryServer\<close> and
    \<open>ApplyDiscoveryServer\<close>): the choice of the lowest address of the hosts file.
  \<^item> \<open>Demo_Pubsub\<close>, \<open>Demo_Services\<close>, \<open>Demo_Actions\<close>, \<open>Demo_Combined\<close> and \<open>Demo_Lifecycle\<close> (\<open>demo_to_cat/src\<close>): the ROS 2
    demonstration nodes.  Shown: the wave of the vehicle publisher and what its parameter callbacks accept,
    a round of the calibration service, how executions of the actions end and for which orders the
    Fibonacci server stays within 32 bits, and that the script of the lifecycle client takes the managed
    publisher through its two active phases; when the combined node keeps sending goals and when it stops for good.
  \<^item> \<open>Pugi_Chars\<close>, \<open>Pugi_Strconv\<close> and \<open>Pugi_Parser\<close> (\<open>porting/pugixml/src/pugixml.cpp\<close>): the parser of the XML library
    that the ROS 2 workspace carries, with its character classes, the conversion of text and the tree.  Shown: the
    parser ends for every text and every choice of options, what a result says about the tree and about the position
    of an error, and that a conversion in place ends with its zero before the text that is still to be read.
    \<open>Pugi_Unicode\<close> and \<open>Pugi_Load\<close>: the Unicode conversions, the guess of the encoding and the loading of a file.  Shown:
    converted buffers have the size that was computed, conversion loses nothing, and a file has the same document in
    each encoding.  \<open>Pugi_Values\<close>: numbers as text; they saturate at the range of the type and are read back.
  \<^item> This theory composes the layers: \<open>served\<close> takes a request through bindings, handler and service and
    back, and the end-to-end theorems state what the user's callback is given.

  \<^bold>\<open>Interfaces.\<close>  \<open>keyed_store\<close> is the contract of the ordered maps, interpreted on them as \<open>sm\<close>.
  \<open>completing_client\<close> is what the handles and the diagnostics rely on in a client, interpreted on
  \<open>dds::Client\<close> as \<open>rd\<close>.  \<open>two_state_flag\<close> is the contract of a connection flag, interpreted on the writer
  (\<open>wf\<close>) and the reader (\<open>rf\<close>).  \<open>bounded_writer\<close> is what a publisher relies on, interpreted on
  \<open>MessageWriter\<close> as \<open>mw\<close>.  \<open>publishing\<close> is a way to publish a value on a service, interpreted on the handles of
  the parameter service.  \<open>wire_type\<close> is the contract of a generated type, interpreted on all eleven of them.  \<open>counted_writer\<close> is a counter with the writer it
  counts for, interpreted on three encodings.  \<open>ranked\<close> is an argument for
  progress, interpreted on the pool for its end (\<open>ending\<close>) and for its queue (\<open>taking\<close>).

  \<^bold>\<open>Code outside the repository\<close> is an argument of the definitions that use it.  The outcomes of the creation
  calls of Fast DDS and of its writes, and the samples it yields, are arguments or records of outcomes.
  Fast CDR is the records \<open>cdr_reader\<close>, \<open>cdr_sizes\<close> and \<open>cdr_codec\<close> with the laws \<open>cdr_read_laws\<close> (reading calls that
  mirror the writing calls return what was written), \<open>cdr_size_laws\<close> and \<open>cdr_codec_laws\<close>; the \<open>token_\<close>
  definitions are an instance.  The registry of type objects is the record \<open>registry_api\<close> with \<open>registry_laws\<close>
  (primitive types are known, a registered name is found again), and \<open>token_registry_api\<close> is an instance.
  The generated protobuf classes are the records \<open>protobuf_api\<close> and \<open>diag_api\<close>; the properties that need it
  assume \<open>protobuf_laws\<close> (parsing what was serialised gives it back, a quality that was set is read back), and \<open>concrete_api\<close> is an instance the
  witnesses use.  The document that pugixml yields, the results of \<open>fork\<close> and \<open>waitpid\<close>, the texts under
  \<open>/proc\<close> and the directory of shared memory are arguments or state.  The accessors of a value are the record
  \<open>value_api\<close> with \<open>value_laws\<close>; \<open>boost::algorithm::unhex\<close>, \<open>std::stod\<close> and the rendering of a double are
  arguments of the tester; the transition table of \<open>rclcpp_lifecycle\<close> is the argument \<open>table\<close> with the
  documented rows \<open>documented_table\<close>; what \<open>rclcpp::ok\<close>, cancel requests and waits report are functions or lists.  The user's callbacks are functions
  on a state of their own and may fail.

  \<^bold>\<open>Loops and waits.\<close>  No definition has fuel.  A loop over a container is structural recursion; the
  loops of the shuffle, the codec, the taking of samples and the splitting of words have termination
  proofs; the loop of Fast CDR over the members of a type is a partial function into \<open>option\<close>, and that it
  returns is part of the round trips.  A wait is a function of the finite
  list of what happens before its deadline (the replies that arrive, the polls of a clock), and the
  empty rest of that list is the timeout.  Loops that are meant to run for ever (reply threads, the monitor
  of the launcher, the publisher mains) are given by one round, and the properties range over all finite
  sequences of rounds.  Keys are 16-bit and counters 32-bit words, so that wrap-around is visible.

  \<^bold>\<open>Not modelled.\<close>  The computation of keys in the generated code, which is switched off for every type; of pugixml
  all but the parser, the loading of files and the conversion of values (allocator, compact and wide-character mode, streams, XPath); \<open>Signalling.h\<close>,
  which forwards to Boost; formatting of printf arguments
  other than in the parameter programs; arithmetic on floating-point values; the tests.  The two programs \<open>ParameterBuddyGen7CDA*\<close> are marked broken in
  the build file and need headers that the repository does not have.
\<close>

section \<open>A request from end to end\<close>

text \<open>
  A request of a client through the bindings: the server executes it with its request handler, and
  the client's reply thread resolves the future.  The result is the state of that future, \<open>None\<close>
  when the server's process ends.
\<close>

definition served ::
  "operation \<Rightarrow> ('g \<Rightarrow> string) \<Rightarrow> 'u callbacks \<Rightarrow> (u16 \<times> Reply) list \<Rightarrow> 'g \<Rightarrow> 'i::linorder \<Rightarrow> bytes
     \<Rightarrow> ('i, 'g) RequestsServerLogic \<Rightarrow> 'i RequestsClient \<Rightarrow> ServerRequestHandler \<times> 'u
     \<Rightarrow> (client_exn + TransferData) option \<times> ServerRequestHandler \<times> 'u" where
  "served op show_guid cbs arrivals client i serialized sv cl hu =
     (case execute_request (\<lambda>g req. handler_Read show_guid cbs g req arrivals)
             (\<lambda>g req. handler_Write show_guid cbs g req arrivals)
             (context_of op \<lparr>protobuf = serialized\<rparr> i client) (sv, hu) of
        (Inl _, hu') \<Rightarrow> (None, hu')
      | (Inr sv', hu') \<Rightarrow>
          (Some (snd (last (cl_resolved (client_process_reply i (snd (last (sv_sent sv')))
             (cl\<lparr>cl_pending := smap_assign i op (cl_pending cl)\<rparr>))))), hu'))"

lemma served_outcome:
  assumes "impl_of op (\<lambda>g req. handler_Read show_guid cbs g req arrivals) (\<lambda>g req. handler_Write show_guid cbs g req arrivals)
      client \<lparr>protobuf = serialized\<rparr> hu = (Inr data, hu')"
  shows "served op show_guid cbs arrivals client i serialized sv cl hu = (Some (Inr data), hu')"
  using assms
  by (cases op) (simp_all add: served_def impl_of_def context_of_def make_request_def execute_request_def finish_request_def
      reply_build_defs send_reply_def client_process_reply_def resolve_def promise_process_reply_def
      count_reply_fields_def result_value_def Let_def)

text \<open>
  How a server answers a request with data: its action returns them at once, or it defers and the
  data are sent by \<open>Reply\<close> under the request's key while the call waits.
\<close>

definition answers_with ::
  "'d protobuf_api \<Rightarrow> ServerRequestHandler \<Rightarrow> (u16 \<times> Reply) list \<Rightarrow> 'd option cpp \<times> 'u \<Rightarrow> 'd \<Rightarrow> 'u \<Rightarrow> bool" where
  "answers_with api h arrivals result d u' \<longleftrightarrow>
     result = (Inr (Some d), u') \<or>
     result = (Inr None, u') \<and> smap_find (m_replies h) (m_requestKeyCounter h + 1) = None \<and>
     map_of arrivals (m_requestKeyCounter h + 1) = Some (deferred_reply api d)"

lemma ProcessRequest_answer:
  assumes "answers_with api h arrivals result d u'" "q \<noteq> []" "length (pb_ser_Data api d) \<le> n_MaxPayloadByteCount"
    and "callback (m_requestKeyCounter h + 1) \<lparr>rq_serialized_protobuf = q\<rparr> u = respond api p result"
  shows "\<exists>h'. ProcessRequest show_guid client \<lparr>protobuf = q\<rparr> callback arrivals (h, u) = (Inr \<lparr>protobuf = pb_ser_Data api d\<rparr>, h', u')"
proof (cases "result = (Inr (Some d), u')")
  case True
  then have "callback (m_requestKeyCounter h + 1) \<lparr>rq_serialized_protobuf = q\<rparr> u = (Inr (Some (deferred_reply api d)), u')"
    using assms(4) by (simp add: respond_def ReplySuccess_def deferred_reply_def pm_data_of_def Let_def)
  then show ?thesis
    using ProcessRequest_immediate_eq [of "\<lparr>protobuf = q\<rparr>" callback h u "deferred_reply api d" u' show_guid client arrivals] assms(2,3)
    by (simp add: check_size_def deferred_reply_def)
next
  case False
  then have "callback (m_requestKeyCounter h + 1) \<lparr>rq_serialized_protobuf = q\<rparr> u = (Inr None, u')"
      "smap_find (m_replies h) (m_requestKeyCounter h + 1) = None"
      "map_of arrivals (m_requestKeyCounter h + 1) = Some (deferred_reply api d)"
    using assms(1,4) by (auto simp: answers_with_def respond_def)
  then show ?thesis
    using ProcessRequest_deferred_eq [of "\<lparr>protobuf = q\<rparr>" h callback u u' show_guid client arrivals] assms(2,3)
    by (simp add: oversized_def deferred_reply_def)
qed

lemma read_served:
  assumes "protobuf_laws api" "smap_find (m_onReadActions s) (rd_identity r) = Some (Some action)"
    and "answers_with api h arrivals (action (m_requestKeyCounter h + 1) (rd_identity r) u) d u'"
    and "pb_ser_Parameter api (Read_request r) \<noteq> []" "length (pb_ser_Data api d) \<le> n_MaxPayloadByteCount"
  shows "\<exists>h'. served OpRead show_guid (service_callbacks api s) arrivals client i (pb_ser_Parameter api (Read_request r)) sv cl (h, u) =
     (Some (Inr \<lparr>protobuf = pb_ser_Data api d\<rparr>), h', u')"
proof -
  let ?q = "pb_ser_Parameter api (Read_request r)"
  have "ProcessReadRequest api s (m_requestKeyCounter h + 1) \<lparr>rq_serialized_protobuf = ?q\<rparr> u =
      respond api (Read_request r) (action (m_requestKeyCounter h + 1) (rd_identity r) u)"
    using assms(1,2) by (simp add: ProcessReadRequest_def protobuf_laws_def Read_request_def with_info_def)
  then obtain h' where "handler_Read show_guid (service_callbacks api s) client \<lparr>protobuf = ?q\<rparr> arrivals (h, u) =
      (Inr \<lparr>protobuf = pb_ser_Data api d\<rparr>, h', u')"
    using ProcessRequest_answer [OF assms(3-5), of "\<lambda>k q. m_readCallback (service_callbacks api s) k q" u "Read_request r" show_guid client]
    by (auto simp: handler_Read_def service_callbacks_def)
  then show ?thesis by (intro exI [of _ h'] served_outcome) (simp add: impl_of_def)
qed

lemma write_served:
  assumes "protobuf_laws api" "smap_find (m_onWriteActions s) (wr_identity w) = Some (Some action)"
    and "answers_with api h arrivals (action (m_requestKeyCounter h + 1) (wr_identity w) v u) d u'"
    and "pb_ser_Parameter api (Write_request w v) \<noteq> []" "length (pb_ser_Data api d) \<le> n_MaxPayloadByteCount"
  shows "\<exists>h'. served OpWrite show_guid (service_callbacks api s) arrivals client i (pb_ser_Parameter api (Write_request w v)) sv cl (h, u) =
     (Some (Inr \<lparr>protobuf = pb_ser_Data api d\<rparr>), h', u')"
proof -
  let ?q = "pb_ser_Parameter api (Write_request w v)"
  have "ProcessWriteRequest api s (m_requestKeyCounter h + 1) \<lparr>rq_serialized_protobuf = ?q\<rparr> u =
      respond api (Write_request w v) (action (m_requestKeyCounter h + 1) (wr_identity w) v u)"
    using assms(1,2) by (simp add: ProcessWriteRequest_def protobuf_laws_def Write_request_def with_info_def pm_data_of_def)
  then obtain h' where "handler_Write show_guid (service_callbacks api s) client \<lparr>protobuf = ?q\<rparr> arrivals (h, u) =
      (Inr \<lparr>protobuf = pb_ser_Data api d\<rparr>, h', u')"
    using ProcessRequest_answer [OF assms(3-5), of "\<lambda>k q. m_writeCallback (service_callbacks api s) k q" u "Write_request w v" show_guid client]
    by (auto simp: handler_Write_def service_callbacks_def)
  then show ?thesis by (intro exI [of _ h'] served_outcome) (simp add: impl_of_def)
qed

text \<open>The completion that a client's task delivers for the only request it was given.\<close>

lemma only_task_completes:
  assumes "length q \<le> n_MaxPayloadByteCount" "c_pool c = ThreadPool_new" "c_completed c = []"
  shows "c_completed (Client_run_task rpc_what (0, True, Some (Inr data)) (Client_Read q cb c)) =
      [(cb, (set_status_code STATUS_CODE_SUCCESS Reply_default)\<lparr>rp_serialized_protobuf := protobuf data\<rparr>)]"
    "c_completed (Client_run_task rpc_what (0, True, Some (Inr data)) (Client_Write q cb c)) =
      [(cb, (set_status_code STATUS_CODE_SUCCESS Reply_default)\<lparr>rp_serialized_protobuf := protobuf data\<rparr>)]"
  using assms
  by (simp_all add: Client_run_task_def Client_Read_def Client_Write_def RejectIfOversized_def ThreadPool_new_def
      ThreadPool_Add_def ThreadPool_pick_def on_complete_def task_reply_def set_status_code_def Let_def)

lemma handled_success:
  assumes "protobuf_laws api" "pb_quality api d = QUALITY_GOOD"
  shows "complete_reply api ident unit ((set_status_code STATUS_CODE_SUCCESS Reply_default)\<lparr>rp_serialized_protobuf := pb_ser_Data api d\<rparr>) =
    (SUCCESS, \<lparr>pm_identity = ident, pm_unit = unit, pm_data = Some d\<rparr>)"
  using assms by (simp add: complete_reply_def set_status_code_def protobuf_laws_def with_info_def Parameter_default_def
      set_data_quality_def Let_def)

text \<open>A service with a read action that defers and a write action that echoes.\<close>

definition ex_service :: "(cdata, nat) Service" where
  "ex_service = \<lparr>m_connectionsLoaded = True,
     m_spBroadcastParticipant = \<lparr>dp_name = ''Display'', dp_domain_id = 0, dp_pPublisher = False, dp_pSubscriber = False\<rparr>,
     m_spServerParticipant = None, m_spClientParticipants = [], m_spPublishers = [], m_spReadClients = [],
     m_spWriteClients = [], m_spSubscribers = [],
     m_onWriteActions = [(''Speed'', Some (\<lambda>key ident d u. (Inr (Some d), u + 1)))],
     m_onReadActions = [(''Speed'', Some (\<lambda>key ident u. (Inr None, u + 1)))]\<rparr>"

definition ex_client :: "'cb Client" where
  "ex_client = \<lparr>c_name = ''Display'', c_pool = ThreadPool_new, c_completed = []\<rparr>"

definition ex_read :: "string \<Rightarrow> ReadParameter" where
  "ex_read name = \<lparr>rd_identity = name, rd_unit = 3\<rparr>"

definition ex_write :: WriteParameter where
  "ex_write = \<lparr>wr_identity = ''Speed'', wr_unit = 3\<rparr>"

lemma ex_read_request:
  "pb_ser_Parameter concrete_api (Read_request (ex_read name)) \<noteq> []"
  "length name < 100 \<Longrightarrow> length (pb_ser_Parameter concrete_api (Read_request (ex_read name))) \<le> n_MaxPayloadByteCount"
  by (simp_all add: concrete_api_def enc_Parameter_def Read_request_def ex_read_def with_info_def Parameter_default_def
      enc_bytes_def enc_nat_def string_bytes_def n_MaxPayloadByteCount_def)

lemmas ex_exchange_defs = ex_service_def ex_client_def ex_read_def ex_write_def

section \<open>Properties\<close>

text \<open>
C1: A read of a parameter that a remote service provides succeeds: when the service's read action
answers with data of good quality, at once or deferred through \<open>Reply\<close>, the caller's callback is
called exactly once, with status success, the configured identity and unit, and those data.
\<close>

theorem read_end_to_end:
  assumes "protobuf_laws api" "smap_find (m_onReadActions s) (rd_identity r) = Some (Some action)"
    and "answers_with api h arrivals (action (m_requestKeyCounter h + 1) (rd_identity r) u) d u'"
    and "pb_quality api d = QUALITY_GOOD"
    and "pb_ser_Parameter api (Read_request r) \<noteq> []"
    and "length (pb_ser_Parameter api (Read_request r)) \<le> n_MaxPayloadByteCount"
    and "length (pb_ser_Data api d) \<le> n_MaxPayloadByteCount"
    and "c_pool c = ThreadPool_new" "c_completed c = []"
    and "ReadParameter_Read api r (Some f) c = Inr c1"
    and "served OpRead show_guid (service_callbacks api s) arrivals client i (pb_ser_Parameter api (Read_request r)) sv cl (h, u) =
      (future, h', v)"
  shows "\<exists>reply. c_completed (Client_run_task rpc_what (0, True, future) c1) = [((r, f), reply)] \<and>
    Read_handler api r reply = (SUCCESS, \<lparr>pm_identity = rd_identity r, pm_unit = rd_unit r, pm_data = Some d\<rparr>) \<and> v = u'"
proof -
  have "future = Some (Inr \<lparr>protobuf = pb_ser_Data api d\<rparr>)" "v = u'"
    using read_served [OF assms(1-3,5,7), of show_guid client i sv cl] assms(11) by auto
  moreover have "c1 = Client_Read (pb_ser_Parameter api (Read_request r)) (r, f) c"
    using assms(10) by (simp add: ReadParameter_Read_def)
  ultimately show ?thesis
    using only_task_completes(1) [OF assms(6,8,9)] handled_success [OF assms(1,4)] by (simp add: Read_handler_def)
qed

theorem read_end_to_end_witness:
  "\<exists>reply c1 h' v. ReadParameter_Read concrete_api (ex_read ''Speed'') (Some ()) ex_client = Inr c1 \<and>
     c_completed (Client_run_task (\<lambda>_. []) (0, True, fst (served OpRead (\<lambda>_. []) (service_callbacks concrete_api ex_service)
       [(1, deferred_reply concrete_api (QUALITY_GOOD, [7]))] () (5::nat)
       (pb_ser_Parameter concrete_api (Read_request (ex_read ''Speed''))) server_initial client_initial (handler_initial, 0))) c1) =
       [((ex_read ''Speed'', ()), reply)] \<and>
     Read_handler concrete_api (ex_read ''Speed'') reply =
       (SUCCESS, \<lparr>pm_identity = ''Speed'', pm_unit = 3, pm_data = Some (QUALITY_GOOD, [7])\<rparr>)"
proof -
  let ?arr = "[(1 :: u16, deferred_reply concrete_api (QUALITY_GOOD, [7]))]" and ?q = "pb_ser_Parameter concrete_api (Read_request (ex_read ''Speed''))"
  let ?run = "served OpRead (\<lambda>_ :: unit. []) (service_callbacks concrete_api ex_service) ?arr () (5::nat) ?q server_initial client_initial (handler_initial, 0)"
  obtain future h' v where run: "?run = (future, h', v)" by (cases ?run)
  obtain c1 where c1: "ReadParameter_Read concrete_api (ex_read ''Speed'') (Some ()) ex_client = Inr c1"
    by (simp add: ReadParameter_Read_def)
  have act: "smap_find (m_onReadActions ex_service) (rd_identity (ex_read ''Speed'')) = Some (Some (\<lambda>key ident u. (Inr None, u + 1)))"
    by (simp add: ex_exchange_defs smap_find_def)
  have ans: "answers_with concrete_api handler_initial ?arr (Inr None, (0::nat) + 1) (QUALITY_GOOD, [7]) 1"
    by (simp add: answers_with_def handler_initial_def)
  have "\<exists>reply. c_completed (Client_run_task (\<lambda>_. []) (0, True, future) c1) = [((ex_read ''Speed'', ()), reply)] \<and>
    Read_handler concrete_api (ex_read ''Speed'') reply = (SUCCESS, \<lparr>pm_identity = rd_identity (ex_read ''Speed''),
      pm_unit = rd_unit (ex_read ''Speed''), pm_data = Some (QUALITY_GOOD, [7])\<rparr>) \<and> v = 1"
    by (rule read_end_to_end [OF concrete_api_laws act ans _ ex_read_request _ _ _ c1 run])
      (simp_all add: concrete_api_def enc_Data_def enc_bytes_def enc_nat_def n_MaxPayloadByteCount_def ex_client_def)
  then show ?thesis using run c1 by (simp add: ex_read_def) blast
qed

text \<open>
C2: A write behaves likewise: the remote action is called with the data that were written, and
its answer of good quality reaches the caller's callback once, with status success.
\<close>

theorem write_end_to_end:
  assumes "protobuf_laws api" "smap_find (m_onWriteActions s) (wr_identity w) = Some (Some action)"
    and "answers_with api h arrivals (action (m_requestKeyCounter h + 1) (wr_identity w) x u) d u'"
    and "pb_quality api d = QUALITY_GOOD"
    and "pb_ser_Parameter api (Write_request w x) \<noteq> []"
    and "length (pb_ser_Parameter api (Write_request w x)) \<le> n_MaxPayloadByteCount"
    and "length (pb_ser_Data api d) \<le> n_MaxPayloadByteCount"
    and "c_pool c = ThreadPool_new" "c_completed c = []"
    and "WriteParameter_Write api w x (Some f) c = Inr c1"
    and "served OpWrite show_guid (service_callbacks api s) arrivals client i (pb_ser_Parameter api (Write_request w x)) sv cl (h, u) =
      (future, h', v)"
  shows "\<exists>reply. c_completed (Client_run_task rpc_what (0, True, future) c1) = [((w, f), reply)] \<and>
    Write_handler api w reply = (SUCCESS, \<lparr>pm_identity = wr_identity w, pm_unit = wr_unit w, pm_data = Some d\<rparr>) \<and> v = u'"
proof -
  have "future = Some (Inr \<lparr>protobuf = pb_ser_Data api d\<rparr>)" "v = u'"
    using write_served [OF assms(1-3,5,7), of show_guid client i sv cl] assms(11) by auto
  moreover have "c1 = Client_Write (pb_ser_Parameter api (Write_request w x)) (w, f) c"
    using assms(10) by (simp add: WriteParameter_Write_def)
  ultimately show ?thesis
    using only_task_completes(2) [OF assms(6,8,9)] handled_success [OF assms(1,4)] by (simp add: Write_handler_def)
qed

theorem write_end_to_end_witness:
  "\<exists>reply c1 h' v. WriteParameter_Write concrete_api ex_write (QUALITY_GOOD, [9]) (Some ()) ex_client = Inr c1 \<and>
     c_completed (Client_run_task (\<lambda>_. []) (0, True, fst (served OpWrite (\<lambda>_. []) (service_callbacks concrete_api ex_service)
       [] () (5::nat) (pb_ser_Parameter concrete_api (Write_request ex_write (QUALITY_GOOD, [9]))) server_initial client_initial
       (handler_initial, 0))) c1) = [((ex_write, ()), reply)] \<and>
     Write_handler concrete_api ex_write reply =
       (SUCCESS, \<lparr>pm_identity = ''Speed'', pm_unit = 3, pm_data = Some (QUALITY_GOOD, [9])\<rparr>)"
proof -
  let ?q = "pb_ser_Parameter concrete_api (Write_request ex_write (QUALITY_GOOD, [9]))"
  let ?run = "served OpWrite (\<lambda>_ :: unit. []) (service_callbacks concrete_api ex_service) [] () (5::nat) ?q server_initial client_initial (handler_initial, 0)"
  obtain future h' v where run: "?run = (future, h', v)" by (cases ?run)
  obtain c1 where c1: "WriteParameter_Write concrete_api ex_write (QUALITY_GOOD, [9]) (Some ()) ex_client = Inr c1"
    by (simp add: WriteParameter_Write_def)
  have act: "smap_find (m_onWriteActions ex_service) (wr_identity ex_write) = Some (Some (\<lambda>key ident d u. (Inr (Some d), u + 1)))"
    by (simp add: ex_exchange_defs smap_find_def)
  have ans: "answers_with concrete_api handler_initial [] (Inr (Some (QUALITY_GOOD, [9])), (0::nat) + 1) (QUALITY_GOOD, [9]) 1"
    by (simp add: answers_with_def)
  have "\<exists>reply. c_completed (Client_run_task (\<lambda>_. []) (0, True, future) c1) = [((ex_write, ()), reply)] \<and>
    Write_handler concrete_api ex_write reply = (SUCCESS, \<lparr>pm_identity = wr_identity ex_write,
      pm_unit = wr_unit ex_write, pm_data = Some (QUALITY_GOOD, [9])\<rparr>) \<and> v = 1"
    by (rule write_end_to_end [OF concrete_api_laws act ans _ _ _ _ _ _ c1 run])
      (simp_all add: concrete_api_def enc_Parameter_def Write_request_def ex_write_def with_info_def Parameter_default_def
        string_bytes_def enc_Data_def enc_bytes_def enc_nat_def n_MaxPayloadByteCount_def ex_client_def)
  then show ?thesis using run c1 by (simp add: ex_write_def) blast
qed

text \<open>
C13: A read of a parameter the service has no action for is no transport error: the not-found status
of the service is lost on the way, the reply arrives with the transport's success code, and it is the
quality not-received of the data that makes the caller's callback see a failure.
\<close>

theorem not_found_end_to_end:
  assumes "protobuf_laws api" "smap_find (m_onReadActions s) (rd_identity r) = None"
    and "pb_ser_Parameter api (Read_request r) \<noteq> []"
    and "length (pb_ser_Parameter api (Read_request r)) \<le> n_MaxPayloadByteCount"
    and "length (pb_ser_Data api (pb_set_quality api QUALITY_NOT_RECEIVED (pb_default api))) \<le> n_MaxPayloadByteCount"
    and "c_pool c = ThreadPool_new" "c_completed c = []"
    and "ReadParameter_Read api r (Some f) c = Inr c1"
    and "served OpRead show_guid (service_callbacks api s) arrivals client i (pb_ser_Parameter api (Read_request r)) sv cl (h, u) =
      (future, h', v)"
  shows "\<exists>reply. c_completed (Client_run_task rpc_what (0, True, future) c1) = [((r, f), reply)] \<and>
    status_code (rp_status reply) = STATUS_CODE_SUCCESS \<and> v = u \<and>
    Read_handler api r reply = (FAILURE, \<lparr>pm_identity = rd_identity r, pm_unit = rd_unit r,
      pm_data = Some (pb_set_quality api QUALITY_NOT_RECEIVED (pb_default api))\<rparr>)"
proof -
  let ?d = "pb_set_quality api QUALITY_NOT_RECEIVED (pb_default api)" and ?q = "pb_ser_Parameter api (Read_request r)"
  obtain reply where cb: "m_readCallback (service_callbacks api s) (m_requestKeyCounter h + 1) \<lparr>rq_serialized_protobuf = ?q\<rparr> u =
      (Inr (Some reply), u)" and ser: "rp_serialized_protobuf reply = pb_ser_Data api ?d"
    using assms(1,2) by (auto simp: service_callbacks_def ProcessReadRequest_def protobuf_laws_def Read_request_def with_info_def
        ReplyNotFound_def set_data_quality_def pm_data_of_def Parameter_default_def Let_def)
  have "future = Some (Inr \<lparr>protobuf = pb_ser_Data api ?d\<rparr>)" "v = u"
    using ProcessRequest_immediate_eq [of "\<lparr>protobuf = ?q\<rparr>" "\<lambda>k q. m_readCallback (service_callbacks api s) k q" h u reply u
        show_guid client arrivals] served_outcome [of OpRead show_guid "service_callbacks api s" arrivals client ?q "(h, u)"
        "\<lparr>protobuf = pb_ser_Data api ?d\<rparr>" _ i sv cl] cb ser assms(3,5,9)
    by (auto simp: impl_of_def handler_Read_def check_size_def)
  moreover have "c1 = Client_Read ?q (r, f) c"
    using assms(8) by (simp add: ReadParameter_Read_def)
  ultimately show ?thesis
    using only_task_completes(1) [OF assms(4,6,7)] assms(1)
    by (simp add: Read_handler_def complete_reply_def set_status_code_def protobuf_laws_def with_info_def
        Parameter_default_def set_data_quality_def pm_data_of_def Let_def)
qed

theorem not_found_end_to_end_witness:
  "\<exists>reply c1. ReadParameter_Read concrete_api (ex_read ''Fuel'') (Some ()) ex_client = Inr c1 \<and>
     c_completed (Client_run_task (\<lambda>_. []) (0, True, fst (served OpRead (\<lambda>_. []) (service_callbacks concrete_api ex_service)
       [] () (5::nat) (pb_ser_Parameter concrete_api (Read_request (ex_read ''Fuel''))) server_initial client_initial
       (handler_initial, 0))) c1) = [((ex_read ''Fuel'', ()), reply)] \<and>
     fst (Read_handler concrete_api (ex_read ''Fuel'') reply) = FAILURE"
proof -
  let ?q = "pb_ser_Parameter concrete_api (Read_request (ex_read ''Fuel''))"
  let ?run = "served OpRead (\<lambda>_ :: unit. []) (service_callbacks concrete_api ex_service) [] () (5::nat) ?q server_initial client_initial (handler_initial, 0)"
  obtain future h' v where run: "?run = (future, h', v)" by (cases ?run)
  obtain c1 where c1: "ReadParameter_Read concrete_api (ex_read ''Fuel'') (Some ()) ex_client = Inr c1"
    by (simp add: ReadParameter_Read_def)
  have act: "smap_find (m_onReadActions ex_service) (rd_identity (ex_read ''Fuel'')) = None"
    by (simp add: ex_exchange_defs smap_find_def)
  have "\<exists>reply. c_completed (Client_run_task (\<lambda>_. []) (0, True, future) c1) = [((ex_read ''Fuel'', ()), reply)] \<and>
    status_code (rp_status reply) = STATUS_CODE_SUCCESS \<and> v = 0 \<and>
    Read_handler concrete_api (ex_read ''Fuel'') reply = (FAILURE, \<lparr>pm_identity = rd_identity (ex_read ''Fuel''),
      pm_unit = rd_unit (ex_read ''Fuel''),
      pm_data = Some (pb_set_quality concrete_api QUALITY_NOT_RECEIVED (pb_default concrete_api))\<rparr>)"
    by (rule not_found_end_to_end [OF concrete_api_laws act ex_read_request _ _ _ c1 run])
      (simp_all add: concrete_api_def enc_Data_def enc_bytes_def enc_nat_def n_MaxPayloadByteCount_def ex_client_def)
  then show ?thesis using run c1 by (metis fst_conv)
qed

end
